(* ===== verification/Lab_Prelude.thy ===== *)
theory Lab_Prelude
  imports Main "HOL-Library.Sublist" "HOL-Library.Multiset"
begin

text \<open>
  Shared vocabulary of the development: Go values, errors and strings as the packages under
  \<^verbatim>\<open>src/internal\<close> use them, table updates by key, and the generic lemmas the component
  theories rest on.

  A Go \<^verbatim>\<open>string\<close> is a byte sequence, here a \<^typ>\<open>string\<close> whose characters are bytes.
  An operation that returns \<^verbatim>\<open>(T, error)\<close> returns a value of \<^typ>\<open>string + 'a\<close>:
  \<^term>\<open>Inl e\<close> carries the error text, \<^term>\<open>Inr v\<close> the result.
  A \<^verbatim>\<open>time.Time\<close> is the number of nanoseconds since Go's zero time, so
  \<^verbatim>\<open>IsZero\<close> is equality with 0, \<^verbatim>\<open>After\<close> is \<open>>\<close> and \<^verbatim>\<open>Before\<close> is \<open><\<close>.
\<close>

section \<open>Types and collections\<close>

type_synonym 'a result = "string + 'a"
type_synonym instant = int
type_synonym duration = int

named_theorems go_strings \<open>facts on the string functions of Go's standard library\<close>
named_theorems table_simps \<open>facts on rows of a table addressed by key\<close>
named_theorems lab_defs \<open>definitions a component proof unfolds\<close>

text \<open>
  The dynamic type \<^verbatim>\<open>any\<close>, as far as the sources build or inspect it. \<open>ATime\<close> stands for
  the text of a timestamp by the instant it denotes; \<open>AStrs\<close> is a \<^verbatim>\<open>[]string\<close>,
  \<open>AArr\<close> an \<^verbatim>\<open>[]any\<close>.
\<close>

datatype any_val =
    ANil
  | ABool bool
  | AInt int
  | AStr string
  | ATime instant
  | AStrs "string list"
  | AArr "any_val list"
  | AMap "string \<Rightarrow> any_val option"

type_synonym any_map = "string \<rightharpoonup> any_val"

definition second :: duration where
  "second = 1000000000"

definition minute :: duration where
  "minute = 60 * second"

definition hour :: duration where
  "hour = 60 * minute"

definition day :: duration where
  "day = 24 * hour"

lemmas duration_defs = second_def minute_def hour_def day_def

text \<open>
  \<^verbatim>\<open>time.Duration\<close> and \<^verbatim>\<open>int\<close> are 64 bits wide; a product of the two wraps around.
\<close>

definition wrap64 :: "int \<Rightarrow> int" where
  "wrap64 x = (x + 2 ^ 63) mod 2 ^ 64 - 2 ^ 63"

lemma wrap64_id: "- (2 ^ 63) \<le> x \<Longrightarrow> x < 2 ^ 63 \<Longrightarrow> wrap64 x = x"
  by (simp add: wrap64_def)

section \<open>Strings\<close>

text \<open>
  \<^verbatim>\<open>strings.TrimSpace\<close> removes Unicode white space at both ends. On UTF-8 bytes a white space
  character is one of the byte sequences below (U+0009 to U+000D, U+0020, U+0085, U+00A0, U+1680,
  U+2000 to U+200A, U+2028, U+2029, U+202F, U+205F, U+3000).
\<close>

definition space_seqs :: "string list" where
  "space_seqs =
     [[CHR 0x20], [CHR 0x09], [CHR 0x0A], [CHR 0x0B], [CHR 0x0C], [CHR 0x0D],
      [CHR 0xC2, CHR 0x85], [CHR 0xC2, CHR 0xA0], [CHR 0xE1, CHR 0x9A, CHR 0x80],
      [CHR 0xE2, CHR 0x80, CHR 0x80], [CHR 0xE2, CHR 0x80, CHR 0x81],
      [CHR 0xE2, CHR 0x80, CHR 0x82], [CHR 0xE2, CHR 0x80, CHR 0x83],
      [CHR 0xE2, CHR 0x80, CHR 0x84], [CHR 0xE2, CHR 0x80, CHR 0x85],
      [CHR 0xE2, CHR 0x80, CHR 0x86], [CHR 0xE2, CHR 0x80, CHR 0x87],
      [CHR 0xE2, CHR 0x80, CHR 0x88], [CHR 0xE2, CHR 0x80, CHR 0x89],
      [CHR 0xE2, CHR 0x80, CHR 0x8A], [CHR 0xE2, CHR 0x80, CHR 0xA8],
      [CHR 0xE2, CHR 0x80, CHR 0xA9], [CHR 0xE2, CHR 0x80, CHR 0xAF],
      [CHR 0xE2, CHR 0x81, CHR 0x9F], [CHR 0xE3, CHR 0x80, CHR 0x80]]"

fun strip_one :: "string list \<Rightarrow> string \<Rightarrow> string option" where
  "strip_one [] s = None"
| "strip_one (p # ps) s =
     (if p \<noteq> [] \<and> prefix p s then Some (drop (length p) s) else strip_one ps s)"

lemma strip_one_length: "strip_one ps s = Some t \<Longrightarrow> length t < length s"
proof (induction ps)
  case (Cons p ps)
  then show ?case
    by (cases p; cases s) (auto split: if_splits)
qed simp

function strip_front :: "string list \<Rightarrow> string \<Rightarrow> string" where
  "strip_front ps s = (case strip_one ps s of None \<Rightarrow> s | Some t \<Rightarrow> strip_front ps t)"
  by pat_completeness auto
termination
  by (relation "measure (\<lambda>(ps, s). length s)") (auto dest: strip_one_length)

declare strip_front.simps [simp del]

definition TrimLeftSpace :: "string \<Rightarrow> string" where
  "TrimLeftSpace s = strip_front space_seqs s"

definition TrimRightSpace :: "string \<Rightarrow> string" where
  "TrimRightSpace s = rev (strip_front (map rev space_seqs) (rev s))"

definition TrimSpace :: "string \<Rightarrow> string" where
  "TrimSpace s = TrimRightSpace (TrimLeftSpace s)"

definition HasPrefix :: "string \<Rightarrow> string \<Rightarrow> bool" where
  "HasPrefix s p \<longleftrightarrow> take (length p) s = p"

definition HasSuffix :: "string \<Rightarrow> string \<Rightarrow> bool" where
  "HasSuffix s p \<longleftrightarrow> length p \<le> length s \<and> drop (length s - length p) s = p"

definition TrimPrefix :: "string \<Rightarrow> string \<Rightarrow> string" where
  "TrimPrefix s p = (if HasPrefix s p then drop (length p) s else s)"

definition TrimSuffix :: "string \<Rightarrow> string \<Rightarrow> string" where
  "TrimSuffix s p = (if HasSuffix s p then take (length s - length p) s else s)"

text \<open>\<^verbatim>\<open>a < b\<close> on Go strings compares bytes lexicographically.\<close>

fun str_less :: "string \<Rightarrow> string \<Rightarrow> bool" where
  "str_less xs [] = False"
| "str_less [] (y # ys) = True"
| "str_less (x # xs) (y # ys) =
     (of_char x < (of_char y :: nat) \<or> (x = y \<and> str_less xs ys))"

lemma strip_one_Nil [simp]: "strip_one ps [] = None"
  by (induction ps) auto

lemma strip_front_Nil [simp]: "strip_front ps [] = []"
  by (simp add: strip_front.simps)

lemma TrimSpace_Nil [simp, go_strings]: "TrimSpace [] = []"
  by (simp add: TrimSpace_def TrimLeftSpace_def TrimRightSpace_def)

lemma strip_front_None: "strip_one ps (strip_front ps s) = None"
proof (induction ps s rule: strip_front.induct)
  case (1 ps s)
  then show ?case
    by (cases "strip_one ps s") (simp_all add: strip_front.simps [of ps s])
qed

lemma strip_front_idem [simp]: "strip_front ps (strip_front ps s) = strip_front ps s"
  by (subst strip_front.simps) (simp add: strip_front_None)

lemma HasPrefix_iff: "HasPrefix s p \<longleftrightarrow> prefix p s"
  by (auto simp: HasPrefix_def prefix_def) (metis append_take_drop_id)

lemma HasPrefix_append [simp, go_strings]: "HasPrefix (p @ s) p"
  by (simp add: HasPrefix_def)

lemma TrimPrefix_append [simp, go_strings]: "TrimPrefix (p @ s) p = s"
  by (simp add: TrimPrefix_def)

lemma HasSuffix_append [simp, go_strings]: "HasSuffix (s @ p) p"
  by (simp add: HasSuffix_def)

lemma TrimSuffix_append [simp, go_strings]: "TrimSuffix (s @ p) p = s"
  by (simp add: TrimSuffix_def)

text \<open>A text that starts and ends with a visible ASCII character is trimmed already.\<close>

definition visible :: "char \<Rightarrow> bool" where
  "visible c \<longleftrightarrow> 0x20 < (of_char c :: nat) \<and> (of_char c :: nat) < 0x7F"

definition solid :: "string \<Rightarrow> bool" where
  "solid s \<longleftrightarrow> s \<noteq> [] \<and> visible (hd s) \<and> visible (last s)"

lemma strip_front_visible:
  assumes "visible (hd s)" and "\<forall>p \<in> set ps. p = [] \<or> \<not> visible (hd p)"
  shows "strip_front ps s = s"
proof -
  have "strip_one ps s = None"
    using assms by (induction ps) (auto simp: prefix_def)
  then show ?thesis by (simp add: strip_front.simps)
qed

lemma TrimSpace_solid [go_strings]: "solid s \<Longrightarrow> TrimSpace s = s"
proof -
  assume s: "solid s"
  have front: "\<forall>p \<in> set space_seqs. p = [] \<or> \<not> visible (hd p)"
    and rear: "\<forall>p \<in> set (map rev space_seqs). p = [] \<or> \<not> visible (hd p)"
    by (simp_all add: space_seqs_def visible_def)
  have "TrimLeftSpace s = s"
    unfolding TrimLeftSpace_def by (rule strip_front_visible) (use s front in \<open>auto simp: solid_def\<close>)
  moreover have "strip_front (map rev space_seqs) (rev s) = rev s"
    by (rule strip_front_visible) (use s rear in \<open>auto simp: solid_def hd_rev\<close>)
  ultimately show "TrimSpace s = s" by (simp add: TrimSpace_def TrimRightSpace_def)
qed

lemma str_less_irrefl [simp]: "\<not> str_less xs xs"
  by (induction xs) auto

lemma str_less_trans: "str_less xs ys \<Longrightarrow> str_less ys zs \<Longrightarrow> str_less xs zs"
proof (induction xs ys arbitrary: zs rule: str_less.induct)
  case (1 xs)
  then show ?case by simp
next
  case (2 y ys)
  then show ?case by (cases zs) auto
next
  case (3 x xs y ys)
  then show ?case by (cases zs) (auto dest: less_trans)
qed

lemma str_less_total: "str_less xs ys \<or> xs = ys \<or> str_less ys xs"
proof (induction xs ys rule: str_less.induct)
  case (1 xs)
  then show ?case by (cases xs) auto
next
  case (2 y ys)
  then show ?case by simp
next
  case (3 x xs y ys)
  have "of_char x < (of_char y :: nat) \<or> x = y \<or> of_char y < (of_char x :: nat)"
    by (metis linorder_neqE_nat of_char_eq_iff)
  with 3 show ?case by auto
qed

section \<open>Paths\<close>

text \<open>\<^verbatim>\<open>filepath.Clean\<close> and \<^verbatim>\<open>filepath.Join\<close> on slash-separated paths.\<close>

fun split_on :: "char \<Rightarrow> string \<Rightarrow> string list" where
  "split_on c [] = [[]]"
| "split_on c (x # xs) =
     (if x = c then [] # split_on c xs
      else (case split_on c xs of [] \<Rightarrow> [[x]] | w # ws \<Rightarrow> (x # w) # ws))"

fun join_with :: "string \<Rightarrow> string list \<Rightarrow> string" where
  "join_with sep [] = []"
| "join_with sep [w] = w"
| "join_with sep (w # v # ws) = w @ sep @ join_with sep (v # ws)"

definition clean_step :: "bool \<Rightarrow> string \<Rightarrow> string list \<Rightarrow> string list" where
  "clean_step rooted w stack =
     (if w = [] \<or> w = ''.'' then stack
      else if w = ''..'' then
        (case stack of
           [] \<Rightarrow> if rooted then [] else [''..'']
         | t # ts \<Rightarrow> if t = ''..'' then ''..'' # stack else ts)
      else w # stack)"

definition path_clean :: "string \<Rightarrow> string" where
  "path_clean p =
     (let rooted = (p \<noteq> [] \<and> hd p = CHR ''/'');
          out = join_with ''/'' (rev (fold (clean_step rooted) (split_on CHR ''/'' p) []))
      in if rooted then ''/'' @ out else if out = [] then ''.'' else out)"

definition path_join :: "string \<Rightarrow> string \<Rightarrow> string" where
  "path_join a b =
     (if a \<noteq> [] then path_clean (a @ ''/'' @ b) else if b \<noteq> [] then path_clean b else [])"

section \<open>Tables\<close>

text \<open>
  A database table or a keyed file is a list of rows. \<open>upd_row key k f\<close> is
  \<^verbatim>\<open>UPDATE ... WHERE id = k\<close>; \<open>find_row key k\<close> is \<^verbatim>\<open>SELECT ... WHERE id = k\<close>.
\<close>

definition find_row :: "('r \<Rightarrow> 'k) \<Rightarrow> 'k \<Rightarrow> 'r list \<Rightarrow> 'r option" where
  "find_row key k rows = find (\<lambda>r. key r = k) rows"

definition upd_row :: "('r \<Rightarrow> 'k) \<Rightarrow> 'k \<Rightarrow> ('r \<Rightarrow> 'r) \<Rightarrow> 'r list \<Rightarrow> 'r list" where
  "upd_row key k f rows = map (\<lambda>r. if key r = k then f r else r) rows"

abbreviation keyed :: "('r \<Rightarrow> 'k) \<Rightarrow> 'r list \<Rightarrow> bool" where
  "keyed key rows \<equiv> distinct (map key rows)"

lemma find_row_Nil [simp, table_simps]: "find_row key k [] = None"
  by (simp add: find_row_def)

lemma find_row_Cons [simp, table_simps]:
  "find_row key k (r # rs) = (if key r = k then Some r else find_row key k rs)"
  by (simp add: find_row_def)

lemma upd_row_Nil [simp, table_simps]: "upd_row key k f [] = []"
  by (simp add: upd_row_def)

lemma upd_row_Cons [simp, table_simps]:
  "upd_row key k f (r # rs) = (if key r = k then f r else r) # upd_row key k f rs"
  by (simp add: upd_row_def)

lemma find_row_append [table_simps]:
  "find_row key k (xs @ ys) =
     (case find_row key k xs of None \<Rightarrow> find_row key k ys | Some r \<Rightarrow> Some r)"
  by (induction xs) auto

lemma find_row_SomeD: "find_row key k rows = Some r \<Longrightarrow> r \<in> set rows \<and> key r = k"
  by (induction rows) (auto split: if_splits)

lemma find_row_None_iff: "find_row key k rows = None \<longleftrightarrow> k \<notin> key ` set rows"
  by (induction rows) auto

lemma find_row_keyed: "keyed key rows \<Longrightarrow> r \<in> set rows \<Longrightarrow> find_row key (key r) rows = Some r"
  by (induction rows) (auto simp: image_iff)

lemma find_row_upd_same [table_simps]:
  assumes "\<And>r. key (f r) = key r"
  shows "find_row key k (upd_row key k f rows) = map_option f (find_row key k rows)"
  by (induction rows) (auto simp: assms)

lemma find_row_upd_other [table_simps]:
  assumes "\<And>r. key (f r) = key r" and "k \<noteq> j"
  shows "find_row key j (upd_row key k f rows) = find_row key j rows"
  using assms(2) by (induction rows) (auto simp: assms(1))

lemma map_key_upd_row [simp, table_simps]:
  assumes "\<And>r. key (f r) = key r"
  shows "map key (upd_row key k f rows) = map key rows"
  by (induction rows) (auto simp: assms)

lemma length_upd_row [simp, table_simps]: "length (upd_row key k f rows) = length rows"
  by (simp add: upd_row_def)

lemma set_upd_row: "r \<in> set (upd_row key k f rows) \<Longrightarrow>
    (r \<in> set rows \<and> key r \<noteq> k) \<or> (\<exists>q \<in> set rows. key q = k \<and> r = f q)"
  by (induction rows) (auto split: if_splits)

section \<open>Sorting by a comparison\<close>

text \<open>
  \<^verbatim>\<open>sort.SliceStable\<close> with a strict comparison \<open>lt\<close>: a stable insertion sort. Every element is
  placed after the elements it is not smaller than.
\<close>

fun insert_by :: "('a \<Rightarrow> 'a \<Rightarrow> bool) \<Rightarrow> 'a \<Rightarrow> 'a list \<Rightarrow> 'a list" where
  "insert_by lt x [] = [x]"
| "insert_by lt x (y # ys) = (if lt y x then y # insert_by lt x ys else x # y # ys)"

definition sort_by :: "('a \<Rightarrow> 'a \<Rightarrow> bool) \<Rightarrow> 'a list \<Rightarrow> 'a list" where
  "sort_by lt xs = foldr (insert_by lt) xs []"

lemma sort_by_Nil [simp]: "sort_by lt [] = []"
  by (simp add: sort_by_def)

lemma sort_by_Cons [simp]: "sort_by lt (x # xs) = insert_by lt x (sort_by lt xs)"
  by (simp add: sort_by_def)

lemma mset_insert_by [simp]: "mset (insert_by lt x ys) = add_mset x (mset ys)"
  by (induction ys) auto

lemma mset_sort_by [simp]: "mset (sort_by lt xs) = mset xs"
  by (induction xs) auto

lemma set_insert_by [simp]: "set (insert_by lt x ys) = insert x (set ys)"
  by (induction ys) auto

lemma set_sort_by [simp]: "set (sort_by lt xs) = set xs"
  by (induction xs) auto

lemma length_sort_by [simp]: "length (sort_by lt xs) = length xs"
  by (metis mset_sort_by size_mset)

lemma sorted_insert_by:
  assumes tr: "\<And>a b c. \<not> lt b a \<Longrightarrow> \<not> lt c b \<Longrightarrow> \<not> lt c a"
    and asym: "\<And>a b. lt a b \<Longrightarrow> \<not> lt b a"
    and s: "sorted_wrt (\<lambda>a b. \<not> lt b a) ys"
  shows "sorted_wrt (\<lambda>a b. \<not> lt b a) (insert_by lt x ys)"
  using s
proof (induction ys)
  case Nil
  then show ?case by simp
next
  case (Cons y ys)
  show ?case
  proof (cases "lt y x")
    case True
    with Cons asym show ?thesis by auto
  next
    case False
    then have "\<forall>z \<in> set ys. \<not> lt z x" using Cons.prems tr [of y x] by simp
    with Cons.prems False show ?thesis by simp
  qed
qed

lemma sorted_sort_by:
  assumes "\<And>a b c. \<not> lt b a \<Longrightarrow> \<not> lt c b \<Longrightarrow> \<not> lt c a" and "\<And>a b. lt a b \<Longrightarrow> \<not> lt b a"
  shows "sorted_wrt (\<lambda>a b. \<not> lt b a) (sort_by lt xs)"
  by (induction xs) (auto intro: sorted_insert_by [OF assms])

text \<open>A comparison that agrees with a key in a linear order sorts by that key.\<close>

lemma sorted_insert_by_key:
  fixes f :: "'a \<Rightarrow> 'b :: linorder"
  assumes "\<And>y. y \<in> set ys \<Longrightarrow> lt y x \<Longrightarrow> f y \<le> f x" and "\<And>y. y \<in> set ys \<Longrightarrow> \<not> lt y x \<Longrightarrow> f x \<le> f y"
    and "sorted_wrt (\<lambda>a b. f a \<le> f b) ys"
  shows "sorted_wrt (\<lambda>a b. f a \<le> f b) (insert_by lt x ys)"
  using assms by (induction ys) (auto dest: order_trans)

lemma sort_by_key_sorted:
  fixes f :: "'a \<Rightarrow> 'b :: linorder"
  assumes "\<And>a b. a \<in> set xs \<Longrightarrow> b \<in> set xs \<Longrightarrow> lt a b \<Longrightarrow> f a \<le> f b"
    and "\<And>a b. a \<in> set xs \<Longrightarrow> b \<in> set xs \<Longrightarrow> \<not> lt a b \<Longrightarrow> f b \<le> f a"
  shows "sorted_wrt (\<lambda>a b. f a \<le> f b) (sort_by lt xs)"
  using assms
proof (induction xs)
  case (Cons x xs)
  then have "sorted_wrt (\<lambda>a b. f a \<le> f b) (sort_by lt xs)" by simp
  then show ?case using Cons.prems by (auto intro!: sorted_insert_by_key)
qed simp

end
