(* ===== verification/Task_Domain.thy ===== *)
theory Task_Domain
  imports Lab_Prelude
begin

text \<open>
  The task vocabulary of the orchestrator (\<^verbatim>\<open>src/internal/orchestratorgo/domain/types.go\<close>): the
  ten task states, the transition table, and the rows of the task, approval, transition and bridge
  tables. The state column is the PostgreSQL enum \<^verbatim>\<open>taskstate\<close>, so a state is a datatype; agent
  types, priorities and execution targets are plain strings in the code and stay strings here.
\<close>

section \<open>States and transitions\<close>

datatype task_state =
    Created | Queued | Assigned | InProgress | WaitingApproval
  | Review | Retrying | Completed | Failed | Cancelled

instantiation task_state :: enum
begin

definition enum_task_state :: "task_state list" where
  "enum_task_state =
     [Created, Queued, Assigned, InProgress, WaitingApproval, Review, Retrying, Completed, Failed, Cancelled]"

definition enum_all_task_state :: "(task_state \<Rightarrow> bool) \<Rightarrow> bool" where
  "enum_all_task_state P \<longleftrightarrow> list_all P enum_class.enum"

definition enum_ex_task_state :: "(task_state \<Rightarrow> bool) \<Rightarrow> bool" where
  "enum_ex_task_state P \<longleftrightarrow> list_ex P enum_class.enum"

instance
proof
  have univ: "x \<in> set enum_class.enum" for x :: task_state
    by (cases x) (simp_all add: enum_task_state_def)
  then show "UNIV = set (enum_class.enum :: task_state list)" by auto
  show "distinct (enum_class.enum :: task_state list)" by (simp add: enum_task_state_def)
  show "enum_class.enum_all P \<longleftrightarrow> Ball UNIV P" for P :: "task_state \<Rightarrow> bool"
    using univ by (auto simp: enum_all_task_state_def list_all_iff)
  show "enum_class.enum_ex P \<longleftrightarrow> Bex UNIV P" for P :: "task_state \<Rightarrow> bool"
    using univ by (auto simp: enum_ex_task_state_def list_ex_iff)
qed

end

fun stateText :: "task_state \<Rightarrow> string" where
  "stateText Created = ''created''"
| "stateText Queued = ''queued''"
| "stateText Assigned = ''assigned''"
| "stateText InProgress = ''in_progress''"
| "stateText WaitingApproval = ''waiting_approval''"
| "stateText Review = ''review''"
| "stateText Retrying = ''retrying''"
| "stateText Completed = ''completed''"
| "stateText Failed = ''failed''"
| "stateText Cancelled = ''cancelled''"

definition terminalStates :: "task_state list" where
  "terminalStates = [Completed, Failed, Cancelled]"

fun validTransitions :: "task_state \<Rightarrow> task_state list" where
  "validTransitions Created = [Queued, WaitingApproval, Cancelled]"
| "validTransitions Queued = [Assigned, Cancelled]"
| "validTransitions Assigned = [InProgress, Failed, Cancelled]"
| "validTransitions InProgress = [WaitingApproval, Review, Completed, Failed, Cancelled, Retrying]"
| "validTransitions WaitingApproval = [InProgress, Queued, Cancelled, Failed]"
| "validTransitions Retrying = [InProgress, Failed, Cancelled]"
| "validTransitions Review = [Completed, InProgress, Failed]"
| "validTransitions _ = []"

definition IsTerminalState :: "task_state \<Rightarrow> bool" where
  "IsTerminalState s \<longleftrightarrow> s \<in> set terminalStates"

definition GetValidTransitions :: "task_state \<Rightarrow> task_state list" where
  "GetValidTransitions s = validTransitions s"

definition IsValidTransition :: "task_state \<Rightarrow> task_state \<Rightarrow> bool" where
  "IsValidTransition current target \<longleftrightarrow> target \<in> set (validTransitions current)"

definition ValidTransitionStrings :: "task_state \<Rightarrow> string list" where
  "ValidTransitionStrings s = map stateText (GetValidTransitions s)"

definition AgentTypePlanner :: string where "AgentTypePlanner = ''planner''"
definition AgentTypeCoder :: string where "AgentTypeCoder = ''coder''"
definition AgentTypeReviewer :: string where "AgentTypeReviewer = ''reviewer''"
definition AgentTypeInfra :: string where "AgentTypeInfra = ''infra''"
definition AgentTypeResearcher :: string where "AgentTypeResearcher = ''researcher''"

definition PriorityCritical :: string where "PriorityCritical = ''critical''"
definition PriorityHigh :: string where "PriorityHigh = ''high''"
definition PriorityNormal :: string where "PriorityNormal = ''normal''"
definition PriorityLow :: string where "PriorityLow = ''low''"

definition ExecutionTargetRemote :: string where "ExecutionTargetRemote = ''remote''"
definition ExecutionTargetLocal :: string where "ExecutionTargetLocal = ''local''"

lemmas agent_defs = AgentTypePlanner_def AgentTypeCoder_def AgentTypeReviewer_def
  AgentTypeInfra_def AgentTypeResearcher_def
lemmas target_defs = ExecutionTargetRemote_def ExecutionTargetLocal_def

datatype approval_status = Pending | Approved | Rejected | TimedOut

section \<open>Rows\<close>

record task =
  tID :: string
  tState :: task_state
  tDescription :: string
  tMetadata :: any_map
  tParentTaskID :: "string option"
  tRootTaskID :: "string option"
  tTaskKind :: string
  tAssignedAgent :: "string option"
  tPlannedAgent :: "string option"
  tPriority :: string
  tExecutionTarget :: string
  tInitiativeID :: "string option"
  tWorkspacePath :: "string option"
  tRetryCount :: int
  tMaxRetries :: int
  tIdempotencyKey :: "string option"
  tCorrelationID :: string
  tResults :: "any_val option"
  tErrorMessage :: "string option"
  tCreatedAt :: instant
  tUpdatedAt :: instant
  tStartedAt :: "instant option"
  tCompletedAt :: "instant option"
  tQueuedAt :: "instant option"
  tArchivedAt :: "instant option"

record approval =
  aID :: string
  aTaskID :: string
  aActionType :: string
  aTargetResource :: string
  aStatus :: approval_status
  aOperator :: "string option"
  aTimeoutSeconds :: int
  aEscalationLevel :: int
  aRequestedAt :: instant
  aResolvedAt :: "instant option"
  aTimeoutAt :: instant

record state_transition =
  xID :: string
  xTaskID :: string
  xFrom :: task_state
  xTo :: task_state
  xActor :: string
  xReason :: string
  xTimestamp :: instant

record bridge =
  bID :: string
  bName :: string
  bHostname :: string
  bWorkspaceRoot :: string
  bStatus :: string
  bCapabilities :: any_map
  bAPIKeyName :: "string option"
  bLastHeartbeat :: instant
  bCreatedAt :: instant
  bUpdatedAt :: instant

section \<open>The transition table\<close>

lemma stateText_inj: "stateText s = stateText t \<longleftrightarrow> s = t"
  by (cases s; cases t) simp_all

lemma IsTerminalState_simps [simp]:
  "\<not> IsTerminalState Created" "\<not> IsTerminalState Queued" "\<not> IsTerminalState Assigned"
  "\<not> IsTerminalState InProgress" "\<not> IsTerminalState WaitingApproval" "\<not> IsTerminalState Review"
  "\<not> IsTerminalState Retrying" "IsTerminalState Completed" "IsTerminalState Failed"
  "IsTerminalState Cancelled"
  by (simp_all add: IsTerminalState_def terminalStates_def)

lemma terminal_no_transition: "IsTerminalState s \<Longrightarrow> \<not> IsValidTransition s t"
  by (cases s) (simp_all add: IsValidTransition_def)

inductive task_path :: "task_state \<Rightarrow> task_state \<Rightarrow> bool" where
  stay: "task_path s s"
| move: "task_path s t \<Longrightarrow> IsValidTransition t u \<Longrightarrow> task_path s u"

inductive_cases task_pathE: "task_path s t"

lemma task_path_terminal: "task_path s t \<Longrightarrow> IsTerminalState s \<Longrightarrow> t = s"
  by (induction rule: task_path.induct) (auto dest: terminal_no_transition)

lemma task_path_step: "IsValidTransition s t \<Longrightarrow> task_path s t"
  by (rule task_path.move [OF task_path.stay])

lemma task_path_trans: "task_path t u \<Longrightarrow> task_path s t \<Longrightarrow> task_path s u"
  by (induction rule: task_path.induct) (auto intro: task_path.move)

lemma reach_failed:
  assumes "\<not> IsTerminalState s"
  shows "\<exists>t. task_path s t \<and> IsTerminalState t"
proof -
  have "IsValidTransition s Failed \<or> IsValidTransition s Cancelled"
    using assms by (cases s) (simp_all add: IsValidTransition_def)
  then show ?thesis using task_path_step by (metis IsTerminalState_simps(9,10))
qed

text \<open>
  The terminal states are exactly the states the transition table gives no successor, no path of
  valid transitions leaves them, and from every state some terminal state can be reached.
\<close>

theorem terminal_states_are_the_sinks:
  "(IsTerminalState s \<longleftrightarrow> GetValidTransitions s = []) \<and>
   (IsTerminalState s \<and> task_path s t \<longrightarrow> t = s) \<and>
   (\<exists>u. task_path s u \<and> IsTerminalState u)"
proof (intro conjI)
  show "IsTerminalState s \<longleftrightarrow> GetValidTransitions s = []"
    by (cases s) (simp_all add: GetValidTransitions_def)
  show "IsTerminalState s \<and> task_path s t \<longrightarrow> t = s"
    by (blast intro: task_path_terminal)
  show "\<exists>u. task_path s u \<and> IsTerminalState u"
    by (cases "IsTerminalState s") (auto intro: task_path.stay reach_failed)
qed

text \<open>The witness applies it to the completed state.\<close>

theorem terminal_states_are_the_sinks_witness:
  "IsTerminalState Completed \<and> task_path Completed Completed \<and> GetValidTransitions Completed = []"
  using terminal_states_are_the_sinks [of Completed Completed] task_path.stay [of Completed] by simp

end
