(* ===== verification/Task_Store.thy ===== *)
theory Task_Store
  imports Task_Domain
begin

text \<open>
  The PostgreSQL task store of the orchestrator
  (\<^verbatim>\<open>src/internal/orchestratorgo/store/postgres.go\<close> and the task operations of
  \<^verbatim>\<open>store/initiatives.go\<close>). The database is a record of tables; each operation is one
  transaction, a function from the database to an error or the new database. An error stands for
  the rollback: the caller keeps the database it had. Random identifiers (\<^verbatim>\<open>uuid.NewString\<close>), the
  clock of the process (\<open>now\<close>) and the clock of the database (\<open>dbnow\<close>, SQL \<^verbatim>\<open>NOW()\<close>) are
  arguments.
\<close>

section \<open>State\<close>

record db =
  dbTasks :: "task list"
  dbApprovals :: "approval list"
  dbTransitions :: "state_transition list"
  dbBridges :: "bridge list"

definition upd_task :: "string \<Rightarrow> (task \<Rightarrow> task) \<Rightarrow> db \<Rightarrow> db" where
  "upd_task i f d = d\<lparr>dbTasks := upd_row tID i f (dbTasks d)\<rparr>"

definition invalid_transition :: "task_state \<Rightarrow> task_state \<Rightarrow> string" where
  "invalid_transition s t = ''invalid_transition:'' @ stateText s @ '':'' @ stateText t"

definition no_rows :: string where
  "no_rows = ''no rows in result set''"

definition task_not_found :: "string \<Rightarrow> string" where
  "task_not_found i = ''task '' @ i @ '' not found''"

section \<open>Reads\<close>

definition GetTask :: "db \<Rightarrow> string \<Rightarrow> task option" where
  "GetTask d taskID = find_row tID taskID (dbTasks d)"

definition GetTaskByIdempotencyKey :: "db \<Rightarrow> string \<Rightarrow> task option" where
  "GetTaskByIdempotencyKey d key = find_row tIdempotencyKey (Some key) (dbTasks d)"

definition GetApproval :: "db \<Rightarrow> string \<Rightarrow> approval option" where
  "GetApproval d approvalID = find_row aID approvalID (dbApprovals d)"

definition created_before :: "task \<Rightarrow> task \<Rightarrow> bool" where
  "created_before a b \<longleftrightarrow>
     tCreatedAt a < tCreatedAt b \<or> (tCreatedAt a = tCreatedAt b \<and> str_less (tID a) (tID b))"

definition ListChildren :: "db \<Rightarrow> string \<Rightarrow> task list" where
  "ListChildren d parentTaskID =
     sort_by created_before (filter (\<lambda>t. tParentTaskID t = Some parentTaskID) (dbTasks d))"

definition ListByRoot :: "db \<Rightarrow> string \<Rightarrow> task list" where
  "ListByRoot d rootTaskID =
     sort_by created_before (filter (\<lambda>t. tRootTaskID t = Some rootTaskID) (dbTasks d))"

section \<open>The transition step\<close>

definition transition_row :: "task_state \<Rightarrow> instant \<Rightarrow> task \<Rightarrow> task" where
  "transition_row toState now t =
     t\<lparr>tState := toState,
       tUpdatedAt := now,
       tQueuedAt := (if toState = Queued then Some now else tQueuedAt t),
       tStartedAt := (if toState = InProgress \<and> tStartedAt t = None then Some now else tStartedAt t),
       tCompletedAt := (if toState \<in> {Completed, Failed, Cancelled} then Some now else tCompletedAt t)\<rparr>"

definition transitionTaskStateTx ::
  "string \<Rightarrow> string \<Rightarrow> task_state \<Rightarrow> task_state \<Rightarrow> string \<Rightarrow> string \<Rightarrow> instant \<Rightarrow> db \<Rightarrow> db" where
  "transitionTaskStateTx rowID taskID fromState toState actor reason now d =
     (upd_task taskID (transition_row toState now) d)
       \<lparr>dbTransitions := dbTransitions d @
          [\<lparr>xID = rowID, xTaskID = taskID, xFrom = fromState, xTo = toState,
            xActor = actor, xReason = reason, xTimestamp = now\<rparr>]\<rparr>"

definition UpdateTaskState ::
  "string \<Rightarrow> instant \<Rightarrow> string \<Rightarrow> task_state \<Rightarrow> string \<Rightarrow> string \<Rightarrow> db \<Rightarrow> db result" where
  "UpdateTaskState rowID now taskID targetState actor reason d =
     (case GetTask d taskID of
        None \<Rightarrow> Inl no_rows
      | Some t \<Rightarrow>
          if \<not> IsValidTransition (tState t) targetState
          then Inl (invalid_transition (tState t) targetState)
          else Inr (transitionTaskStateTx rowID taskID (tState t) targetState actor reason now d))"

definition CancelTask :: "string \<Rightarrow> instant \<Rightarrow> string \<Rightarrow> string \<Rightarrow> string \<Rightarrow> db \<Rightarrow> db result" where
  "CancelTask rowID now taskID actor reason d = UpdateTaskState rowID now taskID Cancelled actor reason d"

section \<open>Creation and simple updates\<close>

record create_params =
  pDescription :: string
  pMetadata :: "any_map option"
  pAllowedCapabilities :: "string list"
  pPriority :: string
  pAssignedAgent :: string
  pPlannedAgent :: "string option"
  pExecutionTarget :: string
  pIdempotencyKey :: "string option"
  pEntrypoint :: string
  pWorkspacePath :: "string option"
  pParentTaskID :: "string option"
  pRootTaskID :: "string option"
  pInitiativeID :: "string option"
  pTaskKind :: string
  pQueueOnCreate :: bool

definition create_metadata :: "create_params \<Rightarrow> any_map" where
  "create_metadata p =
     (let m = (case pMetadata p of None \<Rightarrow> Map.empty | Some m \<Rightarrow> m)(''entrypoint'' \<mapsto> AStr (pEntrypoint p))
      in if pAllowedCapabilities p \<noteq> [] then m(''allowed_capabilities'' \<mapsto> AStrs (pAllowedCapabilities p))
         else m)"

definition create_workspace_path :: "string \<Rightarrow> create_params \<Rightarrow> string option" where
  "create_workspace_path taskID p =
     (case pWorkspacePath p of
        None \<Rightarrow> None
      | Some path \<Rightarrow>
          if pExecutionTarget p = ExecutionTargetRemote \<and> TrimSpace path \<noteq> []
          then Some (path_join path taskID) else Some path)"

definition create_row :: "string \<Rightarrow> string \<Rightarrow> instant \<Rightarrow> create_params \<Rightarrow> task" where
  "create_row taskID correlationID now p =
     \<lparr>tID = taskID, tState = Created, tDescription = pDescription p, tMetadata = create_metadata p,
      tParentTaskID = pParentTaskID p,
      tRootTaskID = Some (case pRootTaskID p of
          None \<Rightarrow> taskID
        | Some r \<Rightarrow> if TrimSpace r \<noteq> [] then TrimSpace r else taskID),
      tTaskKind = (if pTaskKind p = [] then ''root'' else pTaskKind p),
      tAssignedAgent = Some (pAssignedAgent p),
      tPlannedAgent = (case pPlannedAgent p of
          None \<Rightarrow> None
        | Some a \<Rightarrow> if TrimSpace a \<noteq> [] then Some a else None),
      tPriority = pPriority p, tExecutionTarget = pExecutionTarget p,
      tInitiativeID = (case pInitiativeID p of
          None \<Rightarrow> None
        | Some i \<Rightarrow> if TrimSpace i \<noteq> [] then Some i else None),
      tWorkspacePath = create_workspace_path taskID p,
      tRetryCount = 0, tMaxRetries = 3, tIdempotencyKey = pIdempotencyKey p,
      tCorrelationID = correlationID, tResults = None, tErrorMessage = None,
      tCreatedAt = now, tUpdatedAt = now, tStartedAt = None, tCompletedAt = None,
      tQueuedAt = None, tArchivedAt = None\<rparr>"

definition CreateTask ::
  "string \<Rightarrow> string \<Rightarrow> string \<Rightarrow> instant \<Rightarrow> create_params \<Rightarrow> db \<Rightarrow> (db \<times> task option) result" where
  "CreateTask taskID correlationID rowID now p d =
     (if find_row tID taskID (dbTasks d) \<noteq> None then Inl ''duplicate key value''
      else
        (let d1 = d\<lparr>dbTasks := dbTasks d @ [create_row taskID correlationID now p]\<rparr>;
             d2 = (if pQueueOnCreate p
                   then transitionTaskStateTx rowID taskID Created Queued (pEntrypoint p @ '':create'')
                     (''Queued for '' @ pAssignedAgent p @ '' via '' @ pExecutionTarget p) now d1
                   else d1)
         in Inr (d2, GetTask d2 taskID)))"

definition UpdateTaskResults :: "instant \<Rightarrow> string \<Rightarrow> any_val \<Rightarrow> db \<Rightarrow> db" where
  "UpdateTaskResults dbnow taskID results d =
     upd_task taskID (\<lambda>t. t\<lparr>tResults := Some results, tUpdatedAt := dbnow\<rparr>) d"

definition ArchiveTask :: "instant \<Rightarrow> string \<Rightarrow> db \<Rightarrow> db" where
  "ArchiveTask dbnow taskID d =
     upd_task taskID (\<lambda>t. t\<lparr>tArchivedAt := Some dbnow, tUpdatedAt := dbnow\<rparr>) d"

definition UnarchiveTask :: "instant \<Rightarrow> string \<Rightarrow> db \<Rightarrow> db" where
  "UnarchiveTask dbnow taskID d =
     upd_task taskID (\<lambda>t. t\<lparr>tArchivedAt := None, tUpdatedAt := dbnow\<rparr>) d"

definition ClearWorkspacePath :: "instant \<Rightarrow> string \<Rightarrow> db \<Rightarrow> db" where
  "ClearWorkspacePath dbnow taskID d =
     upd_task taskID (\<lambda>t. t\<lparr>tWorkspacePath := None, tUpdatedAt := dbnow\<rparr>) d"

definition PatchTaskMetadata :: "instant \<Rightarrow> string \<Rightarrow> (string \<times> any_val) list \<Rightarrow> db \<Rightarrow> db" where
  "PatchTaskMetadata dbnow taskID patch d =
     (if patch = [] then d
      else upd_task taskID (\<lambda>t. t\<lparr>tMetadata := tMetadata t ++ map_of patch, tUpdatedAt := dbnow\<rparr>) d)"

section \<open>Finalisation and approvals\<close>

definition finalizeTask ::
  "string \<Rightarrow> instant \<Rightarrow> string \<Rightarrow> task_state \<Rightarrow> string \<Rightarrow> string \<Rightarrow> any_val option \<Rightarrow> string option
     \<Rightarrow> db \<Rightarrow> (db \<times> task option) result" where
  "finalizeTask rowID now taskID targetState actor reason results errorMessage d =
     (case GetTask d taskID of
        None \<Rightarrow> Inl (task_not_found taskID)
      | Some t \<Rightarrow>
          if \<not> IsValidTransition (tState t) targetState
          then Inl (invalid_transition (tState t) targetState)
          else
            (let d1 = upd_task taskID
                   (\<lambda>r. r\<lparr>tResults := (case results of None \<Rightarrow> tResults r | Some v \<Rightarrow> Some v),
                         tErrorMessage := errorMessage\<rparr>) d;
                 d2 = transitionTaskStateTx rowID taskID (tState t) targetState actor reason now d1
             in Inr (d2, GetTask d2 taskID)))"

definition CompleteTask where
  "CompleteTask rowID now taskID actor reason results d =
     finalizeTask rowID now taskID Completed actor reason results None d"

definition FailTask where
  "FailTask rowID now taskID actor reason errorMessage results d =
     finalizeTask rowID now taskID Failed actor reason results (Some errorMessage) d"

definition RequestApproval ::
  "string \<Rightarrow> string \<Rightarrow> instant \<Rightarrow> string \<Rightarrow> string \<Rightarrow> string \<Rightarrow> int \<Rightarrow> string \<Rightarrow> string \<Rightarrow> any_map
     \<Rightarrow> db \<Rightarrow> (db \<times> approval option) result" where
  "RequestApproval approvalID rowID now taskID actionType targetResource timeoutSeconds actor reason patch d =
     (case GetTask d taskID of
        None \<Rightarrow> Inl (task_not_found taskID)
      | Some t \<Rightarrow>
          if \<not> IsValidTransition (tState t) WaitingApproval
          then Inl (invalid_transition (tState t) WaitingApproval)
          else if find_row aID approvalID (dbApprovals d) \<noteq> None then Inl ''duplicate key value''
          else
            (let d1 = d\<lparr>dbApprovals := dbApprovals d @
                   [\<lparr>aID = approvalID, aTaskID = taskID, aActionType = actionType,
                     aTargetResource = targetResource, aStatus = Pending, aOperator = None,
                     aTimeoutSeconds = timeoutSeconds, aEscalationLevel = 1, aRequestedAt = now,
                     aResolvedAt = None, aTimeoutAt = now + wrap64 (timeoutSeconds * second)\<rparr>]\<rparr>;
                 d2 = upd_task taskID (\<lambda>r. r\<lparr>tMetadata := tMetadata t ++ patch\<rparr>) d1;
                 d3 = transitionTaskStateTx rowID taskID (tState t) WaitingApproval actor reason now d2
             in Inr (d3, GetApproval d3 approvalID)))"

definition approval_not_found :: string where
  "approval_not_found = ''approval not found''"

definition approval_already_resolved :: string where
  "approval_already_resolved = ''approval already resolved''"

definition ResolveApproval ::
  "string \<Rightarrow> instant \<Rightarrow> string \<Rightarrow> bool \<Rightarrow> string \<Rightarrow> db
     \<Rightarrow> (db \<times> approval option \<times> task option) result" where
  "ResolveApproval rowID now approvalID approve operator d =
     (case GetApproval d approvalID of
        None \<Rightarrow> Inl approval_not_found
      | Some a \<Rightarrow>
          if aStatus a \<noteq> Pending then Inl approval_already_resolved
          else
            (case GetTask d (aTaskID a) of
               None \<Rightarrow> Inl (''task '' @ aTaskID a @ '' not found for approval '' @ approvalID)
             | Some t \<Rightarrow>
                 (let newStatus = (if approve then Approved else Rejected);
                      target = (if approve then Queued else Cancelled);
                      reason = (if approve then ''Approval granted'' else ''approval_rejected'');
                      d1 = d\<lparr>dbApprovals := upd_row aID approvalID
                             (\<lambda>r. r\<lparr>aStatus := newStatus, aOperator := Some operator, aResolvedAt := Some now\<rparr>)
                             (dbApprovals d)\<rparr>;
                      merged = (if approve
                                then (tMetadata t)(''approval_granted'' \<mapsto> ABool True, ''approval_requested'' := None)
                                else (tMetadata t)(''approval_granted'' \<mapsto> ABool False));
                      d2 = upd_task (aTaskID a) (\<lambda>r. r\<lparr>tMetadata := merged\<rparr>) d1
                  in if \<not> IsValidTransition (tState t) target
                     then Inl (invalid_transition (tState t) target)
                     else
                       (let d3 = transitionTaskStateTx rowID (aTaskID a) (tState t) target
                              (''operator:'' @ operator) reason now d2
                        in Inr (d3, GetApproval d3 approvalID, GetTask d3 (aTaskID a))))))"

section \<open>Recovery and launch\<close>

definition json_elems :: "any_val \<Rightarrow> any_val list" where
  "json_elems v = (case v of AArr xs \<Rightarrow> xs | _ \<Rightarrow> [v])"

definition jsonb_concat :: "any_val \<Rightarrow> any_val \<Rightarrow> any_val" where
  "jsonb_concat x y =
     (case x of
        AMap a \<Rightarrow> (case y of AMap b \<Rightarrow> AMap (a ++ b) | _ \<Rightarrow> AArr (json_elems x @ json_elems y))
      | _ \<Rightarrow> AArr (json_elems x @ json_elems y))"

definition json_get_obj :: "any_map \<Rightarrow> string \<Rightarrow> any_val" where
  "json_get_obj m k = (case m k of None \<Rightarrow> AMap Map.empty | Some v \<Rightarrow> v)"

definition recoverable :: "instant \<Rightarrow> task \<Rightarrow> bool" where
  "recoverable cutoff t \<longleftrightarrow>
     tExecutionTarget t \<noteq> ExecutionTargetLocal \<and> tArchivedAt t = None \<and>
     tState t \<in> {Assigned, InProgress, Retrying} \<and> tUpdatedAt t < cutoff"

definition requeue_row :: "instant \<Rightarrow> string \<Rightarrow> task \<Rightarrow> task" where
  "requeue_row dbnow actor t =
     t\<lparr>tState := Queued, tRetryCount := tRetryCount t + 1, tErrorMessage := None,
       tQueuedAt := Some dbnow, tUpdatedAt := dbnow,
       tMetadata := (tMetadata t)(''recovery_checkpoint'' \<mapsto>
          jsonb_concat (json_get_obj (tMetadata t) ''recovery_checkpoint'')
            (AMap (map_of [(''last_requeue_at'', ATime dbnow), (''recovery_actor'', AStr actor),
                           (''recovery_stage'', AStr ''requeued_after_interruption'')])))\<rparr>"

definition RequeueRecoverableRemoteTasks ::
  "instant \<Rightarrow> instant \<Rightarrow> string \<Rightarrow> db \<Rightarrow> db \<times> string list" where
  "RequeueRecoverableRemoteTasks dbnow cutoff actor d =
     (d\<lparr>dbTasks := map (\<lambda>t. if recoverable cutoff t then requeue_row dbnow actor t else t) (dbTasks d)\<rparr>,
      map tID (filter (recoverable cutoff) (dbTasks d)))"

definition QueueTaskForLaunch ::
  "string \<Rightarrow> instant \<Rightarrow> string \<Rightarrow> string \<Rightarrow> string \<Rightarrow> db \<Rightarrow> (db \<times> task option) result" where
  "QueueTaskForLaunch rowID now taskID actor reason d =
     (case GetTask d taskID of
        None \<Rightarrow> Inl (task_not_found taskID)
      | Some t \<Rightarrow>
          if tState t \<noteq> Created \<and> tState t \<noteq> Failed \<and> tState t \<noteq> Cancelled
          then Inl (''task '' @ taskID @ '' is not launchable from state '' @ stateText (tState t))
          else
            (let d1 = transitionTaskStateTx rowID taskID (tState t) Queued actor reason now d
             in Inr (d1, GetTask d1 taskID)))"

definition UpdateTaskLaunchMode :: "instant \<Rightarrow> string \<Rightarrow> string \<Rightarrow> (string \<Rightarrow> string) \<Rightarrow> db \<Rightarrow> db result" where
  "UpdateTaskLaunchMode dbnow taskID mode quote d =
     (if mode = ''manual'' then
        Inr (upd_task taskID (\<lambda>t. t\<lparr>tUpdatedAt := dbnow\<rparr>) d)
      else if mode = ''agent_local'' then
        Inr (upd_task taskID (\<lambda>t. t\<lparr>tExecutionTarget := ExecutionTargetLocal, tUpdatedAt := dbnow\<rparr>) d)
      else if mode = ''agent_remote'' then
        Inr (upd_task taskID (\<lambda>t. t\<lparr>tExecutionTarget := ExecutionTargetRemote, tUpdatedAt := dbnow\<rparr>) d)
      else Inl (''unsupported launch mode '' @ quote mode))"

section \<open>The lifecycle contract\<close>

text \<open>
  \<open>plain g\<close>: \<open>g\<close> writes neither the key, the state, the retry count nor a timestamp of the life cycle.
  \<open>moves_task d d' i s s'\<close>: one task \<open>i\<close> went from state \<open>s\<close> to \<open>s'\<close> along the transition
  table, its row kept its key, no other row changed, and exactly one transition row was appended.
\<close>

definition plain :: "(task \<Rightarrow> task) \<Rightarrow> bool" where
  "plain g \<longleftrightarrow> (\<forall>r. tID (g r) = tID r \<and> tState (g r) = tState r \<and> tCompletedAt (g r) = tCompletedAt r \<and>
     tStartedAt (g r) = tStartedAt r \<and> tQueuedAt (g r) = tQueuedAt r \<and> tRetryCount (g r) = tRetryCount r)"

lemma plain_key [simp]: "plain g \<Longrightarrow> tID (g r) = tID r"
  by (simp add: plain_def)

definition moves_task :: "db \<Rightarrow> db \<Rightarrow> string \<Rightarrow> task_state \<Rightarrow> task_state \<Rightarrow> bool" where
  "moves_task d d' i s s' \<longleftrightarrow>
     IsValidTransition s s' \<and> (\<exists>t. GetTask d i = Some t \<and> tState t = s) \<and>
     (\<exists>g now x. plain g \<and>
            dbTasks d' = upd_row tID i (\<lambda>r. transition_row s' now (g r)) (dbTasks d) \<and>
            dbTransitions d' = dbTransitions d @ [x] \<and>
            xTaskID x = i \<and> xFrom x = s \<and> xTo x = s')"

lemma upd_task_simps [simp]:
  "dbTasks (upd_task i f d) = upd_row tID i f (dbTasks d)"
  "dbApprovals (upd_task i f d) = dbApprovals d"
  "dbTransitions (upd_task i f d) = dbTransitions d"
  "dbBridges (upd_task i f d) = dbBridges d"
  by (simp_all add: upd_task_def)

lemma transitionTaskStateTx_simps [simp]:
  "dbTasks (transitionTaskStateTx r i s s' a q now d) = upd_row tID i (transition_row s' now) (dbTasks d)"
  "dbApprovals (transitionTaskStateTx r i s s' a q now d) = dbApprovals d"
  "dbTransitions (transitionTaskStateTx r i s s' a q now d) = dbTransitions d @
     [\<lparr>xID = r, xTaskID = i, xFrom = s, xTo = s', xActor = a, xReason = q, xTimestamp = now\<rparr>]"
  "dbBridges (transitionTaskStateTx r i s s' a q now d) = dbBridges d"
  by (simp_all add: transitionTaskStateTx_def)

lemma transition_row_simps [simp]:
  "tID (transition_row s now t) = tID t"
  "tState (transition_row s now t) = s"
  "tMetadata (transition_row s now t) = tMetadata t"
  by (simp_all add: transition_row_def)

lemma upd_row_upd_row:
  assumes "\<And>r. key (g r) = key r"
  shows "upd_row key k f (upd_row key k g rows) = upd_row key k (\<lambda>r. f (g r)) rows"
  by (induction rows) (auto simp: assms)

lemma GetTask_upd_row [simp]:
  assumes "\<And>r. tID (f r) = tID r"
  shows "find_row tID i (upd_row tID i f rows) = map_option f (find_row tID i rows)"
  using assms by (rule find_row_upd_same)

lemma UpdateTaskState_moves:
  "UpdateTaskState r now i s' a q d = Inr d' \<Longrightarrow> \<exists>s. moves_task d d' i s s'"
  by (auto simp: UpdateTaskState_def moves_task_def split: option.splits if_splits
      simp: plain_def intro!: exI [where x = "\<lambda>r. r"] exI [where x = now])

lemma finalizeTask_moves:
  assumes "finalizeTask r now i s' a q res err d = Inr (d', t')"
  shows "\<exists>s. moves_task d d' i s s'"
proof -
  let ?g = "\<lambda>r. r\<lparr>tResults := (case res of None \<Rightarrow> tResults r | Some v \<Rightarrow> Some v), tErrorMessage := err\<rparr>"
  let ?f = "\<lambda>r. transition_row s' now (?g r)"
  have "upd_row tID i (transition_row s' now) (upd_row tID i ?g (dbTasks d)) = upd_row tID i ?f (dbTasks d)"
    by (rule upd_row_upd_row) simp
  then show ?thesis using assms
    by (auto simp: finalizeTask_def moves_task_def plain_def Let_def split: option.splits if_splits
        intro!: exI [where x = ?g] exI [where x = now])
qed

lemma RequestApproval_moves:
  assumes "RequestApproval aid r now i act tgt tmo actor q patch d = Inr (d', a')"
  shows "\<exists>s. moves_task d d' i s WaitingApproval"
proof -
  obtain t where t: "GetTask d i = Some t"
    using assms by (auto simp: RequestApproval_def split: option.splits)
  let ?g = "\<lambda>r. r\<lparr>tMetadata := tMetadata t ++ patch\<rparr>"
  let ?f = "\<lambda>r. transition_row WaitingApproval now (?g r)"
  have "upd_row tID i (transition_row WaitingApproval now) (upd_row tID i ?g (dbTasks d))
      = upd_row tID i ?f (dbTasks d)"
    by (rule upd_row_upd_row) simp
  then show ?thesis using assms t
    by (auto simp: RequestApproval_def moves_task_def plain_def Let_def split: if_splits
        intro!: exI [where x = ?g] exI [where x = now])
qed

lemma ResolveApproval_success:
  assumes "ResolveApproval r now aid app op d = Inr (d', a', t')"
  obtains a t where "GetApproval d aid = Some a" "aStatus a = Pending" "GetTask d (aTaskID a) = Some t"
    "moves_task d d' (aTaskID a) (tState t) (if app then Queued else Cancelled)"
    "dbApprovals d' = upd_row aID aid
       (\<lambda>r. r\<lparr>aStatus := (if app then Approved else Rejected), aOperator := Some op, aResolvedAt := Some now\<rparr>)
       (dbApprovals d)"
proof -
  obtain a t where a: "GetApproval d aid = Some a" and p: "aStatus a = Pending"
    and t: "GetTask d (aTaskID a) = Some t"
    using assms by (auto simp: ResolveApproval_def split: option.splits if_splits)
  let ?s = "if app then Queued else Cancelled"
  let ?m = "if app then (tMetadata t)(''approval_granted'' \<mapsto> ABool True, ''approval_requested'' := None)
    else (tMetadata t)(''approval_granted'' \<mapsto> ABool False)"
  let ?g = "\<lambda>r. r\<lparr>tMetadata := ?m\<rparr>"
  let ?f = "\<lambda>r. transition_row ?s now (?g r)"
  have eq: "upd_row tID (aTaskID a) (transition_row ?s now) (upd_row tID (aTaskID a) ?g (dbTasks d))
      = upd_row tID (aTaskID a) ?f (dbTasks d)"
    by (rule upd_row_upd_row) simp
  have "moves_task d d' (aTaskID a) (tState t) ?s"
    using assms a p t eq
    by (auto simp: ResolveApproval_def moves_task_def plain_def Let_def split: if_splits
        intro!: exI [where x = ?g] exI [where x = now])
  moreover have "dbApprovals d' = upd_row aID aid
       (\<lambda>r. r\<lparr>aStatus := (if app then Approved else Rejected), aOperator := Some op, aResolvedAt := Some now\<rparr>)
       (dbApprovals d)"
    using assms a p t by (auto simp: ResolveApproval_def Let_def split: if_splits)
  ultimately show ?thesis using that a p t by blast
qed

end
