(* ===== verification/Task_Lifecycle.thy ===== *)
theory Task_Lifecycle
  imports Task_Store
begin

text \<open>
  What the task store promises over any sequence of the operations that go through its transition table; every
  write of the store, recovery, launches and leases included, is in \<^verbatim>\<open>Task_History\<close>. The contract shared by the
  state-changing operations is the locale \<open>lifecycle_op\<close>; it is interpreted on
  \<open>UpdateTaskState\<close>, \<open>finalizeTask\<close>, \<open>RequestApproval\<close> and \<open>ResolveApproval\<close>. The step
  relation \<open>lifecycle_step\<close> collects every operation that goes through the transition table, and
  the invariant \<open>audited\<close> says that the transition log of a task is a chain of valid transitions
  from \<open>Created\<close> to its current state and that its timestamps agree with the state.
\<close>

section \<open>The invariant\<close>

fun chain :: "task_state \<Rightarrow> state_transition list \<Rightarrow> task_state \<Rightarrow> bool" where
  "chain s [] e = (s = e)"
| "chain s (x # xs) e = (xFrom x = s \<and> IsValidTransition s (xTo x) \<and> chain (xTo x) xs e)"

lemma chain_snoc:
  "chain s (xs @ [x]) e \<longleftrightarrow> chain s xs (xFrom x) \<and> IsValidTransition (xFrom x) (xTo x) \<and> e = xTo x"
  by (induction xs arbitrary: s) auto

lemma chain_path: "chain s xs e \<Longrightarrow> task_path s e"
proof (induction xs arbitrary: s)
  case Nil
  then show ?case by (simp add: task_path.stay)
next
  case (Cons x xs)
  then show ?case by (auto intro: task_path_trans task_path_step)
qed

definition task_history :: "db \<Rightarrow> string \<Rightarrow> state_transition list" where
  "task_history d i = filter (\<lambda>x. xTaskID x = i) (dbTransitions d)"

definition stamps_agree :: "task \<Rightarrow> bool" where
  "stamps_agree t \<longleftrightarrow>
     (IsTerminalState (tState t) \<longleftrightarrow> tCompletedAt t \<noteq> None) \<and>
     (tState t = Queued \<longrightarrow> tQueuedAt t \<noteq> None) \<and>
     (tState t = InProgress \<longrightarrow> tStartedAt t \<noteq> None)"

definition audited :: "db \<Rightarrow> bool" where
  "audited d \<longleftrightarrow>
     keyed tID (dbTasks d) \<and>
     (\<forall>t \<in> set (dbTasks d). chain Created (task_history d (tID t)) (tState t) \<and> stamps_agree t) \<and>
     (\<forall>x \<in> set (dbTransitions d). xTaskID x \<in> tID ` set (dbTasks d))"

lemma auditedD:
  assumes "audited d" and "GetTask d i = Some t"
  shows "chain Created (task_history d i) (tState t)" and "stamps_agree t" and "tID t = i"
  using assms find_row_SomeD [of tID i "dbTasks d" t] by (auto simp: audited_def GetTask_def)

lemma audited_row: "audited d \<Longrightarrow> t \<in> set (dbTasks d) \<Longrightarrow> GetTask d (tID t) = Some t"
  by (simp add: audited_def GetTask_def find_row_keyed)

lemma stamps_transition:
  assumes "plain g" and "stamps_agree t" and "IsValidTransition (tState t) s"
  shows "stamps_agree (transition_row s now (g t))"
proof -
  have "\<not> IsTerminalState (tState t)" using assms(3) terminal_no_transition by blast
  then show ?thesis using assms
    by (cases s) (simp_all add: stamps_agree_def transition_row_def plain_def)
qed

lemma image_key_upd_row:
  assumes "\<And>r. key (f r) = key r"
  shows "key ` set (upd_row key k f rows) = key ` set rows"
  by (induction rows) (auto simp: assms)

lemma keyed_upd_row:
  assumes "\<And>r. key (f r) = key r"
  shows "keyed key (upd_row key k f rows) = keyed key rows"
  using assms by (simp add: map_key_upd_row [of key f k rows])

lemma moves_task_audited:
  assumes m: "moves_task d d' i s s'" and a: "audited d"
  shows "audited d'"
proof -
  obtain t g now x where v: "IsValidTransition s s'" and t: "GetTask d i = Some t" "tState t = s"
    and g: "plain g" and d': "dbTasks d' = upd_row tID i (\<lambda>r. transition_row s' now (g r)) (dbTasks d)"
    and x: "dbTransitions d' = dbTransitions d @ [x]" "xTaskID x = i" "xFrom x = s" "xTo x = s'"
    using m by (auto simp: moves_task_def)
  let ?f = "\<lambda>r. transition_row s' now (g r)"
  have key: "tID (?f r) = tID r" for r using g by simp
  have ids: "tID ` set (dbTasks d') = tID ` set (dbTasks d)"
    unfolding d' by (rule image_key_upd_row) (rule key)
  have tin: "t \<in> set (dbTasks d)" "tID t = i" using t find_row_SomeD by (fastforce simp: GetTask_def)+
  have row: "chain Created (task_history d' (tID r)) (tState r) \<and> stamps_agree r"
    if "r \<in> set (dbTasks d')" for r
    using set_upd_row [OF that [unfolded d']]
  proof
    assume "r \<in> set (dbTasks d) \<and> tID r \<noteq> i"
    then show ?thesis using a x by (auto simp: audited_def task_history_def)
  next
    assume "\<exists>q \<in> set (dbTasks d). tID q = i \<and> r = ?f q"
    then obtain q where q: "q \<in> set (dbTasks d)" "tID q = i" "r = ?f q" by blast
    with audited_row [OF a] t have "q = t" by fastforce
    with q t have r: "r = ?f t" by simp
    then have "tID r = i" and "tState r = s'" using key tin by simp_all
    moreover have "chain Created (task_history d i) s"
      using auditedD(1) [OF a t(1)] t(2) by simp
    then have "chain Created (task_history d' i) s'"
      using x v by (simp add: task_history_def chain_snoc)
    ultimately show ?thesis
      using stamps_transition [OF g auditedD(2) [OF a t(1)]] v t(2) r by simp
  qed
  have "keyed tID (dbTasks d')"
    using a keyed_upd_row [of tID ?f i "dbTasks d"] key unfolding d' by (simp add: audited_def)
  moreover have "\<forall>y \<in> set (dbTransitions d'). xTaskID y \<in> tID ` set (dbTasks d')"
  proof -
    have "i \<in> tID ` set (dbTasks d)" using tin by blast
    then show ?thesis using a x ids by (simp add: audited_def)
  qed
  ultimately show ?thesis using row by (simp add: audited_def)
qed

lemma moves_task_other:
  assumes "moves_task d d' i s s'" and "GetTask d j = Some u" and "tState u \<noteq> s \<or> j \<noteq> i"
  shows "GetTask d' j = Some u"
proof -
  have "j \<noteq> i" using assms by (auto simp: moves_task_def)
  then show ?thesis using assms by (auto simp: moves_task_def GetTask_def find_row_upd_other)
qed

lemma moves_task_state:
  assumes "moves_task d d' i s s'"
  obtains t where "GetTask d' i = Some t" and "tState t = s'"
  using assms by (auto simp: moves_task_def GetTask_def)

section \<open>The contract of a state-changing operation\<close>

locale lifecycle_op =
  fixes step :: "db \<Rightarrow> db \<Rightarrow> bool"
  assumes moves: "step d d' \<Longrightarrow> \<exists>i s s'. moves_task d d' i s s'"
begin

lemma keeps_audit: "step d d' \<Longrightarrow> audited d \<Longrightarrow> audited d'"
  using moves moves_task_audited by blast

lemma keeps_terminal:
  assumes "step d d'" and "GetTask d i = Some t" and "IsTerminalState (tState t)"
  shows "GetTask d' i = Some t"
proof -
  obtain j s s' where m: "moves_task d d' j s s'" using moves [OF assms(1)] by blast
  then have "\<not> IsTerminalState s" using terminal_no_transition by (auto simp: moves_task_def)
  with assms m show ?thesis by (auto intro: moves_task_other)
qed

lemma logs_one:
  assumes "step d d'"
  shows "\<exists>x. dbTransitions d' = dbTransitions d @ [x] \<and> IsValidTransition (xFrom x) (xTo x)"
proof -
  obtain i s s' where "moves_task d d' i s s'" using moves [OF assms] by blast
  then show ?thesis by (auto simp: moves_task_def)
qed

end

interpretation upd_op: lifecycle_op "\<lambda>d d'. \<exists>r now i s a q. UpdateTaskState r now i s a q d = Inr d'"
  by unfold_locales (blast dest: UpdateTaskState_moves)

interpretation fin_op: lifecycle_op
  "\<lambda>d d'. \<exists>r now i s a q res err t. finalizeTask r now i s a q res err d = Inr (d', t)"
  by unfold_locales (blast dest: finalizeTask_moves)

interpretation req_op: lifecycle_op
  "\<lambda>d d'. \<exists>aid r now i act tgt tmo actor q patch a.
     RequestApproval aid r now i act tgt tmo actor q patch d = Inr (d', a)"
  by unfold_locales (blast dest: RequestApproval_moves)

interpretation res_op: lifecycle_op
  "\<lambda>d d'. \<exists>r now aid app op a t. ResolveApproval r now aid app op d = Inr (d', a, t)"
  by unfold_locales (blast elim: ResolveApproval_success)

section \<open>Operations that leave the state alone, and creation\<close>

lemma upd_task_audited:
  assumes a: "audited d" and g: "plain g"
  shows "audited (upd_task i g d)"
proof -
  have key: "tID (g r) = tID r" for r using g by simp
  have "chain Created (task_history (upd_task i g d) (tID r)) (tState r) \<and> stamps_agree r"
    if "r \<in> set (upd_row tID i g (dbTasks d))" for r
    using set_upd_row [OF that] a g
    by (auto simp: audited_def task_history_def plain_def stamps_agree_def)
  moreover have "keyed tID (upd_row tID i g (dbTasks d))"
    using a keyed_upd_row [of tID g i "dbTasks d"] key by (simp add: audited_def)
  ultimately show ?thesis
    using a image_key_upd_row [of tID g i "dbTasks d"] key by (simp add: audited_def)
qed

lemma create_row_simps [simp]:
  "tID (create_row i c now p) = i" "tState (create_row i c now p) = Created"
  "tCompletedAt (create_row i c now p) = None"
  by (simp_all add: create_row_def)

lemma add_row_audited:
  assumes a: "audited d" and fresh: "find_row tID i (dbTasks d) = None"
    and t: "tID t = i" "tState t = Created" "tCompletedAt t = None"
  shows "audited (d\<lparr>dbTasks := dbTasks d @ [t]\<rparr>)"
proof -
  have new: "i \<notin> tID ` set (dbTasks d)" using fresh by (simp add: find_row_None_iff)
  then have "task_history d i = []"
    using a by (auto simp: audited_def task_history_def filter_empty_conv)
  then show ?thesis using a new t
    by (auto simp: audited_def task_history_def stamps_agree_def)
qed

lemma CreateTask_audited:
  assumes c: "CreateTask i cid rid now p d = Inr (d', t)" and a: "audited d"
  shows "audited d'"
proof -
  have fresh: "find_row tID i (dbTasks d) = None"
    using c by (auto simp: CreateTask_def split: if_splits)
  let ?d1 = "d\<lparr>dbTasks := dbTasks d @ [create_row i cid now p]\<rparr>"
  have a1: "audited ?d1" using a fresh by (rule add_row_audited) simp_all
  show ?thesis
  proof (cases "pQueueOnCreate p")
    case False
    with c a1 show ?thesis by (auto simp: CreateTask_def Let_def split: if_splits)
  next
    case True
    have "GetTask ?d1 i = Some (create_row i cid now p)"
      using fresh by (simp add: GetTask_def find_row_append)
    then have "UpdateTaskState rid now i Queued (pEntrypoint p @ '':create'')
        (''Queued for '' @ pAssignedAgent p @ '' via '' @ pExecutionTarget p) ?d1 = Inr d'"
      using c True fresh by (auto simp: CreateTask_def UpdateTaskState_def IsValidTransition_def Let_def)
    then show ?thesis using a1 upd_op.keeps_audit by blast
  qed
qed

section \<open>Reachable databases\<close>

definition emptyDB :: db where
  "emptyDB = \<lparr>dbTasks = [], dbApprovals = [], dbTransitions = [], dbBridges = []\<rparr>"

inductive lifecycle_step :: "db \<Rightarrow> db \<Rightarrow> bool" where
  create: "CreateTask i cid rid now p d = Inr (d', t) \<Longrightarrow> lifecycle_step d d'"
| update: "UpdateTaskState r now i s a q d = Inr d' \<Longrightarrow> lifecycle_step d d'"
| finalize: "finalizeTask r now i s a q res err d = Inr (d', t) \<Longrightarrow> lifecycle_step d d'"
| request: "RequestApproval aid r now i act tgt tmo actor q patch d = Inr (d', ap) \<Longrightarrow> lifecycle_step d d'"
| resolve: "ResolveApproval r now aid app op d = Inr (d', ap, t) \<Longrightarrow> lifecycle_step d d'"
| results: "lifecycle_step d (UpdateTaskResults now i v d)"
| patch: "lifecycle_step d (PatchTaskMetadata now i kvs d)"
| archive: "lifecycle_step d (ArchiveTask now i d)"
| unarchive: "lifecycle_step d (UnarchiveTask now i d)"
| clear: "lifecycle_step d (ClearWorkspacePath now i d)"

inductive lifecycle_reach :: "db \<Rightarrow> db \<Rightarrow> bool" where
  refl: "lifecycle_reach d d"
| step: "lifecycle_reach d e \<Longrightarrow> lifecycle_step e f \<Longrightarrow> lifecycle_reach d f"

lemmas plain_update_defs = UpdateTaskResults_def PatchTaskMetadata_def ArchiveTask_def
  UnarchiveTask_def ClearWorkspacePath_def

lemma lifecycle_step_audited: "lifecycle_step d d' \<Longrightarrow> audited d \<Longrightarrow> audited d'"
proof (induction rule: lifecycle_step.induct)
  case (create i cid rid now p d d' t)
  then show ?case by (rule CreateTask_audited)
next
  case (update r now i s a q d d')
  then show ?case using upd_op.keeps_audit by blast
next
  case (finalize r now i s a q res err d d' t)
  then show ?case using fin_op.keeps_audit by blast
next
  case (request aid r now i act tgt tmo actor q patch d d' ap)
  then show ?case using req_op.keeps_audit by blast
next
  case (resolve r now aid app op d d' ap t)
  then show ?case using res_op.keeps_audit by blast
qed (auto simp: plain_update_defs plain_def intro!: upd_task_audited)

lemma emptyDB_audited: "audited emptyDB"
  by (simp add: audited_def emptyDB_def)

lemma lifecycle_reach_audited: "lifecycle_reach d e \<Longrightarrow> audited d \<Longrightarrow> audited e"
  by (induction rule: lifecycle_reach.induct) (auto dest: lifecycle_step_audited)

definition same_outcome :: "task \<Rightarrow> task \<Rightarrow> bool" where
  "same_outcome t u \<longleftrightarrow> tState u = tState t \<and> tCompletedAt u = tCompletedAt t"

lemma upd_task_outcome:
  assumes "plain g" and "GetTask d i = Some t"
  shows "\<exists>u. GetTask (upd_task j g d) i = Some u \<and> same_outcome t u"
  using assms by (cases "i = j") (auto simp: GetTask_def same_outcome_def plain_def find_row_upd_other)

lemma CreateTask_keeps:
  assumes c: "CreateTask j cid rid now p d = Inr (d', u)" and t: "GetTask d i = Some t"
  shows "GetTask d' i = Some t"
proof -
  have "find_row tID j (dbTasks d) = None" using c by (auto simp: CreateTask_def split: if_splits)
  then have "i \<noteq> j" using t by (auto simp: GetTask_def)
  then show ?thesis using c t
    by (auto simp: CreateTask_def GetTask_def Let_def find_row_append find_row_upd_other split: if_splits)
qed

lemma lifecycle_step_terminal:
  assumes "lifecycle_step d d'" and "GetTask d i = Some t" and "IsTerminalState (tState t)"
  shows "\<exists>u. GetTask d' i = Some u \<and> same_outcome t u"
  using assms
proof (induction rule: lifecycle_step.induct)
  case (create j cid rid now p d d' u)
  then show ?case using CreateTask_keeps by (fastforce simp: same_outcome_def)
next
  case (update r now j s a q d d')
  then have "GetTask d' i = Some t" using upd_op.keeps_terminal by blast
  then show ?case by (simp add: same_outcome_def)
next
  case (finalize r now j s a q res err d d' u)
  then have "GetTask d' i = Some t" using fin_op.keeps_terminal by blast
  then show ?case by (simp add: same_outcome_def)
next
  case (request aid r now j act tgt tmo actor q patch d d' ap)
  then have "GetTask d' i = Some t" using req_op.keeps_terminal by blast
  then show ?case by (simp add: same_outcome_def)
next
  case (resolve r now aid app op d d' ap u)
  then have "GetTask d' i = Some t" using res_op.keeps_terminal by blast
  then show ?case by (simp add: same_outcome_def)
qed (auto simp: plain_update_defs same_outcome_def plain_def intro!: upd_task_outcome [unfolded same_outcome_def])


lemma lifecycle_reach_terminal:
  assumes "lifecycle_reach d e" and "GetTask d i = Some t" and "IsTerminalState (tState t)"
  shows "\<exists>u. GetTask e i = Some u \<and> same_outcome t u"
  using assms
proof (induction rule: lifecycle_reach.induct)
  case (refl d)
  then show ?case by (simp add: same_outcome_def)
next
  case (step d e f)
  then obtain u where u: "GetTask e i = Some u" "same_outcome t u" by blast
  with step.prems have "IsTerminalState (tState u)" by (simp add: same_outcome_def)
  from lifecycle_step_terminal [OF step.hyps(2) u(1) this] u(2) show ?case
    by (auto simp: same_outcome_def)
qed

lemma chain_end: "chain s xs e \<Longrightarrow> chain s xs e' \<Longrightarrow> e = e'"
  by (induction xs arbitrary: s) auto

lemma find_row_map_keys:
  assumes "\<And>r. key (f r) = key r"
  shows "find_row key k (map f rows) = map_option f (find_row key k rows)"
  by (induction rows) (auto simp: assms)

lemma GetTask_requeue:
  "GetTask (fst (RequeueRecoverableRemoteTasks dbnow cutoff actor d)) i =
     map_option (\<lambda>t. if recoverable cutoff t then requeue_row dbnow actor t else t) (GetTask d i)"
  unfolding GetTask_def RequeueRecoverableRemoteTasks_def
  by (simp add: find_row_map_keys requeue_row_def)

section \<open>Sample data\<close>

definition sample_params :: create_params where
  "sample_params =
     \<lparr>pDescription = ''build'', pMetadata = None, pAllowedCapabilities = [], pPriority = ''normal'',
      pAssignedAgent = ''coder'', pPlannedAgent = None, pExecutionTarget = ''remote'',
      pIdempotencyKey = None, pEntrypoint = ''api'', pWorkspacePath = None, pParentTaskID = None,
      pRootTaskID = None, pInitiativeID = None, pTaskKind = [], pQueueOnCreate = False\<rparr>"

definition sample_task :: "task_state \<Rightarrow> task" where
  "sample_task s = (create_row ''t1'' ''c1'' 7 sample_params)\<lparr>tState := s\<rparr>"

definition sample_db :: "task_state \<Rightarrow> db" where
  "sample_db s = emptyDB\<lparr>dbTasks := [sample_task s]\<rparr>"

definition sample_approval :: approval where
  "sample_approval =
     \<lparr>aID = ''a1'', aTaskID = ''t1'', aActionType = ''deploy'', aTargetResource = ''prod'',
      aStatus = Pending, aOperator = None, aTimeoutSeconds = 60, aEscalationLevel = 1,
      aRequestedAt = 7, aResolvedAt = None, aTimeoutAt = 7 + 60 * second\<rparr>"

lemma sample_task_simps [simp]:
  "tID (sample_task s) = ''t1''" "tState (sample_task s) = s" "tCompletedAt (sample_task s) = None"
  "tArchivedAt (sample_task s) = None" "tUpdatedAt (sample_task s) = 7"
  "tExecutionTarget (sample_task s) = ''remote''"
  by (simp_all add: sample_task_def create_row_def sample_params_def)

lemma sample_db_simps [simp]:
  "dbTasks (sample_db s) = [sample_task s]" "GetTask (sample_db s) ''t1'' = Some (sample_task s)"
  "dbTransitions (sample_db s) = []"
  by (simp_all add: sample_db_def emptyDB_def GetTask_def)

lemma sample_db_reached: "lifecycle_reach emptyDB (sample_db Created)"
proof -
  have "CreateTask ''t1'' ''c1'' ''r1'' 7 sample_params emptyDB =
      Inr (sample_db Created, Some (sample_task Created))"
    by (simp add: CreateTask_def emptyDB_def sample_db_def sample_task_def GetTask_def create_row_def)
      (simp add: sample_params_def)
  then show ?thesis by (rule lifecycle_reach.step [OF lifecycle_reach.refl lifecycle_step.create])
qed

definition sample_move :: "task_state \<Rightarrow> task_state \<Rightarrow> state_transition" where
  "sample_move s e = \<lparr>xID = ''r1'', xTaskID = ''t1'', xFrom = s, xTo = e, xActor = ''worker'',
     xReason = ''claim'', xTimestamp = 7\<rparr>"

definition assigned_db :: db where
  "assigned_db = (sample_db Assigned)\<lparr>dbTransitions := [sample_move Created Queued, sample_move Queued Assigned]\<rparr>"

lemma assigned_db_audited: "audited assigned_db"
  by (simp add: audited_def assigned_db_def sample_move_def task_history_def stamps_agree_def
      IsValidTransition_def)

section \<open>Properties\<close>

text \<open>
  The audited operations alone: in every database reached from the empty one by creating tasks, moving them,
  finalising them, requesting and resolving approvals and editing results, metadata, archive flag and workspace,
  the transition log of each task is a chain of valid transitions from \<open>created\<close> to the task's state,
  and \<^verbatim>\<open>completed_at\<close> is set exactly when that state is terminal.
\<close>

theorem reachable_tasks_are_audited:
  assumes "lifecycle_reach emptyDB d" and "GetTask d i = Some t"
  shows "chain Created (task_history d i) (tState t) \<and> task_path Created (tState t) \<and>
    (IsTerminalState (tState t) \<longleftrightarrow> tCompletedAt t \<noteq> None)"
proof -
  have a: "audited d" using assms(1) emptyDB_audited by (rule lifecycle_reach_audited)
  show ?thesis
    using auditedD [OF a assms(2)] chain_path by (auto simp: stamps_agree_def)
qed

text \<open>The witness is a database with one created task.\<close>

theorem reachable_tasks_are_audited_witness:
  "lifecycle_reach emptyDB (sample_db Created) \<and> chain Created (task_history (sample_db Created) ''t1'') Created"
  using reachable_tasks_are_audited [OF sample_db_reached, of "''t1''" "sample_task Created"]
    sample_db_reached by simp

text \<open>
  Once a task is completed, failed or cancelled, no sequence of these operations changes its
  state or its completion time; a launch does.
\<close>

theorem terminal_tasks_stay_put:
  assumes "lifecycle_reach d e" and "GetTask d i = Some t" and "IsTerminalState (tState t)"
  shows "\<exists>u. GetTask e i = Some u \<and> tState u = tState t \<and> tCompletedAt u = tCompletedAt t"
  using lifecycle_reach_terminal [OF assms] by (simp add: same_outcome_def)

text \<open>The witness archives a failed task.\<close>

theorem terminal_tasks_stay_put_witness:
  "\<exists>u. GetTask (ArchiveTask 9 ''t1'' (sample_db Failed)) ''t1'' = Some u \<and> tState u = Failed \<and> tCompletedAt u = None"
  using terminal_tasks_stay_put [OF lifecycle_reach.step [OF lifecycle_reach.refl lifecycle_step.archive],
      of "sample_db Failed" "''t1''" "sample_task Failed" 9 "''t1''"] by simp

text \<open>
  Resolving a pending approval of a task that waits for it succeeds; approval queues the task and
  records the grant, rejection cancels it; the decision is final, since every later resolution of
  the same approval is refused.
\<close>

theorem approval_is_resolved_once:
  assumes "GetApproval d aid = Some a" and "aStatus a = Pending"
    and "GetTask d (aTaskID a) = Some t" and "tState t = WaitingApproval"
  shows "\<exists>d' a' t'. ResolveApproval r now aid app op d = Inr (d', Some a', Some t') \<and>
    aStatus a' = (if app then Approved else Rejected) \<and> aOperator a' = Some op \<and>
    tState t' = (if app then Queued else Cancelled) \<and>
    tMetadata t' ''approval_granted'' = Some (ABool app) \<and>
    (app \<longrightarrow> tMetadata t' ''approval_requested'' = None) \<and>
    ResolveApproval r2 now2 aid app2 op2 d' = Inl approval_already_resolved"
  using assms
  by (simp add: ResolveApproval_def GetApproval_def GetTask_def IsValidTransition_def Let_def
      find_row_upd_same)

text \<open>The witness approves a waiting task.\<close>

theorem approval_is_resolved_once_witness:
  "\<exists>d' a' t'. ResolveApproval ''r1'' 9 ''a1'' True ''op''
      ((sample_db WaitingApproval)\<lparr>dbApprovals := [sample_approval]\<rparr>) = Inr (d', Some a', Some t') \<and>
    tState t' = Queued"
  using approval_is_resolved_once [of "(sample_db WaitingApproval)\<lparr>dbApprovals := [sample_approval]\<rparr>"
      "''a1''" sample_approval "sample_task WaitingApproval" "''r1''" 9 True "''op''"
      "''r2''" 10 False "''op''"]
  by (auto simp: GetApproval_def GetTask_def sample_approval_def)

text \<open>
  The recovery of interrupted remote tasks does not go through the transition step: from an
  audited database with a task it recovers, it reaches one in which that task is queued while the
  transition log still ends in its old state, so the audit trail is broken.
\<close>

theorem recovery_breaks_the_audit_trail:
  assumes "audited d" and "GetTask d i = Some t" and "recoverable cutoff t"
    and d'_def: "d' = fst (RequeueRecoverableRemoteTasks dbnow cutoff actor d)"
  shows "(\<exists>u. GetTask d' i = Some u \<and> tState u = Queued \<and> tRetryCount u = tRetryCount t + 1) \<and>
    dbTransitions d' = dbTransitions d \<and> \<not> IsValidTransition (tState t) Queued \<and> \<not> audited d'"
proof -
  have u: "GetTask d' i = Some (requeue_row dbnow actor t)"
    using assms by (simp add: GetTask_requeue)
  have x: "dbTransitions d' = dbTransitions d"
    by (simp add: d'_def RequeueRecoverableRemoteTasks_def)
  have "tState t \<in> {Assigned, InProgress, Retrying}" using assms(3) by (simp add: recoverable_def)
  then have q: "tState t \<noteq> Queued" "\<not> IsValidTransition (tState t) Queued"
    by (auto simp: IsValidTransition_def)
  have "chain Created (task_history d' i) (tState t)"
    using auditedD(1) [OF assms(1,2)] x by (simp add: task_history_def)
  then have "\<not> chain Created (task_history d' i) Queued" using q chain_end by blast
  then have "\<not> audited d'" using auditedD(1) [OF _ u] by (auto simp: requeue_row_def)
  then show ?thesis using u x q by (simp add: requeue_row_def)
qed

text \<open>The witness recovers a task that was assigned and then left behind.\<close>

theorem recovery_breaks_the_audit_trail_witness:
  "audited assigned_db \<and> recoverable 100 (sample_task Assigned) \<and>
   \<not> audited (fst (RequeueRecoverableRemoteTasks 200 100 ''orchestrator'' assigned_db))"
proof -
  have "GetTask assigned_db ''t1'' = Some (sample_task Assigned)"
    by (simp add: assigned_db_def GetTask_def)
  moreover have "recoverable 100 (sample_task Assigned)"
    by (simp add: recoverable_def target_defs)
  ultimately show ?thesis
    using recovery_breaks_the_audit_trail [OF assigned_db_audited, of "''t1''" "sample_task Assigned" 100]
      assigned_db_audited by blast
qed

text \<open>
  Launching a task again is possible from \<open>created\<close>, \<open>failed\<close> and \<open>cancelled\<close> only; from the two
  terminal states it takes a step the transition table does not have and leaves the old completion
  time on the queued row.
\<close>

theorem launch_revives_terminal_tasks:
  assumes "GetTask d i = Some t"
  shows "(tState t \<in> {Created, Failed, Cancelled} \<longleftrightarrow> (\<exists>d' u. QueueTaskForLaunch r now i a q d = Inr (d', u))) \<and>
    (tState t \<in> {Failed, Cancelled} \<longrightarrow>
       \<not> IsValidTransition (tState t) Queued \<and>
       (\<exists>d' u. QueueTaskForLaunch r now i a q d = Inr (d', Some u) \<and> tState u = Queued \<and>
          tCompletedAt u = tCompletedAt t \<and> tQueuedAt u = Some now))"
  using assms
  by (auto simp: QueueTaskForLaunch_def IsValidTransition_def GetTask_def Let_def transition_row_def)

text \<open>The witness launches a cancelled task.\<close>

theorem launch_revives_terminal_tasks_witness:
  "\<exists>d' u. QueueTaskForLaunch ''r1'' 9 ''t1'' ''ui'' ''again'' (sample_db Cancelled) = Inr (d', Some u) \<and> tState u = Queued"
  using launch_revives_terminal_tasks [of "sample_db Cancelled" "''t1''" "sample_task Cancelled"
      "''r1''" 9 "''ui''" "''again''"] by auto

end
