(* ===== verification/Local_Bridge.thy ===== *)
theory Local_Bridge
  imports Task_Lifecycle
begin

text \<open>
  Local bridges: machines that register with the orchestrator, claim local tasks and keep a lease on
  what they run (\<^verbatim>\<open>src/internal/orchestratorgo/store/postgres.go\<close>, the bridge operations). A claim is
  two transactions: the one that picks the task and moves it to \<open>in_progress\<close>, and, after its
  commit, the metadata patch that writes the lease; they are the definitions
  \<open>claimTaskTx\<close> and \<open>TouchLocalBridgeTaskLease\<close>, so that another bridge's claim can be placed between
  the two.

  PostgreSQL's text of a JSON value that is not a string and its cast of a text to
  \<^verbatim>\<open>timestamptz\<close> are the parameters \<open>render\<close> and \<open>parse\<close>.
\<close>

section \<open>Leases in the metadata\<close>

definition unix_epoch :: instant where
  "unix_epoch = 62135596800 * second"

definition rfc3339 :: "instant \<Rightarrow> any_val" where
  "rfc3339 t = ATime ((t div second) * second)"

definition json_text :: "(any_val \<Rightarrow> string) \<Rightarrow> any_val option \<Rightarrow> string option" where
  "json_text render v =
     (case v of None \<Rightarrow> None | Some ANil \<Rightarrow> None | Some (AStr s) \<Rightarrow> Some s | Some w \<Rightarrow> Some (render w))"

definition lease_field :: "any_map \<Rightarrow> string \<Rightarrow> any_val option" where
  "lease_field m k = (case m ''local_bridge_lease'' of Some (AMap l) \<Rightarrow> l k | _ \<Rightarrow> None)"

definition lease_bridge :: "(any_val \<Rightarrow> string) \<Rightarrow> any_map \<Rightarrow> string" where
  "lease_bridge render m =
     (case json_text render (lease_field m ''bridge_id'') of None \<Rightarrow> [] | Some s \<Rightarrow> s)"

definition lease_expires ::
  "(any_val \<Rightarrow> string) \<Rightarrow> (string \<Rightarrow> instant option) \<Rightarrow> any_map \<Rightarrow> instant option" where
  "lease_expires render parse m =
     (case lease_field m ''lease_expires_at'' of
        Some (ATime t) \<Rightarrow> Some t
      | v \<Rightarrow> (case json_text render v of None \<Rightarrow> Some unix_epoch | Some s \<Rightarrow> parse s))"

definition derefString :: "string option \<Rightarrow> string" where
  "derefString v = (case v of None \<Rightarrow> [] | Some s \<Rightarrow> s)"

fun firstNonEmptyString :: "string list \<Rightarrow> string" where
  "firstNonEmptyString [] = []"
| "firstNonEmptyString (v # vs) = (if TrimSpace v \<noteq> [] then v else firstNonEmptyString vs)"

definition nonEmptyBridgeLeaseStatus :: "string \<Rightarrow> string \<Rightarrow> string" where
  "nonEmptyBridgeLeaseStatus val fallback = (if TrimSpace val \<noteq> [] then TrimSpace val else fallback)"

definition lease_extra :: "string option \<Rightarrow> string option \<Rightarrow> any_map \<Rightarrow> any_map" where
  "lease_extra tool summary m =
     (let m1 = (if TrimSpace (derefString tool) \<noteq> []
                then m(''tool'' \<mapsto> AStr (TrimSpace (derefString tool))) else m)
      in if TrimSpace (derefString summary) \<noteq> []
         then m1(''summary'' \<mapsto> AStr (TrimSpace (derefString summary))) else m1)"

definition TouchLocalBridgeTaskLease ::
  "instant \<Rightarrow> instant \<Rightarrow> string \<Rightarrow> string \<Rightarrow> int \<Rightarrow> string \<Rightarrow> string option \<Rightarrow> string option \<Rightarrow> string option
     \<Rightarrow> db \<Rightarrow> db" where
  "TouchLocalBridgeTaskLease now dbnow taskID0 bridgeID0 ttl0 status stage tool summary d =
     (let taskID = TrimSpace taskID0; bridgeID = TrimSpace bridgeID0
      in if taskID = [] \<or> bridgeID = [] then d
         else
           (let ttlSeconds = (if ttl0 \<le> 0 then 45 else ttl0);
                expiresAt = now + wrap64 (ttlSeconds * second);
                leaseStatus = nonEmptyBridgeLeaseStatus status ''active'';
                checkpointStage = TrimSpace (firstNonEmptyString [derefString stage, leaseStatus])
            in PatchTaskMetadata dbnow taskID
                 [(''local_bridge_lease'', AMap (lease_extra tool summary
                     [''bridge_id'' \<mapsto> AStr bridgeID, ''status'' \<mapsto> AStr leaseStatus,
                      ''last_heartbeat_at'' \<mapsto> rfc3339 now, ''lease_expires_at'' \<mapsto> rfc3339 expiresAt])),
                  (''recovery_checkpoint'', AMap (lease_extra tool summary
                     [''stage'' \<mapsto> AStr checkpointStage, ''bridge_id'' \<mapsto> AStr bridgeID,
                      ''updated_at'' \<mapsto> rfc3339 now, ''lease_expires_at'' \<mapsto> rfc3339 expiresAt,
                      ''execution_target'' \<mapsto> AStr ''local'']))] d))"

definition FinalizeLocalBridgeTaskLease ::
  "instant \<Rightarrow> instant \<Rightarrow> string \<Rightarrow> string \<Rightarrow> string \<Rightarrow> string option \<Rightarrow> string option \<Rightarrow> string option
     \<Rightarrow> db \<Rightarrow> db" where
  "FinalizeLocalBridgeTaskLease now dbnow taskID0 bridgeID0 status stage tool summary d =
     (let taskID = TrimSpace taskID0; bridgeID = TrimSpace bridgeID0
      in if taskID = [] \<or> bridgeID = [] then d
         else
           (let leaseStatus = nonEmptyBridgeLeaseStatus status ''completed'';
                checkpointStage = TrimSpace (firstNonEmptyString [derefString stage, leaseStatus])
            in PatchTaskMetadata dbnow taskID
                 [(''local_bridge_lease'', AMap (lease_extra tool summary
                     [''bridge_id'' \<mapsto> AStr bridgeID, ''status'' \<mapsto> AStr leaseStatus,
                      ''last_heartbeat_at'' \<mapsto> rfc3339 now, ''lease_expires_at'' \<mapsto> rfc3339 now,
                      ''released_at'' \<mapsto> rfc3339 now])),
                  (''recovery_checkpoint'', AMap (lease_extra tool summary
                     [''stage'' \<mapsto> AStr checkpointStage, ''bridge_id'' \<mapsto> AStr bridgeID,
                      ''updated_at'' \<mapsto> rfc3339 now, ''lease_expires_at'' \<mapsto> rfc3339 now,
                      ''released_at'' \<mapsto> rfc3339 now, ''execution_target'' \<mapsto> AStr ''local'']))] d))"

section \<open>Registration\<close>

record bridge_params =
  upID :: string
  upName :: string
  upHostname :: string
  upWorkspaceRoot :: string
  upStatus :: string
  upCapabilities :: "any_map option"
  upAPIKeyName :: "string option"

definition GetLocalBridge :: "db \<Rightarrow> string \<Rightarrow> bridge option" where
  "GetLocalBridge d bridgeID = find_row bID bridgeID (dbBridges d)"

definition UpsertLocalBridge :: "instant \<Rightarrow> bridge_params \<Rightarrow> db \<Rightarrow> db \<times> bridge option" where
  "UpsertLocalBridge now p d =
     (let status = (if TrimSpace (upStatus p) = [] then ''active'' else upStatus p);
          caps = (case upCapabilities p of None \<Rightarrow> Map.empty | Some m \<Rightarrow> m);
          d' = (case GetLocalBridge d (upID p) of
                  None \<Rightarrow> d\<lparr>dbBridges := dbBridges d @
                    [\<lparr>bID = upID p, bName = upName p, bHostname = upHostname p,
                      bWorkspaceRoot = upWorkspaceRoot p, bStatus = status, bCapabilities = caps,
                      bAPIKeyName = upAPIKeyName p, bLastHeartbeat = now, bCreatedAt = now, bUpdatedAt = now\<rparr>]\<rparr>
                | Some _ \<Rightarrow> d\<lparr>dbBridges := upd_row bID (upID p)
                    (\<lambda>b. b\<lparr>bName := upName p, bHostname := upHostname p, bWorkspaceRoot := upWorkspaceRoot p,
                          bStatus := status, bCapabilities := caps, bAPIKeyName := upAPIKeyName p,
                          bLastHeartbeat := now, bUpdatedAt := now\<rparr>) (dbBridges d)\<rparr>)
      in (d', GetLocalBridge d' (upID p)))"

definition HeartbeatLocalBridge :: "instant \<Rightarrow> string \<Rightarrow> string \<Rightarrow> db \<Rightarrow> db \<times> bridge option" where
  "HeartbeatLocalBridge now bridgeID status0 d =
     (let status = (if TrimSpace status0 = [] then ''active'' else status0);
          d' = d\<lparr>dbBridges := upd_row bID bridgeID
                 (\<lambda>b. b\<lparr>bStatus := status, bLastHeartbeat := now, bUpdatedAt := now\<rparr>) (dbBridges d)\<rparr>
      in if GetLocalBridge d bridgeID = None then (d', None) else (d', GetLocalBridge d' bridgeID))"

definition bridge_newer :: "bridge \<Rightarrow> bridge \<Rightarrow> bool" where
  "bridge_newer a b \<longleftrightarrow>
     bUpdatedAt b < bUpdatedAt a \<or> (bUpdatedAt a = bUpdatedAt b \<and> str_less (bID a) (bID b))"

definition ListLocalBridges :: "db \<Rightarrow> bridge list" where
  "ListLocalBridges d = sort_by bridge_newer (filter (\<lambda>b. bStatus b = ''active'') (dbBridges d))"

section \<open>Claims\<close>

definition root_matches :: "(any_val \<Rightarrow> string) \<Rightarrow> string \<Rightarrow> task \<Rightarrow> bool" where
  "root_matches render root t =
     (case json_text render (tMetadata t ''workspace_root'') of
        None \<Rightarrow> True | Some s \<Rightarrow> s = [] \<or> s = root)"

definition local_task :: "(any_val \<Rightarrow> string) \<Rightarrow> string \<Rightarrow> task \<Rightarrow> bool" where
  "local_task render root t \<longleftrightarrow>
     tExecutionTarget t = ExecutionTargetLocal \<and>
     tAssignedAgent t \<in> {Some AgentTypeCoder, Some AgentTypeResearcher, Some AgentTypeReviewer} \<and>
     tArchivedAt t = None \<and> root_matches render root t"

definition running :: "task \<Rightarrow> bool" where
  "running t \<longleftrightarrow> tState t \<in> {Assigned, InProgress, Retrying}"

definition resume_before :: "task \<Rightarrow> task \<Rightarrow> bool" where
  "resume_before a b \<longleftrightarrow>
     tUpdatedAt b < tUpdatedAt a \<or> (tUpdatedAt a = tUpdatedAt b \<and> created_before a b)"

definition own_tasks :: "(any_val \<Rightarrow> string) \<Rightarrow> string \<Rightarrow> string \<Rightarrow> db \<Rightarrow> task list" where
  "own_tasks render root bridgeID d =
     sort_by resume_before
       (filter (\<lambda>t. local_task render root t \<and> running t \<and> lease_bridge render (tMetadata t) = bridgeID)
         (dbTasks d))"

definition foreign_task :: "(any_val \<Rightarrow> string) \<Rightarrow> string \<Rightarrow> string \<Rightarrow> task \<Rightarrow> bool" where
  "foreign_task render root bridgeID t \<longleftrightarrow>
     local_task render root t \<and> running t \<and> lease_bridge render (tMetadata t) \<noteq> bridgeID"

definition expired_lease ::
  "(any_val \<Rightarrow> string) \<Rightarrow> (string \<Rightarrow> instant option) \<Rightarrow> instant \<Rightarrow> task \<Rightarrow> bool" where
  "expired_lease render parse dbnow t =
     (case lease_expires render parse (tMetadata t) of None \<Rightarrow> False | Some e \<Rightarrow> e < dbnow)"

definition expire_row :: "instant \<Rightarrow> task \<Rightarrow> task" where
  "expire_row dbnow t =
     t\<lparr>tState := Queued, tRetryCount := tRetryCount t + 1, tQueuedAt := Some dbnow, tUpdatedAt := dbnow,
       tMetadata := (tMetadata t)(''local_bridge_lease'' \<mapsto>
          jsonb_concat (json_get_obj (tMetadata t) ''local_bridge_lease'')
            (AMap [''status'' \<mapsto> AStr ''expired'', ''requeued_at'' \<mapsto> ATime dbnow]))\<rparr>"

definition expire_leases ::
  "(any_val \<Rightarrow> string) \<Rightarrow> (string \<Rightarrow> instant option) \<Rightarrow> instant \<Rightarrow> string \<Rightarrow> string \<Rightarrow> db \<Rightarrow> db" where
  "expire_leases render parse dbnow root bridgeID d =
     d\<lparr>dbTasks := map (\<lambda>t. if foreign_task render root bridgeID t \<and> expired_lease render parse dbnow t
                           then expire_row dbnow t else t) (dbTasks d)\<rparr>"

definition claimable :: "(any_val \<Rightarrow> string) \<Rightarrow> string \<Rightarrow> db \<Rightarrow> task list" where
  "claimable render root d =
     sort_by created_before (filter (\<lambda>t. local_task render root t \<and> tState t = Queued) (dbTasks d))"

definition resume_task :: "string \<Rightarrow> instant \<Rightarrow> string \<Rightarrow> task \<Rightarrow> db \<Rightarrow> db" where
  "resume_task rowID now bridgeID t d =
     (case tState t of
        Assigned \<Rightarrow> transitionTaskStateTx rowID (tID t) Assigned InProgress (''bridge:'' @ bridgeID)
          ''Execution resumed in local bridge'' now d
      | Retrying \<Rightarrow> transitionTaskStateTx rowID (tID t) Retrying InProgress (''bridge:'' @ bridgeID)
          ''Retry resumed in local bridge'' now d
      | _ \<Rightarrow> d)"

definition start_task :: "string \<Rightarrow> string \<Rightarrow> instant \<Rightarrow> string \<Rightarrow> task \<Rightarrow> db \<Rightarrow> db" where
  "start_task row1 row2 now bridgeID t d =
     transitionTaskStateTx row2 (tID t) Assigned InProgress (''bridge:'' @ bridgeID)
       ''Execution started in local bridge'' now
       (transitionTaskStateTx row1 (tID t) Queued Assigned (''bridge:'' @ bridgeID)
          ''Dequeued for local bridge'' now d)"

definition claimTaskTx ::
  "(any_val \<Rightarrow> string) \<Rightarrow> (string \<Rightarrow> instant option) \<Rightarrow> string \<Rightarrow> string \<Rightarrow> instant \<Rightarrow> instant \<Rightarrow> string \<Rightarrow> db
     \<Rightarrow> (db \<times> (task \<times> bridge \<times> string) option) result" where
  "claimTaskTx render parse row1 row2 now dbnow bridgeID d =
     (case GetLocalBridge d bridgeID of
        None \<Rightarrow> Inr (d, None)
      | Some b \<Rightarrow>
          (case own_tasks render (bWorkspaceRoot b) bridgeID d of
             t # _ \<Rightarrow> Inr (resume_task row1 now bridgeID t d, Some (t, b, ''resumed''))
           | [] \<Rightarrow>
               if \<exists>t \<in> set (dbTasks d). foreign_task render (bWorkspaceRoot b) bridgeID t \<and>
                    lease_expires render parse (tMetadata t) = None
               then Inl ''invalid input syntax for type timestamp with time zone''
               else
                 (let d1 = expire_leases render parse dbnow (bWorkspaceRoot b) bridgeID d
                  in case claimable render (bWorkspaceRoot b) d1 of
                       [] \<Rightarrow> Inr (d1, None)
                     | t # _ \<Rightarrow> Inr (start_task row1 row2 now bridgeID t d1, Some (t, b, ''claimed'')))))"

record bridge_claim =
  clTaskID :: string
  clRootTaskID :: "string option"
  clParentTaskID :: "string option"
  clDescription :: string
  clAssignedAgent :: string
  clExecutionTarget :: string
  clWorkspacePath :: string
  clWorkspaceRoot :: string
  clMetadata :: any_map
  clRepoPath :: string
  clBranch :: string

definition asString :: "any_val option \<Rightarrow> string" where
  "asString v = (case v of Some (AStr s) \<Rightarrow> s | _ \<Rightarrow> [])"

definition buildLocalBridgeClaim :: "task \<Rightarrow> bridge \<Rightarrow> bridge_claim" where
  "buildLocalBridgeClaim t b =
     (let m = tMetadata t;
          root0 = TrimSpace (asString (m ''workspace_root''));
          root = (if root0 = [] then bWorkspaceRoot b else root0);
          repo = TrimSpace (asString (m ''repo_path''));
          br = TrimSpace (asString (m ''branch''))
      in \<lparr>clTaskID = tID t, clRootTaskID = tRootTaskID t, clParentTaskID = tParentTaskID t,
          clDescription = tDescription t, clAssignedAgent = derefString (tAssignedAgent t),
          clExecutionTarget = tExecutionTarget t, clWorkspacePath = derefString (tWorkspacePath t),
          clWorkspaceRoot = root, clMetadata = m,
          clRepoPath = (if repo = [] then root else repo),
          clBranch = (if br = [] then ''main'' else br)\<rparr>)"

definition ClaimNextLocalBridgeTaskWithTTL ::
  "(any_val \<Rightarrow> string) \<Rightarrow> (string \<Rightarrow> instant option) \<Rightarrow> string \<Rightarrow> string \<Rightarrow> instant \<Rightarrow> instant \<Rightarrow> instant \<Rightarrow> instant
     \<Rightarrow> string \<Rightarrow> int \<Rightarrow> db \<Rightarrow> (db \<times> bridge_claim option) result" where
  "ClaimNextLocalBridgeTaskWithTTL render parse row1 row2 now dbnow now2 dbnow2 bridgeID ttl d =
     (case claimTaskTx render parse row1 row2 now dbnow bridgeID d of
        Inl e \<Rightarrow> Inl e
      | Inr (d1, None) \<Rightarrow> Inr (d1, None)
      | Inr (d1, Some (t, b, status)) \<Rightarrow>
          Inr (TouchLocalBridgeTaskLease now2 dbnow2 (tID t) bridgeID ttl status None None None d1,
               Some (buildLocalBridgeClaim t b)))"

definition ClaimNextLocalBridgeTask where
  "ClaimNextLocalBridgeTask render parse row1 row2 now dbnow now2 dbnow2 bridgeID d =
     ClaimNextLocalBridgeTaskWithTTL render parse row1 row2 now dbnow now2 dbnow2 bridgeID 45 d"


section \<open>What a claim touches\<close>

lemma GetTask_transition_other:
  "i \<noteq> j \<Longrightarrow> GetTask (transitionTaskStateTx r j s s' a q now d) i = GetTask d i"
  by (simp add: GetTask_def find_row_upd_other)

lemma GetTask_resume_other: "i \<noteq> tID t \<Longrightarrow> GetTask (resume_task r now b t d) i = GetTask d i"
  by (simp add: resume_task_def GetTask_transition_other split: task_state.split)

lemma GetTask_start_other: "i \<noteq> tID t \<Longrightarrow> GetTask (start_task r1 r2 now b t d) i = GetTask d i"
  by (simp add: start_task_def GetTask_transition_other)

lemma GetTask_start_same:
  "GetTask d (tID t) = Some u \<Longrightarrow> \<exists>v. GetTask (start_task r1 r2 now b t d) (tID t) = Some v \<and>
     tState v = InProgress \<and> tMetadata v = tMetadata u \<and> tRetryCount v = tRetryCount u"
  by (simp add: start_task_def GetTask_def transition_row_def)

lemma GetTask_expire:
  "GetTask (expire_leases render parse dbnow root bid d) i =
     map_option (\<lambda>t. if foreign_task render root bid t \<and> expired_lease render parse dbnow t
                     then expire_row dbnow t else t) (GetTask d i)"
  unfolding GetTask_def expire_leases_def by (simp add: find_row_map_keys expire_row_def)

lemma keyed_expire:
  "keyed tID (dbTasks d) \<Longrightarrow> keyed tID (dbTasks (expire_leases render parse dbnow root bid d))"
  by (simp add: expire_leases_def o_def expire_row_def if_distrib [of tID] cong: if_cong)

lemma keyed_GetTask: "keyed tID (dbTasks d) \<Longrightarrow> t \<in> set (dbTasks d) \<Longrightarrow> GetTask d (tID t) = Some t"
  by (simp add: GetTask_def find_row_keyed)

lemma own_tasks_head:
  assumes "own_tasks render root bid d = t # ts"
  shows "t \<in> set (dbTasks d) \<and> local_task render root t \<and> running t \<and> lease_bridge render (tMetadata t) = bid"
proof -
  have "t \<in> set (own_tasks render root bid d)" using assms by simp
  then show ?thesis by (simp add: own_tasks_def)
qed

lemma claimable_head:
  assumes "claimable render root d = t # ts"
  shows "t \<in> set (dbTasks d) \<and> local_task render root t \<and> tState t = Queued"
proof -
  have "t \<in> set (claimable render root d)" using assms by simp
  then show ?thesis by (simp add: claimable_def)
qed

text \<open>The three ways a claim succeeds.\<close>

lemma claimTaskTx_cases:
  assumes "claimTaskTx render parse r1 r2 now dbnow bid d = Inr (d', res)"
  obtains (unknown) "GetLocalBridge d bid = None" "d' = d" "res = None"
  | (resumed) b t ts where "GetLocalBridge d bid = Some b" "own_tasks render (bWorkspaceRoot b) bid d = t # ts"
      "d' = resume_task r1 now bid t d" "res = Some (t, b, ''resumed'')"
  | (nothing) b where "GetLocalBridge d bid = Some b"
      "d' = expire_leases render parse dbnow (bWorkspaceRoot b) bid d" "res = None"
  | (claimed) b t ts where "GetLocalBridge d bid = Some b"
      "claimable render (bWorkspaceRoot b) (expire_leases render parse dbnow (bWorkspaceRoot b) bid d) = t # ts"
      "d' = start_task r1 r2 now bid t (expire_leases render parse dbnow (bWorkspaceRoot b) bid d)"
      "res = Some (t, b, ''claimed'')"
  using assms
  by (auto simp: claimTaskTx_def Let_def split: option.splits list.splits if_splits)

lemma lease_protected:
  assumes k: "keyed tID (dbTasks d)" and t: "GetTask d i = Some t" and run: "running t"
    and lease: "lease_bridge render (tMetadata t) \<noteq> bid" "\<not> expired_lease render parse dbnow t"
    and c: "claimTaskTx render parse r1 r2 now dbnow bid d = Inr (d', res)"
  shows "GetTask d' i = Some t \<and> (\<forall>u b s. res = Some (u, b, s) \<longrightarrow> tID u \<noteq> i)"
  using c
proof (cases rule: claimTaskTx_cases)
  case (resumed b u us)
  with own_tasks_head [OF resumed(2)] keyed_GetTask [OF k, of u] t lease have "tID u \<noteq> i" by auto
  with resumed t show ?thesis by (simp add: GetTask_resume_other)
next
  case (claimed b u us)
  let ?e = "expire_leases render parse dbnow (bWorkspaceRoot b) bid d"
  have e: "GetTask ?e i = Some t" using t lease by (simp add: GetTask_expire)
  have "tID u \<noteq> i"
    using claimable_head [OF claimed(2)] keyed_GetTask [OF keyed_expire [OF k], of u render parse dbnow
        "bWorkspaceRoot b" bid] e run by (auto simp: running_def)
  with claimed e show ?thesis by (simp add: GetTask_start_other)
qed (use t lease in \<open>auto simp: GetTask_expire\<close>)

lemma claimed_task_runs:
  assumes k: "keyed tID (dbTasks d)"
    and c: "claimTaskTx render parse r1 r2 now dbnow bid d = Inr (d', Some (t, b, s))"
  shows "\<exists>u. GetTask d' (tID t) = Some u \<and> tState u = InProgress \<and> tMetadata u = tMetadata t \<and>
    local_task render (bWorkspaceRoot b) t \<and> GetLocalBridge d bid = Some b \<and> s \<noteq> []"
  using c
proof (cases rule: claimTaskTx_cases)
  case (resumed b' t' ts)
  then have h: "t \<in> set (dbTasks d)" "local_task render (bWorkspaceRoot b) t" "running t"
    using own_tasks_head [OF resumed(2)] by simp_all
  then have "GetTask d (tID t) = Some t" using keyed_GetTask [OF k] by simp
  with resumed h show ?thesis
    by (auto simp: resume_task_def running_def GetTask_def transition_row_def)
next
  case (claimed b' t' ts)
  let ?e = "expire_leases render parse dbnow (bWorkspaceRoot b) bid d"
  have h: "t \<in> set (dbTasks ?e)" "local_task render (bWorkspaceRoot b) t"
    using claimable_head [OF claimed(2)] claimed(4) by simp_all
  then have "GetTask ?e (tID t) = Some t" using keyed_GetTask [OF keyed_expire [OF k]] by simp
  from GetTask_start_same [OF this, where ?r1.0 = r1 and ?r2.0 = r2 and now = now and b = bid] h claimed
  show ?thesis by auto
qed simp_all

lemma touch_sets_lease:
  assumes "GetTask d i = Some t" and "TrimSpace i = i" "i \<noteq> []" and "TrimSpace bid = bid" "bid \<noteq> []"
  shows "\<exists>u. GetTask (TouchLocalBridgeTaskLease now dbnow i bid ttl s None None None d) i = Some u \<and>
    tState u = tState t \<and> lease_bridge render (tMetadata u) = bid \<and>
    lease_expires render parse (tMetadata u) =
      Some ((now + wrap64 ((if ttl \<le> 0 then 45 else ttl) * second)) div second * second)"
  using assms
  by (simp add: TouchLocalBridgeTaskLease_def PatchTaskMetadata_def GetTask_def Let_def lease_extra_def
      derefString_def lease_bridge_def lease_expires_def lease_field_def json_text_def rfc3339_def)

section \<open>Sample data\<close>

definition sample_bridge :: "string \<Rightarrow> bridge" where
  "sample_bridge i =
     \<lparr>bID = i, bName = i, bHostname = ''host'', bWorkspaceRoot = ''/w'', bStatus = ''active'',
      bCapabilities = Map.empty, bAPIKeyName = None, bLastHeartbeat = 1, bCreatedAt = 1, bUpdatedAt = 1\<rparr>"

definition local_sample :: "task_state \<Rightarrow> task" where
  "local_sample s = (sample_task s)\<lparr>tExecutionTarget := ''local'', tMetadata := Map.empty\<rparr>"

definition bridge_db :: "task \<Rightarrow> db" where
  "bridge_db t = emptyDB\<lparr>dbTasks := [t], dbBridges := [sample_bridge ''A'', sample_bridge ''B'']\<rparr>"

definition leased :: "string \<Rightarrow> instant \<Rightarrow> task \<Rightarrow> task" where
  "leased b e t = t\<lparr>tMetadata := [''local_bridge_lease'' \<mapsto>
     AMap [''bridge_id'' \<mapsto> AStr b, ''lease_expires_at'' \<mapsto> ATime e]]\<rparr>"

lemma local_sample_simps [simp]:
  "tID (local_sample s) = ''t1''" "tState (local_sample s) = s" "tMetadata (local_sample s) = Map.empty"
  "tExecutionTarget (local_sample s) = ''local''" "tArchivedAt (local_sample s) = None"
  "tAssignedAgent (local_sample s) = Some ''coder''"
  by (simp_all add: local_sample_def)
    (simp add: sample_task_def create_row_def sample_params_def)

lemma sample_claim:
  assumes "running t \<longrightarrow> lease_bridge render (tMetadata t) \<noteq> ''A'' \<and>
      expired_lease render parse dbnow t" and "running t \<or> tState t = Queued"
    and "tExecutionTarget t = ''local''" "tArchivedAt t = None" "tAssignedAgent t = Some ''coder''"
    and "tMetadata t ''workspace_root'' = None"
  shows "\<exists>d' u b. claimTaskTx render parse r1 r2 now dbnow ''A'' (bridge_db t) = Inr (d', Some (u, b, ''claimed'')) \<and>
     tID u = tID t"
proof -
  have l: "local_task render ''/w'' t" "local_task render ''/w'' (expire_row dbnow t)"
    using assms by (simp_all add: local_task_def target_defs agent_defs root_matches_def json_text_def
        expire_row_def)
  have b: "GetLocalBridge (bridge_db t) ''A'' = Some (sample_bridge ''A'')" "bWorkspaceRoot (sample_bridge ''A'') = ''/w''"
    "dbTasks (bridge_db t) = [t]"
    by (simp_all add: bridge_db_def GetLocalBridge_def sample_bridge_def)
  have own: "own_tasks render ''/w'' ''A'' (bridge_db t) = []"
    using assms(1) by (auto simp: own_tasks_def b)
  show ?thesis
  proof (cases "running t")
    case True
    with assms(1) l b have "dbTasks (expire_leases render parse dbnow ''/w'' ''A'' (bridge_db t)) = [expire_row dbnow t]"
      by (simp add: expire_leases_def foreign_task_def)
    with True assms(1) l own b show ?thesis
      by (auto simp: claimTaskTx_def Let_def claimable_def expired_lease_def expire_row_def split: option.splits)
  next
    case False
    with b have "dbTasks (expire_leases render parse dbnow ''/w'' ''A'' (bridge_db t)) = [t]"
      by (simp add: expire_leases_def foreign_task_def)
    with False assms(2) l own b show ?thesis
      by (simp add: claimTaskTx_def Let_def claimable_def foreign_task_def)
  qed
qed

section \<open>Properties\<close>

text \<open>
  C3: a claim never takes a running task that another bridge holds with a lease that has not expired,
  and leaves its row as it was.
\<close>

theorem live_leases_are_respected:
  assumes "keyed tID (dbTasks d)" and "GetTask d i = Some t" and "running t"
    and "lease_bridge render (tMetadata t) \<noteq> bid"
    and "lease_expires render parse (tMetadata t) = Some e" and "dbnow \<le> e"
    and "claimTaskTx render parse r1 r2 now dbnow bid d = Inr (d', res)"
  shows "GetTask d' i = Some t \<and> (\<forall>u b s. res = Some (u, b, s) \<longrightarrow> tID u \<noteq> i)"
  using lease_protected [OF assms(1-4) _ assms(7)] assms(5,6) by (simp add: expired_lease_def)

text \<open>The witness is a task that bridge B holds when A asks for work.\<close>

theorem live_leases_are_respected_witness:
  "\<exists>d' res. claimTaskTx (\<lambda>_. []) (\<lambda>_. None) ''r1'' ''r2'' 9 10 ''A'' (bridge_db (leased ''B'' 20 (local_sample InProgress)))
      = Inr (d', res) \<and> GetTask d' ''t1'' = Some (leased ''B'' 20 (local_sample InProgress))"
proof -
  let ?t = "leased ''B'' 20 (local_sample InProgress)"
  have t: "lease_bridge (\<lambda>_. []) (tMetadata ?t) = ''B''"
    "lease_expires (\<lambda>_. []) (\<lambda>_. None) (tMetadata ?t) = Some 20" "running ?t" "tID ?t = ''t1''" "tState ?t = InProgress"
    by (simp_all add: leased_def lease_bridge_def lease_expires_def lease_field_def json_text_def running_def)
  then have c: "claimTaskTx (\<lambda>_. []) (\<lambda>_. None) ''r1'' ''r2'' 9 10 ''A'' (bridge_db ?t) = Inr (bridge_db ?t, None)"
    by (simp add: claimTaskTx_def GetLocalBridge_def bridge_db_def sample_bridge_def own_tasks_def
        expire_leases_def expired_lease_def claimable_def Let_def)
  moreover have "keyed tID (dbTasks (bridge_db ?t))" "GetTask (bridge_db ?t) ''t1'' = Some ?t"
    using t by (simp_all add: bridge_db_def GetTask_def)
  ultimately show ?thesis
    using live_leases_are_respected [OF _ _ t(3) _ t(2) _ c] t by auto
qed

text \<open>
  A successful claim hands out a task of the bridge's workspace that is now in progress, and its
  lease names the bridge and runs for the requested time (45 seconds if none is given), counted from
  the moment the lease is written and cut to whole seconds.
\<close>

theorem claim_takes_a_lease:
  assumes k: "keyed tID (dbTasks d)" and b: "TrimSpace bid = bid" "bid \<noteq> []"
    and c: "ClaimNextLocalBridgeTaskWithTTL render parse r1 r2 now dbnow now2 dbnow2 bid ttl d = Inr (d', Some cl)"
    and i: "TrimSpace (clTaskID cl) = clTaskID cl" "clTaskID cl \<noteq> []"
  shows "\<exists>u. GetTask d' (clTaskID cl) = Some u \<and> tState u = InProgress \<and>
    lease_bridge render (tMetadata u) = bid \<and>
    lease_expires render parse (tMetadata u) =
      Some ((now2 + wrap64 ((if ttl \<le> 0 then 45 else ttl) * second)) div second * second)"
proof -
  obtain d1 t br s where tx: "claimTaskTx render parse r1 r2 now dbnow bid d = Inr (d1, Some (t, br, s))"
    and d': "d' = TouchLocalBridgeTaskLease now2 dbnow2 (tID t) bid ttl s None None None d1"
    and cl: "cl = buildLocalBridgeClaim t br"
    using c by (auto simp: ClaimNextLocalBridgeTaskWithTTL_def split: sum.splits option.splits)
  have id: "clTaskID cl = tID t" by (simp add: cl buildLocalBridgeClaim_def Let_def)
  obtain u where u: "GetTask d1 (tID t) = Some u" "tState u = InProgress"
    using claimed_task_runs [OF k tx] by blast
  from touch_sets_lease [OF u(1) i [unfolded id] b] u(2) show ?thesis unfolding d' id by metis
qed

text \<open>The witness claims a queued task.\<close>

theorem claim_takes_a_lease_witness:
  "\<exists>d' cl u. ClaimNextLocalBridgeTaskWithTTL (\<lambda>_. []) (\<lambda>_. None) ''r1'' ''r2'' 9 10 11 12 ''A'' 0
      (bridge_db (local_sample Queued)) = Inr (d', Some cl) \<and>
    GetTask d' (clTaskID cl) = Some u \<and> lease_bridge (\<lambda>_. []) (tMetadata u) = ''A''"
proof -
  obtain d1 t b where c: "claimTaskTx (\<lambda>_. []) (\<lambda>_. None) ''r1'' ''r2'' 9 10 ''A'' (bridge_db (local_sample Queued))
      = Inr (d1, Some (t, b, ''claimed''))" "tID t = ''t1''"
    using sample_claim [of "local_sample Queued" "\<lambda>_. []" "\<lambda>_. None" 10 "''r1''" "''r2''" 9]
    by (auto simp: running_def)
  let ?cl = "buildLocalBridgeClaim t b"
  let ?d = "TouchLocalBridgeTaskLease 11 12 (tID t) ''A'' 0 ''claimed'' None None None d1"
  have claim: "ClaimNextLocalBridgeTaskWithTTL (\<lambda>_. []) (\<lambda>_. None) ''r1'' ''r2'' 9 10 11 12 ''A'' 0
      (bridge_db (local_sample Queued)) = Inr (?d, Some ?cl)"
    using c by (simp add: ClaimNextLocalBridgeTaskWithTTL_def)
  have id: "clTaskID ?cl = ''t1''" using c by (simp add: buildLocalBridgeClaim_def Let_def)
  have trim: "TrimSpace ''A'' = ''A''" "TrimSpace ''t1'' = ''t1''"
    by (simp_all add: TrimSpace_def TrimLeftSpace_def TrimRightSpace_def space_seqs_def strip_front.simps)
  have k: "keyed tID (dbTasks (bridge_db (local_sample Queued)))" by (simp add: bridge_db_def)
  obtain u where "GetTask ?d (clTaskID ?cl) = Some u \<and> lease_bridge (\<lambda>_. []) (tMetadata u) = ''A''"
    using claim_takes_a_lease [OF k trim(1) _ claim] id trim(2) by auto
  with claim show ?thesis by blast
qed

text \<open>
  The lease is written after the claim has been committed. A second bridge of the same workspace
  whose claim falls between the two sees a running task without a lease, counts it as expired and
  takes it away from the first: it is queued again with one more retry, or handed out a second time.
\<close>

theorem claim_before_the_lease_is_stolen:
  assumes k: "keyed tID (dbTasks d1)" and t: "GetTask d1 i = Some t" and run: "tState t = InProgress"
    and l: "local_task render (bWorkspaceRoot b) t" "tMetadata t ''local_bridge_lease'' = None"
    and b: "GetLocalBridge d1 bid = Some b" "bid \<noteq> []" "own_tasks render (bWorkspaceRoot b) bid d1 = []"
    and now: "unix_epoch < dbnow"
    and c: "claimTaskTx render parse r1 r2 now dbnow bid d1 = Inr (d2, res)"
  shows "\<exists>u. GetTask d2 i = Some u \<and> tRetryCount u = tRetryCount t + 1 \<and>
    (tState u = Queued \<or> (tState u = InProgress \<and> (\<exists>v. res = Some (v, b, ''claimed'') \<and> tID v = i)))"
proof -
  let ?e = "expire_leases render parse dbnow (bWorkspaceRoot b) bid d1"
  have "foreign_task render (bWorkspaceRoot b) bid t" "expired_lease render parse dbnow t"
    using l b(2) run now
    by (simp_all add: foreign_task_def running_def lease_bridge_def lease_field_def json_text_def
        expired_lease_def lease_expires_def)
  then have e: "GetTask ?e i = Some (expire_row dbnow t)" using t by (simp add: GetTask_expire)
  show ?thesis using c
  proof (cases rule: claimTaskTx_cases)
    case (claimed b' v vs)
    then have "b' = b" using b by simp
    show ?thesis
    proof (cases "tID v = i")
      case False
      with claimed e \<open>b' = b\<close> show ?thesis by (auto simp: GetTask_start_other expire_row_def)
    next
      case True
      with GetTask_start_same [of ?e v "expire_row dbnow t" r1 r2 now bid] e claimed \<open>b' = b\<close> show ?thesis
        by (auto simp: expire_row_def)
    qed
  qed (use b e in \<open>auto simp: expire_row_def\<close>)
qed

text \<open>The witness is one running task without a lease and a bridge that asks for work.\<close>

theorem claim_before_the_lease_is_stolen_witness:
  "\<exists>d2 v b u. claimTaskTx (\<lambda>_. []) (\<lambda>_. None) ''r1'' ''r2'' 9 (unix_epoch + 5) ''A'' (bridge_db (local_sample InProgress))
      = Inr (d2, Some (v, b, ''claimed'')) \<and> tID v = ''t1'' \<and>
    GetTask d2 ''t1'' = Some u \<and> tRetryCount u = tRetryCount (local_sample InProgress) + 1"
proof -
  let ?t = "local_sample InProgress"
  have ex: "expired_lease (\<lambda>_. []) (\<lambda>_. None) (unix_epoch + 5) ?t"
    by (simp add: expired_lease_def lease_expires_def lease_field_def json_text_def)
  obtain d2 v b where c: "claimTaskTx (\<lambda>_. []) (\<lambda>_. None) ''r1'' ''r2'' 9 (unix_epoch + 5) ''A'' (bridge_db ?t)
      = Inr (d2, Some (v, b, ''claimed''))" and v: "tID v = ''t1''"
    using sample_claim [of ?t "\<lambda>_. []" "\<lambda>_. None" "unix_epoch + 5" "''r1''" "''r2''" 9] ex
    by (auto simp: running_def lease_bridge_def lease_field_def json_text_def)
  have k: "keyed tID (dbTasks (bridge_db ?t))" "GetTask (bridge_db ?t) ''t1'' = Some ?t" "tState ?t = InProgress"
    by (simp_all add: bridge_db_def GetTask_def)
  have l: "local_task (\<lambda>_. []) (bWorkspaceRoot (sample_bridge ''A'')) ?t" "tMetadata ?t ''local_bridge_lease'' = None"
    by (simp_all add: local_task_def target_defs agent_defs root_matches_def json_text_def)
  have b: "GetLocalBridge (bridge_db ?t) ''A'' = Some (sample_bridge ''A'')"
    "own_tasks (\<lambda>_. []) (bWorkspaceRoot (sample_bridge ''A'')) ''A'' (bridge_db ?t) = []"
    by (simp_all add: bridge_db_def GetLocalBridge_def sample_bridge_def own_tasks_def
        lease_bridge_def lease_field_def json_text_def)
  show ?thesis using claim_before_the_lease_is_stolen [OF k l b(1) _ b(2) _ c] c v by auto
qed

end
