(* ===== verification/Go_Text.thy ===== *)
theory Go_Text
  imports Lab_Prelude
begin

text \<open>
  Text functions of Go's standard library that the objective loop and the bridge handlers use:
  decimal rendering of integers (\<^verbatim>\<open>fmt.Sprintf("%d", n)\<close>), letter case, the last element of a path
  and a search for a substring. Strings are bytes in UTF-8.
\<close>

section \<open>Numbers as text\<close>

fun digits :: "nat \<Rightarrow> string" where
  "digits n = (if n < 10 then [char_of (48 + n)] else digits (n div 10) @ [char_of (48 + n mod 10)])"

declare digits.simps [simp del]

definition Itoa :: "int \<Rightarrow> string" where
  "Itoa i = (if i < 0 then CHR ''-'' # digits (nat (- i)) else digits (nat i))"

definition all_digits :: "string \<Rightarrow> bool" where
  "all_digits s \<longleftrightarrow> s \<noteq> [] \<and> (\<forall>c \<in> set s. 48 \<le> (of_char c :: nat) \<and> (of_char c :: nat) \<le> 57)"

definition digits_value :: "string \<Rightarrow> nat" where
  "digits_value s = foldl (\<lambda>v c. 10 * v + (of_char c - 48)) 0 s"

lemma digits_small: "n < 10 \<Longrightarrow> digits n = [char_of (48 + n)]"
  by (subst digits.simps) simp

lemma digits_large: "\<not> n < 10 \<Longrightarrow> digits n = digits (n div 10) @ [char_of (48 + n mod 10)]"
  by (subst digits.simps) simp

lemma of_digit: "n < 10 \<Longrightarrow> of_char (char_of (48 + n)) = (48 + n :: nat)"
  by (simp add: of_char_of)

lemma digits_value_digits: "digits_value (digits n) = n"
proof (induction n rule: digits.induct)
  case (1 n)
  show ?case
  proof (cases "n < 10")
    case True
    then show ?thesis by (simp add: digits_small digits_value_def of_digit)
  next
    case False
    have "digits_value (digits n) = 10 * digits_value (digits (n div 10)) + n mod 10"
      using False by (simp add: digits_large digits_value_def of_digit)
    then show ?thesis using 1 False by simp
  qed
qed

lemma digits_inj [simp]: "digits m = digits n \<longleftrightarrow> m = n"
  by (metis digits_value_digits)

lemma all_digits_digits: "all_digits (digits n)"
proof (induction n rule: digits.induct)
  case (1 n)
  show ?case
  proof (cases "n < 10")
    case True
    then show ?thesis by (simp add: digits_small all_digits_def of_digit)
  next
    case False
    then show ?thesis using 1 by (auto simp: digits_large all_digits_def of_digit)
  qed
qed

lemma Itoa_nonneg: "0 \<le> i \<Longrightarrow> Itoa i = digits (nat i)"
  by (simp add: Itoa_def)

text \<open>A decimal suffix behind a hyphen is read back from a text.\<close>

lemma hyphen_notin_digits: "all_digits s \<Longrightarrow> CHR ''-'' \<notin> set s"
  by (auto simp: all_digits_def)

lemma hyphen_suffix:
  assumes "all_digits s" and "all_digits t" and "a @ ''-'' @ s = b @ ''-'' @ t"
  shows "a = b \<and> s = t"
proof -
  have pick: "takeWhile (\<lambda>c. c \<noteq> CHR ''-'') (rev (x @ ''-'' @ u)) = rev u" if "all_digits u" for x u
  proof -
    have "takeWhile (\<lambda>c. c \<noteq> CHR ''-'') (rev u @ CHR ''-'' # rev x) = rev u @ takeWhile (\<lambda>c. c \<noteq> CHR ''-'') (CHR ''-'' # rev x)"
      by (rule takeWhile_append2) (use hyphen_notin_digits [OF that] in auto)
    then show ?thesis by simp
  qed
  have "rev s = rev t" using pick [OF assms(1), of a] pick [OF assms(2), of b] assms(3) by metis
  then show ?thesis using assms(3) by simp
qed

section \<open>Letter case\<close>

text \<open>
  \<open>ToLower\<close> lowers the ASCII letters and the two other characters whose lower case is an ASCII
  letter, U+0130 and U+212A; \<open>ToUpper\<close> likewise raises U+0131 and U+017F. The other letters of
  Unicode are left alone: the code only compares the result with ASCII words. \<open>EqualFold\<close> is \<^verbatim>\<open>strings.EqualFold\<close> against an ASCII word; U+017F
  folds to \<open>s\<close> and U+212A to \<open>k\<close>.
\<close>

definition fold_char :: "char \<Rightarrow> char" where
  "fold_char c = (if 65 \<le> (of_char c :: nat) \<and> (of_char c :: nat) \<le> 90 then char_of (of_char c + 32 :: nat) else c)"

definition unfold_char :: "char \<Rightarrow> char" where
  "unfold_char c = (if 97 \<le> (of_char c :: nat) \<and> (of_char c :: nat) \<le> 122 then char_of (of_char c - 32 :: nat) else c)"

fun ToLower :: "string \<Rightarrow> string" where
  "ToLower [] = []"
| "ToLower (c # s) =
     (if take 2 (c # s) = [CHR 0xC4, CHR 0xB0] then CHR ''i'' # ToLower (drop 1 s)
      else if take 3 (c # s) = [CHR 0xE2, CHR 0x84, CHR 0xAA] then CHR ''k'' # ToLower (drop 2 s)
      else fold_char c # ToLower s)"

fun ToUpper :: "string \<Rightarrow> string" where
  "ToUpper [] = []"
| "ToUpper (c # s) =
     (if take 2 (c # s) = [CHR 0xC4, CHR 0xB1] then CHR ''I'' # ToUpper (drop 1 s)
      else if take 2 (c # s) = [CHR 0xC5, CHR 0xBF] then CHR ''S'' # ToUpper (drop 1 s)
      else unfold_char c # ToUpper s)"

fun fold_text :: "string \<Rightarrow> string" where
  "fold_text [] = []"
| "fold_text (c # s) =
     (if take 2 (c # s) = [CHR 0xC5, CHR 0xBF] then CHR ''s'' # fold_text (drop 1 s)
      else if take 3 (c # s) = [CHR 0xE2, CHR 0x84, CHR 0xAA] then CHR ''k'' # fold_text (drop 2 s)
      else fold_char c # fold_text s)"

definition EqualFold :: "string \<Rightarrow> string \<Rightarrow> bool" where
  "EqualFold s t \<longleftrightarrow> fold_text s = fold_text t"

section \<open>Substrings and paths\<close>

definition Contains :: "string \<Rightarrow> string \<Rightarrow> bool" where
  "Contains s p \<longleftrightarrow> sublist p s"

definition path_base :: "string \<Rightarrow> string" where
  "path_base p =
     (if p = [] then ''.''
      else
        (let q = rev (dropWhile (\<lambda>c. c = CHR ''/'') (rev p))
         in if q = [] then ''/'' else rev (takeWhile (\<lambda>c. c \<noteq> CHR ''/'') (rev q))))"

end
