(* ===== verification/Initiative_Store.thy ===== *)
theory Initiative_Store
  imports Local_Bridge Go_Text
begin

text \<open>
  Initiatives: the rows and operations of \<^verbatim>\<open>store/initiatives.go\<close>, the vocabulary of
  \<^verbatim>\<open>domain/initiative.go\<close>, and the contracts of \<^verbatim>\<open>initiative/contracts.go\<close> (payload
  validation and the execution policy of a workspace). The status an initiative gets from the states
  of its tasks is derived twice in the code, by the store and by the HTTP layer; both are modelled
  and compared.
\<close>

section \<open>Vocabulary\<close>

datatype initiative_status =
    IdeaSubmitted | RequirementsDraft | RequirementsReview | DesignDraft | DesignReview
  | PlanDraft | PlanReview | ExecutionReady | Executing | Blocked | InitCompleted | InitCancelled

datatype initiative_phase = RequirementsPhase | DesignPhase | PlanPhase | ExecutionPhase

datatype review_decision = ReviewGenerated | ReviewApproved | ReviewRejected

definition phaseText :: "initiative_phase \<Rightarrow> string" where
  "phaseText p = (case p of RequirementsPhase \<Rightarrow> ''requirements'' | DesignPhase \<Rightarrow> ''design''
     | PlanPhase \<Rightarrow> ''plan'' | ExecutionPhase \<Rightarrow> ''execution'')"

text \<open>The phase of a request is text; only the four recognised texts name a phase.\<close>

definition IsRecognizedInitiativePhase :: "string \<Rightarrow> initiative_phase option" where
  "IsRecognizedInitiativePhase s =
     find (\<lambda>p. phaseText p = s) [RequirementsPhase, DesignPhase, PlanPhase, ExecutionPhase]"

definition TaskLaunchModeManual :: string where "TaskLaunchModeManual = ''manual''"
definition TaskLaunchModeAgentLocal :: string where "TaskLaunchModeAgentLocal = ''agent_local''"
definition TaskLaunchModeAgentRemote :: string where "TaskLaunchModeAgentRemote = ''agent_remote''"

lemmas mode_defs = TaskLaunchModeManual_def TaskLaunchModeAgentLocal_def TaskLaunchModeAgentRemote_def

definition IsRecognizedTaskLaunchMode :: "string \<Rightarrow> bool" where
  "IsRecognizedTaskLaunchMode mode \<longleftrightarrow>
     mode \<in> {TaskLaunchModeManual, TaskLaunchModeAgentLocal, TaskLaunchModeAgentRemote}"

record initiative =
  nID :: string
  nTitle :: string
  nWorkspaceRoot :: string
  nGoal :: string
  nStatus :: initiative_status
  nPhase :: initiative_phase
  nActiveRequirements :: "string option"
  nActiveDesign :: "string option"
  nActivePlan :: "string option"
  nCreatedBy :: string
  nExecutionMode :: string
  nArchivedAt :: "instant option"
  nCreatedAt :: instant
  nUpdatedAt :: instant

record phase_review =
  vID :: string
  vInitiative :: string
  vPhase :: initiative_phase
  vDecision :: review_decision
  vFeedback :: "string option"
  vGeneratedBy :: "string option"
  vMarkdown :: "string option"
  vJSON :: "string option"
  vCreatedAt :: instant

record task_link =
  lID :: string
  lInitiative :: string
  lTask :: string
  lPhaseOrigin :: string
  lEpic :: "string option"
  lGroup :: "string option"
  lMode :: string
  lOrder :: int
  lCreatedAt :: instant

text \<open>
  A row of the table of artifacts, which the initiatives, the objectives and the bridges all insert into. A content
  text that is the rendering of a JSON value stands as that value in \<open>rContent\<close>, any other text in \<open>rText\<close>.
\<close>

record artifact =
  rID :: string
  rTask :: "string option"
  rInvocation :: "string option"
  rType :: string
  rTitle :: "string option"
  rURI :: "string option"
  rMedia :: "string option"
  rContent :: "any_map option"
  rText :: "string option"
  rMeta :: any_map
  rCreatedAt :: instant

record idb =
  iDB :: db
  iInits :: "initiative list"
  iReviews :: "phase_review list"
  iLinks :: "task_link list"
  iArtifacts :: "artifact list"

section \<open>Store operations\<close>

definition CreateInitiative ::
  "string \<Rightarrow> instant \<Rightarrow> string \<Rightarrow> string \<Rightarrow> string \<Rightarrow> string \<Rightarrow> string \<Rightarrow> idb \<Rightarrow> idb" where
  "CreateInitiative initID dbnow title root goal createdBy0 mode0 s =
     (let executionMode = (if mode0 = [] then ''selective'' else mode0);
          createdBy = (if TrimSpace createdBy0 = [] then ''operator'' else TrimSpace createdBy0)
      in s\<lparr>iInits := iInits s @
           [\<lparr>nID = initID, nTitle = title, nWorkspaceRoot = root, nGoal = goal, nStatus = IdeaSubmitted,
             nPhase = RequirementsPhase, nActiveRequirements = None, nActiveDesign = None,
             nActivePlan = None, nCreatedBy = createdBy, nExecutionMode = executionMode,
             nArchivedAt = None, nCreatedAt = dbnow, nUpdatedAt = dbnow\<rparr>]\<rparr>)"

definition GetInitiative :: "idb \<Rightarrow> string \<Rightarrow> initiative option" where
  "GetInitiative s initID = find_row nID initID (iInits s)"

definition initiative_newer :: "initiative \<Rightarrow> initiative \<Rightarrow> bool" where
  "initiative_newer a b \<longleftrightarrow>
     nUpdatedAt b < nUpdatedAt a \<or> (nUpdatedAt a = nUpdatedAt b \<and> str_less (nID a) (nID b))"

definition ListInitiatives :: "idb \<Rightarrow> bool \<Rightarrow> int \<Rightarrow> string \<Rightarrow> initiative list" where
  "ListInitiatives s includeArchived limit0 root =
     (let limit = (if limit0 \<le> 0 then 100 else limit0)
      in take (nat limit)
           (sort_by initiative_newer
             (filter (\<lambda>n. (includeArchived \<or> nArchivedAt n = None) \<and>
                  (TrimSpace root = [] \<or> nWorkspaceRoot n = TrimSpace root)) (iInits s))))"

record initiative_update =
  uStatus :: "initiative_status option"
  uPhase :: "initiative_phase option"
  uRequirements :: "string option"
  uDesign :: "string option"
  uPlan :: "string option"
  uArchivedAt :: "instant option"

definition noUpdate :: initiative_update where
  "noUpdate = \<lparr>uStatus = None, uPhase = None, uRequirements = None, uDesign = None, uPlan = None,
     uArchivedAt = None\<rparr>"

definition coalesce :: "'a option \<Rightarrow> 'a option \<Rightarrow> 'a option" where
  "coalesce a b = (case a of None \<Rightarrow> b | Some x \<Rightarrow> Some x)"

definition update_initiative_row :: "instant \<Rightarrow> initiative_update \<Rightarrow> initiative \<Rightarrow> initiative" where
  "update_initiative_row dbnow u n =
     n\<lparr>nStatus := (case uStatus u of None \<Rightarrow> nStatus n | Some x \<Rightarrow> x),
       nPhase := (case uPhase u of None \<Rightarrow> nPhase n | Some x \<Rightarrow> x),
       nActiveRequirements := coalesce (uRequirements u) (nActiveRequirements n),
       nActiveDesign := coalesce (uDesign u) (nActiveDesign n),
       nActivePlan := coalesce (uPlan u) (nActivePlan n),
       nArchivedAt := uArchivedAt u,
       nUpdatedAt := dbnow\<rparr>"

definition UpdateInitiative :: "instant \<Rightarrow> string \<Rightarrow> initiative_update \<Rightarrow> idb \<Rightarrow> idb" where
  "UpdateInitiative dbnow initID u s =
     s\<lparr>iInits := upd_row nID initID (update_initiative_row dbnow u) (iInits s)\<rparr>"

definition CreateInitiativePhaseReview ::
  "string \<Rightarrow> instant \<Rightarrow> string \<Rightarrow> initiative_phase \<Rightarrow> review_decision \<Rightarrow> string option \<Rightarrow> string option
     \<Rightarrow> string option \<Rightarrow> string option \<Rightarrow> idb \<Rightarrow> idb" where
  "CreateInitiativePhaseReview reviewID dbnow initID phase decision feedback generatedBy md js s =
     s\<lparr>iReviews := iReviews s @
        [\<lparr>vID = reviewID, vInitiative = initID, vPhase = phase, vDecision = decision,
          vFeedback = feedback, vGeneratedBy = generatedBy, vMarkdown = md, vJSON = js,
          vCreatedAt = dbnow\<rparr>]\<rparr>"

definition review_newer :: "phase_review \<Rightarrow> phase_review \<Rightarrow> bool" where
  "review_newer a b \<longleftrightarrow>
     vCreatedAt b < vCreatedAt a \<or> (vCreatedAt a = vCreatedAt b \<and> str_less (vID b) (vID a))"

definition ListInitiativePhaseReviews :: "idb \<Rightarrow> string \<Rightarrow> phase_review list" where
  "ListInitiativePhaseReviews s initID =
     sort_by review_newer (filter (\<lambda>v. vInitiative v = initID) (iReviews s))"

definition GetInitiativePhaseReview :: "idb \<Rightarrow> string \<Rightarrow> phase_review option" where
  "GetInitiativePhaseReview s reviewID = find_row vID reviewID (iReviews s)"

abbreviation link_key :: "task_link \<Rightarrow> string \<times> string" where
  "link_key l \<equiv> (lInitiative l, lTask l)"

definition GetInitiativeTaskLink :: "idb \<Rightarrow> string \<Rightarrow> string \<Rightarrow> (task_link \<times> task) option" where
  "GetInitiativeTaskLink s initID taskID =
     (case find_row link_key (initID, taskID) (iLinks s) of
        None \<Rightarrow> None
      | Some l \<Rightarrow> map_option (\<lambda>t. (l, t)) (GetTask (iDB s) (lTask l)))"

definition LinkInitiativeTask ::
  "string \<Rightarrow> instant \<Rightarrow> string \<Rightarrow> string \<Rightarrow> string \<Rightarrow> string option \<Rightarrow> string option \<Rightarrow> string \<Rightarrow> int \<Rightarrow> idb
     \<Rightarrow> idb \<times> (task_link \<times> task) option" where
  "LinkInitiativeTask rowID dbnow initID taskID origin epic grp mode order s =
     (let s' = (case find_row link_key (initID, taskID) (iLinks s) of
                  None \<Rightarrow> s\<lparr>iLinks := iLinks s @
                    [\<lparr>lID = rowID, lInitiative = initID, lTask = taskID, lPhaseOrigin = origin, lEpic = epic,
                      lGroup = grp, lMode = mode, lOrder = order, lCreatedAt = dbnow\<rparr>]\<rparr>
                | Some _ \<Rightarrow> s\<lparr>iLinks := upd_row link_key (initID, taskID)
                    (\<lambda>l. l\<lparr>lPhaseOrigin := origin, lEpic := epic, lGroup := grp, lMode := mode,
                          lOrder := order\<rparr>) (iLinks s)\<rparr>)
      in (s', GetInitiativeTaskLink s' initID taskID))"

definition UpdateInitiativeTaskMode ::
  "string \<Rightarrow> string \<Rightarrow> string \<Rightarrow> idb \<Rightarrow> idb \<times> (task_link \<times> task) option" where
  "UpdateInitiativeTaskMode initID taskID mode s =
     (let s' = s\<lparr>iLinks := upd_row link_key (initID, taskID) (\<lambda>l. l\<lparr>lMode := mode\<rparr>) (iLinks s)\<rparr>
      in (s', GetInitiativeTaskLink s' initID taskID))"

definition link_before :: "task_link \<times> task \<Rightarrow> task_link \<times> task \<Rightarrow> bool" where
  "link_before a b \<longleftrightarrow>
     lOrder (fst a) < lOrder (fst b) \<or> (lOrder (fst a) = lOrder (fst b) \<and> created_before (snd a) (snd b))"

definition ListInitiativeTasks :: "idb \<Rightarrow> string \<Rightarrow> (task_link \<times> task) list" where
  "ListInitiativeTasks s initID =
     sort_by link_before
       (List.map_filter (\<lambda>l. if lInitiative l = initID
            then map_option (\<lambda>t. (l, t)) (GetTask (iDB s) (lTask l)) else None) (iLinks s))"

section \<open>The derived status\<close>

text \<open>
  \<^verbatim>\<open>strings.EqualFold(v, "true")\<close>: simple Unicode case folding relates to the letters of
  \<^verbatim>\<open>true\<close> only their ASCII upper case forms.
\<close>

definition taskMetadataBool :: "any_map \<Rightarrow> string \<Rightarrow> bool" where
  "taskMetadataBool m key =
     (case m key of
        Some (ABool b) \<Rightarrow> b
      | Some (AStr v) \<Rightarrow> map fold_char (TrimSpace v) = ''true''
      | _ \<Rightarrow> False)"

record flags =
  hasFailed :: bool
  hasRunning :: bool
  hasPendingManual :: bool
  allTerminal :: bool

definition derive_step :: "(task \<Rightarrow> bool) \<Rightarrow> task_link \<times> task \<Rightarrow> flags \<Rightarrow> flags" where
  "derive_step superseded it f =
     (let l = fst it; t = snd it
      in if lMode l = TaskLaunchModeManual \<and> tState t = Created
         then f\<lparr>hasPendingManual := True, allTerminal := False\<rparr>
         else if tState t = Failed then f\<lparr>hasFailed := True, allTerminal := False\<rparr>
         else if tState t = Cancelled
         then (if superseded t then f else f\<lparr>hasFailed := True, allTerminal := False\<rparr>)
         else if tState t = Completed then f
         else f\<lparr>hasRunning := True, allTerminal := False\<rparr>)"

definition derive_status ::
  "(task \<Rightarrow> bool) \<Rightarrow> initiative_status \<Rightarrow> (task_link \<times> task) list \<Rightarrow> initiative_status" where
  "derive_status superseded current items =
     (if items = [] then current
      else
        (let f = fold (derive_step superseded) items
               \<lparr>hasFailed = False, hasRunning = False, hasPendingManual = False, allTerminal = True\<rparr>
         in if hasFailed f then Blocked
            else if hasRunning f then Executing
            else if hasPendingManual f then ExecutionReady
            else if allTerminal f then InitCompleted
            else current))"

definition deriveInitiativeExecutionStatus ::
  "initiative_status \<Rightarrow> (task_link \<times> task) list \<Rightarrow> initiative_status" where
  "deriveInitiativeExecutionStatus current items =
     derive_status (\<lambda>t. taskMetadataBool (tMetadata t) ''superseded_by_repair_cycle'') current items"

definition deriveInitiativeExecutionStatusHTTP ::
  "initiative_status \<Rightarrow> (task_link \<times> task) list \<Rightarrow> initiative_status" where
  "deriveInitiativeExecutionStatusHTTP current items = derive_status (\<lambda>_. False) current items"

definition ReconcileInitiativeExecution :: "instant \<Rightarrow> string \<Rightarrow> idb \<Rightarrow> idb \<times> initiative option" where
  "ReconcileInitiativeExecution dbnow initID s =
     (case GetInitiative s initID of
        None \<Rightarrow> (s, None)
      | Some n \<Rightarrow>
          (case ListInitiativeTasks s initID of
             [] \<Rightarrow> (s, Some n)
           | items \<Rightarrow>
               (let status = deriveInitiativeExecutionStatus (nStatus n) items;
                    s' = UpdateInitiative dbnow initID
                           (noUpdate\<lparr>uStatus := Some status, uPhase := Some ExecutionPhase\<rparr>) s
                in (s', GetInitiative s' initID))))"

section \<open>Contracts\<close>

record execution_policy =
  epRoot :: string
  epScope :: string
  epAllowed :: "string list"
  epApproval :: "string list"

definition ResolveExecutionPolicy :: "string \<Rightarrow> string \<Rightarrow> execution_policy" where
  "ResolveExecutionPolicy orchestratorRoot0 root0 =
     (let orchestratorRoot = path_clean (TrimSpace orchestratorRoot0);
          root = path_clean (TrimSpace root0)
      in if root \<noteq> [] \<and> orchestratorRoot \<noteq> [] \<and>
            (root = orchestratorRoot \<or> HasPrefix root (orchestratorRoot @ ''/''))
         then \<lparr>epRoot = root, epScope = ''orchestrator_remote'',
               epAllowed = [TaskLaunchModeManual, TaskLaunchModeAgentRemote], epApproval = []\<rparr>
         else \<lparr>epRoot = root, epScope = ''local_bridge'',
               epAllowed = [TaskLaunchModeManual, TaskLaunchModeAgentLocal], epApproval = []\<rparr>)"

definition AllowsMode :: "execution_policy \<Rightarrow> string \<Rightarrow> bool" where
  "AllowsMode p mode = list_ex (\<lambda>c. TrimSpace c = TrimSpace mode) (epAllowed p)"

definition ValidateTaskLaunchAgainstPolicy :: "(string \<Rightarrow> string) \<Rightarrow> execution_policy \<Rightarrow> string \<Rightarrow> string option" where
  "ValidateTaskLaunchAgainstPolicy quote p mode0 =
     (let mode = TrimSpace mode0
      in if \<not> AllowsMode p mode
         then Some (''execution mode '' @ quote mode @ '' is not allowed for workspace scope '' @ epScope p)
         else None)"

text \<open>\<^verbatim>\<open>fmt.Sprint\<close> of a value inside a list is the parameter \<open>sprint\<close>.\<close>

definition normalizedStringSlice :: "(any_val \<Rightarrow> string) \<Rightarrow> any_val option \<Rightarrow> string list" where
  "normalizedStringSlice sprint v =
     (case v of
        Some (AStrs xs) \<Rightarrow> filter (\<lambda>x. x \<noteq> []) (map TrimSpace xs)
      | Some (AArr xs) \<Rightarrow> filter (\<lambda>x. x \<noteq> []) (map (\<lambda>x. TrimSpace (sprint x)) xs)
      | _ \<Rightarrow> [])"

definition normalizedMapSlice :: "any_val option \<Rightarrow> any_map list" where
  "normalizedMapSlice v =
     (case v of
        Some (AArr xs) \<Rightarrow> List.map_filter (\<lambda>x. case x of AMap m \<Rightarrow> Some m | _ \<Rightarrow> None) xs
      | _ \<Rightarrow> [])"

definition isEmptyStructuredValue :: "(any_val \<Rightarrow> string) \<Rightarrow> any_val option \<Rightarrow> bool" where
  "isEmptyStructuredValue sprint v =
     (case v of
        None \<Rightarrow> True
      | Some ANil \<Rightarrow> True
      | Some (AStr s) \<Rightarrow> TrimSpace s = []
      | Some (AStrs xs) \<Rightarrow> normalizedStringSlice sprint (Some (AStrs xs)) = []
      | Some (AArr xs) \<Rightarrow> normalizedStringSlice sprint (Some (AArr xs)) = [] \<and> normalizedMapSlice (Some (AArr xs)) = []
      | Some (AMap m) \<Rightarrow> m = Map.empty
      | Some w \<Rightarrow> TrimSpace (sprint w) = [] \<or> TrimSpace (sprint w) = ''<nil>'')"

fun first_error :: "string option list \<Rightarrow> string option" where
  "first_error [] = None"
| "first_error (e # es) = (case e of None \<Rightarrow> first_error es | Some m \<Rightarrow> Some m)"

definition ValidateRequirementsPayload :: "(any_val \<Rightarrow> string) \<Rightarrow> any_map \<Rightarrow> string option" where
  "ValidateRequirementsPayload sprint p =
     first_error
       (map (\<lambda>k. if TrimSpace (asString (p k)) = [] then Some (''requirements payload missing '' @ k) else None)
            [''objective''] @
        map (\<lambda>k. if normalizedStringSlice sprint (p k) = []
                 then Some (''requirements payload missing non-empty '' @ k) else None)
            [''scope'', ''out_of_scope'', ''constraints'', ''risks'', ''acceptance_criteria'',
             ''open_questions'', ''assumptions''])"

definition ValidateDesignPayload :: "(any_val \<Rightarrow> string) \<Rightarrow> any_map \<Rightarrow> string option" where
  "ValidateDesignPayload sprint p =
     first_error
       (map (\<lambda>k. if TrimSpace (asString (p k)) = [] then Some (''design payload missing '' @ k) else None)
            [''architecture''] @
        map (\<lambda>k. if isEmptyStructuredValue sprint (p k)
                 then Some (''design payload missing non-empty '' @ k) else None)
            [''components'', ''interfaces'', ''data_model'', ''testing_strategy'', ''technical_risks'',
             ''pending_decisions''])"

text \<open>\<open>itoa\<close> is the decimal text of an index, \<open>quote\<close> the \<^verbatim>\<open>%q\<close> form of a string.\<close>

definition validate_plan_task ::
  "(int \<Rightarrow> string) \<Rightarrow> (string \<Rightarrow> string) \<Rightarrow> any_map \<Rightarrow> int \<Rightarrow> any_map \<Rightarrow> string option" where
  "validate_plan_task itoa quote epic idx task =
     (let str = (\<lambda>k. asString (task k)); trimmed = (\<lambda>k. TrimSpace (asString (task k)))
      in if trimmed ''title'' = []
         then Some (''execution plan epic '' @ quote (asString (epic ''name'')) @ '' task '' @ itoa idx @ '' missing title'')
         else if trimmed ''description'' = []
         then Some (''execution plan task '' @ quote (str ''title'') @ '' missing description'')
         else if trimmed ''suggested_agent'' \<notin> {AgentTypePlanner, AgentTypeResearcher, AgentTypeCoder, AgentTypeReviewer}
         then Some (''execution plan task '' @ quote (str ''title'') @ '' has invalid suggested_agent '' @
                    quote (trimmed ''suggested_agent''))
         else if \<not> IsRecognizedTaskLaunchMode (trimmed ''execution_mode'')
         then Some (''execution plan task '' @ quote (str ''title'') @ '' has invalid execution_mode '' @
                    quote (trimmed ''execution_mode''))
         else if trimmed ''execution_target'' \<noteq> ExecutionTargetLocal \<and> trimmed ''execution_target'' \<noteq> ExecutionTargetRemote
         then Some (''execution plan task '' @ quote (str ''title'') @ '' has invalid execution_target '' @
                    quote (trimmed ''execution_target''))
         else if trimmed ''definition_of_done'' = []
         then Some (''execution plan task '' @ quote (str ''title'') @ '' missing definition_of_done'')
         else None)"

definition validate_plan_epic ::
  "(int \<Rightarrow> string) \<Rightarrow> (string \<Rightarrow> string) \<Rightarrow> int \<Rightarrow> any_map \<Rightarrow> string option" where
  "validate_plan_epic itoa quote idx epic =
     (if TrimSpace (asString (epic ''name'')) = []
      then Some (''execution plan epic '' @ itoa idx @ '' missing name'')
      else
        (let tasks = normalizedMapSlice (epic ''tasks'')
         in if tasks = []
            then Some (''execution plan epic '' @ quote (asString (epic ''name'')) @ '' has no tasks'')
            else first_error (map (\<lambda>(i, t). validate_plan_task itoa quote epic (int i) t)
                   (zip [0..<length tasks] tasks))))"

definition ValidateExecutionPlanPayload ::
  "(int \<Rightarrow> string) \<Rightarrow> (string \<Rightarrow> string) \<Rightarrow> any_map \<Rightarrow> string option" where
  "ValidateExecutionPlanPayload itoa quote p =
     (let epics = normalizedMapSlice (p ''epics'')
      in if epics = [] then Some ''execution plan missing epics''
         else first_error (map (\<lambda>(i, e). validate_plan_epic itoa quote (int i) e)
                (zip [0..<length epics] epics)))"


section \<open>How the flags are decided\<close>

definition pending_manual :: "task_link \<times> task \<Rightarrow> bool" where
  "pending_manual it \<longleftrightarrow> lMode (fst it) = TaskLaunchModeManual \<and> tState (snd it) = Created"

definition counts_failed :: "(task \<Rightarrow> bool) \<Rightarrow> task_link \<times> task \<Rightarrow> bool" where
  "counts_failed sp it \<longleftrightarrow> tState (snd it) = Failed \<or> (tState (snd it) = Cancelled \<and> \<not> sp (snd it))"

definition counts_running :: "task_link \<times> task \<Rightarrow> bool" where
  "counts_running it \<longleftrightarrow> \<not> pending_manual it \<and> \<not> IsTerminalState (tState (snd it))"

lemma derive_step_flags:
  "hasFailed (derive_step sp it f) \<longleftrightarrow> hasFailed f \<or> counts_failed sp it"
  "hasRunning (derive_step sp it f) \<longleftrightarrow> hasRunning f \<or> counts_running it"
  "hasPendingManual (derive_step sp it f) \<longleftrightarrow> hasPendingManual f \<or> pending_manual it"
  "allTerminal (derive_step sp it f) \<longleftrightarrow>
     allTerminal f \<and> \<not> counts_failed sp it \<and> \<not> counts_running it \<and> \<not> pending_manual it"
  by (cases "tState (snd it)"; simp add: derive_step_def counts_failed_def counts_running_def
      pending_manual_def Let_def)+

lemma derive_fold_flags:
  "hasFailed (fold (derive_step sp) items f) \<longleftrightarrow> hasFailed f \<or> list_ex (counts_failed sp) items"
  "hasRunning (fold (derive_step sp) items f) \<longleftrightarrow> hasRunning f \<or> list_ex counts_running items"
  "hasPendingManual (fold (derive_step sp) items f) \<longleftrightarrow> hasPendingManual f \<or> list_ex pending_manual items"
  "allTerminal (fold (derive_step sp) items f) \<longleftrightarrow>
     allTerminal f \<and> \<not> list_ex (\<lambda>it. counts_failed sp it \<or> counts_running it \<or> pending_manual it) items"
  by (induction items arbitrary: f) (auto simp: derive_step_flags)

lemma derive_status_cases:
  assumes "items \<noteq> []"
  shows "derive_status sp current items =
    (if list_ex (counts_failed sp) items then Blocked
     else if list_ex counts_running items then Executing
     else if list_ex pending_manual items then ExecutionReady
     else InitCompleted)"
  using assms by (auto simp: derive_status_def Let_def derive_fold_flags list_ex_iff)

lemma derive_status_cong:
  assumes "\<And>it. it \<in> set items \<Longrightarrow> tState (snd it) = Cancelled \<Longrightarrow> sp (snd it) = sp' (snd it)"
  shows "derive_status sp current items = derive_status sp' current items"
proof (cases "items = []")
  case False
  have "list_ex (counts_failed sp) items = list_ex (counts_failed sp') items"
    using assms by (auto simp: list_ex_iff counts_failed_def)
  with False show ?thesis by (simp add: derive_status_cases)
qed (simp add: derive_status_def)

lemma first_error_None: "first_error es = None \<longleftrightarrow> list_all (\<lambda>e. e = None) es"
  by (induction es) (auto split: option.splits)

lemma list_all_indexed: "list_all (\<lambda>(i, x). P i x) (zip [0..<length xs] xs) \<Longrightarrow> x \<in> set xs \<Longrightarrow> \<exists>i. P i x"
  by (auto simp: list_all_iff in_set_conv_nth set_zip)

section \<open>Sample data\<close>

definition sample_link :: task_link where
  "sample_link = \<lparr>lID = ''l1'', lInitiative = ''n1'', lTask = ''t1'', lPhaseOrigin = ''plan'', lEpic = None,
     lGroup = None, lMode = ''agent_local'', lOrder = 10, lCreatedAt = 7\<rparr>"

definition sample_initiative :: "initiative_status \<Rightarrow> initiative_phase \<Rightarrow> initiative" where
  "sample_initiative st ph = \<lparr>nID = ''n1'', nTitle = ''t'', nWorkspaceRoot = ''/w'', nGoal = ''g'', nStatus = st,
     nPhase = ph, nActiveRequirements = None, nActiveDesign = None, nActivePlan = None,
     nCreatedBy = ''op'', nExecutionMode = ''selective'', nArchivedAt = Some 5, nCreatedAt = 1, nUpdatedAt = 1\<rparr>"

definition sample_idb :: "initiative_status \<Rightarrow> initiative_phase \<Rightarrow> task_state \<Rightarrow> idb" where
  "sample_idb st ph ts = \<lparr>iDB = sample_db ts, iInits = [sample_initiative st ph], iReviews = [],
     iLinks = [sample_link], iArtifacts = []\<rparr>"

definition superseded_sample :: task where
  "superseded_sample = (sample_task Cancelled)\<lparr>tMetadata := [''superseded_by_repair_cycle'' \<mapsto> ABool True]\<rparr>"

definition sample_plan_task :: any_map where
  "sample_plan_task = [''title'' \<mapsto> AStr ''a'', ''description'' \<mapsto> AStr ''b'', ''suggested_agent'' \<mapsto> AStr ''coder'',
     ''execution_mode'' \<mapsto> AStr ''manual'', ''execution_target'' \<mapsto> AStr ''local'', ''definition_of_done'' \<mapsto> AStr ''c'']"

definition sample_epic :: any_map where
  "sample_epic = [''name'' \<mapsto> AStr ''e'', ''tasks'' \<mapsto> AArr [AMap sample_plan_task]]"

lemmas trim_eval = TrimSpace_def TrimLeftSpace_def TrimRightSpace_def space_seqs_def strip_front.simps

lemma sample_plan_valid:
  "ValidateExecutionPlanPayload itoa quote [''epics'' \<mapsto> AArr [AMap sample_epic]] = None"
  by (simp add: ValidateExecutionPlanPayload_def validate_plan_epic_def validate_plan_task_def
      normalizedMapSlice_def map_filter_simps sample_epic_def sample_plan_task_def asString_def trim_eval
      agent_defs target_defs IsRecognizedTaskLaunchMode_def mode_defs)

section \<open>Properties\<close>

text \<open>
  C6: the status the store derives for an initiative with tasks does not depend on its old status: it is
  \<open>blocked\<close> when a task failed or was cancelled without being superseded, else \<open>executing\<close> when one is
  under way, else \<open>execution_ready\<close> when one waits for a manual start, and \<open>completed\<close> otherwise, in
  which case every task is completed or was cancelled as superseded.
\<close>

theorem derived_status_is_decided_by_the_tasks:
  assumes "items \<noteq> []"
  defines "sp \<equiv> \<lambda>t. taskMetadataBool (tMetadata t) ''superseded_by_repair_cycle''"
  shows "deriveInitiativeExecutionStatus current items =
      (if list_ex (counts_failed sp) items then Blocked
       else if list_ex counts_running items then Executing
       else if list_ex pending_manual items then ExecutionReady else InitCompleted) \<and>
    (deriveInitiativeExecutionStatus current items = InitCompleted \<longleftrightarrow>
       list_all (\<lambda>it. tState (snd it) = Completed \<or> (tState (snd it) = Cancelled \<and> sp (snd it))) items)"
proof
  show eq: "deriveInitiativeExecutionStatus current items =
      (if list_ex (counts_failed sp) items then Blocked
       else if list_ex counts_running items then Executing
       else if list_ex pending_manual items then ExecutionReady else InitCompleted)"
    unfolding deriveInitiativeExecutionStatus_def sp_def using assms(1) by (rule derive_status_cases)
  have "\<not> counts_failed sp it \<and> \<not> counts_running it \<and> \<not> pending_manual it \<longleftrightarrow>
      tState (snd it) = Completed \<or> (tState (snd it) = Cancelled \<and> sp (snd it))" for it
    by (cases "tState (snd it)") (auto simp: counts_failed_def counts_running_def pending_manual_def)
  then show "deriveInitiativeExecutionStatus current items = InitCompleted \<longleftrightarrow>
       list_all (\<lambda>it. tState (snd it) = Completed \<or> (tState (snd it) = Cancelled \<and> sp (snd it))) items"
    unfolding eq by (simp add: list_ex_iff list_all_iff) blast
qed

text \<open>The witness is an initiative whose only task failed.\<close>

theorem derived_status_is_decided_by_the_tasks_witness:
  "deriveInitiativeExecutionStatus Executing [(sample_link, sample_task Failed)] = Blocked"
  using derived_status_is_decided_by_the_tasks [of "[(sample_link, sample_task Failed)]" Executing]
  by (simp add: counts_failed_def)

text \<open>
  The status the HTTP layer shows agrees with the one the store records as long as no task was
  cancelled as superseded by a repair cycle; when every task is completed or superseded and at least
  one is superseded, the store says \<open>completed\<close> and the HTTP layer says \<open>blocked\<close>.
\<close>

theorem http_status_differs_on_superseded_tasks:
  defines "sp \<equiv> \<lambda>t. taskMetadataBool (tMetadata t) ''superseded_by_repair_cycle''"
  defines "gone \<equiv> \<lambda>it. tState (snd it) = Cancelled \<and> sp (snd it)"
  shows "(\<not> list_ex gone items \<longrightarrow>
      deriveInitiativeExecutionStatusHTTP current items = deriveInitiativeExecutionStatus current items) \<and>
    (list_ex gone items \<and> list_all (\<lambda>it. tState (snd it) = Completed \<or> gone it) items \<longrightarrow>
      deriveInitiativeExecutionStatus current items = InitCompleted \<and>
      deriveInitiativeExecutionStatusHTTP current items = Blocked)"
proof (intro conjI impI)
  assume "\<not> list_ex gone items"
  then show "deriveInitiativeExecutionStatusHTTP current items = deriveInitiativeExecutionStatus current items"
    unfolding deriveInitiativeExecutionStatusHTTP_def deriveInitiativeExecutionStatus_def
    by (intro derive_status_cong) (auto simp: gone_def sp_def list_ex_iff)
next
  assume a: "list_ex gone items \<and> list_all (\<lambda>it. tState (snd it) = Completed \<or> gone it) items"
  then have ne: "items \<noteq> []" by auto
  show "deriveInitiativeExecutionStatus current items = InitCompleted"
    unfolding deriveInitiativeExecutionStatus_def derive_status_cases [OF ne] using a
    by (auto simp: list_ex_iff list_all_iff gone_def sp_def counts_failed_def counts_running_def
        pending_manual_def)
  show "deriveInitiativeExecutionStatusHTTP current items = Blocked"
    unfolding deriveInitiativeExecutionStatusHTTP_def derive_status_cases [OF ne] using a
    by (auto simp: list_ex_iff gone_def counts_failed_def)
qed

text \<open>The witness has one superseded task.\<close>

theorem http_status_differs_on_superseded_tasks_witness:
  "deriveInitiativeExecutionStatus Executing [(sample_link, superseded_sample)] = InitCompleted \<and>
   deriveInitiativeExecutionStatusHTTP Executing [(sample_link, superseded_sample)] = Blocked"
  using http_status_differs_on_superseded_tasks [of "[(sample_link, superseded_sample)]" Executing]
  by (simp add: superseded_sample_def taskMetadataBool_def)

text \<open>
  Reconciling an initiative that has tasks moves it to the execution phase with the derived status
  and, since the update writes the archive column from a parameter nobody sets, takes an archived
  initiative out of the archive.
\<close>

theorem reconciliation_unarchives:
  assumes "GetInitiative s i = Some n" and "ListInitiativeTasks s i \<noteq> []"
  shows "\<exists>s' n'. ReconcileInitiativeExecution dbnow i s = (s', Some n') \<and> GetInitiative s' i = Some n' \<and>
    nStatus n' = deriveInitiativeExecutionStatus (nStatus n) (ListInitiativeTasks s i) \<and>
    nPhase n' = ExecutionPhase \<and> nArchivedAt n' = None \<and> iDB s' = iDB s"
proof -
  obtain x xs where l: "ListInitiativeTasks s i = x # xs" using assms(2) by (cases "ListInitiativeTasks s i") auto
  show ?thesis using assms(1)
    by (simp add: ReconcileInitiativeExecution_def l Let_def UpdateInitiative_def GetInitiative_def
        find_row_upd_same update_initiative_row_def noUpdate_def)
qed

text \<open>The witness is an archived initiative with one queued task.\<close>

theorem reconciliation_unarchives_witness:
  "\<exists>s' n'. ReconcileInitiativeExecution 9 ''n1'' (sample_idb Executing ExecutionPhase Queued) = (s', Some n') \<and>
     nArchivedAt (sample_initiative Executing ExecutionPhase) = Some 5 \<and> nArchivedAt n' = None"
proof -
  have "ListInitiativeTasks (sample_idb Executing ExecutionPhase Queued) ''n1'' = [(sample_link, sample_task Queued)]"
    by (simp add: ListInitiativeTasks_def sample_idb_def map_filter_simps sample_link_def)
  moreover have "GetInitiative (sample_idb Executing ExecutionPhase Queued) ''n1'' = Some (sample_initiative Executing ExecutionPhase)"
    by (simp add: GetInitiative_def sample_idb_def sample_initiative_def)
  ultimately show ?thesis
    using reconciliation_unarchives [of "sample_idb Executing ExecutionPhase Queued" "''n1''" _ 9]
    by (fastforce simp: sample_initiative_def)
qed

text \<open>
  The execution policy of a workspace allows the manual mode and exactly one of the two agent modes:
  the remote one when the workspace is the orchestrator's root or lies below it, the local one
  otherwise. No other mode passes.
\<close>

theorem policy_allows_one_agent_mode:
  "AllowsMode (ResolveExecutionPolicy o_root root) TaskLaunchModeManual \<and>
   AllowsMode (ResolveExecutionPolicy o_root root) TaskLaunchModeAgentRemote =
     (path_clean (TrimSpace root) = path_clean (TrimSpace o_root) \<or>
      HasPrefix (path_clean (TrimSpace root)) (path_clean (TrimSpace o_root) @ ''/'')) \<and>
   AllowsMode (ResolveExecutionPolicy o_root root) TaskLaunchModeAgentLocal =
     (\<not> AllowsMode (ResolveExecutionPolicy o_root root) TaskLaunchModeAgentRemote) \<and>
   (AllowsMode (ResolveExecutionPolicy o_root root) mode \<longrightarrow> IsRecognizedTaskLaunchMode (TrimSpace mode))"
proof -
  have trim: "TrimSpace ''manual'' = ''manual''" "TrimSpace ''agent_local'' = ''agent_local''"
    "TrimSpace ''agent_remote'' = ''agent_remote''"
    by (simp_all add: trim_eval)
  have ne: "path_clean p \<noteq> []" for p by (simp add: path_clean_def Let_def)
  show ?thesis
    by (auto simp: ResolveExecutionPolicy_def AllowsMode_def Let_def mode_defs trim ne
        IsRecognizedTaskLaunchMode_def)
qed

text \<open>The witness allows the remote mode below the orchestrator's root.\<close>

theorem policy_allows_one_agent_mode_witness:
  "AllowsMode (ResolveExecutionPolicy ''/w'' ''/w/a'') TaskLaunchModeAgentRemote \<and>
   IsRecognizedTaskLaunchMode (TrimSpace TaskLaunchModeAgentRemote)"
proof -
  have "path_clean (TrimSpace ''/w'') = ''/w''" "path_clean (TrimSpace ''/w/a'') = ''/w/a''"
    by (simp_all add: trim_eval path_clean_def clean_step_def)
  then have "AllowsMode (ResolveExecutionPolicy ''/w'' ''/w/a'') TaskLaunchModeAgentRemote"
    using policy_allows_one_agent_mode [of "''/w''" "''/w/a''"] by (simp add: HasPrefix_def)
  then show ?thesis
    using policy_allows_one_agent_mode [of "''/w''" "''/w/a''" TaskLaunchModeAgentRemote] by blast
qed

text \<open>
  An execution plan that passes validation has at least one epic, every epic has a name and at least
  one task, and every task has a title, a description, one of the four executable agents, a known
  launch mode, a local or remote target and a definition of done.
\<close>

theorem validated_plan_is_complete:
  assumes v: "ValidateExecutionPlanPayload itoa quote p = None"
    and e: "epic \<in> set (normalizedMapSlice (p ''epics''))" and t: "task \<in> set (normalizedMapSlice (epic ''tasks''))"
  shows "normalizedMapSlice (p ''epics'') \<noteq> [] \<and> TrimSpace (asString (epic ''name'')) \<noteq> [] \<and>
    TrimSpace (asString (task ''title'')) \<noteq> [] \<and> TrimSpace (asString (task ''description'')) \<noteq> [] \<and>
    TrimSpace (asString (task ''suggested_agent'')) \<in> {AgentTypePlanner, AgentTypeResearcher, AgentTypeCoder, AgentTypeReviewer} \<and>
    IsRecognizedTaskLaunchMode (TrimSpace (asString (task ''execution_mode''))) \<and>
    TrimSpace (asString (task ''execution_target'')) \<in> {ExecutionTargetLocal, ExecutionTargetRemote} \<and>
    TrimSpace (asString (task ''definition_of_done'')) \<noteq> []"
proof -
  obtain i where ep: "validate_plan_epic itoa quote (int i) epic = None"
    using v e list_all_indexed [where P = "\<lambda>i e. validate_plan_epic itoa quote (int i) e = None"]
    by (force simp: ValidateExecutionPlanPayload_def Let_def first_error_None list.pred_map comp_def
        case_prod_unfold split: if_splits)
  then have n: "TrimSpace (asString (epic ''name'')) \<noteq> []"
    by (auto simp: validate_plan_epic_def split: if_splits)
  obtain j where "validate_plan_task itoa quote epic (int j) task = None"
    using ep n t list_all_indexed [where P = "\<lambda>i t. validate_plan_task itoa quote epic (int i) t = None"]
    by (force simp: validate_plan_epic_def Let_def first_error_None list.pred_map comp_def
        case_prod_unfold split: if_splits)
  then show ?thesis using n e by (auto simp: validate_plan_task_def Let_def split: if_splits)
qed

text \<open>The witness is a plan with one task.\<close>

theorem validated_plan_is_complete_witness:
  "ValidateExecutionPlanPayload (\<lambda>_. []) (\<lambda>x. x) [''epics'' \<mapsto> AArr [AMap sample_epic]] = None \<and>
   TrimSpace (asString (sample_plan_task ''suggested_agent'')) \<in>
     {AgentTypePlanner, AgentTypeResearcher, AgentTypeCoder, AgentTypeReviewer}"
  using validated_plan_is_complete [OF sample_plan_valid [of "\<lambda>_. []" "\<lambda>x. x"], of sample_epic sample_plan_task]
    sample_plan_valid [of "\<lambda>_. []" "\<lambda>x. x"]
  by (simp add: normalizedMapSlice_def map_filter_simps sample_epic_def)

end
