(* ===== verification/Task_Queue.thy ===== *)
theory Task_Queue
  imports Complex_Main Task_Domain
begin

text \<open>
  The Redis side of the orchestrator (\<^verbatim>\<open>src/internal/orchestratorgo/store/redis.go\<close>): one sorted set
  per agent type holds the queued task identifiers, a hash per worker holds its registration, and a
  heartbeat key with an expiry time says that the worker is alive.

  A sorted set is a list of (member, score) pairs with distinct members. Scores are
  \<^verbatim>\<open>float64\<close> values: a score is a real number computed with the rounding function \<open>fl\<close>, a
  parameter of which the properties use only that it is monotone and keeps every value of at most 53
  significant bits, as IEEE 754 double rounding does. The contract of a minimum-first queue is the
  locale \<open>min_queue\<close>, interpreted on the sorted set.
\<close>

section \<open>Sorted sets\<close>

type_synonym zset = "(string \<times> real) list"

definition zless :: "string \<times> real \<Rightarrow> string \<times> real \<Rightarrow> bool" where
  "zless a b \<longleftrightarrow> snd a < snd b \<or> (snd a = snd b \<and> str_less (fst a) (fst b))"

definition ZAdd :: "string \<Rightarrow> real \<Rightarrow> zset \<Rightarrow> zset" where
  "ZAdd m s z = filter (\<lambda>x. fst x \<noteq> m) z @ [(m, s)]"

definition ZPopMin :: "zset \<Rightarrow> ((string \<times> real) \<times> zset) option" where
  "ZPopMin z = (case sort_by zless z of [] \<Rightarrow> None | x # _ \<Rightarrow> Some (x, filter (\<lambda>y. fst y \<noteq> fst x) z))"

definition ZCard :: "zset \<Rightarrow> int" where
  "ZCard z = int (length z)"

lemma zless_asym: "zless a b \<Longrightarrow> \<not> zless b a"
  by (auto simp: zless_def dest: str_less_trans)

lemma zless_neg_trans: "\<not> zless b a \<Longrightarrow> \<not> zless c b \<Longrightarrow> \<not> zless c a"
  using str_less_total [of "fst a" "fst b"] str_less_total [of "fst b" "fst c"]
  by (auto simp: zless_def dest: str_less_trans)

section \<open>The contract of a minimum-first queue\<close>

locale min_queue =
  fixes wf :: "'q \<Rightarrow> bool"
    and items :: "'q \<Rightarrow> (string \<times> real) set"
    and push :: "string \<Rightarrow> real \<Rightarrow> 'q \<Rightarrow> 'q"
    and pop :: "'q \<Rightarrow> ((string \<times> real) \<times> 'q) option"
  assumes finite_items: "finite (items q)"
    and push_wf: "wf q \<Longrightarrow> wf (push m s q)"
    and push_items: "wf q \<Longrightarrow> items (push m s q) = insert (m, s) {x \<in> items q. fst x \<noteq> m}"
    and pop_None: "wf q \<Longrightarrow> pop q = None \<longleftrightarrow> items q = {}"
    and pop_Some: "wf q \<Longrightarrow> pop q = Some (x, q') \<Longrightarrow>
      wf q' \<and> x \<in> items q \<and> items q' = items q - {x} \<and> (\<forall>y \<in> items q. \<not> zless y x)"
begin

text \<open>Popping \<open>n\<close> times, and what a client that drains the queue sees.\<close>

fun drain :: "nat \<Rightarrow> 'q \<Rightarrow> (string \<times> real) list" where
  "drain 0 q = []"
| "drain (Suc n) q = (case pop q of None \<Rightarrow> [] | Some (x, q') \<Rightarrow> x # drain n q')"

lemma drain_subset: "wf q \<Longrightarrow> set (drain n q) \<subseteq> items q"
proof (induction n arbitrary: q)
  case (Suc n)
  show ?case
  proof (cases "pop q")
    case (Some xq)
    obtain x q' where xq: "xq = (x, q')" by (cases xq)
    note p = pop_Some [OF Suc.prems Some [unfolded xq]]
    with Suc.IH [of q'] Some xq show ?thesis by auto
  qed simp
qed simp

lemma drain_sorted: "wf q \<Longrightarrow> sorted_wrt (\<lambda>a b. \<not> zless b a) (drain n q)"
proof (induction n arbitrary: q)
  case (Suc n)
  show ?case
  proof (cases "pop q")
    case (Some xq)
    obtain x q' where xq: "xq = (x, q')" by (cases xq)
    note p = pop_Some [OF Suc.prems Some [unfolded xq]]
    have "set (drain n q') \<subseteq> items q" using p drain_subset by blast
    with Some xq p Suc.IH show ?thesis by auto
  qed simp
qed simp

lemma drain_all: "wf q \<Longrightarrow> card (items q) \<le> n \<Longrightarrow> set (drain n q) = items q"
proof (induction n arbitrary: q)
  case 0
  then show ?case using finite_items by simp
next
  case (Suc n)
  show ?case
  proof (cases "pop q")
    case None
    then show ?thesis using Suc.prems pop_None [of q] by simp
  next
    case (Some xq)
    obtain x q' where xq: "xq = (x, q')" by (cases xq)
    note p = pop_Some [OF Suc.prems(1) Some [unfolded xq]]
    have "card (items q') \<le> n" using p Suc.prems(2) finite_items [of q] by (simp add: card_Diff_singleton)
    then have "set (drain n q') = items q'" using p Suc.IH by blast
    with Some xq p show ?thesis by auto
  qed
qed

end

lemma ZPopMin_Some:
  assumes "keyed fst z" and "ZPopMin z = Some (x, z')"
  shows "keyed fst z' \<and> x \<in> set z \<and> set z' = set z - {x} \<and> (\<forall>y \<in> set z. \<not> zless y x)"
proof -
  obtain xs where s: "sort_by zless z = x # xs" and z': "z' = filter (\<lambda>y. fst y \<noteq> fst x) z"
    using assms(2) by (auto simp: ZPopMin_def split: list.splits)
  have x: "x \<in> set z" using s set_sort_by [of zless z] by auto
  have "sorted_wrt (\<lambda>a b. \<not> zless b a) (x # xs)"
    unfolding s [symmetric] by (rule sorted_sort_by) (use zless_neg_trans zless_asym in blast)+
  moreover have "set z = insert x (set xs)" using s set_sort_by [of zless z] by simp
  moreover have "\<not> zless x x" using zless_asym by blast
  ultimately have "\<forall>y \<in> set z. \<not> zless y x" by auto
  moreover have "set z' = set z - {x}"
    using assms(1) x by (auto simp: z' distinct_map inj_on_def)
  ultimately show ?thesis using assms(1) x by (simp add: z' distinct_map_filter)
qed

interpretation zq: min_queue "\<lambda>z. keyed fst z" set ZAdd ZPopMin
proof
  show "keyed fst z \<Longrightarrow> keyed fst (ZAdd m s z)" for z m s
    by (auto simp: ZAdd_def distinct_map_filter)
  show "keyed fst z \<Longrightarrow> ZPopMin z = None \<longleftrightarrow> set z = {}" for z
    by (cases "sort_by zless z") (use set_sort_by [of zless z] in \<open>auto simp: ZPopMin_def\<close>)
  show "keyed fst z \<Longrightarrow> ZPopMin z = Some (x, z') \<Longrightarrow>
      keyed fst z' \<and> x \<in> set z \<and> set z' = set z - {x} \<and> (\<forall>y \<in> set z. \<not> zless y x)" for z x z'
    by (rule ZPopMin_Some)
qed (auto simp: ZAdd_def)

section \<open>The store\<close>

record redis =
  rdQueues :: "string \<Rightarrow> zset"
  rdWorkers :: "string \<Rightarrow> (string \<rightharpoonup> string) option"
  rdHeartbeats :: "string \<Rightarrow> instant option"

definition priorityWeights :: "string \<Rightarrow> int" where
  "priorityWeights p =
     (if p = PriorityCritical then 0 else if p = PriorityHigh then 1
      else if p = PriorityNormal then 2 else if p = PriorityLow then 3 else 0)"

definition queueKey :: "string \<Rightarrow> string" where
  "queueKey agentType = ''queue:agent:'' @ agentType"

definition score :: "(real \<Rightarrow> real) \<Rightarrow> string \<Rightarrow> int \<Rightarrow> real" where
  "score fl priority unixNano =
     fl (fl (real_of_int (priorityWeights priority) * 10 ^ 12) + fl (fl (real_of_int unixNano) / 10 ^ 9))"

definition EnqueueTask :: "(real \<Rightarrow> real) \<Rightarrow> int \<Rightarrow> string \<Rightarrow> string \<Rightarrow> string \<Rightarrow> redis \<Rightarrow> redis" where
  "EnqueueTask fl unixNano taskID agentType priority r =
     r\<lparr>rdQueues := (rdQueues r)(queueKey agentType :=
         ZAdd taskID (score fl priority unixNano) (rdQueues r (queueKey agentType)))\<rparr>"

definition DequeueTask :: "string \<Rightarrow> redis \<Rightarrow> redis \<times> string option" where
  "DequeueTask agentType r =
     (case ZPopMin (rdQueues r (queueKey agentType)) of
        None \<Rightarrow> (r, None)
      | Some (x, z) \<Rightarrow> (r\<lparr>rdQueues := (rdQueues r)(queueKey agentType := z)\<rparr>, Some (fst x)))"

definition QueueDepth :: "string \<Rightarrow> redis \<Rightarrow> int" where
  "QueueDepth agentType r = ZCard (rdQueues r (queueKey agentType))"

definition TotalQueueDepth :: "redis \<Rightarrow> int" where
  "TotalQueueDepth r =
     sum_list (map (\<lambda>a. QueueDepth a r)
       [AgentTypePlanner, AgentTypeCoder, AgentTypeReviewer, AgentTypeInfra, AgentTypeResearcher])"

definition HSet :: "string \<Rightarrow> (string \<times> string) list \<Rightarrow> redis \<Rightarrow> redis" where
  "HSet key kvs r =
     r\<lparr>rdWorkers := (rdWorkers r)(key :=
         Some ((case rdWorkers r key of None \<Rightarrow> Map.empty | Some h \<Rightarrow> h) ++ map_of kvs))\<rparr>"

definition workerKey :: "string \<Rightarrow> string" where
  "workerKey workerID = ''worker:'' @ workerID"

definition RegisterWorker :: "(instant \<Rightarrow> string) \<Rightarrow> instant \<Rightarrow> string \<Rightarrow> string \<Rightarrow> redis \<Rightarrow> redis" where
  "RegisterWorker rfc now workerID agentTypes r =
     HSet (workerKey workerID)
       [(''agent_types'', agentTypes), (''status'', ''active''), (''current_task'', []),
        (''registered_at'', rfc now), (''last_heartbeat'', rfc now)] r"

definition currentTaskValue :: "string option \<Rightarrow> string" where
  "currentTaskValue t = (case t of None \<Rightarrow> [] | Some i \<Rightarrow> i)"

definition UpdateWorkerCurrentTask :: "string \<Rightarrow> string option \<Rightarrow> redis \<Rightarrow> redis" where
  "UpdateWorkerCurrentTask workerID taskID r =
     HSet (workerKey workerID) [(''current_task'', currentTaskValue taskID)] r"

definition heartbeat_ttl :: "int \<Rightarrow> int" where
  "heartbeat_ttl intervalSeconds =
     (if 0 \<le> 7 * intervalSeconds + 1 then (7 * intervalSeconds + 1) div 2
      else - ((- (7 * intervalSeconds + 1)) div 2))"

definition EmitWorkerHeartbeat ::
  "(instant \<Rightarrow> string) \<Rightarrow> instant \<Rightarrow> string \<Rightarrow> int \<Rightarrow> string option \<Rightarrow> redis \<Rightarrow> redis" where
  "EmitWorkerHeartbeat rfc now workerID intervalSeconds currentTask r =
     HSet (workerKey workerID)
       [(''last_heartbeat'', rfc now), (''current_task'', currentTaskValue currentTask)]
       (r\<lparr>rdHeartbeats := (rdHeartbeats r)(workerID \<mapsto> now + heartbeat_ttl intervalSeconds * second)\<rparr>)"

definition DeregisterWorker :: "string \<Rightarrow> redis \<Rightarrow> redis" where
  "DeregisterWorker workerID r =
     (HSet (workerKey workerID) [(''status'', ''stopped'')] r)
       \<lparr>rdHeartbeats := (rdHeartbeats r)(workerID := None)\<rparr>"

definition heartbeat_live :: "instant \<Rightarrow> string \<Rightarrow> redis \<Rightarrow> bool" where
  "heartbeat_live now workerID r =
     (case rdHeartbeats r workerID of None \<Rightarrow> False | Some e \<Rightarrow> now < e)"

text \<open>The status column of \<^verbatim>\<open>ListWorkers\<close> for one registered worker.\<close>

definition listed_status :: "instant \<Rightarrow> string \<Rightarrow> redis \<Rightarrow> string option" where
  "listed_status now workerID r =
     (case rdWorkers r (workerKey workerID) of
        None \<Rightarrow> None
      | Some h \<Rightarrow>
          (let status = (case h ''status'' of None \<Rightarrow> [] | Some s \<Rightarrow> s)
           in Some (if \<not> heartbeat_live now workerID r \<and> status = ''active'' then ''dead'' else status)))"

section \<open>Order of service\<close>

definition float_round :: "(real \<Rightarrow> real) \<Rightarrow> bool" where
  "float_round fl \<longleftrightarrow> mono fl \<and>
     (\<forall>m e. \<bar>m\<bar> \<le> 2 ^ 53 \<longrightarrow> fl (real_of_int m * 2 ^ e) = real_of_int m * 2 ^ e)"

lemma float_round_int: "float_round fl \<Longrightarrow> \<bar>m\<bar> \<le> 2 ^ 53 \<Longrightarrow> fl (real_of_int m) = real_of_int m"
  unfolding float_round_def by (metis mult.right_neutral power_0)

lemma float_round_mono: "float_round fl \<Longrightarrow> x \<le> y \<Longrightarrow> fl x \<le> fl y"
  by (auto simp: float_round_def mono_def)

lemma float_round_id: "float_round (\<lambda>x. x)"
  by (simp add: float_round_def mono_def)

definition seconds_part :: "(real \<Rightarrow> real) \<Rightarrow> int \<Rightarrow> real" where
  "seconds_part fl n = fl (fl (real_of_int n) / 10 ^ 9)"

lemma seconds_part_bounds:
  assumes fl: "float_round fl" and n: "0 \<le> n" "n < 2 ^ 63"
  shows "0 \<le> seconds_part fl n \<and> seconds_part fl n \<le> 10 ^ 10"
proof -
  have "real_of_int n < real_of_int (2 ^ 63)" using n by (simp only: of_int_less_iff)
  then have "real_of_int n \<le> real_of_int 1 * 2 ^ 63" by simp
  then have "fl (real_of_int n) \<le> fl (real_of_int 1 * 2 ^ 63)" by (rule float_round_mono [OF fl])
  also have "\<dots> = real_of_int 1 * 2 ^ 63" using fl unfolding float_round_def by (metis abs_one one_le_power one_le_numeral)
  finally have "fl (real_of_int n) \<le> 2 ^ 63" by simp
  then have up: "fl (real_of_int n) / 10 ^ 9 \<le> real_of_int (10 ^ 10)" by (simp add: divide_le_eq)
  have zero: "fl 0 = 0" using float_round_int [OF fl, of 0] by simp
  have lo: "0 \<le> fl (real_of_int n)" using float_round_mono [OF fl, of 0 "real_of_int n"] n zero by simp
  have "seconds_part fl n \<le> fl (real_of_int (10 ^ 10))"
    unfolding seconds_part_def using fl up by (rule float_round_mono)
  also have "\<dots> = 10 ^ 10" using float_round_int [OF fl, of "10 ^ 10"] by simp
  finally have "seconds_part fl n \<le> 10 ^ 10" .
  moreover have "0 \<le> seconds_part fl n"
    unfolding seconds_part_def using float_round_mono [OF fl, of 0 "fl (real_of_int n) / 10 ^ 9"] lo zero by simp
  ultimately show ?thesis by simp
qed

lemma priorityWeights_range: "0 \<le> priorityWeights p \<and> priorityWeights p \<le> 3"
  by (simp add: priorityWeights_def)

lemma score_unfold:
  assumes "float_round fl"
  shows "score fl p n = fl (real_of_int (priorityWeights p * 10 ^ 12) + seconds_part fl n)"
  using float_round_int [OF assms, of "priorityWeights p * 10 ^ 12"] priorityWeights_range [of p]
  by (simp add: score_def seconds_part_def)

lemma score_priority:
  assumes fl: "float_round fl" and w: "priorityWeights p < priorityWeights q"
    and n: "0 \<le> n" "n < 2 ^ 63" and m: "0 \<le> m" "m < 2 ^ 63"
  shows "score fl p n < score fl q m"
proof -
  let ?w = "priorityWeights p" and ?v = "priorityWeights q"
  have "score fl p n \<le> fl (real_of_int (?w * 10 ^ 12 + 10 ^ 10))"
    unfolding score_unfold [OF fl] using seconds_part_bounds [OF fl n] by (intro float_round_mono [OF fl]) simp
  also have "\<dots> = real_of_int (?w * 10 ^ 12 + 10 ^ 10)"
    by (rule float_round_int [OF fl]) (use priorityWeights_range [of p] in auto)
  also have "\<dots> < real_of_int (?v * 10 ^ 12)" unfolding of_int_less_iff using w by simp
  also have "\<dots> = fl (real_of_int (?v * 10 ^ 12))"
    by (rule float_round_int [OF fl, symmetric]) (use priorityWeights_range [of q] in auto)
  also have "\<dots> \<le> score fl q m"
    unfolding score_unfold [OF fl] using seconds_part_bounds [OF fl m] by (intro float_round_mono [OF fl]) simp
  finally show ?thesis .
qed

lemma score_fifo:
  assumes fl: "float_round fl" and "priorityWeights p = priorityWeights q" and "n \<le> m"
  shows "score fl p n \<le> score fl q m"
proof -
  have "seconds_part fl n \<le> seconds_part fl m"
    unfolding seconds_part_def using assms
    by (intro float_round_mono [OF fl] divide_right_mono) simp_all
  then show ?thesis unfolding score_unfold [OF fl] using assms by (intro float_round_mono [OF fl]) simp
qed


text \<open>
  A queue built by enqueueing a list of requests. A request is the task, its priority and the clock
  reading of the call.
\<close>

type_synonym request = "string \<times> string \<times> int"

definition enqueue_all :: "(real \<Rightarrow> real) \<Rightarrow> string \<Rightarrow> request list \<Rightarrow> redis \<Rightarrow> redis" where
  "enqueue_all fl agent reqs r = fold (\<lambda>(i, p, n) q. EnqueueTask fl n i agent p q) reqs r"

fun dequeue_all :: "nat \<Rightarrow> string \<Rightarrow> redis \<Rightarrow> string list" where
  "dequeue_all 0 agent r = []"
| "dequeue_all (Suc k) agent r =
     (case DequeueTask agent r of (r', None) \<Rightarrow> [] | (r', Some i) \<Rightarrow> i # dequeue_all k agent r')"

definition emptyRedis :: redis where
  "emptyRedis = \<lparr>rdQueues = (\<lambda>_. []), rdWorkers = (\<lambda>_. None), rdHeartbeats = (\<lambda>_. None)\<rparr>"

definition entry :: "(real \<Rightarrow> real) \<Rightarrow> request \<Rightarrow> string \<times> real" where
  "entry fl q = (fst q, score fl (fst (snd q)) (snd (snd q)))"

lemma enqueue_all_queue:
  assumes "distinct (map fst reqs)"
  shows "keyed fst (rdQueues (enqueue_all fl agent reqs emptyRedis) (queueKey agent)) \<and>
    set (rdQueues (enqueue_all fl agent reqs emptyRedis) (queueKey agent)) = set (map (entry fl) reqs)"
  using assms
proof (induction reqs rule: rev_induct)
  case Nil
  then show ?case by (simp add: enqueue_all_def emptyRedis_def)
next
  case (snoc q reqs)
  obtain i p n where q: "q = (i, p, n)" by (cases q)
  let ?z = "rdQueues (enqueue_all fl agent reqs emptyRedis) (queueKey agent)"
  have z: "rdQueues (enqueue_all fl agent (reqs @ [q]) emptyRedis) (queueKey agent) = ZAdd i (score fl p n) ?z"
    by (simp add: enqueue_all_def EnqueueTask_def q)
  have ih: "keyed fst ?z" "set ?z = set (map (entry fl) reqs)" using snoc by simp_all
  have "{x \<in> set ?z. fst x \<noteq> i} = set ?z"
    using snoc.prems ih(2) q by (auto simp: entry_def image_iff)
  then show ?case unfolding z using zq.push_wf [OF ih(1)] zq.push_items [OF ih(1)] ih(2)
    by (simp add: q entry_def)
qed

lemma dequeue_all_drain:
  "dequeue_all k agent r = map fst (zq.drain k (rdQueues r (queueKey agent)))"
  by (induction k arbitrary: r) (auto simp: DequeueTask_def split: option.splits)

lemma worse_request_later:
  assumes fl: "float_round fl" and ab: "\<not> zless (entry fl b) (entry fl a)"
    and na: "0 \<le> snd (snd a)" "snd (snd a) < 2 ^ 63" and nb: "0 \<le> snd (snd b)" "snd (snd b) < 2 ^ 63"
  shows "priorityWeights (fst (snd a)) \<le> priorityWeights (fst (snd b))"
proof (rule ccontr)
  assume "\<not> ?thesis"
  then have "score fl (fst (snd b)) (snd (snd b)) < score fl (fst (snd a)) (snd (snd a))"
    using score_priority [OF fl _ nb na] by simp
  with ab show False by (simp add: zless_def entry_def)
qed

section \<open>Properties\<close>

text \<open>
  C5: tasks that were put into an agent's queue come out of it in the order of their priorities:
  critical before high before normal before low, whatever the times at which they were enqueued, and
  every one of them comes out.
\<close>

theorem queue_serves_by_priority:
  assumes fl: "float_round fl" and d: "distinct (map fst reqs)"
    and t: "list_all (\<lambda>q. 0 \<le> snd (snd q) \<and> snd (snd q) < 2 ^ 63) reqs"
  shows "\<exists>out. dequeue_all (length reqs) agent (enqueue_all fl agent reqs emptyRedis) = map fst out \<and>
    set out = set reqs \<and>
    sorted_wrt (\<lambda>a b. priorityWeights (fst (snd a)) \<le> priorityWeights (fst (snd b))) out"
proof -
  let ?z = "rdQueues (enqueue_all fl agent reqs emptyRedis) (queueKey agent)"
  let ?es = "zq.drain (length reqs) ?z"
  note z = enqueue_all_queue [OF d, of fl agent]
  have inj: "inj_on (entry fl) (set reqs)" using d by (auto simp: inj_on_def entry_def distinct_map)
  have "card (set ?z) \<le> length reqs" using z card_length [of "map (entry fl) reqs"] by simp
  then have es: "set ?es = entry fl ` set reqs" using zq.drain_all z by simp
  define out where "out = map (the_inv_into (set reqs) (entry fl)) ?es"
  have back_entry: "the_inv_into (set reqs) (entry fl) (entry fl q) = q" if "q \<in> set reqs" for q
    using inj that by (rule the_inv_into_f_f)
  have entries: "map (entry fl) out = ?es"
    unfolding out_def map_map by (rule map_idI) (use es back_entry in auto)
  have so: "set out = set reqs" unfolding out_def using es back_entry by force
  have "sorted_wrt (\<lambda>a b. \<not> zless (entry fl b) (entry fl a)) out"
    using zq.drain_sorted [of ?z "length reqs"] z unfolding entries [symmetric] sorted_wrt_map by blast
  then have "sorted_wrt (\<lambda>a b. priorityWeights (fst (snd a)) \<le> priorityWeights (fst (snd b))) out"
    by (rule sorted_wrt_mono_rel [rotated])
      (use t so in \<open>simp add: list_all_iff worse_request_later [OF fl]\<close>)
  moreover have "map fst out = map fst ?es" unfolding entries [symmetric] by (simp add: entry_def)
  ultimately show ?thesis using so dequeue_all_drain by metis
qed

text \<open>The witness enqueues a low task before a critical one.\<close>

theorem queue_serves_by_priority_witness:
  "\<exists>out. dequeue_all 2 ''coder'' (enqueue_all (\<lambda>x. x) ''coder''
       [(''a'', ''low'', 5), (''b'', ''critical'', 9)] emptyRedis) = map fst out \<and>
     set out = {(''a'', ''low'', 5 :: int), (''b'', ''critical'', 9)} \<and>
     sorted_wrt (\<lambda>a b. priorityWeights (fst (snd a)) \<le> priorityWeights (fst (snd b))) out"
  using queue_serves_by_priority [OF float_round_id, of "[(''a'', ''low'', 5), (''b'', ''critical'', 9)]" "''coder''"]
  by (simp add: numeral_2_eq_2)

text \<open>
  Within one priority a task enqueued earlier never has the larger score, but a priority the table
  does not know has the weight of \<open>critical\<close>, so such a task is served before high, normal and low ones.
\<close>

theorem unknown_priority_is_critical:
  assumes fl: "float_round fl" and p: "p \<notin> {PriorityCritical, PriorityHigh, PriorityNormal, PriorityLow}"
    and n: "0 \<le> n" "n \<le> m" "m < 2 ^ 63"
  shows "score fl p m < score fl PriorityHigh n \<and> score fl p n \<le> score fl PriorityCritical m \<and>
    score fl q n \<le> score fl q m"
proof -
  have w: "priorityWeights p = 0" "priorityWeights PriorityCritical = 0" using p by (simp_all add: priorityWeights_def)
  moreover have "priorityWeights PriorityHigh = 1"
    by (simp add: priorityWeights_def PriorityHigh_def PriorityCritical_def)
  ultimately show ?thesis
    using score_priority [OF fl, of p PriorityHigh m n] score_fifo [OF fl, of p PriorityCritical n m]
      score_fifo [OF fl, of q q n m] n by simp
qed

text \<open>The witness is a misspelt priority.\<close>

theorem unknown_priority_is_critical_witness:
  "score (\<lambda>x. x) ''urgent'' 9 < score (\<lambda>x. x) PriorityHigh 5"
  using unknown_priority_is_critical [OF float_round_id, of "''urgent''" 5 9 "''low''"]
  by (simp add: PriorityCritical_def PriorityHigh_def PriorityNormal_def PriorityLow_def)

text \<open>
  A registered worker is listed as active from a heartbeat until the heartbeat's time to live, three
  and a half intervals, has passed, then as dead, and as stopped once it has deregistered.
\<close>

theorem worker_status_follows_heartbeats:
  assumes "0 < k"
  shows "let r1 = EmitWorkerHeartbeat rfc now w k task (RegisterWorker rfc now0 w types r);
             r2 = DeregisterWorker w r1
         in (now' < now + ((7 * k + 1) div 2) * second \<longrightarrow> listed_status now' w r1 = Some ''active'') \<and>
            (now + ((7 * k + 1) div 2) * second \<le> now' \<longrightarrow> listed_status now' w r1 = Some ''dead'') \<and>
            listed_status now' w r2 = Some ''stopped''"
  using assms
  by (auto simp: Let_def EmitWorkerHeartbeat_def RegisterWorker_def DeregisterWorker_def HSet_def
      listed_status_def heartbeat_live_def heartbeat_ttl_def map_add_def)

text \<open>The witness is a worker with a ten second interval, 36 seconds after its last heartbeat.\<close>

theorem worker_status_follows_heartbeats_witness:
  "listed_status (36 * second) ''w'' (EmitWorkerHeartbeat (\<lambda>_. []) 0 ''w'' 10 None
     (RegisterWorker (\<lambda>_. []) 0 ''w'' ''coder'' emptyRedis)) = Some ''dead''"
  using worker_status_follows_heartbeats [of 10 "\<lambda>_. []" 0 "''w''" None 0 "''coder''" emptyRedis "36 * second"]
  by (simp add: Let_def second_def)

end
