(* ===== verification/Initiative_Flow.thy ===== *)
theory Initiative_Flow
  imports Initiative_Store Task_Queue "HOL-Library.List_Lexorder" "HOL-Library.Char_ord"
begin

text \<open>
  The HTTP handlers that drive an initiative through its phases
  (\<^verbatim>\<open>src/internal/orchestratorgo/httpapi/initiatives.go\<close>): generation of a phase, review of a phase,
  generation of the plan and its backlog, and launch of tasks. A handler is a function on the state
  \<open>flow\<close>: the tables, the Redis queues and a counter from which fresh identifiers and clock readings
  are drawn. It returns the new state and the response, also when it fails half way: what was
  written before the failure stays.

  The planning service (an LLM behind \<^verbatim>\<open>initiative/service.go\<close>) is a parameter: it may return
  any markdown and payload, or an error.
\<close>

section \<open>State and environment\<close>

record flow =
  wS :: idb
  wQ :: redis
  wN :: nat

record flow_env =
  eUid :: "nat \<Rightarrow> string"
  eClk :: "nat \<Rightarrow> instant"
  eNano :: "instant \<Rightarrow> int"
  eFl :: "real \<Rightarrow> real"
  eRoot :: string
  eRedisUp :: bool
  eSprint :: "any_val \<Rightarrow> string"
  eQuote :: "string \<Rightarrow> string"
  eItoa :: "int \<Rightarrow> string"
  eReq :: "initiative \<Rightarrow> string \<Rightarrow> (string \<times> any_map) result"
  eDesign :: "initiative \<Rightarrow> any_map \<Rightarrow> string \<Rightarrow> (string \<times> any_map) result"
  ePlan :: "initiative \<Rightarrow> any_map \<Rightarrow> string \<Rightarrow> (string \<times> any_map) result"

datatype resp = RDetail int string | RInitiative "initiative option" | RTasks "task list" | RLink "(task_link \<times> task) option"

definition statusCode :: "resp \<Rightarrow> int" where
  "statusCode r = (case r of RDetail c _ \<Rightarrow> c | _ \<Rightarrow> 200)"

section \<open>Payloads and artifacts\<close>

text \<open>What a value becomes when it is marshalled to JSON and read back.\<close>

primrec json_rt :: "any_val \<Rightarrow> any_val" where
  "json_rt ANil = ANil"
| "json_rt (ABool b) = ABool b"
| "json_rt (AInt i) = AInt i"
| "json_rt (AStr s) = AStr s"
| "json_rt (ATime t) = ATime t"
| "json_rt (AStrs xs) = AArr (map AStr xs)"
| "json_rt (AArr xs) = AArr (map json_rt xs)"
| "json_rt (AMap m) = AMap (\<lambda>k. map_option json_rt (m k))"

definition json_map :: "any_map \<Rightarrow> any_map" where
  "json_map m = (\<lambda>k. map_option json_rt (m k))"

definition SummarizeStructuredDiff :: "any_map \<Rightarrow> any_map \<Rightarrow> string" where
  "SummarizeStructuredDiff previous nxt =
     (if previous = Map.empty then ''initial version''
      else
        (let keys = sorted_list_of_set (dom previous \<union> dom nxt);
             added = filter (\<lambda>k. previous k = None \<and> nxt k \<noteq> None) keys;
             removed = filter (\<lambda>k. previous k \<noteq> None \<and> nxt k = None) keys;
             changed = filter (\<lambda>k. previous k \<noteq> None \<and> nxt k \<noteq> None \<and>
                          map_option json_rt (previous k) \<noteq> map_option json_rt (nxt k)) keys;
             part = (\<lambda>label ks. if ks = [] then [] else [label @ join_with '', '' ks]);
             parts = part ''changed: '' changed @ part ''added: '' added @ part ''removed: '' removed
         in if parts = [] then ''no substantive changes'' else join_with '' | '' parts))"

definition cleanStringPtr :: "string \<Rightarrow> string option" where
  "cleanStringPtr v = (if TrimSpace v = [] then None else Some (TrimSpace v))"

definition activeArtifactJSONIDForPhase :: "initiative \<Rightarrow> initiative_phase \<Rightarrow> string option" where
  "activeArtifactJSONIDForPhase n phase =
     (case phase of RequirementsPhase \<Rightarrow> nActiveRequirements n | DesignPhase \<Rightarrow> nActiveDesign n
      | PlanPhase \<Rightarrow> nActivePlan n | ExecutionPhase \<Rightarrow> None)"

definition generatedRoleForPhase :: "initiative_phase \<Rightarrow> string" where
  "generatedRoleForPhase phase =
     (case phase of RequirementsPhase \<Rightarrow> ''analyst'' | DesignPhase \<Rightarrow> ''architect'' | PlanPhase \<Rightarrow> ''planner''
      | ExecutionPhase \<Rightarrow> ''system'')"

definition titleText :: "initiative_phase \<Rightarrow> string" where
  "titleText phase = (case phase of RequirementsPhase \<Rightarrow> ''Requirements'' | DesignPhase \<Rightarrow> ''Design''
     | PlanPhase \<Rightarrow> ''Plan'' | ExecutionPhase \<Rightarrow> ''Execution'')"

definition getActiveInitiativeArtifactJSON :: "idb \<Rightarrow> string option \<Rightarrow> any_map result" where
  "getActiveInitiativeArtifactJSON s artifactID =
     (if TrimSpace (derefString artifactID) = [] then Inl ''required initiative artifact is missing''
      else
        (case find_row rID (TrimSpace (derefString artifactID)) (iArtifacts s) of
           None \<Rightarrow> Inl ''initiative artifact not found''
         | Some a \<Rightarrow>
             (case rContent a of
                Some p \<Rightarrow>
                  if p \<noteq> Map.empty then Inr p
                  else (case rMeta a ''payload'' of Some (AMap m) \<Rightarrow> Inr m
                        | _ \<Rightarrow> Inl ''initiative artifact JSON payload is missing'')
              | None \<Rightarrow>
                  (case rMeta a ''payload'' of Some (AMap m) \<Rightarrow> Inr m
                   | _ \<Rightarrow> Inl ''initiative artifact JSON payload is missing''))))"

definition phase_version :: "idb \<Rightarrow> string \<Rightarrow> initiative_phase \<Rightarrow> int" where
  "phase_version s initID phase =
     1 + int (length (filter (\<lambda>v. vPhase v = phase \<and> vDecision v = ReviewGenerated)
                       (ListInitiativePhaseReviews s initID)))"

definition phase_meta :: "idb \<Rightarrow> initiative \<Rightarrow> initiative_phase \<Rightarrow> any_map \<Rightarrow> string \<Rightarrow> any_map" where
  "phase_meta s n phase payload feedback =
     (let active = activeArtifactJSONIDForPhase n phase;
          previous = (case active of None \<Rightarrow> Map.empty
                      | Some _ \<Rightarrow> (case getActiveInitiativeArtifactJSON s active of Inl _ \<Rightarrow> Map.empty | Inr p \<Rightarrow> p));
          m0 = [''initiative_id'' \<mapsto> AStr (nID n), ''initiative_phase'' \<mapsto> AStr (phaseText phase),
                ''version'' \<mapsto> AInt (phase_version s (nID n) phase)];
          m1 = (case active of None \<Rightarrow> m0 | Some a \<Rightarrow> m0(''previous_artifact_json_id'' \<mapsto> AStr (TrimSpace a)));
          m2 = (if TrimSpace feedback \<noteq> [] then m1(''triggering_feedback'' \<mapsto> AStr (TrimSpace feedback)) else m1)
      in m2(''diff_summary'' \<mapsto> AStr (SummarizeStructuredDiff previous payload),
            ''generated_role'' \<mapsto> AStr (generatedRoleForPhase phase)))"

definition persistInitiativePhaseArtifacts ::
  "flow_env \<Rightarrow> initiative \<Rightarrow> initiative_phase \<Rightarrow> string \<times> any_map \<Rightarrow> string \<Rightarrow> flow \<Rightarrow> flow \<times> string \<times> string" where
  "persistInitiativePhaseArtifacts env n phase payload feedback w =
     (let s = wS w; k = wN w; mdID = eUid env k; jsonID = eUid env (k + 1);
          meta = phase_meta s n phase (snd payload) feedback;
          base = nTitle n @ '' '' @ titleText phase @ '' v'' @ eItoa env (phase_version s (nID n) phase);
          md = \<lparr>rID = mdID, rTask = None, rInvocation = None, rType = ''initiative_'' @ phaseText phase @ ''.md'',
                rTitle = cleanStringPtr (base @ '' markdown''), rURI = None, rMedia = Some ''text/markdown'', rContent = None,
                rText = cleanStringPtr (fst payload),
                rMeta = json_map (meta(''format'' \<mapsto> AStr ''markdown'')), rCreatedAt = eClk env k\<rparr>;
          js = \<lparr>rID = jsonID, rTask = None, rInvocation = None, rType = ''initiative_'' @ phaseText phase @ ''.json'',
                rTitle = cleanStringPtr (base @ '' json''), rURI = None, rMedia = Some ''application/json'',
                rContent = Some (json_map (snd payload)), rText = None,
                rMeta = json_map (meta(''format'' \<mapsto> AStr ''json'', ''payload'' \<mapsto> AMap (snd payload))),
                rCreatedAt = eClk env (k + 1)\<rparr>
      in (w\<lparr>wS := s\<lparr>iArtifacts := iArtifacts s @ [md, js]\<rparr>, wN := k + 2\<rparr>, mdID, jsonID))"

definition updateInitiativeActiveArtifacts ::
  "flow_env \<Rightarrow> string \<Rightarrow> initiative_phase \<Rightarrow> initiative_status \<Rightarrow> string \<Rightarrow> flow \<Rightarrow> flow" where
  "updateInitiativeActiveArtifacts env initID phase status jsonID w =
     (let u = noUpdate\<lparr>uStatus := Some status, uPhase := Some phase\<rparr>;
          u' = (case phase of RequirementsPhase \<Rightarrow> u\<lparr>uRequirements := Some jsonID\<rparr>
                | DesignPhase \<Rightarrow> u\<lparr>uDesign := Some jsonID\<rparr> | PlanPhase \<Rightarrow> u\<lparr>uPlan := Some jsonID\<rparr>
                | ExecutionPhase \<Rightarrow> u)
      in w\<lparr>wS := UpdateInitiative (eClk env (wN w)) initID u' (wS w), wN := wN w + 1\<rparr>)"

definition add_review ::
  "flow_env \<Rightarrow> string \<Rightarrow> initiative_phase \<Rightarrow> review_decision \<Rightarrow> string option \<Rightarrow> string \<Rightarrow> string option \<Rightarrow> string option
     \<Rightarrow> flow \<Rightarrow> flow" where
  "add_review env initID phase decision feedback by md js w =
     w\<lparr>wS := CreateInitiativePhaseReview (eUid env (wN w)) (eClk env (wN w)) initID phase decision feedback
            (Some by) md js (wS w), wN := wN w + 1\<rparr>"

section \<open>Advancing and reviewing a phase\<close>

definition generated_phase ::
  "flow_env \<Rightarrow> initiative \<Rightarrow> initiative_phase \<Rightarrow> initiative_status \<Rightarrow> string \<times> any_map \<Rightarrow> string \<Rightarrow> flow \<Rightarrow> flow" where
  "generated_phase env n phase status payload feedback w =
     (case persistInitiativePhaseArtifacts env n phase payload feedback w of
        (w1, md, js) \<Rightarrow>
          updateInitiativeActiveArtifacts env (nID n) phase status js
            (add_review env (nID n) phase ReviewGenerated (cleanStringPtr feedback) ''initiative-service''
               (Some md) (Some js) w1))"

definition advanceInitiative :: "flow_env \<Rightarrow> string \<Rightarrow> string \<Rightarrow> flow \<Rightarrow> flow \<times> resp" where
  "advanceInitiative env initID feedback w =
     (case GetInitiative (wS w) initID of
        None \<Rightarrow> (w, RDetail 404 ''initiative not found'')
      | Some n \<Rightarrow>
          (case nPhase n of
             RequirementsPhase \<Rightarrow>
               (case eReq env n feedback of
                  Inl e \<Rightarrow> (w, RDetail 502 e)
                | Inr p \<Rightarrow>
                    (let w' = generated_phase env n RequirementsPhase RequirementsReview p feedback w
                     in (w', RInitiative (GetInitiative (wS w') initID))))
           | DesignPhase \<Rightarrow>
               (case getActiveInitiativeArtifactJSON (wS w) (nActiveRequirements n) of
                  Inl e \<Rightarrow> (w, RDetail 400 e)
                | Inr req \<Rightarrow>
                    (case eDesign env n req feedback of
                       Inl e \<Rightarrow> (w, RDetail 502 e)
                     | Inr p \<Rightarrow>
                         (let w' = generated_phase env n DesignPhase DesignReview p feedback w
                          in (w', RInitiative (GetInitiative (wS w') initID)))))
           | PlanPhase \<Rightarrow>
               (w, RDetail 400 ''use /initiatives/{id}/tasks/generate to build the execution plan and task backlog'')
           | ExecutionPhase \<Rightarrow> (w, RDetail 400 ''initiative cannot be advanced from the current phase'')))"

definition validatePhaseArtifactPayload :: "flow_env \<Rightarrow> initiative_phase \<Rightarrow> any_map \<Rightarrow> string option" where
  "validatePhaseArtifactPayload env phase p =
     (case phase of
        RequirementsPhase \<Rightarrow> ValidateRequirementsPayload (eSprint env) p
      | DesignPhase \<Rightarrow> ValidateDesignPayload (eSprint env) p
      | PlanPhase \<Rightarrow> ValidateExecutionPlanPayload (eItoa env) (eQuote env) p
      | ExecutionPhase \<Rightarrow> Some (''phase '' @ phaseText phase @ '' does not support artifact validation''))"

definition latestReviewArtifactIDsForPhase ::
  "phase_review list \<Rightarrow> initiative_phase \<Rightarrow> string option \<times> string option" where
  "latestReviewArtifactIDsForPhase reviews phase =
     (case find (\<lambda>v. vPhase v = phase \<and> (vJSON v \<noteq> None \<or> vMarkdown v \<noteq> None)) reviews of
        None \<Rightarrow> (None, None) | Some v \<Rightarrow> (vMarkdown v, vJSON v))"

definition next_step :: "bool \<Rightarrow> initiative_phase \<Rightarrow> (initiative_status \<times> initiative_phase) option" where
  "next_step approve phase =
     (case phase of
        RequirementsPhase \<Rightarrow> Some (if approve then (DesignDraft, DesignPhase) else (RequirementsDraft, RequirementsPhase))
      | DesignPhase \<Rightarrow> Some (if approve then (PlanDraft, PlanPhase) else (DesignDraft, DesignPhase))
      | PlanPhase \<Rightarrow> Some (if approve then (ExecutionReady, ExecutionPhase) else (PlanDraft, PlanPhase))
      | ExecutionPhase \<Rightarrow> None)"

definition record_resolution ::
  "flow_env \<Rightarrow> bool \<Rightarrow> initiative \<Rightarrow> initiative_phase \<Rightarrow> string \<Rightarrow> string \<Rightarrow> flow \<Rightarrow> flow \<times> resp" where
  "record_resolution env approve n phase operator0 feedback w =
     (let ids = latestReviewArtifactIDsForPhase (ListInitiativePhaseReviews (wS w) (nID n)) phase;
          decision = (if approve then ReviewApproved else ReviewRejected);
          operator = firstNonEmptyString [TrimSpace operator0, ''operator''];
          w1 = add_review env (nID n) phase decision (cleanStringPtr feedback) operator (fst ids) (snd ids) w
      in case next_step approve phase of
           None \<Rightarrow> (w1, RDetail 400 (if approve then ''approval is not supported for this phase''
                                     else ''rejection is not supported for this phase''))
         | Some (st, ph) \<Rightarrow>
             (let w2 = w1\<lparr>wS := UpdateInitiative (eClk env (wN w1)) (nID n)
                     (noUpdate\<lparr>uStatus := Some st, uPhase := Some ph\<rparr>) (wS w1), wN := wN w1 + 1\<rparr>
              in (w2, RInitiative (GetInitiative (wS w2) (nID n)))))"

definition resolveInitiativePhase ::
  "flow_env \<Rightarrow> bool \<Rightarrow> string \<Rightarrow> string \<Rightarrow> string \<Rightarrow> string \<Rightarrow> flow \<Rightarrow> flow \<times> resp" where
  "resolveInitiativePhase env approve initID phaseParam operator0 feedback w =
     (case GetInitiative (wS w) initID of
        None \<Rightarrow> (w, RDetail 404 ''initiative not found'')
      | Some n \<Rightarrow>
          (case IsRecognizedInitiativePhase (TrimSpace phaseParam) of
             None \<Rightarrow> (w, RDetail 400 ''invalid phase'')
           | Some phase \<Rightarrow>
               if nPhase n \<noteq> phase \<and> \<not> (phase = PlanPhase \<and> nStatus n = PlanReview)
               then (w, RDetail 409 ''phase does not match initiative current phase'')
               else
                 (case getActiveInitiativeArtifactJSON (wS w) (activeArtifactJSONIDForPhase n phase) of
                    Inl e \<Rightarrow> (w, RDetail 400 e)
                  | Inr payload \<Rightarrow>
                      (case validatePhaseArtifactPayload env phase payload of
                         Some e \<Rightarrow> (w, RDetail 409 e)
                       | None \<Rightarrow>
                           if approve \<and> phase = PlanPhase \<and> ListInitiativeTasks (wS w) (nID n) = []
                           then (w, RDetail 409 ''plan cannot be approved before the backlog is materialized'')
                           else record_resolution env approve n phase operator0 feedback w))))"

section \<open>The backlog\<close>

definition asBoolHTTP :: "any_val option \<Rightarrow> bool" where
  "asBoolHTTP v =
     (case v of
        Some (ABool b) \<Rightarrow> b
      | Some (AStr s) \<Rightarrow> map fold_char (TrimSpace s) \<in> {''true'', ''1'', ''yes'', ''on''}
      | _ \<Rightarrow> False)"

definition isSupportedPriority :: "string \<Rightarrow> bool" where
  "isSupportedPriority p \<longleftrightarrow> p \<in> {PriorityCritical, PriorityHigh, PriorityNormal, PriorityLow}"

definition workspacePath :: "flow_env \<Rightarrow> string \<Rightarrow> any_map \<Rightarrow> string option result" where
  "workspacePath env target metadata =
     (if target = ExecutionTargetLocal
      then (if TrimSpace (asString (metadata ''workspace_root'')) = []
            then Inl ''execution_target=local requires metadata.workspace_root'' else Inr None)
      else if TrimSpace (eRoot env) = [] then Inr None
      else Inr (Some (path_clean (TrimSpace (eRoot env)))))"

definition asMap :: "any_val option \<Rightarrow> any_map" where
  "asMap v = (case v of Some (AMap m) \<Rightarrow> m | _ \<Rightarrow> Map.empty)"

definition normalizeInitiativeToolRequest :: "any_map \<Rightarrow> string \<Rightarrow> any_map" where
  "normalizeInitiativeToolRequest metadata assigned =
     (let projectRequest = asMap (metadata ''project_request'');
          tr0 = asMap (metadata ''tool_request'');
          tr1 = (if TrimSpace (asString (tr0 ''tool'')) = [] then
                   (if assigned = AgentTypeResearcher then tr0(''tool'' \<mapsto> AStr ''research_project'')
                    else if assigned = AgentTypeCoder then tr0(''tool'' \<mapsto> AStr ''scaffold_project'')
                    else if assigned = AgentTypeReviewer then tr0(''tool'' \<mapsto> AStr ''review_project'')
                    else tr0)
                 else tr0);
          tr2 = (if projectRequest = Map.empty then tr1
                 else
                   (let filled = projectRequest ++ (tr1(''project_request'' \<mapsto> AMap projectRequest));
                        parent = TrimSpace (asString (projectRequest ''parent_directory''));
                        name = TrimSpace (asString (projectRequest ''project_name''))
                    in if parent \<noteq> [] \<and> name \<noteq> [] \<and> TrimSpace (asString (filled ''project_root'')) = []
                       then filled(''project_root'' \<mapsto> AStr (path_join parent name)) else filled));
          goal = TrimSpace (asString (metadata ''initiative_goal''));
          tr3 = (if goal \<noteq> [] \<and> TrimSpace (asString (tr2 ''goal'')) = [] then tr2(''goal'' \<mapsto> AStr goal) else tr2);
          approval = asBoolHTTP (metadata ''approval_required'');
          m1 = (if approval then metadata(''requires_approval'' \<mapsto> ABool True) else metadata);
          tr4 = (if approval \<and> tr3 ''requires_approval'' = None
                 then tr3(''requires_approval'' \<mapsto> ABool True) else tr3)
      in m1(''tool_request'' \<mapsto> AMap tr4))"

definition backlog_metadata :: "initiative \<Rightarrow> any_map \<Rightarrow> any_map \<Rightarrow> string \<Rightarrow> any_map" where
  "backlog_metadata n epic spec assigned =
     normalizeInitiativeToolRequest
       ([''initiative_id'' \<mapsto> AStr (nID n), ''initiative_phase_origin'' \<mapsto> AStr ''plan'',
         ''workspace_root'' \<mapsto> AStr (nWorkspaceRoot n),
         ''definition_of_done'' \<mapsto> AStr (asString (spec ''definition_of_done'')),
         ''approval_required'' \<mapsto> ABool (asBoolHTTP (spec ''approval_required'')),
         ''planned_execution_mode'' \<mapsto> AStr (TrimSpace (asString (spec ''execution_mode''))),
         ''launch_group'' \<mapsto> AStr (TrimSpace (asString (epic ''group''))),
         ''epic'' \<mapsto> AStr (TrimSpace (asString (epic ''name''))),
         ''title'' \<mapsto> AStr (asString (spec ''title''))] ++ asMap (spec ''metadata''))
       assigned"

definition backlog_params :: "flow_env \<Rightarrow> initiative \<Rightarrow> any_map \<Rightarrow> any_map \<Rightarrow> create_params result" where
  "backlog_params env n epic spec =
     (let trimmed = (\<lambda>k. TrimSpace (asString (spec k)));
          assigned = (if trimmed ''suggested_agent'' = [] then AgentTypeCoder else trimmed ''suggested_agent'');
          priority = (if isSupportedPriority (trimmed ''priority'') then trimmed ''priority'' else PriorityNormal);
          target = (if trimmed ''execution_target'' = [] then ExecutionTargetLocal else trimmed ''execution_target'');
          metadata = backlog_metadata n epic spec assigned
      in case workspacePath env target metadata of
           Inl e \<Rightarrow> Inl e
         | Inr path \<Rightarrow>
             Inr \<lparr>pDescription = firstNonEmptyString [trimmed ''description'', trimmed ''title''],
                  pMetadata = Some metadata, pAllowedCapabilities = [], pPriority = priority,
                  pAssignedAgent = assigned, pPlannedAgent = Some assigned, pExecutionTarget = target,
                  pIdempotencyKey = None, pEntrypoint = ''initiative:generate'', pWorkspacePath = path,
                  pParentTaskID = None, pRootTaskID = None, pInitiativeID = Some (nID n),
                  pTaskKind = ''plan_step'', pQueueOnCreate = False\<rparr>)"

definition materialize_task ::
  "flow_env \<Rightarrow> initiative \<Rightarrow> any_map \<Rightarrow> any_map \<Rightarrow> int \<Rightarrow> flow \<Rightarrow> flow \<times> (task_link \<times> task) option result" where
  "materialize_task env n epic spec order w =
     (case backlog_params env n epic spec of
        Inl e \<Rightarrow> (w, Inl e)
      | Inr p \<Rightarrow>
          (let s = wS w; k = wN w
           in case CreateTask (eUid env k) (eUid env (k + 1)) (eUid env (k + 2)) (eClk env k) p (iDB s) of
                Inl e \<Rightarrow> (w\<lparr>wN := k + 3\<rparr>, Inl e)
              | Inr (d, _) \<Rightarrow>
                  (case LinkInitiativeTask (eUid env (k + 3)) (eClk env (k + 3)) (nID n) (eUid env k) ''plan''
                          (cleanStringPtr (TrimSpace (asString (epic ''name''))))
                          (cleanStringPtr (TrimSpace (asString (epic ''group''))))
                          (firstNonEmptyString [TrimSpace (asString (spec ''execution_mode'')), TaskLaunchModeAgentLocal])
                          order (s\<lparr>iDB := d\<rparr>) of
                     (s', link) \<Rightarrow> (w\<lparr>wS := s', wN := k + 4\<rparr>, Inr link))))"

fun materialize_all ::
  "flow_env \<Rightarrow> initiative \<Rightarrow> (any_map \<times> any_map) list \<Rightarrow> int \<Rightarrow> flow \<Rightarrow> flow \<times> (task_link \<times> task) list result" where
  "materialize_all env n [] order w = (w, Inr [])"
| "materialize_all env n ((epic, spec) # rest) order w =
     (case materialize_task env n epic spec order w of
        (w1, Inl e) \<Rightarrow> (w1, Inl e)
      | (w1, Inr link) \<Rightarrow>
          (case materialize_all env n rest (order + 10) w1 of
             (w2, Inl e) \<Rightarrow> (w2, Inl e)
           | (w2, Inr links) \<Rightarrow> (w2, Inr ((case link of None \<Rightarrow> [] | Some l \<Rightarrow> [l]) @ links))))"

definition plan_entries :: "any_map \<Rightarrow> (any_map \<times> any_map) list" where
  "plan_entries payload =
     concat (map (\<lambda>epic. map (Pair epic) (normalizedMapSlice (epic ''tasks'')))
       (normalizedMapSlice (payload ''epics'')))"

definition materializeInitiativePlanTasks ::
  "flow_env \<Rightarrow> initiative \<Rightarrow> any_map \<Rightarrow> flow \<Rightarrow> flow \<times> (task_link \<times> task) list result" where
  "materializeInitiativePlanTasks env n payload w =
     (case materialize_all env n (plan_entries payload) 10 w of
        (w', Inl e) \<Rightarrow> (w', Inl e)
      | (w', Inr created) \<Rightarrow> (w', Inr (sort_by (\<lambda>a b. lOrder (fst a) < lOrder (fst b)) created)))"

definition generateInitiativeTasks :: "flow_env \<Rightarrow> string \<Rightarrow> string \<Rightarrow> flow \<Rightarrow> flow \<times> resp" where
  "generateInitiativeTasks env initID feedback w =
     (case GetInitiative (wS w) initID of
        None \<Rightarrow> (w, RDetail 404 ''initiative not found'')
      | Some n \<Rightarrow>
          if nStatus n \<noteq> PlanDraft \<or> nPhase n \<noteq> PlanPhase
          then (w, RDetail 409 ''initiative must have approved design before generating the execution plan'')
          else
            (case getActiveInitiativeArtifactJSON (wS w) (nActiveDesign n) of
               Inl e \<Rightarrow> (w, RDetail 400 e)
             | Inr design \<Rightarrow>
                 (case ePlan env n design feedback of
                    Inl e \<Rightarrow> (w, RDetail 502 e)
                  | Inr p \<Rightarrow>
                      (let w1 = generated_phase env n PlanPhase PlanReview p feedback w;
                           updated = (case GetInitiative (wS w1) initID of None \<Rightarrow> n | Some u \<Rightarrow> u)
                       in case materializeInitiativePlanTasks env updated (snd p) w1 of
                            (w2, Inl e) \<Rightarrow> (w2, RDetail 500 e)
                          | (w2, Inr links) \<Rightarrow> (w2, RTasks (map snd links))))))"

section \<open>Launching tasks\<close>

record launch_request =
  qTaskIDs :: "string list"
  qGroups :: "string list"
  qOverrides :: "string \<Rightarrow> string"

definition selectInitiativeTasks ::
  "(task_link \<times> task) list \<Rightarrow> string list \<Rightarrow> string list \<Rightarrow> (task_link \<times> task) list" where
  "selectInitiativeTasks items taskIDs groups =
     (let taskSet = filter (\<lambda>x. x \<noteq> []) (map TrimSpace taskIDs);
          groupSet = filter (\<lambda>x. x \<noteq> []) (map TrimSpace groups)
      in if taskSet = [] \<and> groupSet = [] then items
         else filter (\<lambda>it. lTask (fst it) \<in> set taskSet \<or>
                firstNonEmptyString [derefString (lGroup (fst it)), derefString (lEpic (fst it))] \<in> set groupSet) items)"

definition enqueue_queued :: "flow_env \<Rightarrow> task \<Rightarrow> flow \<Rightarrow> flow result" where
  "enqueue_queued env t w =
     (case tAssignedAgent t of
        None \<Rightarrow> Inr w
      | Some agent \<Rightarrow>
          if tExecutionTarget t = ExecutionTargetLocal then Inr w
          else if \<not> eRedisUp env then Inl ''failed to enqueue remote task''
          else Inr (w\<lparr>wQ := EnqueueTask (eFl env) (eNano env (eClk env (wN w))) (tID t) agent (tPriority t) (wQ w)\<rparr>))"

text \<open>The mode a launch uses for a task, and whether the workspace's policy lets it through.\<close>

definition launch_mode :: "launch_request \<Rightarrow> task_link \<Rightarrow> string" where
  "launch_mode q l = firstNonEmptyString [TrimSpace (qOverrides q (lTask l)), TrimSpace (lMode l)]"

definition policy_error :: "flow_env \<Rightarrow> initiative \<Rightarrow> string \<Rightarrow> string option" where
  "policy_error env n m = ValidateTaskLaunchAgainstPolicy (eQuote env) (ResolveExecutionPolicy (eRoot env) (nWorkspaceRoot n)) m"

definition launch_one ::
  "flow_env \<Rightarrow> initiative \<Rightarrow> launch_request \<Rightarrow> task_link \<times> task \<Rightarrow> flow \<Rightarrow> flow \<times> (int \<times> string, task option) sum" where
  "launch_one env n q it w =
     (let link = fst it; k = wN w; mode = launch_mode q link
      in if \<not> IsRecognizedTaskLaunchMode mode then (w, Inl (400, ''invalid execution mode override''))
         else
           (case policy_error env n mode of
              Some e \<Rightarrow> (w, Inl (409, e))
            | None \<Rightarrow>
                (let s1 = fst (UpdateInitiativeTaskMode (nID n) (lTask link) mode (wS w))
                 in case UpdateTaskLaunchMode (eClk env k) (lTask link) mode (eQuote env) (iDB s1) of
                      Inl e \<Rightarrow> (w\<lparr>wS := s1, wN := k + 1\<rparr>, Inl (500, e))
                    | Inr d2 \<Rightarrow>
                        (let w2 = w\<lparr>wS := s1\<lparr>iDB := d2\<rparr>, wN := k + 1\<rparr>
                         in if mode = TaskLaunchModeManual then (w2, Inr None)
                            else
                              (case QueueTaskForLaunch (eUid env (k + 1)) (eClk env (k + 1)) (lTask link)
                                      ''api:initiative_launch'' ''Queued from initiative launch'' d2 of
                                 Inl e \<Rightarrow> (w2\<lparr>wN := k + 2\<rparr>, Inl (500, e))
                               | Inr (d3, None) \<Rightarrow> (w2\<lparr>wS := s1\<lparr>iDB := d3\<rparr>, wN := k + 2\<rparr>, Inr None)
                               | Inr (d3, Some t) \<Rightarrow>
                                   (let w3 = w2\<lparr>wS := s1\<lparr>iDB := d3\<rparr>, wN := k + 2\<rparr>
                                    in case enqueue_queued env t w3 of
                                         Inl e \<Rightarrow> (w3, Inl (503, e))
                                       | Inr w4 \<Rightarrow> (w4, Inr (Some t))))))))"

fun launch_all ::
  "flow_env \<Rightarrow> initiative \<Rightarrow> launch_request \<Rightarrow> (task_link \<times> task) list \<Rightarrow> flow \<Rightarrow> flow \<times> (int \<times> string, task list) sum" where
  "launch_all env n q [] w = (w, Inr [])"
| "launch_all env n q (it # rest) w =
     (case launch_one env n q it w of
        (w1, Inl e) \<Rightarrow> (w1, Inl e)
      | (w1, Inr t) \<Rightarrow>
          (case launch_all env n q rest w1 of
             (w2, Inl e) \<Rightarrow> (w2, Inl e)
           | (w2, Inr ts) \<Rightarrow> (w2, Inr ((case t of None \<Rightarrow> [] | Some x \<Rightarrow> [x]) @ ts))))"

definition launchInitiativeTasks :: "flow_env \<Rightarrow> string \<Rightarrow> launch_request \<Rightarrow> flow \<Rightarrow> flow \<times> resp" where
  "launchInitiativeTasks env initID q w =
     (case GetInitiative (wS w) initID of
        None \<Rightarrow> (w, RDetail 404 ''initiative not found'')
      | Some n \<Rightarrow>
          if nStatus n \<noteq> ExecutionReady \<and> nStatus n \<noteq> Executing \<and> nStatus n \<noteq> Blocked
          then (w, RDetail 409 ''initiative is not ready for execution'')
          else
            (let selected = selectInitiativeTasks (ListInitiativeTasks (wS w) (nID n)) (qTaskIDs q) (qGroups q)
             in if selected = []
                then (w, RDetail 400 ''no launchable initiative tasks matched the request'')
                else
                  (case launch_all env n q selected w of
                     (w1, Inl (code, e)) \<Rightarrow> (w1, RDetail code e)
                   | (w1, Inr launched) \<Rightarrow>
                       (let s2 = fst (ReconcileInitiativeExecution (eClk env (wN w1)) (nID n) (wS w1))
                        in (w1\<lparr>wS := s2, wN := wN w1 + 1\<rparr>, RTasks launched)))))"

definition updateInitiativeTaskMode :: "flow_env \<Rightarrow> string \<Rightarrow> string \<Rightarrow> string \<Rightarrow> flow \<Rightarrow> flow \<times> resp" where
  "updateInitiativeTaskMode env initID taskID mode0 w =
     (let mode = TrimSpace mode0
      in if \<not> IsRecognizedTaskLaunchMode mode then (w, RDetail 400 ''invalid execution_mode'')
         else
           (case GetInitiativeTaskLink (wS w) initID taskID of
              None \<Rightarrow> (w, RDetail 404 ''initiative task link not found'')
            | Some _ \<Rightarrow>
                (case GetInitiative (wS w) initID of
                   None \<Rightarrow> (w, RDetail 404 ''initiative not found'')
                 | Some n \<Rightarrow>
                     (case policy_error env n mode of
                        Some e \<Rightarrow> (w, RDetail 409 e)
                      | None \<Rightarrow>
                          (let s1 = fst (UpdateInitiativeTaskMode initID taskID mode (wS w))
                           in case UpdateTaskLaunchMode (eClk env (wN w)) taskID mode (eQuote env) (iDB s1) of
                                Inl e \<Rightarrow> (w\<lparr>wS := s1, wN := wN w + 1\<rparr>, RDetail 500 e)
                              | Inr d2 \<Rightarrow>
                                  (let s2 = s1\<lparr>iDB := d2\<rparr>; updated = GetInitiativeTaskLink s2 initID taskID;
                                       s3 = fst (ReconcileInitiativeExecution (eClk env (wN w + 1)) initID s2)
                                   in (w\<lparr>wS := s3, wN := wN w + 2\<rparr>, RLink updated)))))))"

section \<open>The contract of an initiative handler\<close>

fun phase_ok :: "initiative_status \<Rightarrow> initiative_phase \<Rightarrow> bool" where
  "phase_ok st RequirementsPhase = (st \<in> {IdeaSubmitted, RequirementsDraft, RequirementsReview})"
| "phase_ok st DesignPhase = (st \<in> {DesignDraft, DesignReview})"
| "phase_ok st PlanPhase = (st \<in> {PlanDraft, PlanReview})"
| "phase_ok st ExecutionPhase = (st \<in> {ExecutionReady, Executing, Blocked, InitCompleted})"

definition phases_ok :: "idb \<Rightarrow> bool" where
  "phases_ok s \<longleftrightarrow> list_all (\<lambda>n. phase_ok (nStatus n) (nPhase n)) (iInits s)"

definition moves_one :: "string \<Rightarrow> idb \<Rightarrow> idb \<Rightarrow> bool" where
  "moves_one i s s' \<longleftrightarrow> iInits s' = iInits s \<or>
     (\<exists>t u st ph. uStatus u = Some st \<and> uPhase u = Some ph \<and> phase_ok st ph \<and>
        iInits s' = upd_row nID i (update_initiative_row t u) (iInits s))"

lemma update_initiative_row_id [simp]: "nID (update_initiative_row t u n) = nID n"
  by (simp add: update_initiative_row_def)

lemma moves_one_same: "iInits s' = iInits s \<Longrightarrow> moves_one i s s'"
  by (simp add: moves_one_def)

lemma moves_one_update:
  assumes "iInits s1 = iInits s" and "uStatus u = Some st" and "uPhase u = Some ph" and "phase_ok st ph"
  shows "moves_one i s (UpdateInitiative t i u s1)"
  using assms by (auto simp: moves_one_def UpdateInitiative_def)

locale initiative_handler =
  fixes h :: "string \<Rightarrow> flow \<Rightarrow> flow \<times> resp"
  assumes moves: "moves_one i (wS w) (wS (fst (h i w)))"
begin

lemma keeps_phases: "phases_ok (wS w) \<Longrightarrow> phases_ok (wS (fst (h i w)))"
  using moves [of i w] unfolding phases_ok_def moves_one_def
  by (auto simp: list_all_iff update_initiative_row_def dest!: set_upd_row)

lemma keeps_ids: "map nID (iInits (wS (fst (h i w)))) = map nID (iInits (wS w))"
  using moves [of i w] map_key_upd_row [of nID] by (auto simp: moves_one_def)

lemma leaves_others: "j \<noteq> i \<Longrightarrow> GetInitiative (wS (fst (h i w))) j = GetInitiative (wS w) j"
  using moves [of i w] find_row_upd_other [where key = nID and k = i and j = j and rows = "iInits (wS w)"]
  by (fastforce simp: moves_one_def GetInitiative_def)

end

lemma persist_inits: "iInits (wS (fst (persistInitiativePhaseArtifacts env n ph p fb w))) = iInits (wS w)"
  by (simp add: persistInitiativePhaseArtifacts_def Let_def)

lemma add_review_inits: "iInits (wS (add_review env i ph d fb by md js w)) = iInits (wS w)"
  by (simp add: add_review_def CreateInitiativePhaseReview_def)

lemma generated_phase_moves:
  assumes "phase_ok st ph"
  shows "moves_one (nID n) (wS w) (wS (generated_phase env n ph st p fb w))"
proof -
  obtain w1 md js where p: "persistInitiativePhaseArtifacts env n ph p fb w = (w1, md, js)"
    by (cases "persistInitiativePhaseArtifacts env n ph p fb w")
  have i: "iInits (wS w1) = iInits (wS w)" using persist_inits [of env n ph p fb w] p by simp
  show ?thesis using assms i
    by (auto simp: generated_phase_def p updateInitiativeActiveArtifacts_def Let_def noUpdate_def
        add_review_inits intro!: moves_one_update split: initiative_phase.split)
qed

lemma GetInitiative_id: "GetInitiative s i = Some n \<Longrightarrow> nID n = i"
  using find_row_SomeD by (fastforce simp: GetInitiative_def)

lemma reconcile_moves:
  assumes "iInits s1 = iInits s"
  shows "moves_one i s (fst (ReconcileInitiativeExecution t i s1))"
proof (cases "GetInitiative s1 i")
  case None
  then show ?thesis using assms by (simp add: ReconcileInitiativeExecution_def moves_one_same)
next
  case (Some n)
  show ?thesis
  proof (cases "ListInitiativeTasks s1 i")
    case Nil
    with Some show ?thesis using assms by (simp add: ReconcileInitiativeExecution_def moves_one_same)
  next
    case (Cons x xs)
    have ok: "phase_ok (deriveInitiativeExecutionStatus (nStatus n) (x # xs)) ExecutionPhase"
      by (simp add: deriveInitiativeExecutionStatus_def derive_status_cases)
    show ?thesis using Some Cons ok assms
      by (auto simp: ReconcileInitiativeExecution_def Let_def noUpdate_def intro!: moves_one_update)
  qed
qed

lemma UpdateInitiativeTaskMode_simps [simp]:
  "iInits (fst (UpdateInitiativeTaskMode i t m s)) = iInits s"
  "iDB (fst (UpdateInitiativeTaskMode i t m s)) = iDB s"
  by (simp_all add: UpdateInitiativeTaskMode_def Let_def)

lemma enqueue_queued_wS: "enqueue_queued env t w = Inr w' \<Longrightarrow> wS w' = wS w"
  by (auto simp: enqueue_queued_def split: option.splits if_splits)

lemma launch_one_inits: "iInits (wS (fst (launch_one env n q it w))) = iInits (wS w)"
proof -
  let ?m = "launch_mode q (fst it)"
  let ?t = "lTask (fst it)" and ?k = "wN w"
  show ?thesis
  proof (cases "\<not> IsRecognizedTaskLaunchMode ?m \<or> policy_error env n ?m \<noteq> None")
    case True
    then show ?thesis by (auto simp: launch_one_def Let_def  split: option.split)
  next
    case ok: False
    show ?thesis
    proof (cases "UpdateTaskLaunchMode (eClk env ?k) ?t ?m (eQuote env) (iDB (wS w))")
      case (Inl e)
      with ok show ?thesis by (simp add: launch_one_def Let_def)
    next
      case (Inr d2)
      show ?thesis
      proof (cases "?m = TaskLaunchModeManual")
        case True
        with ok Inr show ?thesis by (simp add: launch_one_def Let_def)
      next
        case False
        with ok Inr show ?thesis
          by (simp add: launch_one_def Let_def split: sum.split prod.split option.split)
            (auto dest: enqueue_queued_wS)
      qed
    qed
  qed
qed

lemma launch_all_inits: "iInits (wS (fst (launch_all env n q its w))) = iInits (wS w)"
proof (induction its arbitrary: w)
  case (Cons it its)
  obtain w1 r where l: "launch_one env n q it w = (w1, r)" by (cases "launch_one env n q it w")
  then have "iInits (wS w1) = iInits (wS w)" using launch_one_inits [of env n q it w] by simp
  with Cons l show ?case by (auto split: sum.splits prod.splits) (metis fst_conv)+
qed simp

lemma materialize_task_inits: "iInits (wS (fst (materialize_task env n e t o' w))) = iInits (wS w)"
  by (simp add: materialize_task_def Let_def LinkInitiativeTask_def split: option.splits sum.splits prod.splits)

lemma materialize_all_inits: "iInits (wS (fst (materialize_all env n es o' w))) = iInits (wS w)"
proof (induction es arbitrary: o' w)
  case (Cons et es)
  obtain e t where et: "et = (e, t)" by (cases et)
  obtain w1 r where l: "materialize_task env n e t o' w = (w1, r)" by (cases "materialize_task env n e t o' w")
  then have "iInits (wS w1) = iInits (wS w)" using materialize_task_inits [of env n e t o' w] by simp
  with Cons l et show ?case by (auto split: sum.splits prod.splits) (metis fst_conv)+
qed simp

lemma advance_moves: "moves_one i (wS w) (wS (fst (advanceInitiative env i fb w)))"
proof (cases "GetInitiative (wS w) i")
  case None
  then show ?thesis by (simp add: advanceInitiative_def moves_one_same)
next
  case (Some n)
  have id: "nID n = i" using Some by (rule GetInitiative_id)
  note g = generated_phase_moves [of _ _ n, unfolded id]
  show ?thesis using Some
    by (auto simp: advanceInitiative_def Let_def intro!: moves_one_same g
        split: initiative_phase.split sum.split)
qed

lemma generate_moves: "moves_one i (wS w) (wS (fst (generateInitiativeTasks env i fb w)))"
proof (cases "GetInitiative (wS w) i")
  case None
  then show ?thesis by (simp add: generateInitiativeTasks_def moves_one_same)
next
  case (Some n)
  have id: "nID n = i" using Some by (rule GetInitiative_id)
  have mat: "iInits (wS (fst (materializeInitiativePlanTasks env u p w1))) = iInits (wS w1)" for u p w1
    using materialize_all_inits [of env u "plan_entries p" 10 w1]
    by (auto simp: materializeInitiativePlanTasks_def split: prod.split sum.split)
  have m: "moves_one i (wS w) (wS w2)"
    if "materializeInitiativePlanTasks env u p' (generated_phase env n PlanPhase PlanReview p fb w) = (w2, r)" for u p p' w2 r
    using generated_phase_moves [of PlanReview PlanPhase n w env p fb] mat that
    by (metis (no_types, lifting) fst_conv id insertCI moves_one_def phase_ok.simps(3))
  show ?thesis using Some
    by (auto simp: generateInitiativeTasks_def Let_def intro: moves_one_same m split: sum.split prod.split)
qed

lemma record_resolution_moves: "moves_one (nID n) (wS w) (wS (fst (record_resolution env ap n ph op fb w)))"
proof (cases "next_step ap ph")
  case None
  then show ?thesis by (simp add: record_resolution_def Let_def add_review_inits moves_one_same)
next
  case (Some sp)
  obtain st p where sp: "sp = (st, p)" by (cases sp)
  have "phase_ok st p" using Some sp by (auto simp: next_step_def split: initiative_phase.splits if_splits)
  then have "moves_one (nID n) (wS w) (UpdateInitiative t (nID n) (noUpdate\<lparr>uStatus := Some st, uPhase := Some p\<rparr>)
      (wS (add_review env (nID n) ph d f b md js w)))" for t d f b md js
    by (intro moves_one_update [where st = st and ph = p]) (simp_all add: add_review_inits noUpdate_def)
  with Some sp show ?thesis by (simp add: record_resolution_def Let_def)
qed

lemma resolve_cases:
  obtains "fst (resolveInitiativePhase env ap i ph op fb w) = w" "statusCode (snd (resolveInitiativePhase env ap i ph op fb w)) \<noteq> 200"
  | n phase payload where "GetInitiative (wS w) i = Some n"
      "IsRecognizedInitiativePhase (TrimSpace ph) = Some phase"
      "nPhase n = phase \<or> (phase = PlanPhase \<and> nStatus n = PlanReview)"
      "getActiveInitiativeArtifactJSON (wS w) (activeArtifactJSONIDForPhase n phase) = Inr payload"
      "validatePhaseArtifactPayload env phase payload = None"
      "\<not> (ap \<and> phase = PlanPhase \<and> ListInitiativeTasks (wS w) (nID n) = [])"
      "resolveInitiativePhase env ap i ph op fb w = record_resolution env ap n phase op fb w"
proof (cases "GetInitiative (wS w) i")
  case None
  then show ?thesis using that(1) by (simp add: resolveInitiativePhase_def statusCode_def)
next
  case n: (Some n)
  show ?thesis
  proof (cases "IsRecognizedInitiativePhase (TrimSpace ph)")
    case None
    with n show ?thesis using that(1) by (simp add: resolveInitiativePhase_def statusCode_def)
  next
    case phase: (Some phase)
    show ?thesis
    proof (cases "getActiveInitiativeArtifactJSON (wS w) (activeArtifactJSONIDForPhase n phase)")
      case (Inl e)
      with n phase show ?thesis using that(1)
        by (cases "nPhase n \<noteq> phase \<and> \<not> (phase = PlanPhase \<and> nStatus n = PlanReview)")
          (auto simp: resolveInitiativePhase_def statusCode_def)
    next
      case (Inr payload)
      let ?r = "resolveInitiativePhase env ap i ph op fb w"
      consider (mismatch) "nPhase n \<noteq> phase \<and> \<not> (phase = PlanPhase \<and> nStatus n = PlanReview)"
        | (payload) e where "nPhase n = phase \<or> (phase = PlanPhase \<and> nStatus n = PlanReview)"
            "validatePhaseArtifactPayload env phase payload = Some e"
        | (backlog) "nPhase n = phase \<or> (phase = PlanPhase \<and> nStatus n = PlanReview)"
            "validatePhaseArtifactPayload env phase payload = None"
            "ap \<and> phase = PlanPhase \<and> ListInitiativeTasks (wS w) (nID n) = []"
        | (ok) "nPhase n = phase \<or> (phase = PlanPhase \<and> nStatus n = PlanReview)"
            "validatePhaseArtifactPayload env phase payload = None"
            "\<not> (ap \<and> phase = PlanPhase \<and> ListInitiativeTasks (wS w) (nID n) = [])"
        by (cases "validatePhaseArtifactPayload env phase payload") blast+
      then show ?thesis
      proof cases
        case mismatch
        with n phase have "?r = (w, RDetail 409 ''phase does not match initiative current phase'')"
          by (simp add: resolveInitiativePhase_def)
        then show ?thesis using that(1) by (simp add: statusCode_def)
      next
        case (payload e)
        with n phase Inr have "?r = (w, RDetail 409 e)" by (auto simp: resolveInitiativePhase_def)
        then show ?thesis using that(1) by (simp add: statusCode_def)
      next
        case backlog
        with n phase Inr have "?r = (w, RDetail 409 ''plan cannot be approved before the backlog is materialized'')"
          by (auto simp: resolveInitiativePhase_def)
        then show ?thesis using that(1) by (simp add: statusCode_def)
      next
        case ok
        with n phase Inr have "?r = record_resolution env ap n phase op fb w"
          by (simp add: resolveInitiativePhase_def) blast
        with n phase Inr ok show ?thesis by (intro that(2))
      qed
    qed
  qed
qed

lemma resolve_moves: "moves_one i (wS w) (wS (fst (resolveInitiativePhase env ap i ph op fb w)))"
proof (cases rule: resolve_cases [of env ap i ph op fb w])
  case 1
  then show ?thesis by (simp add: moves_one_same)
next
  case (2 n phase payload)
  then show ?thesis using record_resolution_moves [of n w env ap phase op fb] GetInitiative_id by metis
qed

lemma launch_moves: "moves_one i (wS w) (wS (fst (launchInitiativeTasks env i q w)))"
proof (cases "GetInitiative (wS w) i")
  case None
  then show ?thesis by (simp add: launchInitiativeTasks_def moves_one_same)
next
  case (Some n)
  have id: "nID n = i" using Some by (rule GetInitiative_id)
  have l: "iInits (wS w1) = iInits (wS w)" if "launch_all env n q its w = (w1, r)" for its w1 r
    using launch_all_inits [of env n q its w] that by simp
  show ?thesis using Some id
    by (auto simp: launchInitiativeTasks_def Let_def intro: moves_one_same l reconcile_moves
        split: sum.split prod.split)
qed

lemma mode_moves: "moves_one i (wS w) (wS (fst (updateInitiativeTaskMode env i t m w)))"
  by (auto simp: updateInitiativeTaskMode_def Let_def intro: moves_one_same reconcile_moves
      split: option.split sum.split)

interpretation adv: initiative_handler "\<lambda>i. advanceInitiative env i fb" for env fb
  by unfold_locales (rule advance_moves)

interpretation gen: initiative_handler "\<lambda>i. generateInitiativeTasks env i fb" for env fb
  by unfold_locales (rule generate_moves)

interpretation res: initiative_handler "\<lambda>i. resolveInitiativePhase env ap i ph op fb" for env ap ph op fb
  by unfold_locales (rule resolve_moves)

interpretation lau: initiative_handler "\<lambda>i. launchInitiativeTasks env i q" for env q
  by unfold_locales (rule launch_moves)

interpretation mod: initiative_handler "\<lambda>i. updateInitiativeTaskMode env i t m" for env t m
  by unfold_locales (rule mode_moves)

section \<open>Reachable states\<close>

inductive flow_step :: "flow_env \<Rightarrow> flow \<Rightarrow> flow \<Rightarrow> bool" for env where
  create: "flow_step env w (w\<lparr>wS := CreateInitiative i t title wr goal c m (wS w)\<rparr>)"
| advance: "flow_step env w (fst (advanceInitiative env i fb w))"
| resolve: "flow_step env w (fst (resolveInitiativePhase env ap i ph op fb w))"
| generate: "flow_step env w (fst (generateInitiativeTasks env i fb w))"
| launch: "flow_step env w (fst (launchInitiativeTasks env i q w))"
| mode: "flow_step env w (fst (updateInitiativeTaskMode env i t m w))"

inductive flow_reach :: "flow_env \<Rightarrow> flow \<Rightarrow> flow \<Rightarrow> bool" for env where
  refl: "flow_reach env w w"
| step: "flow_reach env w v \<Longrightarrow> flow_step env v u \<Longrightarrow> flow_reach env w u"

lemma flow_step_phases: "flow_step env w v \<Longrightarrow> phases_ok (wS w) \<Longrightarrow> phases_ok (wS v)"
  by (induction rule: flow_step.induct)
    (auto simp: adv.keeps_phases gen.keeps_phases res.keeps_phases lau.keeps_phases mod.keeps_phases,
     simp add: phases_ok_def CreateInitiative_def Let_def)

lemma flow_reach_phases: "flow_reach env w v \<Longrightarrow> phases_ok (wS w) \<Longrightarrow> phases_ok (wS v)"
  by (induction rule: flow_reach.induct) (auto dest: flow_step_phases)

section \<open>Links and launches\<close>

lemma link_listed:
  assumes "GetInitiativeTaskLink s i t = Some x"
  shows "ListInitiativeTasks s i \<noteq> []"
proof -
  obtain l where l: "find_row link_key (i, t) (iLinks s) = Some l" "map_option (\<lambda>t. (l, t)) (GetTask (iDB s) (lTask l)) = Some x"
    using assms by (auto simp: GetInitiativeTaskLink_def split: option.splits)
  have "l \<in> set (iLinks s)" "lInitiative l = i" using find_row_SomeD [OF l(1)] by auto
  then have "x \<in> set (ListInitiativeTasks s i)"
    using l(2) by (auto simp: ListInitiativeTasks_def List.map_filter_def intro!: image_eqI [where x = l])
  then show ?thesis by auto
qed

lemma link_after_mode:
  assumes "GetInitiativeTaskLink s i t = Some (l, k)"
  shows "\<exists>l'. GetInitiativeTaskLink (fst (UpdateInitiativeTaskMode i t m s)) i t = Some (l', k) \<and> lMode l' = m"
  using assms
  by (auto simp: GetInitiativeTaskLink_def UpdateInitiativeTaskMode_def Let_def find_row_upd_same split: option.splits)

lemma launch_mode_task:
  assumes "UpdateTaskLaunchMode t i m quote d = Inr d'" and "GetTask d j = Some k"
  shows "\<exists>k'. GetTask d' j = Some k' \<and> tState k' = tState k \<and> tAssignedAgent k' = tAssignedAgent k \<and>
    (i = j \<and> m = TaskLaunchModeAgentLocal \<longrightarrow> tExecutionTarget k' = ExecutionTargetLocal) \<and>
    (i = j \<and> m = TaskLaunchModeAgentRemote \<longrightarrow> tExecutionTarget k' = ExecutionTargetRemote)"
  using assms
  by (cases "i = j") (auto simp: UpdateTaskLaunchMode_def GetTask_def find_row_upd_other mode_defs split: if_splits)

lemma link_after_launch_mode:
  assumes "GetInitiativeTaskLink s i t = Some x" and "UpdateTaskLaunchMode c j m quote (iDB s) = Inr d"
  shows "GetInitiativeTaskLink (s\<lparr>iDB := d\<rparr>) i t \<noteq> None"
proof -
  obtain l k where "find_row link_key (i, t) (iLinks s) = Some l" "GetTask (iDB s) (lTask l) = Some k"
    using assms(1) by (auto simp: GetInitiativeTaskLink_def split: option.splits)
  then show ?thesis using launch_mode_task [OF assms(2), of "lTask l" k]
    by (auto simp: GetInitiativeTaskLink_def)
qed

lemma recognized_launch_mode: "IsRecognizedTaskLaunchMode m \<Longrightarrow> \<exists>d'. UpdateTaskLaunchMode c i m quote d = Inr d'"
  by (auto simp: IsRecognizedTaskLaunchMode_def UpdateTaskLaunchMode_def mode_defs)

lemma QueueTaskForLaunch_refused:
  assumes "GetTask d i = Some k" and "tState k \<notin> {Created, Failed, Cancelled}"
  shows "\<exists>e. QueueTaskForLaunch r c i a q d = Inl e"
  using assms by (simp add: QueueTaskForLaunch_def)

lemma QueueTaskForLaunch_ok:
  assumes "GetTask d i = Some k" and "tState k \<in> {Created, Failed, Cancelled}"
  shows "\<exists>d' t. QueueTaskForLaunch r c i a q d = Inr (d', Some t) \<and> GetTask d' i = Some t \<and> tState t = Queued \<and>
      tExecutionTarget t = tExecutionTarget k \<and> tAssignedAgent t = tAssignedAgent k"
  using assms by (auto simp: QueueTaskForLaunch_def GetTask_def Let_def transition_row_def)

lemma launch_one_refused:
  assumes "GetTask (iDB (wS w)) (lTask (fst it)) = Some k" and "tState k \<notin> {Created, Failed, Cancelled}"
    and "launch_mode q (fst it) \<noteq> TaskLaunchModeManual"
  shows "\<exists>w' e. launch_one env n q it w = (w', Inl e)"
proof (cases "IsRecognizedTaskLaunchMode (launch_mode q (fst it)) \<and> policy_error env n (launch_mode q (fst it)) = None")
  case False
  then show ?thesis
    by (auto simp: launch_one_def Let_def split: option.split)
next
  case True
  obtain d2 where d2: "UpdateTaskLaunchMode (eClk env (wN w)) (lTask (fst it)) (launch_mode q (fst it)) (eQuote env) (iDB (wS w)) = Inr d2"
    using recognized_launch_mode True by blast
  obtain k2 where "GetTask d2 (lTask (fst it)) = Some k2" "tState k2 = tState k"
    using launch_mode_task [OF d2 assms(1)] by blast
  with QueueTaskForLaunch_refused [of d2 "lTask (fst it)" k2 "eUid env (wN w + 1)" "eClk env (wN w + 1)"] assms(2)
  obtain e where "QueueTaskForLaunch (eUid env (wN w + 1)) (eClk env (wN w + 1)) (lTask (fst it))
      ''api:initiative_launch'' ''Queued from initiative launch'' d2 = Inl e" by metis
  then show ?thesis using True d2 assms(3)
    by (simp add: launch_one_def Let_def)
qed

lemma launch_one_success:
  assumes "GetTask (iDB (wS w)) (lTask (fst it)) = Some k" and l: "launch_one env n q it w = (w', Inr (Some t))"
  defines "m \<equiv> launch_mode q (fst it)"
  shows "IsRecognizedTaskLaunchMode m \<and> policy_error env n m = None \<and> m \<noteq> TaskLaunchModeManual \<and>
    tState k \<in> {Created, Failed, Cancelled} \<and> GetTask (iDB (wS w')) (lTask (fst it)) = Some t \<and> tState t = Queued \<and>
    tExecutionTarget t = (if m = TaskLaunchModeAgentLocal then ExecutionTargetLocal else ExecutionTargetRemote) \<and>
    (\<exists>w3. wQ w3 = wQ w \<and> enqueue_queued env t w3 = Inr w')"
proof -
  note ls = launch_one_def Let_def m_def [symmetric]
  have m: "IsRecognizedTaskLaunchMode m" "policy_error env n m = None"
    using l by (auto simp: ls split: if_splits option.splits)
  obtain d2 where d2: "UpdateTaskLaunchMode (eClk env (wN w)) (lTask (fst it)) m (eQuote env) (iDB (wS w)) = Inr d2"
    using recognized_launch_mode m(1) by blast
  obtain k2 where k2: "GetTask d2 (lTask (fst it)) = Some k2" "tState k2 = tState k"
      "m = TaskLaunchModeAgentLocal \<longrightarrow> tExecutionTarget k2 = ExecutionTargetLocal"
      "m = TaskLaunchModeAgentRemote \<longrightarrow> tExecutionTarget k2 = ExecutionTargetRemote"
    using launch_mode_task [OF d2 assms(1)] by blast
  have nm: "m \<noteq> TaskLaunchModeManual" using l m d2 by (auto simp: ls)
  have st: "tState k \<in> {Created, Failed, Cancelled}"
  proof (rule ccontr)
    assume "tState k \<notin> {Created, Failed, Cancelled}"
    from launch_one_refused [OF assms(1) this nm [unfolded m_def], of env n] l show False by auto
  qed
  obtain d3 t' where q: "QueueTaskForLaunch (eUid env (wN w + 1)) (eClk env (wN w + 1)) (lTask (fst it))
      ''api:initiative_launch'' ''Queued from initiative launch'' d2 = Inr (d3, Some t')"
    and t': "GetTask d3 (lTask (fst it)) = Some t'" "tState t' = Queued" "tExecutionTarget t' = tExecutionTarget k2"
    using QueueTaskForLaunch_ok [OF k2(1), unfolded k2(2), OF st] by blast
  let ?w3 = "w\<lparr>wS := (fst (UpdateInitiativeTaskMode (nID n) (lTask (fst it)) m (wS w)))\<lparr>iDB := d3\<rparr>, wN := wN w + 2\<rparr>"
  have e: "t' = t \<and> enqueue_queued env t ?w3 = Inr w'"
    using l m d2 nm q by (auto simp: ls split: sum.splits)
  then have w': "wS w' = wS ?w3" and ex: "\<exists>w3. wQ w3 = wQ w \<and> enqueue_queued env t w3 = Inr w'"
    using enqueue_queued_wS by (blast, auto intro!: exI [of _ ?w3])
  have "m = TaskLaunchModeAgentLocal \<or> m = TaskLaunchModeAgentRemote"
    using m(1) nm by (auto simp: IsRecognizedTaskLaunchMode_def)
  then have tgt: "tExecutionTarget t = (if m = TaskLaunchModeAgentLocal then ExecutionTargetLocal else ExecutionTargetRemote)"
    using t'(3) k2(3,4) e by auto
  have "GetTask (iDB (wS w')) (lTask (fst it)) = Some t" "tState t = Queued" using w' t' e by simp_all
  with m nm st tgt ex show ?thesis by blast
qed

section \<open>Sample data\<close>

definition sample_env :: flow_env where
  "sample_env = \<lparr>eUid = (\<lambda>k. replicate k CHR ''u''), eClk = (\<lambda>k. int k), eNano = (\<lambda>t. t), eFl = (\<lambda>x. x),
     eRoot = ''/o'', eRedisUp = True, eSprint = (\<lambda>_. []), eQuote = (\<lambda>x. x), eItoa = (\<lambda>_. []),
     eReq = (\<lambda>_ _. Inl ''off''), eDesign = (\<lambda>_ _ _. Inl ''off''), ePlan = (\<lambda>_ _ _. Inl ''off'')\<rparr>"

definition plan_artifact :: artifact where
  "plan_artifact = \<lparr>rID = ''p'', rTask = None, rInvocation = None, rType = ''initiative_plan.json'', rTitle = None, rURI = None, rMedia = None,
     rContent = Some [''epics'' \<mapsto> AArr [AMap sample_epic]], rText = None, rMeta = Map.empty, rCreatedAt = 3\<rparr>"

definition sample_flow :: "initiative_status \<Rightarrow> initiative_phase \<Rightarrow> task_state \<Rightarrow> flow" where
  "sample_flow st ph ts = \<lparr>wS = (sample_idb st ph ts)\<lparr>iArtifacts := [plan_artifact],
     iInits := [(sample_initiative st ph)\<lparr>nActivePlan := Some ''p''\<rparr>]\<rparr>, wQ = emptyRedis, wN = 0\<rparr>"

lemma sample_flow_get:
  "GetInitiative (wS (sample_flow st ph ts)) ''n1'' = Some ((sample_initiative st ph)\<lparr>nActivePlan := Some ''p''\<rparr>)"
  by (simp add: sample_flow_def GetInitiative_def sample_initiative_def)

lemma sample_flow_task: "GetTask (iDB (wS (sample_flow st ph ts))) ''t1'' = Some (sample_task ts)"
  by (simp add: sample_flow_def sample_idb_def)

lemma sample_flow_tasks:
  "ListInitiativeTasks (wS (sample_flow st ph ts)) ''n1'' = [(sample_link, sample_task ts)]"
  by (simp add: ListInitiativeTasks_def sample_flow_def sample_idb_def map_filter_simps sample_link_def)

lemma sample_policy: "policy_error sample_env ((sample_initiative st ph)\<lparr>nActivePlan := x\<rparr>) ''agent_local'' = None"
  by (simp add: policy_error_def ValidateTaskLaunchAgainstPolicy_def ResolveExecutionPolicy_def sample_env_def
      sample_initiative_def AllowsMode_def mode_defs trim_eval path_clean_def clean_step_def HasPrefix_def)

section \<open>Properties\<close>

text \<open>
  C7: in every state reached from one without initiatives by creating, advancing, reviewing,
  generating, launching and changing modes, the status of an initiative belongs to its phase.
\<close>

theorem status_belongs_to_phase:
  assumes "flow_reach env w v" and "iInits (wS w) = []" and "GetInitiative (wS v) i = Some n"
  shows "phase_ok (nStatus n) (nPhase n)"
proof -
  have "phases_ok (wS w)" using assms(2) by (simp add: phases_ok_def)
  with assms(1) have "phases_ok (wS v)" by (rule flow_reach_phases)
  moreover have "n \<in> set (iInits (wS v))" using assms(3) find_row_SomeD by (fastforce simp: GetInitiative_def)
  ultimately show ?thesis by (simp add: phases_ok_def list_all_iff)
qed

text \<open>The witness creates one initiative.\<close>

theorem status_belongs_to_phase_witness:
  "flow_reach sample_env (\<lparr>wS = (sample_idb Blocked ExecutionPhase Queued)\<lparr>iInits := []\<rparr>, wQ = emptyRedis, wN = 0\<rparr>)
     (\<lparr>wS = CreateInitiative ''n1'' 1 ''t'' ''/w'' ''g'' [] [] ((sample_idb Blocked ExecutionPhase Queued)\<lparr>iInits := []\<rparr>),
       wQ = emptyRedis, wN = 0\<rparr>) \<and> phase_ok IdeaSubmitted RequirementsPhase"
proof -
  let ?s = "(sample_idb Blocked ExecutionPhase Queued)\<lparr>iInits := []\<rparr>"
  let ?w = "\<lparr>wS = ?s, wQ = emptyRedis, wN = 0\<rparr>"
  let ?v = "\<lparr>wS = CreateInitiative ''n1'' 1 ''t'' ''/w'' ''g'' [] [] ?s, wQ = emptyRedis, wN = 0\<rparr>"
  have r: "flow_reach sample_env ?w ?v"
    using flow_reach.step [OF flow_reach.refl flow_step.create, of sample_env ?w "''n1''" 1 "''t''" "''/w''" "''g''" "[]" "[]"]
    by simp
  obtain n where n: "GetInitiative (wS ?v) ''n1'' = Some n" "nStatus n = IdeaSubmitted" "nPhase n = RequirementsPhase"
    by (simp add: GetInitiative_def CreateInitiative_def Let_def)
  from status_belongs_to_phase [OF r _ n(1)] r n(2,3) show ?thesis by simp
qed

text \<open>
  A review that succeeds was for the phase the initiative is in, or for the plan under review, its
  active payload passed the validation of that phase, a plan is approved only with a backlog, exactly
  one review row with the decision is added, and the initiative takes the next step of that phase.
\<close>

theorem successful_review_was_allowed:
  assumes n: "GetInitiative (wS w) i = Some n"
    and r: "resolveInitiativePhase env ap i ph op fb w = (w', RInitiative (Some n'))"
  shows "\<exists>phase payload v. IsRecognizedInitiativePhase (TrimSpace ph) = Some phase \<and>
    (nPhase n = phase \<or> (phase = PlanPhase \<and> nStatus n = PlanReview)) \<and>
    getActiveInitiativeArtifactJSON (wS w) (activeArtifactJSONIDForPhase n phase) = Inr payload \<and>
    validatePhaseArtifactPayload env phase payload = None \<and>
    (ap \<and> phase = PlanPhase \<longrightarrow> ListInitiativeTasks (wS w) i \<noteq> []) \<and>
    next_step ap phase = Some (nStatus n', nPhase n') \<and>
    iReviews (wS w') = iReviews (wS w) @ [v] \<and> vInitiative v = i \<and> vPhase v = phase \<and>
    vDecision v = (if ap then ReviewApproved else ReviewRejected)"
proof (cases rule: resolve_cases [of env ap i ph op fb w])
  case 1
  then show ?thesis using r by (simp add: statusCode_def)
next
  case (2 m phase payload)
  have m: "m = n" "nID n = i" using 2 n GetInitiative_id by auto
  have rr: "record_resolution env ap n phase op fb w = (w', RInitiative (Some n'))" using 2(7) r m by simp
  obtain st p where ns: "next_step ap phase = Some (st, p)"
    using rr by (cases "next_step ap phase") (auto simp: record_resolution_def Let_def)
  have "nStatus n' = st \<and> nPhase n' = p \<and> (\<exists>v. iReviews (wS w') = iReviews (wS w) @ [v] \<and> vInitiative v = i \<and>
      vPhase v = phase \<and> vDecision v = (if ap then ReviewApproved else ReviewRejected))"
    using rr ns n m
    by (auto simp: record_resolution_def Let_def add_review_def CreateInitiativePhaseReview_def
        UpdateInitiative_def GetInitiative_def find_row_upd_same update_initiative_row_def noUpdate_def)
  then show ?thesis using 2(1-6) ns m by auto
qed

text \<open>The witness approves a plan with one task.\<close>

theorem successful_review_was_allowed_witness:
  "\<exists>w' n'. resolveInitiativePhase sample_env True ''n1'' ''plan'' [] [] (sample_flow PlanReview PlanPhase Created) =
      (w', RInitiative (Some n')) \<and> nPhase n' = ExecutionPhase"
proof -
  let ?w = "sample_flow PlanReview PlanPhase Created"
  let ?n = "(sample_initiative PlanReview PlanPhase)\<lparr>nActivePlan := Some ''p''\<rparr>"
  have t: "TrimSpace ''plan'' = ''plan''" "TrimSpace ''p'' = ''p''" by (simp_all add: trim_eval)
  have p: "IsRecognizedInitiativePhase ''plan'' = Some PlanPhase"
    by (simp add: IsRecognizedInitiativePhase_def phaseText_def)
  have a: "getActiveInitiativeArtifactJSON (wS ?w) (Some ''p'') = Inr [''epics'' \<mapsto> AArr [AMap sample_epic]]"
    by (simp add: getActiveInitiativeArtifactJSON_def derefString_def t sample_flow_def plan_artifact_def)
  have v: "validatePhaseArtifactPayload sample_env PlanPhase [''epics'' \<mapsto> AArr [AMap sample_epic]] = None"
    by (simp add: validatePhaseArtifactPayload_def sample_plan_valid)
  have id: "nID ?n = ''n1''" "nPhase ?n = PlanPhase" by (simp_all add: sample_initiative_def)
  have "\<exists>w' n'. record_resolution sample_env True ?n PlanPhase [] [] ?w = (w', RInitiative (Some n'))"
    by (simp add: record_resolution_def Let_def next_step_def add_review_def CreateInitiativePhaseReview_def
        UpdateInitiative_def GetInitiative_def find_row_upd_same id)
      (simp add: sample_flow_def sample_initiative_def)
  then obtain w' n' where r: "resolveInitiativePhase sample_env True ''n1'' ''plan'' [] [] ?w = (w', RInitiative (Some n'))"
    using sample_flow_get [of PlanReview PlanPhase Created] sample_flow_tasks [of PlanReview PlanPhase Created] a v id
    by (auto simp: resolveInitiativePhase_def t p activeArtifactJSONIDForPhase_def)
  from successful_review_was_allowed [OF sample_flow_get r] t p have "nPhase n' = ExecutionPhase"
    by (auto simp: next_step_def)
  with r show ?thesis by blast
qed

text \<open>
  Changing the launch mode of a task recomputes the status of its initiative whatever phase that
  is in. For a plan that still waits for its review the change moves the initiative to the
  execution phase, without a review row, and so past the approval of the plan.
\<close>

theorem mode_change_skips_the_plan_approval:
  assumes n: "GetInitiative (wS w) i = Some n" and l: "GetInitiativeTaskLink (wS w) i t = Some x"
    and m: "IsRecognizedTaskLaunchMode (TrimSpace mode)" "policy_error env n (TrimSpace mode) = None"
  shows "\<exists>w' y n'. updateInitiativeTaskMode env i t mode w = (w', RLink (Some y)) \<and>
    GetInitiative (wS w') i = Some n' \<and> nPhase n' = ExecutionPhase \<and>
    nStatus n' \<in> {Executing, Blocked, ExecutionReady, InitCompleted} \<and> iReviews (wS w') = iReviews (wS w)"
proof -
  let ?m = "TrimSpace mode"
  let ?s1 = "fst (UpdateInitiativeTaskMode i t ?m (wS w))"
  obtain d2 where d2: "UpdateTaskLaunchMode (eClk env (wN w)) t ?m (eQuote env) (iDB (wS w)) = Inr d2"
    using recognized_launch_mode [OF m(1)] by blast
  let ?s2 = "?s1\<lparr>iDB := d2\<rparr>"
  obtain l1 where "GetInitiativeTaskLink ?s1 i t = Some l1"
    using l link_after_mode [of "wS w" i t "fst x" "snd x" ?m] by auto
  then obtain y where y: "GetInitiativeTaskLink ?s2 i t = Some y"
    using link_after_launch_mode [of ?s1 i t l1 "eClk env (wN w)" t ?m "eQuote env" d2] d2 by auto
  have rev: "iReviews ?s1 = iReviews (wS w)" by (simp add: UpdateInitiativeTaskMode_def Let_def)
  obtain k ks where ks: "ListInitiativeTasks ?s2 i = k # ks" using link_listed [OF y] by (cases "ListInitiativeTasks ?s2 i") auto
  have g: "find_row nID i (iInits (wS w)) = Some n" using n by (simp add: GetInitiative_def)
  have st: "deriveInitiativeExecutionStatus c (k # ks) \<in> {Executing, Blocked, ExecutionReady, InitCompleted}" for c
    by (simp add: deriveInitiativeExecutionStatus_def derive_status_cases)
  show ?thesis using n l m d2 y rev ks g st
    by (simp add: updateInitiativeTaskMode_def Let_def ReconcileInitiativeExecution_def GetInitiative_def
        UpdateInitiative_def find_row_upd_same update_initiative_row_def noUpdate_def)
qed

text \<open>The witness changes a task's mode while the plan waits for its review.\<close>

theorem mode_change_skips_the_plan_approval_witness:
  "\<exists>w' y n'. updateInitiativeTaskMode sample_env ''n1'' ''t1'' ''agent_local'' (sample_flow PlanReview PlanPhase Created)
      = (w', RLink (Some y)) \<and>
    GetInitiative (wS w') ''n1'' = Some n' \<and> nPhase n' = ExecutionPhase \<and> iReviews (wS w') = []"
proof -
  let ?w = "sample_flow PlanReview PlanPhase Created"
  have t: "TrimSpace ''agent_local'' = ''agent_local''" by (simp add: trim_eval)
  have l: "GetInitiativeTaskLink (wS ?w) ''n1'' ''t1'' = Some (sample_link, sample_task Created)"
    using sample_flow_task [of PlanReview PlanPhase Created]
    by (simp add: GetInitiativeTaskLink_def) (simp add: sample_flow_def sample_idb_def sample_link_def)
  have m: "IsRecognizedTaskLaunchMode (TrimSpace ''agent_local'')"
    by (simp add: t IsRecognizedTaskLaunchMode_def mode_defs)
  have rev: "iReviews (wS ?w) = []" by (simp add: sample_flow_def sample_idb_def)
  show ?thesis
    using mode_change_skips_the_plan_approval [OF sample_flow_get l m] sample_policy rev unfolding t by metis
qed

text \<open>
  A launch that hands a task out did so in a mode the workspace's policy allows, from \<open>created\<close>,
  \<open>failed\<close> or \<open>cancelled\<close>; the task is queued, its target is the one of the mode, and it is in its
  agent's Redis queue exactly when the target is remote (and an agent is assigned). A task in any
  other state that is to be launched in an agent mode makes the launch fail.
\<close>

theorem launch_queues_the_task:
  assumes k: "GetTask (iDB (wS w)) (lTask (fst it)) = Some k"
  shows "(\<forall>w' t. launch_one env n q it w = (w', Inr (Some t)) \<longrightarrow>
      policy_error env n (launch_mode q (fst it)) = None \<and> tState k \<in> {Created, Failed, Cancelled} \<and>
      GetTask (iDB (wS w')) (lTask (fst it)) = Some t \<and> tState t = Queued \<and>
      (\<forall>a. tAssignedAgent t = Some a \<longrightarrow>
         (if launch_mode q (fst it) = TaskLaunchModeAgentLocal then wQ w' = wQ w
          else tID t \<in> fst ` set (rdQueues (wQ w') (queueKey a))))) \<and>
    (tState k \<notin> {Created, Failed, Cancelled} \<and> launch_mode q (fst it) \<noteq> TaskLaunchModeManual \<longrightarrow>
      (\<exists>w' e. launch_one env n q it w = (w', Inl e)))"
proof (intro conjI allI impI)
  fix w' t assume "launch_one env n q it w = (w', Inr (Some t))"
  note s = launch_one_success [OF k this]
  then show "policy_error env n (launch_mode q (fst it)) = None" "tState k \<in> {Created, Failed, Cancelled}"
    "GetTask (iDB (wS w')) (lTask (fst it)) = Some t" "tState t = Queued" by blast+
  fix a assume a: "tAssignedAgent t = Some a"
  obtain w3 where w3: "wQ w3 = wQ w" "enqueue_queued env t w3 = Inr w'" using s by blast
  show "if launch_mode q (fst it) = TaskLaunchModeAgentLocal then wQ w' = wQ w
      else tID t \<in> fst ` set (rdQueues (wQ w') (queueKey a))"
  proof (cases "launch_mode q (fst it) = TaskLaunchModeAgentLocal")
    case True
    then have "tExecutionTarget t = ExecutionTargetLocal" using s by simp
    with w3 a True show ?thesis by (simp add: enqueue_queued_def)
  next
    case False
    then have "tExecutionTarget t \<noteq> ExecutionTargetLocal" using s by (simp add: target_defs)
    with w3 a have "wQ w' = EnqueueTask (eFl env) (eNano env (eClk env (wN w3))) (tID t) a (tPriority t) (wQ w3)"
      by (auto simp: enqueue_queued_def split: if_splits)
    then have "\<exists>s. (tID t, s) \<in> set (rdQueues (wQ w') (queueKey a))" by (auto simp: EnqueueTask_def ZAdd_def)
    with False show ?thesis by force
  qed
next
  assume "tState k \<notin> {Created, Failed, Cancelled} \<and> launch_mode q (fst it) \<noteq> TaskLaunchModeManual"
  then show "\<exists>w' e. launch_one env n q it w = (w', Inl e)" using launch_one_refused [OF k] by blast
qed

text \<open>The witness launches a created task and fails to launch a completed one.\<close>

theorem launch_queues_the_task_witness:
  "\<exists>w' e. launch_one sample_env (sample_initiative Executing ExecutionPhase)
      (\<lparr>qTaskIDs = [], qGroups = [], qOverrides = (\<lambda>_. [])\<rparr>) (sample_link, sample_task Completed)
      (sample_flow Executing ExecutionPhase Completed) = (w', Inl e)"
proof -
  let ?q = "\<lparr>qTaskIDs = [], qGroups = [], qOverrides = (\<lambda>_. [])\<rparr> :: launch_request"
  let ?it = "(sample_link, sample_task Completed)"
  have k: "GetTask (iDB (wS (sample_flow Executing ExecutionPhase Completed))) (lTask (fst ?it)) = Some (sample_task Completed)"
    using sample_flow_task [of Executing ExecutionPhase Completed] by (simp add: sample_link_def)
  have m: "launch_mode ?q (fst ?it) \<noteq> TaskLaunchModeManual"
    by (simp add: launch_mode_def sample_link_def mode_defs trim_eval)
  show ?thesis using launch_queues_the_task [OF k, where q = ?q] m by simp
qed

end
