(* ===== verification/Objective_Plan.thy ===== *)
theory Objective_Plan
  imports Initiative_Flow
begin

text \<open>
  The pure part of the objective loop (\<^verbatim>\<open>domain/objectives.go\<close>, \<^verbatim>\<open>httpapi/objectives.go\<close>): work items
  and the execution contract with its JSON form, what the handlers read from the metadata of a task
  (iteration, budget, flags), the decision to start a repair cycle, and the work items of the next
  iteration. Reading a time (\<^verbatim>\<open>time.Parse\<close>) and printing one (\<^verbatim>\<open>RFC3339\<close>) are the parameters \<open>parse\<close>
  and \<open>fmtTime\<close>. A \<^verbatim>\<open>nil\<close> slice or map is the empty one: as JSON it is \<^verbatim>\<open>null\<close>, which every reader
  takes for empty. Whole numbers are exact, as they are in JSON up to \<open>2 ^ 53\<close>.
\<close>

section \<open>Work items and the contract\<close>

definition WorkItemKindResearch :: string where "WorkItemKindResearch = ''research''"
definition WorkItemKindAnalyze :: string where "WorkItemKindAnalyze = ''analyze''"
definition WorkItemKindEdit :: string where "WorkItemKindEdit = ''edit''"
definition WorkItemKindValidate :: string where "WorkItemKindValidate = ''validate''"
definition WorkItemKindReview :: string where "WorkItemKindReview = ''review''"
definition WorkItemKindReplan :: string where "WorkItemKindReplan = ''replan''"

lemmas kind_defs = WorkItemKindResearch_def WorkItemKindAnalyze_def WorkItemKindEdit_def
  WorkItemKindValidate_def WorkItemKindReview_def WorkItemKindReplan_def

record work_item =
  iID :: string
  iKind :: string
  iTitle :: string
  iDescription :: string
  iAssignedAgent :: string
  iExecutionMode :: string
  iExecutionTarget :: string
  iBackend :: string
  iDependsOn :: "string list"
  iApprovalRequired :: bool
  iDefinitionOfDone :: string
  iValidationCommands :: "string list"
  iSuspectedPaths :: "string list"
  iToolRequest :: "any_map option"
  iMetadata :: any_map

record scope_hypothesis =
  hPath :: string
  hRationale :: string
  hEvidence :: string
  hConfidence :: string
  hCitationRefs :: "string list"
  hRank :: int
  hScore :: int
  hDisposition :: string
  hRejectedBecause :: string

record execution_contract =
  ecTitle :: string
  ecNormalizedObjective :: string
  ecWorkspaceRoot :: string
  ecExecutionBackend :: string
  ecChangeStrategy :: string
  ecValidationCommands :: "string list"
  ecCompletionCriteria :: "string list"
  ecTimeBudgetSeconds :: int
  ecRiskLevel :: string
  ecApprovalRequired :: bool
  ecSuspectedPaths :: "string list"
  ecInitialScope :: "scope_hypothesis list"
  ecRejectedScope :: "scope_hypothesis list"
  ecRepositoryURL :: string
  ecRepoProfile :: string
  ecWorkItems :: "work_item list"

section \<open>The JSON form of a contract\<close>

text \<open>
  The fields with \<^verbatim>\<open>omitempty\<close> disappear when they are empty. Decoding looks a field up under its
  exact name, takes a missing field or a \<^verbatim>\<open>null\<close> as the zero value, and reports a field of another
  type while it fills the rest.
\<close>

definition opt_str :: "string \<Rightarrow> string \<Rightarrow> any_map \<Rightarrow> any_map" where
  "opt_str k v m = (if v = [] then m else m(k \<mapsto> AStr v))"

definition opt_int :: "string \<Rightarrow> int \<Rightarrow> any_map \<Rightarrow> any_map" where
  "opt_int k v m = (if v = 0 then m else m(k \<mapsto> AInt v))"

definition strs_val :: "string list \<Rightarrow> any_val" where
  "strs_val xs = AArr (map AStr xs)"

definition opt_strs :: "string \<Rightarrow> string list \<Rightarrow> any_map \<Rightarrow> any_map" where
  "opt_strs k v m = (if v = [] then m else m(k \<mapsto> strs_val v))"

definition opt_vals :: "string \<Rightarrow> any_val list \<Rightarrow> any_map \<Rightarrow> any_map" where
  "opt_vals k v m = (if v = [] then m else m(k \<mapsto> AArr v))"

definition opt_map :: "string \<Rightarrow> any_map option \<Rightarrow> any_map \<Rightarrow> any_map" where
  "opt_map k v m = (case v of None \<Rightarrow> m | Some x \<Rightarrow> if x = Map.empty then m else m(k \<mapsto> json_rt (AMap x)))"

definition work_item_json :: "work_item \<Rightarrow> any_val" where
  "work_item_json i = AMap
     (opt_map ''metadata'' (Some (iMetadata i))
     (opt_map ''tool_request'' (iToolRequest i)
     (opt_strs ''suspected_paths'' (iSuspectedPaths i)
     (opt_strs ''validation_commands'' (iValidationCommands i)
     (opt_strs ''depends_on'' (iDependsOn i)
     [''id'' \<mapsto> AStr (iID i), ''kind'' \<mapsto> AStr (iKind i), ''title'' \<mapsto> AStr (iTitle i),
      ''description'' \<mapsto> AStr (iDescription i), ''assigned_agent'' \<mapsto> AStr (iAssignedAgent i),
      ''execution_mode'' \<mapsto> AStr (iExecutionMode i), ''execution_target'' \<mapsto> AStr (iExecutionTarget i),
      ''backend'' \<mapsto> AStr (iBackend i), ''approval_required'' \<mapsto> ABool (iApprovalRequired i),
      ''definition_of_done'' \<mapsto> AStr (iDefinitionOfDone i)])))))"

definition scope_json :: "scope_hypothesis \<Rightarrow> any_val" where
  "scope_json h = AMap
     (opt_str ''rejected_because'' (hRejectedBecause h) (opt_str ''disposition'' (hDisposition h)
     (opt_int ''score'' (hScore h) (opt_int ''rank'' (hRank h)
     (opt_strs ''citation_refs'' (hCitationRefs h) (opt_str ''confidence'' (hConfidence h)
     (opt_str ''evidence'' (hEvidence h)
     [''path'' \<mapsto> AStr (hPath h), ''rationale'' \<mapsto> AStr (hRationale h)])))))))"

definition contract_json :: "execution_contract \<Rightarrow> any_val" where
  "contract_json c = AMap
     (opt_str ''repo_profile'' (ecRepoProfile c) (opt_str ''repository_url'' (ecRepositoryURL c)
     (opt_vals ''rejected_scope_hypotheses'' (map scope_json (ecRejectedScope c))
     (opt_vals ''initial_scope_hypotheses'' (map scope_json (ecInitialScope c))
     (opt_strs ''suspected_paths'' (ecSuspectedPaths c) (opt_int ''time_budget_seconds'' (ecTimeBudgetSeconds c)
     [''title'' \<mapsto> AStr (ecTitle c), ''normalized_objective'' \<mapsto> AStr (ecNormalizedObjective c),
      ''workspace_root'' \<mapsto> AStr (ecWorkspaceRoot c), ''execution_backend'' \<mapsto> AStr (ecExecutionBackend c),
      ''change_strategy'' \<mapsto> AStr (ecChangeStrategy c),
      ''validation_commands'' \<mapsto> strs_val (ecValidationCommands c),
      ''completion_criteria'' \<mapsto> strs_val (ecCompletionCriteria c), ''risk_level'' \<mapsto> AStr (ecRiskLevel c),
      ''approval_required'' \<mapsto> ABool (ecApprovalRequired c),
      ''work_items'' \<mapsto> AArr (map work_item_json (ecWorkItems c))]))))))"

definition str_ok :: "any_val option \<Rightarrow> bool" where
  "str_ok v = (case v of None \<Rightarrow> True | Some x \<Rightarrow> (case x of ANil \<Rightarrow> True | AStr _ \<Rightarrow> True | ATime _ \<Rightarrow> True | _ \<Rightarrow> False))"

definition bool_ok :: "any_val option \<Rightarrow> bool" where
  "bool_ok v = (case v of None \<Rightarrow> True | Some x \<Rightarrow> (case x of ANil \<Rightarrow> True | ABool _ \<Rightarrow> True | _ \<Rightarrow> False))"

definition int_ok :: "any_val option \<Rightarrow> bool" where
  "int_ok v = (case v of None \<Rightarrow> True | Some x \<Rightarrow> (case x of ANil \<Rightarrow> True | AInt _ \<Rightarrow> True | _ \<Rightarrow> False))"

definition map_ok :: "any_val option \<Rightarrow> bool" where
  "map_ok v = (case v of None \<Rightarrow> True | Some x \<Rightarrow> (case x of ANil \<Rightarrow> True | AMap _ \<Rightarrow> True | _ \<Rightarrow> False))"

definition list_ok :: "(any_val \<Rightarrow> bool) \<Rightarrow> any_val option \<Rightarrow> bool" where
  "list_ok P v =
     (case v of None \<Rightarrow> True
      | Some x \<Rightarrow> (case x of ANil \<Rightarrow> True | AArr xs \<Rightarrow> list_all P xs | _ \<Rightarrow> False))"

definition obj_ok :: "(any_map \<Rightarrow> bool) \<Rightarrow> any_val \<Rightarrow> bool" where
  "obj_ok P v = (case v of ANil \<Rightarrow> True | AMap m \<Rightarrow> P m | _ \<Rightarrow> False)"

abbreviation strs_ok :: "any_val option \<Rightarrow> bool" where
  "strs_ok \<equiv> list_ok (\<lambda>x. str_ok (Some x))"

definition dec_bool :: "any_val option \<Rightarrow> bool" where
  "dec_bool v = (case v of Some (ABool b) \<Rightarrow> b | _ \<Rightarrow> False)"

definition dec_int :: "any_val option \<Rightarrow> int" where
  "dec_int v = (case v of Some (AInt i) \<Rightarrow> i | _ \<Rightarrow> 0)"

definition dec_list :: "any_val option \<Rightarrow> any_val list" where
  "dec_list v = (case v of Some (AArr xs) \<Rightarrow> xs | _ \<Rightarrow> [])"

definition dec_strs :: "any_val option \<Rightarrow> string list" where
  "dec_strs v = map (\<lambda>x. asString (Some x)) (dec_list v)"

definition dec_map :: "any_val option \<Rightarrow> any_map option" where
  "dec_map v = (case v of Some (AMap m) \<Rightarrow> Some m | _ \<Rightarrow> None)"

definition dec_obj :: "any_val \<Rightarrow> any_map" where
  "dec_obj v = (case v of AMap m \<Rightarrow> m | _ \<Rightarrow> Map.empty)"

definition work_item_of :: "any_map \<Rightarrow> work_item" where
  "work_item_of m =
     \<lparr>iID = asString (m ''id''), iKind = asString (m ''kind''), iTitle = asString (m ''title''),
      iDescription = asString (m ''description''), iAssignedAgent = asString (m ''assigned_agent''),
      iExecutionMode = asString (m ''execution_mode''), iExecutionTarget = asString (m ''execution_target''),
      iBackend = asString (m ''backend''), iDependsOn = dec_strs (m ''depends_on''),
      iApprovalRequired = dec_bool (m ''approval_required''),
      iDefinitionOfDone = asString (m ''definition_of_done''),
      iValidationCommands = dec_strs (m ''validation_commands''),
      iSuspectedPaths = dec_strs (m ''suspected_paths''), iToolRequest = dec_map (m ''tool_request''),
      iMetadata = asMap (m ''metadata'')\<rparr>"

definition work_item_ok :: "any_map \<Rightarrow> bool" where
  "work_item_ok m \<longleftrightarrow>
     list_all (\<lambda>k. str_ok (m k)) [''id'', ''kind'', ''title'', ''description'', ''assigned_agent'',
       ''execution_mode'', ''execution_target'', ''backend'', ''definition_of_done''] \<and>
     list_all (\<lambda>k. strs_ok (m k)) [''depends_on'', ''validation_commands'', ''suspected_paths''] \<and>
     bool_ok (m ''approval_required'') \<and> map_ok (m ''tool_request'') \<and> map_ok (m ''metadata'')"

definition scope_of :: "any_map \<Rightarrow> scope_hypothesis" where
  "scope_of m =
     \<lparr>hPath = asString (m ''path''), hRationale = asString (m ''rationale''), hEvidence = asString (m ''evidence''),
      hConfidence = asString (m ''confidence''), hCitationRefs = dec_strs (m ''citation_refs''),
      hRank = dec_int (m ''rank''), hScore = dec_int (m ''score''), hDisposition = asString (m ''disposition''),
      hRejectedBecause = asString (m ''rejected_because'')\<rparr>"

definition scope_ok :: "any_map \<Rightarrow> bool" where
  "scope_ok m \<longleftrightarrow>
     list_all (\<lambda>k. str_ok (m k)) [''path'', ''rationale'', ''evidence'', ''confidence'', ''disposition'',
       ''rejected_because''] \<and>
     strs_ok (m ''citation_refs'') \<and> int_ok (m ''rank'') \<and> int_ok (m ''score'')"

definition contract_of :: "any_map \<Rightarrow> execution_contract" where
  "contract_of m =
     \<lparr>ecTitle = asString (m ''title''), ecNormalizedObjective = asString (m ''normalized_objective''),
      ecWorkspaceRoot = asString (m ''workspace_root''), ecExecutionBackend = asString (m ''execution_backend''),
      ecChangeStrategy = asString (m ''change_strategy''),
      ecValidationCommands = dec_strs (m ''validation_commands''),
      ecCompletionCriteria = dec_strs (m ''completion_criteria''),
      ecTimeBudgetSeconds = dec_int (m ''time_budget_seconds''), ecRiskLevel = asString (m ''risk_level''),
      ecApprovalRequired = dec_bool (m ''approval_required''), ecSuspectedPaths = dec_strs (m ''suspected_paths''),
      ecInitialScope = map (\<lambda>v. scope_of (dec_obj v)) (dec_list (m ''initial_scope_hypotheses'')),
      ecRejectedScope = map (\<lambda>v. scope_of (dec_obj v)) (dec_list (m ''rejected_scope_hypotheses'')),
      ecRepositoryURL = asString (m ''repository_url''), ecRepoProfile = asString (m ''repo_profile''),
      ecWorkItems = map (\<lambda>v. work_item_of (dec_obj v)) (dec_list (m ''work_items''))\<rparr>"

definition contract_ok :: "any_map \<Rightarrow> bool" where
  "contract_ok m \<longleftrightarrow>
     list_all (\<lambda>k. str_ok (m k)) [''title'', ''normalized_objective'', ''workspace_root'', ''execution_backend'',
       ''change_strategy'', ''risk_level'', ''repository_url'', ''repo_profile''] \<and>
     list_all (\<lambda>k. strs_ok (m k)) [''validation_commands'', ''completion_criteria'', ''suspected_paths''] \<and>
     int_ok (m ''time_budget_seconds'') \<and> bool_ok (m ''approval_required'') \<and>
     list_ok (obj_ok scope_ok) (m ''initial_scope_hypotheses'') \<and>
     list_ok (obj_ok scope_ok) (m ''rejected_scope_hypotheses'') \<and>
     list_ok (obj_ok work_item_ok) (m ''work_items'')"

definition decodeObjectiveExecutionContract :: "any_val option \<Rightarrow> execution_contract \<times> string option" where
  "decodeObjectiveExecutionContract v =
     (case map_option json_rt v of
        Some (AMap m) \<Rightarrow> (contract_of m, if contract_ok m then None else Some ''json: cannot unmarshal value'')
      | None \<Rightarrow> (contract_of Map.empty, None)
      | Some ANil \<Rightarrow> (contract_of Map.empty, None)
      | Some _ \<Rightarrow> (contract_of Map.empty, Some ''json: cannot unmarshal value''))"

section \<open>What the handlers read from metadata\<close>

definition defaultObjectiveMaxIterations :: int where
  "defaultObjectiveMaxIterations = 3"

definition objectiveAsBool :: "any_val option \<Rightarrow> bool" where
  "objectiveAsBool v = (case v of Some (ABool b) \<Rightarrow> b | _ \<Rightarrow> False)"

definition objectiveAsInt :: "any_val option \<Rightarrow> int \<Rightarrow> int" where
  "objectiveAsInt v fallback = (case v of Some (AInt i) \<Rightarrow> i | _ \<Rightarrow> fallback)"

definition objectiveAsIntOK :: "any_val option \<Rightarrow> int option" where
  "objectiveAsIntOK v = (case v of Some (AInt i) \<Rightarrow> Some i | _ \<Rightarrow> None)"

definition anyStringSliceHTTP :: "any_val option \<Rightarrow> string list option" where
  "anyStringSliceHTTP v =
     (case v of
        Some (AStrs xs) \<Rightarrow> Some xs
      | Some (AArr xs) \<Rightarrow>
          (let out = filter (\<lambda>s. s \<noteq> []) (map (\<lambda>x. TrimSpace (asString (Some x))) xs)
           in if out = [] then None else Some out)
      | _ \<Rightarrow> None)"

definition anyStringSliceHTTPDefault :: "any_val option \<Rightarrow> string list \<Rightarrow> string list" where
  "anyStringSliceHTTPDefault v fallback = (case anyStringSliceHTTP v of Some xs \<Rightarrow> xs | None \<Rightarrow> fallback)"

definition anyMapSliceHTTPDefault :: "any_val option \<Rightarrow> any_map list \<Rightarrow> any_map list" where
  "anyMapSliceHTTPDefault v fallback =
     (case v of
        Some (AArr xs) \<Rightarrow>
          (let out = filter (\<lambda>m. m \<noteq> Map.empty) (map dec_obj xs) in if out = [] then fallback else out)
      | _ \<Rightarrow> fallback)"

fun unique_strings :: "string list \<Rightarrow> string list \<Rightarrow> string list" where
  "unique_strings seen [] = []"
| "unique_strings seen (v # vs) =
     (let t = TrimSpace v
      in if t = [] \<or> t \<in> set seen then unique_strings seen vs else t # unique_strings (t # seen) vs)"

definition objectiveUniqueStrings :: "string list \<Rightarrow> string list" where
  "objectiveUniqueStrings values = unique_strings [] values"

definition trimmed :: "any_map \<Rightarrow> string \<Rightarrow> string" where
  "trimmed m k = TrimSpace (asString (m k))"

section \<open>Iterations and the time budget\<close>

definition objectiveIteration :: "any_map \<Rightarrow> int" where
  "objectiveIteration m =
     (let iteration = objectiveAsInt (m ''objective_iteration'') 1 in if iteration \<le> 0 then 1 else iteration)"

definition objectiveMaxIterations :: "any_map \<Rightarrow> int" where
  "objectiveMaxIterations m =
     (let v = objectiveAsInt (m ''objective_max_iterations'') defaultObjectiveMaxIterations
      in if v \<le> 0 then defaultObjectiveMaxIterations else v)"

definition objectiveRemainingRetries :: "any_map \<Rightarrow> int" where
  "objectiveRemainingRetries m =
     (let iteration = objectiveIteration m; maxIterations = max (objectiveMaxIterations m) iteration
      in max 0 (maxIterations - iteration))"

text \<open>A time in metadata: \<open>None\<close> when the text is empty, \<open>Some None\<close> when it does not parse.\<close>

definition time_field :: "(string \<Rightarrow> instant option) \<Rightarrow> any_val option \<Rightarrow> instant option option" where
  "time_field parse v =
     (case v of
        Some (ATime t) \<Rightarrow> Some (Some t)
      | _ \<Rightarrow> (let s = TrimSpace (asString v) in if s = [] then None else Some (parse s)))"

definition objectiveTimeBudgetDetails :: "(string \<Rightarrow> instant option) \<Rightarrow> any_map \<Rightarrow> int \<times> instant \<times> bool" where
  "objectiveTimeBudgetDetails parse m =
     (let budgetSeconds = objectiveAsInt (m ''objective_time_budget_seconds'') 0
      in if budgetSeconds \<le> 0 then (0, 0, False)
         else
           (case time_field parse (m ''objective_deadline_at'') of
              Some (Some deadline) \<Rightarrow> (budgetSeconds, deadline, True)
            | Some None \<Rightarrow> (budgetSeconds, 0, False)
            | None \<Rightarrow>
                (case time_field parse (m ''objective_started_at'') of
                   Some (Some startedAt) \<Rightarrow> (budgetSeconds, startedAt + wrap64 (budgetSeconds * second), True)
                 | _ \<Rightarrow> (budgetSeconds, 0, False))))"

definition objectiveTimeBudgetExceeded :: "(string \<Rightarrow> instant option) \<Rightarrow> any_map \<Rightarrow> instant \<Rightarrow> bool" where
  "objectiveTimeBudgetExceeded parse m now =
     (case objectiveTimeBudgetDetails parse m of
        (_, deadline, ok) \<Rightarrow> if \<not> ok \<or> deadline = 0 then False else \<not> now < deadline)"

text \<open>\<^verbatim>\<open>Sub\<close> saturates at the largest duration; \<^verbatim>\<open>Seconds\<close> is computed in floating point, whose rounding is \<open>fl\<close>.\<close>

definition int_seconds :: "(real \<Rightarrow> real) \<Rightarrow> duration \<Rightarrow> int" where
  "int_seconds fl d = \<lfloor>fl (real_of_int (d div second) + fl (real_of_int (d mod second) / 1000000000))\<rfloor>"

definition objectiveRemainingBudgetSeconds ::
  "(string \<Rightarrow> instant option) \<Rightarrow> (real \<Rightarrow> real) \<Rightarrow> any_map \<Rightarrow> instant \<Rightarrow> (int \<times> int \<times> instant) option" where
  "objectiveRemainingBudgetSeconds parse fl m now =
     (case objectiveTimeBudgetDetails parse m of
        (budgetSeconds, deadline, ok) \<Rightarrow>
          if \<not> ok \<or> deadline = 0 then None
          else
            (let remaining = (if now < deadline
                              then max 0 (int_seconds fl (min (deadline - now) (2 ^ 63 - 1))) else 0)
             in Some (budgetSeconds, remaining, deadline)))"

definition objectiveTimeBudgetExceededReason :: "(instant \<Rightarrow> string) \<Rightarrow> int \<Rightarrow> instant \<Rightarrow> string" where
  "objectiveTimeBudgetExceededReason fmtTime budgetSeconds deadline =
     (if budgetSeconds \<le> 0 then ''Objective time budget exhausted.''
      else if deadline = 0
      then ''Objective time budget exhausted after '' @ Itoa budgetSeconds @ '' seconds.''
      else ''Objective time budget exhausted after '' @ Itoa budgetSeconds @ '' seconds (deadline '' @
           fmtTime deadline @ '').'')"

section \<open>The result of a bridge and the decision to repair\<close>

record bridge_result =
  rsStatus :: string
  rsSummary :: "string option"
  rsStdout :: "string option"
  rsStderr :: "string option"
  rsExitCode :: "int option"
  rsDiff :: "string option"
  rsChangedFiles :: "string list"
  rsTestResults :: any_map
  rsArtifacts :: "any_map list"
  rsErrorMessage :: "string option"
  rsActionType :: "string option"
  rsTargetResource :: "string option"
  rsTimeoutSeconds :: "int option"
  rsReviewDecision :: "string option"
  rsReviewComments :: "any_map list"
  rsFindings :: "any_map list"
  rsCapabilityUsage :: "any_map list"
  rsCapabilityHelped :: "string list"
  rsCapabilityNoise :: "string list"
  rsCapabilityDenied :: "string list"

definition result_status :: "bridge_result \<Rightarrow> string" where
  "result_status r = ToLower (TrimSpace (rsStatus r))"

definition shouldStartObjectiveRepairCycle ::
  "(string \<Rightarrow> instant option) \<Rightarrow> instant \<Rightarrow> task \<Rightarrow> bridge_result \<Rightarrow> bool" where
  "shouldStartObjectiveRepairCycle parse now t r =
     (if tInitiativeID t = None then False
      else if \<not> objectiveAsBool (tMetadata t ''objective_entrypoint'') then False
      else if objectiveAsBool (tMetadata t ''objective_baseline_validation'') then False
      else if objectiveTimeBudgetExceeded parse (tMetadata t) now then False
      else if objectiveMaxIterations (tMetadata t) \<le> objectiveIteration (tMetadata t) then False
      else
        (let kind = trimmed (tMetadata t) ''work_item_kind''
         in if kind = WorkItemKindValidate then result_status r \<noteq> ''success''
            else if kind = WorkItemKindReview
            then EqualFold (derefString (rsReviewDecision r)) ''changes_requested''
            else False))"

definition objectiveEffectiveResultStatus :: "task \<Rightarrow> bridge_result \<Rightarrow> string" where
  "objectiveEffectiveResultStatus t r =
     (if objectiveAsBool (tMetadata t ''objective_baseline_validation'') \<and> result_status r \<noteq> [] \<and>
         result_status r \<noteq> ''waiting_approval''
      then ''success'' else result_status r)"

definition objectiveNextExpectedAction :: "any_map \<Rightarrow> string \<Rightarrow> string \<Rightarrow> string \<Rightarrow> bool \<Rightarrow> string" where
  "objectiveNextExpectedAction m kind resultStatus reviewDecision needsRepair =
     (if needsRepair then ''replan''
      else if EqualFold resultStatus ''success'' then
        (if trimmed m ''objective_next_action_after_success'' \<noteq> []
         then trimmed m ''objective_next_action_after_success''
         else if kind = WorkItemKindResearch \<or> kind = WorkItemKindReplan then ''edit''
         else if kind = WorkItemKindAnalyze then ''edit''
         else if kind = WorkItemKindEdit then ''validate''
         else if kind = WorkItemKindValidate then ''review''
         else if kind = WorkItemKindReview \<and> EqualFold reviewDecision ''approved'' then ''close_initiative''
         else ''await_orchestrator'')
      else ''block_initiative'')"

definition objectiveStopReason :: "(string \<Rightarrow> instant option) \<Rightarrow> instant \<Rightarrow> any_map \<Rightarrow> int \<Rightarrow> int \<Rightarrow> string" where
  "objectiveStopReason parse now m iteration maxIterations =
     (if objectiveTimeBudgetExceeded parse m now then ''time_budget_exhausted''
      else if maxIterations \<le> iteration then ''retry_budget_exhausted''
      else ''execution_failed'')"

definition objectiveFailureLabel :: "bridge_result \<Rightarrow> string" where
  "objectiveFailureLabel r =
     (if EqualFold (derefString (rsReviewDecision r)) ''changes_requested'' then ''review requested changes''
      else if TrimSpace (derefString (rsErrorMessage r)) \<noteq> [] then TrimSpace (derefString (rsErrorMessage r))
      else if TrimSpace (derefString (rsSummary r)) \<noteq> [] then TrimSpace (derefString (rsSummary r))
      else ''an unresolved failure'')"

definition objectiveBlockerReason ::
  "(instant \<Rightarrow> string) \<Rightarrow> bridge_result \<Rightarrow> string \<Rightarrow> string \<Rightarrow> int \<Rightarrow> instant \<Rightarrow> string" where
  "objectiveBlockerReason fmtTime r repairFeedback stopReason budgetSeconds deadline =
     (if stopReason = ''time_budget_exhausted'' then objectiveTimeBudgetExceededReason fmtTime budgetSeconds deadline
      else if stopReason = ''retry_budget_exhausted''
      then ''Maximum repair iterations exhausted after '' @ objectiveFailureLabel r @ ''.''
      else if TrimSpace repairFeedback \<noteq> [] then TrimSpace repairFeedback
      else ''Objective execution failed without a remaining autonomous repair path.'')"

section \<open>What a repair is told\<close>

definition str_entry :: "string \<Rightarrow> string \<Rightarrow> any_map \<Rightarrow> any_map" where
  "str_entry k v m = (if v = [] then m else m(k \<mapsto> AStr v))"

definition maps_val :: "any_map list \<Rightarrow> any_val" where
  "maps_val ms = AArr (map AMap ms)"

definition comment_text :: "any_map \<Rightarrow> string list" where
  "comment_text c =
     (let message = trimmed c ''message''; severity = trimmed c ''severity''
      in if message = [] then []
         else if severity \<noteq> [] then [''['' @ severity @ ''] '' @ message] else [message])"

definition objectiveRepairFeedback :: "bridge_result \<Rightarrow> string" where
  "objectiveRepairFeedback r =
     (let summary = TrimSpace (derefString (rsSummary r)); message = TrimSpace (derefString (rsErrorMessage r));
          parts = (if summary \<noteq> [] then [summary] else []) @ (if message \<noteq> [] then [message] else []) @
                  concat (map comment_text (rsReviewComments r))
      in if parts = [] then ''Validation or review reported changes are required.'' else join_with [CHR 0x0A] parts)"

definition objectivePriorFindings :: "bridge_result \<Rightarrow> any_map list" where
  "objectivePriorFindings r = (if rsFindings r \<noteq> [] then rsFindings r else rsReviewComments r)"

definition finding_matches :: "string \<Rightarrow> any_map \<Rightarrow> bool" where
  "finding_matches path f \<longleftrightarrow>
     trimmed f ''message'' \<noteq> [] \<and>
     (path = [] \<or> (trimmed f ''path'' \<noteq> [] \<and> trimmed f ''path'' = path) \<or> Contains (trimmed f ''message'') path)"

definition objectiveFindingMessageForPath :: "any_map list \<Rightarrow> string \<Rightarrow> string" where
  "objectiveFindingMessageForPath findings path =
     (case find (finding_matches path) findings of None \<Rightarrow> [] | Some f \<Rightarrow> trimmed f ''message'')"

definition objectiveFirstFindingForPath :: "any_map list \<Rightarrow> string \<Rightarrow> any_map option" where
  "objectiveFirstFindingForPath findings path =
     (case find (finding_matches path) findings of
        Some f \<Rightarrow> Some f
      | None \<Rightarrow> (case findings of [] \<Rightarrow> None | f # _ \<Rightarrow> Some f))"

definition objectiveFirstFailureHypothesisForPath :: "any_map list \<Rightarrow> string \<Rightarrow> any_map option" where
  "objectiveFirstFailureHypothesisForPath hypotheses path =
     (case find (\<lambda>h. trimmed h ''path'' \<noteq> [] \<and> trimmed h ''path'' = path) hypotheses of
        Some h \<Rightarrow> Some h
      | None \<Rightarrow> (case hypotheses of [] \<Rightarrow> None | h # _ \<Rightarrow> Some h))"

definition failing_exit :: "bridge_result \<Rightarrow> int option" where
  "failing_exit r =
     (case objectiveAsIntOK (rsTestResults r ''exit_code'') of
        Some code \<Rightarrow> if code \<noteq> 0 then Some code else None | None \<Rightarrow> None)"

definition exit_evidence :: "int \<Rightarrow> string" where
  "exit_evidence code = ''Declared validation command exited with code '' @ Itoa code @ ''.''"

definition path_hypothesis :: "bridge_result \<Rightarrow> string \<Rightarrow> any_map" where
  "path_hypothesis r path =
     (let h0 = [''path'' \<mapsto> AStr path, ''failure_mode'' \<mapsto> AStr ''targeted_regression'', ''priority'' \<mapsto> AStr ''medium''];
          h1 = (case failing_exit r of
                  None \<Rightarrow> h0
                | Some code \<Rightarrow> h0(''failure_mode'' \<mapsto> AStr ''validation_failure'', ''priority'' \<mapsto> AStr ''high'',
                    ''evidence'' \<mapsto> AStr (exit_evidence code)))
      in case objectiveFirstFindingForPath (rsFindings r) path of
           None \<Rightarrow> h1
         | Some f \<Rightarrow> str_entry ''evidence'' (trimmed f ''message'')
             (str_entry ''priority'' (trimmed f ''severity'') (str_entry ''failure_mode'' (trimmed f ''kind'') h1)))"

definition objectiveRepairFailureHypotheses :: "bridge_result \<Rightarrow> string list \<Rightarrow> any_map list" where
  "objectiveRepairFailureHypotheses r suspectedPaths =
     (let paths = objectiveUniqueStrings suspectedPaths
      in if paths = [] \<and> rsFindings r = [] \<and> rsTestResults r = Map.empty then []
         else if paths = [] then
           (let h = [''failure_mode'' \<mapsto> AStr ''validation_failure'', ''priority'' \<mapsto> AStr ''high'']
            in [case failing_exit r of None \<Rightarrow> h | Some code \<Rightarrow> h(''evidence'' \<mapsto> AStr (exit_evidence code))])
         else map (path_hypothesis r) paths)"

definition intent_action :: "string \<Rightarrow> string" where
  "intent_action failureMode =
     (if failureMode = ''validation_failure'' then
        ''repair the validation failure in this file and rerun the declared test command before widening scope''
      else if failureMode = ''missing_diff'' then
        ''produce the missing code change in this file and verify the diff exists before review''
      else ''repair the failing behavior in this file and avoid unrelated edits'')"

definition path_intent :: "bridge_result \<Rightarrow> any_map list \<Rightarrow> string \<Rightarrow> any_map" where
  "path_intent r hypotheses path =
     (case objectiveFirstFailureHypothesisForPath hypotheses path of
        None \<Rightarrow> str_entry ''rationale'' (objectiveFindingMessageForPath (rsFindings r) path)
                  [''path'' \<mapsto> AStr path, ''action'' \<mapsto> AStr (intent_action [])]
      | Some h \<Rightarrow> str_entry ''rationale'' (trimmed h ''evidence'') (str_entry ''priority'' (trimmed h ''priority'')
                  (str_entry ''failure_mode'' (trimmed h ''failure_mode'')
                     [''path'' \<mapsto> AStr path, ''action'' \<mapsto> AStr (intent_action (trimmed h ''failure_mode''))])))"

definition objectiveRepairPatchIntent :: "bridge_result \<Rightarrow> string list \<Rightarrow> any_map list" where
  "objectiveRepairPatchIntent r suspectedPaths =
     (let hypotheses = objectiveRepairFailureHypotheses r suspectedPaths; paths = objectiveUniqueStrings suspectedPaths
      in if paths = [] \<and> rsFindings r = [] then []
         else if paths = [] then
           [[''action'' \<mapsto> AStr ''repair the highest-severity finding and keep the patch narrow'',
             ''rationale'' \<mapsto> AStr (objectiveFindingMessageForPath (rsFindings r) [])]]
         else map (path_intent r hypotheses) paths)"

section \<open>Which work items a repair gets\<close>

definition scope_kinds :: "string set" where
  "scope_kinds = {''planner_rejected_scope_contradicted'', ''planner_scope_contradicted'',
     ''research_scope_contradicted'', ''retrieval_scope_contradicted'', ''missing_diff''}"

fun add_type :: "string \<Rightarrow> string list \<Rightarrow> string list" where
  "add_type v ts = (if v \<in> set ts then ts else ts @ [v])"

definition finding_types :: "any_map \<Rightarrow> string list \<Rightarrow> string list" where
  "finding_types f ts =
     (let kind = trimmed f ''kind''
      in if kind \<in> scope_kinds then add_type ''lint'' (add_type ''complexity'' ts)
         else if kind = ''validation_failure'' then add_type ''security'' (add_type ''dependencies'' ts)
         else ts)"

definition objectiveRepairAnalysisTypes :: "bridge_result \<Rightarrow> string list" where
  "objectiveRepairAnalysisTypes r = fold finding_types (rsFindings r) []"

definition shouldInsertObjectiveCodeAnalysis :: "bridge_result \<Rightarrow> string list \<Rightarrow> bool" where
  "shouldInsertObjectiveCodeAnalysis r analysisTypes \<longleftrightarrow>
     analysisTypes \<noteq> [] \<and>
     list_ex (\<lambda>f. trimmed f ''kind'' \<in> scope_kinds \<or>
        (trimmed f ''kind'' = ''validation_failure'' \<and> rsChangedFiles r = [])) (rsFindings r)"

definition baseline_text :: "bridge_result \<Rightarrow> any_map \<Rightarrow> string option" where
  "baseline_text r f =
     (let kind = trimmed f ''kind''
      in if kind = ''retrieval_scope_contradicted'' then
           Some ''Reproduce the current validation state before the next repair edit because the latest diff contradicted the retrieved precedent carried into the attempt.''
         else if kind = ''planner_scope_contradicted'' then
           Some ''Reproduce the current validation state before the next repair edit because the latest diff contradicted the planner shortlist and the next scope must be re-anchored.''
         else if kind = ''planner_rejected_scope_contradicted'' then
           Some ''Reproduce the current validation state before the next repair edit because the last patch landed in a path the planner had rejected.''
         else if kind = ''missing_diff'' then
           Some ''Reproduce the current validation state before the next repair edit because the previous attempt did not leave a usable diff.''
         else if kind = ''validation_failure'' \<and> rsChangedFiles r = [] then
           Some ''Reproduce the current validation state before the next repair edit because validation failed without leaving a narrowed diff.''
         else None)"

definition shouldInsertObjectiveRepairBaselineValidation :: "bridge_result \<Rightarrow> bool" where
  "shouldInsertObjectiveRepairBaselineValidation r \<longleftrightarrow> list_ex (\<lambda>f. baseline_text r f \<noteq> None) (rsFindings r)"

definition objectiveRepairBaselineReason :: "bridge_result \<Rightarrow> string" where
  "objectiveRepairBaselineReason r =
     (case List.map_filter (baseline_text r) (rsFindings r) of
        [] \<Rightarrow> ''Reproduce the current validation state before the next repair edit.''
      | t # _ \<Rightarrow> t)"

record workstream =
  wsID :: string
  wsName :: string
  wsTitle :: string
  wsDescription :: string
  wsDefinitionOfDone :: string
  wsPaths :: "string list"

definition sync_workstreams :: "string set" where
  "sync_workstreams = {''documentation_sync'', ''config_sync'', ''dependency_sync''}"

definition workstream_of :: "work_item \<Rightarrow> workstream option" where
  "workstream_of i =
     (let name = trimmed (iMetadata i) ''objective_workstream''; wid = TrimSpace (iID i);
          paths = objectiveUniqueStrings (iSuspectedPaths i)
      in if iKind i \<noteq> WorkItemKindEdit \<or> name \<notin> sync_workstreams \<or> wid = [] \<or> wid = ''edit'' \<or> paths = [] then None
         else Some \<lparr>wsID = wid, wsName = name, wsTitle = iTitle i, wsDescription = iDescription i,
                    wsDefinitionOfDone = iDefinitionOfDone i, wsPaths = paths\<rparr>)"

definition objectiveRepairSecondaryWorkstreams :: "execution_contract \<Rightarrow> workstream list" where
  "objectiveRepairSecondaryWorkstreams c = List.map_filter workstream_of (ecWorkItems c)"

section \<open>The next iteration\<close>

definition nl2 :: string where
  "nl2 = [CHR 0x0A, CHR 0x0A]"

definition step_id :: "string \<Rightarrow> int \<Rightarrow> string" where
  "step_id name iteration = name @ ''-'' @ Itoa iteration"

definition aider_argv :: "string \<Rightarrow> string \<Rightarrow> string \<Rightarrow> any_val" where
  "aider_argv taskID project description =
     AStrs [''aider-task'', ''--task-id'', taskID, ''--repo'', project, ''--description'', description]"

definition repair_metadata ::
  "task \<Rightarrow> bridge_result \<Rightarrow> string list \<Rightarrow> any_map" where
  "repair_metadata t r suspectedPaths =
     (let base = (tMetadata t)(''objective_iteration'' \<mapsto> AInt (objectiveIteration (tMetadata t) + 1),
            ''objective_max_iterations'' \<mapsto> AInt (objectiveMaxIterations (tMetadata t)),
            ''objective_repair_origin_task_id'' \<mapsto> AStr (tID t),
            ''objective_repair_feedback'' \<mapsto> AStr (objectiveRepairFeedback r),
            ''review_comments'' \<mapsto> maps_val (rsReviewComments r),
            ''objective_findings'' \<mapsto> maps_val (rsFindings r),
            ''objective_failure_hypotheses'' \<mapsto> maps_val (objectiveRepairFailureHypotheses r suspectedPaths),
            ''objective_patch_intent'' \<mapsto> maps_val (objectiveRepairPatchIntent r suspectedPaths))
      in case rsReviewDecision r of None \<Rightarrow> base | Some d \<Rightarrow> base(''review_decision'' \<mapsto> AStr (TrimSpace d)))"

text \<open>An item that a local bridge runs; the caller fills in what differs.\<close>

definition local_item :: "string \<Rightarrow> string \<Rightarrow> string \<Rightarrow> any_map \<Rightarrow> work_item" where
  "local_item wid kind agent m =
     \<lparr>iID = wid, iKind = kind, iTitle = [], iDescription = [], iAssignedAgent = agent,
      iExecutionMode = TaskLaunchModeAgentLocal, iExecutionTarget = ExecutionTargetLocal,
      iBackend = ''local_bridge'', iDependsOn = [], iApprovalRequired = False, iDefinitionOfDone = [],
      iValidationCommands = [], iSuspectedPaths = [], iToolRequest = None, iMetadata = m\<rparr>"

record repair_plan =
  rpIteration :: int
  rpTask :: task
  rpResult :: bridge_result
  rpContract :: execution_contract
  rpWorkspaceRoot :: string
  rpProjectRoot :: string
  rpProjectName :: string
  rpCommands :: "string list"
  rpPaths :: "string list"
  rpRequest :: any_map
  rpBase :: any_map

definition repair_plan_of :: "execution_contract \<Rightarrow> task \<Rightarrow> bridge_result \<Rightarrow> repair_plan" where
  "repair_plan_of c t r =
     (let m = tMetadata t; iteration = objectiveIteration m + 1; projectRequest = asMap (m ''project_request'');
          workspaceRoot = firstNonEmptyString [TrimSpace (ecWorkspaceRoot c), trimmed m ''workspace_root''];
          commands = (if ecValidationCommands c = []
             then anyStringSliceHTTPDefault (m ''validation_commands'') [''git'', ''diff'', ''--no-ext-diff'']
             else ecValidationCommands c);
          suspected = (if ecSuspectedPaths c = [] then anyStringSliceHTTPDefault (m ''suspected_paths'') []
             else ecSuspectedPaths c);
          paths = objectiveUniqueStrings (if rsChangedFiles r \<noteq> [] then rsChangedFiles r else suspected)
      in \<lparr>rpIteration = iteration, rpTask = t, rpResult = r, rpContract = c, rpWorkspaceRoot = workspaceRoot,
          rpProjectRoot = firstNonEmptyString [trimmed projectRequest ''project_root'', ''.''],
          rpProjectName = firstNonEmptyString
             [trimmed projectRequest ''project_name'', path_base workspaceRoot, ''repo''],
          rpCommands = commands, rpPaths = paths,
          rpRequest = projectRequest(''goal'' \<mapsto> AStr (ecNormalizedObjective c @ nl2 @
                ''Address the latest repair feedback:'' @ [CHR 0x0A] @ objectiveRepairFeedback r),
             ''test_focus'' \<mapsto> AStr (''objective repair iteration '' @ Itoa iteration),
             ''test_command'' \<mapsto> AStrs commands, ''expected_files'' \<mapsto> AStrs paths),
          rpBase = repair_metadata t r paths\<rparr>)"

definition with_request :: "repair_plan \<Rightarrow> any_map" where
  "with_request p = (rpBase p)(''project_request'' \<mapsto> AMap (rpRequest p))"

definition replan_item :: "repair_plan \<Rightarrow> work_item" where
  "replan_item p =
     (let n = Itoa (rpIteration p); r = rpResult p
      in (local_item (step_id ''replan'' (rpIteration p)) WorkItemKindReplan AgentTypeResearcher (with_request p))
       \<lparr>iTitle := ''Replan objective iteration '' @ n,
        iDescription := ''Summarize the latest validation and review findings for repair iteration '' @ n @ ''.'',
        iDefinitionOfDone := ''Repair findings are summarized and persisted for the next edit attempt.'',
        iSuspectedPaths := rpPaths p,
        iToolRequest := Some [''tool'' \<mapsto> AStr ''research_project'', ''project_request'' \<mapsto> AMap (rpRequest p),
          ''prior_findings'' \<mapsto> maps_val (objectivePriorFindings r), ''prior_test_results'' \<mapsto> AMap (rsTestResults r),
          ''prior_changed_files'' \<mapsto> AStrs (rsChangedFiles r),
          ''repair_feedback'' \<mapsto> AStr (objectiveRepairFeedback r),
          ''failure_hypotheses'' \<mapsto> maps_val (objectiveRepairFailureHypotheses r (rpPaths p)),
          ''patch_intent'' \<mapsto> maps_val (objectiveRepairPatchIntent r (rpPaths p))]\<rparr>)"

definition baseline_item :: "repair_plan \<Rightarrow> work_item" where
  "baseline_item p =
     (let n = rpIteration p
      in (local_item (step_id ''validate-baseline'' n) WorkItemKindValidate AgentTypeReviewer
           ((with_request p)(''objective_baseline_validation'' \<mapsto> ABool True,
              ''objective_baseline_reason'' \<mapsto> AStr (objectiveRepairBaselineReason (rpResult p)),
              ''objective_next_action_after_success'' \<mapsto> AStr ''edit'')))
       \<lparr>iTitle := ''Reproduce baseline before repair iteration '' @ Itoa n,
        iDescription := objectiveRepairBaselineReason (rpResult p), iDependsOn := [step_id ''replan'' n],
        iDefinitionOfDone := ''Baseline validation evidence is refreshed before the next repair edit.'',
        iValidationCommands := rpCommands p, iSuspectedPaths := rpPaths p,
        iToolRequest := Some [''tool'' \<mapsto> AStr ''run_tests'', ''argv'' \<mapsto> AStrs (rpCommands p)]\<rparr>)"

definition analyze_item :: "repair_plan \<Rightarrow> work_item" where
  "analyze_item p =
     (let n = rpIteration p; types = objectiveRepairAnalysisTypes (rpResult p)
      in (local_item (step_id ''analyze'' n) WorkItemKindAnalyze AgentTypeReviewer
           ((with_request p)(''objective_analysis_types'' \<mapsto> AStrs types,
              ''objective_next_action_after_success'' \<mapsto> AStr ''edit'')))
       \<lparr>iTitle := ''Analyze repair iteration '' @ Itoa n,
        iDescription := ''Run static analysis before the next repair edit because the latest findings suggest a structural issue.'',
        iDependsOn := [step_id ''replan'' n],
        iDefinitionOfDone := ''Static analysis findings are persisted and available to the next edit.'',
        iSuspectedPaths := rpPaths p,
        iToolRequest := Some [''tool'' \<mapsto> AStr ''code_analysis'', ''project_root'' \<mapsto> AStr (rpProjectRoot p),
          ''analysis_types'' \<mapsto> AStrs types]\<rparr>)"

definition edit_item :: "repair_plan \<Rightarrow> string list \<Rightarrow> work_item" where
  "edit_item p dependsOn =
     (let n = rpIteration p;
          description = ecNormalizedObjective (rpContract p) @ nl2 @
            ''Address this repair feedback before finishing:'' @ [CHR 0x0A] @ objectiveRepairFeedback (rpResult p)
      in (local_item (step_id ''edit'' n) WorkItemKindEdit AgentTypeCoder (with_request p))
       \<lparr>iTitle := ''Apply repair iteration '' @ Itoa n @ '' with aider'', iDescription := description,
        iBackend := ''aider-task'', iDependsOn := dependsOn, iApprovalRequired := True,
        iDefinitionOfDone := ''Aider addresses the latest findings and produces a fresh diff.'',
        iValidationCommands := rpCommands p, iSuspectedPaths := rpPaths p,
        iToolRequest := Some [''tool'' \<mapsto> AStr ''run_command'',
          ''argv'' \<mapsto> aider_argv (step_id (tID (rpTask p)) n) (rpProjectName p) description]\<rparr>)"

definition workstream_item :: "repair_plan \<Rightarrow> string \<Rightarrow> workstream \<Rightarrow> work_item" where
  "workstream_item p dep w =
     (let n = rpIteration p;
          request = (rpRequest p)(''expected_files'' \<mapsto> AStrs (wsPaths w), ''goal'' \<mapsto> AStr (wsDescription w))
      in (local_item (step_id (wsID w) n) WorkItemKindEdit AgentTypeCoder
           ((with_request p)(''objective_workstream'' \<mapsto> AStr (wsName w), ''suspected_paths'' \<mapsto> AStrs (wsPaths w),
              ''project_request'' \<mapsto> AMap request)))
       \<lparr>iTitle := wsTitle w, iDescription := wsDescription w, iBackend := ''aider-task'',
        iDependsOn := [dep], iApprovalRequired := True, iDefinitionOfDone := wsDefinitionOfDone w,
        iValidationCommands := rpCommands p, iSuspectedPaths := wsPaths w,
        iToolRequest := Some [''tool'' \<mapsto> AStr ''run_command'',
          ''argv'' \<mapsto> aider_argv (step_id (tID (rpTask p) @ ''-'' @ wsID w) n) (rpProjectName p) (wsDescription w)]\<rparr>)"

fun workstream_items :: "repair_plan \<Rightarrow> string \<Rightarrow> string list \<Rightarrow> workstream list \<Rightarrow> work_item list \<times> string \<times> string list" where
  "workstream_items p dep paths [] = ([], dep, paths)"
| "workstream_items p dep paths (w # ws) =
     (case workstream_items p (step_id (wsID w) (rpIteration p)) (objectiveUniqueStrings (paths @ wsPaths w)) ws of
        (items, rest) \<Rightarrow> (workstream_item p dep w # items, rest))"

definition validate_item :: "repair_plan \<Rightarrow> string \<Rightarrow> string list \<Rightarrow> work_item" where
  "validate_item p dep paths =
     (let n = rpIteration p
      in (local_item (step_id ''validate'' n) WorkItemKindValidate AgentTypeReviewer (with_request p))
       \<lparr>iTitle := ''Run validation for iteration '' @ Itoa n,
        iDescription := ''Execute validation again after the repair edit.'', iDependsOn := [dep],
        iDefinitionOfDone := ''Validation output is persisted for the repaired change set.'',
        iValidationCommands := rpCommands p, iSuspectedPaths := paths,
        iToolRequest := Some [''tool'' \<mapsto> AStr ''run_tests'', ''argv'' \<mapsto> AStrs (rpCommands p)]\<rparr>)"

definition review_item :: "repair_plan \<Rightarrow> string list \<Rightarrow> work_item" where
  "review_item p paths =
     (let n = rpIteration p; c = rpContract p
      in (local_item (step_id ''review'' n) WorkItemKindReview AgentTypeReviewer (with_request p))
       \<lparr>iTitle := ''Review repair iteration '' @ Itoa n,
        iDescription := ''Review the repaired diff and validation evidence.'',
        iDependsOn := [step_id ''validate'' n],
        iDefinitionOfDone := ''Review decides whether the repaired iteration is approved.'',
        iValidationCommands := rpCommands p, iSuspectedPaths := paths,
        iToolRequest := Some [''tool'' \<mapsto> AStr ''review_workspace'', ''project_root'' \<mapsto> AStr (rpProjectRoot p),
          ''test_command'' \<mapsto> AStrs (rpCommands p),
          ''execution_contract'' \<mapsto> AMap [''title'' \<mapsto> AStr (ecTitle c),
             ''normalized_objective'' \<mapsto> AStr (ecNormalizedObjective c),
             ''workspace_root'' \<mapsto> AStr (rpWorkspaceRoot p), ''iteration'' \<mapsto> AInt n,
             ''repair_feedback'' \<mapsto> AStr (objectiveRepairFeedback (rpResult p))]]\<rparr>)"

definition plan_items :: "repair_plan \<Rightarrow> work_item list" where
  "plan_items p =
     (let r = rpResult p; n = rpIteration p;
          baseline = (if shouldInsertObjectiveRepairBaselineValidation r then [baseline_item p] else []);
          analysis = (if shouldInsertObjectiveCodeAnalysis r (objectiveRepairAnalysisTypes r) then [analyze_item p] else []);
          editDependsOn = step_id ''replan'' n # map iID baseline @ map iID analysis
      in case workstream_items p (step_id ''edit'' n) (objectiveUniqueStrings (rpPaths p))
                (objectiveRepairSecondaryWorkstreams (rpContract p)) of
           (streams, finalEditID, finalValidatePaths) \<Rightarrow>
             replan_item p # baseline @ analysis @ edit_item p editDependsOn # streams @
             [validate_item p finalEditID finalValidatePaths, review_item p finalValidatePaths])"

definition buildObjectiveRepairCycle :: "execution_contract \<Rightarrow> task \<Rightarrow> bridge_result \<Rightarrow> work_item list result" where
  "buildObjectiveRepairCycle c t r =
     (let p = repair_plan_of c t r
      in if rpWorkspaceRoot p = [] then Inl ''workspace_root is required to build repair cycle''
         else Inr (plan_items p))"

section \<open>Decoding a stored contract\<close>

definition json_nf :: "any_map \<Rightarrow> bool" where
  "json_nf m \<longleftrightarrow> (\<forall>k v. m k = Some v \<longrightarrow> json_rt v = v)"

lemma json_rt_idem [simp]: "json_rt (json_rt v) = json_rt v"
proof (induction v)
  case (AMap m)
  have "map_option json_rt (map_option json_rt (m k)) = map_option json_rt (m k)" for k
  proof (cases "m k")
    case (Some v)
    then have "json_rt (json_rt v) = json_rt v" by (intro AMap [of "Some v"]) (auto intro: range_eqI [of _ _ k])
    with Some show ?thesis by simp
  qed simp
  then show ?case by simp
qed (auto simp: comp_def)

lemma json_rt_AMap: "json_nf m \<Longrightarrow> json_rt (AMap m) = AMap m"
proof -
  assume m: "json_nf m"
  have "map_option json_rt (m k) = m k" for k
    using m by (cases "m k") (auto simp: json_nf_def)
  then show ?thesis by simp
qed

lemma json_rt_strs [simp]: "json_rt (strs_val xs) = strs_val xs"
  by (simp add: strs_val_def)

lemma json_nf_empty [simp, intro]: "json_nf Map.empty"
  by (simp add: json_nf_def)

lemma json_nf_upd [intro]: "json_nf m \<Longrightarrow> json_rt v = v \<Longrightarrow> json_nf (m(k \<mapsto> v))"
  by (auto simp: json_nf_def)

lemma json_nf_opt [intro]:
  "json_nf m \<Longrightarrow> json_nf (opt_str k s m)"
  "json_nf m \<Longrightarrow> json_nf (opt_int k i m)"
  "json_nf m \<Longrightarrow> json_nf (opt_strs k ss m)"
  "json_nf m \<Longrightarrow> \<forall>v \<in> set vs. json_rt v = v \<Longrightarrow> json_nf (opt_vals k vs m)"
  "json_nf m \<Longrightarrow> json_nf (opt_map k om m)"
  by (auto simp: opt_str_def opt_int_def opt_strs_def opt_vals_def opt_map_def map_idI simp del: json_rt.simps(8)
      intro!: json_nf_upd split: option.splits)

lemma json_rt_work_item [simp]: "json_rt (work_item_json i) = work_item_json i"
  unfolding work_item_json_def by (intro json_rt_AMap json_nf_opt json_nf_upd json_nf_empty) simp_all

lemma json_rt_scope [simp]: "json_rt (scope_json h) = scope_json h"
  unfolding scope_json_def by (intro json_rt_AMap json_nf_opt json_nf_upd json_nf_empty) simp_all

lemma json_rt_contract [simp]: "json_rt (contract_json c) = contract_json c"
  unfolding contract_json_def
  by (intro json_rt_AMap json_nf_opt json_nf_upd json_nf_empty) (simp_all add: map_idI)

lemma opt_apply [simp]:
  "opt_str k v m k' = (if k' = k \<and> v \<noteq> [] then Some (AStr v) else m k')"
  "opt_int k i m k' = (if k' = k \<and> i \<noteq> 0 then Some (AInt i) else m k')"
  "opt_strs k vs m k' = (if k' = k \<and> vs \<noteq> [] then Some (strs_val vs) else m k')"
  "opt_vals k ws m k' = (if k' = k \<and> ws \<noteq> [] then Some (AArr ws) else m k')"
  "opt_map k (Some x) m k' = (if k' = k \<and> x \<noteq> Map.empty then Some (AMap (json_map x)) else m k')"
  "opt_map k None m k' = m k'"
  by (auto simp: opt_str_def opt_int_def opt_strs_def opt_vals_def opt_map_def json_map_def)

lemma dec_simps [simp]:
  "asString (Some (AStr s)) = s" "asString None = []"
  "dec_bool (Some (ABool b)) = b" "dec_int (Some (AInt i)) = i" "dec_int None = 0"
  "dec_list (Some (AArr vs)) = vs" "dec_list None = []"
  "dec_strs (Some (strs_val ss)) = ss" "dec_strs None = []"
  "dec_map (Some (AMap m)) = Some m" "dec_map None = None" "asMap (Some (AMap m)) = m" "asMap None = Map.empty"
  "dec_obj (AMap m) = m"
  by (simp_all add: asString_def dec_bool_def dec_int_def dec_list_def dec_strs_def dec_map_def dec_obj_def
      asMap_def strs_val_def comp_def)

lemma ok_simps [simp]:
  "str_ok None" "str_ok (Some (AStr s))" "bool_ok (Some (ABool b))" "int_ok None" "int_ok (Some (AInt i))"
  "map_ok None" "map_ok (Some (AMap m))" "list_ok P None" "list_ok P (Some (AArr vs)) = list_all P vs"
  "strs_ok (Some (strs_val ss))" "obj_ok Q (AMap m) = Q m"
  by (auto simp: str_ok_def bool_ok_def int_ok_def map_ok_def list_ok_def obj_ok_def strs_val_def list_all_iff)

definition normal_item :: "work_item \<Rightarrow> work_item" where
  "normal_item i = i\<lparr>iToolRequest := (case iToolRequest i of None \<Rightarrow> None
       | Some m \<Rightarrow> if m = Map.empty then None else Some (json_map m)), iMetadata := json_map (iMetadata i)\<rparr>"

definition normal_contract :: "execution_contract \<Rightarrow> execution_contract" where
  "normal_contract c = c\<lparr>ecWorkItems := map normal_item (ecWorkItems c)\<rparr>"

lemma json_map_empty [simp]: "json_map Map.empty = Map.empty"
  by (simp add: json_map_def)

lemma work_item_back: "work_item_of (dec_obj (work_item_json i)) = normal_item i"
  by (cases "iToolRequest i") (simp_all add: work_item_json_def work_item_of_def normal_item_def)

lemma work_item_json_ok: "obj_ok work_item_ok (work_item_json i)"
  by (cases "iToolRequest i") (simp_all add: work_item_json_def work_item_ok_def)

lemma scope_back: "scope_of (dec_obj (scope_json h)) = h"
  by (simp add: scope_json_def scope_of_def)

lemma scope_json_ok: "obj_ok scope_ok (scope_json h)"
  by (simp add: scope_json_def scope_ok_def)

section \<open>The shape of a repair cycle\<close>

text \<open>
  \<open>declared_before seen items\<close>: every dependency names an item that comes earlier (or one of
  \<open>seen\<close>). \<open>waits_for items\<close> relates an item to what it depends on directly.
\<close>

fun declared_before :: "string set \<Rightarrow> work_item list \<Rightarrow> bool" where
  "declared_before seen [] \<longleftrightarrow> True"
| "declared_before seen (i # is) \<longleftrightarrow>
     set (iDependsOn i) \<subseteq> seen \<and> declared_before (insert (iID i) seen) is"

definition waits_for :: "work_item list \<Rightarrow> (string \<times> string) set" where
  "waits_for items = (\<Union>i \<in> set items. Pair (iID i) ` set (iDependsOn i))"

lemma declared_before_append:
  "declared_before seen (xs @ ys) \<longleftrightarrow> declared_before seen xs \<and> declared_before (seen \<union> iID ` set xs) ys"
  by (induction xs arbitrary: seen) (auto simp: Un_commute)

lemma waits_forI: "i \<in> set items \<Longrightarrow> d \<in> set (iDependsOn i) \<Longrightarrow> (iID i, d) \<in> waits_for items"
  by (auto simp: waits_for_def)

lemma local_item_simps [simp]:
  "iID (local_item w k a m) = w" "iKind (local_item w k a m) = k" "iMetadata (local_item w k a m) = m"
  "iDependsOn (local_item w k a m) = []" "iApprovalRequired (local_item w k a m) = False"
  "iExecutionTarget (local_item w k a m) = ExecutionTargetLocal"
  "iExecutionMode (local_item w k a m) = TaskLaunchModeAgentLocal"
  by (simp_all add: local_item_def)

lemmas item_defs = replan_item_def baseline_item_def analyze_item_def edit_item_def workstream_item_def
  validate_item_def review_item_def Let_def

lemma item_ids [simp]:
  "iID (replan_item p) = step_id ''replan'' (rpIteration p)"
  "iID (baseline_item p) = step_id ''validate-baseline'' (rpIteration p)"
  "iID (analyze_item p) = step_id ''analyze'' (rpIteration p)"
  "iID (edit_item p ds) = step_id ''edit'' (rpIteration p)"
  "iID (workstream_item p d w) = step_id (wsID w) (rpIteration p)"
  "iID (validate_item p d ps) = step_id ''validate'' (rpIteration p)"
  "iID (review_item p ps) = step_id ''review'' (rpIteration p)"
  by (simp_all add: item_defs)

lemma item_dependencies [simp]:
  "iDependsOn (replan_item p) = []"
  "iDependsOn (baseline_item p) = [step_id ''replan'' (rpIteration p)]"
  "iDependsOn (analyze_item p) = [step_id ''replan'' (rpIteration p)]"
  "iDependsOn (edit_item p ds) = ds"
  "iDependsOn (workstream_item p d w) = [d]"
  "iDependsOn (validate_item p d ps) = [d]"
  "iDependsOn (review_item p ps) = [step_id ''validate'' (rpIteration p)]"
  by (simp_all add: item_defs)

lemma workstream_ids:
  "workstream_items p dep ps ws = (items, fin, ps') \<Longrightarrow>
     map iID items = map (\<lambda>w. step_id (wsID w) (rpIteration p)) ws"
  by (induction ws arbitrary: dep ps items) (auto split: prod.splits)

lemma workstream_member:
  "workstream_items p dep ps ws = (items, fin, ps') \<Longrightarrow> i \<in> set items \<Longrightarrow> \<exists>d. \<exists>w \<in> set ws. i = workstream_item p d w"
  by (induction ws arbitrary: dep ps items) (auto split: prod.splits, blast+)

lemma workstream_declared:
  "workstream_items p dep ps ws = (items, fin, ps') \<Longrightarrow> dep \<in> seen \<Longrightarrow>
     declared_before seen items \<and> fin \<in> seen \<union> iID ` set items"
proof (induction ws arbitrary: dep ps items seen)
  case (Cons w ws)
  obtain rest where r: "workstream_items p (step_id (wsID w) (rpIteration p)) (objectiveUniqueStrings (ps @ wsPaths w)) ws
      = (rest, fin, ps')" and i: "items = workstream_item p dep w # rest"
    using Cons.prems(1) by (auto split: prod.splits)
  show ?case using Cons.IH [OF r, of "insert (step_id (wsID w) (rpIteration p)) seen"] Cons.prems(2) by (auto simp: i)
qed simp

lemma workstream_chain:
  "workstream_items p dep ps ws = (items, fin, ps') \<Longrightarrow> waits_for items \<subseteq> R \<Longrightarrow>
     (fin, dep) \<in> R\<^sup>* \<and> (\<forall>i \<in> set items. (fin, iID i) \<in> R\<^sup>*)"
proof (induction ws arbitrary: dep ps items)
  case (Cons w ws)
  obtain rest where r: "workstream_items p (step_id (wsID w) (rpIteration p)) (objectiveUniqueStrings (ps @ wsPaths w)) ws
      = (rest, fin, ps')" and i: "items = workstream_item p dep w # rest"
    using Cons.prems(1) by (auto split: prod.splits)
  have "waits_for rest \<subseteq> R" using Cons.prems(2) by (auto simp: i waits_for_def)
  from Cons.IH [OF r this] have ih: "(fin, step_id (wsID w) (rpIteration p)) \<in> R\<^sup>*" "\<forall>i \<in> set rest. (fin, iID i) \<in> R\<^sup>*"
    by simp_all
  have "(step_id (wsID w) (rpIteration p), dep) \<in> R" using Cons.prems(2) by (auto simp: i waits_for_def)
  with ih show ?case by (auto simp: i intro: rtrancl_into_rtrancl)
qed simp

lemma plan_items_split:
  obtains B A streams fin ps where
    "plan_items p = replan_item p # B @ A @
       edit_item p (step_id ''replan'' (rpIteration p) # map iID B @ map iID A) # streams @ [validate_item p fin ps, review_item p ps]"
    and "B = [] \<or> B = [baseline_item p]" and "A = [] \<or> A = [analyze_item p]"
    and "workstream_items p (step_id ''edit'' (rpIteration p)) (objectiveUniqueStrings (rpPaths p))
       (objectiveRepairSecondaryWorkstreams (rpContract p)) = (streams, fin, ps)"
  by (cases "workstream_items p (step_id ''edit'' (rpIteration p)) (objectiveUniqueStrings (rpPaths p))
       (objectiveRepairSecondaryWorkstreams (rpContract p))")
     (auto simp: plan_items_def Let_def intro: that)

lemma plan_items_declared: "declared_before {} (plan_items p)"
proof -
  obtain B A streams fin ps where p: "plan_items p = replan_item p # B @ A @
       edit_item p (step_id ''replan'' (rpIteration p) # map iID B @ map iID A) # streams @ [validate_item p fin ps, review_item p ps]"
    and B: "B = [] \<or> B = [baseline_item p]" and A: "A = [] \<or> A = [analyze_item p]"
    and s: "workstream_items p (step_id ''edit'' (rpIteration p)) (objectiveUniqueStrings (rpPaths p))
       (objectiveRepairSecondaryWorkstreams (rpContract p)) = (streams, fin, ps)"
    by (rule plan_items_split)
  let ?seen = "insert (step_id ''edit'' (rpIteration p)) (insert (step_id ''replan'' (rpIteration p)) (iID ` set B \<union> iID ` set A))"
  have "declared_before ?seen streams \<and> fin \<in> ?seen \<union> iID ` set streams" by (rule workstream_declared [OF s]) simp
  then show ?thesis using B A by (auto simp: p declared_before_append insert_commute Un_insert_left)
qed

lemma plan_items_review_last:
  "last (plan_items p) \<in> set (plan_items p)" "iID (last (plan_items p)) = step_id ''review'' (rpIteration p)"
  by (rule plan_items_split [of p], simp)+

lemma plan_items_wait:
  assumes "i \<in> set (butlast (plan_items p))"
  shows "(step_id ''review'' (rpIteration p), iID i) \<in> (waits_for (plan_items p))\<^sup>+"
proof -
  obtain B A streams fin ps where p: "plan_items p = replan_item p # B @ A @
       edit_item p (step_id ''replan'' (rpIteration p) # map iID B @ map iID A) # streams @ [validate_item p fin ps, review_item p ps]"
    and s: "workstream_items p (step_id ''edit'' (rpIteration p)) (objectiveUniqueStrings (rpPaths p))
       (objectiveRepairSecondaryWorkstreams (rpContract p)) = (streams, fin, ps)"
    by (rule plan_items_split)
  let ?R = "waits_for (plan_items p)" and ?n = "rpIteration p"
  have rv: "(step_id ''review'' ?n, step_id ''validate'' ?n) \<in> ?R" and vf: "(step_id ''validate'' ?n, fin) \<in> ?R"
    by (simp_all add: waits_for_def p)
  have "waits_for streams \<subseteq> ?R" by (auto simp: waits_for_def p)
  note ch = workstream_chain [OF s this]
  have ed: "(step_id ''edit'' ?n, d) \<in> ?R" if "d \<in> insert (step_id ''replan'' ?n) (iID ` (set B \<union> set A))" for d
    using that by (auto simp: waits_for_def p)
  have rf: "(step_id ''review'' ?n, fin) \<in> ?R\<^sup>+" using rv vf by (rule trancl_into_trancl [OF r_into_trancl])
  have re: "(step_id ''review'' ?n, step_id ''edit'' ?n) \<in> ?R\<^sup>+" using rf ch by (metis trancl_rtrancl_trancl)
  have "i \<in> set streams \<or> iID i = step_id ''validate'' ?n \<or> iID i = step_id ''edit'' ?n \<or>
      iID i \<in> insert (step_id ''replan'' ?n) (iID ` (set B \<union> set A))"
    using assms by (auto simp: p butlast_append split: if_splits)
  then show ?thesis
  proof (elim disjE)
    assume "i \<in> set streams"
    then show ?thesis using rf ch by (metis trancl_rtrancl_trancl)
  next
    assume "iID i = step_id ''validate'' ?n"
    then show ?thesis using rv by auto
  next
    assume "iID i = step_id ''edit'' ?n"
    then show ?thesis using re by simp
  next
    assume "iID i \<in> insert (step_id ''replan'' ?n) (iID ` (set B \<union> set A))"
    then show ?thesis using re ed by (metis trancl_into_trancl)
  qed
qed


lemma plan_item_cases:
  assumes "i \<in> set (plan_items p)"
  obtains "i = replan_item p" | "i = baseline_item p" | "i = analyze_item p" | ds where "i = edit_item p ds"
  | d w where "i = workstream_item p d w" "w \<in> set (objectiveRepairSecondaryWorkstreams (rpContract p))"
  | d ps where "i = validate_item p d ps" | ps where "i = review_item p ps"
proof -
  obtain B A streams fin ps where p: "plan_items p = replan_item p # B @ A @
       edit_item p (step_id ''replan'' (rpIteration p) # map iID B @ map iID A) # streams @ [validate_item p fin ps, review_item p ps]"
    and B: "B = [] \<or> B = [baseline_item p]" and A: "A = [] \<or> A = [analyze_item p]"
    and s: "workstream_items p (step_id ''edit'' (rpIteration p)) (objectiveUniqueStrings (rpPaths p))
       (objectiveRepairSecondaryWorkstreams (rpContract p)) = (streams, fin, ps)"
    by (rule plan_items_split)
  from assms B A consider "i = replan_item p" | "i = baseline_item p" | "i = analyze_item p"
    | "i = edit_item p (step_id ''replan'' (rpIteration p) # map iID B @ map iID A)" | "i \<in> set streams"
    | "i = validate_item p fin ps" | "i = review_item p ps"
    by (auto simp: p)
  then show thesis
  proof cases
    case 5
    from workstream_member [OF s this] show thesis by (elim exE bexE) (rule that(5))
  qed (rule that; assumption)+
qed

text \<open>What every item of a cycle carries over from the task that asked for it.\<close>

lemma repair_metadata_iteration:
  "repair_metadata t r ps ''objective_iteration'' = Some (AInt (objectiveIteration (tMetadata t) + 1))"
  "repair_metadata t r ps ''objective_max_iterations'' = Some (AInt (objectiveMaxIterations (tMetadata t)))"
  by (simp_all add: repair_metadata_def Let_def split: option.split)

lemma repair_metadata_other:
  "k \<notin> {''objective_iteration'', ''objective_max_iterations'', ''objective_repair_origin_task_id'',
     ''objective_repair_feedback'', ''review_comments'', ''objective_findings'', ''objective_failure_hypotheses'',
     ''objective_patch_intent'', ''review_decision''} \<Longrightarrow> repair_metadata t r ps k = tMetadata t k"
  by (simp add: repair_metadata_def Let_def split: option.split)

lemma plan_item_metadata:
  assumes "i \<in> set (plan_items p)"
    and "k \<notin> {''project_request'', ''objective_baseline_validation'', ''objective_baseline_reason'',
      ''objective_next_action_after_success'', ''objective_analysis_types'', ''objective_workstream'', ''suspected_paths''}"
  shows "iMetadata i k = rpBase p k"
  using assms by (elim plan_item_cases) (simp_all add: item_defs with_request_def)

lemma plan_item_runs_locally:
  assumes "i \<in> set (plan_items p)"
  shows "iExecutionTarget i = ExecutionTargetLocal \<and> iExecutionMode i = TaskLaunchModeAgentLocal \<and>
    (iApprovalRequired i \<longleftrightarrow> iKind i = WorkItemKindEdit)"
  using assms by (elim plan_item_cases) (simp_all add: item_defs kind_defs)

lemma objectiveIteration_pos: "1 \<le> objectiveIteration m"
  by (simp add: objectiveIteration_def Let_def)

lemma objectiveMaxIterations_pos: "1 \<le> objectiveMaxIterations m"
  by (simp add: objectiveMaxIterations_def Let_def defaultObjectiveMaxIterations_def)

lemma repair_plan_of_simps [simp]:
  "rpIteration (repair_plan_of c t r) = objectiveIteration (tMetadata t) + 1"
  "rpContract (repair_plan_of c t r) = c" "rpTask (repair_plan_of c t r) = t" "rpResult (repair_plan_of c t r) = r"
  by (simp_all add: repair_plan_of_def Let_def)

lemma rpBase_repair: "\<exists>ps. rpBase (repair_plan_of c t r) = repair_metadata t r ps"
  by (simp add: repair_plan_of_def Let_def) blast

lemma buildObjectiveRepairCycle_plan:
  "buildObjectiveRepairCycle c t r = Inr items \<Longrightarrow> items = plan_items (repair_plan_of c t r)"
  by (simp add: buildObjectiveRepairCycle_def Let_def split: if_splits)

end
