(* ===== verification/Go_Paths.thy ===== *)
theory Go_Paths
  imports Go_Text
begin

text \<open>
  Facts on trimmed texts and on slash-separated paths that the workspaces of tasks and bridges rest on,
  \<^verbatim>\<open>filepath.Rel\<close>, and the characters of a text in UTF-8. A rooted path is seen as the list of its words.
\<close>

section \<open>Trimming\<close>

lemma strip_one_None: "strip_one ps s = None \<longleftrightarrow> (\<forall>p \<in> set ps. p = [] \<or> \<not> prefix p s)"
  by (induction ps) auto

lemma strip_front_suffix: "suffix (strip_front ps s) s"
proof (induction ps s rule: strip_front.induct)
  case (1 ps s)
  show ?case
  proof (cases "strip_one ps s")
    case (Some t)
    have "suffix t s" using Some by (induction ps) (auto simp: suffix_drop split: if_splits)
    with 1 [OF Some] Some show ?thesis by (auto simp: strip_front.simps [of ps s] intro: suffix_order.trans)
  qed (simp add: strip_front.simps)
qed

lemma trimmed_front: "prefix y (TrimSpace s) \<Longrightarrow> TrimLeftSpace y = y"
proof -
  assume y: "prefix y (TrimSpace s)"
  have "prefix (TrimSpace s) (TrimLeftSpace s)"
    using strip_front_suffix [of "map rev space_seqs" "rev (TrimLeftSpace s)"]
    by (simp add: TrimSpace_def TrimRightSpace_def suffix_to_prefix)
  with y have "prefix y (TrimLeftSpace s)" by (rule prefix_order.trans)
  moreover have "strip_one space_seqs (TrimLeftSpace s) = None" by (simp add: TrimLeftSpace_def strip_front_None)
  ultimately have "strip_one space_seqs y = None" by (auto simp: strip_one_None intro: prefix_order.trans)
  then show "TrimLeftSpace y = y" by (simp add: TrimLeftSpace_def strip_front.simps)
qed

lemma TrimSpace_idem [simp]: "TrimSpace (TrimSpace s) = TrimSpace s"
proof -
  have "TrimLeftSpace (TrimSpace s) = TrimSpace s" by (rule trimmed_front [of _ s]) simp
  moreover have "TrimRightSpace (TrimRightSpace x) = TrimRightSpace x" for x by (simp add: TrimRightSpace_def)
  ultimately show ?thesis by (simp add: TrimSpace_def)
qed

section \<open>Clean paths\<close>

lemma split_on_slashless: "w \<in> set (split_on c s) \<Longrightarrow> c \<notin> set w"
  by (induction s arbitrary: w) (auto split: if_splits list.splits)

lemma split_on_word: "c \<notin> set w \<Longrightarrow> split_on c w = [w]"
  by (induction w) auto

lemma split_on_append: "c \<notin> set w \<Longrightarrow> split_on c (w @ c # s) = w # split_on c s"
  by (induction w) auto

lemma split_on_join: "ws \<noteq> [] \<Longrightarrow> \<forall>w \<in> set ws. c \<notin> set w \<Longrightarrow> split_on c (join_with [c] ws) = ws"
  by (induction "[c]" ws rule: join_with.induct) (auto simp: split_on_word split_on_append)

definition clean_word :: "bool \<Rightarrow> string \<Rightarrow> bool" where
  "clean_word rooted w \<longleftrightarrow> w \<noteq> [] \<and> w \<noteq> ''.'' \<and> CHR ''/'' \<notin> set w \<and> (rooted \<longrightarrow> w \<noteq> ''..'')"

lemma clean_step_words:
  "CHR ''/'' \<notin> set w \<Longrightarrow> list_all (clean_word rooted) stack \<Longrightarrow> list_all (clean_word rooted) (clean_step rooted w stack)"
  by (auto simp: clean_step_def clean_word_def split: list.splits)

lemma fold_clean_words:
  "\<forall>w \<in> set ws. CHR ''/'' \<notin> set w \<Longrightarrow> list_all (clean_word rooted) stack \<Longrightarrow>
    list_all (clean_word rooted) (fold (clean_step rooted) ws stack)"
  by (induction ws arbitrary: stack) (auto simp: clean_step_words)

lemma join_head: "ws \<noteq> [] \<Longrightarrow> hd ws \<noteq> [] \<Longrightarrow> hd (join_with sep ws) = hd (hd ws)"
  by (induction sep ws rule: join_with.induct) auto

lemma rooted_clean_path:
  assumes "path_clean q \<noteq> []" "hd (path_clean q) = CHR ''/''"
  shows "''..'' \<notin> set (split_on CHR ''/'' (path_clean q))"
proof -
  define rooted where "rooted = (q \<noteq> [] \<and> hd q = CHR ''/'')"
  define ws where "ws = rev (fold (clean_step rooted) (split_on CHR ''/'' q) [])"
  have c: "list_all (clean_word rooted) ws"
    using fold_clean_words [of "split_on CHR ''/'' q" rooted "[]"] split_on_slashless by (auto simp: ws_def list_all_iff)
  have p: "path_clean q = (if rooted then ''/'' @ join_with ''/'' ws else if join_with ''/'' ws = [] then ''.'' else join_with ''/'' ws)"
    by (simp add: path_clean_def rooted_def ws_def Let_def)
  have r: rooted
  proof (rule ccontr)
    assume "\<not> rooted"
    then have j: "hd (join_with ''/'' ws) = CHR ''/''" "join_with ''/'' ws \<noteq> []" using p assms by (auto split: if_splits)
    then have "ws \<noteq> []" by auto
    then have "clean_word rooted (hd ws)" using c by (cases ws) auto
    then have "hd (hd ws) \<noteq> CHR ''/''" "hd ws \<noteq> []" unfolding clean_word_def by (metis hd_in_set)+
    with join_head [OF \<open>ws \<noteq> []\<close>, of "''/''"] j show False by simp
  qed
  have "split_on CHR ''/'' (path_clean q) = [] # split_on CHR ''/'' (join_with ''/'' ws)" using p r by simp
  moreover have "''..'' \<notin> set (split_on CHR ''/'' (join_with ''/'' ws))"
  proof (cases "ws = []")
    case False
    have "split_on CHR ''/'' (join_with ''/'' ws) = ws"
      by (rule split_on_join [OF False]) (use c in \<open>auto simp: list_all_iff clean_word_def\<close>)
    then show ?thesis using c r by (auto simp: list_all_iff clean_word_def)
  qed simp
  ultimately show ?thesis by simp
qed

lemma path_clean_nonempty: "path_clean p \<noteq> []"
  by (simp add: path_clean_def Let_def)

section \<open>Rooted paths as lists of words\<close>

definition IsAbs :: "string \<Rightarrow> bool" where
  "IsAbs p \<longleftrightarrow> HasPrefix p ''/''"

definition abs_path :: "string list \<Rightarrow> string" where
  "abs_path ws = ''/'' @ join_with ''/'' ws"

definition path_words :: "string \<Rightarrow> string list" where
  "path_words p = filter (\<lambda>w. w \<noteq> []) (split_on CHR ''/'' p)"

lemma clean_word_slash: "clean_word r w \<Longrightarrow> CHR ''/'' \<notin> set w"
  by (simp add: clean_word_def)

lemma path_words_abs: "\<forall>w \<in> set ws. clean_word True w \<Longrightarrow> path_words (abs_path ws) = ws"
proof (cases "ws = []")
  case False
  assume w: "\<forall>w \<in> set ws. clean_word True w"
  then have "split_on CHR ''/'' (join_with ''/'' ws) = ws"
    using False by (intro split_on_join) (auto dest: clean_word_slash)
  then show ?thesis using w by (auto simp: path_words_def abs_path_def filter_id_conv clean_word_def)
qed (simp add: path_words_def abs_path_def)

lemma fold_clean_id:
  "\<forall>w \<in> set ws. clean_word True w \<Longrightarrow> fold (clean_step True) ws stack = rev ws @ stack"
  by (induction ws arbitrary: stack) (auto simp: clean_step_def clean_word_def)

lemma rooted_path_clean:
  assumes "IsAbs p"
  shows "\<exists>ws. path_clean p = abs_path ws \<and> (\<forall>w \<in> set ws. clean_word True w)"
proof -
  have r: "p \<noteq> [] \<and> hd p = CHR ''/''" using assms by (cases p) (auto simp: IsAbs_def HasPrefix_def)
  have "\<forall>w \<in> set (rev (fold (clean_step True) (split_on CHR ''/'' p) [])). clean_word True w"
    using fold_clean_words [of "split_on CHR ''/'' p" True "[]"] split_on_slashless by (auto simp: list_all_iff)
  with r show ?thesis by (auto simp: path_clean_def abs_path_def Let_def)
qed

lemma IsAbs_abs_path [simp]: "IsAbs (abs_path ws)"
  by (simp add: IsAbs_def abs_path_def HasPrefix_def)

lemma split_on_abs:
  assumes "\<forall>w \<in> set ws. clean_word True w"
  shows "split_on CHR ''/'' (abs_path ws) = [] # (if ws = [] then [[]] else ws)"
  using assms split_on_join [of ws "CHR ''/''"] by (auto simp: abs_path_def dest: clean_word_slash)

lemma path_clean_abs: "\<forall>w \<in> set ws. clean_word True w \<Longrightarrow> path_clean (abs_path ws) = abs_path ws"
proof -
  assume w: "\<forall>w \<in> set ws. clean_word True w"
  then have "fold (clean_step True) (split_on CHR ''/'' (abs_path ws)) [] = rev ws"
    by (simp add: split_on_abs fold_clean_id) (simp add: clean_step_def)
  then show ?thesis by (simp add: path_clean_def abs_path_def)
qed

lemma abs_path_inj:
  "\<forall>w \<in> set ws. clean_word True w \<Longrightarrow> \<forall>w \<in> set vs. clean_word True w \<Longrightarrow> abs_path ws = abs_path vs \<longleftrightarrow> ws = vs"
  by (metis path_words_abs)

lemma split_on_nonempty [simp]: "split_on c s \<noteq> []"
  by (cases s) (auto split: list.splits)

lemma split_on_append_slash: "split_on c (x @ c # y) = split_on c x @ split_on c y"
proof (induction x)
  case (Cons a x)
  obtain w ws where "split_on c x = w # ws" using split_on_nonempty by (metis neq_Nil_conv)
  with Cons show ?case by simp
qed simp

lemma join_append: "xs \<noteq> [] \<Longrightarrow> ys \<noteq> [] \<Longrightarrow> join_with sep (xs @ ys) = join_with sep xs @ sep @ join_with sep ys"
proof (induction sep xs rule: join_with.induct)
  case (2 sep w)
  then show ?case by (cases ys) auto
qed auto

text \<open>A relative path without steps upwards stays below the path it is joined to.\<close>

lemma path_join_words:
  assumes "\<forall>w \<in> set ws. clean_word True w" "\<forall>w \<in> set vs. clean_word True w" "vs \<noteq> []"
  shows "path_join (abs_path ws) (join_with ''/'' vs) = abs_path (ws @ vs)"
proof -
  have v: "split_on CHR ''/'' (join_with ''/'' vs) = vs"
    using assms(2,3) by (intro split_on_join) (auto dest: clean_word_slash)
  have "abs_path ws \<noteq> []" by (simp add: abs_path_def)
  moreover have "split_on CHR ''/'' (abs_path ws @ CHR ''/'' # join_with ''/'' vs) = ([] # (if ws = [] then [[]] else ws)) @ vs"
    using assms(1) by (simp only: split_on_append_slash split_on_abs v)
  then have "fold (clean_step True) (split_on CHR ''/'' (abs_path ws @ CHR ''/'' # join_with ''/'' vs)) [] = rev (ws @ vs)"
    using assms(1,2) by (simp add: fold_clean_id) (simp add: clean_step_def)
  ultimately show ?thesis by (simp add: path_join_def path_clean_def abs_path_def)
qed

section \<open>Relative paths\<close>

fun strip_common :: "string list \<Rightarrow> string list \<Rightarrow> string list \<times> string list" where
  "strip_common (a # as) (b # bs) = (if a = b then strip_common as bs else (a # as, b # bs))"
| "strip_common as bs = (as, bs)"

text \<open>\<^verbatim>\<open>filepath.Rel\<close> between two rooted paths.\<close>

definition filepath_Rel :: "string \<Rightarrow> string \<Rightarrow> string" where
  "filepath_Rel base targ =
     (case strip_common (path_words (path_clean base)) (path_words (path_clean targ)) of
        (b, t) \<Rightarrow> let ws = replicate (length b) ''..'' @ t in if ws = [] then ''.'' else join_with ''/'' ws)"

lemma strip_common_prefix: "strip_common as (as @ bs) = ([], bs)"
proof (induction as)
  case Nil
  show ?case by (cases bs) simp_all
qed simp

lemma strip_common_Nil: "strip_common as bs = ([], t) \<Longrightarrow> bs = as @ t"
  by (induction as bs rule: strip_common.induct) (auto split: if_splits)

definition escapes :: "string \<Rightarrow> bool" where
  "escapes rel \<longleftrightarrow> rel = ''..'' \<or> HasPrefix rel ''../''"

lemma filepath_Rel_below:
  assumes "\<forall>w \<in> set ws. clean_word True w" "\<forall>w \<in> set vs. clean_word True w"
  shows "filepath_Rel (abs_path ws) (abs_path (ws @ vs)) = (if vs = [] then ''.'' else join_with ''/'' vs)"
  using assms by (simp add: filepath_Rel_def path_clean_abs path_words_abs strip_common_prefix ball_Un)

lemma join_first:
  assumes "CHR ''/'' \<notin> set v" "HasPrefix (join_with ''/'' (v # vs)) ''../''"
  shows "v = ''..''"
proof -
  obtain z where z: "join_with ''/'' (v # vs) = ''..'' @ CHR ''/'' # z"
    using assms(2) by (auto simp: HasPrefix_iff prefix_def)
  show ?thesis
  proof (cases vs)
    case Nil
    with z have "CHR ''/'' \<in> set v" by simp
    with assms(1) show ?thesis by simp
  next
    case (Cons u us)
    then have e: "v @ CHR ''/'' # join_with ''/'' vs = ''..'' @ CHR ''/'' # z" using z by simp
    have "split_on CHR ''/'' (v @ CHR ''/'' # join_with ''/'' vs) = v # split_on CHR ''/'' (join_with ''/'' vs)"
      using assms(1) by (rule split_on_append)
    moreover have "split_on CHR ''/'' (''..'' @ CHR ''/'' # z) = ''..'' # split_on CHR ''/'' z"
      by (rule split_on_append) simp
    ultimately show ?thesis unfolding e by simp
  qed
qed

lemma filepath_Rel_escapes:
  assumes "\<forall>w \<in> set ws. clean_word True w" "\<forall>w \<in> set vs. clean_word True w"
  shows "escapes (filepath_Rel (abs_path ws) (abs_path vs)) \<longleftrightarrow> \<not> prefix ws vs"
proof (cases "prefix ws vs")
  case True
  then obtain t where t: "vs = ws @ t" by (auto simp: prefix_def)
  have "\<not> escapes (if t = [] then ''.'' else join_with ''/'' t)"
  proof (cases t)
    case (Cons v us)
    have v: "clean_word True v" using assms(2) t Cons by auto
    have "join_with ''/'' t \<noteq> ''..''"
    proof
      assume e: "join_with ''/'' t = ''..''"
      have "split_on CHR ''/'' (join_with ''/'' t) = t"
        using assms(2) t Cons by (intro split_on_join) (auto dest: clean_word_slash)
      then have "t = [''..'']" using e by simp
      with v Cons show False by (simp add: clean_word_def)
    qed
    moreover have "\<not> HasPrefix (join_with ''/'' t) ''../''"
      using join_first [of v us] v Cons by (auto simp: clean_word_def)
    ultimately show ?thesis using Cons by (simp add: escapes_def)
  qed (simp add: escapes_def HasPrefix_def)
  then show ?thesis using True t assms filepath_Rel_below [of ws t] by (auto simp: ball_Un)
next
  case False
  obtain b t where s: "strip_common ws vs = (b, t)" by fastforce
  with False have "b \<noteq> []" using strip_common_Nil [of ws vs t] by (auto simp: prefix_def)
  then obtain c bs where b: "b = c # bs" by (cases b) auto
  have "filepath_Rel (abs_path ws) (abs_path vs) = join_with ''/'' (''..'' # replicate (length bs) ''..'' @ t)"
    using assms s b by (simp add: filepath_Rel_def path_clean_abs path_words_abs)
  moreover have "escapes (join_with ''/'' (''..'' # xs))" for xs
    by (cases xs) (auto simp: escapes_def HasPrefix_def)
  ultimately show ?thesis using False by simp
qed

section \<open>UTF-8\<close>

text \<open>A lead byte, the continuation bytes it needs, and the ranges of the second byte.\<close>

definition continues :: "char \<Rightarrow> bool" where
  "continues c \<longleftrightarrow> 0x80 \<le> (of_char c :: nat) \<and> (of_char c :: nat) < 0xC0"

definition needs :: "char \<Rightarrow> nat" where
  "needs c =
     (let n = (of_char c :: nat)
      in if 0xC2 \<le> n \<and> n < 0xE0 then 1 else if 0xE0 \<le> n \<and> n < 0xF0 then 2 else if 0xF0 \<le> n \<and> n < 0xF5 then 3 else 0)"

definition second_ok :: "char \<Rightarrow> char \<Rightarrow> bool" where
  "second_ok c d =
     (let m = (of_char c :: nat); n = (of_char d :: nat)
      in (m = 0xE0 \<longrightarrow> 0xA0 \<le> n) \<and> (m = 0xED \<longrightarrow> n < 0xA0) \<and> (m = 0xF0 \<longrightarrow> 0x90 \<le> n) \<and> (m = 0xF4 \<longrightarrow> n < 0x90))"

text \<open>The conversion \<^verbatim>\<open>[]rune(s)\<close>: a byte that starts no character becomes U+FFFD.\<close>

definition bad_rune :: string where
  "bad_rune = [CHR 0xEF, CHR 0xBF, CHR 0xBD]"

function runes :: "string \<Rightarrow> string list" where
  "runes [] = []"
| "runes (c # s) =
     (if needs c = 0 then (if (of_char c :: nat) < 0x80 then [c] else bad_rune) # runes s
      else if needs c \<le> length s \<and> list_all continues (take (needs c) s) \<and> second_ok c (hd s)
      then (c # take (needs c) s) # runes (drop (needs c) s)
      else bad_rune # runes s)"
  by pat_completeness auto
termination by (relation "measure length") auto

end
