(* ===== verification/Executor_Review.thy ===== *)
theory Executor_Review
  imports Objective_Plan Go_Paths
begin

text \<open>
  The pure part of a review on a local bridge (\<^verbatim>\<open>bridge/executor.go\<close>): the readers of a tool request, the
  comparison of the changed files with the scope that the planner, the research and the retrieved precedents
  had named, and the findings and the packet made of it. The encoder \<^verbatim>\<open>json.Marshal\<close> is the parameter \<open>json\<close>.
  A claim arrives as JSON, so a slice is an \<open>AArr\<close>, and a number an \<open>AInt\<close>.
\<close>

section \<open>Reading a request\<close>

definition anyStringSlice :: "any_val option \<Rightarrow> string list option" where
  "anyStringSlice v =
     (case v of
        Some (AStrs xs) \<Rightarrow> Some xs
      | Some (AArr xs) \<Rightarrow>
          (let out = map (\<lambda>x. TrimSpace (asString (Some x))) xs in if [] \<in> set out then None else Some out)
      | _ \<Rightarrow> None)"

definition anyStringSliceDefault :: "any_val option \<Rightarrow> string list \<Rightarrow> string list" where
  "anyStringSliceDefault v fallback =
     (case anyStringSlice v of None \<Rightarrow> fallback | Some items \<Rightarrow> if items = [] then fallback else items)"

definition anyMapSliceDefault :: "any_val option \<Rightarrow> any_map list \<Rightarrow> any_map list" where
  "anyMapSliceDefault v fallback =
     (case v of
        Some (AArr xs) \<Rightarrow>
          (let out = filter (\<lambda>m. m \<noteq> Map.empty) (map dec_obj xs) in if out = [] then fallback else out)
      | _ \<Rightarrow> fallback)"

definition asBool :: "any_val option \<Rightarrow> bool" where
  "asBool v = (case v of Some (ABool b) \<Rightarrow> b | _ \<Rightarrow> False)"

definition asInt :: "any_val option \<Rightarrow> int \<Rightarrow> int" where
  "asInt v fallback = (case v of Some (AInt i) \<Rightarrow> i | _ \<Rightarrow> fallback)"

definition asIntOK :: "any_val option \<Rightarrow> int option" where
  "asIntOK v = (case v of Some (AInt i) \<Rightarrow> Some i | _ \<Rightarrow> None)"

definition nonNilMap :: "any_val option \<Rightarrow> any_map" where
  "nonNilMap v = (case v of Some (AMap m) \<Rightarrow> m | _ \<Rightarrow> Map.empty)"

definition uniqueNonEmptyStrings :: "string list \<Rightarrow> string list" where
  "uniqueNonEmptyStrings values = unique_strings [] values"

definition nonblank :: "string list \<Rightarrow> string list" where
  "nonblank = filter (\<lambda>s. s \<noteq> [])"

definition anyHypothesisPaths :: "any_val option \<Rightarrow> string list" where
  "anyHypothesisPaths v = uniqueNonEmptyStrings (nonblank (map (\<lambda>m. trimmed m ''path'') (anyMapSliceDefault v [])))"

definition reviewResearchPaths :: "any_map \<Rightarrow> string list" where
  "reviewResearchPaths request =
     uniqueNonEmptyStrings (anyStringSliceDefault (request ''suspected_paths'') [] @
       nonblank (map (\<lambda>m. trimmed m ''path'') (anyMapSliceDefault (request ''objective_patch_intent'') [])))"

section \<open>Alignments\<close>

definition reviewScopeAlignment :: "string list \<Rightarrow> string list \<Rightarrow> string" where
  "reviewScopeAlignment expectedPaths changedFiles =
     (if expectedPaths = [] \<or> changedFiles = [] then ''unknown''
      else if list_ex (\<lambda>c. list_ex (\<lambda>e. TrimSpace c = TrimSpace e) expectedPaths) changedFiles then ''confirmed''
      else ''contradicted'')"

definition reviewRejectedScopeAlignment :: "string list \<Rightarrow> string list \<Rightarrow> string" where
  "reviewRejectedScopeAlignment rejectedPaths changedFiles =
     (if rejectedPaths = [] \<or> changedFiles = [] then ''unknown''
      else if list_ex (\<lambda>c. list_ex (\<lambda>r. TrimSpace c = TrimSpace r) rejectedPaths) changedFiles then ''contradicted''
      else ''confirmed'')"

text \<open>A precedent is about a changed file when its summary contains the path or the base name.\<close>

definition names_file :: "string \<Rightarrow> string \<Rightarrow> bool" where
  "names_file summary changed0 \<longleftrightarrow>
     (let changed = ToLower (TrimSpace changed0)
      in changed \<noteq> [] \<and> (Contains summary changed \<or> Contains summary (ToLower (path_base changed))))"

definition precedentAlignment :: "any_map \<Rightarrow> string list \<Rightarrow> string" where
  "precedentAlignment precedent changedFiles =
     (let summary = ToLower (trimmed precedent ''summary'')
      in if summary = [] \<or> changedFiles = [] then ''unknown''
         else if list_ex (names_file summary) changedFiles then ''confirmed'' else ''contradicted'')"

fun retrieval_refs :: "any_map list \<Rightarrow> string list \<Rightarrow> string list \<times> bool" where
  "retrieval_refs [] changedFiles = ([], False)"
| "retrieval_refs (item # items) changedFiles =
     (let ref = nonblank [trimmed item ''source_ref'']
      in if list_ex (names_file (ToLower (trimmed item ''summary''))) changedFiles then (ref, True)
         else (case retrieval_refs items changedFiles of (refs, c) \<Rightarrow> (ref @ refs, c)))"

definition reviewRetrievalAlignment :: "any_map list \<Rightarrow> string list \<Rightarrow> string \<times> string list" where
  "reviewRetrievalAlignment precedents changedFiles =
     (if precedents = [] \<or> changedFiles = [] then (''unknown'', [])
      else
        (case retrieval_refs precedents changedFiles of
           (refs0, confirmed) \<Rightarrow>
             (let refs = uniqueNonEmptyStrings refs0
              in if refs = [] then (''unknown'', [])
                 else if confirmed then (''confirmed'', refs) else (''contradicted'', refs))))"

section \<open>Findings\<close>

definition scope_finding :: "string \<Rightarrow> string \<Rightarrow> string \<Rightarrow> string list \<Rightarrow> string list \<Rightarrow> string \<Rightarrow> any_map" where
  "scope_finding kind severity message expected changedFiles action =
     [''kind'' \<mapsto> AStr kind, ''severity'' \<mapsto> AStr severity, ''message'' \<mapsto> AStr message, ''source'' \<mapsto> AStr ''review'',
      ''expected_paths'' \<mapsto> AStrs expected, ''changed_files'' \<mapsto> AStrs changedFiles, ''recommended_action'' \<mapsto> AStr action]"

definition buildReviewAlignmentFindings ::
  "string \<Rightarrow> string \<Rightarrow> string \<Rightarrow> string list \<Rightarrow> string list \<Rightarrow> string list \<Rightarrow> string list \<Rightarrow> any_map list" where
  "buildReviewAlignmentFindings planner rejected research plannerPaths rejectedPaths researchPaths changedFiles =
     (if planner = ''confirmed'' then
        [scope_finding ''planner_scope_confirmed'' ''info''
           ''The observed diff confirms the planner's selected first-pass scope hypothesis.'' plannerPaths changedFiles
           ''Use this confirmed planner precedent when narrowing similar future objectives.''] else []) @
     (if planner = ''contradicted'' then
        [scope_finding ''planner_scope_contradicted'' ''medium''
           ''The observed diff contradicts the planner's initial scope hypothesis.'' plannerPaths changedFiles
           ''Update the next plan using the files actually changed or revisit the planner's first-pass scope guess.''] else []) @
     (if rejected = ''contradicted'' then
        [scope_finding ''planner_rejected_scope_contradicted'' ''high''
           ''The observed diff landed in a path the planner explicitly rejected in the first-pass shortlist.'' rejectedPaths changedFiles
           ''Revisit the planner's rejection rationale and promote the actually changed file into the next plan.''] else []) @
     (if rejected = ''confirmed'' then
        [scope_finding ''planner_rejected_scope_confirmed'' ''info''
           ''The observed diff avoided the planner's rejected competitors.'' rejectedPaths changedFiles
           ''Treat the rejected competitor list as a valid exclusion precedent for similar objectives.''] else []) @
     (if research = ''contradicted'' then
        [scope_finding ''research_scope_contradicted'' ''high''
           ''The observed diff contradicts the research-guided patch intent.'' researchPaths changedFiles
           ''Narrow the next repair cycle to the files that actually need changes and revise the research scope before editing again.'']
      else [])"

definition retrieval_finding :: "string \<Rightarrow> string \<Rightarrow> string \<Rightarrow> string list \<Rightarrow> string list \<Rightarrow> string \<Rightarrow> any_map" where
  "retrieval_finding kind severity message refs changedFiles action =
     [''kind'' \<mapsto> AStr kind, ''severity'' \<mapsto> AStr severity, ''message'' \<mapsto> AStr message, ''source'' \<mapsto> AStr ''review'',
      ''precedent_refs'' \<mapsto> AStrs refs, ''changed_files'' \<mapsto> AStrs changedFiles, ''recommended_action'' \<mapsto> AStr action]"

definition buildReviewRetrievalFindings :: "string \<Rightarrow> string list \<Rightarrow> string list \<Rightarrow> any_map list" where
  "buildReviewRetrievalFindings alignment refs changedFiles =
     (if alignment = ''confirmed'' then
        [retrieval_finding ''retrieval_scope_confirmed'' ''info'' ''The observed diff aligns with a retrieved precedent.'' refs changedFiles
           ''Reuse this precedent class for similar objectives.'']
      else if alignment = ''contradicted'' then
        [retrieval_finding ''retrieval_scope_contradicted'' ''medium''
           ''The observed diff does not align with the retrieved precedents that were carried into the edit.'' refs changedFiles
           ''Demote the contradicted precedent and rely on the actual diff for the next repair cycle.'']
      else [])"

definition buildValidationFailureFindings :: "string list \<Rightarrow> int \<Rightarrow> string \<Rightarrow> any_map list" where
  "buildValidationFailureFindings argv exitCode message0 =
     (let message = TrimSpace message0
      in if argv = [] \<and> message = [] then []
         else [[''kind'' \<mapsto> AStr ''validation_failure'', ''severity'' \<mapsto> AStr ''high'',
                ''message'' \<mapsto> AStr (firstNonEmptyString [message, ''Validation command failed.'']), ''source'' \<mapsto> AStr ''validate'',
                ''validation_command'' \<mapsto> AStrs argv, ''exit_code'' \<mapsto> AInt exitCode,
                ''recommended_action'' \<mapsto> AStr ''Reproduce the failing validation command and fix the error before approval.'']])"

section \<open>The packet\<close>

definition refs_aligned :: "string \<Rightarrow> any_map list \<Rightarrow> string list \<Rightarrow> string list" where
  "refs_aligned verdict precedents changedFiles =
     uniqueNonEmptyStrings (nonblank (map (\<lambda>m. trimmed m ''source_ref'')
       (filter (\<lambda>m. precedentAlignment m changedFiles = verdict) precedents)))"

definition buildReviewMemoryUtility :: "any_map list \<Rightarrow> string \<Rightarrow> string list \<Rightarrow> string \<Rightarrow> any_map" where
  "buildReviewMemoryUtility precedents alignment changedFiles decision =
     (let used = refs_aligned ''confirmed'' precedents changedFiles
      in [''precedents_used'' \<mapsto> AStrs used,
          ''precedents_contradicted'' \<mapsto> AStrs (refs_aligned ''contradicted'' precedents changedFiles),
          ''precedents_neutral'' \<mapsto> AStrs (refs_aligned ''unknown'' precedents changedFiles),
          ''changed_files'' \<mapsto> AStrs changedFiles, ''outcome'' \<mapsto> AStr (TrimSpace decision),
          ''recommendation'' \<mapsto> AStr
            (if alignment = ''confirmed'' \<and> EqualFold (TrimSpace decision) ''approved'' then ''reuse''
             else if alignment = ''contradicted'' then ''demote''
             else if used \<noteq> [] then ''retain'' else ''observe'')])"

record review_scope =
  rvPlanner :: string
  rvRejected :: string
  rvResearch :: string
  rvRetrieval :: string
  rvRefs :: "string list"

definition buildReviewPacketReport ::
  "(any_val \<Rightarrow> string) \<Rightarrow> string \<Rightarrow> string list \<Rightarrow> string list \<Rightarrow> any_val option \<Rightarrow> review_scope \<Rightarrow> any_map list \<Rightarrow> any_map list \<Rightarrow> string" where
  "buildReviewPacketReport json decision changedFiles testCommand contract s findings precedents =
     json (AMap [''decision'' \<mapsto> AStr decision, ''changed_files'' \<mapsto> AStrs changedFiles, ''validation_command'' \<mapsto> AStrs testCommand,
           ''objective'' \<mapsto> (case contract of None \<Rightarrow> ANil | Some c \<Rightarrow> c),
           ''planner_scope_alignment'' \<mapsto> AStr (rvPlanner s), ''planner_rejected_scope_alignment'' \<mapsto> AStr (rvRejected s),
           ''research_scope_alignment'' \<mapsto> AStr (rvResearch s), ''retrieval_scope_alignment'' \<mapsto> AStr (rvRetrieval s),
           ''retrieval_precedent_refs'' \<mapsto> AStrs (rvRefs s),
           ''memory_utility'' \<mapsto> AMap (buildReviewMemoryUtility precedents (rvRetrieval s) changedFiles decision),
           ''findings'' \<mapsto> AArr (map AMap findings)])"

end
