(* ===== verification/Executor_Scope.thy ===== *)
theory Executor_Scope
  imports Executor_Review
begin

text \<open>
  How a repair narrows its scope (\<^verbatim>\<open>bridge/executor.go\<close>): the findings of the last review decide which paths are
  promoted, kept or excluded, the repository and the goal suggest further ones, and from them follow the failure
  hypotheses and the intent of the next patch. Letter case is folded for ASCII letters only; goals, paths and
  summaries in other alphabets are compared as they are written.
\<close>

section \<open>Sets of paths\<close>

definition containsTrimmed :: "string list \<Rightarrow> string \<Rightarrow> bool" where
  "containsTrimmed values target0 \<longleftrightarrow>
     (let target = TrimSpace target0 in list_ex (\<lambda>item. target \<noteq> [] \<and> TrimSpace item = target) values)"

definition intersectStrings :: "string list \<Rightarrow> string list \<Rightarrow> string list" where
  "intersectStrings values candidates =
     (if values = [] \<or> candidates = [] then []
      else uniqueNonEmptyStrings (filter (\<lambda>x. x \<in> set (uniqueNonEmptyStrings candidates)) (uniqueNonEmptyStrings values)))"

definition differenceStrings :: "string list \<Rightarrow> string list \<Rightarrow> string list" where
  "differenceStrings values remove =
     (if values = [] then []
      else if remove = [] then uniqueNonEmptyStrings values
      else uniqueNonEmptyStrings (filter (\<lambda>x. x \<notin> set (uniqueNonEmptyStrings remove)) (uniqueNonEmptyStrings values)))"

section \<open>Reading the findings of a review\<close>

record scope_correction =
  scPlanner :: string
  scRejected :: string
  scConfirmedPlanner :: "string list"
  scContradictedPlanner :: "string list"
  scPromotedRejected :: "string list"
  scConfirmedRejected :: "string list"
  scExcluded :: "string list"
  scReason :: string

definition findingKinds :: "any_map list \<Rightarrow> string list" where
  "findingKinds findings = nonblank (map (\<lambda>f. trimmed f ''kind'') findings)"

definition unseen_planned :: "string list \<Rightarrow> string list \<Rightarrow> string list" where
  "unseen_planned selected selectedInDiff = filter (\<lambda>p. \<not> containsTrimmed selectedInDiff p) selected"

definition reason_when :: "bool \<Rightarrow> string \<Rightarrow> string list" where
  "reason_when b s = (if b then [s] else [])"

definition interpretPlannerRepairFindings ::
  "any_map list \<Rightarrow> string list \<Rightarrow> string list \<Rightarrow> string list \<Rightarrow> scope_correction" where
  "interpretPlannerRepairFindings priorFindings selected0 rejected0 changed0 =
     (let selected = uniqueNonEmptyStrings selected0; rejected = uniqueNonEmptyStrings rejected0;
          changed = uniqueNonEmptyStrings changed0; kinds = findingKinds priorFindings;
          selectedInDiff = intersectStrings changed selected; rejectedInDiff = intersectStrings changed rejected;
          pc = ''planner_scope_confirmed'' \<in> set kinds; px = ''planner_scope_contradicted'' \<in> set kinds;
          rc = ''planner_rejected_scope_confirmed'' \<in> set kinds; rx = ''planner_rejected_scope_contradicted'' \<in> set kinds;
          unseen = (if px then unseen_planned selected selectedInDiff else []);
          excluded1 = unseen @ (if rc then rejected else []);
          excluded2 = (if rx then differenceStrings excluded1 rejectedInDiff else excluded1)
      in \<lparr>scPlanner = (if px then ''contradicted'' else if pc then ''confirmed'' else ''unchanged''),
          scRejected = (if rx then ''contradicted'' else if rc then ''confirmed'' else ''unchanged''),
          scConfirmedPlanner = (if pc then selected else []),
          scContradictedPlanner = uniqueNonEmptyStrings unseen,
          scPromotedRejected = (if rx then rejectedInDiff else []),
          scConfirmedRejected = uniqueNonEmptyStrings (if rc then rejected else []),
          scExcluded = uniqueNonEmptyStrings excluded2,
          scReason = TrimSpace (join_with ''; '' (uniqueNonEmptyStrings
            (reason_when (pc \<and> selected \<noteq> []) ''keep the planner-confirmed shortlist as the primary target'' @
             reason_when (px \<and> unseen \<noteq> []) ''drop planner-selected paths that did not appear in the failed diff'' @
             reason_when (rc \<and> rejected \<noteq> []) ''keep planner-rejected competitor paths excluded'' @
             reason_when (rx \<and> rejectedInDiff \<noteq> []) ''promote rejected paths that the failed edit actually touched'')))\<rparr>)"

definition repairCauseCategoryForPath :: "string \<Rightarrow> scope_correction \<Rightarrow> string" where
  "repairCauseCategoryForPath path s =
     (if path \<noteq> [] \<and> containsTrimmed (scPromotedRejected s) path then ''edit_landed_in_rejected_path''
      else if path \<noteq> [] \<and> containsTrimmed (scConfirmedPlanner s) path then ''bad_edit_against_good_shortlist''
      else if scPlanner s = ''contradicted'' then ''bad_planner_shortlist''
      else if scRejected s = ''contradicted'' then ''edit_landed_in_rejected_path''
      else if scPlanner s = ''confirmed'' then ''bad_edit_against_good_shortlist''
      else ''bad_planner_shortlist'')"

section \<open>Suggested paths\<close>

definition filterValidationArtifactPaths :: "string list \<Rightarrow> string list" where
  "filterValidationArtifactPaths paths = filter (\<lambda>p. ToUpper (TrimSpace p) \<notin> {''PASS'', ''FAIL''}) paths"

text \<open>\<^verbatim>\<open>strings.FieldsFunc\<close> on a set of ASCII separators, and \<^verbatim>\<open>filepath.Ext\<close>.\<close>

fun fields_from :: "string \<Rightarrow> string \<Rightarrow> string \<Rightarrow> string list" where
  "fields_from seps w [] = (if w = [] then [] else [rev w])"
| "fields_from seps w (c # s) =
     (if c \<in> set seps then (if w = [] then [] else [rev w]) @ fields_from seps [] s else fields_from seps (c # w) s)"

definition FieldsFunc :: "string \<Rightarrow> string \<Rightarrow> string list" where
  "FieldsFunc seps s = fields_from seps [] s"

definition file_ext :: "string \<Rightarrow> string" where
  "file_ext p =
     (let b = rev (takeWhile (\<lambda>c. c \<noteq> CHR ''/'') (rev p)); r = takeWhile (\<lambda>c. c \<noteq> CHR ''.'') (rev b)
      in if CHR ''.'' \<in> set b then CHR ''.'' # rev r else [])"

type_synonym scored = "string \<times> int"

definition better :: "scored \<Rightarrow> scored \<Rightarrow> bool" where
  "better a b \<longleftrightarrow> snd b < snd a \<or> (snd a = snd b \<and> str_less (fst a) (fst b))"

definition best_paths :: "scored list \<Rightarrow> string list" where
  "best_paths candidates = take 4 (map fst (sort_by better candidates))"

definition goal_score :: "string \<Rightarrow> string \<Rightarrow> int" where
  "goal_score goal path =
     (let lowerPath = ToLower (TrimSpace path); base = ToLower (path_base lowerPath);
          name = TrimSuffix base (file_ext base);
          tokens = filter (\<lambda>t. 4 \<le> length t) (map TrimSpace (FieldsFunc (''_-./'' @ [CHR 0x5C]) name))
      in (if Contains goal lowerPath then 10 else if Contains goal base then 8 else 0) +
         int (length (filter (Contains goal) tokens)))"

definition inferScopePathsFromGoal :: "string \<Rightarrow> string list \<Rightarrow> string list" where
  "inferScopePathsFromGoal goal0 treeFiles =
     (let goal = ToLower (TrimSpace goal0)
      in if goal = [] \<or> treeFiles = [] then []
         else best_paths (filter (\<lambda>c. 0 < snd c) (map (\<lambda>p. (p, goal_score goal p)) (uniqueNonEmptyStrings treeFiles))))"

definition readmeCueWeight :: "string \<Rightarrow> int" where
  "readmeCueWeight line =
     2 * int (length (filter (Contains line)
       [''current'', ''primary'', ''implemented'', ''lives in'', ''source of truth'', ''toggle'', ''objective''])) -
     3 * int (length (filter (Contains line)
       [''legacy'', ''deprecated'', ''old'', ''unused'', ''do not'', ''should not'', ''obsolete'']))"

definition goal_separators :: string where
  "goal_separators = '' ,.:;-_/()'' @ [CHR 0x0A, CHR 0x09, CHR 0x5C]"

definition informativeGoalTokens :: "string \<Rightarrow> string list" where
  "informativeGoalTokens goal0 =
     (let goal = ToLower (TrimSpace goal0)
      in if goal = [] then []
         else uniqueNonEmptyStrings (filter (\<lambda>t. 4 \<le> length t) (map TrimSpace (FieldsFunc goal_separators goal))))"

definition readme_line_score :: "string list \<Rightarrow> string \<Rightarrow> string \<Rightarrow> int" where
  "readme_line_score tokens lowerPath line0 =
     (let line = TrimSpace line0; base = ToLower (path_base lowerPath)
      in if line = [] \<or> (\<not> Contains line lowerPath \<and> \<not> Contains line base) then 0
         else (if Contains line lowerPath then 6 else 4) + int (length (filter (Contains line) tokens)) + readmeCueWeight line)"

definition readme_score :: "string list \<Rightarrow> string list \<Rightarrow> string \<Rightarrow> int" where
  "readme_score tokens lines path = foldl max 0 (map (readme_line_score tokens (ToLower (TrimSpace path))) lines)"

definition inferScopePathsFromReadme :: "string \<Rightarrow> string \<Rightarrow> string list \<Rightarrow> string list" where
  "inferScopePathsFromReadme goal excerpt0 treeFiles =
     (let excerpt = ToLower (TrimSpace excerpt0)
      in if excerpt = [] \<or> treeFiles = [] then []
         else best_paths (filter (\<lambda>c. 0 < snd c)
                (map (\<lambda>p. (p, readme_score (informativeGoalTokens goal) (split_on CHR 0x0A excerpt) p)) (uniqueNonEmptyStrings treeFiles))))"

definition recommendRepairScopePaths :: "string list \<Rightarrow> string list \<Rightarrow> string list" where
  "recommendRepairScopePaths changed expected = uniqueNonEmptyStrings (if changed = [] then expected else changed)"

definition recommendResearchScopePaths ::
  "string \<Rightarrow> scope_correction \<Rightarrow> string list \<Rightarrow> string list \<Rightarrow> string list \<Rightarrow> string list \<Rightarrow> string \<Rightarrow> string list" where
  "recommendResearchScopePaths goal s changed intents expected treeFiles excerpt =
     (let scope = filterValidationArtifactPaths (uniqueNonEmptyStrings
            (scPromotedRejected s @ scConfirmedPlanner s @ changed @ intents @ expected @
             inferScopePathsFromReadme goal excerpt treeFiles @ inferScopePathsFromGoal goal treeFiles));
          filtered = filter (\<lambda>p. p \<notin> set (scExcluded s)) scope
      in if scExcluded s = [] then scope else if filtered \<noteq> [] then filtered else scope)"

section \<open>Failure hypotheses\<close>

definition or_first :: "'a option \<Rightarrow> 'a list \<Rightarrow> 'a option" where
  "or_first found items = (case found of Some x \<Rightarrow> Some x | None \<Rightarrow> (case items of [] \<Rightarrow> None | x # _ \<Rightarrow> Some x))"

definition firstRelevantFindingForPath :: "any_map list \<Rightarrow> string \<Rightarrow> any_map option" where
  "firstRelevantFindingForPath findings path =
     (let p = TrimSpace path
      in or_first (find (\<lambda>f. trimmed f ''message'' \<noteq> [] \<and>
             ((trimmed f ''path'' \<noteq> [] \<and> trimmed f ''path'' = p) \<or> (p \<noteq> [] \<and> Contains (trimmed f ''message'') p))) findings) findings)"

definition firstRepairHypothesisForPath :: "any_map list \<Rightarrow> string \<Rightarrow> any_map option" where
  "firstRepairHypothesisForPath hypotheses path =
     or_first (find (\<lambda>h. trimmed h ''path'' \<noteq> [] \<and> trimmed h ''path'' = TrimSpace path) hypotheses) hypotheses"

definition failed_exit :: "any_map \<Rightarrow> int option" where
  "failed_exit results = (case asIntOK (results ''exit_code'') of Some i \<Rightarrow> if i \<noteq> 0 then Some i else None | None \<Rightarrow> None)"

definition exit_text :: "int \<Rightarrow> string" where
  "exit_text i = ''Declared validation command exited with code '' @ Itoa i @ ''.''"

text \<open>The value a finding states, or the default where it states none.\<close>

definition stated :: "any_map option \<Rightarrow> string \<Rightarrow> string \<Rightarrow> string" where
  "stated f key def = (case f of None \<Rightarrow> def | Some m \<Rightarrow> if trimmed m key \<noteq> [] then trimmed m key else def)"

definition path_failure :: "any_map list \<Rightarrow> any_map \<Rightarrow> scope_correction \<Rightarrow> string \<Rightarrow> any_map" where
  "path_failure findings results s path =
     (let f = firstRelevantFindingForPath findings path; e = failed_exit results;
          mode = stated f ''kind'' (if e = None then ''targeted_regression'' else ''validation_failure'');
          evidence = stated f ''message'' (case e of None \<Rightarrow> [] | Some i \<Rightarrow> exit_text i);
          priority = stated f ''severity'' (if e = None then ''medium'' else ''high'');
          h = [''path'' \<mapsto> AStr path, ''failure_mode'' \<mapsto> AStr mode, ''priority'' \<mapsto> AStr priority,
               ''cause_category'' \<mapsto> AStr (repairCauseCategoryForPath path s)]
      in if evidence \<noteq> [] then h(''evidence'' \<mapsto> AStr evidence) else h)"

definition general_failure :: "any_map \<Rightarrow> scope_correction \<Rightarrow> any_map" where
  "general_failure results s =
     (let h = [''failure_mode'' \<mapsto> AStr ''validation_failure'', ''priority'' \<mapsto> AStr ''high'',
               ''cause_category'' \<mapsto> AStr (repairCauseCategoryForPath [] s)]
      in case failed_exit results of None \<Rightarrow> h | Some i \<Rightarrow> h(''evidence'' \<mapsto> AStr (exit_text i)))"

definition buildRepairFailureHypotheses ::
  "any_map list \<Rightarrow> any_map \<Rightarrow> string list \<Rightarrow> scope_correction \<Rightarrow> any_map list" where
  "buildRepairFailureHypotheses findings results scopePaths s =
     (if scopePaths = [] \<and> findings = [] \<and> results = Map.empty then []
      else if scopePaths = [] then [general_failure results s]
      else map (path_failure findings results s) scopePaths)"

section \<open>The intent of a patch\<close>

definition fallbackAction :: string where
  "fallbackAction = ''inspect the failing logic, apply the narrowest fix that satisfies validation, and avoid unrelated edits''"

definition put_nonblank :: "string \<Rightarrow> string \<Rightarrow> any_map \<Rightarrow> any_map" where
  "put_nonblank key v m = (if v = [] then m else m(key \<mapsto> AStr v))"

definition intent_text :: "string \<Rightarrow> string \<Rightarrow> string" where
  "intent_text mode cause =
     (if cause = ''bad_planner_shortlist''
      then ''shift the patch toward the files observed in the failed iteration and avoid returning to the planner's contradicted shortlist''
      else if cause = ''bad_edit_against_good_shortlist''
      then ''stay on the planner-confirmed shortlist and correct the implementation without widening scope''
      else if cause = ''edit_landed_in_rejected_path''
      then ''repair the path that the previous edit actually touched, then decide whether that rejected path should remain in scope''
      else if mode = ''validation_failure''
      then ''repair the validation failure in this file first, then rerun the declared validation command before widening scope''
      else if mode = ''missing_diff''
      then ''produce the missing code change in this file and verify the diff is real before review''
      else ''repair the behavior implicated by the latest finding and keep the patch limited to this file'')"

definition path_patch_intent :: "any_map list \<Rightarrow> string \<Rightarrow> any_map" where
  "path_patch_intent hypotheses path =
     (case firstRepairHypothesisForPath hypotheses path of
        None \<Rightarrow> [''path'' \<mapsto> AStr path, ''action'' \<mapsto> AStr fallbackAction]
      | Some h \<Rightarrow>
          put_nonblank ''cause_category'' (trimmed h ''cause_category'') (put_nonblank ''rationale'' (trimmed h ''evidence'')
            (put_nonblank ''priority'' (trimmed h ''priority'') (put_nonblank ''failure_mode'' (trimmed h ''failure_mode'')
              [''path'' \<mapsto> AStr path,
               ''action'' \<mapsto> AStr (intent_text (trimmed h ''failure_mode'') (trimmed h ''cause_category''))]))))"

definition buildRepairPatchIntent :: "any_map list \<Rightarrow> string list \<Rightarrow> any_map list" where
  "buildRepairPatchIntent hypotheses scopePaths =
     (if scopePaths = [] \<and> hypotheses = [] then []
      else if scopePaths = [] then [[''action'' \<mapsto> AStr fallbackAction]]
      else map (path_patch_intent hypotheses) scopePaths)"

end
