(* ===== verification/Executor_Brief.thy ===== *)
theory Executor_Brief
  imports Executor_Scope
begin

text \<open>
  The texts and arguments that the executor hands to a coding agent (\<^verbatim>\<open>bridge/executor.go\<close>): the brief of a
  repair, the enriched description and the metadata of an \<^verbatim>\<open>aider-task\<close> call.
\<close>

section \<open>Lines of a brief\<close>

definition truncateForPrompt :: "string \<Rightarrow> int \<Rightarrow> string" where
  "truncateForPrompt s limit =
     (if limit \<le> 0 then [] else if int (length (runes s)) \<le> limit then s else concat (take (nat limit) (runes s)) @ ''...'')"

definition labelled :: "string \<Rightarrow> string \<Rightarrow> string" where
  "labelled label message = ''- ['' @ label @ ''] '' @ message"

definition block :: "string list \<Rightarrow> 'a list \<Rightarrow> ('a \<Rightarrow> string list) \<Rightarrow> string list" where
  "block heading items f = (if items = [] then [] else heading @ concat (map f items))"

definition text_block :: "string list \<Rightarrow> string \<Rightarrow> string list" where
  "text_block heading t = (if t = [] then [] else heading @ [t])"

definition paths_line :: "string \<Rightarrow> string list \<Rightarrow> string list" where
  "paths_line label paths = (if paths = [] then [] else [label @ join_with '', '' paths])"

definition maps_of :: "any_map \<Rightarrow> string \<Rightarrow> any_map list" where
  "maps_of m k = anyMapSliceDefault (m k) []"

definition strs_of :: "any_map \<Rightarrow> string \<Rightarrow> string list" where
  "strs_of m k = anyStringSliceDefault (m k) []"

definition severity_line :: "any_map \<Rightarrow> string list" where
  "severity_line item =
     (if trimmed item ''message'' = [] then []
      else [if trimmed item ''severity'' \<noteq> [] then labelled (trimmed item ''severity'') (trimmed item ''message'')
            else ''- '' @ trimmed item ''message''])"

definition kind_line :: "any_map \<Rightarrow> string list" where
  "kind_line item =
     (if trimmed item ''message'' = [] then []
      else [labelled (firstNonEmptyString [trimmed item ''severity'', trimmed item ''kind'', ''info'']) (trimmed item ''message'')])"

definition info_line :: "any_map \<Rightarrow> string list" where
  "info_line item =
     (if trimmed item ''message'' = [] then []
      else [labelled (firstNonEmptyString [trimmed item ''severity'', ''info'']) (trimmed item ''message'')])"

definition located_line :: "any_map \<Rightarrow> string list" where
  "located_line item =
     (let file = trimmed (asMap (item ''location'')) ''file''
      in if trimmed item ''message'' = [] then []
         else [labelled (firstNonEmptyString [trimmed item ''severity'', ''info''])
                 (trimmed item ''message'' @ (if file \<noteq> [] then '' ('' @ file @ '')'' else []))])"

definition hypothesis_line :: "any_map \<Rightarrow> string list" where
  "hypothesis_line item =
     (let path = trimmed item ''path''; evidence = trimmed item ''evidence'';
          label = firstNonEmptyString [trimmed item ''priority'', trimmed item ''failure_mode'', ''info'']
      in if path \<noteq> [] \<and> evidence \<noteq> [] then [labelled label (path @ '' -> '' @ evidence)]
         else if evidence \<noteq> [] then [labelled label evidence] else [])"

definition intent_line :: "any_map \<Rightarrow> string list" where
  "intent_line item =
     (let path = trimmed item ''path''; action = trimmed item ''action''; rationale = trimmed item ''rationale''
      in if path \<noteq> [] \<and> action \<noteq> [] \<and> rationale \<noteq> [] then [''- '' @ path @ '': '' @ action @ '' ('' @ rationale @ '')'']
         else if path \<noteq> [] \<and> action \<noteq> [] then [''- '' @ path @ '': '' @ action]
         else if action \<noteq> [] then [''- '' @ action] else [])"

definition precedent_line :: "any_map \<Rightarrow> string list" where
  "precedent_line item =
     (let ref = trimmed item ''source_ref''; summary = trimmed item ''summary''
      in if ref \<noteq> [] \<and> summary \<noteq> [] then [''- '' @ ref @ '' -> '' @ summary]
         else if summary \<noteq> [] then [''- '' @ summary] else [])"

definition joined :: "string list \<Rightarrow> string" where
  "joined lines = TrimSpace (join_with [CHR 0x0A] lines)"

section \<open>The brief of a repair\<close>

definition buildRepairEditBrief ::
  "string \<Rightarrow> string \<Rightarrow> any_map list \<Rightarrow> any_map \<Rightarrow> string list \<Rightarrow> any_map list \<Rightarrow> any_map list \<Rightarrow> scope_correction \<Rightarrow> any_map list \<Rightarrow> string" where
  "buildRepairEditBrief goal feedback findings results scopePaths hypotheses intents s precedents =
     joined ([TrimSpace goal] @
       text_block [''Repair feedback:''] (TrimSpace feedback) @
       text_block [''Scope correction:''] (scReason s) @
       paths_line ''Planner confirmed paths: '' (scConfirmedPlanner s) @
       (if scContradictedPlanner s \<noteq> [] then paths_line ''Planner selected paths contradicted by review: '' (scContradictedPlanner s)
        else if scPlanner s = ''contradicted''
        then [''Planner selected paths contradicted by review: previous shortlist lost priority for the next attempt''] else []) @
       paths_line ''Planner rejected but observed in diff: '' (scPromotedRejected s) @
       (if scConfirmedRejected s \<noteq> [] then paths_line ''Planner rejected paths still excluded: '' (scConfirmedRejected s)
        else if scRejected s = ''confirmed'' then paths_line ''Planner rejected paths still excluded: '' (scExcluded s) else []) @
       paths_line ''Excluded paths for next attempt: '' (scExcluded s) @
       block [''Retrieved precedents:''] precedents precedent_line @
       block [''Prior findings:''] findings severity_line @
       (case asIntOK (results ''exit_code'') of None \<Rightarrow> [] | Some i \<Rightarrow> [''Previous validation exit code: '' @ Itoa i]) @
       paths_line ''Likely scope: '' scopePaths @
       block [''Failure hypotheses:''] hypotheses hypothesis_line @
       block [''Patch intent:''] intents intent_line)"

section \<open>The call of the coding agent\<close>

definition resolution_lines :: "any_map \<Rightarrow> string list" where
  "resolution_lines m =
     (let planner = trimmed m ''planner_scope_resolution''; rejected = trimmed m ''planner_rejected_scope_resolution''
      in (if planner = ''contradicted''
          then [''Planner selected paths contradicted by review: previous shortlist lost priority for this attempt'']
          else if planner = ''confirmed'' then paths_line ''Planner confirmed paths: '' (strs_of m ''suspected_paths'') else []) @
         (if rejected = ''confirmed'' then paths_line ''Planner rejected paths still excluded: '' (strs_of m ''excluded_scope_paths'')
          else if rejected = ''contradicted'' then paths_line ''Planner rejected but observed in diff: '' (strs_of m ''suspected_paths'')
          else []) @
         paths_line ''Excluded paths: '' (strs_of m ''excluded_scope_paths''))"

definition context_lines :: "any_map \<Rightarrow> string list" where
  "context_lines m =
     (case m ''context_package'' of
        Some (AMap p) \<Rightarrow>
          text_block [[], ''Retrieved context:'']
            (if trimmed p ''prompt_section'' = [] then [] else truncateForPrompt (trimmed p ''prompt_section'') 1600)
      | _ \<Rightarrow> [])"

definition enrichAiderDescription :: "string \<Rightarrow> any_map \<Rightarrow> string" where
  "enrichAiderDescription description m =
     joined ([TrimSpace description] @
       text_block [[], ''Research brief:''] (trimmed m ''objective_research_brief'') @
       text_block [[], ''Repair feedback:''] (trimmed m ''objective_repair_feedback'') @
       block [[], ''Review findings:''] (maps_of m ''review_comments'') severity_line @
       block [[], ''Structured findings:''] (maps_of m ''objective_findings'') kind_line @
       block [[], ''Failure hypotheses:''] (maps_of m ''objective_failure_hypotheses'') hypothesis_line @
       text_block [[], ''Baseline validation:''] (trimmed m ''objective_baseline_summary'') @
       block [''Baseline validation findings:''] (maps_of m ''objective_baseline_findings'') info_line @
       block [[], ''Patch intent:''] (maps_of m ''objective_patch_intent'') intent_line @
       block [[], ''Static analysis findings:''] (maps_of m ''objective_analysis_findings'') located_line @
       text_block [[], ''Scope correction:''] (trimmed m ''scope_correction_reason'') @
       resolution_lines m @
       block [[], ''Retrieved precedents:''] (maps_of m ''objective_retrieval_precedents'') precedent_line @
       context_lines m)"

definition contextPackageSourceRefs :: "any_val option \<Rightarrow> string list" where
  "contextPackageSourceRefs v =
     (case v of
        Some (AStrs xs) \<Rightarrow> xs
      | Some (AArr xs) \<Rightarrow> nonblank (map (\<lambda>x. TrimSpace (asString (Some x))) xs)
      | _ \<Rightarrow> [])"

definition text_keys :: "(string \<times> string) list" where
  "text_keys =
     [(''objective_title'', ''objective_title''), (''initiative_goal'', ''initiative_goal''), (''work_item_kind'', ''work_item_kind''),
      (''objective_research_brief'', ''objective_research_brief''), (''repair_feedback'', ''objective_repair_feedback''),
      (''review_decision'', ''review_decision''), (''objective_baseline_summary'', ''objective_baseline_summary''),
      (''scope_correction_reason'', ''scope_correction_reason''), (''planner_scope_resolution'', ''planner_scope_resolution''),
      (''planner_rejected_scope_resolution'', ''planner_rejected_scope_resolution''),
      (''retrieval_packet_artifact_id'', ''retrieval_packet_artifact_id'')]"

definition list_keys :: "string list" where
  "list_keys = [''review_comments'', ''objective_findings'', ''objective_failure_hypotheses'', ''objective_patch_intent'',
     ''objective_baseline_findings'', ''objective_analysis_findings'', ''objective_retrieval_precedents'']"

definition buildAiderTaskMetadata :: "any_map \<Rightarrow> any_map" where
  "buildAiderTaskMetadata m =
     (let base = map_of
            (map (\<lambda>(k, src). (k, AStr (trimmed m src))) text_keys @
             map (\<lambda>k. (k, AArr (map AMap (maps_of m k)))) list_keys @
             map (\<lambda>k. (k, AMap (nonNilMap (m k)))) [''objective_baseline_test_results'', ''objective_analysis_summary''] @
             map (\<lambda>k. (k, AStrs (strs_of m k))) [''excluded_scope_paths'', ''validation_commands'', ''suspected_paths''] @
             [(''objective_iteration'', AInt (asInt (m ''objective_iteration'') 1)),
              (''objective_max_iterations'', AInt (asInt (m ''objective_max_iterations'') 3))])
      in case m ''context_package'' of
           Some (AMap p) \<Rightarrow>
             if p = Map.empty then base
             else base(''context_prompt_section'' \<mapsto> AStr (trimmed p ''prompt_section''),
                       ''context_source_refs'' \<mapsto> AStrs (contextPackageSourceRefs (p ''source_refs'')))
         | _ \<Rightarrow> base)"

fun flagValueIndex :: "string list \<Rightarrow> string \<Rightarrow> nat option" where
  "flagValueIndex [] flag = None"
| "flagValueIndex (a # as) flag = (if a = flag then Some 0 else map_option Suc (flagValueIndex as flag))"

definition with_description :: "any_map \<Rightarrow> string list \<Rightarrow> string list" where
  "with_description m argv =
     (case flagValueIndex argv ''--description'' of
        None \<Rightarrow> argv
      | Some i \<Rightarrow> if i + 1 < length argv then argv[i + 1 := enrichAiderDescription (argv ! (i + 1)) m] else argv)"

definition with_flag :: "string \<Rightarrow> string list \<Rightarrow> string list \<Rightarrow> string list" where
  "with_flag flag val argv =
     (case flagValueIndex argv flag of None \<Rightarrow> if val = [] then argv else argv @ flag # val | Some i \<Rightarrow> argv)"

definition prepareCommandArgs :: "(any_val \<Rightarrow> string) \<Rightarrow> string list \<Rightarrow> any_map \<Rightarrow> string list" where
  "prepareCommandArgs json argv request =
     (let m = asMap (request ''_task_metadata'')
      in case argv of
           [] \<Rightarrow> argv
         | a # as \<Rightarrow>
             if a \<noteq> ''aider-task'' \<or> m = Map.empty then argv
             else with_flag ''--metadata'' [json (AMap (buildAiderTaskMetadata m))]
                    (with_flag ''--scope-paths''
                       (if strs_of m ''suspected_paths'' = [] then [] else [join_with '','' (strs_of m ''suspected_paths'')])
                       (with_flag ''--test-command''
                          (if strs_of m ''validation_commands'' = [] then [] else [join_with '' '' (strs_of m ''validation_commands'')])
                          (with_description m argv))))"

end
