(* ===== verification/Workspace_Disk.thy ===== *)
theory Workspace_Disk
  imports Go_Paths
begin

text \<open>
  The machine a local bridge runs on, as far as its executor touches it: a disk with files, directories and
  symbolic links, and the commands that were started. Paths are resolved the way the operating system does: a
  link on the way is replaced by its target, at most forty times. A file is addressed by the list of words of its
  physical path. Errors of the hardware and of permissions are not modelled; the text of an error of the system
  is the parameter \<open>os\<close>. A command may change the disk in any way and is a parameter as well.
\<close>

section \<open>The disk\<close>

datatype node = File string | Dir | Link string

type_synonym disk = "(string list \<times> node) list"

definition node_at :: "disk \<Rightarrow> string list \<Rightarrow> node option" where
  "node_at d q = (if q = [] then Some Dir else map_of d q)"

definition put_node :: "string list \<Rightarrow> node \<Rightarrow> disk \<Rightarrow> disk" where
  "put_node q n d = (q, n) # filter (\<lambda>e. fst e \<noteq> q) d"

function follow :: "nat \<Rightarrow> disk \<Rightarrow> string list \<Rightarrow> string list \<Rightarrow> string list option" where
  "follow n d cur [] = Some cur"
| "follow n d cur (w # ws) =
     (if w = [] \<or> w = ''.'' then follow n d cur ws
      else if w = ''..'' then follow n d (butlast cur) ws
      else (case node_at d (cur @ [w]) of
              Some (Link t) \<Rightarrow>
                (case n of
                   0 \<Rightarrow> None
                 | Suc m \<Rightarrow> follow m d (if IsAbs t then [] else cur) (split_on CHR ''/'' t @ ws))
            | Some Dir \<Rightarrow> follow n d (cur @ [w]) ws
            | _ \<Rightarrow> if ws = [] then Some (cur @ [w]) else None))"
  by pat_completeness auto
termination by (relation "measures [\<lambda>(n, d, cur, ws). n, \<lambda>(n, d, cur, ws). length ws]") auto

declare follow.simps(2) [simp del]

definition max_links :: nat where
  "max_links = 40"

definition physical :: "disk \<Rightarrow> string \<Rightarrow> string list option" where
  "physical d p = follow max_links d [] (path_words p)"

section \<open>System calls\<close>

definition os_Stat :: "disk \<Rightarrow> string \<Rightarrow> node option" where
  "os_Stat d p = (case physical d p of None \<Rightarrow> None | Some q \<Rightarrow> node_at d q)"

definition os_ReadFile :: "(string \<Rightarrow> string \<Rightarrow> string) \<Rightarrow> disk \<Rightarrow> string \<Rightarrow> string result" where
  "os_ReadFile os d p =
     (case os_Stat d p of Some (File c) \<Rightarrow> Inr c | _ \<Rightarrow> Inl (os ''open'' p))"

definition os_WriteFile :: "(string \<Rightarrow> string \<Rightarrow> string) \<Rightarrow> string \<Rightarrow> string \<Rightarrow> disk \<Rightarrow> disk result" where
  "os_WriteFile os p c d =
     (case physical d p of
        None \<Rightarrow> Inl (os ''open'' p)
      | Some q \<Rightarrow> if node_at d q = Some Dir then Inl (os ''open'' p) else Inr (put_node q (File c) d))"

text \<open>
  \<^verbatim>\<open>os.MkdirAll\<close> makes the missing directories one after the other; what it made before an error stays.
\<close>

fun mkdirs :: "string list \<Rightarrow> string list \<Rightarrow> disk \<Rightarrow> disk \<times> bool" where
  "mkdirs done [] d = (d, True)"
| "mkdirs done (w # ws) d =
     (case follow max_links d [] (done @ [w]) of
        None \<Rightarrow> (d, False)
      | Some q \<Rightarrow>
          (case node_at d q of
             Some Dir \<Rightarrow> mkdirs (done @ [w]) ws d
           | Some _ \<Rightarrow> (d, False)
           | None \<Rightarrow>
               (case follow max_links d [] done of
                  None \<Rightarrow> (d, False)
                | Some p \<Rightarrow> if q = p @ [w] then mkdirs (done @ [w]) ws (put_node q Dir d) else (d, False))))"

definition os_MkdirAll :: "(string \<Rightarrow> string \<Rightarrow> string) \<Rightarrow> string \<Rightarrow> disk \<Rightarrow> disk \<times> string option" where
  "os_MkdirAll os p d = (case mkdirs [] (path_words p) d of (d', ok) \<Rightarrow> (d', if ok then None else Some (os ''mkdir'' p)))"

text \<open>
  \<^verbatim>\<open>filepath.Walk\<close> does not follow links: a root that is a link or a file is visited alone, a directory with
  everything below it. The entries that are no directories are returned, by the path they are visited under.
\<close>

definition os_Lstat :: "disk \<Rightarrow> string \<Rightarrow> string list option" where
  "os_Lstat d p =
     (let ws = path_words p
      in if ws = [] then Some []
         else (case follow max_links d [] (butlast ws) of
                 None \<Rightarrow> None
               | Some q \<Rightarrow> if node_at d (q @ [last ws]) = None then None else Some (q @ [last ws])))"

definition below :: "string list \<Rightarrow> (string list \<times> node) \<Rightarrow> bool" where
  "below q e \<longleftrightarrow> prefix q (fst e) \<and> fst e \<noteq> q \<and> snd e \<noteq> Dir"

definition walk_files :: "disk \<Rightarrow> string \<Rightarrow> string list option" where
  "walk_files d p =
     (case os_Lstat d p of
        None \<Rightarrow> None
      | Some q \<Rightarrow>
          if node_at d q \<noteq> Some Dir then Some [p]
          else Some (map (\<lambda>e. abs_path (path_words p @ drop (length q) (fst e))) (filter (below q) d)))"

section \<open>Commands\<close>

record command =
  cDir :: string
  cArgv :: "string list"
  cStdin :: string

record outcome =
  oStdout :: string
  oStderr :: string
  oExit :: int
  oError :: "string option"

record host =
  hDisk :: disk
  hRuns :: "command list"

definition run_process :: "(command \<Rightarrow> disk \<Rightarrow> disk \<times> outcome) \<Rightarrow> command \<Rightarrow> host \<Rightarrow> host \<times> outcome" where
  "run_process run c h =
     (case run c (hDisk h) of (d, o') \<Rightarrow> (h\<lparr>hDisk := d, hRuns := hRuns h @ [c]\<rparr>, o'))"

section \<open>A disk without links below a directory\<close>

definition link_free :: "string list \<Rightarrow> disk \<Rightarrow> bool" where
  "link_free root d \<longleftrightarrow>
     (\<forall>q. prefix q root \<longrightarrow> node_at d q = Some Dir) \<and> (\<forall>q t. prefix root q \<longrightarrow> node_at d q \<noteq> Some (Link t))"

lemma follow_word:
  "clean_word True w \<Longrightarrow> follow n d cur (w # ws) =
     (case node_at d (cur @ [w]) of
        Some (Link t) \<Rightarrow>
          (case n of 0 \<Rightarrow> None | Suc m \<Rightarrow> follow m d (if IsAbs t then [] else cur) (split_on CHR ''/'' t @ ws))
      | Some Dir \<Rightarrow> follow n d (cur @ [w]) ws
      | _ \<Rightarrow> if ws = [] then Some (cur @ [w]) else None)"
  by (simp add: follow.simps(2) clean_word_def)

text \<open>Where no link is met, a clean path is its own physical path.\<close>

lemma follow_plain:
  assumes "\<forall>w \<in> set ws. clean_word True w" "\<forall>q t. prefix cur q \<longrightarrow> q \<noteq> cur \<longrightarrow> prefix q (cur @ ws) \<longrightarrow> node_at d q \<noteq> Some (Link t)"
    and "follow n d cur ws = Some q"
  shows "q = cur @ ws"
  using assms
proof (induction ws arbitrary: cur)
  case (Cons w ws)
  have w: "clean_word True w" using Cons.prems(1) by simp
  have l: "node_at d (cur @ [w]) \<noteq> Some (Link t)" for t using Cons.prems(2) by simp
  show ?case
  proof (cases "node_at d (cur @ [w]) = Some Dir")
    case True
    have "q = (cur @ [w]) @ ws"
      by (rule Cons.IH) (use Cons.prems True w in \<open>auto simp: follow_word intro: append_prefixD\<close>)
    then show ?thesis by simp
  next
    case False
    with l Cons.prems(3) w show ?thesis
      by (auto simp: follow_word split: option.splits node.splits if_splits)
  qed
qed simp

lemma follow_link_free:
  assumes "link_free root d" "\<forall>w \<in> set (root @ ws). clean_word True w" "follow n d [] (root @ ws) = Some q"
  shows "q = root @ ws"
proof -
  have "node_at d p \<noteq> Some (Link t)" if p: "prefix p (root @ ws)" for p t
  proof (cases "prefix p root")
    case True
    with assms(1) show ?thesis by (simp add: link_free_def)
  next
    case False
    with p have "prefix root p" by (metis append_prefixD prefix_same_cases prefix_append prefixI)
    with assms(1) show ?thesis by (simp add: link_free_def)
  qed
  then show ?thesis using follow_plain [OF assms(2) _ assms(3)] by simp
qed

lemma node_at_put: "q \<noteq> [] \<Longrightarrow> node_at (put_node q n d) p = (if p = q then Some n else node_at d p)"
proof -
  have "map_of (filter (\<lambda>e. fst e \<noteq> q) d) p = (if p = q then None else map_of d p)"
    by (induction d) auto
  then show "q \<noteq> [] \<Longrightarrow> ?thesis" by (simp add: node_at_def put_node_def)
qed

end
