(* ===== verification/Retrieval.thy ===== *)
theory Retrieval
  imports Executor_Review
begin

text \<open>
  The selection of precedents (\<^verbatim>\<open>memory/retrieval.go\<close>): the chunks that a retrieval returned are ranked by score, by
  the priority of their memory class and by reference, and the best ones are kept, few of each class and each
  source once. The executor of a bridge makes the same kind of list from the context package of a
  claim (\<^verbatim>\<open>bridge/executor.go\<close>). Scores are real numbers, their text is the parameter \<open>fmt\<close>.
\<close>

section \<open>Memory classes and texts\<close>

definition MemoryClassRepoSpecific :: string where "MemoryClassRepoSpecific = ''repo_specific''"
definition MemoryClassTechnologySimilar :: string where "MemoryClassTechnologySimilar = ''technology_similar''"
definition MemoryClassPatternSimilar :: string where "MemoryClassPatternSimilar = ''pattern_similar''"
definition MemoryClassNegativeGuardrail :: string where "MemoryClassNegativeGuardrail = ''negative_guardrail''"
definition MemoryClassRecentExecution :: string where "MemoryClassRecentExecution = ''recent_execution''"
definition MemoryClassPlanningContext :: string where "MemoryClassPlanningContext = ''planning_context''"

lemmas class_defs = MemoryClassRepoSpecific_def MemoryClassTechnologySimilar_def MemoryClassPatternSimilar_def
  MemoryClassNegativeGuardrail_def MemoryClassRecentExecution_def MemoryClassPlanningContext_def

definition NormalizeMemoryClass :: "string \<Rightarrow> string" where
  "NormalizeMemoryClass raw =
     (if TrimSpace raw \<in> {MemoryClassRepoSpecific, MemoryClassTechnologySimilar, MemoryClassPatternSimilar,
           MemoryClassNegativeGuardrail, MemoryClassRecentExecution, MemoryClassPlanningContext}
      then TrimSpace raw else MemoryClassRepoSpecific)"

definition DefaultPrecedentLimit :: int where "DefaultPrecedentLimit = 5"
definition DefaultPerClassLimit :: int where "DefaultPerClassLimit = 2"
definition DefaultChunkSummaryChars :: int where "DefaultChunkSummaryChars = 180"

definition CompactText :: "string \<Rightarrow> int \<Rightarrow> string" where
  "CompactText text0 maxChars0 =
     (let text = TrimSpace text0; maxChars = (if maxChars0 \<le> 0 then DefaultChunkSummaryChars else maxChars0); rs = runes text
      in if text = [] then []
         else if int (length rs) \<le> maxChars then text
         else if maxChars \<le> 3 then concat (take (nat maxChars) rs)
         else TrimSpace (concat (take (nat (maxChars - 3)) rs)) @ ''...'')"

definition BuildSelectionReason :: "('s \<Rightarrow> string) \<Rightarrow> string \<Rightarrow> 's option \<Rightarrow> string" where
  "BuildSelectionReason fmt className sc =
     (let label = map (\<lambda>c. if c = CHR ''_'' then CHR '' '' else c) (NormalizeMemoryClass className)
      in case sc of
           Some s \<Rightarrow> ''selected as '' @ label @ '' evidence (score '' @ fmt s @ '')''
         | None \<Rightarrow> ''selected as '' @ label @ '' evidence'')"

definition memoryClassPriority :: "string \<Rightarrow> int" where
  "memoryClassPriority className =
     (let c = NormalizeMemoryClass className
      in if c = MemoryClassRepoSpecific then 0 else if c = MemoryClassRecentExecution then 1
         else if c = MemoryClassPatternSimilar then 2 else if c = MemoryClassTechnologySimilar then 3
         else if c = MemoryClassPlanningContext then 4 else 10)"

section \<open>Selecting hits\<close>

record context_chunk =
  ckID :: string
  ckSourceType :: string
  ckSourceID :: string
  ckChunkIndex :: int
  ckContentText :: string
  ckMetadata :: any_map
  ckScore :: "real option"
  ckSourceRef :: string
  ckMemoryClass :: string
  ckInitiativeID :: "string option"
  ckTaskID :: "string option"
  ckArtifactID :: "string option"

record retrieval_hit =
  rhSourceRef :: string
  rhSourceType :: string
  rhSourceID :: string
  rhScore :: "real option"
  rhMemoryClass :: string
  rhInitiativeID :: "string option"
  rhTaskID :: "string option"
  rhArtifactID :: "string option"
  rhSummary :: string
  rhSelectionReason :: string

definition chunk_class :: "context_chunk \<Rightarrow> string" where
  "chunk_class c = NormalizeMemoryClass (if ckMemoryClass c = [] then trimmed (ckMetadata c) ''memory_class'' else ckMemoryClass c)"

definition chunk_score :: "context_chunk \<Rightarrow> real" where
  "chunk_score c = (case ckScore c of None \<Rightarrow> -1 | Some s \<Rightarrow> s)"

definition ranked_before :: "context_chunk \<Rightarrow> context_chunk \<Rightarrow> bool" where
  "ranked_before a b \<longleftrightarrow>
     (if chunk_score a = chunk_score b then
        (if memoryClassPriority (chunk_class a) = memoryClassPriority (chunk_class b)
         then str_less (TrimSpace (ckSourceRef a)) (TrimSpace (ckSourceRef b))
         else memoryClassPriority (chunk_class a) < memoryClassPriority (chunk_class b))
      else chunk_score b < chunk_score a)"

definition candidates :: "context_chunk list \<Rightarrow> context_chunk list" where
  "candidates chunks = sort_by ranked_before (filter (\<lambda>c. chunk_class c \<noteq> MemoryClassNegativeGuardrail) chunks)"

definition source_ref :: "context_chunk \<Rightarrow> string" where
  "source_ref c =
     (let r = TrimSpace (ckSourceRef c)
      in if r = [] then TrimSpace (ckSourceType c) @ '':'' @ TrimSpace (ckSourceID c) else r)"

definition hit_of :: "(real \<Rightarrow> string) \<Rightarrow> context_chunk \<Rightarrow> retrieval_hit" where
  "hit_of fmt c =
     \<lparr>rhSourceRef = source_ref c, rhSourceType = TrimSpace (ckSourceType c), rhSourceID = TrimSpace (ckSourceID c),
      rhScore = ckScore c, rhMemoryClass = chunk_class c, rhInitiativeID = ckInitiativeID c, rhTaskID = ckTaskID c,
      rhArtifactID = ckArtifactID c, rhSummary = CompactText (ckContentText c) DefaultChunkSummaryChars,
      rhSelectionReason = BuildSelectionReason fmt (chunk_class c) (ckScore c)\<rparr>"

text \<open>The loop over the candidates; \<open>found\<close> are the hits so far, from which both tables of the loop follow.\<close>

definition of_class :: "string \<Rightarrow> retrieval_hit list \<Rightarrow> retrieval_hit list" where
  "of_class className hits = filter (\<lambda>h. rhMemoryClass h = className) hits"

fun select_hits :: "(real \<Rightarrow> string) \<Rightarrow> int \<Rightarrow> int \<Rightarrow> retrieval_hit list \<Rightarrow> context_chunk list \<Rightarrow> retrieval_hit list" where
  "select_hits fmt limit perClass found [] = found"
| "select_hits fmt limit perClass found (c # cs) =
     (if source_ref c = '':'' \<or> source_ref c \<in> rhSourceRef ` set found \<or> perClass \<le> int (length (of_class (chunk_class c) found))
      then select_hits fmt limit perClass found cs
      else
        (let found' = found @ [hit_of fmt c]
         in if limit \<le> int (length found') then found' else select_hits fmt limit perClass found' cs))"

definition compact_summaries :: "retrieval_hit list \<Rightarrow> string \<Rightarrow> string option" where
  "compact_summaries hits = (\<lambda>className. map_option rhSummary (find (\<lambda>h. rhMemoryClass h = className) hits))"

definition SelectRetrievalHits ::
  "(real \<Rightarrow> string) \<Rightarrow> context_chunk list \<Rightarrow> int \<Rightarrow> int \<Rightarrow> retrieval_hit list \<times> (string \<Rightarrow> string option) \<times> string list" where
  "SelectRetrievalHits fmt chunks limit0 perClass0 =
     (let limit = (if limit0 \<le> 0 then DefaultPrecedentLimit else limit0);
          perClass = (if perClass0 \<le> 0 then DefaultPerClassLimit else perClass0);
          hits = select_hits fmt limit perClass [] (candidates chunks)
      in (hits, compact_summaries hits, map (\<lambda>h. rhSourceRef h @ '': '' @ rhSelectionReason h) hits))"

section \<open>The precedents of a claim\<close>

text \<open>A score of the package is a number of its JSON form; \<open>fmt\<close> prints it with two digits.\<close>

definition put_id :: "string \<Rightarrow> any_map \<Rightarrow> any_map \<Rightarrow> any_map" where
  "put_id key item m = (if trimmed item key = [] then m else m(key \<mapsto> AStr (trimmed item key)))"

definition put_score :: "any_map \<Rightarrow> any_map \<Rightarrow> any_map" where
  "put_score item m = (case item ''score'' of Some (AInt s) \<Rightarrow> m(''score'' \<mapsto> AInt s) | _ \<Rightarrow> m)"

definition with_ids :: "any_map \<Rightarrow> any_map \<Rightarrow> any_map" where
  "with_ids item m = put_id ''artifact_id'' item (put_id ''task_id'' item (put_id ''initiative_id'' item m))"

definition given_precedent :: "(int \<Rightarrow> string) \<Rightarrow> any_map \<Rightarrow> any_map" where
  "given_precedent fmt item =
     (let c = NormalizeMemoryClass (asString (item ''memory_class'')); reason = trimmed item ''selection_reason''
      in with_ids item (put_score item
           [''source_ref'' \<mapsto> AStr (trimmed item ''source_ref''), ''source_type'' \<mapsto> AStr (trimmed item ''source_type''),
            ''source_id'' \<mapsto> AStr (trimmed item ''source_id''), ''summary'' \<mapsto> AStr (CompactText (trimmed item ''summary'') 220),
            ''memory_class'' \<mapsto> AStr c,
            ''selection_reason'' \<mapsto> AStr (if reason = [] then BuildSelectionReason fmt c None else reason)]))"

definition chunk_precedent :: "(int \<Rightarrow> string) \<Rightarrow> any_map \<Rightarrow> any_map" where
  "chunk_precedent fmt chunk =
     (let c = NormalizeMemoryClass (asString (chunk ''memory_class''))
      in with_ids chunk (put_score chunk
           [''source_ref'' \<mapsto> AStr (trimmed chunk ''source_ref''), ''source_type'' \<mapsto> AStr (trimmed chunk ''source_type''),
            ''source_id'' \<mapsto> AStr (trimmed chunk ''source_id''),
            ''summary'' \<mapsto> AStr (CompactText (trimmed chunk ''content_text'') 220), ''memory_class'' \<mapsto> AStr c,
            ''selection_reason'' \<mapsto> AStr (BuildSelectionReason fmt c (asIntOK (chunk ''score'')))]))"

text \<open>The chunks are taken in their order, at most two of a class and five in all.\<close>

definition same_class :: "any_map \<Rightarrow> any_map list \<Rightarrow> any_map list" where
  "same_class chunk found = filter (\<lambda>p. p ''memory_class'' = Some (AStr (NormalizeMemoryClass (asString (chunk ''memory_class''))))) found"

fun select_chunks :: "(int \<Rightarrow> string) \<Rightarrow> any_map list \<Rightarrow> any_map list \<Rightarrow> any_map list" where
  "select_chunks fmt found [] = found"
| "select_chunks fmt found (c # cs) =
     (if c = Map.empty \<or> DefaultPerClassLimit \<le> int (length (same_class c found)) then select_chunks fmt found cs
      else
        (let found' = found @ [chunk_precedent fmt c]
         in if DefaultPrecedentLimit \<le> int (length found') then found' else select_chunks fmt found' cs))"

definition objects :: "any_val option \<Rightarrow> any_map list" where
  "objects v = (case v of Some (AArr xs) \<Rightarrow> map dec_obj xs | _ \<Rightarrow> [])"

definition retrievalPrecedentsFromContextPackage :: "(int \<Rightarrow> string) \<Rightarrow> any_val option \<Rightarrow> any_map list" where
  "retrievalPrecedentsFromContextPackage fmt v =
     (let package = nonNilMap v;
          given = map (given_precedent fmt) (take (nat DefaultPrecedentLimit) (filter (\<lambda>m. m \<noteq> Map.empty) (objects (package ''precedents''))))
      in if package = Map.empty then []
         else if given \<noteq> [] then given
         else select_chunks fmt [] (objects (package ''chunks'')))"

section \<open>What is selected\<close>

lemma ranked_asym: "ranked_before a b \<Longrightarrow> \<not> ranked_before b a"
  by (auto simp: ranked_before_def dest: str_less_trans split: if_splits)

lemma ranked_neg_trans: "\<not> ranked_before b a \<Longrightarrow> \<not> ranked_before c b \<Longrightarrow> \<not> ranked_before c a"
  using str_less_total [of "TrimSpace (ckSourceRef a)" "TrimSpace (ckSourceRef b)"]
    str_less_total [of "TrimSpace (ckSourceRef b)" "TrimSpace (ckSourceRef c)"]
  by (auto simp: ranked_before_def dest: str_less_trans split: if_splits)

text \<open>The same loop on the chunks, of which the hits are the images.\<close>

definition class_of :: "string \<Rightarrow> context_chunk list \<Rightarrow> context_chunk list" where
  "class_of k cs = filter (\<lambda>c. chunk_class c = k) cs"

fun picked :: "int \<Rightarrow> int \<Rightarrow> context_chunk list \<Rightarrow> context_chunk list \<Rightarrow> context_chunk list" where
  "picked limit per ds [] = ds"
| "picked limit per ds (c # cs) =
     (if source_ref c = '':'' \<or> source_ref c \<in> source_ref ` set ds \<or> per \<le> int (length (class_of (chunk_class c) ds))
      then picked limit per ds cs
      else if limit \<le> int (length ds) + 1 then ds @ [c] else picked limit per (ds @ [c]) cs)"

lemma hit_of_simps [simp]: "rhSourceRef (hit_of fmt c) = source_ref c" "rhMemoryClass (hit_of fmt c) = chunk_class c"
  by (simp_all add: hit_of_def)

lemma of_class_map: "of_class k (map (hit_of fmt) ds) = map (hit_of fmt) (class_of k ds)"
  by (simp add: of_class_def class_of_def filter_map comp_def)

lemma select_hits_picked: "select_hits fmt limit per (map (hit_of fmt) ds) cs = map (hit_of fmt) (picked limit per ds cs)"
proof (induction limit per ds cs rule: picked.induct)
  case (2 limit per ds c cs)
  have r: "rhSourceRef ` hit_of fmt ` set ds = source_ref ` set ds" by (simp add: image_image)
  show ?case using 2 by (simp add: Let_def r of_class_map)
qed simp

lemma picked_more: "\<exists>es. picked limit per ds cs = ds @ es \<and> subseq es cs"
proof (induction limit per ds cs rule: picked.induct)
  case (2 limit per ds c cs)
  show ?case
  proof (cases "source_ref c = '':'' \<or> source_ref c \<in> source_ref ` set ds \<or> per \<le> int (length (class_of (chunk_class c) ds))")
    case True
    with 2(1) show ?thesis by (auto simp: list_emb.intros)
  next
    case no: False
    show ?thesis
    proof (cases "limit \<le> int (length ds) + 1")
      case True
      with no show ?thesis by (auto intro!: exI [of _ "[c]"])
    next
      case False
      from 2(2) [OF no False] no False show ?thesis by auto
    qed
  qed
qed simp

text \<open>The limits hold, and whatever is left out was shut out by chunks that are ranked at least as high.\<close>

definition full_before :: "int \<Rightarrow> context_chunk list \<Rightarrow> context_chunk \<Rightarrow> bool" where
  "full_before limit es c \<longleftrightarrow> int (length es) = limit \<and> (\<forall>d \<in> set es. \<not> ranked_before c d)"

lemma picked_limits:
  assumes "distinct (map source_ref ds)" "\<forall>k. int (length (class_of k ds)) \<le> per" "int (length ds) < limit"
  shows "distinct (map source_ref (picked limit per ds cs)) \<and> (\<forall>k. int (length (class_of k (picked limit per ds cs))) \<le> per) \<and>
    int (length (picked limit per ds cs)) \<le> limit"
  using assms
proof (induction limit per ds cs rule: picked.induct)
  case (2 limit per ds c cs)
  show ?case
  proof (cases "source_ref c = '':'' \<or> source_ref c \<in> source_ref ` set ds \<or> per \<le> int (length (class_of (chunk_class c) ds))")
    case True
    with 2 show ?thesis by simp
  next
    case no: False
    have n: "distinct (map source_ref (ds @ [c]))" "\<forall>k. int (length (class_of k (ds @ [c]))) \<le> per"
      using no 2(3,4) by (auto simp: class_of_def)
    show ?thesis
    proof (cases "limit \<le> int (length ds) + 1")
      case True
      with no n 2(5) show ?thesis by simp
    next
      case False
      with 2(2) [OF no False n] no show ?thesis by simp
    qed
  qed
qed simp

lemma picked_shut_out:
  assumes "sorted_wrt (\<lambda>a b. \<not> ranked_before b a) (ds @ cs)" "\<forall>k. int (length (class_of k ds)) \<le> per" "int (length ds) < limit"
    and "distinct (map source_ref ds)" and "c \<in> set cs" "source_ref c \<noteq> '':''" "source_ref c \<notin> source_ref ` set (picked limit per ds cs)"
  shows "full_before limit (picked limit per ds cs) c \<or> full_before per (class_of (chunk_class c) (picked limit per ds cs)) c"
  using assms
proof (induction limit per ds cs rule: picked.induct)
  case (2 limit per ds b cs)
  have s: "sorted_wrt (\<lambda>a b. \<not> ranked_before b a) (ds @ cs)" using 2(3) by (simp add: sorted_wrt_append)
  show ?case
  proof (cases "source_ref b = '':'' \<or> source_ref b \<in> source_ref ` set ds \<or> per \<le> int (length (class_of (chunk_class b) ds))")
    case True
    then have e: "picked limit per ds (b # cs) = picked limit per ds cs" by simp
    show ?thesis
    proof (cases "c = b")
      case cb: True
      let ?k = "chunk_class c"
      obtain es where es: "picked limit per ds cs = ds @ es" using picked_more by blast
      have "source_ref b \<notin> source_ref ` set ds" using 2(9) cb e es by auto
      then have p: "per \<le> int (length (class_of ?k ds))" using True 2(8) cb by blast
      have l: "int (length (class_of ?k (picked limit per ds cs))) \<le> per" using picked_limits [OF 2(6,4,5)] by blast
      have "length (class_of ?k (ds @ es)) = length (class_of ?k ds) + length (class_of ?k es)" by (simp add: class_of_def)
      then have "length (class_of ?k es) = 0" "int (length (class_of ?k ds)) = per" using l p unfolding es by linarith+
      then have n: "class_of ?k es = []" "int (length (class_of ?k ds)) = per" by simp_all
      have "\<forall>d \<in> set ds. \<not> ranked_before c d" using 2(3) cb by (simp add: sorted_wrt_append)
      then have "full_before per (class_of ?k ds) c" using n(2) by (simp add: full_before_def class_of_def)
      moreover have "class_of ?k (picked limit per ds cs) = class_of ?k ds" using es n(1) by (simp add: class_of_def)
      ultimately show ?thesis unfolding e by simp
    next
      case False
      with 2(1) [OF True s 2(4,5,6)] 2(7,8,9) e show ?thesis by simp
    qed
  next
    case no: False
    have n: "\<forall>k. int (length (class_of k (ds @ [b]))) \<le> per" "distinct (map source_ref (ds @ [b]))"
      using no 2(4,6) by (auto simp: class_of_def)
    have b: "\<exists>es. picked limit per ds (b # cs) = (ds @ [b]) @ es"
      using picked_more [of limit per "ds @ [b]" cs] no by auto
    then have c: "c \<in> set cs" using 2(7,9) by auto
    show ?thesis
    proof (cases "limit \<le> int (length ds) + 1")
      case True
      with no have e: "picked limit per ds (b # cs) = ds @ [b]" by simp
      have "\<forall>d \<in> set (ds @ [b]). \<not> ranked_before c d" using 2(3) c by (auto simp: sorted_wrt_append)
      then show ?thesis unfolding e using True 2(5) by (simp add: full_before_def)
    next
      case False
      have e: "picked limit per ds (b # cs) = picked limit per (ds @ [b]) cs" using no False by simp
      have "sorted_wrt (\<lambda>a b. \<not> ranked_before b a) ((ds @ [b]) @ cs)" using 2(3) by simp
      from 2(2) [OF no False this n(1) _ n(2) c 2(8)] show ?thesis using False 2(9) unfolding e by simp
    qed
  qed
qed simp

lemma candidates_sorted: "sorted_wrt (\<lambda>a b. \<not> ranked_before b a) (candidates chunks)"
  unfolding candidates_def by (rule sorted_sort_by) (use ranked_neg_trans ranked_asym in blast)+

lemma sorted_subseq: "sorted_wrt P cs \<Longrightarrow> subseq ds cs \<Longrightarrow> sorted_wrt P ds"
proof (induction cs arbitrary: ds)
  case Nil
  then have "ds = []" by (auto elim: list_emb.cases)
  then show ?case by simp
next
  case (Cons c cs)
  show ?case
  proof (cases "\<exists>es. ds = c # es \<and> subseq es cs")
    case True
    then obtain es where es: "ds = c # es" "subseq es cs" by blast
    then have "set es \<subseteq> set cs" by (auto dest: list_emb_set)
    then show ?thesis using Cons es by auto
  next
    case False
    then have "subseq ds cs" using Cons.prems(2) by (cases ds) (auto split: if_splits)
    then show ?thesis using Cons by simp
  qed
qed

text \<open>
  C40: the hits are the best chunks that the limits admit: they are the images of chunks without guardrails in
  order of rank, at most the limit, at most the class limit of each class, each source once, and every
  other chunk that has a source and is no guardrail is shut out by hits ranked no lower, either of all classes or
  of its own.
\<close>

theorem hits_are_the_best_that_fit:
  assumes "most = (if limit \<le> 0 then 5 else limit)" and "per = (if perClass \<le> 0 then 2 else perClass)"
  shows "\<exists>ds. fst (SelectRetrievalHits fmt chunks limit perClass) = map (hit_of fmt) ds \<and> set ds \<subseteq> set chunks \<and>
    (\<forall>d \<in> set ds. chunk_class d \<noteq> ''negative_guardrail'') \<and> sorted_wrt (\<lambda>a b. \<not> ranked_before b a) ds \<and>
    distinct (map source_ref ds) \<and> int (length ds) \<le> most \<and> (\<forall>k. int (length (class_of k ds)) \<le> per) \<and>
    (\<forall>c \<in> set chunks. chunk_class c \<noteq> ''negative_guardrail'' \<longrightarrow> source_ref c \<noteq> '':'' \<longrightarrow> source_ref c \<notin> source_ref ` set ds \<longrightarrow>
      full_before most ds c \<or> full_before per (class_of (chunk_class c) ds) c)"
proof -
  define ds where "ds = picked most per [] (candidates chunks)"
  have pos: "int (length ([] :: context_chunk list)) < most" "\<forall>k. int (length (class_of k [])) \<le> per"
    using assms by (auto simp: class_of_def)
  obtain es where es: "ds = [] @ es" "subseq es (candidates chunks)" using picked_more unfolding ds_def by blast
  have sub: "subseq ds (candidates chunks)" using es by simp
  have members: "c \<in> set (candidates chunks) \<longleftrightarrow> c \<in> set chunks \<and> chunk_class c \<noteq> ''negative_guardrail''" for c
    by (auto simp: candidates_def MemoryClassNegativeGuardrail_def)
  have members_of: "set ds \<subseteq> set (candidates chunks)" using sub by (auto dest: list_emb_set)
  have e: "fst (SelectRetrievalHits fmt chunks limit perClass) = map (hit_of fmt) ds"
    using select_hits_picked [of fmt most per "[]" "candidates chunks"] assms
    unfolding SelectRetrievalHits_def Let_def ds_def DefaultPrecedentLimit_def DefaultPerClassLimit_def by (simp only: fst_conv list.map)
  have s: "sorted_wrt (\<lambda>a b. \<not> ranked_before b a) ([] @ candidates chunks)" using candidates_sorted by simp
  show ?thesis
    using e members picked_limits [of "[]" per most "candidates chunks"] pos picked_shut_out [OF s pos(2,1)]
      sorted_subseq [OF candidates_sorted sub] members_of
    unfolding ds_def [symmetric] by (intro exI [of _ ds]) auto
qed

definition chunk_sample :: "string \<Rightarrow> string \<Rightarrow> real \<Rightarrow> context_chunk" where
  "chunk_sample ref k sc = \<lparr>ckID = ref, ckSourceType = ''doc'', ckSourceID = ref, ckChunkIndex = 0, ckContentText = ''x'', ckMetadata = Map.empty,
     ckScore = Some sc, ckSourceRef = ref, ckMemoryClass = k, ckInitiativeID = None, ckTaskID = None, ckArtifactID = None\<rparr>"

lemma hits_are_the_best_that_fit_witness:
  "\<exists>ds. fst (SelectRetrievalHits (\<lambda>s. ''1'') [chunk_sample ''a'' ''recent_execution'' 1] 1 1) = map (hit_of (\<lambda>s. ''1'')) ds \<and>
    set ds \<subseteq> {chunk_sample ''a'' ''recent_execution'' 1} \<and> length ds \<le> 1"
  using hits_are_the_best_that_fit [where limit = 1 and perClass = 1 and fmt = "\<lambda>s. ''1''" and
      chunks = "[chunk_sample ''a'' ''recent_execution'' 1]", OF HOL.refl HOL.refl]
  by auto

end
