(* ===== verification/Executor.thy ===== *)
theory Executor
  imports Executor_Brief Workspace_Disk Retrieval
begin

text \<open>
  The executor of a local bridge (\<^verbatim>\<open>bridge/executor.go\<close>, \<^verbatim>\<open>bridge/scaffold_project.go\<close>): a claimed task names
  a tool, the executor checks the allowed capabilities and the approval, runs the tool in the workspace and
  reports a result. Every tool is a function on the machine. Parameters are the error texts of the system, the
  outcome of a command, the matching of a glob, the encoder of JSON and of quoted text, the text of a score, the
  order in which a map is walked and the static analysis.
\<close>

section \<open>Environment and results\<close>

record exec_env =
  xRoot :: string
  xOs :: "string \<Rightarrow> string \<Rightarrow> string"
  xRun :: "command \<Rightarrow> disk \<Rightarrow> disk \<times> outcome"
  xMatch :: "string \<Rightarrow> string \<Rightarrow> bool result"
  xJson :: "any_val \<Rightarrow> string"
  xQuote :: "string \<Rightarrow> string"
  xAnalyze :: "string \<Rightarrow> string list \<Rightarrow> disk \<Rightarrow> (any_val \<times> any_val \<times> int) result"
  xScore :: "int \<Rightarrow> string"
  xOrder :: "string list \<Rightarrow> string list"

type_synonym tool_run = "host \<times> bridge_result result"

definition no_result :: bridge_result where
  "no_result = \<lparr>rsStatus = [], rsSummary = None, rsStdout = None, rsStderr = None, rsExitCode = None, rsDiff = None,
     rsChangedFiles = [], rsTestResults = Map.empty, rsArtifacts = [], rsErrorMessage = None, rsActionType = None,
     rsTargetResource = None, rsTimeoutSeconds = None, rsReviewDecision = None, rsReviewComments = [], rsFindings = [],
     rsCapabilityUsage = [], rsCapabilityHelped = [], rsCapabilityNoise = [], rsCapabilityDenied = []\<rparr>"

definition trimmedPtr :: "string \<Rightarrow> string option" where
  "trimmedPtr s = (if TrimSpace s = [] then None else Some (TrimSpace s))"

definition allowedCommands :: "string list" where
  "allowedCommands = [''pytest'', ''python'', ''python3'', ''uv'', ''npm'', ''pnpm'', ''yarn'', ''make'', ''composer'', ''php'',
     ''git'', ''aider-task'']"

definition toolCapabilityMap :: "string \<Rightarrow> string" where
  "toolCapabilityMap tool =
     (if tool \<in> {''read_file'', ''filesystem.read''} then ''filesystem.read''
      else if tool \<in> {''list_files'', ''filesystem.list''} then ''filesystem.list''
      else if tool \<in> {''write_file'', ''filesystem.write''} then ''filesystem.write''
      else if tool = ''code_analysis'' then ''code.analysis'' else [])"

section \<open>Paths\<close>

definition NewWorkspaceExecutor :: "string \<Rightarrow> string \<Rightarrow> disk \<Rightarrow> (string \<Rightarrow> string \<Rightarrow> string) \<Rightarrow> string result" where
  "NewWorkspaceExecutor cwd raw d os =
     (let p = TrimSpace raw; r = path_clean (if IsAbs p then path_clean p else path_join cwd p)
      in case os_Stat d r of
           None \<Rightarrow> Inl (os ''stat'' r)
         | Some n \<Rightarrow> if n = Dir then Inr r else Inl (''workspace root is not a directory: '' @ r))"

definition resolveWithDefault :: "exec_env \<Rightarrow> any_val option \<Rightarrow> string \<Rightarrow> (string \<times> string) result" where
  "resolveWithDefault env raw fallback =
     (let path = (if TrimSpace (asString raw) = [] then fallback else TrimSpace (asString raw))
      in if path = [] then Inl ''path is required''
         else
           (let candidate = path_clean (if IsAbs path then path else path_join (xRoot env) path);
                rel = filepath_Rel (xRoot env) candidate
            in if rel = ''..'' \<or> HasPrefix rel ''../'' then Inl (''path escapes workspace: '' @ path)
               else Inr (candidate, rel)))"

definition resolve :: "exec_env \<Rightarrow> any_val option \<Rightarrow> (string \<times> string) result" where
  "resolve env raw = resolveWithDefault env raw []"

section \<open>Commands and the state of the repository\<close>

definition start :: "exec_env \<Rightarrow> string \<Rightarrow> string list \<Rightarrow> string \<Rightarrow> host \<Rightarrow> host \<times> outcome" where
  "start env dir argv stdin h = run_process (xRun env) \<lparr>cDir = dir, cArgv = argv, cStdin = stdin\<rparr> h"

definition gitTopLevel :: "exec_env \<Rightarrow> host \<Rightarrow> host \<times> string option" where
  "gitTopLevel env h =
     (case start env (xRoot env) [''git'', ''rev-parse'', ''--show-toplevel''] [] h of
        (h1, o') \<Rightarrow> (h1, case oError o' of Some e \<Rightarrow> None | None \<Rightarrow> Some (path_clean (TrimSpace (oStdout o')))))"

definition TrimRightCR :: "string \<Rightarrow> string" where
  "TrimRightCR s = rev (dropWhile (\<lambda>c. c = CHR 0x0D) (rev s))"

definition status_files :: "string \<Rightarrow> string list" where
  "status_files out =
     map (\<lambda>line. if 3 < length line then TrimSpace (drop 3 line) else TrimSpace line)
       (filter (\<lambda>line. TrimSpace line \<noteq> []) (map TrimRightCR (split_on CHR 0x0A out)))"

definition workspaceGitState :: "exec_env \<Rightarrow> host \<Rightarrow> host \<times> string \<times> string list" where
  "workspaceGitState env h =
     (case start env (xRoot env) [''git'', ''status'', ''--short'', ''--untracked-files=all''] [] h of
        (h1, s) \<Rightarrow>
          (case start env (xRoot env) [''git'', ''diff'', ''--no-ext-diff''] [] h1 of
             (h2, d) \<Rightarrow> (h2, oStdout d, status_files (oStdout s))))"

definition workspaceGitSummaries :: "exec_env \<Rightarrow> host \<Rightarrow> host \<times> string \<times> string" where
  "workspaceGitSummaries env h =
     (case start env (xRoot env) [''git'', ''status'', ''--short'', ''--untracked-files=all''] [] h of
        (h1, s) \<Rightarrow>
          (case start env (xRoot env) [''git'', ''diff'', ''--stat'', ''--no-ext-diff''] [] h1 of
             (h2, d) \<Rightarrow> (h2, oStdout s, oStdout d)))"

definition withGitArtifacts :: "exec_env \<Rightarrow> bridge_result \<Rightarrow> host \<Rightarrow> host \<times> bridge_result" where
  "withGitArtifacts env r h =
     (case gitTopLevel env h of
        (h1, gitRoot) \<Rightarrow>
          if gitRoot \<noteq> Some (xRoot env) then (h1, r)
          else (case workspaceGitState env h1 of
                  (h2, diff, changed) \<Rightarrow> (h2, r\<lparr>rsChangedFiles := changed, rsDiff := Some diff\<rparr>)))"

definition process_result :: "outcome \<Rightarrow> string \<Rightarrow> bridge_result" where
  "process_result o' summary =
     no_result\<lparr>rsStatus := ''success'', rsSummary := Some summary, rsStdout := trimmedPtr (oStdout o'),
       rsStderr := trimmedPtr (oStderr o'), rsExitCode := Some (oExit o')\<rparr>"

definition failure_text :: "outcome \<Rightarrow> string \<Rightarrow> string" where
  "failure_text o' e = firstNonEmptyString [TrimSpace (oStderr o'), TrimSpace (oStdout o'), e]"

definition runSubprocess :: "exec_env \<Rightarrow> string list \<Rightarrow> string \<Rightarrow> host \<Rightarrow> tool_run" where
  "runSubprocess env argv summary h =
     (if argv = [] then (h, Inl ''argv is required'')
      else
        (case start env (xRoot env) argv [] h of
           (h1, o') \<Rightarrow>
             (case oError o' of
                Some e \<Rightarrow>
                  (h1, Inr ((process_result o' summary)\<lparr>rsStatus := ''error'', rsErrorMessage := Some (failure_text o' e)\<rparr>))
              | None \<Rightarrow> (case withGitArtifacts env (process_result o' summary) h1 of (h2, r) \<Rightarrow> (h2, Inr r)))))"

definition runAllowedCommand :: "exec_env \<Rightarrow> string list \<Rightarrow> string \<Rightarrow> host \<Rightarrow> tool_run" where
  "runAllowedCommand env argv summary h =
     (case argv of
        [] \<Rightarrow> (h, Inl ''argv is required'')
      | a # as \<Rightarrow>
          if a \<notin> set allowedCommands then (h, Inl (''command not allowed: '' @ a))
          else runSubprocess env argv summary h)"

section \<open>Files\<close>

definition readFile :: "exec_env \<Rightarrow> any_map \<Rightarrow> host \<Rightarrow> tool_run" where
  "readFile env request h =
     (h, case resolve env (request ''path'') of
           Inl e \<Rightarrow> Inl e
         | Inr (path, rel) \<Rightarrow>
             (case os_ReadFile (xOs env) (hDisk h) path of
                Inl e \<Rightarrow> Inl e
              | Inr raw \<Rightarrow> Inr (no_result\<lparr>rsStatus := ''success'', rsSummary := Some (''Read '' @ rel), rsStdout := Some raw\<rparr>)))"

text \<open>A pattern that the matcher refuses ends the walk with its error.\<close>

fun match_files :: "(string \<Rightarrow> string \<Rightarrow> bool result) \<Rightarrow> string \<Rightarrow> string list \<Rightarrow> string list result" where
  "match_files m pattern [] = Inr []"
| "match_files m pattern (p # ps) =
     (case m pattern (path_base p) of
        Inl e \<Rightarrow> Inl e
      | Inr b \<Rightarrow> (case match_files m pattern ps of Inl e \<Rightarrow> Inl e | Inr qs \<Rightarrow> Inr (if b then p # qs else qs)))"

definition listFiles :: "exec_env \<Rightarrow> any_map \<Rightarrow> host \<Rightarrow> tool_run" where
  "listFiles env request h =
     (h, case resolveWithDefault env (request ''path'') ''.'' of
           Inl e \<Rightarrow> Inl e
         | Inr (path, rel) \<Rightarrow>
             (case walk_files (hDisk h) path of
                None \<Rightarrow> Inl (xOs env ''lstat'' path)
              | Some ps \<Rightarrow>
                  (case match_files (xMatch env) (firstNonEmptyString [trimmed request ''pattern'', ''*'']) ps of
                     Inl e \<Rightarrow> Inl e
                   | Inr found \<Rightarrow>
                       (let items = sort_by str_less (map (filepath_Rel (xRoot env)) found)
                        in Inr (no_result\<lparr>rsStatus := ''success'',
                                  rsSummary := Some (''Listed '' @ Itoa (int (length items)) @ '' files''),
                                  rsStdout := Some (join_with [CHR 0x0A] items)\<rparr>)))))"

definition filepath_Dir :: "string \<Rightarrow> string" where
  "filepath_Dir p = path_clean (rev (dropWhile (\<lambda>c. c \<noteq> CHR ''/'') (rev p)))"

text \<open>Creating the directory of a file and writing the file: the two calls that every writing tool makes.\<close>

definition write_under :: "exec_env \<Rightarrow> string \<Rightarrow> string \<Rightarrow> host \<Rightarrow> host \<times> string option" where
  "write_under env path content h =
     (case os_MkdirAll (xOs env) (filepath_Dir path) (hDisk h) of
        (d, Some e) \<Rightarrow> (h\<lparr>hDisk := d\<rparr>, Some e)
      | (d, None) \<Rightarrow>
          (case os_WriteFile (xOs env) path content d of
             Inl e \<Rightarrow> (h\<lparr>hDisk := d\<rparr>, Some e)
           | Inr d' \<Rightarrow> (h\<lparr>hDisk := d'\<rparr>, None)))"

definition writeFile :: "exec_env \<Rightarrow> any_map \<Rightarrow> host \<Rightarrow> tool_run" where
  "writeFile env request h =
     (case resolve env (request ''path'') of
        Inl e \<Rightarrow> (h, Inl e)
      | Inr (path, rel) \<Rightarrow>
          (case write_under env path (asString (request ''content'')) h of
             (h1, Some e) \<Rightarrow> (h1, Inl e)
           | (h1, None) \<Rightarrow>
               (case withGitArtifacts env
                       (no_result\<lparr>rsStatus := ''success'', rsSummary := Some (''Wrote '' @ rel), rsChangedFiles := [rel]\<rparr>) h1 of
                  (h2, r) \<Rightarrow> (h2, Inr r))))"

definition applyPatch :: "exec_env \<Rightarrow> any_map \<Rightarrow> host \<Rightarrow> tool_run" where
  "applyPatch env request h =
     (let patch = asString (request ''patch'')
      in if TrimSpace patch = [] then (h, Inl ''patch is required'')
         else
           (case start env (xRoot env) [''git'', ''apply'', ''--whitespace=nowarn'', ''-''] patch h of
              (h1, o') \<Rightarrow>
                (case oError o' of
                   Some e \<Rightarrow> (h1, Inl (TrimSpace (firstNonEmptyString [oStderr o', oStdout o', e])))
                 | None \<Rightarrow>
                     (case withGitArtifacts env ((process_result o' ''Applied patch'')\<lparr>rsExitCode := Some 0\<rparr>) h1 of
                        (h2, r) \<Rightarrow> (h2, Inr r)))))"

section \<open>Running commands\<close>

definition coder_packet :: "string \<Rightarrow> string \<Rightarrow> any_map \<Rightarrow> bridge_result \<Rightarrow> any_map" where
  "coder_packet status stat m r =
     (let observable = (TrimSpace (derefString (rsDiff r)) \<noteq> [] \<or> rsChangedFiles r \<noteq> [] \<or> TrimSpace status \<noteq> [] \<or> TrimSpace stat \<noteq> []);
          packet = [''tool'' \<mapsto> AStr ''aider-task'', ''status'' \<mapsto> AStr (result_status r),
            ''summary'' \<mapsto> AStr (TrimSpace (derefString (rsSummary r))),
            ''exit_code'' \<mapsto> AInt (case rsExitCode r of None \<Rightarrow> 0 | Some i \<Rightarrow> i),
            ''changed_files'' \<mapsto> AStrs (rsChangedFiles r), ''changed_file_count'' \<mapsto> AInt (int (length (rsChangedFiles r))),
            ''diff_present'' \<mapsto> ABool observable, ''git_status_short'' \<mapsto> AStr status, ''git_diff_stat'' \<mapsto> AStr stat,
            ''validation_commands'' \<mapsto> AStrs (strs_of m ''validation_commands''),
            ''suspected_paths'' \<mapsto> AStrs (strs_of m ''suspected_paths''),
            ''objective_iteration'' \<mapsto> AInt (asInt (m ''objective_iteration'') 1),
            ''scope_correction'' \<mapsto> AMap
              [''planner_scope_resolution'' \<mapsto> AStr (trimmed m ''planner_scope_resolution''),
               ''planner_rejected_scope_resolution'' \<mapsto> AStr (trimmed m ''planner_rejected_scope_resolution''),
               ''excluded_scope_paths'' \<mapsto> AStrs (strs_of m ''excluded_scope_paths''),
               ''reason'' \<mapsto> AStr (trimmed m ''scope_correction_reason'')],
            ''self_check'' \<mapsto> AMap
              [''git_status_short_present'' \<mapsto> ABool (TrimSpace status \<noteq> []), ''git_diff_stat_present'' \<mapsto> ABool (TrimSpace stat \<noteq> []),
               ''diff_present'' \<mapsto> ABool observable]]
      in put_nonblank ''stdout_excerpt'' (truncateForPrompt (TrimSpace (derefString (rsStdout r))) 800)
           (put_nonblank ''stderr_excerpt'' (truncateForPrompt (TrimSpace (derefString (rsStderr r))) 800) packet))"

definition text_packet :: "string \<Rightarrow> string \<Rightarrow> string \<Rightarrow> string \<Rightarrow> any_map" where
  "text_packet type title media text =
     [''type'' \<mapsto> AStr type, ''title'' \<mapsto> AStr title, ''media_type'' \<mapsto> AStr media, ''content_text'' \<mapsto> AStr text]"

definition withCoderPacket :: "exec_env \<Rightarrow> bridge_result \<Rightarrow> string list \<Rightarrow> any_map \<Rightarrow> host \<Rightarrow> host \<times> bridge_result" where
  "withCoderPacket env r argv m h =
     (case argv of
        [] \<Rightarrow> (h, r)
      | a # as \<Rightarrow>
          if a \<noteq> ''aider-task'' then (h, r)
          else
            (case workspaceGitSummaries env h of
               (h1, status, stat) \<Rightarrow>
                 (h1, r\<lparr>rsArtifacts := rsArtifacts r @ [text_packet ''coder_packet'' ''Coder execution packet'' ''application/json''
                          (xJson env (AMap (coder_packet status stat m r)))]\<rparr>)))"

definition runCommand :: "exec_env \<Rightarrow> any_map \<Rightarrow> host \<Rightarrow> tool_run" where
  "runCommand env request h =
     (case anyStringSlice (request ''argv'') of
        None \<Rightarrow> (h, Inl ''run_command requires argv list'')
      | Some argv0 \<Rightarrow>
          if argv0 = [] then (h, Inl ''run_command requires argv list'')
          else
            (let argv = prepareCommandArgs (xJson env) argv0 request
             in case runAllowedCommand env argv (''Ran command: '' @ join_with '' '' argv) h of
                  (h1, Inl e) \<Rightarrow> (h1, Inl e)
                | (h1, Inr r) \<Rightarrow>
                    if hd argv = ''aider-task'' then
                      (case withGitArtifacts env r h1 of
                         (h2, r2) \<Rightarrow>
                           (case withCoderPacket env r2 argv (asMap (request ''_task_metadata'')) h2 of (h3, r3) \<Rightarrow> (h3, Inr r3)))
                    else (h1, Inr r)))"

definition runTests :: "exec_env \<Rightarrow> any_map \<Rightarrow> host \<Rightarrow> tool_run" where
  "runTests env request h =
     (let argv = anyStringSliceDefault (request ''argv'') [''pytest'', ''-q'']
      in case runAllowedCommand env argv ''Ran tests'' h of
           (h1, Inl e) \<Rightarrow> (h1, Inl e)
         | (h1, Inr r) \<Rightarrow>
             (let code = (case rsExitCode r of None \<Rightarrow> 0 | Some i \<Rightarrow> i);
                  r1 = r\<lparr>rsTestResults :=
                    [''argv'' \<mapsto> AStrs argv, ''exit_code'' \<mapsto> AInt code, ''status'' \<mapsto> AStr (result_status r),
                     ''stdout'' \<mapsto> AStr (derefString (rsStdout r)), ''stderr'' \<mapsto> AStr (derefString (rsStderr r))]\<rparr>
              in (h1, Inr (if result_status r \<noteq> ''success''
                           then r1\<lparr>rsFindings := buildValidationFailureFindings argv code
                                  (firstNonEmptyString [TrimSpace (derefString (rsErrorMessage r)), TrimSpace (derefString (rsStderr r)),
                                     TrimSpace (derefString (rsStdout r))])\<rparr>
                           else r1))))"

section \<open>Reviews\<close>

text \<open>The scope that a review compares, from the request and the files that changed.\<close>

definition scope_of_request :: "any_map \<Rightarrow> string list \<Rightarrow> review_scope" where
  "scope_of_request request changed =
     (case reviewRetrievalAlignment (maps_of request ''objective_retrieval_precedents'') changed of
        (alignment, refs) \<Rightarrow>
          \<lparr>rvPlanner = reviewScopeAlignment (anyHypothesisPaths (request ''initial_scope_hypotheses'')) changed,
           rvRejected = reviewRejectedScopeAlignment (anyHypothesisPaths (request ''rejected_scope_hypotheses'')) changed,
           rvResearch = reviewScopeAlignment (reviewResearchPaths request) changed, rvRetrieval = alignment, rvRefs = refs\<rparr>)"

definition unknown_scope :: "any_map \<Rightarrow> string list \<Rightarrow> review_scope" where
  "unknown_scope request changed =
     (scope_of_request request changed)\<lparr>rvPlanner := ''unknown'', rvRejected := ''unknown'', rvResearch := ''unknown''\<rparr>"

definition alignment_findings :: "any_map \<Rightarrow> review_scope \<Rightarrow> string list \<Rightarrow> any_map list" where
  "alignment_findings request s changed =
     buildReviewAlignmentFindings (rvPlanner s) (rvRejected s) (rvResearch s)
       (anyHypothesisPaths (request ''initial_scope_hypotheses'')) (anyHypothesisPaths (request ''rejected_scope_hypotheses''))
       (reviewResearchPaths request) changed"

definition retrieval_findings :: "review_scope \<Rightarrow> string list \<Rightarrow> any_map list" where
  "retrieval_findings s changed = buildReviewRetrievalFindings (rvRetrieval s) (rvRefs s) changed"

definition missing_diff_text :: string where
  "missing_diff_text = ''review requires an actual repository diff before approval''"

definition missing_diff_finding :: "string \<Rightarrow> any_map" where
  "missing_diff_finding rel =
     [''kind'' \<mapsto> AStr ''missing_diff'', ''severity'' \<mapsto> AStr ''medium'', ''message'' \<mapsto> AStr missing_diff_text,
      ''source'' \<mapsto> AStr ''review'', ''project_root'' \<mapsto> AStr rel,
      ''recommended_action'' \<mapsto> AStr ''Produce a real repository diff before asking for approval.'']"

definition review_result ::
  "exec_env \<Rightarrow> any_map \<Rightarrow> string \<Rightarrow> string \<Rightarrow> string list \<Rightarrow> review_scope \<Rightarrow> any_map list \<Rightarrow> string \<Rightarrow> string list \<Rightarrow> outcome \<Rightarrow> bridge_result" where
  "review_result env request decision summary argv s findings diff changed o' =
     no_result\<lparr>rsSummary := Some summary, rsStdout := trimmedPtr (oStdout o'), rsStderr := trimmedPtr (oStderr o'),
       rsExitCode := Some (oExit o'), rsReviewDecision := Some decision, rsFindings := findings, rsDiff := Some diff,
       rsChangedFiles := changed,
       rsArtifacts := [text_packet ''review_packet'' ''Objective review packet'' ''application/json''
         (buildReviewPacketReport (xJson env) decision changed argv (request ''execution_contract'') s findings
            (maps_of request ''objective_retrieval_precedents''))]\<rparr>"

definition changes_requested ::
  "exec_env \<Rightarrow> any_map \<Rightarrow> string \<Rightarrow> string list \<Rightarrow> string \<Rightarrow> string \<Rightarrow> review_scope \<Rightarrow> any_map list \<Rightarrow> string \<Rightarrow> string list \<Rightarrow> outcome \<Rightarrow> bridge_result" where
  "changes_requested env request rel argv severity message s findings diff changed o' =
     (review_result env request ''changes_requested'' (''Review requested changes for '' @ rel) argv s findings diff changed o')
       \<lparr>rsStatus := ''error'', rsErrorMessage := Some message,
        rsReviewComments := [[''severity'' \<mapsto> AStr severity, ''message'' \<mapsto> AStr message]]\<rparr>"

definition review_failed :: "exec_env \<Rightarrow> any_map \<Rightarrow> string \<Rightarrow> string list \<Rightarrow> outcome \<Rightarrow> string \<Rightarrow> host \<Rightarrow> host \<times> bridge_result" where
  "review_failed env request rel argv o' e h =
     (case workspaceGitState env h of
        (h1, diff, changed) \<Rightarrow>
          (let s = scope_of_request request changed; message = failure_text o' e;
               findings = buildValidationFailureFindings argv (oExit o') message @ alignment_findings request s changed @
                 retrieval_findings s changed
           in (h1, changes_requested env request rel argv ''high'' message s findings diff changed o')))"

definition review_passed :: "exec_env \<Rightarrow> any_map \<Rightarrow> string \<Rightarrow> string list \<Rightarrow> outcome \<Rightarrow> host \<Rightarrow> host \<times> bridge_result" where
  "review_passed env request rel argv o' h =
     (case workspaceGitState env h of
        (h1, diff, changed) \<Rightarrow>
          (let tests = [''argv'' \<mapsto> AStrs argv, ''exit_code'' \<mapsto> AInt (oExit o')]
           in if TrimSpace diff = [] \<or> changed = [] then
                (let s = unknown_scope request changed
                 in (h1, (changes_requested env request rel argv ''medium'' missing_diff_text s
                            (missing_diff_finding rel # retrieval_findings s changed) diff changed o')\<lparr>rsTestResults := tests\<rparr>))
              else
                (let s = scope_of_request request changed
                 in (h1, (review_result env request ''approved'' (''Review approved for '' @ rel) argv s
                            (alignment_findings request s changed @ retrieval_findings s changed) diff changed o')
                            \<lparr>rsStatus := ''success'', rsTestResults := tests\<rparr>))))"

definition reviewWorkspace :: "exec_env \<Rightarrow> any_map \<Rightarrow> host \<Rightarrow> tool_run" where
  "reviewWorkspace env request h =
     (case resolveWithDefault env (Some (AStr (firstNonEmptyString [trimmed request ''project_root'', ''.'']))) ''.'' of
        Inl e \<Rightarrow> (h, Inl e)
      | Inr (projectRoot, rel) \<Rightarrow>
          if os_Stat (hDisk h) projectRoot \<noteq> Some Dir then (h, Inl ''project_root does not exist'')
          else
            (let argv = anyStringSliceDefault (request ''test_command'') [''python3'', ''-c'', ''print('' @ [CHR 0x27] @ ''ok'' @ [CHR 0x27] @ '')'']
             in case start env projectRoot argv [] h of
                  (h1, o') \<Rightarrow>
                    (case (case oError o' of Some e \<Rightarrow> review_failed env request rel argv o' e h1
                                           | None \<Rightarrow> review_passed env request rel argv o' h1) of
                       (h2, r) \<Rightarrow> (h2, Inr r))))"

end
