(* ===== verification/Scaffold_Files.thy ===== *)
theory Scaffold_Files
  imports Executor
begin

text \<open>
  The files of a scaffold (\<^verbatim>\<open>scaffoldFiles\<close> of \<^verbatim>\<open>bridge/scaffold_project.go\<close>): the templates as texts, line by
  line, with the name, goal and test focus of the project in their places, and the files of each project type. The
  quoting of the manifest (\<^verbatim>\<open>%q\<close>) is the parameter \<open>xQuote\<close> of the environment.
\<close>

section \<open>Templates\<close>

abbreviation DQ :: string where
  "DQ \<equiv> [CHR 0x22]"

definition file_text :: "string list \<Rightarrow> string" where
  "file_text ls = concat (map (\<lambda>l. l @ [CHR 0x0A]) ls)"

definition defaultBridgeTestCommand :: "string \<Rightarrow> string \<Rightarrow> string list" where
  "defaultBridgeTestCommand projectType stack =
     (let st = ToLower (TrimSpace stack); ty = ToLower (TrimSpace projectType)
      in if st = ''static'' then [''python3'', ''-c'', ''from pathlib import Path; html=Path('' @ [CHR 0x27] @ ''index.html'' @ [CHR 0x27] @
              '').read_text(); assert '' @ [CHR 0x27] @ ''<html'' @ [CHR 0x27] @ '' in html.lower()'']
         else if st = ''node'' then [''node'', ''--check'', ''app.js'']
         else [''python3'', ''-m'', ''py_compile'',
               if ty = ''api_http'' then ''app.py'' else if ty = ''worker_background'' then ''worker.py''
               else if ty = ''debug_regression'' then ''calculator.py'' else if ty = ''toy_repo'' then ''src/service.py''
               else ''main.py''])"

definition scaffold_readme :: "string \<Rightarrow> string \<Rightarrow> string \<Rightarrow> string \<Rightarrow> string \<Rightarrow> string" where
  "scaffold_readme projectType stack projectName goal testFocus = file_text [
     ''# '' @ projectName,
     [],
     ''Type: '' @ projectType,
     ''Stack: '' @ stack,
     ''Goal: '' @ goal,
     ''Test focus: '' @ testFocus,
     [],
     ''This mini project exists to test the Lab local bridge, task orchestration, approvals, diffs, and result persistence without requiring a cathedral of dependencies.'']"

definition app_py :: "string" where
  "app_py = file_text [
     ''from http.server import BaseHTTPRequestHandler, HTTPServer'',
     [],
     [],
     ''class Handler(BaseHTTPRequestHandler):'',
     ''    def do_GET(self):'',
     ''        if self.path == '' @ DQ @ ''/health'' @ DQ @ '':'',
     ''            self.send_response(200)'',
     ''            self.end_headers()'',
     ''            self.wfile.write(b'' @ DQ @ ''ok'' @ DQ @ '')'',
     ''            return'',
     ''        self.send_response(404)'',
     ''        self.end_headers()'',
     [],
     [],
     ''if __name__ == '' @ DQ @ ''__main__'' @ DQ @ '':'',
     ''    HTTPServer(('' @ DQ @ ''127.0.0.1'' @ DQ @ '', 8088), Handler).serve_forever()'']"

definition test_app_py :: "string" where
  "test_app_py = file_text [
     ''from pathlib import Path'',
     [],
     [],
     ''def test_app_has_health_route():'',
     ''    source = Path('' @ DQ @ ''app.py'' @ DQ @ '').read_text()'',
     ''    assert '' @ [CHR 0x27, CHR 0x22] @ ''/health'' @ [CHR 0x22, CHR 0x27] @ '' in source'']"

definition index_html :: "string \<Rightarrow> string \<Rightarrow> string \<Rightarrow> string" where
  "index_html projectName goal testFocus = file_text [
     ''<!doctype html>'',
     ''<html lang='' @ DQ @ ''en'' @ DQ @ ''>'',
     ''  <head>'',
     ''    <meta charset='' @ DQ @ ''utf-8'' @ DQ @ '' />'',
     ''    <meta name='' @ DQ @ ''viewport'' @ DQ @ '' content='' @ DQ @ ''width=device-width, initial-scale=1'' @ DQ @ '' />'',
     ''    <title>'' @ projectName @ ''</title>'',
     ''    <link rel='' @ DQ @ ''stylesheet'' @ DQ @ '' href='' @ DQ @ ''style.css'' @ DQ @ '' />'',
     ''  </head>'',
     ''  <body>'',
     ''    <main class='' @ DQ @ ''shell'' @ DQ @ ''>'',
     ''      <section class='' @ DQ @ ''hero'' @ DQ @ ''>'',
     ''        <p class='' @ DQ @ ''eyebrow'' @ DQ @ ''>Lab frontend smoke</p>'',
     ''        <h1>'' @ projectName @ ''</h1>'',
     ''        <p class='' @ DQ @ ''hero-copy'' @ DQ @ ''>'' @ goal @ ''</p>'',
     ''        <div class='' @ DQ @ ''hero-actions'' @ DQ @ ''>'',
     ''          <button id='' @ DQ @ ''ping'' @ DQ @ '' type='' @ DQ @ ''button'' @ DQ @ ''>Run local test</button>'',
     ''          <span id='' @ DQ @ ''status-badge'' @ DQ @ '' class='' @ DQ @ ''badge badge-idle'' @ DQ @ ''>ready</span>'',
     ''        </div>'',
     ''      </section>'',
     [],
     ''      <section class='' @ DQ @ ''grid'' @ DQ @ ''>'',
     ''        <article class='' @ DQ @ ''card'' @ DQ @ ''>'',
     ''          <h2>Execution target</h2>'',
     ''          <p>Local bridge with deterministic static assets.</p>'',
     ''        </article>'',
     ''        <article class='' @ DQ @ ''card'' @ DQ @ ''>'',
     ''          <h2>Primary check</h2>'',
     ''          <p>'' @ testFocus @ ''</p>'',
     ''        </article>'',
     ''        <article class='' @ DQ @ ''card'' @ DQ @ ''>'',
     ''          <h2>Operator note</h2>'',
     ''          <p>Keep the UI intentionally small, but not embarrassingly generic.</p>'',
     ''        </article>'',
     ''      </section>'',
     [],
     ''      <section class='' @ DQ @ ''console-card'' @ DQ @ ''>'',
     ''        <div class='' @ DQ @ ''console-header'' @ DQ @ ''>'',
     ''          <span>activity.log</span>'',
     ''          <span>frontend smoke</span>'',
     ''        </div>'',
     ''        <pre id='' @ DQ @ ''output'' @ DQ @ ''>ready</pre>'',
     ''      </section>'',
     ''    </main>'',
     ''    <script src='' @ DQ @ ''app.js'' @ DQ @ ''></script>'',
     ''  </body>'',
     ''</html>'']"

definition app_js :: "string" where
  "app_js = file_text [
     ''const output = document.getElementById('' @ DQ @ ''output'' @ DQ @ '');'',
     ''const badge = document.getElementById('' @ DQ @ ''status-badge'' @ DQ @ '');'',
     ''const button = document.getElementById('' @ DQ @ ''ping'' @ DQ @ '');'',
     [],
     ''const lines = ['',
     ''  '' @ DQ @ ''bridge: connected'' @ DQ @ '','',
     ''  '' @ DQ @ ''planner: completed'' @ DQ @ '','',
     ''  '' @ DQ @ ''coder: completed'' @ DQ @ '','',
     ''  '' @ DQ @ ''reviewer: completed'' @ DQ @ '','',
     ''];'',
     [],
     ''button.addEventListener('' @ DQ @ ''click'' @ DQ @ '', () => {'',
     ''  output.textContent = lines.join('' @ [CHR 0x22, CHR 0x5C] @ ''n'' @ DQ @ '');'',
     ''  badge.textContent = '' @ DQ @ ''bridge-tui-ok'' @ DQ @ '';'',
     ''  badge.className = '' @ DQ @ ''badge badge-success'' @ DQ @ '';'',
     ''});'']"

definition style_css :: "string" where
  "style_css = file_text [
     '':root {'',
     ''  color-scheme: light;'',
     ''  --bg: #f3efe5;'',
     ''  --panel: rgba(255, 252, 246, 0.86);'',
     ''  --ink: #172033;'',
     ''  --muted: #5c6474;'',
     ''  --accent: #1e847f;'',
     ''  --accent-strong: #0f5c60;'',
     ''  --border: rgba(23, 32, 51, 0.1);'',
     ''  --shadow: 0 24px 60px rgba(20, 27, 45, 0.12);'',
     ''}'',
     [],
     ''* {'',
     ''  box-sizing: border-box;'',
     ''}'',
     [],
     ''body {'',
     ''  margin: 0;'',
     ''  min-height: 100vh;'',
     ''  font-family: '' @ DQ @ ''Avenir Next'' @ DQ @ '', '' @ DQ @ ''Segoe UI'' @ DQ @ '', sans-serif;'',
     ''  color: var(--ink);'',
     ''  background:'',
     ''    radial-gradient(circle at top left, rgba(30, 132, 127, 0.18), transparent 32%),'',
     ''    linear-gradient(180deg, #fbf8f1 0%, var(--bg) 100%);'',
     ''}'',
     [],
     ''.shell {'',
     ''  width: min(960px, calc(100% - 32px));'',
     ''  margin: 40px auto;'',
     ''}'',
     [],
     ''.hero,'',
     ''.card,'',
     ''.console-card {'',
     ''  background: var(--panel);'',
     ''  border: 1px solid var(--border);'',
     ''  box-shadow: var(--shadow);'',
     ''  backdrop-filter: blur(10px);'',
     ''}'',
     [],
     ''.hero {'',
     ''  padding: 32px;'',
     ''  border-radius: 28px;'',
     ''}'',
     [],
     ''.eyebrow {'',
     ''  margin: 0 0 12px;'',
     ''  text-transform: uppercase;'',
     ''  letter-spacing: 0.16em;'',
     ''  font-size: 0.72rem;'',
     ''  color: var(--accent-strong);'',
     ''}'',
     [],
     ''h1,'',
     ''h2,'',
     ''p {'',
     ''  margin: 0;'',
     ''}'',
     [],
     ''h1 {'',
     ''  font-size: clamp(2.2rem, 4vw, 3.8rem);'',
     ''  line-height: 0.96;'',
     ''  max-width: 12ch;'',
     ''}'',
     [],
     ''.hero-copy {'',
     ''  margin-top: 18px;'',
     ''  max-width: 56ch;'',
     ''  font-size: 1.05rem;'',
     ''  line-height: 1.65;'',
     ''  color: var(--muted);'',
     ''}'',
     [],
     ''.hero-actions {'',
     ''  display: flex;'',
     ''  gap: 12px;'',
     ''  align-items: center;'',
     ''  margin-top: 24px;'',
     ''  flex-wrap: wrap;'',
     ''}'',
     [],
     ''button {'',
     ''  border: 0;'',
     ''  border-radius: 999px;'',
     ''  background: linear-gradient(135deg, var(--accent), var(--accent-strong));'',
     ''  color: white;'',
     ''  padding: 14px 20px;'',
     ''  font: inherit;'',
     ''  font-weight: 700;'',
     ''  cursor: pointer;'',
     ''}'',
     [],
     ''.badge {'',
     ''  display: inline-flex;'',
     ''  align-items: center;'',
     ''  border-radius: 999px;'',
     ''  padding: 10px 14px;'',
     ''  font-size: 0.92rem;'',
     ''  font-weight: 700;'',
     ''}'',
     [],
     ''.badge-idle {'',
     ''  background: rgba(23, 32, 51, 0.08);'',
     ''  color: var(--muted);'',
     ''}'',
     [],
     ''.badge-success {'',
     ''  background: rgba(30, 132, 127, 0.15);'',
     ''  color: var(--accent-strong);'',
     ''}'',
     [],
     ''.grid {'',
     ''  display: grid;'',
     ''  grid-template-columns: repeat(3, minmax(0, 1fr));'',
     ''  gap: 16px;'',
     ''  margin-top: 20px;'',
     ''}'',
     [],
     ''.card {'',
     ''  border-radius: 22px;'',
     ''  padding: 20px;'',
     ''}'',
     [],
     ''.card h2 {'',
     ''  font-size: 1rem;'',
     ''  margin-bottom: 10px;'',
     ''}'',
     [],
     ''.card p {'',
     ''  color: var(--muted);'',
     ''  line-height: 1.55;'',
     ''}'',
     [],
     ''.console-card {'',
     ''  border-radius: 24px;'',
     ''  margin-top: 20px;'',
     ''  overflow: hidden;'',
     ''}'',
     [],
     ''.console-header {'',
     ''  display: flex;'',
     ''  justify-content: space-between;'',
     ''  padding: 14px 18px;'',
     ''  border-bottom: 1px solid var(--border);'',
     ''  color: var(--muted);'',
     ''  font-size: 0.85rem;'',
     ''  text-transform: uppercase;'',
     ''  letter-spacing: 0.08em;'',
     ''}'',
     [],
     ''pre {'',
     ''  margin: 0;'',
     ''  padding: 20px 18px 24px;'',
     ''  min-height: 120px;'',
     ''  white-space: pre-wrap;'',
     ''  color: #d9f7f2;'',
     ''  background: #13202b;'',
     ''  font-family: '' @ DQ @ ''SFMono-Regular'' @ DQ @ '', '' @ DQ @ ''Menlo'' @ DQ @ '', monospace;'',
     ''  line-height: 1.55;'',
     ''}'',
     [],
     ''@media (max-width: 720px) {'',
     ''  .shell {'',
     ''    width: min(100% - 20px, 100%);'',
     ''    margin: 20px auto;'',
     ''  }'',
     [],
     ''  .hero,'',
     ''  .card {'',
     ''    border-radius: 22px;'',
     ''  }'',
     [],
     ''  .grid {'',
     ''    grid-template-columns: 1fr;'',
     ''  }'',
     ''}'']"

definition test_static_py :: "string" where
  "test_static_py = file_text [
     ''from pathlib import Path'',
     [],
     [],
     ''def test_index_contains_button():'',
     ''    html = Path('' @ DQ @ ''index.html'' @ DQ @ '').read_text()'',
     ''    assert '' @ DQ @ ''Run local test'' @ DQ @ '' in html'',
     [],
     [],
     ''def test_static_shell_mentions_activity_log():'',
     ''    html = Path('' @ DQ @ ''index.html'' @ DQ @ '').read_text()'',
     ''    assert '' @ DQ @ ''activity.log'' @ DQ @ '' in html'']"

definition worker_py :: "string \<Rightarrow> string" where
  "worker_py projectName = file_text [
     ''def run_job(payload: dict | None = None) -> str:'',
     ''    payload = payload or {}'',
     ''    return '' @ DQ @ ''processed:'' @ projectName @ '':'' @ DQ @ '' + str(payload.get('' @ DQ @ ''job'' @ DQ @ '', '' @ DQ @ ''default'' @ DQ @ ''))'',
     [],
     [],
     ''if __name__ == '' @ DQ @ ''__main__'' @ DQ @ '':'',
     ''    print(run_job({'' @ DQ @ ''job'' @ DQ @ '': '' @ DQ @ ''demo'' @ DQ @ ''}))'']"

definition test_worker_py :: "string \<Rightarrow> string" where
  "test_worker_py projectName = file_text [
     ''from worker import run_job'',
     [],
     [],
     ''def test_run_job():'',
     ''    assert run_job({'' @ DQ @ ''job'' @ DQ @ '': '' @ DQ @ ''sync'' @ DQ @ ''}) == '' @ DQ @ ''processed:'' @ projectName @ '':sync'' @ DQ]"

definition calculator_py :: "string" where
  "calculator_py = file_text [
     ''def add(a: int, b: int) -> int:'',
     ''    return a + b'',
     [],
     [],
     ''def divide(a: int, b: int) -> float:'',
     ''    if b == 0:'',
     ''        raise ValueError('' @ DQ @ ''division by zero'' @ DQ @ '')'',
     ''    return a / b'']"

definition test_calculator_py :: "string" where
  "test_calculator_py = file_text [
     ''from calculator import add, divide'',
     [],
     [],
     ''def test_add():'',
     ''    assert add(2, 3) == 5'',
     [],
     [],
     ''def test_divide():'',
     ''    assert divide(8, 2) == 4'']"

definition service_py :: "string" where
  "service_py = file_text [
     ''def summarize(items: list[str]) -> str:'',
     ''    return '' @ DQ @ '', '' @ DQ @ ''.join(sorted(items))'']"

definition test_service_py :: "string" where
  "test_service_py = file_text [
     ''from src.service import summarize'',
     [],
     [],
     ''def test_summarize():'',
     ''    assert summarize(['' @ DQ @ ''beta'' @ DQ @ '', '' @ DQ @ ''alpha'' @ DQ @ '']) == '' @ DQ @ ''alpha, beta'' @ DQ]"

definition notes_md :: string where
  "notes_md = file_text [''This repository is intentionally tiny. The point is orchestration testing, not medieval craftsmanship.'']"

definition main_py :: "string \<Rightarrow> string" where
  "main_py projectName = file_text [
     ''def main() -> str:'',
     ''    return '' @ DQ @ ''hello from '' @ projectName @ DQ,
     [],
     [],
     ''if __name__ == '' @ DQ @ ''__main__'' @ DQ @ '':'',
     ''    print(main())'']"

definition test_main_py :: "string \<Rightarrow> string" where
  "test_main_py projectName = file_text [
     ''from main import main'',
     [],
     [],
     ''def test_main():'',
     ''    assert main() == '' @ DQ @ ''hello from '' @ projectName @ DQ]"

definition lab_json :: "(string \<Rightarrow> string) \<Rightarrow> string \<Rightarrow> string \<Rightarrow> string \<Rightarrow> string \<Rightarrow> string \<Rightarrow> string" where
  "lab_json quote projectType stack projectName goal testFocus = file_text [
     ''{'',
     ''  '' @ DQ @ ''project_name'' @ DQ @ '': '' @ quote projectName @ '','',
     ''  '' @ DQ @ ''project_type'' @ DQ @ '': '' @ quote projectType @ '','',
     ''  '' @ DQ @ ''runtime_or_stack'' @ DQ @ '': '' @ quote stack @ '','',
     ''  '' @ DQ @ ''goal'' @ DQ @ '': '' @ quote goal @ '','',
     ''  '' @ DQ @ ''test_focus'' @ DQ @ '': '' @ quote testFocus @ '','',
     ''  '' @ DQ @ ''test_command'' @ DQ @ '': '' @ quote (join_with '' '' (defaultBridgeTestCommand projectType stack)),
     ''}'']"

section \<open>The files of a project type\<close>

text \<open>A map of the source is a list of its entries here; its keys are different.\<close>

definition scaffold_contents ::
  "(string \<Rightarrow> string) \<Rightarrow> string \<Rightarrow> string \<Rightarrow> string \<Rightarrow> string \<Rightarrow> string \<Rightarrow> (string \<times> string) list" where
  "scaffold_contents quote projectType stack projectName goal testFocus =
     [(''README.md'', scaffold_readme projectType stack projectName goal testFocus)] @
     (if projectType = ''api_http'' then [(''app.py'', app_py), (''tests/test_app.py'', test_app_py)]
      else if projectType = ''web_small'' then
        [(''index.html'', index_html projectName goal testFocus), (''app.js'', app_js), (''style.css'', style_css),
         (''tests/test_static.py'', test_static_py)]
      else if projectType = ''worker_background'' then
        [(''worker.py'', worker_py projectName), (''tests/test_worker.py'', test_worker_py projectName)]
      else if projectType = ''debug_regression'' then
        [(''calculator.py'', calculator_py), (''tests/test_calculator.py'', test_calculator_py)]
      else if projectType = ''toy_repo'' then
        [(''src/service.py'', service_py), (''tests/test_service.py'', test_service_py), (''docs/notes.md'', notes_md)]
      else [(''main.py'', main_py projectName), (''tests/test_main.py'', test_main_py projectName)]) @
     [(''lab.json'', lab_json quote projectType stack projectName goal testFocus)]"

definition scaffoldFiles :: "exec_env \<Rightarrow> string \<Rightarrow> string \<Rightarrow> string \<Rightarrow> string \<Rightarrow> string \<Rightarrow> (string \<times> string) list" where
  "scaffoldFiles env projectType0 stack0 projectName goal testFocus =
     (let files = scaffold_contents (xQuote env) (ToLower (TrimSpace projectType0)) (ToLower (TrimSpace stack0)) projectName goal testFocus
      in map (\<lambda>file. (file, case map_of files file of None \<Rightarrow> [] | Some t \<Rightarrow> t)) (xOrder env (map fst files)))"

end
