(* ===== verification/Executor_Tools.thy ===== *)
theory Executor_Tools
  imports Scaffold_Files
begin

text \<open>
  The remaining tools of the executor (\<^verbatim>\<open>bridge/executor.go\<close>, \<^verbatim>\<open>bridge/scaffold_project.go\<close>): the review of a
  project, the static analysis, the research of a repository and the scaffold of a new one, and the dispatch on the
  tool of a claim. An absent list is the empty one.
\<close>

section \<open>Evidence from a repository\<close>

fun words_less :: "string list \<Rightarrow> string list \<Rightarrow> bool" where
  "words_less xs [] = False"
| "words_less [] (y # ys) = True"
| "words_less (x # xs) (y # ys) = (str_less x y \<or> (x = y \<and> words_less xs ys))"

definition isInterestingProjectFile :: "string \<Rightarrow> bool" where
  "isInterestingProjectFile path \<longleftrightarrow>
     ToLower (file_ext path) \<in> {''.go'', ''.py'', ''.ts'', ''.tsx'', ''.js'', ''.jsx'', ''.java'', ''.kt'', ''.rs'', ''.rb'', ''.php'',
       ''.md'', ''.txt'', ''.json'', ''.toml'', ''.yaml'', ''.yml''} \<or> EqualFold (path_base path) ''Dockerfile''"

definition skipped_dir :: "string list \<Rightarrow> bool" where
  "skipped_dir ws \<longleftrightarrow> 1 < length ws \<and> hd ws \<in> {''.git'', ''.lab'', ''node_modules'', ''dist'', ''build''}"

definition listProjectFiles :: "disk \<Rightarrow> string \<Rightarrow> string list" where
  "listProjectFiles d rootDir =
     (case os_Lstat d rootDir of
        None \<Rightarrow> []
      | Some q \<Rightarrow>
          if node_at d q \<noteq> Some Dir then []
          else
            (let visited = sort_by words_less (filter (\<lambda>ws. \<not> skipped_dir ws) (map (\<lambda>e. drop (length q) (fst e)) (filter (below q) d)))
             in sort_by str_less (take 24 (filter isInterestingProjectFile (map (join_with ''/'') visited)))))"

definition uniqueCapabilities :: "any_map list \<Rightarrow> bool \<Rightarrow> string list" where
  "uniqueCapabilities items helpedOnly =
     sort_by str_less (uniqueNonEmptyStrings (map (\<lambda>m. trimmed m ''capability'') (filter (\<lambda>m. helpedOnly \<longrightarrow> asBool (m ''helped'')) items)))"

definition usage_entry :: "string \<Rightarrow> string \<Rightarrow> any_map" where
  "usage_entry source kind =
     [''capability'' \<mapsto> AStr ''filesystem.read'', ''helped'' \<mapsto> ABool True, ''source'' \<mapsto> AStr source, ''kind'' \<mapsto> AStr kind]"

definition read_candidate ::
  "exec_env \<Rightarrow> disk \<Rightarrow> string \<Rightarrow> string \<Rightarrow> string \<Rightarrow> string \<Rightarrow> any_map \<times> any_map list \<Rightarrow> any_map \<times> any_map list" where
  "read_candidate env d rootValue projectRoot rel key acc =
     (case os_ReadFile (xOs env) d (path_join projectRoot rel) of
        Inl e \<Rightarrow> acc
      | Inr text \<Rightarrow>
          ((fst acc)(key \<mapsto> AStr (take 600 text)),
           snd acc @ [usage_entry (path_join (TrimSpace rootValue) rel) ''local_repo_context'']))"

definition manifests :: "string list" where
  "manifests = [''package.json'', ''composer.json'', ''pyproject.toml'', ''go.mod'']"

definition collectProjectReadContext :: "exec_env \<Rightarrow> string \<Rightarrow> disk \<Rightarrow> any_map \<times> any_map list" where
  "collectProjectReadContext env rootValue d =
     (case resolveWithDefault env (Some (AStr rootValue)) ''.'' of
        Inl e \<Rightarrow> (Map.empty, [])
      | Inr (projectRoot, rel) \<Rightarrow>
          (let acc1 = read_candidate env d rootValue projectRoot ''README.md'' ''readme_excerpt'' (Map.empty, []);
               acc2 = (case find (\<lambda>n. os_Stat d (path_join projectRoot n) \<noteq> None) manifests of
                         None \<Rightarrow> acc1
                       | Some n \<Rightarrow> read_candidate env d rootValue projectRoot n ''manifest_excerpt''
                                     ((fst acc1)(''manifest_file'' \<mapsto> AStr n), snd acc1));
               tree = listProjectFiles d projectRoot
           in if tree = [] then acc2
              else ((fst acc2)(''tree_files'' \<mapsto> AStrs tree), snd acc2 @ [usage_entry rootValue ''local_repo_tree''])))"

section \<open>Reviewing a project\<close>

definition project_failure :: "string \<Rightarrow> string \<Rightarrow> outcome \<Rightarrow> bridge_result" where
  "project_failure rel message o' =
     no_result\<lparr>rsStatus := ''error'', rsSummary := Some (''Review failed for '' @ rel), rsStdout := trimmedPtr (oStdout o'),
       rsStderr := trimmedPtr (oStderr o'), rsExitCode := Some (oExit o'), rsErrorMessage := Some message,
       rsArtifacts := [text_packet ''review_report'' ''Project review failure'' ''text/plain'' message]\<rparr>"

text \<open>The expected files that are missing, or the error of a path that leaves the workspace.\<close>

fun missing_files :: "exec_env \<Rightarrow> string \<Rightarrow> disk \<Rightarrow> string list \<Rightarrow> string list result" where
  "missing_files env rootValue d [] = Inr []"
| "missing_files env rootValue d (f # fs) =
     (case resolve env (Some (AStr (path_join rootValue f))) of
        Inl e \<Rightarrow> Inl e
      | Inr (target, rel) \<Rightarrow>
          (case missing_files env rootValue d fs of
             Inl e \<Rightarrow> Inl e
           | Inr ms \<Rightarrow> Inr (if os_Stat d target = None then f # ms else ms)))"

definition line_of :: "string \<Rightarrow> string \<Rightarrow> string" where
  "line_of key v = key @ ''='' @ v @ [CHR 0x0A]"

definition project_evidence :: "exec_env \<Rightarrow> any_map \<Rightarrow> any_map list" where
  "project_evidence env evidence =
     (if evidence = Map.empty then []
      else [text_packet ''review_evidence'' ''Repository evidence snapshot'' ''application/json'' (xJson env (AMap evidence))])"

definition project_approved ::
  "exec_env \<Rightarrow> any_map \<Rightarrow> string \<Rightarrow> string \<Rightarrow> string \<Rightarrow> string list \<Rightarrow> string list \<Rightarrow> outcome \<Rightarrow> disk \<Rightarrow> bridge_result" where
  "project_approved env request rootValue projectRoot rel expected argv o' d =
     (case collectProjectReadContext env rootValue d of
        (evidence, usage) \<Rightarrow>
          (let types = anyStringSliceDefault (request ''analysis_types'') [];
               report0 = line_of ''expected_files'' (join_with '','' expected) @ line_of ''test_command'' (join_with '' '' argv);
               report1 = report0 @ (if evidence = Map.empty then [] else line_of ''manifest_file'' (firstNonEmptyString [asString (evidence ''manifest_file'')]));
               ok = no_result\<lparr>rsStatus := ''success'', rsSummary := Some (''Review passed for '' @ rel), rsStdout := trimmedPtr (oStdout o'),
                 rsStderr := trimmedPtr (oStderr o'), rsExitCode := Some (oExit o')\<rparr>;
               report = text_packet ''review_report'' ''Project review report'' ''text/plain'';
               finish = (\<lambda>arts us. ok\<lparr>rsArtifacts := arts, rsCapabilityUsage := us, rsCapabilityHelped := uniqueCapabilities us True\<rparr>)
           in if types = [] then finish (report report0 # project_evidence env evidence) usage
              else
                (case xAnalyze env projectRoot types d of
                   Inl e \<Rightarrow>
                     finish (report (report1 @ line_of ''analysis_error'' e) # project_evidence env evidence @
                       [text_packet ''code_analysis_report'' ''Code analysis failure'' ''text/plain'' e]) usage
                 | Inr (analysis, summary, hits) \<Rightarrow>
                     finish (report (report1 @ line_of ''analysis_types'' (join_with '','' types) @ line_of ''analysis_findings'' (Itoa hits)) #
                         project_evidence env evidence @
                         [(text_packet ''code_analysis_report'' ''Code analysis report'' ''application/json'' (xJson env analysis))
                            (''metadata'' \<mapsto> AMap [''analysis_types'' \<mapsto> AStrs types, ''summary'' \<mapsto> summary])])
                       (usage @ [[''capability'' \<mapsto> AStr ''code.analysis'', ''helped'' \<mapsto> ABool True, ''source'' \<mapsto> AStr rel,
                          ''finding_count'' \<mapsto> AInt hits, ''kind'' \<mapsto> AStr ''static_analysis'']]))))"

definition reviewProject :: "exec_env \<Rightarrow> any_map \<Rightarrow> host \<Rightarrow> tool_run" where
  "reviewProject env request h =
     (let rootValue = trimmed request ''project_root''
      in if rootValue = [] then (h, Inl ''project_root is required'')
         else
           (case resolve env (Some (AStr rootValue)) of
              Inl e \<Rightarrow> (h, Inl e)
            | Inr (projectRoot, rel) \<Rightarrow>
                if os_Stat (hDisk h) projectRoot \<noteq> Some Dir then (h, Inl ''project_root does not exist'')
                else
                  (let expected = anyStringSliceDefault (request ''expected_files'') [''README.md'']
                   in case missing_files env rootValue (hDisk h) expected of
                        Inl e \<Rightarrow> (h, Inl e)
                      | Inr missing \<Rightarrow>
                          (let argv = anyStringSliceDefault (request ''test_command'') [''pytest'', ''-q'']
                           in case start env projectRoot argv [] h of
                                (h1, o') \<Rightarrow>
                                  (h1, Inr (case oError o' of
                                      Some e \<Rightarrow> project_failure rel (failure_text o' e) o'
                                    | None \<Rightarrow>
                                        if missing \<noteq> []
                                        then project_failure rel (''missing expected files: '' @ join_with '', '' missing) o'
                                        else project_approved env request rootValue projectRoot rel expected argv o' (hDisk h1)))))))"

section \<open>Static analysis\<close>

definition codeAnalysis :: "exec_env \<Rightarrow> any_map \<Rightarrow> host \<Rightarrow> tool_run" where
  "codeAnalysis env request h =
     (h, let rootValue = firstNonEmptyString [trimmed request ''project_root'', trimmed request ''path'', ''.'']
         in case resolve env (Some (AStr rootValue)) of
              Inl e \<Rightarrow> Inl e
            | Inr (projectRoot, rel) \<Rightarrow>
                (let types = anyStringSliceDefault (request ''analysis_types'') [trimmed request ''analysis_type'']
                 in case xAnalyze env projectRoot types (hDisk h) of
                      Inl e \<Rightarrow> Inl e
                    | Inr (analysis, summary, hits) \<Rightarrow>
                        Inr (no_result\<lparr>rsStatus := ''success'',
                          rsSummary := Some (''Analyzed '' @ rel @ '' with '' @ Itoa hits @ '' finding(s)''),
                          rsStdout := Some (xJson env analysis),
                          rsCapabilityUsage := [[''capability'' \<mapsto> AStr ''code.analysis'', ''helped'' \<mapsto> ABool True, ''source'' \<mapsto> AStr rel,
                            ''kind'' \<mapsto> AStr ''static_analysis'', ''finding_count'' \<mapsto> AInt hits]],
                          rsCapabilityHelped := [''code.analysis''],
                          rsArtifacts := [(text_packet ''code_analysis_report'' ''Code analysis report'' ''application/json'' (xJson env analysis))
                            (''metadata'' \<mapsto> AMap [''analysis_types'' \<mapsto> AStrs types])]\<rparr>)))"

section \<open>Research\<close>

definition quoted_key :: "string \<times> string \<Rightarrow> string" where
  "quoted_key f = (case f of (k, v) \<Rightarrow> ''  '' @ [CHR 0x22] @ k @ [CHR 0x22] @ '': '' @ v)"

definition research_payload :: "(string \<times> string) list \<Rightarrow> string" where
  "research_payload entries =
     ''{'' @ [CHR 0x0A] @ join_with ('','' @ [CHR 0x0A]) (map quoted_key entries) @ [CHR 0x0A] @ ''}''"

definition checklist_text :: string where
  "checklist_text =
     (let item = (\<lambda>t. ''    '' @ [CHR 0x22] @ t @ [CHR 0x22])
      in ''['' @ [CHR 0x0A] @ join_with ('','' @ [CHR 0x0A])
           (map item [''README present'', ''At least one test file present'', ''Declared test command is runnable'']) @ [CHR 0x0A] @ ''  ]'')"

definition research_advice :: "any_map \<Rightarrow> any_map list \<Rightarrow> bool \<Rightarrow> any_map \<Rightarrow> string list" where
  "research_advice evidence precedents repair results =
     [''Keep the project tiny and deterministic.'', ''Expose one obvious entrypoint and one obvious validation path.'',
      ''Prefer a test command with no external network dependency.''] @
     reason_when (evidence ''manifest_file'' \<noteq> None) ''Use the repository manifest as the primary contract before inventing extra assumptions.'' @
     reason_when (evidence ''readme_excerpt'' \<noteq> None) ''Prefer README-aligned constraints over generic repo folklore.'' @
     reason_when (precedents \<noteq> [])
       ''Reuse the retrieved precedents as bounded evidence, not as a substitute for the current diff and validation signals.'' @
     (if repair then
        [''Treat the previous validation and review findings as the primary contract for the next edit.'',
         ''Fix the highest-severity failure first, then rerun the declared validation command before changing scope again.'',
         ''Keep the next patch narrow and focused on the files implicated by the failing iteration.''] @
        reason_when (failed_exit results \<noteq> None)
          ''The previous validation command returned a non-zero exit code. Reproduce that failure before broadening the change.''
      else [])"

definition research_root :: "any_map \<Rightarrow> any_map \<Rightarrow> string" where
  "research_root project request =
     (let parent = trimmed project ''parent_directory''; name = trimmed project ''project_name'';
          inferred = (if trimmed project ''project_root'' \<noteq> [] then trimmed project ''project_root''
                      else if parent \<noteq> [] \<and> name \<noteq> [] then path_join parent name else [])
      in firstNonEmptyString [inferred, trimmed request ''project_root'', ''.''])"

definition researchProject :: "exec_env \<Rightarrow> any_map \<Rightarrow> host \<Rightarrow> tool_run" where
  "researchProject env request h =
     (let project = asMap (request ''project_request'');
          pick = (\<lambda>k. firstNonEmptyString [trimmed project k, trimmed request k]);
          argv = anyStringSliceDefault (request ''test_command'') (defaultBridgeTestCommand (pick ''project_type'') (pick ''runtime_or_stack''));
          (evidence, usage) = collectProjectReadContext env (research_root project request) (hDisk h);
          findings = maps_of request ''prior_findings''; results = nonNilMap (request ''prior_test_results'');
          changed = strs_of request ''prior_changed_files''; precedents = retrievalPrecedentsFromContextPackage (xScore env) (request ''context_package'');
          feedback = firstNonEmptyString [trimmed request ''repair_feedback'', trimmed project ''repair_feedback''];
          repair = (findings \<noteq> [] \<or> results \<noteq> Map.empty \<or> changed \<noteq> [] \<or> feedback \<noteq> []);
          s = interpretPlannerRepairFindings findings (anyHypothesisPaths (request ''initial_scope_hypotheses''))
                (anyHypothesisPaths (request ''rejected_scope_hypotheses'')) changed;
          scope = recommendResearchScopePaths (pick ''goal'') s changed (anyHypothesisPaths (request ''patch_intent''))
                (strs_of project ''expected_files'') (strs_of evidence ''tree_files'') (trimmed evidence ''readme_excerpt'');
          hypotheses = buildRepairFailureHypotheses findings results scope s;
          intents = buildRepairPatchIntent hypotheses scope;
          brief = buildRepairEditBrief (pick ''goal'') feedback findings results scope hypotheses intents s precedents;
          q = xQuote env; j = xJson env;
          payload = research_payload
            [(''project_type'', q (pick ''project_type'')), (''runtime_or_stack'', q (pick ''runtime_or_stack'')), (''goal'', q (pick ''goal'')),
             (''test_focus'', q (pick ''test_focus'')), (''repair_mode'', if repair then ''true'' else ''false''),
             (''recommendations'', j (AStrs (research_advice evidence precedents repair results))),
             (''recommended_scope_paths'', j (AStrs scope)), (''planner_scope_resolution'', q (scPlanner s)),
             (''planner_rejected_scope_resolution'', q (scRejected s)), (''scope_correction_reason'', q (scReason s)),
             (''excluded_scope_paths'', j (AStrs (scExcluded s))), (''retrieval_precedents'', j (maps_val precedents)),
             (''failure_hypotheses'', j (maps_val hypotheses)), (''patch_intent'', j (maps_val intents)), (''next_edit_brief'', q brief),
             (''checklist'', checklist_text), (''test_command'', q (join_with '' '' argv)),
             (''failure_signals'', j (AMap [''repair_feedback'' \<mapsto> AStr feedback, ''prior_test_results'' \<mapsto> AMap results,
                ''prior_changed_files'' \<mapsto> AStrs changed])),
             (''prior_findings'', j (maps_val findings)), (''local_evidence'', j (AMap evidence))];
          about = pick ''project_type'' @ ''/'' @ pick ''runtime_or_stack''
      in (h, Inr (no_result\<lparr>rsStatus := ''success'',
            rsSummary := Some ((if repair then ''Built repair plan for '' else ''Researched scaffold constraints for '') @ about),
            rsStdout := Some payload, rsCapabilityUsage := usage, rsCapabilityHelped := uniqueCapabilities usage True,
            rsArtifacts :=
              [text_packet ''research_context'' ''Project research context'' ''application/json'' payload,
               text_packet ''research_evidence'' ''Local repository evidence'' ''application/json'' (j (AMap evidence))] @
              (if repair then [text_packet ''repair_plan'' ''Objective repair plan'' ''application/json'' payload] else [])\<rparr>)))"

section \<open>Scaffolds\<close>

definition name_char :: "char \<Rightarrow> bool" where
  "name_char c \<longleftrightarrow> (let n = (of_char c :: nat)
     in (48 \<le> n \<and> n \<le> 57) \<or> (65 \<le> n \<and> n \<le> 90) \<or> (97 \<le> n \<and> n \<le> 122) \<or> c \<in> {CHR ''.'', CHR ''_'', CHR ''-''})"

text \<open>Each run of other characters becomes one hyphen.\<close>

fun squeeze :: "bool \<Rightarrow> string \<Rightarrow> string" where
  "squeeze run [] = []"
| "squeeze run (c # s) =
     (if name_char c then c # squeeze False s else if run then squeeze True s else CHR ''-'' # squeeze True s)"

definition trim_chars :: "string \<Rightarrow> string \<Rightarrow> string" where
  "trim_chars cs s = rev (dropWhile (\<lambda>c. c \<in> set cs) (rev (dropWhile (\<lambda>c. c \<in> set cs) s)))"

definition sanitizeProjectName :: "string \<Rightarrow> string" where
  "sanitizeProjectName s = trim_chars ''-.'' (squeeze False (TrimSpace s))"

definition truncateString :: "string \<Rightarrow> nat \<Rightarrow> string" where
  "truncateString text limit = (let t = TrimSpace text in if length t \<le> limit then t else take limit t)"

definition expectedProjectFiles :: "string \<Rightarrow> string list" where
  "expectedProjectFiles projectType =
     (let ty = ToLower (TrimSpace projectType)
      in [''README.md''] @
         (if ty = ''api_http'' then [''app.py'', ''tests/test_app.py'']
          else if ty = ''web_small'' then [''index.html'', ''app.js'', ''style.css'', ''tests/test_static.py'']
          else if ty = ''worker_background'' then [''worker.py'', ''tests/test_worker.py'']
          else if ty = ''debug_regression'' then [''calculator.py'', ''tests/test_calculator.py'']
          else if ty = ''toy_repo'' then [''src/service.py'', ''tests/test_service.py'', ''docs/notes.md'']
          else [''main.py'', ''tests/test_main.py'']) @ [''lab.json''])"

definition joinScaffoldRelativePath :: "string \<Rightarrow> string \<Rightarrow> string" where
  "joinScaffoldRelativePath projectRootRel fileRel =
     (if TrimSpace projectRootRel = [] \<or> TrimSpace projectRootRel = ''.'' then TrimSpace fileRel
      else path_join (TrimSpace projectRootRel) (TrimSpace fileRel))"

definition dir_entries :: "disk \<Rightarrow> string list \<Rightarrow> (string list \<times> node) list" where
  "dir_entries d q = filter (\<lambda>e. fst e \<noteq> [] \<and> butlast (fst e) = q) d"

text \<open>
  A link to nothing or a path through a file is reported by \<^verbatim>\<open>os.Stat\<close> as not existing or as an error of
  its own; in both cases the directory cannot be made, so only the text of the error differs.
\<close>

definition ensureScaffoldTargetAvailable :: "exec_env \<Rightarrow> string \<Rightarrow> string \<Rightarrow> host \<Rightarrow> host \<times> string option" where
  "ensureScaffoldTargetAvailable env projectRoot label h =
     (case physical (hDisk h) projectRoot of
        None \<Rightarrow> (h, Some (xOs env ''stat'' projectRoot))
      | Some q \<Rightarrow>
          (case node_at (hDisk h) q of
             Some Dir \<Rightarrow> (h, if dir_entries (hDisk h) q = [] then None else Some (''project already exists: '' @ label))
           | Some _ \<Rightarrow> (h, Some (''project_root is not a directory: '' @ label))
           | None \<Rightarrow> (case os_MkdirAll (xOs env) projectRoot (hDisk h) of (d, e) \<Rightarrow> (h\<lparr>hDisk := d\<rparr>, e))))"

definition resolveScaffoldRoot ::
  "exec_env \<Rightarrow> any_val option \<Rightarrow> string \<Rightarrow> string \<Rightarrow> host \<Rightarrow> host \<times> (string \<times> string \<times> string) result" where
  "resolveScaffoldRoot env parentDirectory rootValue0 projectName h =
     (let rootValue = TrimSpace rootValue0
      in if rootValue \<noteq> [] then
           (case resolveWithDefault env (Some (AStr rootValue)) ''.'' of
              Inl e \<Rightarrow> (h, Inl e)
            | Inr (rootDir, rel) \<Rightarrow>
                (case ensureScaffoldTargetAvailable env rootDir rootValue h of
                   (h1, Some e) \<Rightarrow> (h1, Inl e)
                 | (h1, None) \<Rightarrow> (h1, Inr (rootDir, rel, if rel = ''.'' then path_base (xRoot env) else rel))))
         else
           (case resolveWithDefault env parentDirectory ''.'' of
              Inl e \<Rightarrow> (h, Inl e)
            | Inr (parentPath, parentRel) \<Rightarrow>
                if projectName = [] then (h, Inl ''project_name is required'')
                else
                  (case ensureScaffoldTargetAvailable env (path_join parentPath projectName) projectName h of
                     (h1, Some e) \<Rightarrow> (h1, Inl e)
                   | (h1, None) \<Rightarrow>
                       (let rel = path_join parentRel projectName in (h1, Inr (path_join parentPath projectName, rel, rel))))))"

fun write_files :: "exec_env \<Rightarrow> string \<Rightarrow> (string \<times> string) list \<Rightarrow> host \<Rightarrow> host \<times> string option" where
  "write_files env rootDir [] h = (h, None)"
| "write_files env rootDir ((rel, content) # fs) h =
     (case write_under env (path_join rootDir (path_clean rel)) content h of
        (h1, Some e) \<Rightarrow> (h1, Some e)
      | (h1, None) \<Rightarrow> write_files env rootDir fs h1)"

text \<open>\<^verbatim>\<open>CombinedOutput\<close> joins the two outputs; a command without a directory runs where the bridge was started.\<close>

definition git_step :: "exec_env \<Rightarrow> string \<Rightarrow> string list \<Rightarrow> string \<Rightarrow> host \<times> string option \<Rightarrow> host \<times> string option" where
  "git_step env dir argv label acc =
     (case acc of
        (h, Some e) \<Rightarrow> (h, Some e)
      | (h, None) \<Rightarrow>
          (case start env dir argv [] h of
             (h1, o') \<Rightarrow> (h1, case oError o' of None \<Rightarrow> None | Some e \<Rightarrow> Some (label @ '' failed: '' @ TrimSpace (oStdout o' @ oStderr o')))))"

definition init_repository :: "exec_env \<Rightarrow> any_map \<Rightarrow> string \<Rightarrow> host \<Rightarrow> host \<times> string option" where
  "init_repository env request projectRoot h =
     (if \<not> asBool (request ''initialize_git'') then (h, None)
      else
        (let h1 = git_step env projectRoot [''git'', ''init''] ''git init'' (h, None)
         in if \<not> asBool (request ''commit_initial_scaffold'') then h1
            else git_step env [] [''git'', ''-C'', projectRoot, ''-c'', ''user.name=Codex'', ''-c'', ''user.email=codex@example.com'',
                   ''commit'', ''-m'', ''Initial scaffold''] ''git commit''
                   (git_step env [] [''git'', ''-C'', projectRoot, ''add'', ''.''] ''git add'' h1)))"

definition scaffold_artifacts ::
  "any_map \<Rightarrow> string \<Rightarrow> string \<Rightarrow> string \<Rightarrow> (string \<times> string) list \<Rightarrow> any_map list" where
  "scaffold_artifacts request projectType stack rel files =
     (let argv = anyStringSliceDefault (request ''test_command'') (defaultBridgeTestCommand projectType stack);
          content = (\<lambda>n. truncateString (case map_of files n of None \<Rightarrow> [] | Some c \<Rightarrow> c) 2000)
      in [(text_packet ''project_manifest'' ''Scaffolded project manifest'' ''text/markdown'' (content ''README.md''))
            (''path'' \<mapsto> AStr (joinScaffoldRelativePath rel ''README.md''), ''project_type'' \<mapsto> AStr projectType,
             ''runtime'' \<mapsto> AStr stack, ''test_command'' \<mapsto> AStr (join_with '' '' argv)),
          (text_packet ''project_contract'' ''Expected scaffold contract'' ''application/json'' (content ''lab.json''))
            (''path'' \<mapsto> AStr (joinScaffoldRelativePath rel ''lab.json''),
             ''expected_files'' \<mapsto> AStrs (anyStringSliceDefault (request ''expected_files'') (expectedProjectFiles projectType)))])"

definition scaffold_into ::
  "exec_env \<Rightarrow> any_map \<Rightarrow> string \<Rightarrow> string \<Rightarrow> string \<Rightarrow> string \<Rightarrow> string \<Rightarrow> (string \<times> string) list \<Rightarrow> host \<Rightarrow> tool_run" where
  "scaffold_into env request projectType stack projectRoot rel label files h =
     (let changed = map (\<lambda>f. joinScaffoldRelativePath rel (fst f)) files
      in case write_files env projectRoot files h of
           (h1, Some e) \<Rightarrow> (h1, Inl e)
         | (h1, None) \<Rightarrow>
             (case init_repository env request projectRoot h1 of
                (h2, Some e) \<Rightarrow> (h2, Inl e)
              | (h2, None) \<Rightarrow>
                  (case withGitArtifacts env
                     (no_result\<lparr>rsStatus := ''success'', rsSummary := Some (''Scaffolded '' @ projectType @ '' project '' @ label),
                        rsStdout := Some (join_with [CHR 0x0A] changed), rsChangedFiles := changed,
                        rsArtifacts := scaffold_artifacts request projectType stack rel files\<rparr>) h2 of
                     (h3, r) \<Rightarrow> (h3, Inr r))))"

definition scaffoldProject :: "exec_env \<Rightarrow> any_map \<Rightarrow> host \<Rightarrow> tool_run" where
  "scaffoldProject env request h =
     (let name0 = sanitizeProjectName (asString (request ''project_name''));
          projectType = firstNonEmptyString [trimmed request ''project_type'', ''cli_simple''];
          stack = firstNonEmptyString [trimmed request ''runtime_or_stack'', ''python''];
          goal = firstNonEmptyString [trimmed request ''goal'', ''Exercise the local bridge and task system''];
          focus = firstNonEmptyString [trimmed request ''test_focus'', ''basic execution'']
      in case resolveScaffoldRoot env (request ''parent_directory'') (trimmed request ''project_root'') name0 h of
           (h1, Inl e) \<Rightarrow> (h1, Inl e)
         | (h1, Inr (projectRoot, rel, label)) \<Rightarrow>
             (let name = (if name0 = [] then label else name0)
              in if name = [] then (h1, Inl ''project_name is required'')
                 else scaffold_into env request projectType stack projectRoot rel label (scaffoldFiles env projectType stack name goal focus) h1))"

section \<open>Dispatch\<close>

definition inherited_keys :: "string list" where
  "inherited_keys =
     [''initial_scope_hypotheses'', ''rejected_scope_hypotheses'', ''objective_patch_intent'', ''objective_baseline_test_results'',
      ''objective_baseline_findings'', ''objective_baseline_summary'', ''objective_failure_hypotheses'', ''objective_analysis_findings'',
      ''objective_analysis_summary'', ''excluded_scope_paths'', ''scope_correction_reason'', ''planner_scope_resolution'',
      ''planner_rejected_scope_resolution'', ''context_package'', ''retrieval_packet_artifact_id'', ''objective_retrieval_precedents'',
      ''suspected_paths'', ''review_comments'', ''review_decision'']"

definition mergeToolRequestWithMetadata :: "any_map \<Rightarrow> any_map \<Rightarrow> any_map" where
  "mergeToolRequestWithMetadata toolRequest metadata =
     (\<lambda>k. case toolRequest k of Some v \<Rightarrow> Some v | None \<Rightarrow> if k \<in> set inherited_keys then metadata k else None)"

definition allowedCapabilities :: "any_map \<Rightarrow> string list" where
  "allowedCapabilities metadata =
     (case metadata ''allowed_capabilities'' of
        Some (AStrs xs) \<Rightarrow> nonblank (map TrimSpace xs)
      | Some (AArr xs) \<Rightarrow> nonblank (map (\<lambda>x. TrimSpace (asString (Some x))) xs)
      | _ \<Rightarrow> [])"

definition ensureToolCapabilityAllowed :: "any_map \<Rightarrow> string \<Rightarrow> string option" where
  "ensureToolCapabilityAllowed metadata tool =
     (let capability = toolCapabilityMap tool; allowed = allowedCapabilities metadata
      in if capability = [] \<or> allowed = [] \<or> capability \<in> set allowed \<or>
           (HasPrefix capability ''filesystem.'' \<and> ''filesystem'' \<in> set allowed) then None
         else Some (''tool '' @ tool @ '' requires allowed capability '' @ capability))"

definition approval_request :: "any_map \<Rightarrow> string \<Rightarrow> bridge_result" where
  "approval_request request tool =
     no_result\<lparr>rsStatus := ''waiting_approval'', rsSummary := Some (''Approval required before executing tool '' @ tool),
       rsActionType := Some ''local_bridge_tool'', rsTargetResource := Some (firstNonEmptyString [trimmed request ''path'', tool]),
       rsTimeoutSeconds := Some (asInt (request ''timeout_seconds'') 300)\<rparr>"

definition run_tool :: "exec_env \<Rightarrow> string \<Rightarrow> any_map \<Rightarrow> host \<Rightarrow> tool_run" where
  "run_tool env tool request h =
     (if tool \<in> {''read_file'', ''filesystem.read''} then readFile env request h
      else if tool \<in> {''list_files'', ''filesystem.list''} then listFiles env request h
      else if tool \<in> {''write_file'', ''filesystem.write''} then writeFile env request h
      else if tool = ''research_project'' then researchProject env request h
      else if tool = ''scaffold_project'' then scaffoldProject env request h
      else if tool = ''review_project'' then reviewProject env request h
      else if tool = ''review_workspace'' then reviewWorkspace env request h
      else if tool = ''apply_patch'' then applyPatch env request h
      else if tool = ''run_command'' then runCommand env request h
      else if tool = ''git_status'' then runSubprocess env [''git'', ''status'', ''--short''] ''git status'' h
      else if tool = ''git_diff'' then runSubprocess env [''git'', ''diff'', ''--no-ext-diff''] ''git diff'' h
      else if tool = ''run_tests'' then runTests env request h
      else if tool = ''code_analysis'' then codeAnalysis env request h
      else (h, Inl (''unsupported local tool: '' @ tool)))"

definition needs_approval :: "any_map \<Rightarrow> any_map \<Rightarrow> bool" where
  "needs_approval metadata request \<longleftrightarrow>
     (asBool (metadata ''requires_approval'') \<or> asBool (request ''requires_approval'')) \<and> \<not> asBool (metadata ''approval_granted'')"

definition ExecuteTask :: "exec_env \<Rightarrow> any_map \<Rightarrow> host \<Rightarrow> tool_run" where
  "ExecuteTask env metadata h =
     (case metadata ''tool_request'' of
        Some (AMap toolRequest) \<Rightarrow>
          (let request = mergeToolRequestWithMetadata toolRequest metadata; tool = trimmed request ''tool''
           in if tool = [] then (h, Inl ''tool_request.tool is required'')
              else
                (let request1 = request(''_task_metadata'' \<mapsto> AMap metadata)
                 in case ensureToolCapabilityAllowed metadata tool of
                      Some e \<Rightarrow> (h, Inl e)
                    | None \<Rightarrow>
                        if needs_approval metadata request1 then (h, Inr (approval_request request1 tool))
                        else run_tool env tool request1 h))
      | _ \<Rightarrow> (h, Inl ''local task requires metadata.tool_request''))"

end
