(* ===== verification/Repo_Profile.thy ===== *)
theory Repo_Profile
  imports Executor_Tools
begin

text \<open>
  What the planning side reads from a workspace before it plans (\<^verbatim>\<open>initiative/service.go\<close>,
  \<^verbatim>\<open>initiative/objectives.go\<close>): the files of the repository, the profile that a benchmark case declares in the goal or
  in a file, the profile of an existing repository and the one of a project that is still to be made. The server
  reads the same kind of disk as a bridge; a relative root is taken from the directory the server runs in, and a
  root has no steps upwards. Reading JSON is the parameter \<open>parse\<close>, printing a value with \<^verbatim>\<open>%v\<close> is \<open>sprint\<close>.
\<close>

section \<open>Texts\<close>

text \<open>The \<^verbatim>\<open>firstNonEmptyString\<close> of this package returns the trimmed text.\<close>

fun firstTrimmed :: "string list \<Rightarrow> string" where
  "firstTrimmed [] = []"
| "firstTrimmed (v # vs) = (if TrimSpace v \<noteq> [] then TrimSpace v else firstTrimmed vs)"

definition cloneStrings :: "string list \<Rightarrow> string list" where
  "cloneStrings xs = nonblank (map TrimSpace xs)"

definition slug_char :: "char \<Rightarrow> bool" where
  "slug_char c \<longleftrightarrow> (let n = of_char c :: nat in (48 \<le> n \<and> n \<le> 57) \<or> (97 \<le> n \<and> n \<le> 122) \<or> c = CHR ''-'')"

text \<open>\<^verbatim>\<open>ReplaceAllString\<close> of a run of characters by one hyphen, for the two patterns \<^verbatim>\<open>[^a-z0-9\-]+\<close> and \<^verbatim>\<open>\-+\<close>.\<close>

fun hyphen_runs :: "(char \<Rightarrow> bool) \<Rightarrow> bool \<Rightarrow> string \<Rightarrow> string" where
  "hyphen_runs P run [] = []"
| "hyphen_runs P run (c # s) =
     (if P c then (if run then hyphen_runs P True s else CHR ''-'' # hyphen_runs P True s) else c # hyphen_runs P False s)"

definition project_slug :: "string \<Rightarrow> string" where
  "project_slug s =
     (let v0 = map (\<lambda>c. if c \<in> {CHR ''_'', CHR '' ''} then CHR ''-'' else c) (ToLower (TrimSpace s));
          v = trim_chars ''-'' (hyphen_runs (\<lambda>c. c = CHR ''-'') False (hyphen_runs (\<lambda>c. \<not> slug_char c) False v0))
      in if v = [] then ''initiative-project'' else v)"

section \<open>Files of a workspace\<close>

definition isObjectiveInterestingFile :: "string \<Rightarrow> bool" where
  "isObjectiveInterestingFile path \<longleftrightarrow>
     ToLower (file_ext path) \<in> {''.go'', ''.py'', ''.ts'', ''.tsx'', ''.js'', ''.jsx'', ''.java'', ''.kt'', ''.rs'', ''.rb'', ''.php'',
       ''.md'', ''.txt'', ''.json'', ''.toml'', ''.yaml'', ''.yml''} \<or> EqualFold (path_base path) ''Dockerfile''"

text \<open>The walk visits a directory in the order of its names, files before the longer paths below them.\<close>

definition listObjectiveCandidateFiles :: "disk \<Rightarrow> string \<Rightarrow> string list" where
  "listObjectiveCandidateFiles d workspaceRoot =
     (let base = TrimSpace workspaceRoot
      in if base = [] then []
         else
           (case os_Lstat d base of
              None \<Rightarrow> []
            | Some q \<Rightarrow>
                if node_at d q \<noteq> Some Dir then []
                else
                  (let visited = sort_by words_less (filter (\<lambda>ws. \<not> skipped_dir ws) (map (\<lambda>e. drop (length q) (fst e)) (filter (below q) d)))
                   in sort_by str_less (take 24 (filter isObjectiveInterestingFile (map (join_with ''/'') visited))))))"

definition readObjectiveReadme :: "disk \<Rightarrow> string \<Rightarrow> string" where
  "readObjectiveReadme d workspaceRoot =
     (case os_ReadFile (\<lambda>op p. op) d (path_join (TrimSpace workspaceRoot) ''README.md'') of Inl e \<Rightarrow> [] | Inr text \<Rightarrow> take 1200 text)"

definition uniqueObjectivePaths :: "string list \<Rightarrow> string list" where
  "uniqueObjectivePaths items = unique_strings [] items"

section \<open>A benchmark case in a text\<close>

text \<open>
  The pattern \<^verbatim>\<open>(?s)\[BENCHMARK_CASE_JSON\]\s*(\{.*?\})\s*\[/BENCHMARK_CASE_JSON\]\<close>: from the leftmost opening tag that
  matches to the first closing brace that a closing tag follows.
\<close>

definition re_space :: "char \<Rightarrow> bool" where
  "re_space c \<longleftrightarrow> c \<in> {CHR 0x09, CHR 0x0A, CHR 0x0C, CHR 0x0D, CHR '' ''}"

definition open_tag :: string where "open_tag = ''[BENCHMARK_CASE_JSON]''"
definition close_tag :: string where "close_tag = ''[/BENCHMARK_CASE_JSON]''"

definition closes :: "string \<Rightarrow> string option" where
  "closes s = (let t = dropWhile re_space s in if HasPrefix t close_tag then Some (drop (length close_tag) t) else None)"

fun block_body :: "string \<Rightarrow> (string \<times> string) option" where
  "block_body [] = None"
| "block_body (c # s) =
     (case (if c = CHR ''}'' then closes s else None) of
        Some rest \<Rightarrow> Some ([c], rest)
      | None \<Rightarrow> (case block_body s of None \<Rightarrow> None | Some (b, rest) \<Rightarrow> Some (c # b, rest)))"

definition block_at :: "string \<Rightarrow> (string \<times> string) option" where
  "block_at s =
     (if \<not> HasPrefix s open_tag then None
      else
        (case dropWhile re_space (drop (length open_tag) s) of
           [] \<Rightarrow> None
         | c # t \<Rightarrow> if c \<noteq> CHR ''{'' then None
                     else (case block_body t of None \<Rightarrow> None | Some (b, rest) \<Rightarrow> Some (c # b, rest))))"

fun find_block :: "string \<Rightarrow> string option" where
  "find_block [] = None"
| "find_block (c # s) = (case block_at (c # s) of Some (b, rest) \<Rightarrow> Some b | None \<Rightarrow> find_block s)"

lemma closes_shorter: "closes s = Some rest \<Longrightarrow> length rest \<le> length s"
  using length_dropWhile_le [of re_space s] by (auto simp: closes_def Let_def split: if_splits)

lemma block_body_shorter: "block_body s = Some (b, rest) \<Longrightarrow> length rest \<le> length s"
proof (induction s arbitrary: b)
  case (Cons c s)
  show ?case
  proof (cases "if c = CHR ''}'' then closes s else None")
    case None
    then obtain b' where "block_body s = Some (b', rest)" using Cons.prems by (auto split: option.splits)
    from Cons.IH [OF this] show ?thesis by simp
  next
    case (Some r)
    then have "closes s = Some rest" using Cons.prems by (auto split: if_splits)
    from closes_shorter [OF this] show ?thesis by simp
  qed
qed simp

lemma block_at_shorter: "block_at s = Some (b, rest) \<Longrightarrow> length rest < length s"
proof -
  assume a: "block_at s = Some (b, rest)"
  then obtain c t b' where t: "dropWhile re_space (drop (length open_tag) s) = c # t" "block_body t = Some (b', rest)"
    by (auto simp: block_at_def split: if_splits list.splits option.splits)
  have "length (c # t) \<le> length (drop (length open_tag) s)" unfolding t(1) [symmetric] by (rule length_dropWhile_le)
  with block_body_shorter [OF t(2)] show ?thesis by simp
qed

text \<open>\<^verbatim>\<open>ReplaceAllString(goal, "")\<close>.\<close>

function remove_blocks :: "string \<Rightarrow> string" where
  "remove_blocks s =
     (case s of
        [] \<Rightarrow> []
      | c # t \<Rightarrow> (case block_at (c # t) of Some (b, rest) \<Rightarrow> remove_blocks rest | None \<Rightarrow> c # remove_blocks t))"
  by pat_completeness auto
termination by (relation "measure length") (auto dest: block_at_shorter)

declare remove_blocks.simps [simp del]

definition sanitizedInitiativeGoal :: "string \<Rightarrow> string" where
  "sanitizedInitiativeGoal goal0 = (let goal = TrimSpace goal0 in if goal = [] then [] else TrimSpace (remove_blocks goal))"

section \<open>Profiles\<close>

record repo_profile =
  wfProjectFlow :: string
  wfProjectType :: string
  wfStack :: string
  wfLanguage :: string
  wfFramework :: string
  wfProblemDomain :: string
  wfErrorClass :: string
  wfFixPattern :: string
  wfValidationPattern :: string
  wfRepoName :: string
  wfProjectRoot :: string
  wfRepositoryURL :: string
  wfDefaultBranch :: string
  wfTestFocus :: string
  wfTestCommand :: "string list"
  wfExpected :: "string list"
  wfPatch :: string
  wfPatchTarget :: string
  wfCoderTool :: string
  wfWriteContent :: string
  wfCoderSummary :: string
  wfBenchmarkCaseID :: string
  wfBenchmarkCaseType :: string
  wfBenchmarkLeague :: string
  wfSequenceID :: string
  wfSequencePosition :: string

definition no_profile :: repo_profile where
  "no_profile = \<lparr>wfProjectFlow = [], wfProjectType = [], wfStack = [], wfLanguage = [], wfFramework = [], wfProblemDomain = [],
     wfErrorClass = [], wfFixPattern = [], wfValidationPattern = [], wfRepoName = [], wfProjectRoot = [], wfRepositoryURL = [],
     wfDefaultBranch = [], wfTestFocus = [], wfTestCommand = [], wfExpected = [], wfPatch = [], wfPatchTarget = [],
     wfCoderTool = [], wfWriteContent = [], wfCoderSummary = [], wfBenchmarkCaseID = [], wfBenchmarkCaseType = [],
     wfBenchmarkLeague = [], wfSequenceID = [], wfSequencePosition = []\<rparr>"

text \<open>\<^verbatim>\<open>fmt.Sprintf("%v", v)\<close>; other values are printed by the parameter.\<close>

definition print_any :: "(any_val \<Rightarrow> string) \<Rightarrow> any_val option \<Rightarrow> string" where
  "print_any sprint v =
     (case v of None \<Rightarrow> ''<nil>'' | Some ANil \<Rightarrow> ''<nil>'' | Some (AStr s) \<Rightarrow> s | Some x \<Rightarrow> sprint x)"

definition benchmark_texts :: "string list" where
  "benchmark_texts = [''id'', ''case_type'', ''repo_profile'', ''repo_url'', ''default_branch'', ''project_type'', ''runtime_or_stack'',
     ''project_root'', ''test_focus'', ''coder_tool'', ''patch_target'', ''patch'', ''write_content'', ''coder_summary'',
     ''benchmark_league'', ''sequence_id'', ''language'', ''framework'', ''problem_domain'', ''error_class'', ''fix_pattern'',
     ''validation_pattern'']"

definition benchmark_ok :: "any_map \<Rightarrow> bool" where
  "benchmark_ok m \<longleftrightarrow> list_all (\<lambda>k. str_ok (m k)) benchmark_texts \<and> strs_ok (m ''test_command'') \<and> strs_ok (m ''expected_files'')"

definition workspace_name :: "string \<Rightarrow> string" where
  "workspace_name workspaceRoot =
     (let name = path_base (TrimSpace workspaceRoot) in if name = [] \<or> name = ''.'' \<or> name = ''/'' then ''repo'' else name)"

definition benchmark_profile :: "(any_val \<Rightarrow> string) \<Rightarrow> any_map \<Rightarrow> string \<Rightarrow> repo_profile" where
  "benchmark_profile sprint m workspaceRoot =
     (let expected = cloneStrings (dec_strs (m ''expected_files''))
      in \<lparr>wfProjectFlow = firstTrimmed [trimmed m ''repo_profile'', ''benchmark_repo_workflow''],
          wfProjectType = firstTrimmed [trimmed m ''project_type'', ''existing_repo''],
          wfStack = firstTrimmed [trimmed m ''runtime_or_stack'', ''python''],
          wfLanguage = firstTrimmed [trimmed m ''language'', trimmed m ''runtime_or_stack''],
          wfFramework = trimmed m ''framework'', wfProblemDomain = trimmed m ''problem_domain'',
          wfErrorClass = trimmed m ''error_class'', wfFixPattern = trimmed m ''fix_pattern'',
          wfValidationPattern = trimmed m ''validation_pattern'', wfRepoName = workspace_name workspaceRoot,
          wfProjectRoot = firstTrimmed [trimmed m ''project_root'', ''.''],
          wfRepositoryURL = trimmed m ''repo_url'', wfDefaultBranch = trimmed m ''default_branch'',
          wfTestFocus = firstTrimmed [trimmed m ''test_focus'', ''benchmark workflow''],
          wfTestCommand = cloneStrings (dec_strs (m ''test_command'')),
          wfExpected = (if expected = [] then [''README.md''] else expected),
          wfPatch = asString (m ''patch''), wfPatchTarget = trimmed m ''patch_target'',
          wfCoderTool = firstTrimmed [trimmed m ''coder_tool'', ''filesystem.write''],
          wfWriteContent = asString (m ''write_content''),
          wfCoderSummary = firstTrimmed [trimmed m ''coder_summary'', ''Apply benchmark-defined repository change.''],
          wfBenchmarkCaseID = trimmed m ''id'', wfBenchmarkCaseType = trimmed m ''case_type'',
          wfBenchmarkLeague = trimmed m ''benchmark_league'', wfSequenceID = trimmed m ''sequence_id'',
          wfSequencePosition = TrimSpace (print_any sprint (m ''sequence_position''))\<rparr>)"

definition decodeBenchmarkRepoWorkflowProfile ::
  "(string \<Rightarrow> any_val option) \<Rightarrow> (any_val \<Rightarrow> string) \<Rightarrow> string \<Rightarrow> string \<Rightarrow> repo_profile option" where
  "decodeBenchmarkRepoWorkflowProfile parse sprint raw workspaceRoot =
     (case parse raw of
        Some (AMap m) \<Rightarrow> if benchmark_ok m then Some (benchmark_profile sprint m workspaceRoot) else None
      | Some ANil \<Rightarrow> Some (benchmark_profile sprint Map.empty workspaceRoot)
      | _ \<Rightarrow> None)"

definition loadBenchmarkRepoWorkflowProfileFromGoal ::
  "(string \<Rightarrow> any_val option) \<Rightarrow> (any_val \<Rightarrow> string) \<Rightarrow> string \<Rightarrow> string \<Rightarrow> repo_profile option" where
  "loadBenchmarkRepoWorkflowProfileFromGoal parse sprint goal workspaceRoot =
     (case find_block goal of None \<Rightarrow> None | Some b \<Rightarrow> decodeBenchmarkRepoWorkflowProfile parse sprint b workspaceRoot)"

definition loadBenchmarkRepoWorkflowProfile ::
  "(string \<Rightarrow> any_val option) \<Rightarrow> (any_val \<Rightarrow> string) \<Rightarrow> disk \<Rightarrow> string \<Rightarrow> repo_profile option" where
  "loadBenchmarkRepoWorkflowProfile parse sprint d workspaceRoot =
     (case os_ReadFile (\<lambda>op p. op) d (path_join (path_join (TrimSpace workspaceRoot) ''.lab'') ''benchmark-case.json'') of
        Inl e \<Rightarrow> None
      | Inr raw \<Rightarrow> decodeBenchmarkRepoWorkflowProfile parse sprint raw workspaceRoot)"

definition pythonSlugifyRegexPatch :: string where
  "pythonSlugifyRegexPatch = join_with [CHR 0x0A]
     [''diff --git a/slugify/__main__.py b/slugify/__main__.py'',
      ''--- a/slugify/__main__.py'',
      ''+++ b/slugify/__main__.py'',
      ''@@ -76,6 +76,7 @@ def slugify_params(args: argparse.Namespace) -> dict[str, Any]:'',
      ''         save_order=args.save_order,'',
      ''         separator=args.separator,'',
      ''         stopwords=args.stopwords,'',
      ''+        regex_pattern=args.regex_pattern,'',
      ''         lowercase=args.lowercase,'',
      ''         replacements=args.replacements,'',
      ''         allow_unicode=args.allow_unicode'',
      ''diff --git a/test.py b/test.py'',
      ''--- a/test.py'',
      ''+++ b/test.py'',
      ''@@ -612,6 +612,11 @@ class TestCommandParams(unittest.TestCase):'',
      ''         expected = self.make_params(stopwords=['' @ [CHR 0x27] @ ''abba'' @ [CHR 0x27] @ '', '' @ [CHR 0x27] @ ''beatles'' @ [CHR 0x27] @ ''], max_length=98, separator='' @ [CHR 0x27] @ ''+'' @ [CHR 0x27] @ '')'',
      ''         self.assertParamsMatch(expected, params)'',
      '' '',
      ''+    def test_regex_pattern_param(self):'',
      ''+        params = self.get_params_from_cli('' @ [CHR 0x27] @ ''--regex-pattern'' @ [CHR 0x27] @ '', '' @ [CHR 0x27] @ ''[^a-z]+'' @ [CHR 0x27] @ '')'',
      ''+        expected = self.make_params(regex_pattern='' @ [CHR 0x27] @ ''[^a-z]+'' @ [CHR 0x27] @ '')'',
      ''+        self.assertParamsMatch(expected, params)'',
      ''+'',
      ''     def test_replacements_right(self):'',
      ''         params = self.get_params_from_cli('' @ [CHR 0x27] @ ''--replacements'' @ [CHR 0x27] @ '', '' @ [CHR 0x27] @ ''A->B'' @ [CHR 0x27] @ '', '' @ [CHR 0x27] @ ''C->D'' @ [CHR 0x27] @ '')'',
      ''         expected = self.make_params(replacements=[['' @ [CHR 0x27] @ ''A'' @ [CHR 0x27] @ '', '' @ [CHR 0x27] @ ''B'' @ [CHR 0x27] @ ''], ['' @ [CHR 0x27] @ ''C'' @ [CHR 0x27] @ '', '' @ [CHR 0x27] @ ''D'' @ [CHR 0x27] @ '']])'']"

definition detectRepoWorkflowProfile ::
  "(string \<Rightarrow> any_val option) \<Rightarrow> (any_val \<Rightarrow> string) \<Rightarrow> disk \<Rightarrow> string \<Rightarrow> string \<Rightarrow> repo_profile" where
  "detectRepoWorkflowProfile parse sprint d workspaceRoot goal =
     (case loadBenchmarkRepoWorkflowProfileFromGoal parse sprint goal workspaceRoot of
        Some p \<Rightarrow> p
      | None \<Rightarrow>
          (case loadBenchmarkRepoWorkflowProfile parse sprint d workspaceRoot of
             Some p \<Rightarrow> p
           | None \<Rightarrow>
               (let profile = no_profile\<lparr>wfProjectFlow := ''existing_repo_generic'', wfProjectType := ''existing_repo'',
                      wfStack := ''python'', wfRepoName := workspace_name workspaceRoot, wfProjectRoot := ''.'',
                      wfTestFocus := ''existing repository review'', wfExpected := [''README.md''],
                      wfCoderTool := ''filesystem.write'', wfPatchTarget := ''.lab/repo-workflow-marker.txt'',
                      wfWriteContent := ''repo workflow marker'' @ [CHR 0x0A],
                      wfCoderSummary := ''Write a deterministic marker file inside the repository workspace.''\<rparr>
                in if EqualFold (wfRepoName profile) ''python-slugify'' then
                     profile\<lparr>wfProjectFlow := ''python_slugify_v1'', wfTestFocus := ''CLI regex_pattern wiring'',
                       wfTestCommand := [''python3'', ''-m'', ''pytest'', ''-q'', ''test.py''],
                       wfExpected := [''pyproject.toml'', ''slugify/__main__.py'', ''slugify/slugify.py'', ''test.py''],
                       wfRepositoryURL := ''https://github.com/un33k/python-slugify'', wfDefaultBranch := ''master'',
                       wfCoderTool := ''apply_patch'', wfPatchTarget := ''slugify/__main__.py'',
                       wfPatch := pythonSlugifyRegexPatch, wfWriteContent := [],
                       wfCoderSummary := ''Patch python-slugify so the CLI forwards regex_pattern into slugify() and cover it with a deterministic regression test.''\<rparr>
                   else profile)))"

section \<open>A project that is still to be made\<close>

definition defaultInitiativeTestCommand :: "string \<Rightarrow> string \<Rightarrow> string list" where
  "defaultInitiativeTestCommand projectType stack =
     (let st = ToLower (TrimSpace stack); ty = ToLower (TrimSpace projectType)
      in if st = ''static'' then [''python3'', ''-c'', ''from pathlib import Path; html=Path('' @ [CHR 0x27] @ ''index.html'' @ [CHR 0x27] @
              '').read_text(); assert '' @ [CHR 0x27] @ ''<html'' @ [CHR 0x27] @ '' in html.lower()'']
         else if st = ''node'' then [''node'', ''--check'', ''app.js'']
         else [''python3'', ''-m'', ''py_compile'',
               if ty = ''api_http'' then ''app.py'' else if ty = ''worker_background'' then ''worker.py''
               else if ty = ''debug_regression'' then ''calculator.py'' else if ty = ''toy_repo'' then ''src/service.py''
               else ''main.py''])"

definition expectedInitiativeFiles :: "string \<Rightarrow> string list" where
  "expectedInitiativeFiles projectType =
     (let ty = ToLower (TrimSpace projectType)
      in if ty = ''api_http'' then [''README.md'', ''app.py'', ''tests/test_app.py'', ''lab.json'']
         else if ty = ''web_small'' then [''README.md'', ''index.html'', ''app.js'', ''style.css'', ''tests/test_static.py'', ''lab.json'']
         else if ty = ''worker_background'' then [''README.md'', ''worker.py'', ''tests/test_worker.py'', ''lab.json'']
         else if ty = ''debug_regression'' then [''README.md'', ''calculator.py'', ''tests/test_calculator.py'', ''lab.json'']
         else if ty = ''toy_repo'' then [''README.md'', ''src/service.py'', ''tests/test_service.py'', ''docs/notes.md'', ''lab.json'']
         else [''README.md'', ''main.py'', ''tests/test_main.py'', ''lab.json''])"

definition shouldBootstrapObjectiveWorkspace :: "disk \<Rightarrow> string \<Rightarrow> bool" where
  "shouldBootstrapObjectiveWorkspace d workspaceRoot \<longleftrightarrow>
     (let base = TrimSpace workspaceRoot
      in base \<noteq> [] \<and> os_Stat d (path_join base ''.git'') = None \<and> listObjectiveCandidateFiles d base = [])"

definition mentions :: "string \<Rightarrow> string list \<Rightarrow> bool" where
  "mentions text ws \<longleftrightarrow> list_ex (Contains text) ws"

definition inferObjectiveScaffoldType :: "string \<Rightarrow> string \<times> string" where
  "inferObjectiveScaffoldType objective =
     (let goal = ToLower (TrimSpace objective)
      in if mentions goal [''landing page'', ''frontend'', ''web'', ''ui''] then (''web_small'', ''static'')
         else if mentions goal [''api'', ''http'', ''endpoint''] then (''api_http'', ''python'')
         else if mentions goal [''worker'', ''background job'', ''queue''] then (''worker_background'', ''python'')
         else if mentions goal [''regression'', ''debug'', ''bugfix''] then (''debug_regression'', ''python'')
         else if mentions goal [''library'', ''package'', ''module''] then (''toy_repo'', ''python'')
         else (''cli_simple'', ''python''))"

definition detectObjectiveBootstrapProfile :: "disk \<Rightarrow> string \<Rightarrow> string \<Rightarrow> string \<Rightarrow> repo_profile option" where
  "detectObjectiveBootstrapProfile d workspaceRoot title objective =
     (if \<not> shouldBootstrapObjectiveWorkspace d workspaceRoot then None
      else
        (case inferObjectiveScaffoldType objective of
           (projectType, stack) \<Rightarrow>
             (let name0 = project_slug (path_base (TrimSpace workspaceRoot));
                  name1 = (if name0 = [] then project_slug title else name0);
                  repoName = (if name1 = [] then ''objective-workspace'' else name1)
              in Some (no_profile\<lparr>wfProjectFlow := ''greenfield_'' @ projectType, wfProjectType := projectType, wfStack := stack,
                   wfRepoName := repoName, wfProjectRoot := ''.'', wfTestFocus := ''greenfield objective bootstrap'',
                   wfTestCommand := defaultInitiativeTestCommand projectType stack,
                   wfExpected := expectedInitiativeFiles projectType, wfCoderTool := ''scaffold_project'',
                   wfCoderSummary := ''Bootstrap a minimal runnable project in place before applying objective-specific edits.'',
                   wfLanguage := firstTrimmed [stack, ''python''], wfProblemDomain := ''greenfield objective execution''\<rparr>))))"

end
