(* ===== verification/Initiative_Service.thy ===== *)
theory Initiative_Service
  imports Repo_Profile
begin

text \<open>
  The service that writes the phases of an initiative (\<^verbatim>\<open>initiative/service.go\<close>): it asks a planner model for the
  requirements, the design and the execution plan, checks the answer against the contract of the phase, and falls
  back to a payload of its own. The HTTP client is the parameter \<open>gPost\<close> (budget, address, token and the text of
  the one message; the rest of the request is constant), the answer of the research service is \<open>gResearch\<close>,
  the text of a JSON value is \<open>gJson\<close> and the order in which a map is walked is \<open>gWalk\<close>.
\<close>

record generator =
  gBaseURL :: string
  gAPIKey :: string
  gTimeoutSeconds :: int
  gPost :: "duration \<Rightarrow> string \<Rightarrow> string option \<Rightarrow> string \<Rightarrow> (int \<times> string) result"
  gResearch :: "string \<Rightarrow> string option"
  gParse :: "string \<Rightarrow> any_val option"
  gSprint :: "any_val \<Rightarrow> string"
  gJson :: "any_map \<Rightarrow> string"
  gQuote :: "string \<Rightarrow> string"
  gWalk :: "any_map \<Rightarrow> string list"
  gDisk :: disk

section \<open>Asking the planner\<close>

definition client_timeout :: "generator \<Rightarrow> duration" where
  "client_timeout g = (let t = wrap64 (gTimeoutSeconds g * second) in if t \<le> 0 then 90 * second else t)"

definition requestBudget :: "generator \<Rightarrow> duration" where
  "requestBudget g =
     (let budget = 20 * second; timeout = client_timeout g in if 0 < timeout \<and> timeout < budget then timeout else budget)"

definition stripCodeFence :: "string \<Rightarrow> string" where
  "stripCodeFence s = TrimSpace (TrimSuffix (TrimPrefix (TrimPrefix (TrimSpace s) ''```json'') ''```'') ''```'')"

definition truncate_text :: "string \<Rightarrow> int \<Rightarrow> string" where
  "truncate_text v limit = (if limit \<le> 0 \<or> int (length v) \<le> limit then v else take (nat limit) v @ ''...'')"

definition choice_ok :: "any_map \<Rightarrow> bool" where
  "choice_ok c \<longleftrightarrow> (case c ''message'' of None \<Rightarrow> True | Some v \<Rightarrow> obj_ok (\<lambda>m. str_ok (m ''content'')) v)"

definition completion_choices :: "any_val \<Rightarrow> any_map list option" where
  "completion_choices v =
     (case v of
        ANil \<Rightarrow> Some []
      | AMap m \<Rightarrow> if list_ok (obj_ok choice_ok) (m ''choices'') then Some (map dec_obj (dec_list (m ''choices''))) else None
      | _ \<Rightarrow> None)"

definition unmarshal_error :: string where
  "unmarshal_error = ''json: cannot unmarshal value''"

text \<open>\<^verbatim>\<open>null\<close> is a \<^verbatim>\<open>nil\<close> map, which reads like an empty one.\<close>

definition unmarshal_map :: "any_val option \<Rightarrow> any_map result" where
  "unmarshal_map v = (case v of Some (AMap m) \<Rightarrow> Inr m | Some ANil \<Rightarrow> Inr Map.empty | _ \<Rightarrow> Inl unmarshal_error)"

definition read_completion :: "generator \<Rightarrow> string \<Rightarrow> any_map result" where
  "read_completion g payload =
     (case gParse g payload of
        None \<Rightarrow> Inl unmarshal_error
      | Some v \<Rightarrow>
          (case completion_choices v of
             None \<Rightarrow> Inl unmarshal_error
           | Some [] \<Rightarrow> Inl ''planner returned no choices''
           | Some (c # cs) \<Rightarrow> unmarshal_map (gParse g (stripCodeFence (asString (asMap (c ''message'') ''content''))))))"

definition callStructured :: "generator \<Rightarrow> string \<Rightarrow> any_map result" where
  "callStructured g prompt =
     (let baseURL = rev (dropWhile (\<lambda>c. c = CHR ''/'') (rev (TrimSpace (gBaseURL g))));
          token = TrimSpace (gAPIKey g)
      in if baseURL = [] then Inl ''planner base url is not configured''
         else
           (case gPost g (requestBudget g) (baseURL @ ''/chat/completions'') (if token = [] then None else Some token)
                   ((''[PLAN_MODE]'' @ [CHR 0x0A]) @ prompt) of
              Inl e \<Rightarrow> Inl e
            | Inr (status, body) \<Rightarrow>
                (let payload = take (2 * 1024 * 1024) body
                 in if status < 200 \<or> 300 \<le> status
                    then Inl (''planner request failed with status '' @ Itoa status @ '': '' @ TrimSpace payload)
                    else read_completion g payload)))"

definition researchNotes :: "generator \<Rightarrow> string \<Rightarrow> string" where
  "researchNotes g goal =
     (if TrimSpace goal = [] then []
      else
        (case gResearch g goal of
           None \<Rightarrow> []
         | Some answer \<Rightarrow> if TrimSpace answer = [] then [] else (''Research context:'' @ [CHR 0x0A]) @ truncate_text answer 1000))"

definition feedbackBlock :: "string \<Rightarrow> string" where
  "feedbackBlock feedback =
     (if TrimSpace feedback = [] then ''Feedback operator: none'' else (''Feedback operator:'' @ [CHR 0x0A]) @ TrimSpace feedback)"

definition md_lines :: "string list \<Rightarrow> string" where
  "md_lines ls = join_with [CHR 0x0A] ls"

section \<open>Markdown\<close>

text \<open>
  \<open>native\<close> says that the payload was made by the program: a list of objects is then a \<^verbatim>\<open>[]map[string]any\<close>, which
  is printed as a whole; in a decoded payload every list is a \<^verbatim>\<open>[]any\<close>.
\<close>

definition native_maps :: "bool \<Rightarrow> any_val list \<Rightarrow> bool" where
  "native_maps native xs \<longleftrightarrow> native \<and> xs \<noteq> [] \<and> list_all (\<lambda>x. case x of AMap _ \<Rightarrow> True | _ \<Rightarrow> False) xs"

definition mdSection :: "generator \<Rightarrow> bool \<Rightarrow> string \<Rightarrow> any_val option \<Rightarrow> string" where
  "mdSection g native title v =
     (let whole = [TrimSpace (print_any (gSprint g) v)]
      in md_lines ([''## '' @ title] @
           (case v of
              Some (AStr s) \<Rightarrow> [TrimSpace s]
            | Some (AArr xs) \<Rightarrow>
                if native_maps native xs then whole
                else map (\<lambda>x. ''- '' @ TrimSpace (print_any (gSprint g) (Some x))) xs
            | Some (AStrs xs) \<Rightarrow> map (\<lambda>x. ''- '' @ TrimSpace x) xs
            | Some (AMap m) \<Rightarrow> map (\<lambda>k. ''- '' @ k @ '': '' @ print_any (gSprint g) (m k)) (gWalk g m)
            | _ \<Rightarrow> whole) @ [[]]))"

definition renderRequirementsMarkdown :: "generator \<Rightarrow> bool \<Rightarrow> any_map \<Rightarrow> string" where
  "renderRequirementsMarkdown g native p =
     md_lines ([''# Requirements'', []] @
       map (\<lambda>(title, key). mdSection g native title (p key))
         [(''Objective'', ''objective''), (''Scope'', ''scope''), (''Out of scope'', ''out_of_scope''), (''Constraints'', ''constraints''),
          (''Risks'', ''risks''), (''Acceptance criteria'', ''acceptance_criteria''), (''Open questions'', ''open_questions''),
          (''Assumptions'', ''assumptions'')])"

definition renderDesignMarkdown :: "generator \<Rightarrow> bool \<Rightarrow> any_map \<Rightarrow> string" where
  "renderDesignMarkdown g native p =
     md_lines ([''# Technical Design'', []] @
       map (\<lambda>(title, key). mdSection g native title (p key))
         [(''Architecture'', ''architecture''), (''Components'', ''components''), (''Interfaces'', ''interfaces''), (''Data model'', ''data_model''),
          (''Testing strategy'', ''testing_strategy''), (''Technical risks'', ''technical_risks''), (''Pending decisions'', ''pending_decisions'')])"

definition task_lines :: "any_map \<Rightarrow> string list" where
  "task_lines t =
     [''- '' @ firstTrimmed [asString (t ''title''), ''Task''] @ '' ['' @ asString (t ''suggested_agent'') @ '' / '' @
        asString (t ''execution_mode'') @ '' / '' @ asString (t ''priority'') @ '']'',
      ''  '' @ firstTrimmed [asString (t ''description''), []]]"

definition renderExecutionPlanMarkdown :: "any_map \<Rightarrow> string" where
  "renderExecutionPlanMarkdown p =
     md_lines ([''# Execution Plan'', []] @
       concat (map (\<lambda>epic. [''## '' @ firstTrimmed [asString (epic ''name''), ''Epic''], []] @
          concat (map task_lines (normalizedMapSlice (epic ''tasks''))) @ [[]]) (normalizedMapSlice (p ''epics''))))"

section \<open>Payloads without the planner\<close>

definition fallbackRequirements :: "initiative \<Rightarrow> string \<Rightarrow> string \<Rightarrow> any_map" where
  "fallbackRequirements n feedback notes =
     [''title'' \<mapsto> AStr (nTitle n), ''objective'' \<mapsto> AStr (sanitizedInitiativeGoal (nGoal n)),
      ''scope'' \<mapsto> AStrs
        [''Convert the idea into a validated, executable initiative for a single workspace'',
         ''Keep operator approvals between major phases'',
         ''Produce artifacts that can drive task generation and selective execution''],
      ''out_of_scope'' \<mapsto> AStrs [''UI polish beyond TUI and Telegram control'', ''Full autonomy without approvals''],
      ''constraints'' \<mapsto> AStrs
        [''All work must remain bound to workspace '' @ nWorkspaceRoot n,
         ''Artifacts are the source of truth; workspace files are execution side-effects''],
      ''risks'' \<mapsto> AStrs
        [''Ambiguous initial idea can leak into weak design if not corrected in review'',
         ''Selective execution still needs dependency discipline between tasks''],
      ''acceptance_criteria'' \<mapsto> AStrs
        [''Requirements are reviewable and technically actionable'',
         ''Requirements enumerate acceptance criteria and open questions''],
      ''open_questions'' \<mapsto> AStrs
        [''What parts of the initiative remain manual by policy?'', ''What level of autonomy is acceptable after plan approval?''],
      ''assumptions'' \<mapsto> AStrs
        [firstTrimmed [TrimSpace feedback, ''No additional operator corrections were supplied.''],
         firstTrimmed [TrimSpace notes, ''No external research context was required.'']]]"

definition design_part :: "string \<Rightarrow> string \<Rightarrow> any_map" where
  "design_part name responsibility = [''name'' \<mapsto> AStr name, ''responsibility'' \<mapsto> AStr responsibility]"

definition fallbackDesign :: "initiative \<Rightarrow> any_map \<Rightarrow> string \<Rightarrow> any_map" where
  "fallbackDesign n requirements feedback =
     [''title'' \<mapsto> AStr (nTitle n), ''objective'' \<mapsto> AStr (sanitizedInitiativeGoal (nGoal n)),
      ''architecture'' \<mapsto> AStr ''Go orchestrator runtime remains the control plane. Initiative lifecycle sits above tasks and persists versioned phase artifacts. TUI is the authoring and approval surface, Telegram is remote control.'',
      ''components'' \<mapsto> maps_val
        [design_part ''initiative API'' ''create, advance, approve, reject, generate and launch'',
         design_part ''initiative store'' ''persist initiatives, phase reviews, task links'',
         design_part ''artifact layer'' ''store markdown/json outputs per phase'',
         design_part ''TUI initiative cockpit'' ''review and launch work from a workspace'',
         design_part ''Telegram control surface'' ''remote phase approvals and status checks''],
      ''interfaces'' \<mapsto> AStrs
        [''POST /initiatives'', ''POST /initiatives/{id}/advance'', ''POST /initiatives/{id}/approve/{phase}'',
         ''POST /initiatives/{id}/tasks/generate'', ''POST /initiatives/{id}/tasks/launch''],
      ''data_model'' \<mapsto> AMap
        [''initiative'' \<mapsto> AStrs [''status'', ''current_phase'', ''active artifact ids'', ''workspace_root''],
         ''phase_reviews'' \<mapsto> AStrs [''phase'', ''decision'', ''feedback'', ''artifact ids''],
         ''task_links'' \<mapsto> AStrs [''phase_origin'', ''execution_mode'', ''launch_group'', ''launch_order'']],
      ''testing_strategy'' \<mapsto> AStrs
        [''API integration tests per phase transition'', ''TUI flow tests for initiative creation and approval'',
         ''E2E on temporary workspace with selective launch''],
      ''technical_risks'' \<mapsto> AStrs
        [''Phase artifacts may become inconsistent if transition rules are weak'',
         ''Task launch ordering can degrade if generation omits explicit launch order''],
      ''pending_decisions'' \<mapsto> AStrs [firstTrimmed [TrimSpace feedback, ''No additional design corrections were supplied.'']],
      ''requirements_snapshot'' \<mapsto> AMap requirements]"

text \<open>A task of a plan and an epic; the fields that all tasks have come first.\<close>

definition plan_task ::
  "string \<Rightarrow> string \<Rightarrow> string \<Rightarrow> string \<Rightarrow> string \<Rightarrow> bool \<Rightarrow> string \<Rightarrow> any_map \<Rightarrow> any_map" where
  "plan_task title description agent priority mode approval criterion metadata =
     [''title'' \<mapsto> AStr title, ''description'' \<mapsto> AStr description, ''suggested_agent'' \<mapsto> AStr agent,
      ''priority'' \<mapsto> AStr priority, ''execution_mode'' \<mapsto> AStr mode, ''execution_target'' \<mapsto> AStr ''local'',
      ''approval_required'' \<mapsto> ABool approval, ''definition_of_done'' \<mapsto> AStr criterion, ''metadata'' \<mapsto> AMap metadata]"

definition epic_of :: "string \<Rightarrow> string \<Rightarrow> any_map list \<Rightarrow> any_map" where
  "epic_of name grp tasks = [''name'' \<mapsto> AStr name, ''group'' \<mapsto> AStr grp, ''tasks'' \<mapsto> maps_val tasks]"

subsection \<open>The plan for a repository\<close>

text \<open>The keys a benchmark adds when they are not empty.\<close>

definition benchmark_labels :: "repo_profile \<Rightarrow> (string \<times> string) list" where
  "benchmark_labels p =
     [(''benchmark_case_id'', wfBenchmarkCaseID p), (''benchmark_case_type'', wfBenchmarkCaseType p),
      (''benchmark_league'', wfBenchmarkLeague p), (''sequence_id'', wfSequenceID p), (''sequence_position'', wfSequencePosition p)]"

definition put_texts :: "(string \<times> string) list \<Rightarrow> any_map \<Rightarrow> any_map" where
  "put_texts kvs m = fold (\<lambda>(k, v) acc. put_nonblank k v acc) kvs m"

definition applyBenchmarkMetadata :: "any_map \<Rightarrow> repo_profile \<Rightarrow> any_map" where
  "applyBenchmarkMetadata m p =
     put_texts (benchmark_labels p @
       [(''language'', wfLanguage p), (''framework'', wfFramework p), (''problem_domain'', wfProblemDomain p),
        (''error_class'', wfErrorClass p), (''fix_pattern'', wfFixPattern p), (''validation_pattern'', wfValidationPattern p)]) m"

definition repo_request :: "repo_profile \<Rightarrow> string \<Rightarrow> any_map" where
  "repo_request p goal =
     put_texts (benchmark_labels p)
       [''project_name'' \<mapsto> AStr (wfRepoName p), ''parent_directory'' \<mapsto> AStr ''.'', ''project_root'' \<mapsto> AStr (wfProjectRoot p),
        ''project_type'' \<mapsto> AStr (wfProjectType p), ''runtime_or_stack'' \<mapsto> AStr (wfStack p), ''language'' \<mapsto> AStr (wfLanguage p),
        ''framework'' \<mapsto> AStr (wfFramework p), ''problem_domain'' \<mapsto> AStr (wfProblemDomain p), ''error_class'' \<mapsto> AStr (wfErrorClass p),
        ''fix_pattern'' \<mapsto> AStr (wfFixPattern p), ''validation_pattern'' \<mapsto> AStr (wfValidationPattern p),
        ''repository_url'' \<mapsto> AStr (wfRepositoryURL p), ''default_branch'' \<mapsto> AStr (wfDefaultBranch p), ''goal'' \<mapsto> AStr goal,
        ''test_focus'' \<mapsto> AStr (wfTestFocus p), ''test_command'' \<mapsto> AStrs (wfTestCommand p), ''expected_files'' \<mapsto> AStrs (wfExpected p),
        ''repo_profile'' \<mapsto> AStr (wfProjectFlow p)]"

definition repo_research :: "repo_profile \<Rightarrow> initiative \<Rightarrow> string \<Rightarrow> any_map" where
  "repo_research p n goal =
     applyBenchmarkMetadata
       [''initiative_goal'' \<mapsto> AStr goal, ''project_request'' \<mapsto> AMap (repo_request p goal), ''workspace_root'' \<mapsto> AStr (nWorkspaceRoot n),
        ''capability_intent'' \<mapsto> AStr ''needs_external_evidence'', ''preferred_capability_tags'' \<mapsto> AStrs [''evidence'', ''search'', ''docs''],
        ''allowed_capabilities'' \<mapsto> AStrs [''filesystem.read'', ''web.search'', ''web.fetch'', ''document.read''],
        ''tool_request'' \<mapsto> AMap [''tool'' \<mapsto> AStr ''research_project'', ''project_request'' \<mapsto> AMap (repo_request p goal),
           ''project_root'' \<mapsto> AStr (wfProjectRoot p), ''goal'' \<mapsto> AStr goal, ''test_command'' \<mapsto> AStrs (wfTestCommand p)]] p"

definition repo_edit :: "repo_profile \<Rightarrow> initiative \<Rightarrow> string \<Rightarrow> any_map" where
  "repo_edit p n goal =
     applyBenchmarkMetadata
       [''project_request'' \<mapsto> AMap (repo_request p goal), ''workspace_root'' \<mapsto> AStr (nWorkspaceRoot n), ''requires_approval'' \<mapsto> ABool True,
        ''capability_intent'' \<mapsto> AStr ''needs_workspace_write'', ''preferred_capability_tags'' \<mapsto> AStrs [''filesystem'', ''write'', ''workspace''],
        ''allowed_capabilities'' \<mapsto> AStrs [''filesystem.write''],
        ''tool_request'' \<mapsto> AMap (put_texts [(''patch'', wfPatch p), (''content'', wfWriteContent p), (''path'', wfPatchTarget p)]
           [''tool'' \<mapsto> AStr (wfCoderTool p), ''project_root'' \<mapsto> AStr (wfProjectRoot p), ''requires_approval'' \<mapsto> ABool True]),
        ''repo_workflow'' \<mapsto> AStr ''repo_workflow_v1'', ''repo_workflow_goal'' \<mapsto> AStr (wfCoderSummary p)] p"

definition repo_review :: "repo_profile \<Rightarrow> initiative \<Rightarrow> string \<Rightarrow> any_map" where
  "repo_review p n goal =
     applyBenchmarkMetadata
       [''project_request'' \<mapsto> AMap (repo_request p goal), ''workspace_root'' \<mapsto> AStr (nWorkspaceRoot n),
        ''capability_intent'' \<mapsto> AStr ''needs_repo_static_analysis'',
        ''preferred_capability_tags'' \<mapsto> AStrs [''review'', ''static-analysis'', ''code-quality'', ''validation''],
        ''allowed_capabilities'' \<mapsto> AStrs [''filesystem.read'', ''code.analysis''],
        ''tool_request'' \<mapsto> AMap [''tool'' \<mapsto> AStr ''review_project'', ''project_root'' \<mapsto> AStr (wfProjectRoot p),
           ''expected_files'' \<mapsto> AStrs (wfExpected p), ''test_command'' \<mapsto> AStrs (wfTestCommand p),
           ''analysis_types'' \<mapsto> AStrs [''dependencies'', ''security'']]] p"

definition initiative_profile :: "generator \<Rightarrow> initiative \<Rightarrow> repo_profile" where
  "initiative_profile g n = detectRepoWorkflowProfile (gParse g) (gSprint g) (gDisk g) (nWorkspaceRoot n) (nGoal n)"

definition plan_goal :: "initiative \<Rightarrow> string" where
  "plan_goal n = firstTrimmed [sanitizedInitiativeGoal (nGoal n), nTitle n]"

definition repo_epics :: "repo_profile \<Rightarrow> initiative \<Rightarrow> any_map list" where
  "repo_epics p n =
     [epic_of ''Repository context'' ''discovery''
        [plan_task ''Research repository constraints''
           (''Inspect the existing repository at '' @ nWorkspaceRoot n @ '' and prepare execution constraints.'')
           ''researcher'' ''normal'' ''agent_local'' False
           ''Repository context, test command, and expected files are captured for local execution.'' (repo_research p n (plan_goal n))],
      epic_of ''Deterministic repo patch'' ''delivery''
        [plan_task ''Apply deterministic repository patch'' (wfCoderSummary p) ''coder'' ''high'' ''agent_local'' True
           ''A deterministic patch is applied and a git diff is available for review.'' (repo_edit p n (plan_goal n))],
      epic_of ''Repository validation'' ''validation''
        [plan_task ''Review repository changes''
           (''Run the repository validation command for '' @ wfRepoName p @ '' and persist the review outcome.'')
           ''reviewer'' ''normal'' ''agent_local'' False
           ''Tests pass and review artifacts are persisted.'' (repo_review p n (plan_goal n))]]"

definition fallbackRepoExecutionPlan :: "generator \<Rightarrow> initiative \<Rightarrow> any_map \<Rightarrow> any_map" where
  "fallbackRepoExecutionPlan g n design =
     (let p = initiative_profile g n
      in [''title'' \<mapsto> AStr (nTitle n), ''epics'' \<mapsto> maps_val (repo_epics p n), ''design_snapshot'' \<mapsto> AMap design,
          ''project_flow'' \<mapsto> AStr ''repo_workflow_v1'', ''repo_profile'' \<mapsto> AStr (wfProjectFlow p)])"

subsection \<open>The plan for a new project\<close>

definition shouldUseDeterministicRepoPlan :: "generator \<Rightarrow> initiative \<Rightarrow> bool" where
  "shouldUseDeterministicRepoPlan g n \<longleftrightarrow>
     HasPrefix (TrimSpace (nTitle n)) ''Benchmark '' \<or>
     loadBenchmarkRepoWorkflowProfileFromGoal (gParse g) (gSprint g) (nGoal n) (nWorkspaceRoot n) \<noteq> None \<or>
     (TrimSpace (nWorkspaceRoot n) \<noteq> [] \<and>
      loadBenchmarkRepoWorkflowProfile (gParse g) (gSprint g) (gDisk g) (TrimSpace (nWorkspaceRoot n)) \<noteq> None)"

definition delivery_request :: "initiative \<Rightarrow> any_map" where
  "delivery_request n =
     [''project_name'' \<mapsto> AStr (project_slug (nTitle n)), ''parent_directory'' \<mapsto> AStr (nWorkspaceRoot n), ''project_type'' \<mapsto> AStr ''cli_simple'',
      ''runtime_or_stack'' \<mapsto> AStr ''python'', ''goal'' \<mapsto> AStr (plan_goal n), ''test_focus'' \<mapsto> AStr ''initiative execution flow'',
      ''initialize_git'' \<mapsto> ABool True, ''requires_approval'' \<mapsto> ABool False,
      ''test_command'' \<mapsto> AStrs (defaultInitiativeTestCommand ''cli_simple'' ''python''),
      ''expected_files'' \<mapsto> AStrs (expectedInitiativeFiles ''cli_simple'')]"

definition delivery_epics :: "initiative \<Rightarrow> string \<Rightarrow> any_map list" where
  "delivery_epics n feedback =
     [epic_of ''Context and validation'' ''discovery''
        [plan_task ''Research the initiative constraints''
           ''Produce context, checklist and constraints for the initiative before code execution.''
           ''researcher'' ''normal'' ''agent_local'' False ''Research context is persisted and references the initiative goal.''
           [''initiative_goal'' \<mapsto> AStr (plan_goal n)]],
      epic_of ''Initial delivery scaffold'' ''delivery''
        [plan_task ''Create a minimal runnable project''
           (''Create a minimal project in workspace '' @ nWorkspaceRoot n @ '' for initiative '' @ nTitle n @ ''.'')
           ''coder'' ''high'' ''agent_local'' False ''Workspace contains runnable scaffold, manifest and test file.''
           [''tool_request'' \<mapsto> AMap [''tool'' \<mapsto> AStr ''scaffold_project''], ''project_request'' \<mapsto> AMap (delivery_request n),
            ''workspace_root'' \<mapsto> AStr (nWorkspaceRoot n)],
         plan_task ''Validate the generated scaffold''
           ''Review the scaffolded project and validate expected files and test command.''
           ''reviewer'' ''normal'' ''agent_local'' False ''Reviewer confirms the scaffold passes expected checks.''
           [''tool_request'' \<mapsto> AMap [''tool'' \<mapsto> AStr ''review_project'', ''analysis_types'' \<mapsto> AStrs [''dependencies'', ''security'']],
            ''project_request'' \<mapsto> AMap (delivery_request n), ''workspace_root'' \<mapsto> AStr (nWorkspaceRoot n),
            ''allowed_capabilities'' \<mapsto> AStrs [''code.analysis'']]],
      epic_of ''Human approval and handoff'' ''review''
        [plan_task ''Review initiative outputs manually''
           ''Inspect the generated artifacts, backlog and workspace outcome before expanding execution.''
           ''reviewer'' ''low'' ''manual'' False
           (firstTrimmed [TrimSpace feedback, ''Operator confirms the initiative is ready for broader execution.''])
           [''manual_only'' \<mapsto> ABool True]]]"

definition fallbackExecutionPlan :: "generator \<Rightarrow> initiative \<Rightarrow> any_map \<Rightarrow> string \<Rightarrow> any_map" where
  "fallbackExecutionPlan g n design feedback =
     (if shouldUseDeterministicRepoPlan g n then fallbackRepoExecutionPlan g n design
      else [''title'' \<mapsto> AStr (nTitle n), ''epics'' \<mapsto> maps_val (delivery_epics n feedback), ''design_snapshot'' \<mapsto> AMap design])"

section \<open>The phases\<close>

definition requirements_prompt :: "generator \<Rightarrow> initiative \<Rightarrow> string \<Rightarrow> string \<Rightarrow> string" where
  "requirements_prompt g n feedback notes = md_lines
     [(''Eres un analyst t'' @ [CHR 0xC3, CHR 0xA9] @ ''cnico. Convierte una idea en requisitos t'' @ [CHR 0xC3, CHR 0xA9] @ ''cnicos ampliados para un workspace concreto.''),
      ''Devuelve SOLO JSON valido con estas claves: title, objective, scope, out_of_scope, constraints, risks, acceptance_criteria, open_questions, assumptions.'',
      ''Contexto:'', ''Title: '' @ nTitle n, ''Workspace: '' @ nWorkspaceRoot n, ''Goal: '' @ sanitizedInitiativeGoal (nGoal n),
      feedbackBlock feedback, notes]"

definition GenerateRequirements :: "generator \<Rightarrow> initiative \<Rightarrow> string \<Rightarrow> (string \<times> any_map) result" where
  "GenerateRequirements g n feedback =
     (let notes = researchNotes g (sanitizedInitiativeGoal (nGoal n)); own = fallbackRequirements n feedback notes
      in Inr (case callStructured g (requirements_prompt g n feedback notes) of
                Inl e \<Rightarrow> (renderRequirementsMarkdown g True own, own)
              | Inr p \<Rightarrow>
                  if ValidateRequirementsPayload (gSprint g) p \<noteq> None then (renderRequirementsMarkdown g True own, own)
                  else (renderRequirementsMarkdown g False p, p)))"

definition design_prompt :: "generator \<Rightarrow> initiative \<Rightarrow> any_map \<Rightarrow> string \<Rightarrow> string" where
  "design_prompt g n requirements feedback = md_lines
     [(''Eres un architect t'' @ [CHR 0xC3, CHR 0xA9] @ ''cnico. Convierte requisitos aprobados en un dise'' @ [CHR 0xC3, CHR 0xB1] @ ''o t'' @ [CHR 0xC3, CHR 0xA9] @ ''cnico ejecutable.''),
      ''Devuelve SOLO JSON valido con estas claves: title, architecture, components, interfaces, data_model, testing_strategy, technical_risks, pending_decisions.'',
      ''Contexto:'', ''Title: '' @ nTitle n, ''Workspace: '' @ nWorkspaceRoot n, ''Goal: '' @ sanitizedInitiativeGoal (nGoal n),
      ''Requirements JSON:'', gJson g requirements, feedbackBlock feedback]"

definition GenerateDesign :: "generator \<Rightarrow> initiative \<Rightarrow> any_map \<Rightarrow> string \<Rightarrow> (string \<times> any_map) result" where
  "GenerateDesign g n requirements feedback =
     (let own = fallbackDesign n requirements feedback
      in Inr (case callStructured g (design_prompt g n requirements feedback) of
                Inl e \<Rightarrow> (renderDesignMarkdown g True own, own)
              | Inr p \<Rightarrow>
                  if ValidateDesignPayload (gSprint g) p \<noteq> None then (renderDesignMarkdown g True own, own)
                  else (renderDesignMarkdown g False p, p)))"

definition plan_prompt :: "generator \<Rightarrow> initiative \<Rightarrow> any_map \<Rightarrow> string \<Rightarrow> string" where
  "plan_prompt g n design feedback = md_lines
     [(''Eres un planner operativo. Convierte un dise'' @ [CHR 0xC3, CHR 0xB1] @ ''o aprobado en un backlog ejecutable y selectivamente lanzable.''),
      (''Devuelve SOLO JSON valido con esta forma: {'' @ [CHR 0x22] @ ''title'' @ [CHR 0x22] @ '':'' @ [CHR 0x22] @ ''...'' @ [CHR 0x22] @ '','' @ [CHR 0x22] @ ''epics'' @ [CHR 0x22] @ '':[{'' @ [CHR 0x22] @ ''name'' @ [CHR 0x22] @ '':'' @ [CHR 0x22] @ ''...'' @ [CHR 0x22] @ '','' @ [CHR 0x22] @ ''group'' @ [CHR 0x22] @ '':'' @ [CHR 0x22] @ ''...'' @ [CHR 0x22] @ '','' @ [CHR 0x22] @ ''tasks'' @ [CHR 0x22] @ '':[{'' @ [CHR 0x22] @ ''title'' @ [CHR 0x22] @ '':'' @ [CHR 0x22] @ ''...'' @ [CHR 0x22] @ '','' @ [CHR 0x22] @ ''description'' @ [CHR 0x22] @ '':'' @ [CHR 0x22] @ ''...'' @ [CHR 0x22] @ '','' @ [CHR 0x22] @ ''suggested_agent'' @ [CHR 0x22] @ '':'' @ [CHR 0x22] @ ''coder'' @ [CHR 0x22] @ '','' @ [CHR 0x22] @ ''priority'' @ [CHR 0x22] @ '':'' @ [CHR 0x22] @ ''normal'' @ [CHR 0x22] @ '','' @ [CHR 0x22] @ ''execution_mode'' @ [CHR 0x22] @ '':'' @ [CHR 0x22] @ ''agent_local'' @ [CHR 0x22] @ '','' @ [CHR 0x22] @ ''execution_target'' @ [CHR 0x22] @ '':'' @ [CHR 0x22] @ ''local'' @ [CHR 0x22] @ '','' @ [CHR 0x22] @ ''approval_required'' @ [CHR 0x22] @ '':false,'' @ [CHR 0x22] @ ''definition_of_done'' @ [CHR 0x22] @ '':'' @ [CHR 0x22] @ ''...'' @ [CHR 0x22] @ '','' @ [CHR 0x22] @ ''metadata'' @ [CHR 0x22] @ '':{}}]}]}''),
      ''Reglas:'', ''- suggested_agent solo puede ser planner,researcher,coder,reviewer'',
      ''- execution_mode solo puede ser manual,agent_local,agent_remote'', ''- execution_target solo puede ser local o remote'',
      ''- incluye metadata suficiente para ejecutar tareas de workspace cuando proceda'',
      ''Contexto:'', ''Title: '' @ nTitle n, ''Workspace: '' @ nWorkspaceRoot n, ''Goal: '' @ nGoal n,
      ''Design JSON:'', gJson g design, feedbackBlock feedback]"

definition GenerateExecutionPlan :: "generator \<Rightarrow> initiative \<Rightarrow> any_map \<Rightarrow> string \<Rightarrow> (string \<times> any_map) result" where
  "GenerateExecutionPlan g n design feedback =
     Inr (if shouldUseDeterministicRepoPlan g n
          then (renderExecutionPlanMarkdown (fallbackRepoExecutionPlan g n design), fallbackRepoExecutionPlan g n design)
          else
            (let own = fallbackExecutionPlan g n design feedback
             in case callStructured g (plan_prompt g n design feedback) of
                  Inl e \<Rightarrow> (renderExecutionPlanMarkdown own, own)
                | Inr p \<Rightarrow>
                    if ValidateExecutionPlanPayload Itoa (gQuote g) p \<noteq> None then (renderExecutionPlanMarkdown own, own)
                    else (renderExecutionPlanMarkdown p, p)))"

end
