(* ===== verification/Initiative_Writing.thy ===== *)
theory Initiative_Writing
  imports Initiative_Service
begin

text \<open>
  What the service of the phases promises and what the workflow over HTTP gets from it: each phase meets its
  contract, whatever the planner answers, so a generated phase can be approved. The interface between both is the
  locale \<open>phase_writer\<close>.
\<close>

section \<open>Texts that are not blank\<close>

definition blanks :: "string list \<Rightarrow> bool" where
  "blanks ps \<longleftrightarrow> (\<forall>p \<in> set ps. \<forall>c \<in> set p. \<not> visible c)"

lemma strip_one_visible: "strip_one ps s = Some t \<Longrightarrow> blanks ps \<Longrightarrow> visible c \<Longrightarrow> c \<in> set s \<Longrightarrow> c \<in> set t"
proof (induction ps)
  case (Cons p ps)
  then show ?case by (auto simp: blanks_def prefix_def split: if_splits)
qed simp

lemma strip_front_visible_kept: "blanks ps \<Longrightarrow> visible c \<Longrightarrow> c \<in> set s \<Longrightarrow> c \<in> set (strip_front ps s)"
proof (induction ps s rule: strip_front.induct)
  case (1 ps s)
  show ?case
  proof (cases "strip_one ps s")
    case None
    then show ?thesis using 1 by (simp add: strip_front.simps [of ps s])
  next
    case (Some t)
    from 1(1) [OF Some 1(2,3) strip_one_visible [OF Some 1(2,3,4)]] Some show ?thesis by (simp add: strip_front.simps [of ps s])
  qed
qed

lemma TrimSpace_visible: "visible c \<Longrightarrow> c \<in> set s \<Longrightarrow> TrimSpace s \<noteq> []"
proof -
  assume v: "visible c" and "c \<in> set s"
  have "blanks space_seqs" "blanks (map rev space_seqs)" by (simp_all add: blanks_def space_seqs_def visible_def)
  with v \<open>c \<in> set s\<close> have "c \<in> set (strip_front (map rev space_seqs) (rev (strip_front space_seqs s)))"
    using strip_front_visible_kept [of _ c] by simp
  then show ?thesis by (auto simp: TrimSpace_def TrimLeftSpace_def TrimRightSpace_def)
qed

lemma TrimSpace_word: "visible c \<Longrightarrow> TrimSpace (c # s) \<noteq> []"
  by (rule TrimSpace_visible [of c]) simp_all

lemma firstTrimmed_default: "TrimSpace t \<noteq> [] \<Longrightarrow> TrimSpace (firstTrimmed [s, t]) \<noteq> []"
  by simp

section \<open>Payloads\<close>

text \<open>A reader of JSON returns plain values, and a text is printed as it is.\<close>

definition plain_json :: "generator \<Rightarrow> bool" where
  "plain_json g \<longleftrightarrow> (\<forall>t v. gParse g t = Some v \<longrightarrow> json_rt v = v) \<and> (\<forall>s. gSprint g (AStr s) = s)"

lemma texts_nonempty: "normalizedStringSlice sprint (Some (AStrs xs)) = [] \<longleftrightarrow> (\<forall>x \<in> set xs. TrimSpace x = [])"
  by (auto simp: normalizedStringSlice_def filter_empty_conv)

lemma stored_texts:
  "(\<And>s. sprint (AStr s) = s) \<Longrightarrow>
    normalizedStringSlice sprint (Some (json_rt (AStrs xs))) = normalizedStringSlice sprint (Some (AStrs xs))"
  by (simp add: normalizedStringSlice_def comp_def)

lemma stored_structure:
  "(\<And>s. sprint (AStr s) = s) \<Longrightarrow> isEmptyStructuredValue sprint (Some (json_rt (AStrs xs))) \<longleftrightarrow> (\<forall>x \<in> set xs. TrimSpace x = [])"
  using stored_texts [of sprint xs] by (auto simp: isEmptyStructuredValue_def normalizedMapSlice_def texts_nonempty map_filter_def)

lemma first_error_ok: "first_error es = None \<longleftrightarrow> (\<forall>e \<in> set es. e = None)"
  by (induction es) (auto split: option.splits)

lemma requirements_ok:
  "ValidateRequirementsPayload sprint p = None \<longleftrightarrow>
    TrimSpace (asString (p ''objective'')) \<noteq> [] \<and>
    (\<forall>k \<in> {''scope'', ''out_of_scope'', ''constraints'', ''risks'', ''acceptance_criteria'', ''open_questions'', ''assumptions''}.
       normalizedStringSlice sprint (p k) \<noteq> [])"
  by (auto simp: ValidateRequirementsPayload_def first_error_ok)

lemma design_ok:
  "ValidateDesignPayload sprint p = None \<longleftrightarrow>
    TrimSpace (asString (p ''architecture'')) \<noteq> [] \<and>
    (\<forall>k \<in> {''components'', ''interfaces'', ''data_model'', ''testing_strategy'', ''technical_risks'', ''pending_decisions''}.
       \<not> isEmptyStructuredValue sprint (p k))"
  by (auto simp: ValidateDesignPayload_def first_error_ok)

lemma json_map_at [simp]: "json_map m k = map_option json_rt (m k)"
  by (simp add: json_map_def)

lemma json_map_plain: "json_rt (AMap m) = AMap m \<Longrightarrow> json_map m = m"
  by (simp add: json_map_def)

lemma some_word: "x \<in> set xs \<Longrightarrow> TrimSpace x \<noteq> [] \<Longrightarrow> \<exists>x \<in> set xs. TrimSpace x \<noteq> []"
  by blast

lemma fallback_requirements_stored:
  assumes "\<And>s. sprint (AStr s) = s"
  shows "ValidateRequirementsPayload sprint (json_map (fallbackRequirements n feedback notes)) = None \<longleftrightarrow>
    sanitizedInitiativeGoal (nGoal n) \<noteq> []"
proof -
  have t: "TrimSpace (sanitizedInitiativeGoal (nGoal n)) = sanitizedInitiativeGoal (nGoal n)"
    by (simp add: sanitizedInitiativeGoal_def Let_def)
  have f: "firstTrimmed [TrimSpace notes, ''No external research context was required.''] \<noteq> []"
      "TrimSpace (firstTrimmed [TrimSpace notes, ''No external research context was required.'']) \<noteq> []"
    by (simp_all add: TrimSpace_word visible_def)
  show ?thesis
    unfolding requirements_ok
    by (simp add: fallbackRequirements_def asString_def stored_texts [OF assms] texts_nonempty TrimSpace_word visible_def t f
        del: firstTrimmed.simps json_rt.simps(6))
qed

lemma fallback_design_stored:
  assumes "\<And>s. sprint (AStr s) = s"
  shows "ValidateDesignPayload sprint (json_map (fallbackDesign n requirements feedback)) = None"
proof -
  have c: "\<not> isEmptyStructuredValue sprint (Some (json_rt (maps_val (m # ms))))" for m ms
    by (simp add: isEmptyStructuredValue_def maps_val_def normalizedMapSlice_def map_filter_simps)
  have m: "\<not> isEmptyStructuredValue sprint (Some (json_rt (AMap m)))" if "m k = Some v" for m k v
    using that by (auto simp: isEmptyStructuredValue_def fun_eq_iff)
  have f: "TrimSpace (firstTrimmed [TrimSpace feedback, ''No additional design corrections were supplied.'']) \<noteq> []"
    by (simp add: TrimSpace_word visible_def)
  show ?thesis
    unfolding design_ok
    by (simp add: fallbackDesign_def asString_def TrimSpace_word visible_def c stored_structure [OF assms] f
        m [of _ "''task_links''"] del: firstTrimmed.simps json_rt.simps(6,8))
qed

lemma plan_ok:
  assumes "normalizedMapSlice (p ''epics'') \<noteq> []"
    and "\<And>epic. epic \<in> set (normalizedMapSlice (p ''epics'')) \<Longrightarrow>
      TrimSpace (asString (epic ''name'')) \<noteq> [] \<and> normalizedMapSlice (epic ''tasks'') \<noteq> [] \<and>
      (\<forall>task \<in> set (normalizedMapSlice (epic ''tasks'')). \<forall>i. validate_plan_task itoa quote epic i task = None)"
  shows "ValidateExecutionPlanPayload itoa quote p = None"
  using assms
  by (auto simp: ValidateExecutionPlanPayload_def Let_def first_error_ok validate_plan_epic_def dest!: set_zip_rightD)

lemma stored_maps: "normalizedMapSlice (Some (json_rt (maps_val ms))) = map json_map ms"
  by (induction ms) (simp_all add: normalizedMapSlice_def maps_val_def map_filter_simps json_map_def)

lemma plan_task_ok:
  assumes "TrimSpace title \<noteq> []" "TrimSpace description \<noteq> []" "TrimSpace criterion \<noteq> []"
    and "agent \<in> {''researcher'', ''coder'', ''reviewer''}" "mode \<in> {''agent_local'', ''manual''}"
  shows "validate_plan_task itoa quote epic i (json_map (plan_task title description agent priority mode approval criterion m)) = None"
proof -
  have t: "TrimSpace agent = agent" "TrimSpace mode = mode" using assms(4,5) by (auto intro!: TrimSpace_solid simp: solid_def visible_def)
  have l: "TrimSpace ''local'' = ''local''" by (simp add: TrimSpace_solid solid_def visible_def)
  show ?thesis
    using assms unfolding validate_plan_task_def plan_task_def
    by (auto simp: Let_def asString_def t l agent_defs target_defs IsRecognizedTaskLaunchMode_def mode_defs)
qed

lemma epic_fields:
  "json_map (epic_of name grp tasks) ''name'' = Some (AStr name)"
  "normalizedMapSlice (json_map (epic_of name grp tasks) ''tasks'') = map json_map tasks"
  by (simp_all add: epic_of_def stored_maps)

definition epic_sound :: "any_map \<Rightarrow> bool" where
  "epic_sound e \<longleftrightarrow> TrimSpace (asString (json_map e ''name'')) \<noteq> [] \<and> normalizedMapSlice (json_map e ''tasks'') \<noteq> [] \<and>
     (\<forall>task \<in> set (normalizedMapSlice (json_map e ''tasks'')). \<forall>itoa quote epic i. validate_plan_task itoa quote epic i task = None)"

lemma plan_of_sound_epics:
  assumes "m ''epics'' = Some (maps_val epics)" "epics \<noteq> []" "list_all epic_sound epics"
  shows "ValidateExecutionPlanPayload itoa quote (json_map m) = None"
proof (rule plan_ok)
  have e: "normalizedMapSlice (json_map m ''epics'') = map json_map epics" using assms(1) by (simp add: stored_maps)
  then show "normalizedMapSlice (json_map m ''epics'') \<noteq> []" using assms(2) by simp
  fix epic assume "epic \<in> set (normalizedMapSlice (json_map m ''epics''))"
  then obtain x where "x \<in> set epics" "epic = json_map x" unfolding e by auto
  with assms(3) show "TrimSpace (asString (epic ''name'')) \<noteq> [] \<and> normalizedMapSlice (epic ''tasks'') \<noteq> [] \<and>
      (\<forall>task \<in> set (normalizedMapSlice (epic ''tasks'')). \<forall>i. validate_plan_task itoa quote epic i task = None)"
    by (auto simp: list_all_iff epic_sound_def)
qed

lemma sound_epic:
  assumes "TrimSpace name \<noteq> []" "tasks \<noteq> []"
    and "\<And>t. t \<in> set tasks \<Longrightarrow> \<forall>itoa quote epic i. validate_plan_task itoa quote epic i (json_map t) = None"
  shows "epic_sound (epic_of name grp tasks)"
  using assms by (auto simp: epic_sound_def epic_fields asString_def simp del: json_map_at)

lemmas words = TrimSpace_word visible_def

lemma benchmark_summary: "TrimSpace (wfCoderSummary (benchmark_profile sprint m workspaceRoot)) \<noteq> []"
  by (simp add: benchmark_profile_def Let_def words)

lemma decoded_summary: "decodeBenchmarkRepoWorkflowProfile parse sprint raw ws = Some p \<Longrightarrow> TrimSpace (wfCoderSummary p) \<noteq> []"
  unfolding decodeBenchmarkRepoWorkflowProfile_def
  by (auto simp: benchmark_summary split: option.splits any_val.splits if_splits simp del: TrimSpace_Nil)

lemma coder_summary_stated: "TrimSpace (wfCoderSummary (detectRepoWorkflowProfile parse sprint d workspaceRoot goal)) \<noteq> []"
proof (cases "loadBenchmarkRepoWorkflowProfileFromGoal parse sprint goal workspaceRoot")
  case (Some p)
  then show ?thesis using decoded_summary
    by (simp add: detectRepoWorkflowProfile_def loadBenchmarkRepoWorkflowProfileFromGoal_def split: option.splits)
next
  case g: None
  show ?thesis
  proof (cases "loadBenchmarkRepoWorkflowProfile parse sprint d workspaceRoot")
    case (Some p)
    then show ?thesis using g decoded_summary
      by (simp add: detectRepoWorkflowProfile_def loadBenchmarkRepoWorkflowProfile_def split: sum.splits)
  next
    case None
    then show ?thesis using g by (simp add: detectRepoWorkflowProfile_def Let_def words)
  qed
qed

lemma repo_plan_stored: "ValidateExecutionPlanPayload itoa quote (json_map (fallbackRepoExecutionPlan g n design)) = None"
proof (rule plan_of_sound_epics)
  have c: "TrimSpace (wfCoderSummary (initiative_profile g n)) \<noteq> []" unfolding initiative_profile_def by (rule coder_summary_stated)
  show "list_all epic_sound (repo_epics (initiative_profile g n) n)"
    unfolding repo_epics_def list.pred_inject by (intro conjI sound_epic) (auto intro!: plan_task_ok simp: words c)
qed (simp_all add: fallbackRepoExecutionPlan_def Let_def repo_epics_def)

lemma fallback_plan_stored: "ValidateExecutionPlanPayload itoa quote (json_map (fallbackExecutionPlan g n design feedback)) = None"
proof (cases "shouldUseDeterministicRepoPlan g n")
  case True
  then show ?thesis by (simp add: fallbackExecutionPlan_def repo_plan_stored)
next
  case False
  have f: "TrimSpace (firstTrimmed [TrimSpace feedback, ''Operator confirms the initiative is ready for broader execution.'']) \<noteq> []"
    by (simp add: words)
  show ?thesis
  proof (rule plan_of_sound_epics)
    show "list_all epic_sound (delivery_epics n feedback)"
      unfolding delivery_epics_def list.pred_inject
      by (intro conjI sound_epic) (auto intro!: plan_task_ok simp: words f simp del: firstTrimmed.simps)
  qed (simp_all add: fallbackExecutionPlan_def False delivery_epics_def)
qed

section \<open>The interface of the workflow\<close>

lemma unmarshal_plain: "plain_json g \<Longrightarrow> unmarshal_map (gParse g answer) = Inr p \<Longrightarrow> json_map p = p"
proof -
  assume g: "plain_json g" and u: "unmarshal_map (gParse g answer) = Inr p"
  from u consider "gParse g answer = Some (AMap p)" | "p = Map.empty"
    by (auto simp: unmarshal_map_def split: option.splits any_val.splits)
  then show ?thesis
  proof cases
    case 1
    then have "json_rt (AMap p) = AMap p" using g by (simp add: plain_json_def del: json_rt.simps)
    then show ?thesis by (rule json_map_plain)
  qed (simp add: json_map_def)
qed

lemma callStructured_plain:
  assumes "plain_json g" "callStructured g prompt = Inr p"
  shows "json_map p = p"
proof -
  obtain answer where "unmarshal_map (gParse g answer) = Inr p"
    using assms(2) by (auto simp: callStructured_def read_completion_def Let_def split: if_splits sum.splits option.splits prod.splits list.splits)
  with assms(1) show ?thesis by (rule unmarshal_plain)
qed

definition fresh_artifacts :: "flow_env \<Rightarrow> flow \<Rightarrow> bool" where
  "fresh_artifacts env w \<longleftrightarrow>
     (let md = eUid env (wN w); js = eUid env (wN w + 1)
      in md \<noteq> js \<and> js \<noteq> [] \<and> TrimSpace js = js \<and> js \<notin> rID ` set (iArtifacts (wS w)))"

lemma stored_payload:
  assumes "fresh_artifacts env w"
  shows "getActiveInitiativeArtifactJSON (wS (generated_phase env n phase status (md, p) fb w)) (Some (eUid env (wN w + 1))) =
    Inr (json_map p)"
proof -
  let ?js = "eUid env (wN w + 1)"
  have f: "eUid env (wN w) \<noteq> ?js" "?js \<noteq> []" "TrimSpace ?js = ?js" "?js \<notin> rID ` set (iArtifacts (wS w))"
    using assms by (simp_all add: fresh_artifacts_def Let_def)
  have "find_row rID ?js (iArtifacts (wS w)) = None" using f(4) by (simp add: find_row_None_iff)
  then show ?thesis
    using f(1-3)
    by (auto simp: generated_phase_def persistInitiativePhaseArtifacts_def updateInitiativeActiveArtifacts_def add_review_def
        CreateInitiativePhaseReview_def UpdateInitiative_def Let_def getActiveInitiativeArtifactJSON_def derefString_def
        find_row_append json_map_def)
qed

text \<open>
  A writer answers for each suitable initiative with a payload whose stored form passes the check of its phase.
\<close>

locale phase_writer =
  fixes writer :: "initiative \<Rightarrow> 'c \<Rightarrow> string \<Rightarrow> (string \<times> any_map) result"
    and check :: "any_map \<Rightarrow> string option"
    and suitable :: "initiative \<Rightarrow> bool"
  assumes writes: "suitable n \<Longrightarrow> \<exists>md p. writer n x feedback = Inr (md, p) \<and> check (json_map p) = None"
begin

lemma stored_phase_passes:
  assumes "suitable n" "writer n x feedback = Inr payload" "fresh_artifacts env w"
  shows "\<exists>p. getActiveInitiativeArtifactJSON (wS (generated_phase env n phase status payload fb w)) (Some (eUid env (wN w + 1))) = Inr p \<and>
    check p = None"
proof -
  obtain md p where p: "payload = (md, p)" "check (json_map p) = None" using writes [OF assms(1), of x feedback] assms(2) by auto
  with stored_payload [OF assms(3)] show ?thesis by blast
qed

lemma answers: "suitable n \<Longrightarrow> \<exists>payload. writer n x feedback = Inr payload"
  using writes by blast

end

lemma requirements_written:
  assumes "plain_json g" "sanitizedInitiativeGoal (nGoal n) \<noteq> []"
  shows "\<exists>md p. GenerateRequirements g n feedback = Inr (md, p) \<and> ValidateRequirementsPayload (gSprint g) (json_map p) = None"
proof -
  have s: "\<And>s. gSprint g (AStr s) = s" using assms(1) by (simp add: plain_json_def)
  have "ValidateRequirementsPayload (gSprint g) (json_map (fallbackRequirements n feedback rs)) = None" for rs
    using assms(2) by (simp add: fallback_requirements_stored [OF s])
  then show ?thesis
    using callStructured_plain [OF assms(1)] by (simp add: GenerateRequirements_def Let_def split: sum.splits)
qed

lemma design_written:
  assumes "plain_json g"
  shows "\<exists>md p. GenerateDesign g n requirements feedback = Inr (md, p) \<and> ValidateDesignPayload (gSprint g) (json_map p) = None"
proof -
  have s: "\<And>s. gSprint g (AStr s) = s" using assms(1) by (simp add: plain_json_def)
  show ?thesis
    using callStructured_plain [OF assms] fallback_design_stored [of "gSprint g", OF s]
    by (simp add: GenerateDesign_def Let_def split: sum.splits)
qed

lemma plan_written:
  assumes "plain_json g"
  shows "\<exists>md p. GenerateExecutionPlan g n design feedback = Inr (md, p) \<and>
    ValidateExecutionPlanPayload Itoa (gQuote g) (json_map p) = None"
  using callStructured_plain [OF assms] repo_plan_stored fallback_plan_stored
  by (simp add: GenerateExecutionPlan_def Let_def split: sum.splits)

definition requirements_for :: "generator \<Rightarrow> initiative \<Rightarrow> unit \<Rightarrow> string \<Rightarrow> (string \<times> any_map) result" where
  "requirements_for g n x feedback = GenerateRequirements g n feedback"

interpretation requirements: phase_writer "requirements_for g" "ValidateRequirementsPayload (gSprint g)"
  "\<lambda>n. plain_json g \<and> sanitizedInitiativeGoal (nGoal n) \<noteq> []" for g
  by unfold_locales (auto simp: requirements_for_def intro!: requirements_written)

interpretation design: phase_writer "GenerateDesign g" "ValidateDesignPayload (gSprint g)" "\<lambda>n. plain_json g" for g
  by unfold_locales (auto intro!: design_written)

interpretation plan: phase_writer "GenerateExecutionPlan g" "ValidateExecutionPlanPayload Itoa (gQuote g)" "\<lambda>n. plain_json g" for g
  by unfold_locales (auto intro!: plan_written)

section \<open>Properties\<close>

definition served_by :: "flow_env \<Rightarrow> generator \<Rightarrow> bool" where
  "served_by env g \<longleftrightarrow> eReq env = GenerateRequirements g \<and> eDesign env = GenerateDesign g \<and> ePlan env = GenerateExecutionPlan g \<and>
     eSprint env = gSprint g \<and> eItoa env = Itoa \<and> eQuote env = gQuote g"

lemma phase_named: "IsRecognizedInitiativePhase (TrimSpace (phaseText ph)) = Some ph"
  by (cases ph) (simp_all add: phaseText_def TrimSpace_solid solid_def visible_def IsRecognizedInitiativePhase_def)

lemma generated_initiative:
  assumes "GetInitiative (wS w) (nID n) = Some n" "phase \<in> {RequirementsPhase, DesignPhase}" "fresh_artifacts env w"
  shows "\<exists>m. GetInitiative (wS (generated_phase env n phase status payload fb w)) (nID n) = Some m \<and> nPhase m = phase \<and> nID m = nID n \<and>
    nGoal m = nGoal n \<and> activeArtifactJSONIDForPhase m phase = Some (eUid env (wN w + 1))"
  using assms
  by (auto simp: generated_phase_def persistInitiativePhaseArtifacts_def updateInitiativeActiveArtifacts_def add_review_def
      CreateInitiativePhaseReview_def UpdateInitiative_def Let_def GetInitiative_def find_row_upd_same update_initiative_row_def
      noUpdate_def coalesce_def activeArtifactJSONIDForPhase_def)

lemma reviewed_phase:
  assumes "GetInitiative (wS w) i = Some m" "nPhase m = phase" "phase \<in> {RequirementsPhase, DesignPhase}"
    and "getActiveInitiativeArtifactJSON (wS w) (activeArtifactJSONIDForPhase m phase) = Inr p" "validatePhaseArtifactPayload env phase p = None"
  shows "\<exists>w' m'. resolveInitiativePhase env approve i (phaseText phase) operator fb w = (w', RInitiative (Some m')) \<and>
    next_step approve phase = Some (nStatus m', nPhase m')"
proof -
  have i: "nID m = i" using assms(1) by (rule GetInitiative_id)
  show ?thesis
    using assms i
    by (auto simp: resolveInitiativePhase_def phase_named record_resolution_def Let_def add_review_def CreateInitiativePhaseReview_def
        UpdateInitiative_def GetInitiative_def find_row_upd_same update_initiative_row_def noUpdate_def next_step_def)
qed

text \<open>
  Whatever the planner model answers, and also when it cannot be reached, the requirements or the design that
  the service writes for an initiative pass the review: after a successful generation the operator can approve or
  reject the phase, and the initiative takes the step of the decision.
\<close>

theorem generated_phases_can_be_reviewed:
  assumes "served_by env g" "plain_json g" "fresh_artifacts env w" "GetInitiative (wS w) i = Some n"
    and "nPhase n = RequirementsPhase \<Longrightarrow> sanitizedInitiativeGoal (nGoal n) \<noteq> []"
    and "advanceInitiative env i feedback w = (w1, RInitiative r)"
  shows "\<exists>w2 m. resolveInitiativePhase env approve i (phaseText (nPhase n)) operator fb w1 = (w2, RInitiative (Some m)) \<and>
    next_step approve (nPhase n) = Some (nStatus m, nPhase m)"
proof -
  have i: "nID n = i" using assms(4) by (rule GetInitiative_id)
  have e: "eReq env = GenerateRequirements g" "eDesign env = GenerateDesign g" "eSprint env = gSprint g"
    using assms(1) by (simp_all add: served_by_def)
  consider (req) payload where "nPhase n = RequirementsPhase" "GenerateRequirements g n feedback = Inr payload"
      "w1 = generated_phase env n RequirementsPhase RequirementsReview payload feedback w"
    | (des) payload req where "nPhase n = DesignPhase" "GenerateDesign g n req feedback = Inr payload"
      "w1 = generated_phase env n DesignPhase DesignReview payload feedback w"
    using assms(4,6) by (auto simp: advanceInitiative_def e Let_def split: initiative_phase.splits sum.splits)
  then show ?thesis
  proof cases
    case req
    have s: "plain_json g \<and> sanitizedInitiativeGoal (nGoal n) \<noteq> []" using assms(2,5) req(1) by simp
    obtain m where m: "GetInitiative (wS w1) i = Some m" "nPhase m = RequirementsPhase"
        "activeArtifactJSONIDForPhase m RequirementsPhase = Some (eUid env (wN w + 1))"
      using generated_initiative [of w n RequirementsPhase env RequirementsReview payload feedback] assms(3,4) i req(3) by auto
    obtain p where "getActiveInitiativeArtifactJSON (wS w1) (Some (eUid env (wN w + 1))) = Inr p"
        "ValidateRequirementsPayload (gSprint g) p = None"
      using requirements.stored_phase_passes [OF s _ assms(3), where x = "()" and feedback = feedback and payload = payload and
          phase = RequirementsPhase and status = RequirementsReview and fb = feedback] req(2,3) by (auto simp: requirements_for_def)
    then show ?thesis
      using reviewed_phase [OF m(1,2), of p env] m(3) req(1) by (simp add: validatePhaseArtifactPayload_def e)
  next
    case des
    obtain m where m: "GetInitiative (wS w1) i = Some m" "nPhase m = DesignPhase"
        "activeArtifactJSONIDForPhase m DesignPhase = Some (eUid env (wN w + 1))"
      using generated_initiative [of w n DesignPhase env DesignReview payload feedback] assms(3,4) i des(3) by auto
    obtain p where "getActiveInitiativeArtifactJSON (wS w1) (Some (eUid env (wN w + 1))) = Inr p"
        "ValidateDesignPayload (gSprint g) p = None"
      using design.stored_phase_passes [OF assms(2) des(2) assms(3), where phase = DesignPhase and status = DesignReview and fb = feedback] des(3) by auto
    then show ?thesis
      using reviewed_phase [OF m(1,2), of p env] m(3) des(1) by (simp add: validatePhaseArtifactPayload_def e)
  qed
qed

text \<open>A service without a planner, and an initiative that asks for its requirements.\<close>

definition lone_generator :: generator where
  "lone_generator = \<lparr>gBaseURL = [], gAPIKey = [], gTimeoutSeconds = 0, gPost = (\<lambda>b u t m. Inl ''off''), gResearch = (\<lambda>q. None),
     gParse = (\<lambda>s. None), gSprint = (\<lambda>v. case v of AStr s \<Rightarrow> s | _ \<Rightarrow> ''v''), gJson = (\<lambda>m. ''{}''), gQuote = (\<lambda>s. s),
     gWalk = (\<lambda>m. []), gDisk = []\<rparr>"

definition served_env :: flow_env where
  "served_env = sample_env\<lparr>eReq := GenerateRequirements lone_generator, eDesign := GenerateDesign lone_generator,
     ePlan := GenerateExecutionPlan lone_generator, eSprint := gSprint lone_generator, eItoa := Itoa, eQuote := gQuote lone_generator\<rparr>"

definition asking :: "string \<Rightarrow> initiative" where
  "asking goal = (sample_initiative RequirementsDraft RequirementsPhase)\<lparr>nGoal := goal\<rparr>"

definition asking_flow :: "string \<Rightarrow> flow" where
  "asking_flow goal = (sample_flow RequirementsDraft RequirementsPhase Created)
     \<lparr>wS := (wS (sample_flow RequirementsDraft RequirementsPhase Created))\<lparr>iInits := [asking goal]\<rparr>\<rparr>"

lemma served_facts: "served_by served_env lone_generator" "plain_json lone_generator"
  by (simp_all add: served_by_def served_env_def plain_json_def lone_generator_def)

lemma asking_facts:
  "GetInitiative (wS (asking_flow goal)) ''n1'' = Some (asking goal)" "nPhase (asking goal) = RequirementsPhase"
  "nGoal (asking goal) = goal" "fresh_artifacts served_env (asking_flow goal)"
  by (simp_all add: asking_flow_def asking_def GetInitiative_def sample_initiative_def fresh_artifacts_def served_env_def sample_env_def
      sample_flow_def plan_artifact_def TrimSpace_solid solid_def visible_def Let_def)

lemma asking_is_answered: "\<exists>w1 r. advanceInitiative served_env ''n1'' [] (asking_flow goal) = (w1, RInitiative r)"
  by (simp add: advanceInitiative_def asking_facts served_env_def GenerateRequirements_def Let_def split: sum.splits)

lemma generated_phases_can_be_reviewed_witness:
  "\<exists>w1 r w2 m. advanceInitiative served_env ''n1'' [] (asking_flow ''g'') = (w1, RInitiative r) \<and>
    resolveInitiativePhase served_env True ''n1'' ''requirements'' ''op'' [] w1 = (w2, RInitiative (Some m)) \<and> nPhase m = DesignPhase"
proof -
  obtain w1 r where r: "advanceInitiative served_env ''n1'' [] (asking_flow ''g'') = (w1, RInitiative r)"
    using asking_is_answered by blast
  have g: "sanitizedInitiativeGoal ''g'' \<noteq> []" by code_simp
  have p: "phaseText RequirementsPhase = ''requirements''" by (simp add: phaseText_def)
  show ?thesis
    using generated_phases_can_be_reviewed [OF served_facts asking_facts(4) asking_facts(1) _ r, of True "''op''" "[]"] r g asking_facts(2,3) p
    by (auto simp: next_step_def)
qed

text \<open>
  A goal that holds nothing but a benchmark case cannot get past the requirements without a planner: the text
  that the service writes itself has an empty objective, its own validation rejects it, and the operator can
  neither approve nor reject the phase.
\<close>

theorem benchmark_goal_gets_stuck:
  assumes "served_by env g" "plain_json g" "fresh_artifacts env w" "GetInitiative (wS w) i = Some n" "nPhase n = RequirementsPhase"
    and "sanitizedInitiativeGoal (nGoal n) = []" "TrimSpace (gBaseURL g) = []"
  shows "\<exists>w1 r. advanceInitiative env i feedback w = (w1, RInitiative r) \<and>
    (\<forall>approve operator fb. resolveInitiativePhase env approve i ''requirements'' operator fb w1 =
       (w1, RDetail 409 ''requirements payload missing objective''))"
proof -
  have i: "nID n = i" using assms(4) by (rule GetInitiative_id)
  have e: "eReq env = GenerateRequirements g" "eSprint env = gSprint g" using assms(1) by (simp_all add: served_by_def)
  define own where "own = fallbackRequirements n feedback (researchNotes g [])"
  have c: "callStructured g prompt = Inl ''planner base url is not configured''" for prompt
    using assms(7) by (simp add: callStructured_def)
  obtain md where md: "GenerateRequirements g n feedback = Inr (md, own)"
    by (simp add: GenerateRequirements_def Let_def c own_def assms(6))
  define w1 where "w1 = generated_phase env n RequirementsPhase RequirementsReview (md, own) feedback w"
  have a: "advanceInitiative env i feedback w = (w1, RInitiative (GetInitiative (wS w1) i))"
    using assms(4,5) by (simp add: advanceInitiative_def e md w1_def Let_def)
  obtain m where m: "GetInitiative (wS w1) i = Some m" "nPhase m = RequirementsPhase" "nID m = i"
      "activeArtifactJSONIDForPhase m RequirementsPhase = Some (eUid env (wN w + 1))"
    using generated_initiative [of w n RequirementsPhase env RequirementsReview "(md, own)" feedback] assms(3,4) i unfolding w1_def by auto
  have v: "ValidateRequirementsPayload (gSprint g) (json_map own) = Some ''requirements payload missing objective''"
    by (simp add: ValidateRequirementsPayload_def own_def fallbackRequirements_def asString_def assms(6))
  have p: "getActiveInitiativeArtifactJSON (wS w1) (activeArtifactJSONIDForPhase m RequirementsPhase) = Inr (json_map own)"
    unfolding m(4) w1_def by (rule stored_payload [OF assms(3)])
  have t: "IsRecognizedInitiativePhase (TrimSpace ''requirements'') = Some RequirementsPhase"
    using phase_named [of RequirementsPhase] by (simp add: phaseText_def)
  have "resolveInitiativePhase env approve i ''requirements'' operator fb w1 =
       (w1, RDetail 409 ''requirements payload missing objective'')" for approve operator fb
    using m p v by (simp add: resolveInitiativePhase_def t validatePhaseArtifactPayload_def e)
  with a show ?thesis by blast
qed

definition benchmark_goal :: string where
  "benchmark_goal = ''[BENCHMARK_CASE_JSON] {} [/BENCHMARK_CASE_JSON]''"

lemma benchmark_goal_gets_stuck_witness:
  "sanitizedInitiativeGoal benchmark_goal = [] \<and>
   (\<exists>w1 r. advanceInitiative served_env ''n1'' [] (asking_flow benchmark_goal) = (w1, RInitiative r) \<and>
     resolveInitiativePhase served_env False ''n1'' ''requirements'' ''op'' [] w1 = (w1, RDetail 409 ''requirements payload missing objective''))"
proof -
  have g: "sanitizedInitiativeGoal benchmark_goal = []" by code_simp
  have b: "TrimSpace (gBaseURL lone_generator) = []" by (simp add: lone_generator_def)
  have "sanitizedInitiativeGoal (nGoal (asking benchmark_goal)) = []" using g asking_facts(3) by simp
  from benchmark_goal_gets_stuck [OF served_facts asking_facts(4) asking_facts(1,2) this b, of "[]"] g show ?thesis by blast
qed

end
