(* ===== verification/Objective_Scope.thy ===== *)
theory Objective_Scope
  imports Repo_Profile Retrieval
begin

text \<open>
  How the planner of an objective finds its scope (\<^verbatim>\<open>initiative/objectives.go\<close>): the precedents of a planning context,
  the files of the repository that the objective, the readme or a precedent points to, and the side work that the
  wording of the objective asks for: an analysis, a first validation, documentation, configuration, dependencies.
  A disabled piece of side work is \<open>None\<close>. A score of a retrieval hit becomes a value of the metadata by \<open>num\<close>.
\<close>

section \<open>Precedents\<close>

text \<open>The JSON form of the whole package is a field of its own.\<close>

record planning_context =
  pcChunks :: "context_chunk list"
  pcPrecedents :: "retrieval_hit list"
  pcSourceRefs :: "string list"
  pcJson :: any_val

definition objectiveSummarizeContextChunk :: "string \<Rightarrow> string" where
  "objectiveSummarizeContextChunk text0 =
     (let t = TrimSpace text0; rs = runes t
      in if t = [] then [] else if length rs \<le> 180 then t else TrimSpace (concat (take 180 rs)) @ ''...'')"

definition put_opt :: "string \<Rightarrow> any_val option \<Rightarrow> any_map \<Rightarrow> any_map" where
  "put_opt key v m = (case v of None \<Rightarrow> m | Some x \<Rightarrow> m(key \<mapsto> x))"

definition hit_precedent :: "(real \<Rightarrow> any_val) \<Rightarrow> retrieval_hit \<Rightarrow> any_map" where
  "hit_precedent num hit =
     put_opt ''artifact_id'' (map_option AStr (rhArtifactID hit)) (put_opt ''task_id'' (map_option AStr (rhTaskID hit))
       (put_opt ''initiative_id'' (map_option AStr (rhInitiativeID hit)) (put_opt ''score'' (map_option num (rhScore hit))
         [''source_ref'' \<mapsto> AStr (TrimSpace (rhSourceRef hit)), ''source_type'' \<mapsto> AStr (TrimSpace (rhSourceType hit)),
          ''source_id'' \<mapsto> AStr (TrimSpace (rhSourceID hit)), ''summary'' \<mapsto> AStr (objectiveSummarizeContextChunk (rhSummary hit)),
          ''memory_class'' \<mapsto> AStr (TrimSpace (rhMemoryClass hit)), ''selection_reason'' \<mapsto> AStr (TrimSpace (rhSelectionReason hit))])))"

definition objectiveRetrievalPrecedentsFromContext ::
  "(real \<Rightarrow> string) \<Rightarrow> (real \<Rightarrow> any_val) \<Rightarrow> planning_context option \<Rightarrow> any_map list" where
  "objectiveRetrievalPrecedentsFromContext fmt num pkg =
     (case pkg of
        None \<Rightarrow> []
      | Some p \<Rightarrow>
          (let hits = (if pcPrecedents p = [] \<and> pcChunks p \<noteq> []
                       then fst (SelectRetrievalHits fmt (pcChunks p) DefaultPrecedentLimit DefaultPerClassLimit)
                       else pcPrecedents p)
           in map (hit_precedent num) hits))"

section \<open>Kinds of paths\<close>

definition objectiveIsDocumentationPath :: "string \<Rightarrow> bool" where
  "objectiveIsDocumentationPath path0 \<longleftrightarrow>
     (let path = ToLower (TrimSpace path0)
      in path \<noteq> [] \<and> (path = ''readme.md'' \<or> HasPrefix path ''docs/'' \<or> HasSuffix path ''.md''))"

definition objectiveIsInfraPath :: "string \<Rightarrow> bool" where
  "objectiveIsInfraPath path0 \<longleftrightarrow>
     (let path = ToLower (TrimSpace path0); base = path_base path
      in path \<noteq> [] \<and>
         (base = ''dockerfile'' \<or> HasPrefix path ''.github/workflows/'' \<or> Contains path ''docker-compose'' \<or>
          (Contains path ''compose.'' \<and> (HasSuffix path ''.yml'' \<or> HasSuffix path ''.yaml'')) \<or>
          HasSuffix path ''.env'' \<or> Contains path ''.env.'' \<or>
          list_ex (HasPrefix path) [''deploy/'', ''deployment/'', ''infra/'', ''k8s/'', ''helm/'', ''config/''] \<or>
          base = ''docker-compose.yml'' \<or> base = ''docker-compose.yaml'' \<or>
          HasSuffix path ''.yaml'' \<or> HasSuffix path ''.yml'' \<or> HasSuffix path ''.toml''))"

definition manifest_names :: "string list" where
  "manifest_names = [''package.json'', ''go.mod'', ''requirements.txt'', ''pyproject.toml'', ''cargo.toml'', ''gemfile'', ''composer.json'']"

definition lockfile_names :: "string list" where
  "lockfile_names = [''package-lock.json'', ''pnpm-lock.yaml'', ''yarn.lock'', ''go.sum'', ''poetry.lock'', ''cargo.lock'',
     ''gemfile.lock'', ''composer.lock'']"

definition dependencyPathPriority :: "string \<Rightarrow> int" where
  "dependencyPathPriority path =
     (let base = path_base (ToLower (TrimSpace path))
      in if base \<in> set manifest_names then 0 else if base \<in> set lockfile_names then 1 else 2)"

definition objectiveIsDependencyPath :: "string \<Rightarrow> bool" where
  "objectiveIsDependencyPath path0 \<longleftrightarrow>
     (let path = ToLower (TrimSpace path0)
      in path \<noteq> [] \<and>
         path_base path \<in> {''go.mod'', ''go.sum'', ''package.json'', ''package-lock.json'', ''pnpm-lock.yaml'', ''yarn.lock'',
           ''requirements.txt'', ''pyproject.toml'', ''poetry.lock'', ''cargo.toml'', ''cargo.lock'', ''gemfile'', ''gemfile.lock'',
           ''composer.json'', ''composer.lock''})"

definition or_bootstrap :: "bool \<Rightarrow> string \<Rightarrow> string list \<Rightarrow> string list" where
  "or_bootstrap bootstrap name out = uniqueObjectivePaths (if out = [] \<and> bootstrap then [name] else out)"

definition objectiveDocumentationPaths :: "disk \<Rightarrow> string \<Rightarrow> bool \<Rightarrow> string list" where
  "objectiveDocumentationPaths d workspaceRoot bootstrap =
     or_bootstrap bootstrap ''README.md'' (take 3 (filter objectiveIsDocumentationPath (listObjectiveCandidateFiles d workspaceRoot)))"

definition objectiveInfraPaths :: "disk \<Rightarrow> string \<Rightarrow> bool \<Rightarrow> string list" where
  "objectiveInfraPaths d workspaceRoot bootstrap =
     or_bootstrap bootstrap ''Dockerfile'' (take 3 (filter objectiveIsInfraPath (listObjectiveCandidateFiles d workspaceRoot)))"

definition dependency_before :: "string \<Rightarrow> string \<Rightarrow> bool" where
  "dependency_before a b \<longleftrightarrow>
     dependencyPathPriority a < dependencyPathPriority b \<or> (dependencyPathPriority a = dependencyPathPriority b \<and> str_less a b)"

definition objectiveDependencyPaths :: "disk \<Rightarrow> string \<Rightarrow> bool \<Rightarrow> string list" where
  "objectiveDependencyPaths d workspaceRoot bootstrap =
     or_bootstrap bootstrap ''package.json''
       (take 3 (sort_by dependency_before (filter objectiveIsDependencyPath (listObjectiveCandidateFiles d workspaceRoot))))"

section \<open>Scope hypotheses\<close>

record finding =
  fnPath :: string
  fnScore :: int
  fnRationale :: string
  fnEvidence :: string
  fnConfidence :: string
  fnCitations :: "string list"

definition objectivePrimaryCodeCue :: "string \<Rightarrow> string \<Rightarrow> bool" where
  "objectivePrimaryCodeCue goal lowerPath \<longleftrightarrow>
     \<not> (objectiveIsDocumentationPath lowerPath \<or> objectiveIsInfraPath lowerPath \<or> objectiveIsDependencyPath lowerPath) \<and>
     mentions goal [''fix'', ''implement'', ''repair'', ''change'', ''update'']"

definition objectiveReadmeCueWeight :: "string \<Rightarrow> int" where
  "objectiveReadmeCueWeight line =
     2 * int (length (filter (Contains line)
       [''current'', ''primary'', ''implemented'', ''lives in'', ''source of truth'', ''toggle'', ''objective''])) -
     3 * int (length (filter (Contains line)
       [''legacy'', ''deprecated'', ''old'', ''unused'', ''do not'', ''should not'', ''obsolete'']))"

definition direct_mention :: "string \<Rightarrow> string \<Rightarrow> string \<Rightarrow> string \<Rightarrow> finding" where
  "direct_mention goal path lowerPath base =
     (if Contains goal lowerPath \<or> Contains goal base
      then \<lparr>fnPath = path, fnScore = 12 + (if objectivePrimaryCodeCue goal lowerPath then 3 else 0),
            fnRationale = ''objective references the file directly'', fnEvidence = path, fnConfidence = ''high'', fnCitations = []\<rparr>
      else \<lparr>fnPath = path, fnScore = 0, fnRationale = [], fnEvidence = [], fnConfidence = ''low'', fnCitations = []\<rparr>)"

definition readme_mention :: "string \<Rightarrow> string \<Rightarrow> finding \<Rightarrow> string \<Rightarrow> finding" where
  "readme_mention lowerPath base f line0 =
     (let line = TrimSpace line0; hit = (if Contains line lowerPath then 8 else if Contains line base then 6 else 0);
          sc = hit + objectiveReadmeCueWeight line
      in if line = [] \<or> hit = 0 \<or> sc \<le> fnScore f then f
         else f\<lparr>fnScore := sc, fnRationale := ''repository documentation points to this file'', fnEvidence := line,
                fnConfidence := (if 9 \<le> sc then ''high'' else ''medium'')\<rparr>)"

definition expected_mention :: "string list \<Rightarrow> finding \<Rightarrow> finding" where
  "expected_mention expectedPaths f =
     (if fnScore f = 0 \<and> fnPath f \<in> set expectedPaths
      then f\<lparr>fnScore := 3, fnRationale := ''repo profile expected file'', fnEvidence := fnPath f, fnConfidence := ''low''\<rparr> else f)"

definition supports :: "string \<Rightarrow> string \<Rightarrow> any_map \<Rightarrow> bool" where
  "supports lowerPath base item \<longleftrightarrow>
     (let summary = ToLower (trimmed item ''summary'')
      in summary \<noteq> [] \<and> trimmed item ''source_ref'' \<noteq> [] \<and> (Contains summary lowerPath \<or> Contains summary base))"

text \<open>At most two citations; the evidence is the summary of the first one.\<close>

definition objectivePlannerPrecedentSupport :: "any_map list \<Rightarrow> string \<Rightarrow> string \<Rightarrow> (string list \<times> string \<times> string) option" where
  "objectivePlannerPrecedentSupport precedents lowerPath base =
     (case take 2 (filter (supports lowerPath base) precedents) of
        [] \<Rightarrow> None
      | item # items \<Rightarrow>
          Some (uniqueObjectivePaths (map (\<lambda>m. trimmed m ''source_ref'') (item # items)),
                ''retrieved precedent supports this path'', trimmed item ''summary''))"

definition precedent_mention :: "any_map list \<Rightarrow> string \<Rightarrow> string \<Rightarrow> finding \<Rightarrow> finding" where
  "precedent_mention precedents lowerPath base f =
     (case objectivePlannerPrecedentSupport precedents lowerPath base of
        None \<Rightarrow> f
      | Some (citations, reason, evidence) \<Rightarrow>
          f\<lparr>fnScore := fnScore f + 4,
            fnRationale := (if fnRationale f = [] then reason else fnRationale f @ ''; '' @ reason),
            fnEvidence := (if fnEvidence f = [] then evidence else fnEvidence f),
            fnConfidence := (if fnConfidence f = ''low'' then ''medium'' else fnConfidence f), fnCitations := citations\<rparr>)"

definition examine :: "string \<Rightarrow> string list \<Rightarrow> string list \<Rightarrow> any_map list \<Rightarrow> string \<Rightarrow> finding" where
  "examine goal readmeLines expectedPaths precedents path =
     (let lowerPath = ToLower (TrimSpace path); base = ToLower (path_base lowerPath)
      in precedent_mention precedents lowerPath base
           (expected_mention expectedPaths
             (foldl (readme_mention lowerPath base) (direct_mention goal path lowerPath base) readmeLines)))"

definition found_before :: "finding \<Rightarrow> finding \<Rightarrow> bool" where
  "found_before a b \<longleftrightarrow> fnScore b < fnScore a \<or> (fnScore a = fnScore b \<and> str_less (fnPath a) (fnPath b))"

definition rejectedScopeReason :: "string \<Rightarrow> int \<Rightarrow> string \<Rightarrow> int \<Rightarrow> int \<Rightarrow> string" where
  "rejectedScopeReason path sc winnerPath winnerScore rank =
     (if winnerPath = [] then ''ranked '' @ Itoa rank @ '' and excluded from the first-pass scope shortlist''
      else if sc < winnerScore
      then ''ranked below '' @ winnerPath @ '' because its evidence score ('' @ Itoa sc @ '') was weaker than the winner ('' @
           Itoa winnerScore @ '')''
      else if sc = winnerScore \<and> path \<noteq> winnerPath
      then ''rank tie lost to '' @ winnerPath @ ''; the planner kept the earlier top-ranked path as the safer first target''
      else ''ranked '' @ Itoa rank @ '' and excluded from the first-pass scope shortlist'')"

definition hypothesis_at :: "nat \<times> finding \<Rightarrow> string \<Rightarrow> string \<Rightarrow> scope_hypothesis" where
  "hypothesis_at ranked disposition reason =
     (let f = snd ranked
      in \<lparr>hPath = fnPath f, hRationale = fnRationale f, hEvidence = fnEvidence f, hConfidence = fnConfidence f,
          hCitationRefs = fnCitations f, hRank = int (fst ranked) + 1, hScore = fnScore f, hDisposition = disposition,
          hRejectedBecause = reason\<rparr>)"

definition scope_findings :: "disk \<Rightarrow> string \<Rightarrow> string \<Rightarrow> string list \<Rightarrow> any_map list \<Rightarrow> finding list" where
  "scope_findings d workspaceRoot objective expectedPaths precedents =
     (let goal = ToLower (TrimSpace objective);
          readmeLines = split_on CHR 0x0A (ToLower (readObjectiveReadme d workspaceRoot));
          paths = filter (\<lambda>p. ToLower (TrimSpace p) \<noteq> []) (uniqueObjectivePaths (listObjectiveCandidateFiles d workspaceRoot @ expectedPaths))
      in sort_by found_before (filter (\<lambda>f. fnScore f \<noteq> 0) (map (examine goal readmeLines expectedPaths precedents) paths)))"

definition buildInitialScopeHypotheses ::
  "disk \<Rightarrow> string \<Rightarrow> string \<Rightarrow> string list \<Rightarrow> any_map list \<Rightarrow> scope_hypothesis list \<times> scope_hypothesis list" where
  "buildInitialScopeHypotheses d workspaceRoot objective expectedPaths precedents =
     (let found = scope_findings d workspaceRoot objective expectedPaths precedents; ranked = enumerate 0 found
      in (map (\<lambda>e. hypothesis_at e ''selected'' []) (take 2 ranked),
          map (\<lambda>e. hypothesis_at e ''rejected''
                (rejectedScopeReason (fnPath (snd e)) (fnScore (snd e)) (fnPath (hd found)) (fnScore (hd found)) (int (fst e) + 1)))
              (drop 2 ranked)))"

definition scopeHypothesisPaths :: "scope_hypothesis list \<Rightarrow> string list" where
  "scopeHypothesisPaths hypotheses = uniqueObjectivePaths (nonblank (map (\<lambda>h. TrimSpace (hPath h)) hypotheses))"

section \<open>The first analysis\<close>

definition analysis_types :: "string \<Rightarrow> string list" where
  "analysis_types text0 =
     (let lower = ToLower (TrimSpace text0)
      in if lower = [] then []
         else reason_when (mentions lower [''security'', ''secret'', ''hardcoded'', ''credential'']) ''security'' @
              reason_when (mentions lower [''dependency'', ''lockfile'', ''go.sum'', ''package.json'']) ''dependencies'' @
              reason_when (mentions lower [''lint'', ''whitespace'', ''format'']) ''lint'' @
              reason_when (mentions lower [''complexity'', ''large source file'', ''refactor'', ''architecture'', ''legacy'', ''structural''])
                ''complexity'')"

definition objectiveScopeHasStrongEvidence :: "scope_hypothesis \<Rightarrow> bool" where
  "objectiveScopeHasStrongEvidence h \<longleftrightarrow> 6 \<le> hScore h \<or> ToLower (TrimSpace (hConfidence h)) \<in> {''medium'', ''high''}"

definition objectiveScopeIsAmbiguous :: "scope_hypothesis list \<Rightarrow> bool" where
  "objectiveScopeIsAmbiguous hs =
     (case hs of
        a # b # _ \<Rightarrow>
          TrimSpace (hPath a) \<noteq> [] \<and> TrimSpace (hPath b) \<noteq> [] \<and> \<bar>hScore a - hScore b\<bar> \<le> 2 \<and>
          objectiveScopeHasStrongEvidence a \<and> objectiveScopeHasStrongEvidence b
      | _ \<Rightarrow> False)"

definition objectiveAmbiguousScopeReason :: "scope_hypothesis list \<Rightarrow> string" where
  "objectiveAmbiguousScopeReason hs =
     (case hs of
        a # b # _ \<Rightarrow>
          ''the planner shortlist remains ambiguous between '' @ TrimSpace (hPath a) @ '' and '' @ TrimSpace (hPath b)
      | _ \<Rightarrow> ''the planner shortlist remains ambiguous'')"

definition precedent_text :: "any_map \<Rightarrow> string" where
  "precedent_text item = (if trimmed item ''summary'' = [] then trimmed item ''source_ref'' else trimmed item ''summary'')"

text \<open>\<^verbatim>\<open>addType\<close> keeps the first occurrence of a type.\<close>

definition detectInitialObjectiveAnalysis ::
  "string \<Rightarrow> scope_hypothesis list \<Rightarrow> any_map list \<Rightarrow> (string list \<times> string) option" where
  "detectInitialObjectiveAnalysis objective hs precedents =
     (let own = analysis_types (ToLower (TrimSpace objective)); others = map (\<lambda>m. analysis_types (precedent_text m)) precedents;
          ambiguous = objectiveScopeIsAmbiguous hs; matched = own \<noteq> []; precedentMatched = list_ex (\<lambda>ts. ts \<noteq> []) others;
          types = unique_strings [] (own @ concat others @ reason_when ambiguous ''complexity'');
          reasons = reason_when matched ''the objective already signals structural analysis work'' @
            reason_when precedentMatched ''retrieved precedents point to the same class of structural issue'' @
            reason_when ambiguous (objectiveAmbiguousScopeReason hs)
      in if \<not> matched \<and> \<not> precedentMatched \<and> \<not> ambiguous then None
         else Some (types, ''Run targeted static analysis before the first edit because '' @ join_with '' and '' reasons @ ''.''))"

definition detectInitialBaselineValidation :: "string \<Rightarrow> any_map list \<Rightarrow> bool \<Rightarrow> string option" where
  "detectInitialBaselineValidation objective precedents bootstrap =
     (let goal = ToLower (TrimSpace objective);
          explicit = mentions goal [''fix'', ''failing'', ''regression'', ''broken'', ''repair''] \<and> mentions goal [''test'', ''validation''];
          precedentMatched = list_ex (\<lambda>m. mentions (ToLower (trimmed m ''summary''))
             [''validation failed'', ''failing test'', ''regression'', ''repair loop'']) precedents;
          reasons = reason_when explicit ''the objective reads like a bugfix/regression and names validation directly'' @
            reason_when precedentMatched ''retrieved precedents suggest reproducing the failure before editing''
      in if bootstrap \<or> (\<not> explicit \<and> \<not> precedentMatched) then None
         else Some (''Reproduce the current validation state before the first edit because '' @ join_with '' and '' reasons @ ''.''))"

section \<open>Side work\<close>

text \<open>The three detectors share their shape: wording, a scope that is not covered by the kind of path, paths to work on.\<close>

definition detect_workstream ::
  "string list \<Rightarrow> (string \<Rightarrow> bool) \<Rightarrow> string list \<Rightarrow> string \<Rightarrow> string \<Rightarrow> string list \<Rightarrow> (string list \<times> string) option" where
  "detect_workstream wording covered paths description objective suspectedPaths =
     (let goal = ToLower (TrimSpace objective)
      in if goal = [] \<or> \<not> mentions goal wording \<or> \<not> list_ex (\<lambda>p. \<not> covered p) suspectedPaths \<or> paths = [] then None
         else Some (paths, description))"

definition detectObjectiveDocumentationWorkstream :: "disk \<Rightarrow> string \<Rightarrow> string \<Rightarrow> string list \<Rightarrow> bool \<Rightarrow> (string list \<times> string) option" where
  "detectObjectiveDocumentationWorkstream d workspaceRoot objective suspectedPaths bootstrap =
     detect_workstream [''readme'', ''documentation'', ''docs'', ''document''] objectiveIsDocumentationPath
       (objectiveDocumentationPaths d workspaceRoot bootstrap)
       ''Synchronize the repository documentation and operator-facing notes with the implemented objective change.''
       objective suspectedPaths"

definition detectObjectiveInfraWorkstream :: "disk \<Rightarrow> string \<Rightarrow> string \<Rightarrow> string list \<Rightarrow> bool \<Rightarrow> (string list \<times> string) option" where
  "detectObjectiveInfraWorkstream d workspaceRoot objective suspectedPaths bootstrap =
     detect_workstream [''docker'', ''compose'', ''kubernetes'', ''helm'', ''deploy'', ''deployment'', ''config'', ''configuration'',
         ''workflow'', ''ci'', ''infra'', ''environment'', ''.env''] objectiveIsInfraPath
       (objectiveInfraPaths d workspaceRoot bootstrap)
       ''Synchronize configuration, deployment, or environment files with the implemented objective change.''
       objective suspectedPaths"

definition detectObjectiveDependencyWorkstream :: "disk \<Rightarrow> string \<Rightarrow> string \<Rightarrow> string list \<Rightarrow> bool \<Rightarrow> (string list \<times> string) option" where
  "detectObjectiveDependencyWorkstream d workspaceRoot objective suspectedPaths bootstrap =
     detect_workstream [''dependency'', ''dependencies'', ''lockfile'', ''package.json'', ''package-lock'', ''yarn.lock'', ''pnpm-lock'',
         ''go.mod'', ''go.sum'', ''requirements'', ''pyproject'', ''poetry.lock'', ''cargo'', ''gemfile'', ''composer'', ''upgrade'',
         ''bump'', ''vulnerab''] objectiveIsDependencyPath
       (objectiveDependencyPaths d workspaceRoot bootstrap)
       ''Synchronize dependency manifests, lockfiles, or package metadata with the implemented objective change.''
       objective suspectedPaths"

end
