(* ===== verification/Objective_Contract.thy ===== *)
theory Objective_Contract
  imports Objective_Scope Initiative_Service
begin

text \<open>
  The execution contract of an objective (\<^verbatim>\<open>initiative/objectives.go\<close>, \<^verbatim>\<open>GenerateObjectiveExecutionContract\<close>): what
  the planner finds out about the workspace, and the work items it lays out. The identifiers that the contract
  draws are the parameter \<open>jeUuid\<close>, one for each place in the code that draws one. Slices of structures inside the metadata
  stand in their JSON form, since nothing reads them before they are stored.
\<close>

section \<open>What the contract rests on\<close>

record objective_env =
  jeService :: generator
  jeScore :: "real \<Rightarrow> string"
  jeNumber :: "real \<Rightarrow> any_val"
  jeUuid :: "nat \<Rightarrow> string"

record objective_input =
  inTitle :: string
  inObjective :: string
  inWorkspaceRoot :: string
  inCreatedBy :: string
  inTimeBudgetSeconds :: int
  inPlanningContext :: "planning_context option"
  inRetrievalArtifactID :: string

record objective_brief =
  bfTitle :: string
  bfObjective :: string
  bfRoot :: string
  bfBootstrap :: bool
  bfProfile :: repo_profile
  bfCommands :: "string list"
  bfPrecedents :: "any_map list"
  bfScope :: "scope_hypothesis list"
  bfRejected :: "scope_hypothesis list"
  bfPaths :: "string list"
  bfContext :: "planning_context option"
  bfArtifactID :: string
  bfTasks :: "nat \<Rightarrow> string"
  bfDisk :: disk

definition default_validation :: "string list" where
  "default_validation = [''git'', ''diff'', ''--no-ext-diff'']"

definition objective_brief_of :: "objective_env \<Rightarrow> objective_input \<Rightarrow> objective_brief result" where
  "objective_brief_of env inp =
     (let workspaceRoot = TrimSpace (inWorkspaceRoot inp); objective = TrimSpace (inObjective inp);
          title = firstTrimmed [TrimSpace (inTitle inp), objective]; g = jeService env; d = gDisk g
      in if title = [] \<or> objective = [] \<or> workspaceRoot = [] then Inl ''title, objective and workspace_root are required''
         else
           (let bootstrap = detectObjectiveBootstrapProfile d workspaceRoot title objective;
                profile = (case bootstrap of Some p \<Rightarrow> p
                           | None \<Rightarrow> detectRepoWorkflowProfile (gParse g) (gSprint g) d workspaceRoot objective);
                precedents = objectiveRetrievalPrecedentsFromContext (jeScore env) (jeNumber env) (inPlanningContext inp);
                scope = buildInitialScopeHypotheses d workspaceRoot objective (wfExpected profile) precedents;
                paths = scopeHypothesisPaths (fst scope)
            in Inr \<lparr>bfTitle = title, bfObjective = objective, bfRoot = workspaceRoot, bfBootstrap = (bootstrap \<noteq> None),
                 bfProfile = profile, bfCommands = (if wfTestCommand profile = [] then default_validation else wfTestCommand profile),
                 bfPrecedents = precedents, bfScope = fst scope, bfRejected = snd scope,
                 bfPaths = (if paths = [] then wfExpected profile else paths), bfContext = inPlanningContext inp,
                 bfArtifactID = TrimSpace (inRetrievalArtifactID inp), bfTasks = jeUuid env, bfDisk = d\<rparr>))"

definition contract_root :: "objective_brief \<Rightarrow> string" where
  "contract_root b = firstTrimmed [TrimSpace (wfProjectRoot (bfProfile b)), ''.'']"

definition contract_project :: "objective_brief \<Rightarrow> string" where
  "contract_project b = firstTrimmed [wfRepoName (bfProfile b), path_base (bfRoot b), ''repo'']"

definition contract_request :: "objective_brief \<Rightarrow> any_map" where
  "contract_request b =
     (let p = bfProfile b
      in [''project_name'' \<mapsto> AStr (contract_project b), ''project_root'' \<mapsto> AStr (contract_root b),
          ''project_type'' \<mapsto> AStr (firstTrimmed [wfProjectType p, ''existing_repo'']),
          ''runtime_or_stack'' \<mapsto> AStr (firstTrimmed [wfStack p, ''python'']),
          ''repository_url'' \<mapsto> AStr (TrimSpace (wfRepositoryURL p)), ''default_branch'' \<mapsto> AStr (TrimSpace (wfDefaultBranch p)),
          ''repo_profile'' \<mapsto> AStr (firstTrimmed [wfProjectFlow p, ''existing_repo_generic'']), ''goal'' \<mapsto> AStr (bfObjective b),
          ''test_focus'' \<mapsto> AStr (firstTrimmed [wfTestFocus p, ''objective execution'']), ''test_command'' \<mapsto> AStrs (bfCommands b),
          ''expected_files'' \<mapsto> AStrs (bfPaths b), ''language'' \<mapsto> AStr (TrimSpace (wfLanguage p)),
          ''framework'' \<mapsto> AStr (TrimSpace (wfFramework p)), ''problem_domain'' \<mapsto> AStr (TrimSpace (wfProblemDomain p)),
          ''error_class'' \<mapsto> AStr (TrimSpace (wfErrorClass p)), ''fix_pattern'' \<mapsto> AStr (TrimSpace (wfFixPattern p)),
          ''validation_pattern'' \<mapsto> AStr (TrimSpace (wfValidationPattern p)), ''bootstrap_workspace'' \<mapsto> ABool (bfBootstrap b)])"

definition contract_metadata :: "objective_brief \<Rightarrow> any_map" where
  "contract_metadata b =
     (let m = [''workspace_root'' \<mapsto> AStr (bfRoot b), ''initial_scope_hypotheses'' \<mapsto> AArr (map scope_json (bfScope b)),
          ''rejected_scope_hypotheses'' \<mapsto> AArr (map scope_json (bfRejected b)),
          ''planning_retrieval_precedents'' \<mapsto> maps_val (bfPrecedents b),
          ''planning_retrieval_packet_artifact_id'' \<mapsto> AStr (bfArtifactID b), ''project_request'' \<mapsto> AMap (contract_request b)]
      in case bfContext b of
           None \<Rightarrow> m
         | Some c \<Rightarrow>
             if pcChunks c = [] then m
             else m(''context_package'' \<mapsto> pcJson c, ''objective_retrieval_precedents'' \<mapsto> maps_val (bfPrecedents b),
                    ''planning_context_source_refs'' \<mapsto> AStrs (pcSourceRefs c)))"

section \<open>Work items\<close>

definition contract_research :: "objective_brief \<Rightarrow> work_item" where
  "contract_research b =
     (local_item ''research'' WorkItemKindResearch AgentTypeResearcher (contract_metadata b))
       \<lparr>iTitle := ''Research objective context'',
        iDescription := ''Capture repository context, validation constraints, and likely files before editing.'',
        iDefinitionOfDone := ''Research context and evidence artifacts are persisted for the objective.'',
        iSuspectedPaths := bfPaths b,
        iToolRequest := Some [''tool'' \<mapsto> AStr ''research_project'', ''project_request'' \<mapsto> AMap (contract_request b)]\<rparr>"

definition contract_baseline :: "objective_brief \<Rightarrow> string \<Rightarrow> work_item" where
  "contract_baseline b reason =
     (local_item ''validate-baseline'' WorkItemKindValidate AgentTypeReviewer
        ((contract_metadata b)(''objective_next_action_after_success'' \<mapsto> AStr ''edit'', ''objective_baseline_validation'' \<mapsto> ABool True,
           ''objective_baseline_reason'' \<mapsto> AStr reason)))
       \<lparr>iTitle := ''Reproduce baseline validation before editing'', iDescription := reason, iDependsOn := [''research''],
        iDefinitionOfDone := ''Baseline validation evidence is captured before the first edit.'',
        iValidationCommands := bfCommands b, iSuspectedPaths := bfPaths b,
        iToolRequest := Some [''tool'' \<mapsto> AStr ''run_tests'', ''argv'' \<mapsto> AStrs (bfCommands b)]\<rparr>"

definition contract_bootstrap :: "objective_brief \<Rightarrow> work_item" where
  "contract_bootstrap b =
     (let p = bfProfile b
      in (local_item ''bootstrap'' WorkItemKindEdit AgentTypeCoder ((contract_metadata b)(''bootstrap_workspace'' \<mapsto> ABool True)))
       \<lparr>iTitle := ''Bootstrap runnable workspace scaffold'',
        iDescription := ''Create the minimal runnable scaffold before objective-specific edits.'', iDependsOn := [''research''],
        iDefinitionOfDone := ''Workspace contains an in-place scaffold with deterministic validation targets.'',
        iValidationCommands := bfCommands b, iSuspectedPaths := bfPaths b,
        iToolRequest := Some [''tool'' \<mapsto> AStr ''scaffold_project'', ''project_root'' \<mapsto> AStr ''.'', ''project_name'' \<mapsto> AStr (wfRepoName p),
          ''project_type'' \<mapsto> AStr (wfProjectType p), ''runtime_or_stack'' \<mapsto> AStr (wfStack p), ''goal'' \<mapsto> AStr (bfObjective b),
          ''test_focus'' \<mapsto> AStr (firstTrimmed [wfTestFocus p, ''objective bootstrap'']), ''initialize_git'' \<mapsto> ABool True,
          ''commit_initial_scaffold'' \<mapsto> ABool True, ''test_command'' \<mapsto> AStrs (bfCommands b), ''expected_files'' \<mapsto> AStrs (bfPaths b)]\<rparr>)"

definition contract_analyze :: "objective_brief \<Rightarrow> string list \<Rightarrow> string list \<times> string \<Rightarrow> work_item" where
  "contract_analyze b dependsOn analysis =
     (local_item ''analyze'' WorkItemKindAnalyze AgentTypeReviewer
        ((contract_metadata b)(''objective_analysis_reason'' \<mapsto> AStr (snd analysis), ''objective_analysis_types'' \<mapsto> AStrs (fst analysis))))
       \<lparr>iTitle := ''Analyze structural risks before editing'', iDescription := snd analysis, iDependsOn := dependsOn,
        iDefinitionOfDone := ''Static analysis findings are persisted before the first edit.'', iSuspectedPaths := bfPaths b,
        iToolRequest := Some [''tool'' \<mapsto> AStr ''code_analysis'', ''project_root'' \<mapsto> AStr (contract_root b),
          ''analysis_types'' \<mapsto> AStrs (fst analysis)]\<rparr>"

definition contract_edit :: "objective_brief \<Rightarrow> string list \<Rightarrow> work_item" where
  "contract_edit b dependsOn =
     (local_item ''edit'' WorkItemKindEdit AgentTypeCoder (contract_metadata b))
       \<lparr>iTitle := ''Apply objective changes with aider'', iDescription := bfObjective b, iBackend := ''aider-task'',
        iDependsOn := dependsOn, iApprovalRequired := True,
        iDefinitionOfDone := ''Aider applies changes and leaves a git diff for validation.'',
        iValidationCommands := bfCommands b, iSuspectedPaths := bfPaths b,
        iToolRequest := Some [''tool'' \<mapsto> AStr ''run_command'',
          ''argv'' \<mapsto> aider_argv (bfTasks b 0) (contract_project b) (bfObjective b)]\<rparr>"

text \<open>The side work, in the order in which the code appends it.\<close>

record side_work =
  swID :: string
  swName :: string
  swTitle :: string
  swDone :: string
  swTask :: string
  swPaths :: "string list"
  swDescription :: string

definition side_works :: "objective_brief \<Rightarrow> side_work list" where
  "side_works b =
     (let mk = (\<lambda>wid name title criterion k. map_option (\<lambda>w. \<lparr>swID = wid, swName = name, swTitle = title, swDone = criterion,
            swTask = bfTasks b k, swPaths = fst w, swDescription = snd w\<rparr>));
          detect = (\<lambda>f. f (bfDisk b) (bfRoot b) (bfObjective b) (bfPaths b) (bfBootstrap b))
      in List.map_filter id
          [mk ''edit-docs'' ''documentation_sync'' ''Synchronize documentation with the code change''
              ''Documentation and operator-facing notes reflect the implemented change without widening scope.'' 1
              (detect detectObjectiveDocumentationWorkstream),
           mk ''edit-config'' ''config_sync'' ''Synchronize configuration and infra with the code change''
              ''Configuration and infra-facing files reflect the implemented change without diverging from the code path.'' 2
              (detect detectObjectiveInfraWorkstream),
           mk ''edit-deps'' ''dependency_sync'' ''Synchronize dependency manifests and lockfiles with the code change''
              ''Dependency manifests and lockfiles reflect the implemented change without drifting from the main code path.'' 3
              (detect detectObjectiveDependencyWorkstream)])"

definition contract_side :: "objective_brief \<Rightarrow> string list \<Rightarrow> side_work \<Rightarrow> work_item" where
  "contract_side b dependsOn w =
     (local_item (swID w) WorkItemKindEdit AgentTypeCoder
        ((contract_metadata b)(''objective_workstream'' \<mapsto> AStr (swName w), ''suspected_paths'' \<mapsto> AStrs (swPaths w),
           ''project_request'' \<mapsto> AMap ((contract_request b)(''expected_files'' \<mapsto> AStrs (swPaths w), ''goal'' \<mapsto> AStr (swDescription w))))))
       \<lparr>iTitle := swTitle w, iDescription := swDescription w, iBackend := ''aider-task'', iDependsOn := dependsOn,
        iApprovalRequired := True, iDefinitionOfDone := swDone w, iValidationCommands := bfCommands b, iSuspectedPaths := swPaths w,
        iToolRequest := Some [''tool'' \<mapsto> AStr ''run_command'',
          ''argv'' \<mapsto> aider_argv (swTask w) (contract_project b) (swDescription w)]\<rparr>"

fun side_items :: "objective_brief \<Rightarrow> string list \<Rightarrow> string \<Rightarrow> string list \<Rightarrow> side_work list \<Rightarrow> work_item list \<times> string \<times> string list" where
  "side_items b editDependsOn finalEditID paths [] = ([], finalEditID, paths)"
| "side_items b editDependsOn finalEditID paths (w # ws) =
     (case side_items b editDependsOn (swID w) (uniqueObjectivePaths (paths @ swPaths w)) ws of
        (items, rest) \<Rightarrow> (contract_side b (editDependsOn @ [finalEditID]) w # items, rest))"

definition contract_validate :: "objective_brief \<Rightarrow> string \<Rightarrow> string list \<Rightarrow> work_item" where
  "contract_validate b finalEditID paths =
     (local_item ''validate'' WorkItemKindValidate AgentTypeReviewer (contract_metadata b))
       \<lparr>iTitle := ''Run validation commands'',
        iDescription := ''Execute the contract validation commands against the edited repository.'', iDependsOn := [finalEditID],
        iDefinitionOfDone := ''Validation command output and exit status are persisted.'',
        iValidationCommands := bfCommands b, iSuspectedPaths := paths,
        iToolRequest := Some [''tool'' \<mapsto> AStr ''run_tests'', ''argv'' \<mapsto> AStrs (bfCommands b)]\<rparr>"

definition contract_review :: "objective_brief \<Rightarrow> string list \<Rightarrow> work_item" where
  "contract_review b paths =
     (local_item ''review'' WorkItemKindReview AgentTypeReviewer (contract_metadata b))
       \<lparr>iTitle := ''Review diff and validation evidence'',
        iDescription := ''Review the git diff, changed files, and validation results against the execution contract.'',
        iDependsOn := [''validate''],
        iDefinitionOfDone := ''Review decision is persisted as approved, changes_requested, or rejected.'',
        iValidationCommands := bfCommands b, iSuspectedPaths := paths,
        iToolRequest := Some [''tool'' \<mapsto> AStr ''review_workspace'', ''project_root'' \<mapsto> AStr (contract_root b),
          ''test_command'' \<mapsto> AStrs (bfCommands b),
          ''execution_contract'' \<mapsto> AMap [''title'' \<mapsto> AStr (bfTitle b), ''normalized_objective'' \<mapsto> AStr (bfObjective b),
             ''workspace_root'' \<mapsto> AStr (bfRoot b)]]\<rparr>"

definition first_steps :: "objective_brief \<Rightarrow> work_item list" where
  "first_steps b =
     (let baseline = detectInitialBaselineValidation (bfObjective b) (bfPrecedents b) (bfBootstrap b);
          early = [contract_research b] @ (case baseline of None \<Rightarrow> [] | Some r \<Rightarrow> [contract_baseline b r]) @
            (if bfBootstrap b then [contract_bootstrap b] else [])
      in case detectInitialObjectiveAnalysis (bfObjective b) (bfScope b) (bfPrecedents b) of
           None \<Rightarrow> early
         | Some a \<Rightarrow> early @ [contract_analyze b (map iID early) a])"

definition contract_items :: "objective_brief \<Rightarrow> work_item list" where
  "contract_items b =
     (let early = first_steps b; editDependsOn = map iID early
      in case side_items b editDependsOn ''edit'' (bfPaths b) (side_works b) of
           (sides, finalEditID, paths) \<Rightarrow>
             early @ contract_edit b editDependsOn # sides @ [contract_validate b finalEditID paths, contract_review b paths])"

section \<open>The contract\<close>

definition objectiveExecutionBackend :: "bool \<Rightarrow> string" where
  "objectiveExecutionBackend needsBootstrap = (if needsBootstrap then ''local_bridge+aider-task'' else ''aider-task'')"

definition objectiveChangeStrategy :: "bool \<Rightarrow> string" where
  "objectiveChangeStrategy needsBootstrap =
     (if needsBootstrap
      then ''Research the empty workspace, scaffold a minimal runnable project in place, edit through aider-task, run validation commands, then review diff and evidence.''
      else ''Research the repository, edit through aider-task, run validation commands, then review diff and evidence.'')"

definition contract_from :: "objective_brief \<Rightarrow> int \<Rightarrow> execution_contract" where
  "contract_from b timeBudgetSeconds =
     \<lparr>ecTitle = bfTitle b, ecNormalizedObjective = bfObjective b, ecWorkspaceRoot = bfRoot b,
      ecExecutionBackend = objectiveExecutionBackend (bfBootstrap b), ecChangeStrategy = objectiveChangeStrategy (bfBootstrap b),
      ecValidationCommands = bfCommands b,
      ecCompletionCriteria = [''Repository diff exists for the requested objective.'', ''Validation commands complete successfully.'',
        ''Review decision is approved.''],
      ecTimeBudgetSeconds = timeBudgetSeconds, ecRiskLevel = ''medium'', ecApprovalRequired = True, ecSuspectedPaths = bfPaths b,
      ecInitialScope = bfScope b, ecRejectedScope = bfRejected b, ecRepositoryURL = TrimSpace (wfRepositoryURL (bfProfile b)),
      ecRepoProfile = firstTrimmed [wfProjectFlow (bfProfile b), ''existing_repo_generic''], ecWorkItems = contract_items b\<rparr>"

definition GenerateObjectiveExecutionContract :: "objective_env \<Rightarrow> objective_input \<Rightarrow> execution_contract result" where
  "GenerateObjectiveExecutionContract env inp =
     (case objective_brief_of env inp of Inl e \<Rightarrow> Inl e | Inr b \<Rightarrow> Inr (contract_from b (inTimeBudgetSeconds inp)))"

end
