(* ===== verification/Objective_Loop.thy ===== *)
theory Objective_Loop
  imports Objective_Plan
begin

text \<open>
  The stateful part of the objective loop (\<^verbatim>\<open>httpapi/objectives.go\<close>): work items become tasks, tasks
  are queued when their dependencies have completed, a task that finds the time budget exhausted
  is failed, and a failed validation or review supersedes the rest of its iteration and starts the
  next one. The state is the \<open>flow\<close> of \<open>Initiative_Flow\<close>; an operation that fails keeps what it
  wrote before. Metadata goes through JSON when it is stored, so the maps that are handed to
  \<open>CreateTask\<close> are put in JSON form. Reindexing a task for retrieval is left out.
\<close>

section \<open>Environment\<close>

text \<open>
  \<open>oParse\<close> is \<^verbatim>\<open>time.Parse(time.RFC3339Nano, s)\<close>, \<open>oFmt\<close> formats a time, \<open>oJson\<close> decodes a JSON
  object.
\<close>

record obj_env =
  oF :: flow_env
  oParse :: "string \<Rightarrow> instant option"
  oFmt :: "instant \<Rightarrow> string"
  oJson :: "string \<Rightarrow> any_map option"

definition nil_deref :: string where
  "nil_deref = ''runtime error: invalid memory address or nil pointer dereference''"

section \<open>Work items become tasks\<close>

definition priorityForWorkItem :: "work_item \<Rightarrow> string" where
  "priorityForWorkItem i = (if iKind i = WorkItemKindEdit then PriorityHigh else PriorityNormal)"

definition item_fields :: "execution_contract \<Rightarrow> work_item \<Rightarrow> any_map" where
  "item_fields c i =
     [''workspace_root'' \<mapsto> AStr (ecWorkspaceRoot c), ''initiative_goal'' \<mapsto> AStr (ecNormalizedObjective c),
      ''objective_title'' \<mapsto> AStr (ecTitle c), ''execution_backend'' \<mapsto> AStr (ecExecutionBackend c),
      ''execution_contract'' \<mapsto> contract_json c, ''work_item_id'' \<mapsto> AStr (iID i),
      ''work_item_kind'' \<mapsto> AStr (iKind i), ''depends_on'' \<mapsto> AStrs (iDependsOn i),
      ''definition_of_done'' \<mapsto> AStr (iDefinitionOfDone i),
      ''validation_commands'' \<mapsto> AStrs (iValidationCommands i), ''suspected_paths'' \<mapsto> AStrs (iSuspectedPaths i),
      ''requires_approval'' \<mapsto> ABool (iApprovalRequired i), ''objective_entrypoint'' \<mapsto> ABool True]"

definition budget_fields :: "execution_contract \<Rightarrow> instant \<Rightarrow> any_map" where
  "budget_fields c startedAt =
     (let m = [''objective_time_budget_seconds'' \<mapsto> AInt (ecTimeBudgetSeconds c),
               ''objective_started_at'' \<mapsto> ATime startedAt]
      in if 0 < ecTimeBudgetSeconds c
         then m(''objective_deadline_at'' \<mapsto> ATime (startedAt + wrap64 (ecTimeBudgetSeconds c * second)))
         else m)"

definition item_metadata :: "execution_contract \<Rightarrow> instant \<Rightarrow> work_item \<Rightarrow> any_map" where
  "item_metadata c startedAt i =
     (let m = budget_fields c startedAt ++ iMetadata i ++ item_fields c i
      in case iToolRequest i of None \<Rightarrow> m | Some tr \<Rightarrow> m(''tool_request'' \<mapsto> AMap tr))"

definition item_params :: "initiative \<Rightarrow> execution_contract \<Rightarrow> instant \<Rightarrow> work_item \<Rightarrow> create_params" where
  "item_params n c startedAt i =
     \<lparr>pDescription = iDescription i, pMetadata = Some (json_map (item_metadata c startedAt i)),
      pAllowedCapabilities = [], pPriority = priorityForWorkItem i, pAssignedAgent = iAssignedAgent i,
      pPlannedAgent = Some (iAssignedAgent i), pExecutionTarget = iExecutionTarget i, pIdempotencyKey = None,
      pEntrypoint = ''objectives'', pWorkspacePath = None, pParentTaskID = None, pRootTaskID = None,
      pInitiativeID = Some (nID n), pTaskKind = ''plan_step'', pQueueOnCreate = False\<rparr>"

definition materialize_item ::
  "flow_env \<Rightarrow> initiative \<Rightarrow> execution_contract \<Rightarrow> instant \<Rightarrow> int \<Rightarrow> work_item \<Rightarrow> flow \<Rightarrow> flow \<times> task option result" where
  "materialize_item env n c startedAt idx i w =
     (let k = wN w; s = wS w
      in case CreateTask (eUid env k) (eUid env (k + 1)) (eUid env (k + 2)) (eClk env k) (item_params n c startedAt i)
              (iDB s) of
           Inl e \<Rightarrow> (w\<lparr>wN := k + 3\<rparr>, Inl e)
         | Inr (d, task) \<Rightarrow>
             (case LinkInitiativeTask (eUid env (k + 3)) (eClk env (k + 3)) (nID n) (eUid env k) ''objective''
                     (cleanStringPtr (iKind i)) (cleanStringPtr (iKind i)) (iExecutionMode i) ((idx + 1) * 10)
                     (s\<lparr>iDB := d\<rparr>) of
                (s', _) \<Rightarrow> (w\<lparr>wS := s', wN := k + 4\<rparr>, Inr task)))"

fun materialize_items ::
  "flow_env \<Rightarrow> initiative \<Rightarrow> execution_contract \<Rightarrow> instant \<Rightarrow> int \<Rightarrow> work_item list \<Rightarrow> flow \<Rightarrow> flow \<times> task list result" where
  "materialize_items env n c startedAt idx [] w = (w, Inr [])"
| "materialize_items env n c startedAt idx (i # is) w =
     (case materialize_item env n c startedAt idx i w of
        (w1, Inl e) \<Rightarrow> (w1, Inl e)
      | (w1, Inr task) \<Rightarrow>
          (case materialize_items env n c startedAt (idx + 1) is w1 of
             (w2, Inl e) \<Rightarrow> (w2, Inl e)
           | (w2, Inr tasks) \<Rightarrow> (w2, Inr ((case task of None \<Rightarrow> [] | Some t \<Rightarrow> [t]) @ tasks))))"

definition materializeObjectiveWorkItems ::
  "flow_env \<Rightarrow> initiative \<Rightarrow> execution_contract \<Rightarrow> flow \<Rightarrow> flow \<times> task list result" where
  "materializeObjectiveWorkItems env n c w =
     (let startedAt = (if nCreatedAt n = 0 then eClk env (wN w) else nCreatedAt n)
      in materialize_items env n c startedAt 0 (ecWorkItems c) (w\<lparr>wN := wN w + 1\<rparr>))"

section \<open>What an edit learns from its dependencies\<close>

type_synonym patch = "(string \<times> any_val) list"

definition put :: "string \<Rightarrow> any_val \<Rightarrow> patch \<Rightarrow> patch" where
  "put k v p = (k, v) # filter (\<lambda>e. fst e \<noteq> k) p"

definition put_str :: "string \<Rightarrow> string \<Rightarrow> patch \<Rightarrow> patch" where
  "put_str k v p = (if v = [] then p else put k (AStr v) p)"

definition put_strs :: "string \<Rightarrow> string list \<Rightarrow> patch \<Rightarrow> patch" where
  "put_strs k vs p = (if vs = [] then p else put k (AStrs vs) p)"

definition put_maps :: "string \<Rightarrow> any_map list \<Rightarrow> patch \<Rightarrow> patch" where
  "put_maps k vs p = (if vs = [] then p else put k (maps_val vs) p)"

definition decode_payload :: "(string \<Rightarrow> any_map option) \<Rightarrow> any_val option \<Rightarrow> any_map" where
  "decode_payload json results =
     (let stdout = trimmed (asMap results) ''stdout''
      in if stdout = [] then Map.empty else case json stdout of None \<Rightarrow> Map.empty | Some m \<Rightarrow> m)"

definition objectiveSanitizeScopePaths :: "string list \<Rightarrow> string list" where
  "objectiveSanitizeScopePaths paths =
     objectiveUniqueStrings (filter (\<lambda>p. ToUpper (TrimSpace p) \<notin> {[], ''PASS'', ''FAIL''}) paths)"

definition objectivePrioritizeWorkstreamScope :: "task \<Rightarrow> string list \<Rightarrow> string list" where
  "objectivePrioritizeWorkstreamScope t recommended =
     (if recommended = [] then recommended
      else if trimmed (tMetadata t) ''objective_workstream'' \<notin> sync_workstreams then recommended
      else
        (let currentScope = objectiveSanitizeScopePaths
               (anyStringSliceHTTPDefault (tMetadata t ''suspected_paths'') [])
         in if currentScope = [] then recommended else objectiveUniqueStrings (currentScope @ recommended)))"

definition put_scope :: "string list \<Rightarrow> any_map \<Rightarrow> patch \<Rightarrow> patch" where
  "put_scope scope request p =
     put ''project_request'' (AMap (request(''expected_files'' \<mapsto> AStrs scope))) (put ''suspected_paths'' (AStrs scope) p)"

definition applyObjectiveResearchPatch :: "(string \<Rightarrow> any_map option) \<Rightarrow> task \<Rightarrow> task \<Rightarrow> patch \<Rightarrow> patch" where
  "applyObjectiveResearchPatch json t dep p =
     (let m = decode_payload json (tResults dep);
          scope0 = anyStringSliceHTTPDefault (m ''recommended_scope_paths'') [];
          scope = objectivePrioritizeWorkstreamScope t (objectiveSanitizeScopePaths scope0);
          p1 = (if scope0 = [] then p else put_scope scope (asMap (tMetadata t ''project_request'')) p);
          p2 = put_str ''objective_research_brief'' (trimmed m ''next_edit_brief'') p1;
          p3 = put_strs ''objective_research_recommendations'' (anyStringSliceHTTPDefault (m ''recommendations'') []) p2;
          p4 = put_maps ''objective_failure_hypotheses'' (anyMapSliceHTTPDefault (m ''failure_hypotheses'') []) p3;
          p5 = put_maps ''objective_patch_intent'' (anyMapSliceHTTPDefault (m ''patch_intent'') []) p4;
          p6 = put_maps ''objective_retrieval_precedents'' (anyMapSliceHTTPDefault (m ''retrieval_precedents'') []) p5;
          p7 = put_strs ''excluded_scope_paths'' (anyStringSliceHTTPDefault (m ''excluded_scope_paths'') []) p6;
          p8 = put_str ''planner_scope_resolution'' (trimmed m ''planner_scope_resolution'') p7;
          p9 = put_str ''planner_rejected_scope_resolution'' (trimmed m ''planner_rejected_scope_resolution'') p8
      in if m = Map.empty then p
         else put_str ''scope_correction_reason'' (trimmed m ''scope_correction_reason'') p9)"

definition objectiveAnalysisScopePaths :: "any_map list \<Rightarrow> string list" where
  "objectiveAnalysisScopePaths findings =
     objectiveUniqueStrings (filter (\<lambda>s. s \<noteq> []) (map (\<lambda>f. trimmed (asMap (f ''location'')) ''file'') findings))"

definition firstNonNilMap :: "any_val option list \<Rightarrow> any_map" where
  "firstNonNilMap vs = (case filter (\<lambda>m. m \<noteq> Map.empty) (map asMap vs) of [] \<Rightarrow> Map.empty | m # _ \<Rightarrow> m)"

definition applyObjectiveAnalysisPatch :: "(string \<Rightarrow> any_map option) \<Rightarrow> task \<Rightarrow> task \<Rightarrow> patch \<Rightarrow> patch" where
  "applyObjectiveAnalysisPatch json t dep p =
     (let m = decode_payload json (tResults dep);
          findings = anyMapSliceHTTPDefault (m ''findings'') [];
          p1 = put_maps ''objective_analysis_findings'' findings p;
          summary = asMap (m ''summary'');
          p2 = (if summary = Map.empty then p1 else put ''objective_analysis_summary'' (AMap summary) p1);
          scope = objectiveAnalysisScopePaths findings;
          existing = anyStringSliceHTTPDefault (map_of p2 ''suspected_paths'')
                       (anyStringSliceHTTPDefault (tMetadata t ''suspected_paths'') []);
          merged = objectiveUniqueStrings (scope @ existing);
          request = firstNonNilMap [map_of p2 ''project_request'', tMetadata t ''project_request'']
      in if m = Map.empty then p else if scope = [] then p2 else put_scope merged request p2)"

definition applyObjectiveBaselineValidatePatch :: "task \<Rightarrow> patch \<Rightarrow> patch" where
  "applyObjectiveBaselineValidatePatch dep p =
     (let m = asMap (tResults dep); testResults = asMap (m ''test_results'');
          p1 = (if testResults = Map.empty then p else put ''objective_baseline_test_results'' (AMap testResults) p);
          p2 = put_maps ''objective_baseline_findings'' (anyMapSliceHTTPDefault (m ''findings'') []) p1;
          p3 = put_str ''objective_baseline_summary'' (trimmed m ''summary'') p2
      in put_str ''objective_baseline_stdout'' (trimmed m ''stdout'') p3)"

section \<open>Queueing what is ready\<close>

text \<open>The tasks of an initiative by work item; a later task replaces an earlier one.\<close>

definition by_work_item :: "(task_link \<times> task) list \<Rightarrow> string \<Rightarrow> task option" where
  "by_work_item items wid =
     (if wid = [] then None
      else map_option snd (find (\<lambda>it. trimmed (tMetadata (snd it)) ''work_item_id'' = wid) (rev items)))"

definition dependencies :: "any_map \<Rightarrow> string list" where
  "dependencies m = anyStringSliceHTTPDefault (m ''depends_on'') []"

definition completed_item :: "(task_link \<times> task) list \<Rightarrow> string \<Rightarrow> bool" where
  "completed_item items dep =
     (case by_work_item items dep of None \<Rightarrow> False | Some t \<Rightarrow> tState t = Completed)"

definition objectiveDependenciesSatisfied :: "any_map \<Rightarrow> (task_link \<times> task) list \<Rightarrow> bool" where
  "objectiveDependenciesSatisfied m items = list_all (completed_item items) (dependencies m)"

definition dependency_patch :: "(string \<Rightarrow> any_map option) \<Rightarrow> task \<Rightarrow> (task_link \<times> task) list \<Rightarrow> string \<Rightarrow> patch \<Rightarrow> patch" where
  "dependency_patch json t items dep p =
     (case by_work_item items dep of
        None \<Rightarrow> p
      | Some x \<Rightarrow>
          if tState x \<noteq> Completed then p
          else
            (let kind = trimmed (tMetadata x) ''work_item_kind''
             in if kind = WorkItemKindResearch \<or> kind = WorkItemKindReplan then applyObjectiveResearchPatch json t x p
                else if kind = WorkItemKindAnalyze then applyObjectiveAnalysisPatch json t x p
                else if kind = WorkItemKindValidate \<and> objectiveAsBool (tMetadata x ''objective_baseline_validation'')
                then applyObjectiveBaselineValidatePatch x p
                else p))"

definition objectiveQueueMetadataPatch :: "(string \<Rightarrow> any_map option) \<Rightarrow> task \<Rightarrow> (task_link \<times> task) list \<Rightarrow> patch" where
  "objectiveQueueMetadataPatch json t items =
     (if trimmed (tMetadata t) ''work_item_kind'' \<noteq> WorkItemKindEdit then []
      else fold (dependency_patch json t items) (dependencies (tMetadata t)) [])"

definition patch_metadata :: "flow_env \<Rightarrow> string \<Rightarrow> patch \<Rightarrow> flow \<Rightarrow> flow" where
  "patch_metadata env taskID p w =
     w\<lparr>wS := (wS w)\<lparr>iDB := PatchTaskMetadata (eClk env (wN w)) taskID (map (\<lambda>e. (fst e, json_rt (snd e))) p)
         (iDB (wS w))\<rparr>, wN := wN w + 1\<rparr>"

definition reconcile :: "flow_env \<Rightarrow> string \<Rightarrow> flow \<Rightarrow> flow" where
  "reconcile env initID w =
     w\<lparr>wS := fst (ReconcileInitiativeExecution (eClk env (wN w)) initID (wS w)), wN := wN w + 1\<rparr>"

definition stringPtr :: "string \<Rightarrow> string option" where
  "stringPtr v = (if TrimSpace v = [] then None else Some v)"

text \<open>The status snapshot that is written when an objective stops; its JSON text is kept as a map.\<close>

definition stop_snapshot :: "obj_env \<Rightarrow> task \<Rightarrow> string \<Rightarrow> string \<Rightarrow> string \<Rightarrow> instant \<Rightarrow> int \<Rightarrow> any_map" where
  "stop_snapshot env t initID stopReason blockerReason deadline budgetSeconds =
     (let m = tMetadata t; c = fst (decodeObjectiveExecutionContract (m ''execution_contract''))
      in opt_str ''deadline_at'' (if deadline = 0 then [] else oFmt env deadline)
         (opt_int ''time_budget_seconds'' budgetSeconds (opt_str ''blocker_reason'' blockerReason
         (opt_str ''stop_reason'' stopReason
         (opt_strs ''validation_commands'' (anyStringSliceHTTPDefault (m ''validation_commands'') [])
         (opt_str ''objective_title'' (firstNonEmptyString [TrimSpace (ecTitle c), trimmed m ''objective_title''])
         (opt_str ''normalized_objective''
            (firstNonEmptyString [TrimSpace (ecNormalizedObjective c), trimmed m ''initiative_goal''])
         [''initiative_id'' \<mapsto> AStr (TrimSpace initID), ''current_phase'' \<mapsto> AStr (phaseText ExecutionPhase),
          ''iteration'' \<mapsto> AInt (objectiveIteration m), ''max_iterations'' \<mapsto> AInt (objectiveMaxIterations m),
          ''remaining_retries'' \<mapsto> AInt (objectiveRemainingRetries m),
          ''work_item_kind'' \<mapsto> AStr (trimmed m ''work_item_kind''), ''result_status'' \<mapsto> AStr ''error'',
          ''needs_repair_cycle'' \<mapsto> ABool False, ''next_expected_action'' \<mapsto> AStr ''block_initiative''])))))))"

definition snapshot_metadata :: "any_map \<Rightarrow> int \<Rightarrow> any_map" where
  "snapshot_metadata s budgetSeconds =
     (\<lambda>k. if k \<in> {''initiative_id'', ''iteration'', ''max_iterations'', ''work_item_kind'', ''result_status'',
                  ''next_expected_action'', ''remaining_retries''} then s k
          else if k \<in> {''objective_title'', ''normalized_objective'', ''blocker_reason'', ''stop_reason'', ''deadline_at''}
          then Some (AStr (asString (s k)))
          else if k = ''time_budget_seconds'' then Some (AInt budgetSeconds)
          else if k = ''remaining_budget_seconds'' then Some (AInt 0)
          else if k = ''memory_kind'' then Some (AStr ''objective_status_snapshot'')
          else None)"

definition persistObjectiveStopSnapshot ::
  "obj_env \<Rightarrow> task \<Rightarrow> string \<Rightarrow> string \<Rightarrow> instant \<Rightarrow> int \<Rightarrow> flow \<Rightarrow> flow" where
  "persistObjectiveStopSnapshot env t stopReason blockerReason deadline budgetSeconds w =
     (case tInitiativeID t of
        None \<Rightarrow> w
      | Some initID \<Rightarrow>
          (let s = stop_snapshot env t initID stopReason blockerReason deadline budgetSeconds; k = wN w;
               row = \<lparr>rID = eUid (oF env) k, rTask = None, rInvocation = None, rType = ''objective_status_snapshot'',
                 rTitle = stringPtr (''Objective status snapshot '' @ Itoa (objectiveIteration (tMetadata t)) @ '' '' @
                   trimmed (tMetadata t) ''work_item_kind''),
                 rURI = None, rMedia = Some ''application/json'', rContent = Some s, rText = None,
                 rMeta = snapshot_metadata s budgetSeconds,
                 rCreatedAt = eClk (oF env) k\<rparr>
           in w\<lparr>wS := (wS w)\<lparr>iArtifacts := iArtifacts (wS w) @ [row]\<rparr>, wN := k + 1\<rparr>))"

definition exhausted_patch :: "instant \<Rightarrow> patch" where
  "exhausted_patch now =
     [(''objective_stop_reason'', AStr ''time_budget_exhausted''), (''objective_time_budget_exhausted'', ABool True),
      (''objective_time_budget_exhausted_at'', ATime now)]"

definition failObjectiveTaskDueToTimeBudget :: "obj_env \<Rightarrow> task \<Rightarrow> flow \<Rightarrow> flow \<times> string option" where
  "failObjectiveTaskDueToTimeBudget env t w =
     (case tInitiativeID t of
        None \<Rightarrow> (w, None)
      | Some initID \<Rightarrow>
          (case objectiveTimeBudgetDetails (oParse env) (tMetadata t) of
             (budgetSeconds, deadline, ok) \<Rightarrow>
               if \<not> ok then (w, None)
               else
                 (let f = oF env;
                      reason = objectiveTimeBudgetExceededReason (oFmt env) budgetSeconds deadline;
                      w1 = patch_metadata f (tID t) (exhausted_patch (eClk f (wN w))) (w\<lparr>wN := wN w + 1\<rparr>);
                      results = AMap [''status'' \<mapsto> AStr ''error'', ''stop_reason'' \<mapsto> AStr ''time_budget_exhausted'',
                        ''summary'' \<mapsto> AStr reason, ''error'' \<mapsto> AStr reason];
                      k = wN w1
                  in case FailTask (eUid f k) (eClk f k) (tID t) ''objectives:auto'' reason reason (Some results)
                          (iDB (wS w1)) of
                       Inl e \<Rightarrow> (w1\<lparr>wN := k + 1\<rparr>, Some e)
                     | Inr (d, _) \<Rightarrow>
                         (let w2 = w1\<lparr>wS := (wS w1)\<lparr>iDB := d\<rparr>, wN := k + 1\<rparr>;
                              w3 = persistObjectiveStopSnapshot env t ''time_budget_exhausted'' reason deadline
                                     budgetSeconds w2
                          in (reconcile f initID w3, None)))))"

definition launch_ready :: "flow_env \<Rightarrow> string \<Rightarrow> flow \<Rightarrow> flow \<times> string option" where
  "launch_ready env taskID w =
     (let k = wN w
      in case QueueTaskForLaunch (eUid env k) (eClk env k) taskID ''objectives:auto''
              ''Queued objective work item after dependency resolution'' (iDB (wS w)) of
           Inl e \<Rightarrow> (w\<lparr>wN := k + 1\<rparr>, Some e)
         | Inr (d, queued) \<Rightarrow>
             (let w1 = w\<lparr>wS := (wS w)\<lparr>iDB := d\<rparr>, wN := k + 1\<rparr>
              in case queued of
                   None \<Rightarrow> (w1, Some nil_deref)
                 | Some t \<Rightarrow> (case enqueue_queued env t w1 of Inl e \<Rightarrow> (w1, Some e) | Inr w2 \<Rightarrow> (w2, None))))"

definition queue_one :: "obj_env \<Rightarrow> (task_link \<times> task) list \<Rightarrow> task_link \<times> task \<Rightarrow> flow \<Rightarrow> flow \<times> string option" where
  "queue_one env items it w =
     (if tState (snd it) \<noteq> Created \<or> \<not> objectiveDependenciesSatisfied (tMetadata (snd it)) items then (w, None)
      else
        (case GetTask (iDB (wS w)) (lTask (fst it)) of
           None \<Rightarrow> (w, Some nil_deref)
         | Some t \<Rightarrow>
             (let w0 = w\<lparr>wN := wN w + 1\<rparr>
              in if objectiveTimeBudgetExceeded (oParse env) (tMetadata t) (eClk (oF env) (wN w))
                 then failObjectiveTaskDueToTimeBudget env t w0
                 else
                   (let p = objectiveQueueMetadataPatch (oJson env) t items;
                        w1 = (if p = [] then w0 else patch_metadata (oF env) (lTask (fst it)) p w0)
                    in launch_ready (oF env) (lTask (fst it)) w1))))"

fun queue_all ::
  "obj_env \<Rightarrow> (task_link \<times> task) list \<Rightarrow> (task_link \<times> task) list \<Rightarrow> flow \<Rightarrow> flow \<times> string option" where
  "queue_all env items [] w = (w, None)"
| "queue_all env items (it # its) w =
     (case queue_one env items it w of
        (w1, Some e) \<Rightarrow> (w1, Some e)
      | (w1, None) \<Rightarrow> queue_all env items its w1)"

definition queueReadyObjectiveTasks :: "obj_env \<Rightarrow> string \<Rightarrow> flow \<Rightarrow> flow \<times> string option" where
  "queueReadyObjectiveTasks env initID w =
     (let items = ListInitiativeTasks (wS w) initID in queue_all env items items w)"

section \<open>Superseding the rest of an iteration\<close>

definition work_id :: "task \<Rightarrow> string" where
  "work_id t = trimmed (tMetadata t) ''work_item_id''"

definition supersedable :: "task_state \<Rightarrow> bool" where
  "supersedable s \<longleftrightarrow> s \<in> {Created, Queued, Assigned, WaitingApproval}"

definition cancel_superseded :: "flow_env \<Rightarrow> int \<Rightarrow> task \<Rightarrow> flow \<Rightarrow> flow \<times> string option" where
  "cancel_superseded env iteration t w =
     (let w1 = patch_metadata env (tID t)
            [(''superseded_by_repair_cycle'', ABool True), (''superseded_iteration'', AInt (iteration + 1))] w;
          k = wN w1
      in case CancelTask (eUid env k) (eClk env k) (tID t) ''objectives:auto''
              (''Superseded by objective repair iteration '' @ Itoa (iteration + 1)) (iDB (wS w1)) of
           Inl e \<Rightarrow> (w1\<lparr>wN := k + 1\<rparr>, Some e)
         | Inr d \<Rightarrow> (w1\<lparr>wS := (wS w1)\<lparr>iDB := d\<rparr>, wN := k + 1\<rparr>, None))"

text \<open>Whether the loop looks at a task at all, and whether it marks it given what is marked so far.\<close>

definition same_iteration :: "task \<Rightarrow> task \<Rightarrow> bool" where
  "same_iteration t x \<longleftrightarrow>
     tID x \<noteq> tID t \<and> objectiveIteration (tMetadata x) = objectiveIteration (tMetadata t) \<and> work_id x \<noteq> []"

definition marks :: "task \<Rightarrow> string list \<Rightarrow> task \<Rightarrow> bool" where
  "marks t superseded x \<longleftrightarrow>
     same_iteration t x \<and> work_id x \<notin> set superseded \<and>
     list_ex (\<lambda>d. d \<in> set superseded) (dependencies (tMetadata x))"

fun supersede_pass ::
  "flow_env \<Rightarrow> task \<Rightarrow> task list \<Rightarrow> string list \<Rightarrow> bool \<Rightarrow> flow \<Rightarrow> flow \<times> (string list \<times> bool) result" where
  "supersede_pass env t [] superseded changed w = (w, Inr (superseded, changed))"
| "supersede_pass env t (x # xs) superseded changed w =
     (if \<not> marks t superseded x then supersede_pass env t xs superseded changed w
      else if supersedable (tState x) then
        (case cancel_superseded env (objectiveIteration (tMetadata t)) x w of
           (w1, Some e) \<Rightarrow> (w1, Inl e)
         | (w1, None) \<Rightarrow> supersede_pass env t xs (work_id x # superseded) True w1)
      else supersede_pass env t xs (work_id x # superseded) True w)"

lemma supersede_pass_grows:
  "supersede_pass env t xs superseded changed w = (w', Inr (superseded', changed')) \<Longrightarrow>
     (\<exists>new. superseded' = new @ superseded \<and> set new \<subseteq> work_id ` set xs \<and> set new \<inter> set superseded = {} \<and>
        (changed' \<longrightarrow> changed \<or> new \<noteq> []) \<and> (new = [] \<longrightarrow> w' = w) \<and> (changed \<longrightarrow> changed'))"
proof (induction xs arbitrary: superseded changed w)
  case (Cons x xs)
  show ?case
  proof (cases "marks t superseded x")
    case False
    with Cons.prems have "supersede_pass env t xs superseded changed w = (w', Inr (superseded', changed'))" by simp
    from Cons.IH [OF this] show ?thesis by (elim exE conjE) (intro exI conjI; auto)
  next
    case True
    then have new: "work_id x \<notin> set superseded" by (simp add: marks_def)
    obtain w1 where "supersede_pass env t xs (work_id x # superseded) True w1 = (w', Inr (superseded', changed'))"
      using Cons.prems True by (auto split: if_splits prod.splits option.splits)
    from Cons.IH [OF this] obtain n where n: "superseded' = n @ work_id x # superseded"
      "set n \<subseteq> work_id ` set xs" "set n \<inter> set (work_id x # superseded) = {}" changed' by auto
    show ?thesis
      by (rule exI [of _ "n @ [work_id x]"]) (use n new in auto)
  qed
qed simp

definition unmarked :: "task list \<Rightarrow> string list \<Rightarrow> nat" where
  "unmarked xs superseded = card (work_id ` set xs - set superseded)"

lemma supersede_pass_decreases:
  assumes "supersede_pass env t xs superseded False w = (w', Inr (superseded', True))"
  shows "unmarked xs superseded' < unmarked xs superseded"
proof -
  from supersede_pass_grows [OF assms] obtain n where n: "superseded' = n @ superseded" "set n \<subseteq> work_id ` set xs"
    "set n \<inter> set superseded = {}" "n \<noteq> []" by auto
  then show ?thesis
    unfolding unmarked_def by (intro psubset_card_mono) (auto simp: neq_Nil_conv)
qed

function supersede_loop :: "flow_env \<Rightarrow> task \<Rightarrow> task list \<Rightarrow> string list \<Rightarrow> flow \<Rightarrow> flow \<times> string list result" where
  "supersede_loop env t xs superseded w =
     (case supersede_pass env t xs superseded False w of
        (w1, Inl e) \<Rightarrow> (w1, Inl e)
      | (w1, Inr (superseded1, changed)) \<Rightarrow>
          if changed then supersede_loop env t xs superseded1 w1 else (w1, Inr superseded1))"
  by pat_completeness auto

termination
  by (relation "measure (\<lambda>(env, t, xs, superseded, w). unmarked xs superseded)")
     (auto dest!: supersede_pass_decreases [OF sym])

declare supersede_loop.simps [simp del]

definition cancelSupersededObjectiveDependents ::
  "flow_env \<Rightarrow> string \<Rightarrow> task \<Rightarrow> flow \<Rightarrow> flow \<times> string option" where
  "cancelSupersededObjectiveDependents env initID t w =
     (if work_id t = [] then (w, None)
      else
        (case supersede_loop env t (map snd (ListInitiativeTasks (wS w) initID)) [work_id t] w of
           (w1, Inl e) \<Rightarrow> (w1, Some e)
         | (w1, Inr _) \<Rightarrow> (w1, None)))"

section \<open>The next iteration\<close>

definition startObjectiveRepairCycle :: "obj_env \<Rightarrow> task \<Rightarrow> bridge_result \<Rightarrow> flow \<Rightarrow> flow \<times> string option" where
  "startObjectiveRepairCycle env t r w0 =
     (let f = oF env; w = w0\<lparr>wN := wN w0 + 1\<rparr>
      in if \<not> shouldStartObjectiveRepairCycle (oParse env) (eClk f (wN w0)) t r then (w, None)
         else if objectiveMaxIterations (tMetadata t) \<le> objectiveIteration (tMetadata t) then (w, None)
         else
           (case tInitiativeID t of
              None \<Rightarrow> (w, None)
            | Some initID \<Rightarrow>
                (case GetInitiative (wS w) initID of
                   None \<Rightarrow> (w, Some (''initiative '' @ initID @ '' not found''))
                 | Some n \<Rightarrow>
                     (case decodeObjectiveExecutionContract (tMetadata t ''execution_contract'') of
                        (_, Some e) \<Rightarrow> (w, Some e)
                      | (contract, None) \<Rightarrow>
                          (case buildObjectiveRepairCycle contract t r of
                             Inl e \<Rightarrow> (w, Some e)
                           | Inr items \<Rightarrow>
                               (case cancelSupersededObjectiveDependents f initID t w of
                                  (w1, Some e) \<Rightarrow> (w1, Some e)
                                | (w1, None) \<Rightarrow>
                                    (case materializeObjectiveWorkItems f n (contract\<lparr>ecWorkItems := items\<rparr>) w1 of
                                       (w2, Inl e) \<Rightarrow> (w2, Some e)
                                     | (w2, Inr _) \<Rightarrow> queueReadyObjectiveTasks env (nID n) w2)))))))"

end
