(* ===== verification/Objective_Ready.thy ===== *)
theory Objective_Ready
  imports Objective_Loop
begin

text \<open>
  What queueing the ready tasks of an objective does to the tables: which tasks it moves, what
  happens when a task finds its time budget exhausted, and that nothing else is touched.
\<close>

section \<open>Rows after one step\<close>

definition task_at :: "flow \<Rightarrow> string \<Rightarrow> task option" where
  "task_at w i = GetTask (iDB (wS w)) i"

definition state_at :: "flow \<Rightarrow> string \<Rightarrow> task_state option" where
  "state_at w i = map_option tState (task_at w i)"

lemma GetTask_transition:
  "GetTask (transitionTaskStateTx r i s s' a q now d) j =
     (if j = i then map_option (transition_row s' now) (GetTask d j) else GetTask d j)"
  by (simp add: GetTask_def find_row_upd_other)

lemma GetTask_patch:
  "GetTask (PatchTaskMetadata now i p d) j =
     (if j = i \<and> p \<noteq> [] then map_option (\<lambda>t. t\<lparr>tMetadata := tMetadata t ++ map_of p, tUpdatedAt := now\<rparr>) (GetTask d j)
      else GetTask d j)"
  by (simp add: GetTask_def PatchTaskMetadata_def find_row_upd_other)

lemma patch_metadata_simps [simp]:
  "iInits (wS (patch_metadata f i p w)) = iInits (wS w)"
  "iLinks (wS (patch_metadata f i p w)) = iLinks (wS w)"
  "iArtifacts (wS (patch_metadata f i p w)) = iArtifacts (wS w)"
  "wQ (patch_metadata f i p w) = wQ w"
  "wN (patch_metadata f i p w) = wN w + 1"
  by (simp_all add: patch_metadata_def)

lemma task_at_count [simp]: "task_at (w\<lparr>wN := n\<rparr>) i = task_at w i"
  by (simp add: task_at_def)

lemma state_at_count [simp]: "state_at (w\<lparr>wN := n\<rparr>) i = state_at w i"
  by (simp add: state_at_def)

lemma task_at_queue [simp]: "task_at (w\<lparr>wQ := q\<rparr>) i = task_at w i"
  by (simp add: task_at_def)

lemma task_at_patch:
  "\<exists>g. (\<forall>t. tID (g t) = tID t \<and> tState (g t) = tState t \<and> tInitiativeID (g t) = tInitiativeID t) \<and>
     task_at (patch_metadata f i p w) j = (if j = i then map_option g (task_at w j) else task_at w j)"
proof (cases "p = []")
  case True
  then show ?thesis by (intro exI [of _ "\<lambda>t. t"]) (simp add: task_at_def patch_metadata_def GetTask_patch option.map_ident)
next
  case False
  let ?g = "\<lambda>t. t\<lparr>tMetadata := tMetadata t ++ map_of (map (\<lambda>e. (fst e, json_rt (snd e))) p), tUpdatedAt := eClk f (wN w)\<rparr>"
  show ?thesis
    by (rule exI [of _ ?g]) (use False in \<open>simp add: task_at_def patch_metadata_def GetTask_patch\<close>)
qed

lemma state_at_patch [simp]: "state_at (patch_metadata f i p w) j = state_at w j"
  using task_at_patch [of f i p w j] by (auto simp: state_at_def option.map_comp comp_def)

lemma enqueue_queued_tables [simp]: "enqueue_queued f t w = Inr w' \<Longrightarrow> task_at w' i = task_at w i"
  by (simp add: task_at_def enqueue_queued_wS)

section \<open>Launching one task\<close>

lemma launch_ready_tables:
  assumes "launch_ready f i w = (w', r)"
  shows "iInits (wS w') = iInits (wS w) \<and> iLinks (wS w') = iLinks (wS w) \<and> (\<forall>j. j \<noteq> i \<longrightarrow> task_at w' j = task_at w j)"
  using assms
  by (auto simp: launch_ready_def QueueTaskForLaunch_def Let_def task_at_def GetTask_transition enqueue_queued_wS
      split: sum.splits option.splits if_splits)

lemma launch_ready_created:
  assumes "launch_ready f i w = (w', r)" and "state_at w i = Some Created"
  shows "state_at w' i = Some Queued \<and> (eRedisUp f \<longrightarrow> r = None)"
proof -
  obtain t where t: "GetTask (iDB (wS w)) i = Some t" "tState t = Created"
    using assms(2) by (auto simp: state_at_def task_at_def)
  have q: "\<exists>w2. enqueue_queued f u v = Inr w2" if "eRedisUp f" for u v
    using that by (auto simp: enqueue_queued_def split: option.splits)
  show ?thesis
    using assms(1) t q
    by (auto simp: launch_ready_def QueueTaskForLaunch_def Let_def state_at_def task_at_def GetTask_transition
        enqueue_queued_wS split: sum.splits)
       (metis Inl_Inr_False)+
qed

section \<open>A task over its budget\<close>

lemma over_budget_details:
  "objectiveTimeBudgetExceeded parse m now \<Longrightarrow> \<exists>b dl. objectiveTimeBudgetDetails parse m = (b, dl, True) \<and> dl \<le> now"
  by (auto simp: objectiveTimeBudgetExceeded_def split: prod.splits if_splits)

lemma fail_created_task:
  assumes "state_at w (tID t) = Some Created" and "tInitiativeID t \<noteq> None"
    and "objectiveTimeBudgetExceeded (oParse env) (tMetadata t) now"
  shows "\<exists>w'. failObjectiveTaskDueToTimeBudget env t w = (w', Some (invalid_transition Created Failed)) \<and>
    iInits (wS w') = iInits (wS w) \<and> iLinks (wS w') = iLinks (wS w) \<and> iArtifacts (wS w') = iArtifacts (wS w) \<and>
    state_at w' (tID t) = Some Created \<and> (\<forall>j. j \<noteq> tID t \<longrightarrow> task_at w' j = task_at w j)"
proof -
  obtain i where i: "tInitiativeID t = Some i" using assms(2) by auto
  obtain b dl where d: "objectiveTimeBudgetDetails (oParse env) (tMetadata t) = (b, dl, True)"
    using over_budget_details [OF assms(3)] by auto
  define w1 where "w1 = patch_metadata (oF env) (tID t) (exhausted_patch (eClk (oF env) (wN w))) (w\<lparr>wN := wN w + 1\<rparr>)"
  have s1: "state_at w1 (tID t) = Some Created" using assms(1) by (simp add: w1_def)
  have f: "FailTask r c (tID t) a q e res (iDB (wS w1)) = Inl (invalid_transition Created Failed)" for r c a q e res
    using s1 by (auto simp: FailTask_def finalizeTask_def IsValidTransition_def state_at_def task_at_def)
  have o: "task_at w1 j = task_at w j" if "j \<noteq> tID t" for j
    using task_at_patch [of "oF env" "tID t" _ "w\<lparr>wN := wN w + 1\<rparr>" j] that by (auto simp: w1_def)
  have "failObjectiveTaskDueToTimeBudget env t w =
      (w1\<lparr>wN := wN w1 + 1\<rparr>, Some (invalid_transition Created Failed))"
    by (simp add: failObjectiveTaskDueToTimeBudget_def i d Let_def f w1_def [symmetric] del: One_nat_def)
  then show ?thesis using s1 o by (simp add: w1_def)
qed

section \<open>One task of the listing\<close>

definition ready :: "(task_link \<times> task) list \<Rightarrow> task_link \<times> task \<Rightarrow> bool" where
  "ready items it \<longleftrightarrow> tState (snd it) = Created \<and> objectiveDependenciesSatisfied (tMetadata (snd it)) items"

lemma queue_one_skips: "\<not> ready items it \<Longrightarrow> queue_one env items it w = (w, None)"
  by (auto simp: queue_one_def ready_def)

lemma queue_one_over_budget:
  assumes "ready items it" and "task_at w (lTask (fst it)) = Some t" and "tState t = Created" and "tID t = lTask (fst it)"
    and "tInitiativeID t \<noteq> None" and "objectiveTimeBudgetExceeded (oParse env) (tMetadata t) (eClk (oF env) (wN w))"
  shows "\<exists>w'. queue_one env items it w = (w', Some (invalid_transition Created Failed)) \<and>
    iInits (wS w') = iInits (wS w) \<and> iLinks (wS w') = iLinks (wS w) \<and> iArtifacts (wS w') = iArtifacts (wS w) \<and>
    state_at w' (tID t) = Some Created \<and> (\<forall>j. j \<noteq> tID t \<longrightarrow> task_at w' j = task_at w j)"
  using fail_created_task [of "w\<lparr>wN := wN w + 1\<rparr>" t env "eClk (oF env) (wN w)"] assms
  by (simp add: queue_one_def ready_def state_at_def task_at_def [symmetric])

lemma queue_one_launches:
  assumes "ready items it" and "task_at w (lTask (fst it)) = Some t" and "tState t = Created" and "tID t = lTask (fst it)"
    and "\<not> objectiveTimeBudgetExceeded (oParse env) (tMetadata t) (eClk (oF env) (wN w))"
    and "queue_one env items it w = (w', r)"
  shows "iInits (wS w') = iInits (wS w) \<and> iLinks (wS w') = iLinks (wS w) \<and> state_at w' (tID t) = Some Queued \<and>
    (\<forall>j. j \<noteq> tID t \<longrightarrow> task_at w' j = task_at w j) \<and> (eRedisUp (oF env) \<longrightarrow> r = None)"
proof -
  let ?w0 = "w\<lparr>wN := wN w + 1\<rparr>" and ?p = "objectiveQueueMetadataPatch (oJson env) t items"
  let ?w1 = "if ?p = [] then ?w0 else patch_metadata (oF env) (tID t) ?p ?w0"
  have l: "launch_ready (oF env) (tID t) ?w1 = (w', r)"
    using assms by (cases "?p = []") (simp_all add: queue_one_def ready_def task_at_def [symmetric] Let_def)
  have "state_at w (tID t) = Some Created" using assms(2,3,4) by (simp add: state_at_def)
  then have "state_at ?w1 (tID t) = Some Created" by simp
  from launch_ready_created [OF l this] have s: "state_at w' (tID t) = Some Queued" "eRedisUp (oF env) \<longrightarrow> r = None" by auto
  have "task_at ?w1 j = task_at w j" if "j \<noteq> tID t" for j
    using task_at_patch [of "oF env" "tID t" ?p ?w0 j] that by auto
  with launch_ready_tables [OF l] s show ?thesis by auto
qed

section \<open>The whole listing\<close>

text \<open>The rows a listing of an initiative shows are the rows of the table, one per link.\<close>

lemma listed_row:
  assumes "it \<in> set (ListInitiativeTasks (wS w) i)"
  shows "task_at w (lTask (fst it)) = Some (snd it)" and "tID (snd it) = lTask (fst it)"
    and "fst it \<in> set (iLinks (wS w))" and "lInitiative (fst it) = i"
proof -
  obtain l where l: "l \<in> set (iLinks (wS w))" "lInitiative l = i" "map_option (\<lambda>t. (l, t)) (GetTask (iDB (wS w)) (lTask l)) = Some it"
    using assms by (auto simp: ListInitiativeTasks_def List.map_filter_def split: if_splits)
  then obtain t where t: "GetTask (iDB (wS w)) (lTask l) = Some t" "it = (l, t)" by auto
  show "task_at w (lTask (fst it)) = Some (snd it)" "fst it \<in> set (iLinks (wS w))" "lInitiative (fst it) = i"
    using t l by (simp_all add: task_at_def)
  show "tID (snd it) = lTask (fst it)" using t find_row_SomeD [of tID] by (auto simp: GetTask_def)
qed

lemma distinct_sort_by: "distinct (map f (sort_by lt xs)) = distinct (map f xs)"
  by (metis distinct_count_atmost_1 mset_map mset_sort_by set_map set_sort_by)

lemma listed_distinct:
  assumes "keyed link_key (iLinks s)"
  shows "distinct (map (\<lambda>it. lTask (fst it)) (ListInitiativeTasks s i))"
proof -
  let ?f = "\<lambda>l. if lInitiative l = i then map_option (\<lambda>t. (l, t)) (GetTask (iDB s) (lTask l)) else None"
  have "distinct (map (\<lambda>it. lTask (fst it)) (List.map_filter ?f ls)) \<and>
      (\<forall>it \<in> set (List.map_filter ?f ls). fst it \<in> set ls \<and> lInitiative (fst it) = i)" if "keyed link_key ls" for ls
    using that
  proof (induction ls)
    case (Cons l ls)
    have "lTask l \<notin> (\<lambda>it. lTask (fst it)) ` set (List.map_filter ?f ls)" if "lInitiative l = i"
      using Cons that by (auto simp: image_iff)
    then show ?case using Cons by (auto simp: map_filter_simps split: option.split)
  qed (simp add: map_filter_simps)
  from this [OF assms] show ?thesis by (simp add: ListInitiativeTasks_def distinct_sort_by)
qed

lemma queue_one_count: "queue_one env items it w = (w', r) \<Longrightarrow> wN w \<le> wN w'"
  by (auto simp: queue_one_def failObjectiveTaskDueToTimeBudget_def launch_ready_def persistObjectiveStopSnapshot_def
      reconcile_def patch_metadata_def enqueue_queued_def Let_def
      split: if_splits option.splits sum.splits prod.splits)

definition fresh_listing :: "flow \<Rightarrow> (task_link \<times> task) list \<Rightarrow> bool" where
  "fresh_listing w its \<longleftrightarrow> distinct (map (\<lambda>it. lTask (fst it)) its) \<and>
     (\<forall>it \<in> set its. task_at w (lTask (fst it)) = Some (snd it) \<and> tID (snd it) = lTask (fst it))"

definition over_budget :: "obj_env \<Rightarrow> nat \<Rightarrow> task \<Rightarrow> bool" where
  "over_budget env k t \<longleftrightarrow> objectiveTimeBudgetExceeded (oParse env) (tMetadata t) (eClk (oF env) k)"

text \<open>One step, seen from outside: tables of initiatives and links stay, other tasks stay.\<close>

lemma queue_one_cases:
  assumes "fresh_listing w (it # its)" and "queue_one env items it w = (w', r)"
  shows "iInits (wS w') = iInits (wS w) \<and> iLinks (wS w') = iLinks (wS w) \<and>
    (\<forall>j. j \<noteq> lTask (fst it) \<longrightarrow> task_at w' j = task_at w j) \<and>
    (state_at w' (lTask (fst it)) = Some (tState (snd it)) \<or>
     ready items it \<and> \<not> over_budget env (wN w) (snd it) \<and> state_at w' (lTask (fst it)) = Some Queued) \<and>
    (\<not> ready items it \<longrightarrow> w' = w \<and> r = None) \<and>
    (ready items it \<and> over_budget env (wN w) (snd it) \<and> tInitiativeID (snd it) \<noteq> None \<longrightarrow>
       r = Some (invalid_transition Created Failed)) \<and>
    (ready items it \<and> \<not> over_budget env (wN w) (snd it) \<longrightarrow>
       state_at w' (lTask (fst it)) = Some Queued \<and> (eRedisUp (oF env) \<longrightarrow> r = None))"
proof (cases "ready items it")
  case False
  with assms queue_one_skips [OF False] show ?thesis by (auto simp: fresh_listing_def state_at_def)
next
  case rdy: True
  have t: "task_at w (lTask (fst it)) = Some (snd it)" "tState (snd it) = Created" "tID (snd it) = lTask (fst it)"
    using assms(1) rdy by (auto simp: fresh_listing_def ready_def)
  show ?thesis
  proof (cases "over_budget env (wN w) (snd it)")
    case False
    with queue_one_launches [OF rdy t _ assms(2)] show ?thesis using rdy t by (auto simp: over_budget_def)
  next
    case over: True
    show ?thesis
    proof (cases "tInitiativeID (snd it)")
      case None
      have "queue_one env items it w = (w\<lparr>wN := wN w + 1\<rparr>, None)"
        using rdy t over
        by (simp add: queue_one_def ready_def task_at_def [symmetric] over_budget_def failObjectiveTaskDueToTimeBudget_def None)
      with assms(2) show ?thesis using rdy t over None by (auto simp: state_at_def)
    next
      case (Some i)
      with queue_one_over_budget [OF rdy t _ over [unfolded over_budget_def]] assms(2) show ?thesis
        using rdy t over by auto
    qed
  qed
qed

lemma fresh_listing_other:
  assumes "fresh_listing w (it # its)" and "x \<in> set its"
  shows "lTask (fst x) \<noteq> lTask (fst it)"
proof -
  have "lTask (fst it) \<notin> (\<lambda>it. lTask (fst it)) ` set its" using assms(1) by (simp add: fresh_listing_def)
  then show ?thesis using imageI [OF assms(2), of "\<lambda>it. lTask (fst it)"] by metis
qed

lemma fresh_listing_step:
  assumes "fresh_listing w (it # its)" and "queue_one env items it w = (w', r)"
  shows "fresh_listing w' its"
proof -
  have o: "task_at w' j = task_at w j" if "j \<noteq> lTask (fst it)" for j
    using queue_one_cases [OF assms] that by simp
  have "lTask (fst x) \<noteq> lTask (fst it)" if "x \<in> set its" for x
    by (rule fresh_listing_other [OF assms(1) that])
  with o assms(1) show ?thesis unfolding fresh_listing_def by simp
qed

lemma queue_all_effect:
  assumes "fresh_listing w its" and "queue_all env items its w = (w', r)"
  shows "iInits (wS w') = iInits (wS w) \<and> iLinks (wS w') = iLinks (wS w) \<and>
    (\<forall>j. state_at w' j = state_at w j \<or>
       (\<exists>it \<in> set its. lTask (fst it) = j \<and> ready items it \<and> state_at w' j = Some Queued \<and>
          (\<exists>k \<ge> wN w. \<not> over_budget env k (snd it))))"
  using assms
proof (induction its arbitrary: w)
  case (Cons it its)
  obtain w1 r1 where q: "queue_one env items it w = (w1, r1)" by fastforce
  note c = queue_one_cases [OF Cons.prems(1) q]
  have s: "state_at w (lTask (fst it)) = Some (tState (snd it))"
    using Cons.prems(1) by (simp add: fresh_listing_def state_at_def)
  have n: "wN w \<le> wN w1" using q by (rule queue_one_count)
  have step: "state_at w1 j = state_at w j \<or>
      (lTask (fst it) = j \<and> ready items it \<and> state_at w1 j = Some Queued \<and> (\<exists>k \<ge> wN w. \<not> over_budget env k (snd it)))" for j
    using c s by (cases "j = lTask (fst it)") (auto simp: state_at_def)
  show ?case
  proof (cases r1)
    case (Some e)
    then have "w' = w1" using Cons.prems(2) q by simp
    then show ?thesis using c step by (metis list.set_intros(1))
  next
    case None
    then have a: "queue_all env items its w1 = (w', r)" using Cons.prems(2) q by simp
    note ih = Cons.IH [OF fresh_listing_step [OF Cons.prems(1) q] a]
    have notin: "lTask (fst x) \<noteq> lTask (fst it)" if "x \<in> set its" for x
      by (rule fresh_listing_other [OF Cons.prems(1) that])
    show ?thesis
    proof (intro conjI allI)
      show "iInits (wS w') = iInits (wS w)" "iLinks (wS w') = iLinks (wS w)" using ih c by simp_all
    next
      fix j
      have "state_at w' j = state_at w1 j \<or> (\<exists>it \<in> set its. lTask (fst it) = j \<and> ready items it \<and>
          state_at w' j = Some Queued \<and> (\<exists>k \<ge> wN w1. \<not> over_budget env k (snd it)))" using ih by simp
      then consider "state_at w' j = state_at w1 j"
        | x k where "x \<in> set its" "lTask (fst x) = j" "ready items x" "state_at w' j = Some Queued" "k \<ge> wN w1"
            "\<not> over_budget env k (snd x)" by blast
      then show "state_at w' j = state_at w j \<or> (\<exists>it \<in> set (it # its). lTask (fst it) = j \<and> ready items it \<and>
          state_at w' j = Some Queued \<and> (\<exists>k \<ge> wN w. \<not> over_budget env k (snd it)))"
      proof cases
        case 1
        then show ?thesis using step [of j] by auto
      next
        case 2
        then show ?thesis using n by (intro disjI2 bexI [of _ x]) (auto intro: exI [of _ k])
      qed
    qed
  qed
qed simp

lemma queue_all_keeps_rows:
  assumes "fresh_listing w its" and "queue_all env items its w = (w', r)"
    and "\<forall>it \<in> set its. lTask (fst it) = j \<longrightarrow> \<not> ready items it"
  shows "task_at w' j = task_at w j"
  using assms
proof (induction its arbitrary: w)
  case (Cons it its)
  obtain w1 r1 where q: "queue_one env items it w = (w1, r1)" by fastforce
  note c = queue_one_cases [OF Cons.prems(1) q]
  have s: "task_at w1 j = task_at w j"
    using c Cons.prems(3) by (cases "lTask (fst it) = j") auto
  show ?case
  proof (cases r1)
    case (Some e)
    then show ?thesis using Cons.prems(2) q s by simp
  next
    case None
    then have "queue_all env items its w1 = (w', r)" using Cons.prems(2) q by simp
    from Cons.IH [OF fresh_listing_step [OF Cons.prems(1) q] this] Cons.prems(3) s show ?thesis by simp
  qed
qed simp

lemma queue_all_over_budget:
  assumes "fresh_listing w its" and "queue_all env items its w = (w', r)"
    and "it \<in> set its" and "ready items it" and "tInitiativeID (snd it) \<noteq> None"
    and "\<forall>k \<ge> wN w. over_budget env k (snd it)"
  shows "r \<noteq> None"
  using assms
proof (induction its arbitrary: w)
  case (Cons x its)
  obtain w1 r1 where q: "queue_one env items x w = (w1, r1)" by fastforce
  note c = queue_one_cases [OF Cons.prems(1) q]
  have n: "wN w \<le> wN w1" using q by (rule queue_one_count)
  show ?case
  proof (cases r1)
    case (Some e)
    then show ?thesis using Cons.prems(2) q by auto
  next
    case None
    then have a: "queue_all env items its w1 = (w', r)" using Cons.prems(2) q by simp
    have "it \<noteq> x" using c None Cons.prems(4,5,6) by auto
    then have "it \<in> set its" using Cons.prems(3) by simp
    then show ?thesis
      by (rule Cons.IH [OF fresh_listing_step [OF Cons.prems(1) q] a]) (use Cons.prems n in auto)
  qed
qed simp

lemma queue_all_in_budget:
  assumes "fresh_listing w its" and "queue_all env items its w = (w', r)" and "eRedisUp (oF env)"
    and "\<forall>it \<in> set its. tState (snd it) = Created \<longrightarrow> (\<forall>k \<ge> wN w. \<not> over_budget env k (snd it))"
  shows "r = None \<and> (\<forall>it \<in> set its. state_at w' (lTask (fst it)) = Some (if ready items it then Queued else tState (snd it)))"
  using assms
proof (induction its arbitrary: w)
  case (Cons it its)
  obtain w1 r1 where q: "queue_one env items it w = (w1, r1)" by fastforce
  note c = queue_one_cases [OF Cons.prems(1) q]
  have n: "wN w \<le> wN w1" using q by (rule queue_one_count)
  have b: "ready items it \<longrightarrow> \<not> over_budget env (wN w) (snd it)" using Cons.prems(4) by (simp add: ready_def)
  have r1: "r1 = None" using c b Cons.prems(3) by auto
  have a: "queue_all env items its w1 = (w', r)" using Cons.prems(2) q r1 by simp
  have f: "fresh_listing w1 its" by (rule fresh_listing_step [OF Cons.prems(1) q])
  have ih: "r = None \<and> (\<forall>it \<in> set its. state_at w' (lTask (fst it)) = Some (if ready items it then Queued else tState (snd it)))"
    by (rule Cons.IH [OF f a Cons.prems(3)]) (use Cons.prems(4) n in auto)
  have s: "state_at w1 (lTask (fst it)) = Some (if ready items it then Queued else tState (snd it))"
    using c b Cons.prems(1) by (auto simp: fresh_listing_def state_at_def)
  have "\<forall>x \<in> set its. lTask (fst x) \<noteq> lTask (fst it)" using fresh_listing_other [OF Cons.prems(1)] by blast
  then have "state_at w' (lTask (fst it)) = state_at w1 (lTask (fst it))"
    using queue_all_effect [OF f a] by metis
  with ih s show ?case by simp
qed simp

lemma listing_fresh: "keyed link_key (iLinks (wS w)) \<Longrightarrow> fresh_listing w (ListInitiativeTasks (wS w) i)"
  unfolding fresh_listing_def by (auto simp: listed_distinct listed_row)

lemma find_member: "find P xs = Some x \<Longrightarrow> x \<in> set xs \<and> P x"
  by (induction xs) (auto split: if_splits)

lemma completed_item_found:
  assumes "completed_item items d"
  shows "\<exists>u \<in> snd ` set items. work_id u = d \<and> tState u = Completed"
proof -
  obtain it where "find (\<lambda>it. trimmed (tMetadata (snd it)) ''work_item_id'' = d) (rev items) = Some it" "tState (snd it) = Completed"
    using assms by (auto simp: completed_item_def by_work_item_def split: option.splits if_splits)
  from find_member [OF this(1)] this(2) show ?thesis by (auto simp: work_id_def intro!: bexI [of _ "snd it"])
qed

section \<open>Sample data\<close>

definition obj_task :: "string \<Rightarrow> string \<Rightarrow> string list \<Rightarrow> task_state \<Rightarrow> any_map \<Rightarrow> task" where
  "obj_task i wid deps st extra = (sample_task st)\<lparr>tID := i, tInitiativeID := Some ''n1'',
     tMetadata := extra(''work_item_id'' \<mapsto> AStr wid, ''depends_on'' \<mapsto> AArr (map AStr deps),
       ''objective_entrypoint'' \<mapsto> ABool True)\<rparr>"

definition obj_link :: "string \<Rightarrow> int \<Rightarrow> task_link" where
  "obj_link i order = sample_link\<lparr>lTask := i, lOrder := order\<rparr>"

definition obj_flow :: "task list \<Rightarrow> flow" where
  "obj_flow ts = \<lparr>wS = \<lparr>iDB = emptyDB\<lparr>dbTasks := ts\<rparr>, iInits = [sample_initiative Executing ExecutionPhase],
     iReviews = [], iLinks = map (\<lambda>(t, n). obj_link (tID t) (int n)) (zip ts [0..<length ts]), iArtifacts = []\<rparr>,
     wQ = emptyRedis, wN = 0\<rparr>"

definition obj_env0 :: obj_env where
  "obj_env0 = \<lparr>oF = sample_env, oParse = (\<lambda>_. None), oFmt = (\<lambda>_. []), oJson = (\<lambda>_. None)\<rparr>"

lemma obj_task_simps [simp]:
  "tID (obj_task i wid deps st extra) = i" "tState (obj_task i wid deps st extra) = st"
  "tInitiativeID (obj_task i wid deps st extra) = Some ''n1''"
  "tMetadata (obj_task i wid deps st extra) = extra(''work_item_id'' \<mapsto> AStr wid,
     ''depends_on'' \<mapsto> AArr (map AStr deps), ''objective_entrypoint'' \<mapsto> ABool True)"
  by (simp_all add: obj_task_def)

lemma obj_link_simps [simp]:
  "lTask (obj_link i n) = i" "lOrder (obj_link i n) = n" "lInitiative (obj_link i n) = ''n1''"
  by (simp_all add: obj_link_def sample_link_def)

lemma obj_flow_simps [simp]:
  "iInits (wS (obj_flow ts)) = [sample_initiative Executing ExecutionPhase]" "wN (obj_flow ts) = 0"
  "dbTasks (iDB (wS (obj_flow ts))) = ts"
  by (simp_all add: obj_flow_def)

lemmas obj_eval = obj_flow_def task_at_def GetTask_def ListInitiativeTasks_def map_filter_simps link_before_def
  upt_conv_Cons TrimSpace_solid solid_def visible_def trimmed_def asString_def

definition two_steps :: flow where
  "two_steps = obj_flow [obj_task ''t1'' ''research'' [] Completed Map.empty,
     obj_task ''t2'' ''edit'' [''research''] Created Map.empty]"

lemma two_steps_listed:
  "ListInitiativeTasks (wS two_steps) ''n1'' =
     [(obj_link ''t1'' 0, obj_task ''t1'' ''research'' [] Completed Map.empty),
      (obj_link ''t2'' 1, obj_task ''t2'' ''edit'' [''research''] Created Map.empty)]"
  by (simp add: two_steps_def obj_eval)

lemma two_steps_keyed: "keyed link_key (iLinks (wS two_steps))"
  by (simp add: two_steps_def obj_eval)

lemma two_steps_ready:
  "objectiveDependenciesSatisfied (tMetadata (obj_task ''t2'' ''edit'' [''research''] Created Map.empty))
     (ListInitiativeTasks (wS two_steps) ''n1'')"
  unfolding two_steps_listed
  by (simp add: objectiveDependenciesSatisfied_def dependencies_def anyStringSliceHTTPDefault_def anyStringSliceHTTP_def
      completed_item_def by_work_item_def obj_eval)

section \<open>Properties\<close>

text \<open>
  C16: queueing the ready tasks of an objective queues exactly the tasks that are still \<open>created\<close> and
  whose dependencies have all completed: when none of the new tasks is over its time budget and Redis answers,
  every other task of the initiative keeps its state, tasks outside the initiative are untouched
  and the call succeeds.
\<close>

theorem ready_tasks_are_queued:
  assumes "keyed link_key (iLinks (wS w))" and "eRedisUp (oF env)"
    and "\<forall>it \<in> set (ListInitiativeTasks (wS w) i). tState (snd it) = Created \<longrightarrow>
       (\<forall>k \<ge> wN w. \<not> over_budget env k (snd it))"
  shows "\<exists>w'. queueReadyObjectiveTasks env i w = (w', None) \<and>
    (\<forall>it \<in> set (ListInitiativeTasks (wS w) i).
       state_at w' (lTask (fst it)) =
         Some (if tState (snd it) = Created \<and>
                  objectiveDependenciesSatisfied (tMetadata (snd it)) (ListInitiativeTasks (wS w) i)
               then Queued else tState (snd it))) \<and>
    (\<forall>j. j \<notin> (lTask \<circ> fst) ` set (ListInitiativeTasks (wS w) i) \<longrightarrow> state_at w' j = state_at w j)"
proof -
  let ?items = "ListInitiativeTasks (wS w) i"
  obtain w' r where q: "queue_all env ?items ?items w = (w', r)" by fastforce
  note f = listing_fresh [OF assms(1), of i]
  have "\<forall>j. j \<notin> (lTask \<circ> fst) ` set ?items \<longrightarrow> state_at w' j = state_at w j"
    using queue_all_effect [OF f q] by (auto simp: image_iff)
  with queue_all_in_budget [OF f q assms(2,3)] q show ?thesis
    by (auto simp: queueReadyObjectiveTasks_def ready_def Let_def)
qed

theorem ready_tasks_are_queued_witness:
  "\<exists>w'. queueReadyObjectiveTasks obj_env0 ''n1'' two_steps = (w', None) \<and>
     state_at w' ''t1'' = Some Completed \<and> state_at w' ''t2'' = Some Queued"
proof -
  have b: "\<forall>it \<in> set (ListInitiativeTasks (wS two_steps) ''n1''). tState (snd it) = Created \<longrightarrow>
      (\<forall>k \<ge> wN two_steps. \<not> over_budget obj_env0 k (snd it))"
    by (simp add: two_steps_listed over_budget_def objectiveTimeBudgetExceeded_def objectiveTimeBudgetDetails_def
        objectiveAsInt_def)
  have "eRedisUp (oF obj_env0)" by (simp add: obj_env0_def sample_env_def)
  from ready_tasks_are_queued [OF two_steps_keyed this b] two_steps_ready show ?thesis
    by (auto simp: two_steps_listed)
qed

text \<open>
  Whatever the call answers, it moves a task only from \<open>created\<close> to \<open>queued\<close>, only when every
  dependency of the task had completed and its time budget was not exceeded at some moment of the call;
  initiatives and links are not written.
\<close>

theorem only_ready_tasks_move:
  assumes "keyed link_key (iLinks (wS w))" and "queueReadyObjectiveTasks env i w = (w', r)"
  shows "iInits (wS w') = iInits (wS w) \<and> iLinks (wS w') = iLinks (wS w) \<and>
    (\<forall>j. state_at w' j \<noteq> state_at w j \<longrightarrow>
       state_at w' j = Some Queued \<and>
       (\<exists>t k. task_at w j = Some t \<and> tState t = Created \<and> wN w \<le> k \<and> \<not> over_budget env k t \<and>
          (\<forall>d \<in> set (dependencies (tMetadata t)). \<exists>u \<in> snd ` set (ListInitiativeTasks (wS w) i).
             work_id u = d \<and> tState u = Completed)))"
proof -
  let ?items = "ListInitiativeTasks (wS w) i"
  have q: "queue_all env ?items ?items w = (w', r)" using assms(2) by (simp add: queueReadyObjectiveTasks_def Let_def)
  note e = queue_all_effect [OF listing_fresh [OF assms(1)] q]
  have dep: "\<exists>u \<in> snd ` set ?items. work_id u = d \<and> tState u = Completed"
    if "objectiveDependenciesSatisfied m ?items" and "d \<in> set (dependencies m)" for m d
    by (rule completed_item_found) (use that in \<open>auto simp: objectiveDependenciesSatisfied_def list_all_iff\<close>)
  show ?thesis
  proof (intro conjI allI impI)
    fix j assume "state_at w' j \<noteq> state_at w j"
    then obtain it k where it: "it \<in> set ?items" "lTask (fst it) = j" "ready ?items it" "state_at w' j = Some Queued"
      "wN w \<le> k" "\<not> over_budget env k (snd it)" using e by blast
    show "state_at w' j = Some Queued" by (rule it)
    show "\<exists>t k. task_at w j = Some t \<and> tState t = Created \<and> wN w \<le> k \<and> \<not> over_budget env k t \<and>
          (\<forall>d \<in> set (dependencies (tMetadata t)). \<exists>u \<in> snd ` set ?items. work_id u = d \<and> tState u = Completed)"
      using listed_row(1) [OF it(1)] it dep by (auto simp: ready_def)
  qed (use e in simp_all)
qed

theorem only_ready_tasks_move_witness:
  "\<exists>w' r. queueReadyObjectiveTasks obj_env0 ''n1'' two_steps = (w', r) \<and>
     iInits (wS w') = [sample_initiative Executing ExecutionPhase] \<and> state_at w' ''t1'' = Some Completed"
proof -
  obtain w' r where q: "queueReadyObjectiveTasks obj_env0 ''n1'' two_steps = (w', r)" by fastforce
  note t = only_ready_tasks_move [OF two_steps_keyed q]
  have "task_at two_steps ''t1'' = Some (obj_task ''t1'' ''research'' [] Completed Map.empty)"
    by (simp add: two_steps_def obj_eval)
  then have "state_at w' ''t1'' = Some Completed"
    using t by (auto simp: state_at_def dest!: spec [of _ "''t1''"])
  moreover have "iInits (wS w') = [sample_initiative Executing ExecutionPhase]" using t by (simp add: two_steps_def)
  ultimately show ?thesis using q by blast
qed

text \<open>
  An exhausted time budget is never recorded. The tasks that are found over budget are all in state
  \<open>created\<close>, and the transition table has no step from \<open>created\<close> to \<open>failed\<close>: the call ends with an
  error, the task stays \<open>created\<close>, the initiative is not blocked and no stop snapshot is written.
\<close>

theorem exhausted_budget_is_not_recorded:
  assumes "keyed link_key (iLinks (wS w))" and "it \<in> set (ListInitiativeTasks (wS w) i)"
    and "tState (snd it) = Created" and "tInitiativeID (snd it) \<noteq> None"
    and "objectiveDependenciesSatisfied (tMetadata (snd it)) (ListInitiativeTasks (wS w) i)"
    and "\<forall>k \<ge> wN w. over_budget env k (snd it)"
  shows "\<exists>w' e. queueReadyObjectiveTasks env i w = (w', Some e) \<and> state_at w' (tID (snd it)) = Some Created \<and>
    (\<forall>j. state_at w' j = Some Failed \<longrightarrow> state_at w j = Some Failed) \<and> iInits (wS w') = iInits (wS w)"
proof -
  let ?items = "ListInitiativeTasks (wS w) i"
  obtain w' r where q: "queue_all env ?items ?items w = (w', r)" by fastforce
  note f = listing_fresh [OF assms(1), of i]
  note e = queue_all_effect [OF f q]
  have r: "r \<noteq> None"
    by (rule queue_all_over_budget [OF f q assms(2)]) (use assms in \<open>simp_all add: ready_def\<close>)
  have "state_at w' (tID (snd it)) = state_at w (tID (snd it))"
  proof (rule ccontr)
    assume "state_at w' (tID (snd it)) \<noteq> state_at w (tID (snd it))"
    then obtain x k where x: "x \<in> set ?items" "lTask (fst x) = tID (snd it)" "wN w \<le> k" "\<not> over_budget env k (snd x)"
      using e by blast
    have "snd x = snd it" using listed_row(1,2) [OF x(1)] listed_row(1,2) [OF assms(2)] x(2) by simp
    with x assms(6) show False by simp
  qed
  also have "\<dots> = Some Created" using listed_row(1,2) [OF assms(2)] assms(3) by (simp add: state_at_def)
  finally have c: "state_at w' (tID (snd it)) = Some Created" .
  have "state_at w j = Some Failed" if "state_at w' j = Some Failed" for j
  proof -
    have "state_at w' j = state_at w j \<or> state_at w' j = Some Queued" using e by blast
    with that show ?thesis by auto
  qed
  with e r c q show ?thesis by (auto simp: queueReadyObjectiveTasks_def Let_def)
qed

definition late_step :: task where
  "late_step = obj_task ''t2'' ''edit'' [''research''] Created
     [''objective_time_budget_seconds'' \<mapsto> AInt 1, ''objective_deadline_at'' \<mapsto> ATime (- 5)]"

theorem exhausted_budget_is_not_recorded_witness:
  "\<exists>w' e. queueReadyObjectiveTasks obj_env0 ''n1''
       (obj_flow [obj_task ''t1'' ''research'' [] Completed Map.empty, late_step]) = (w', Some e) \<and>
     state_at w' ''t2'' = Some Created"
proof -
  let ?w = "obj_flow [obj_task ''t1'' ''research'' [] Completed Map.empty, late_step]"
  have l: "ListInitiativeTasks (wS ?w) ''n1'' =
      [(obj_link ''t1'' 0, obj_task ''t1'' ''research'' [] Completed Map.empty), (obj_link ''t2'' 1, late_step)]"
    by (simp add: late_step_def obj_eval)
  have d: "objectiveDependenciesSatisfied (tMetadata late_step) (ListInitiativeTasks (wS ?w) ''n1'')"
    unfolding l by (simp add: late_step_def objectiveDependenciesSatisfied_def dependencies_def anyStringSliceHTTPDefault_def
        anyStringSliceHTTP_def completed_item_def by_work_item_def obj_eval)
  have k: "keyed link_key (iLinks (wS ?w))" by (simp add: late_step_def obj_eval)
  have b: "over_budget obj_env0 k late_step" for k
    by (simp add: over_budget_def objectiveTimeBudgetExceeded_def objectiveTimeBudgetDetails_def objectiveAsInt_def
        late_step_def time_field_def obj_env0_def sample_env_def)
  have m: "(obj_link ''t2'' 1, late_step) \<in> set (ListInitiativeTasks (wS ?w) ''n1'')" by (simp add: l)
  show ?thesis
    using exhausted_budget_is_not_recorded [OF k m, of obj_env0] d b by (auto simp: late_step_def)
qed

end
