(* ===== verification/Objective_Repair.thy ===== *)
theory Objective_Repair
  imports Objective_Ready
begin

text \<open>
  The repair cycle: which tasks the loop supersedes (a reachability problem on the dependencies of
  one iteration), how the items of the next iteration depend on each other, why iterations run out,
  and what a whole cycle leaves behind.
\<close>

section \<open>Superseding is reachability\<close>

text \<open>
  The reference: a work item is superseded when a chain of dependencies, within the iteration of the
  failed task, leads from it to that task.
\<close>

inductive superseded_by :: "task \<Rightarrow> task list \<Rightarrow> string \<Rightarrow> bool" for t xs where
  start: "superseded_by t xs (work_id t)"
| depends: "superseded_by t xs d \<Longrightarrow> x \<in> set xs \<Longrightarrow> same_iteration t x \<Longrightarrow> d \<in> set (dependencies (tMetadata x)) \<Longrightarrow>
     superseded_by t xs (work_id x)"

lemma pass_sound:
  "supersede_pass f t xs M c w = (w', Inr (M', c')) \<Longrightarrow> set xs \<subseteq> set ys \<Longrightarrow> \<forall>d \<in> set M. superseded_by t ys d \<Longrightarrow>
     \<forall>d \<in> set M'. superseded_by t ys d"
proof (induction xs arbitrary: M c w)
  case (Cons x xs)
  show ?case
  proof (cases "marks t M x")
    case False
    with Cons show ?thesis by simp
  next
    case True
    then obtain d where d: "d \<in> set M" "d \<in> set (dependencies (tMetadata x))" and s: "same_iteration t x"
      by (auto simp: marks_def list_ex_iff)
    have x: "superseded_by t ys (work_id x)"
      by (rule superseded_by.depends [OF _ _ s d(2)]) (use Cons.prems d in auto)
    obtain w1 where "supersede_pass f t xs (work_id x # M) True w1 = (w', Inr (M', c'))"
      using Cons.prems(1) True by (auto split: if_splits prod.splits option.splits)
    then show ?thesis by (rule Cons.IH) (use Cons.prems x in auto)
  qed
qed simp

lemma pass_stable:
  "supersede_pass f t xs M c w = (w', Inr (M', False)) \<Longrightarrow> M' = M \<and> (\<forall>x \<in> set xs. \<not> marks t M x)"
proof (induction xs arbitrary: M c w)
  case (Cons x xs)
  show ?case
  proof (cases "marks t M x")
    case False
    with Cons show ?thesis by simp
  next
    case True
    then obtain w1 where "supersede_pass f t xs (work_id x # M) True w1 = (w', Inr (M', False))"
      using Cons.prems by (auto split: if_splits prod.splits option.splits)
    from supersede_pass_grows [OF this] show ?thesis by auto
  qed
qed simp

lemma stable_complete:
  assumes "\<forall>x \<in> set xs. \<not> marks t M x" and "work_id t \<in> set M" and "superseded_by t xs d"
  shows "d \<in> set M"
  using assms(3)
proof induction
  case start
  show ?case by (rule assms(2))
next
  case (depends d x)
  with assms(1) show ?case by (auto simp: marks_def list_ex_iff)
qed

section \<open>What superseding does to the tables\<close>

definition flagged :: "task \<Rightarrow> bool" where
  "flagged t \<longleftrightarrow> taskMetadataBool (tMetadata t) ''superseded_by_repair_cycle''"

lemma cancel_superseded_effect:
  assumes "task_at w (tID x) = Some u" and "supersedable (tState u)"
  shows "\<exists>w' v. cancel_superseded f n x w = (w', None) \<and> task_at w' (tID x) = Some v \<and> tState v = Cancelled \<and> flagged v \<and>
    (\<forall>j. j \<noteq> tID x \<longrightarrow> task_at w' j = task_at w j) \<and> iInits (wS w') = iInits (wS w) \<and> iLinks (wS w') = iLinks (wS w) \<and>
    wN w \<le> wN w'"
proof -
  define p where "p = [(''superseded_by_repair_cycle'', ABool True), (''superseded_iteration'', AInt (n + 1))]"
  define w1 where "w1 = patch_metadata f (tID x) p w"
  have o: "task_at w1 j = task_at w j" if "j \<noteq> tID x" for j
    using task_at_patch [of f "tID x" p w j] that by (auto simp: w1_def)
  obtain v where v: "task_at w1 (tID x) = Some v" "tState v = tState u" "flagged v"
    using assms(1) by (auto simp: w1_def p_def task_at_def patch_metadata_def GetTask_patch flagged_def taskMetadataBool_def)
  have "IsValidTransition (tState v) Cancelled" using assms(2) v by (auto simp: supersedable_def IsValidTransition_def)
  then have c: "CancelTask r k (tID x) a q (iDB (wS w1)) =
      Inr (transitionTaskStateTx r (tID x) (tState v) Cancelled a q k (iDB (wS w1)))" for r k a q
    using v by (simp add: CancelTask_def UpdateTaskState_def task_at_def)
  have g: "task_at (w1\<lparr>wS := (wS w1)\<lparr>iDB := transitionTaskStateTx r (tID x) s Cancelled a q k (iDB (wS w1))\<rparr>\<rparr>) j =
      (if j = tID x then map_option (transition_row Cancelled k) (task_at w1 j) else task_at w1 j)" for r s a q k j
    by (simp add: task_at_def GetTask_transition)
  have k: "iInits (wS w1) = iInits (wS w)" "iLinks (wS w1) = iLinks (wS w)" "wN w1 = wN w + 1"
    by (simp_all add: w1_def)
  show ?thesis
    unfolding cancel_superseded_def p_def [symmetric] w1_def [symmetric] Let_def c
    using v o by (simp add: g k flagged_def)
qed

text \<open>
  The state of the listed tasks while the loop runs: those that are marked and can be cancelled are
  cancelled, the others are as they were.
\<close>

definition swept :: "task \<Rightarrow> task list \<Rightarrow> flow \<Rightarrow> string list \<Rightarrow> flow \<Rightarrow> bool" where
  "swept t ys w0 M w \<longleftrightarrow>
     (\<forall>x \<in> set ys. if same_iteration t x \<and> work_id x \<in> set M \<and> supersedable (tState x)
        then (\<exists>v. task_at w (tID x) = Some v \<and> tState v = Cancelled \<and> flagged v)
        else task_at w (tID x) = Some x) \<and>
     (\<forall>j. j \<notin> tID ` set ys \<longrightarrow> task_at w j = task_at w0 j) \<and>
     iInits (wS w) = iInits (wS w0) \<and> iLinks (wS w) = iLinks (wS w0)"

definition clear_ids :: "task \<Rightarrow> task list \<Rightarrow> bool" where
  "clear_ids t ys \<longleftrightarrow> distinct (map tID ys) \<and> inj_on work_id {x \<in> set ys. same_iteration t x} \<and>
     (\<forall>x \<in> set ys. same_iteration t x \<longrightarrow> work_id x \<noteq> work_id t)"

lemma swept_mark:
  assumes "clear_ids t ys" and "x \<in> set ys" and "same_iteration t x" and "work_id x \<notin> set M" and "swept t ys w0 M w"
    and "\<not> supersedable (tState x) \<and> w1 = w \<or>
      supersedable (tState x) \<and> (\<exists>v. task_at w1 (tID x) = Some v \<and> tState v = Cancelled \<and> flagged v) \<and>
      (\<forall>j. j \<noteq> tID x \<longrightarrow> task_at w1 j = task_at w j) \<and> iInits (wS w1) = iInits (wS w) \<and> iLinks (wS w1) = iLinks (wS w)"
  shows "swept t ys w0 (work_id x # M) w1"
proof -
  have other: "task_at w1 (tID y) = task_at w (tID y) \<and> (same_iteration t y \<longrightarrow> work_id y \<noteq> work_id x)"
    if "y \<in> set ys" "y \<noteq> x" for y
  proof -
    have "tID y \<noteq> tID x" using assms(1,2) that by (auto simp: clear_ids_def distinct_map dest: inj_onD)
    moreover have "work_id y \<noteq> work_id x" if "same_iteration t y"
      using assms(1,2,3) \<open>y \<in> set ys\<close> \<open>y \<noteq> x\<close> that by (auto simp: clear_ids_def dest: inj_onD)
    ultimately show ?thesis using assms(6) by auto
  qed
  have row: "if same_iteration t y \<and> work_id y \<in> set (work_id x # M) \<and> supersedable (tState y)
        then (\<exists>v. task_at w1 (tID y) = Some v \<and> tState v = Cancelled \<and> flagged v)
        else task_at w1 (tID y) = Some y" if "y \<in> set ys" for y
  proof (cases "y = x")
    case True
    show ?thesis
    proof (cases "supersedable (tState x)")
      case sup: True
      then show ?thesis using assms(6) by (simp add: True assms(3))
    next
      case False
      then show ?thesis using assms(2,5,6) by (auto simp: True swept_def)
    qed
  next
    case False
    have "if same_iteration t y \<and> work_id y \<in> set M \<and> supersedable (tState y)
        then (\<exists>v. task_at w (tID y) = Some v \<and> tState v = Cancelled \<and> flagged v)
        else task_at w (tID y) = Some y" using assms(5) that by (simp add: swept_def)
    then show ?thesis using other [OF that False] by (auto split: if_splits)
  qed
  have "task_at w1 j = task_at w0 j" if "j \<notin> tID ` set ys" for j
    using assms(2,5,6) that by (auto simp: swept_def)
  moreover have "iInits (wS w1) = iInits (wS w0)" "iLinks (wS w1) = iLinks (wS w0)"
    using assms(5,6) by (auto simp: swept_def)
  ultimately show ?thesis using row by (simp add: swept_def)
qed

lemma pass_swept:
  "clear_ids t ys \<Longrightarrow> set xs \<subseteq> set ys \<Longrightarrow> swept t ys w0 M w \<Longrightarrow>
     \<exists>w' M' c'. supersede_pass f t xs M c w = (w', Inr (M', c')) \<and> swept t ys w0 M' w' \<and> wN w \<le> wN w'"
proof (induction xs arbitrary: M c w)
  case (Cons x xs)
  have sub: "set xs \<subseteq> set ys" and x: "x \<in> set ys" using Cons.prems(2) by auto
  show ?case
  proof (cases "marks t M x")
    case False
    with Cons.IH [OF Cons.prems(1) sub Cons.prems(3)] show ?thesis by simp
  next
    case True
    then have m: "same_iteration t x" "work_id x \<notin> set M" by (simp_all add: marks_def)
    show ?thesis
    proof (cases "supersedable (tState x)")
      case False
      have "swept t ys w0 (work_id x # M) w"
        by (rule swept_mark [OF Cons.prems(1) x m Cons.prems(3)]) (use False in simp)
      from Cons.IH [OF Cons.prems(1) sub this, of True] show ?thesis using True False by simp
    next
      case sup: True
      have u: "task_at w (tID x) = Some x" using Cons.prems(3) x m by (auto simp: swept_def)
      obtain w1 v where w1: "cancel_superseded f (objectiveIteration (tMetadata t)) x w = (w1, None)"
        "task_at w1 (tID x) = Some v \<and> tState v = Cancelled \<and> flagged v" "\<forall>j. j \<noteq> tID x \<longrightarrow> task_at w1 j = task_at w j"
        "iInits (wS w1) = iInits (wS w)" "iLinks (wS w1) = iLinks (wS w)" "wN w \<le> wN w1"
        using cancel_superseded_effect [OF u sup] by blast
      have "swept t ys w0 (work_id x # M) w1"
        by (rule swept_mark [OF Cons.prems(1) x m Cons.prems(3)]) (use w1 sup in auto)
      from Cons.IH [OF Cons.prems(1) sub this, of True] show ?thesis using True sup w1(1,6) by fastforce
    qed
  qed
qed simp

lemma loop_swept:
  assumes "clear_ids t ys" and "swept t ys w0 M w" and "work_id t \<in> set M" and "\<forall>d \<in> set M. superseded_by t ys d"
  shows "\<exists>w' M'. supersede_loop f t ys M w = (w', Inr M') \<and> swept t ys w0 M' w' \<and>
    (\<forall>d. d \<in> set M' \<longleftrightarrow> superseded_by t ys d) \<and> wN w \<le> wN w'"
  using assms
proof (induction f t ys M w rule: supersede_loop.induct)
  case (1 f t ys M w)
  obtain w1 M1 c where p: "supersede_pass f t ys M False w = (w1, Inr (M1, c))" "swept t ys w0 M1 w1" "wN w \<le> wN w1"
    using pass_swept [OF 1(2) order.refl 1(3)] by blast
  have s: "\<forall>d \<in> set M1. superseded_by t ys d" by (rule pass_sound [OF p(1) order.refl 1(5)])
  have i: "work_id t \<in> set M1" using supersede_pass_grows [OF p(1)] 1(4) by auto
  show ?case
  proof (cases c)
    case True
    have "\<exists>w' M'. supersede_loop f t ys M1 w1 = (w', Inr M') \<and> swept t ys w0 M' w' \<and>
        (\<forall>d. d \<in> set M' \<longleftrightarrow> superseded_by t ys d) \<and> wN w1 \<le> wN w'"
      by (rule 1(1) [of _ _ "(M1, c)" _ c]) (use p 1(2) i s True in simp_all)
    then show ?thesis using p(1,3) True by (subst supersede_loop.simps) fastforce
  next
    case False
    then have "M1 = M \<and> (\<forall>x \<in> set ys. \<not> marks t M x)" using p(1) by (auto dest: pass_stable)
    then have "d \<in> set M1 \<longleftrightarrow> superseded_by t ys d" for d using s stable_complete i by blast
    then show ?thesis using p False by (subst supersede_loop.simps) auto
  qed
qed

lemma swept_start:
  assumes "keyed link_key (iLinks (wS w))"
  shows "swept t (map snd (ListInitiativeTasks (wS w) i)) w [work_id t] w \<or>
    \<not> clear_ids t (map snd (ListInitiativeTasks (wS w) i))"
  using listed_row(1,2) by (fastforce simp: swept_def clear_ids_def)

lemma listed_ids_distinct:
  fixes w :: flow
  assumes "keyed link_key (iLinks (wS w))"
  shows "distinct (map tID (map snd (ListInitiativeTasks (wS w) i)))"
proof -
  have "map tID (map snd (ListInitiativeTasks (wS w) i)) = map (\<lambda>it. lTask (fst it)) (ListInitiativeTasks (wS w) i)"
    using listed_row(2) by auto
  then show ?thesis using listed_distinct [OF assms] by metis
qed

lemma cancelSuperseded_swept:
  assumes "keyed link_key (iLinks (wS w))" and "work_id t \<noteq> []"
    and "inj_on work_id {x \<in> snd ` set (ListInitiativeTasks (wS w) i). same_iteration t x}"
    and "\<forall>x \<in> snd ` set (ListInitiativeTasks (wS w) i). same_iteration t x \<longrightarrow> work_id x \<noteq> work_id t"
  shows "\<exists>w' M. cancelSupersededObjectiveDependents f i t w = (w', None) \<and> wN w \<le> wN w' \<and>
    swept t (map snd (ListInitiativeTasks (wS w) i)) w M w' \<and>
    (\<forall>d. d \<in> set M \<longleftrightarrow> superseded_by t (map snd (ListInitiativeTasks (wS w) i)) d)"
proof -
  let ?ys = "map snd (ListInitiativeTasks (wS w) i)"
  have c: "clear_ids t ?ys" using assms(3,4) listed_ids_distinct [OF assms(1)] by (simp add: clear_ids_def)
  have s: "swept t ?ys w [work_id t] w" using swept_start [OF assms(1)] c by blast
  have "\<forall>d \<in> set [work_id t]. superseded_by t ?ys d" by (simp add: superseded_by.start)
  from loop_swept [OF c s _ this, of f] show ?thesis
    using assms(2) by (fastforce simp: cancelSupersededObjectiveDependents_def)
qed

section \<open>Creating the tasks of an iteration\<close>

text \<open>
  \<open>links_all P i w\<close>: the tasks linked to the initiative satisfy \<open>P\<close>; for \<open>fine\<close>, none of them counts as
  failed. \<open>open_link i w\<close>: one of them is a new or queued task for an agent.
\<close>

definition fine :: "task \<Rightarrow> bool" where
  "fine t \<longleftrightarrow> tState t \<noteq> Failed \<and> (tState t = Cancelled \<longrightarrow> flagged t)"

definition links_all :: "(task \<Rightarrow> bool) \<Rightarrow> string \<Rightarrow> flow \<Rightarrow> bool" where
  "links_all P i w \<longleftrightarrow> (\<forall>l \<in> set (iLinks (wS w)). \<forall>t. lInitiative l = i \<longrightarrow> task_at w (lTask l) = Some t \<longrightarrow> P t)"

abbreviation sound_links :: "string \<Rightarrow> flow \<Rightarrow> bool" where
  "sound_links \<equiv> links_all fine"

definition open_link :: "string \<Rightarrow> flow \<Rightarrow> bool" where
  "open_link i w \<longleftrightarrow> (\<exists>l \<in> set (iLinks (wS w)). lInitiative l = i \<and> lMode l = TaskLaunchModeAgentLocal \<and>
     state_at w (lTask l) \<in> {Some Created, Some Queued})"

lemma upd_row_member: "r \<in> set rows \<Longrightarrow> key r = k \<Longrightarrow> u r \<in> set (upd_row key k u rows)"
  by (force simp: upd_row_def)

lemma CreateTask_row:
  assumes "CreateTask i c r now p d = Inr (d', t)" and "\<not> pQueueOnCreate p"
  shows "GetTask d i = None" and "GetTask d' j = (if j = i then Some (create_row i c now p) else GetTask d j)"
    and "t = Some (create_row i c now p)"
  using assms
  by (auto simp: CreateTask_def Let_def GetTask_def find_row_append create_row_def split: if_splits option.splits)

lemma materialize_item_effect:
  assumes "materialize_item f n c s idx it w = (w', Inr t)"
  shows "iInits (wS w') = iInits (wS w) \<and>
    (keyed link_key (iLinks (wS w)) \<longrightarrow> keyed link_key (iLinks (wS w'))) \<and>
    (links_all P (nID n) w \<and> (\<forall>u c' now. P (create_row u c' now (item_params n c s it))) \<longrightarrow> links_all P (nID n) w') \<and>
    (open_link (nID n) w \<or> iExecutionMode it = TaskLaunchModeAgentLocal \<longrightarrow> open_link (nID n) w')"
proof -
  let ?k = "wN w" and ?new = "eUid f (wN w)"
  obtain d where ct: "CreateTask ?new (eUid f (?k + 1)) (eUid f (?k + 2)) (eClk f ?k) (item_params n c s it) (iDB (wS w)) = Inr (d, t)"
    using assms by (auto simp: materialize_item_def Let_def split: sum.splits prod.splits)
  note row = CreateTask_row [OF ct]
  have q: "\<not> pQueueOnCreate (item_params n c s it)" by (simp add: item_params_def)
  let ?P = "\<lambda>ls. if find_row link_key (nID n, ?new) ls = None
     then ls @ [\<lparr>lID = eUid f (?k + 3), lInitiative = nID n, lTask = ?new, lPhaseOrigin = ''objective'',
        lEpic = cleanStringPtr (iKind it), lGroup = cleanStringPtr (iKind it), lMode = iExecutionMode it,
        lOrder = (idx + 1) * 10, lCreatedAt = eClk f (?k + 3)\<rparr>]
     else upd_row link_key (nID n, ?new) (\<lambda>l. l\<lparr>lPhaseOrigin := ''objective'', lEpic := cleanStringPtr (iKind it),
        lGroup := cleanStringPtr (iKind it), lMode := iExecutionMode it, lOrder := (idx + 1) * 10\<rparr>) ls"
  have w': "iInits (wS w') = iInits (wS w)" "iLinks (wS w') = ?P (iLinks (wS w))" "iDB (wS w') = d"
    using assms ct
    by (auto simp: materialize_item_def LinkInitiativeTask_def Let_def cleanStringPtr_def split: option.splits if_splits)
  have at: "task_at w' j = (if j = ?new then Some (create_row ?new (eUid f (?k + 1)) (eClk f ?k) (item_params n c s it)) else task_at w j)" for j
    using row(2) [OF q] w'(3) by (simp add: task_at_def)
  have fresh: "task_at w ?new = None" using row(1) [OF q] by (simp add: task_at_def)
  have created: "tState (create_row i c' now p) = Created" for i c' now p
    by (simp add: create_row_def)
  have old: "lTask l = ?new \<or> (\<exists>l0 \<in> set (iLinks (wS w)). lInitiative l = lInitiative l0 \<and> lTask l = lTask l0)" if "l \<in> set (?P (iLinks (wS w)))" for l
    using that by (auto split: if_splits dest!: set_upd_row)
  have kept: "\<exists>l' \<in> set (?P (iLinks (wS w))). lInitiative l' = lInitiative l \<and> lTask l' = lTask l \<and> lMode l' = lMode l"
    if "l \<in> set (iLinks (wS w))" "lTask l \<noteq> ?new" for l
    using that by (auto simp: upd_row_def image_iff intro!: bexI [of _ l])
  have added: "\<exists>l \<in> set (?P (iLinks (wS w))). lInitiative l = nID n \<and> lTask l = ?new \<and> lMode l = iExecutionMode it"
  proof (cases "find_row link_key (nID n, ?new) (iLinks (wS w))")
    case None
    then show ?thesis by simp
  next
    case (Some l)
    from find_row_SomeD [OF this] have m: "l \<in> set (iLinks (wS w))" "link_key l = (nID n, ?new)" by simp_all
    have "\<exists>l' \<in> set (upd_row link_key (nID n, ?new) (\<lambda>l. l\<lparr>lPhaseOrigin := a, lEpic := b, lGroup := e, lMode := m0, lOrder := k\<rparr>)
        (iLinks (wS w))). lInitiative l' = nID n \<and> lTask l' = ?new \<and> lMode l' = m0" for a b e m0 k
      by (rule bexI [OF _ upd_row_member [where key = link_key, OF m]]) (use m(2) in simp)
    then show ?thesis using Some by simp
  qed
  have sound: "links_all P (nID n) w'"
    if sl: "links_all P (nID n) w" and new: "\<forall>u c' now. P (create_row u c' now (item_params n c s it))"
    unfolding links_all_def w'(2)
  proof (intro ballI allI impI)
    fix l t assume l: "l \<in> set (?P (iLinks (wS w)))" "lInitiative l = nID n" "task_at w' (lTask l) = Some t"
    show "P t"
    proof (cases "lTask l = ?new")
      case True
      then show ?thesis using l(3) at [of ?new] new by auto
    next
      case False
      then obtain l0 where l0: "l0 \<in> set (iLinks (wS w))" "lInitiative l0 = nID n" "lTask l0 = lTask l"
        using old [OF l(1)] l(2) by metis
      have "task_at w (lTask l0) = Some t" using at [of "lTask l"] l(3) False l0(3) by simp
      with l0(1,2) sl show ?thesis unfolding links_all_def by blast
    qed
  qed
  have opened: "open_link (nID n) w'" if "iExecutionMode it = TaskLaunchModeAgentLocal"
  proof -
    obtain l where l: "l \<in> set (?P (iLinks (wS w)))" "lInitiative l = nID n" "lTask l = ?new" "lMode l = iExecutionMode it"
      using added by blast
    have "state_at w' (lTask l) = Some Created" using at [of ?new] created l(3) by (simp add: state_at_def)
    with l that show ?thesis unfolding open_link_def w'(2) by (intro bexI [OF _ l(1)]) simp
  qed
  have "open_link (nID n) w'" if op: "open_link (nID n) w"
  proof -
    obtain l where l: "l \<in> set (iLinks (wS w))" "lInitiative l = nID n" "lMode l = TaskLaunchModeAgentLocal"
      "state_at w (lTask l) \<in> {Some Created, Some Queued}" using op unfolding open_link_def by blast
    have new: "lTask l \<noteq> ?new" using l(4) fresh by (auto simp: state_at_def)
    obtain l' where l': "l' \<in> set (?P (iLinks (wS w)))" "lInitiative l' = nID n" "lTask l' = lTask l"
      "lMode l' = TaskLaunchModeAgentLocal" using kept [OF l(1) new] l(2,3) by auto
    have "state_at w' (lTask l') = state_at w (lTask l)" using at [of "lTask l"] new l'(3) by (simp add: state_at_def)
    with l' l(4) show ?thesis unfolding open_link_def w'(2) by (intro bexI [OF _ l'(1)]) simp
  qed
  moreover have "keyed link_key (?P (iLinks (wS w)))" if "keyed link_key (iLinks (wS w))"
    using that by (auto simp: find_row_None_iff)
  ultimately show ?thesis using w'(1,2) sound opened by simp
qed

lemma materialize_items_effect:
  "materialize_items f n c s idx items w = (w', Inr ts) \<Longrightarrow>
     iInits (wS w') = iInits (wS w) \<and>
     (keyed link_key (iLinks (wS w)) \<longrightarrow> keyed link_key (iLinks (wS w'))) \<and>
     (links_all P (nID n) w \<and> (\<forall>i \<in> set items. \<forall>u c' now. P (create_row u c' now (item_params n c s i))) \<longrightarrow>
        links_all P (nID n) w') \<and>
     (open_link (nID n) w \<or> (\<exists>i \<in> set items. iExecutionMode i = TaskLaunchModeAgentLocal) \<longrightarrow> open_link (nID n) w')"
proof (induction items arbitrary: idx w ts)
  case (Cons i items)
  obtain w1 t where m: "materialize_item f n c s idx i w = (w1, Inr t)"
    using Cons.prems by (auto split: prod.splits sum.splits)
  then obtain ts' where "materialize_items f n c s (idx + 1) items w1 = (w', Inr ts')"
    using Cons.prems by (auto split: prod.splits sum.splits)
  from Cons.IH [OF this] materialize_item_effect [OF m, of P] show ?case by auto
qed simp

lemma materialize_effect:
  assumes "materializeObjectiveWorkItems f n c w = (w', Inr ts)"
  shows "iInits (wS w') = iInits (wS w) \<and>
     (keyed link_key (iLinks (wS w)) \<longrightarrow> keyed link_key (iLinks (wS w'))) \<and>
     (links_all P (nID n) w \<and> (\<forall>i \<in> set (ecWorkItems c). \<forall>s u c' now. P (create_row u c' now (item_params n c s i))) \<longrightarrow>
        links_all P (nID n) w') \<and>
     ((\<exists>i \<in> set (ecWorkItems c). iExecutionMode i = TaskLaunchModeAgentLocal) \<longrightarrow> open_link (nID n) w')"
proof -
  have l: "links_all P (nID n) (w\<lparr>wN := k\<rparr>) = links_all P (nID n) w" for k by (simp add: links_all_def)
  obtain s where "materialize_items f n c s 0 (ecWorkItems c) (w\<lparr>wN := wN w + 1\<rparr>) = (w', Inr ts)"
    using assms by (simp add: materializeObjectiveWorkItems_def Let_def)
  from materialize_items_effect [OF this, of P] show ?thesis by (simp add: l)
qed

section \<open>Queueing after the iteration exists\<close>

lemma queue_effect:
  assumes "keyed link_key (iLinks (wS w))" and "queueReadyObjectiveTasks env i w = (w', r)"
  shows "iInits (wS w') = iInits (wS w) \<and> iLinks (wS w') = iLinks (wS w) \<and>
    (sound_links i w \<longrightarrow> sound_links i w') \<and> (open_link i w \<longrightarrow> open_link i w')"
proof -
  let ?items = "ListInitiativeTasks (wS w) i"
  have q: "queue_all env ?items ?items w = (w', r)" using assms(2) by (simp add: queueReadyObjectiveTasks_def Let_def)
  note f = listing_fresh [OF assms(1), of i]
  note e = queue_all_effect [OF f q]
  have moved: "state_at w' j = Some Queued \<and> state_at w j = Some Created \<or> state_at w' j = state_at w j \<and>
      (state_at w j \<noteq> Some Created \<longrightarrow> task_at w' j = task_at w j)" for j
  proof (cases "\<exists>it \<in> set ?items. lTask (fst it) = j \<and> ready ?items it")
    case True
    then obtain it where it: "it \<in> set ?items" "lTask (fst it) = j" "ready ?items it" by blast
    have "state_at w j = Some Created" using listed_row(1) [OF it(1)] it(2,3) by (simp add: ready_def state_at_def)
    then show ?thesis using e by (metis (no_types, lifting))
  next
    case False
    then have "task_at w' j = task_at w j" by (intro queue_all_keeps_rows [OF f q]) auto
    then show ?thesis by (simp add: state_at_def)
  qed
  have "sound_links i w'" if s: "sound_links i w"
    unfolding links_all_def
  proof (intro ballI allI impI)
    fix l t assume l: "l \<in> set (iLinks (wS w'))" "lInitiative l = i" "task_at w' (lTask l) = Some t"
    then have o: "fine u" if "task_at w (lTask l) = Some u" for u using s e that by (auto simp: links_all_def)
    show "fine t"
    proof (cases "tState t \<in> {Failed, Cancelled}")
      case False
      then show ?thesis by (auto simp: fine_def)
    next
      case True
      then have "task_at w' (lTask l) = task_at w (lTask l)" using moved [of "lTask l"] l(3) by (auto simp: state_at_def)
      with o l(3) show ?thesis by simp
    qed
  qed
  moreover have "open_link i w'" if op: "open_link i w"
  proof -
    obtain l where l: "l \<in> set (iLinks (wS w))" "lInitiative l = i" "lMode l = TaskLaunchModeAgentLocal"
      "state_at w (lTask l) \<in> {Some Created, Some Queued}" using op unfolding open_link_def by blast
    have "state_at w' (lTask l) \<in> {Some Created, Some Queued}" using moved [of "lTask l"] l(4) by auto
    with l e show ?thesis by (auto simp: open_link_def)
  qed
  ultimately show ?thesis using e by blast
qed

lemma sound_open_executing:
  fixes w :: flow
  assumes "sound_links i w" and "open_link i w"
  shows "deriveInitiativeExecutionStatus st (ListInitiativeTasks (wS w) i) = Executing"
proof -
  let ?items = "ListInitiativeTasks (wS w) i" and ?sp = "\<lambda>t. taskMetadataBool (tMetadata t) ''superseded_by_repair_cycle''"
  have "\<not> counts_failed ?sp it" if "it \<in> set ?items" for it
    using listed_row [OF that] assms(1)
    by (auto simp: links_all_def fine_def flagged_def counts_failed_def)
  then have f: "\<not> list_ex (counts_failed ?sp) ?items" by (simp add: list_ex_iff)
  obtain l t where l: "l \<in> set (iLinks (wS w))" "lInitiative l = i" "lMode l = TaskLaunchModeAgentLocal"
    "task_at w (lTask l) = Some t" "tState t \<in> {Created, Queued}" using assms(2) by (auto simp: open_link_def state_at_def)
  have m: "(l, t) \<in> set ?items"
    using l by (auto simp: ListInitiativeTasks_def List.map_filter_def task_at_def intro!: image_eqI [of _ _ l])
  have "counts_running (l, t)" using l by (auto simp: counts_running_def pending_manual_def mode_defs)
  with m have "list_ex counts_running ?items" by (auto simp: list_ex_iff)
  moreover have "?items \<noteq> []" using m by auto
  ultimately show ?thesis using f by (simp add: deriveInitiativeExecutionStatus_def derive_status_cases)
qed

lemma swept_row:
  "swept t ys w0 M w \<Longrightarrow> x \<in> set ys \<Longrightarrow>
     if same_iteration t x \<and> work_id x \<in> set M \<and> supersedable (tState x)
     then (\<exists>v. task_at w (tID x) = Some v \<and> tState v = Cancelled \<and> flagged v) else task_at w (tID x) = Some x"
  by (simp add: swept_def)

lemma swept_links:
  fixes w :: flow
  assumes "swept t (map snd (ListInitiativeTasks (wS w) i)) w M w'"
    and "\<forall>it \<in> set (ListInitiativeTasks (wS w) i). P (snd it)" and "\<And>v. tState v = Cancelled \<Longrightarrow> flagged v \<Longrightarrow> P v"
  shows "links_all P i w'"
  unfolding links_all_def
proof (intro ballI allI impI)
  let ?ys = "map snd (ListInitiativeTasks (wS w) i)"
  fix l u assume "l \<in> set (iLinks (wS w'))" and i: "lInitiative l = i" and u: "task_at w' (lTask l) = Some u"
  then have l: "l \<in> set (iLinks (wS w))" using assms(1) by (simp add: swept_def)
  have ids: "lTask l \<in> tID ` set ?ys"
  proof (rule ccontr)
    assume n: "lTask l \<notin> tID ` set ?ys"
    then have "task_at w (lTask l) = Some u" using assms(1) u by (simp add: swept_def)
    then have m: "(l, u) \<in> set (ListInitiativeTasks (wS w) i)"
      using l i by (auto simp: ListInitiativeTasks_def List.map_filter_def task_at_def intro!: image_eqI [of _ _ l])
    from listed_row(2) [OF m] m n show False by (auto simp: image_iff)
  qed
  obtain x where x0: "lTask l = tID x" "x \<in> set ?ys" using ids by (rule imageE)
  then have x: "x \<in> set ?ys" "tID x = lTask l" by simp_all
  have "P x" using x assms(2) by auto
  moreover have "if same_iteration t x \<and> work_id x \<in> set M \<and> supersedable (tState x)
      then (\<exists>v. task_at w' (tID x) = Some v \<and> tState v = Cancelled \<and> flagged v) else task_at w' (tID x) = Some x"
    by (rule swept_row [OF assms(1) x(1)])
  ultimately show "P u" using x(2) u assms(3) by (auto split: if_splits)
qed

section \<open>The cycle starts\<close>

lemma materialize_item_ok:
  assumes "task_at w (eUid f (wN w)) = None"
  shows "\<exists>w' t. materialize_item f n c s idx i w = (w', Inr t) \<and> wN w' = wN w + 4 \<and>
    (\<forall>j. j \<noteq> eUid f (wN w) \<longrightarrow> task_at w' j = task_at w j)"
  using assms
  by (auto simp: materialize_item_def CreateTask_def item_params_def Let_def task_at_def GetTask_def find_row_append
      LinkInitiativeTask_def create_row_def split: prod.splits option.splits)

lemma materialize_items_ok:
  assumes "inj (eUid f)" and "\<forall>k \<ge> wN w. task_at w (eUid f k) = None"
  shows "\<exists>w' ts. materialize_items f n c s idx items w = (w', Inr ts) \<and> wN w \<le> wN w'"
  using assms
proof (induction items arbitrary: idx w)
  case (Cons i items)
  obtain w1 t where m: "materialize_item f n c s idx i w = (w1, Inr t)" "wN w1 = wN w + 4"
    "\<forall>j. j \<noteq> eUid f (wN w) \<longrightarrow> task_at w1 j = task_at w j"
    using materialize_item_ok [of w f] Cons.prems(2) by blast
  have "task_at w1 (eUid f k) = None" if "wN w1 \<le> k" for k
  proof -
    have "eUid f k \<noteq> eUid f (wN w)" using that m(2) injD [OF Cons.prems(1)] by fastforce
    then show ?thesis using m(2,3) that Cons.prems(2) by simp
  qed
  with Cons.IH [OF Cons.prems(1), of w1 "idx + 1"] obtain w2 ts where
    "materialize_items f n c s (idx + 1) items w1 = (w2, Inr ts)" "wN w1 \<le> wN w2" by auto
  then show ?case using m by (auto split: option.split)
qed simp

text \<open>
  \<open>carries_budget\<close>: the metadata names the objective's budget, as that of every materialized task does.
  The tasks of the next iteration then have the same deadline.
\<close>

definition carries_budget :: "any_map \<Rightarrow> bool" where
  "carries_budget m \<longleftrightarrow> m ''objective_time_budget_seconds'' \<noteq> None \<and>
     (0 < objectiveAsInt (m ''objective_time_budget_seconds'') 0 \<longrightarrow>
        (case time_field (\<lambda>_. None) (m ''objective_deadline_at'') of None \<Rightarrow> False | Some _ \<Rightarrow> True))"

lemma objectiveAsInt_json [simp]: "objectiveAsInt (map_option json_rt v) d = objectiveAsInt v d"
  by (cases v; simp add: objectiveAsInt_def; rename_tac a; case_tac a; simp)

lemma time_field_json [simp]: "time_field parse (map_option json_rt v) = time_field parse v"
  by (cases v; simp add: time_field_def asString_def; rename_tac a; case_tac a; simp add: Let_def asString_def)

lemma time_field_present: "time_field p v = None \<longleftrightarrow> time_field q v = None"
  by (cases v; simp add: time_field_def Let_def; rename_tac a; case_tac a; simp add: Let_def)

lemma item_metadata_kept:
  assumes "k \<notin> dom (item_fields c i)" and "k \<noteq> ''tool_request''" and "iMetadata i k = Some v"
  shows "item_metadata c s i k = Some v"
  using assms by (auto simp: item_metadata_def Let_def map_add_def dom_def split: option.splits)

lemma item_fields_dom:
  "k \<in> {''objective_time_budget_seconds'', ''objective_deadline_at'', ''objective_started_at'', ''objective_iteration'',
      ''objective_max_iterations''} \<Longrightarrow> k \<notin> dom (item_fields c i)"
  by (auto simp: item_fields_def)

lemma plan_item_inherits:
  assumes "i \<in> set (plan_items (repair_plan_of c t r))"
    and "k \<in> {''objective_time_budget_seconds'', ''objective_deadline_at'', ''objective_started_at''}"
  shows "iMetadata i k = tMetadata t k"
proof -
  obtain ps where "rpBase (repair_plan_of c t r) = repair_metadata t r ps" using rpBase_repair by blast
  then show ?thesis using plan_item_metadata [OF assms(1), of k] repair_metadata_other [of k t r ps] assms(2) by auto
qed

lemma budget_entrypoint [simp]:
  "objectiveTimeBudgetDetails parse (m(''entrypoint'' \<mapsto> v)) = objectiveTimeBudgetDetails parse m"
  by (simp add: objectiveTimeBudgetDetails_def Let_def cong: if_cong option.case_cong)

lemma item_budget:
  assumes "i \<in> set (plan_items (repair_plan_of c t r))" and "carries_budget (tMetadata t)"
  shows "objectiveTimeBudgetDetails parse (json_map (item_metadata c' s i)) = objectiveTimeBudgetDetails parse (tMetadata t)"
proof -
  let ?m = "item_metadata c' s i"
  have kept: "?m k = tMetadata t k"
    if key: "k \<in> {''objective_time_budget_seconds'', ''objective_deadline_at''}" and present: "tMetadata t k \<noteq> None" for k
  proof -
    obtain v where v: "tMetadata t k = Some v" using present by auto
    have "iMetadata i k = Some v" using plan_item_inherits [OF assms(1), of k] key v by auto
    then show ?thesis using item_metadata_kept [OF item_fields_dom] key v by auto
  qed
  have b: "?m ''objective_time_budget_seconds'' = tMetadata t ''objective_time_budget_seconds''"
    using kept assms(2) by (simp add: carries_budget_def)
  have d: "tMetadata t ''objective_deadline_at'' \<noteq> None \<and> time_field parse (tMetadata t ''objective_deadline_at'') \<noteq> None"
    if "0 < objectiveAsInt (tMetadata t ''objective_time_budget_seconds'') 0"
    using assms(2) that time_field_present [of parse "tMetadata t ''objective_deadline_at''" "\<lambda>_. None"]
    by (auto simp: carries_budget_def time_field_def asString_def split: option.splits)
  show ?thesis
  proof (cases "0 < objectiveAsInt (tMetadata t ''objective_time_budget_seconds'') 0")
    case False
    then show ?thesis by (simp add: objectiveTimeBudgetDetails_def json_map_def b)
  next
    case True
    have "?m ''objective_deadline_at'' = tMetadata t ''objective_deadline_at''" using kept d [OF True] by simp
    then show ?thesis using d [OF True] by (auto simp: objectiveTimeBudgetDetails_def json_map_def b Let_def split: option.splits)
  qed
qed

definition in_time :: "obj_env \<Rightarrow> nat \<Rightarrow> task \<Rightarrow> bool" where
  "in_time env k0 t \<longleftrightarrow> (tState t = Created \<longrightarrow> (\<forall>k \<ge> k0. \<not> over_budget env k t))"

lemma swept_fresh:
  fixes w :: flow
  assumes "swept t (map snd (ListInitiativeTasks (wS w) i)) w M w'" and "task_at w j = None"
  shows "task_at w' j = None"
proof -
  have "j \<notin> tID ` set (map snd (ListInitiativeTasks (wS w) i))"
  proof
    assume "j \<in> tID ` set (map snd (ListInitiativeTasks (wS w) i))"
    then obtain it where it: "it \<in> set (ListInitiativeTasks (wS w) i)" "j = tID (snd it)" by auto
    from listed_row(1,2) [OF it(1)] it(2) assms(2) show False by simp
  qed
  then show ?thesis using assms by (simp add: swept_def)
qed

section \<open>Properties of superseding\<close>

text \<open>
  C17: starting a repair cycle cancels exactly the tasks of the failed task's iteration that depend on it,
  directly or through other tasks, and that are still \<open>created\<close>, \<open>queued\<close>, \<open>assigned\<close> or
  \<open>waiting_approval\<close>; the loop over the listing ends and finds the same tasks as the reference, which
  follows the dependencies. Each cancelled task carries the flag that keeps it from blocking the
  initiative; every other task, the initiatives and the links are untouched.
\<close>

theorem superseding_is_reachability:
  assumes "keyed link_key (iLinks (wS w))" and "work_id t \<noteq> []"
    and "inj_on work_id {x \<in> snd ` set (ListInitiativeTasks (wS w) i). same_iteration t x}"
    and "\<forall>x \<in> snd ` set (ListInitiativeTasks (wS w) i). same_iteration t x \<longrightarrow> work_id x \<noteq> work_id t"
  shows "\<exists>w'. cancelSupersededObjectiveDependents f i t w = (w', None) \<and>
    (\<forall>x \<in> snd ` set (ListInitiativeTasks (wS w) i).
       if same_iteration t x \<and> superseded_by t (map snd (ListInitiativeTasks (wS w) i)) (work_id x) \<and> supersedable (tState x)
       then (\<exists>v. task_at w' (tID x) = Some v \<and> tState v = Cancelled \<and>
              taskMetadataBool (tMetadata v) ''superseded_by_repair_cycle'')
       else task_at w' (tID x) = Some x) \<and>
    (\<forall>j. j \<notin> tID ` snd ` set (ListInitiativeTasks (wS w) i) \<longrightarrow> task_at w' j = task_at w j) \<and>
    iInits (wS w') = iInits (wS w) \<and> iLinks (wS w') = iLinks (wS w)"
proof -
  obtain w' M where r: "cancelSupersededObjectiveDependents f i t w = (w', None)"
    "swept t (map snd (ListInitiativeTasks (wS w) i)) w M w'"
    "\<forall>d. d \<in> set M \<longleftrightarrow> superseded_by t (map snd (ListInitiativeTasks (wS w) i)) d"
    using cancelSuperseded_swept [OF assms] by blast
  then show ?thesis by (intro exI [of _ w']) (auto simp: swept_def flagged_def split: if_splits)
qed

definition failed_check :: task where
  "failed_check = obj_task ''t1'' ''validate'' [''edit''] Completed Map.empty"

definition four_steps :: "task list" where
  "four_steps = [failed_check, obj_task ''t2'' ''review'' [''validate''] Created Map.empty,
     obj_task ''t3'' ''notes'' [''review''] Queued Map.empty, obj_task ''t4'' ''lint'' [] Created Map.empty]"

lemma four_steps_listed: "map snd (ListInitiativeTasks (wS (obj_flow four_steps)) ''n1'') = four_steps"
  by (simp add: four_steps_def failed_check_def obj_eval)

lemma four_steps_keyed: "keyed link_key (iLinks (wS (obj_flow four_steps)))"
  by (simp add: four_steps_def failed_check_def obj_eval)

lemmas step_eval = same_iteration_def work_id_def trimmed_def objectiveIteration_def objectiveAsInt_def Let_def
  TrimSpace_solid solid_def visible_def dependencies_def anyStringSliceHTTPDefault_def anyStringSliceHTTP_def

lemma four_steps_ids:
  "work_id failed_check = ''validate''"
  "{x \<in> set four_steps. same_iteration failed_check x} = set (tl four_steps)"
  "map work_id (tl four_steps) = [''review'', ''notes'', ''lint'']"
  by (auto simp: four_steps_def failed_check_def step_eval)

lemma four_steps_superseded:
  "superseded_by failed_check four_steps ''review''" "superseded_by failed_check four_steps ''notes''"
  "\<not> superseded_by failed_check four_steps ''lint''"
proof -
  let ?r = "obj_task ''t2'' ''review'' [''validate''] Created Map.empty"
  let ?n = "obj_task ''t3'' ''notes'' [''review''] Queued Map.empty"
  have v: "superseded_by failed_check four_steps ''validate''"
    using superseded_by.start [of failed_check four_steps] by (simp add: four_steps_ids)
  have "superseded_by failed_check four_steps (work_id ?r)"
    by (rule superseded_by.depends [OF v]) (simp_all add: four_steps_def failed_check_def step_eval)
  then show r: "superseded_by failed_check four_steps ''review''" by (simp add: step_eval)
  have "superseded_by failed_check four_steps (work_id ?n)"
    by (rule superseded_by.depends [OF r]) (simp_all add: four_steps_def failed_check_def step_eval)
  then show "superseded_by failed_check four_steps ''notes''" by (simp add: step_eval)
  have "superseded_by failed_check four_steps d \<Longrightarrow> d \<noteq> ''lint''" for d
    by (induction rule: superseded_by.induct) (auto simp: four_steps_def failed_check_def step_eval)
  then show "\<not> superseded_by failed_check four_steps ''lint''" by blast
qed

theorem superseding_is_reachability_witness:
  "\<exists>w' v. cancelSupersededObjectiveDependents sample_env ''n1'' failed_check (obj_flow four_steps) = (w', None) \<and>
     task_at w' ''t3'' = Some v \<and> tState v = Cancelled \<and>
     task_at w' ''t4'' = Some (obj_task ''t4'' ''lint'' [] Created Map.empty)"
proof -
  have l: "snd ` set (ListInitiativeTasks (wS (obj_flow four_steps)) ''n1'') = set four_steps"
    using arg_cong [OF four_steps_listed, of set] by simp
  have i: "inj_on work_id {x \<in> set four_steps. same_iteration failed_check x}"
    using four_steps_ids(3) distinct_map [of work_id "tl four_steps"] by (simp add: four_steps_ids(2))
  have n: "\<forall>x \<in> set four_steps. same_iteration failed_check x \<longrightarrow> work_id x \<noteq> work_id failed_check"
  proof (intro ballI impI)
    fix x assume "x \<in> set four_steps" "same_iteration failed_check x"
    then have "work_id x \<in> set (map work_id (tl four_steps))" using four_steps_ids(2) by (auto simp del: list.map_sel)
    then show "work_id x \<noteq> work_id failed_check" unfolding four_steps_ids(1,3) by auto
  qed
  have "work_id failed_check \<noteq> []" by (simp add: four_steps_ids)
  from superseding_is_reachability [OF four_steps_keyed this, of "''n1''" sample_env, unfolded l, OF i n]
  obtain w' where w': "cancelSupersededObjectiveDependents sample_env ''n1'' failed_check (obj_flow four_steps) = (w', None)"
    "\<forall>x \<in> set four_steps. if same_iteration failed_check x \<and> superseded_by failed_check four_steps (work_id x) \<and>
         supersedable (tState x)
       then (\<exists>v. task_at w' (tID x) = Some v \<and> tState v = Cancelled \<and> taskMetadataBool (tMetadata v) ''superseded_by_repair_cycle'')
       else task_at w' (tID x) = Some x" unfolding four_steps_listed by blast
  have n: "obj_task ''t3'' ''notes'' [''review''] Queued Map.empty \<in> set four_steps"
    and m: "obj_task ''t4'' ''lint'' [] Created Map.empty \<in> set four_steps" by (simp_all add: four_steps_def)
  have "same_iteration failed_check (obj_task ''t3'' ''notes'' [''review''] Queued Map.empty)"
    by (simp add: failed_check_def step_eval)
  moreover have "work_id (obj_task ''t3'' ''notes'' [''review''] Queued Map.empty) = ''notes''"
    "work_id (obj_task ''t4'' ''lint'' [] Created Map.empty) = ''lint''" by (simp_all add: step_eval)
  ultimately show ?thesis
    using w'(1) bspec [OF w'(2) n] bspec [OF w'(2) m] four_steps_superseded by (auto simp: supersedable_def)
qed

text \<open>
  C18: a repair cycle starts and keeps the initiative alive. When the initiative exists, the contract of
  the task decodes, a workspace is known, fresh identifiers are fresh, Redis answers, nothing is over
  its time budget and no task of the initiative had failed, then the call succeeds: the rest of the
  iteration is superseded, the next one is created, its first task is queued, and the status derived
  from the tasks is \<open>executing\<close>, since none of the cancelled tasks counts as a failure.
\<close>

theorem repair_cycle_keeps_the_initiative_running:
  assumes "shouldStartObjectiveRepairCycle (oParse env) (eClk (oF env) (wN w)) t r" and "tInitiativeID t = Some i"
    and "GetInitiative (wS w) i = Some n"
    and "decodeObjectiveExecutionContract (tMetadata t ''execution_contract'') = (c, None)"
    and "firstNonEmptyString [TrimSpace (ecWorkspaceRoot c), trimmed (tMetadata t) ''workspace_root''] \<noteq> []"
    and "inj (eUid (oF env))" and "\<forall>k \<ge> wN w. task_at w (eUid (oF env) k) = None" and "eRedisUp (oF env)"
    and "carries_budget (tMetadata t)"
    and "\<forall>k \<ge> wN w. \<not> objectiveTimeBudgetExceeded (oParse env) (tMetadata t) (eClk (oF env) k)"
    and "\<forall>it \<in> set (ListInitiativeTasks (wS w) i). fine (snd it) \<and> in_time env (wN w) (snd it)"
    and "keyed link_key (iLinks (wS w))" and "work_id t \<noteq> []"
    and "inj_on work_id {x \<in> snd ` set (ListInitiativeTasks (wS w) i). same_iteration t x}"
    and "\<forall>x \<in> snd ` set (ListInitiativeTasks (wS w) i). same_iteration t x \<longrightarrow> work_id x \<noteq> work_id t"
  shows "\<exists>w'. startObjectiveRepairCycle env t r w = (w', None) \<and>
    deriveInitiativeExecutionStatus st (ListInitiativeTasks (wS w') i) = Executing \<and> iInits (wS w') = iInits (wS w)"
proof -
  let ?f = "oF env" and ?w = "w\<lparr>wN := wN w + 1\<rparr>"
  define items where "items = plan_items (repair_plan_of c t r)"
  define c' where "c' = c\<lparr>ecWorkItems := items\<rparr>"
  have le: "\<not> objectiveMaxIterations (tMetadata t) \<le> objectiveIteration (tMetadata t)"
    using assms(1) by (auto simp: shouldStartObjectiveRepairCycle_def split: if_splits)
  have b: "buildObjectiveRepairCycle c t r = Inr items"
    using assms(5) by (simp add: buildObjectiveRepairCycle_def items_def repair_plan_of_def Let_def)
  have ni: "nID n = i" by (rule GetInitiative_id [OF assms(3)])
  obtain w1 M where w1: "cancelSupersededObjectiveDependents ?f i t ?w = (w1, None)" "wN ?w \<le> wN w1"
    and s1: "swept t (map snd (ListInitiativeTasks (wS ?w) i)) ?w M w1"
    using cancelSuperseded_swept [of ?w t i ?f] assms(12-15) by auto
  have sound1: "links_all fine i w1"
    by (rule swept_links [OF s1]) (use assms(11) in \<open>auto simp: fine_def\<close>)
  have time1: "links_all (in_time env (wN w)) i w1"
    by (rule swept_links [OF s1]) (use assms(11) in \<open>auto simp: in_time_def\<close>)
  have k1: "keyed link_key (iLinks (wS w1))" "iInits (wS w1) = iInits (wS w)" using s1 assms(12) by (simp_all add: swept_def)
  have fresh1: "task_at w1 (eUid ?f k) = None" if "wN w \<le> k" for k
    by (rule swept_fresh [OF s1]) (use assms(7) that in simp)
  obtain w2 ts where w2: "materializeObjectiveWorkItems ?f n c' w1 = (w2, Inr ts)" "wN w1 \<le> wN w2"
  proof -
    have "\<forall>k \<ge> wN (w1\<lparr>wN := wN w1 + 1\<rparr>). task_at (w1\<lparr>wN := wN w1 + 1\<rparr>) (eUid ?f k) = None"
      using fresh1 w1(2) by (simp add: task_at_def)
    from materialize_items_ok [OF assms(6) this] obtain w2 ts where
      "materialize_items ?f n c' (if nCreatedAt n = 0 then eClk ?f (wN w1) else nCreatedAt n) 0 (ecWorkItems c')
         (w1\<lparr>wN := wN w1 + 1\<rparr>) = (w2, Inr ts)" "wN (w1\<lparr>wN := wN w1 + 1\<rparr>) \<le> wN w2" by blast
    then show thesis by (intro that [of w2 ts]) (auto simp: materializeObjectiveWorkItems_def Let_def)
  qed
  have new_fine: "fine (create_row u k now p)" for u k now p by (simp add: fine_def create_row_def)
  have new_time: "in_time env (wN w) (create_row u k now (item_params n c' s x))" if "x \<in> set items" for u k now s x
  proof -
    have "tMetadata (create_row u k now (item_params n c' s x)) =
        (json_map (item_metadata c' s x))(''entrypoint'' \<mapsto> AStr ''objectives'')"
      by (simp add: create_row_def create_metadata_def item_params_def Let_def)
    then have "objectiveTimeBudgetDetails (oParse env) (tMetadata (create_row u k now (item_params n c' s x))) =
        objectiveTimeBudgetDetails (oParse env) (tMetadata t)"
      using item_budget [of x c t r "oParse env" c' s] that assms(9) by (simp add: items_def)
    then show ?thesis
      using assms(10) by (simp add: in_time_def over_budget_def objectiveTimeBudgetExceeded_def)
  qed
  have ex: "\<exists>x \<in> set (ecWorkItems c'). iExecutionMode x = TaskLaunchModeAgentLocal"
    using plan_items_review_last(1) plan_item_runs_locally by (auto simp: c'_def items_def)
  have sound2: "links_all fine i w2" and open2: "open_link i w2" and k2: "keyed link_key (iLinks (wS w2))"
    and i2: "iInits (wS w2) = iInits (wS w)"
    using materialize_effect [OF w2(1), of fine] ex sound1 k1 new_fine by (simp_all add: ni)
  have time2: "links_all (in_time env (wN w)) i w2"
    using materialize_effect [OF w2(1), of "in_time env (wN w)"] time1 new_time by (simp add: ni c'_def)
  have "in_time env (wN w) (snd it)" if "it \<in> set (ListInitiativeTasks (wS w2) i)" for it
    using listed_row [OF that] time2 by (auto simp: links_all_def)
  then have budget2: "\<forall>it \<in> set (ListInitiativeTasks (wS w2) i). tState (snd it) = Created \<longrightarrow>
      (\<forall>k \<ge> wN w2. \<not> over_budget env k (snd it))" using w1(2) w2(2) by (simp add: in_time_def)
  obtain w' where w3: "queueReadyObjectiveTasks env i w2 = (w', None)"
  proof -
    obtain w' r' where q: "queue_all env (ListInitiativeTasks (wS w2) i) (ListInitiativeTasks (wS w2) i) w2 = (w', r')" by fastforce
    from queue_all_in_budget [OF listing_fresh [OF k2] q assms(8) budget2] q show thesis
      by (intro that) (simp add: queueReadyObjectiveTasks_def Let_def)
  qed
  have "startObjectiveRepairCycle env t r w = (w', None)"
    using w1 w2(1) w3 by (simp add: startObjectiveRepairCycle_def Let_def assms(1-4) le b ni c'_def)
  moreover have "links_all fine i w'" "open_link i w'" "iInits (wS w') = iInits (wS w)"
    using queue_effect [OF k2 w3] sound2 open2 i2 by simp_all
  ultimately show ?thesis by (auto simp: sound_open_executing)
qed

definition rejected_check :: task where
  "rejected_check = obj_task ''t1'' ''validate'' [''edit''] Completed
     [''work_item_kind'' \<mapsto> AStr ''validate'', ''execution_contract'' \<mapsto> AMap [''workspace_root'' \<mapsto> AStr ''/w''],
      ''objective_time_budget_seconds'' \<mapsto> AInt 0]"

definition check_result :: bridge_result where
  "check_result = \<lparr>rsStatus = ''failed'', rsSummary = None, rsStdout = None, rsStderr = None, rsExitCode = None,
     rsDiff = None, rsChangedFiles = [], rsTestResults = Map.empty, rsArtifacts = [], rsErrorMessage = None,
     rsActionType = None, rsTargetResource = None, rsTimeoutSeconds = None, rsReviewDecision = None,
     rsReviewComments = [], rsFindings = [], rsCapabilityUsage = [], rsCapabilityHelped = [],
     rsCapabilityNoise = [], rsCapabilityDenied = []\<rparr>"

definition rejected_flow :: flow where
  "rejected_flow = obj_flow [rejected_check, obj_task ''t2'' ''review'' [''validate''] Created Map.empty]"

lemma rejected_flow_listed:
  "ListInitiativeTasks (wS rejected_flow) ''n1'' =
     [(obj_link ''t1'' 0, rejected_check), (obj_link ''t2'' 1, obj_task ''t2'' ''review'' [''validate''] Created Map.empty)]"
  by (simp add: rejected_flow_def rejected_check_def obj_eval)

lemma rejected_check_repairs:
  "shouldStartObjectiveRepairCycle (oParse obj_env0) (eClk (oF obj_env0) (wN rejected_flow)) rejected_check check_result"
  by (simp add: shouldStartObjectiveRepairCycle_def rejected_check_def objectiveAsBool_def objectiveTimeBudgetExceeded_def
      objectiveTimeBudgetDetails_def objectiveAsInt_def objectiveMaxIterations_def objectiveIteration_def
      defaultObjectiveMaxIterations_def kind_defs trimmed_def result_status_def check_result_def TrimSpace_solid
      solid_def visible_def fold_char_def Let_def)

theorem repair_cycle_keeps_the_initiative_running_witness:
  "\<exists>w'. startObjectiveRepairCycle obj_env0 rejected_check check_result rejected_flow = (w', None) \<and>
     deriveInitiativeExecutionStatus Blocked (ListInitiativeTasks (wS w') ''n1'') = Executing"
proof -
  note s = rejected_check_repairs
  have i: "tInitiativeID rejected_check = Some ''n1''" by (simp add: rejected_check_def)
  have g: "GetInitiative (wS rejected_flow) ''n1'' = Some (sample_initiative Executing ExecutionPhase)"
    by (simp add: rejected_flow_def GetInitiative_def sample_initiative_def)
  have m: "json_rt (AMap [''workspace_root'' \<mapsto> AStr ''/w'']) = AMap [''workspace_root'' \<mapsto> AStr ''/w'']"
    by (simp add: fun_eq_iff)
  define c where "c = contract_of [''workspace_root'' \<mapsto> AStr ''/w'']"
  have d: "decodeObjectiveExecutionContract (tMetadata rejected_check ''execution_contract'') = (c, None)"
    by (simp add: decodeObjectiveExecutionContract_def rejected_check_def m c_def contract_ok_def bool_ok_def del: json_rt.simps)
  have w: "firstNonEmptyString [TrimSpace (ecWorkspaceRoot c), trimmed (tMetadata rejected_check) ''workspace_root''] \<noteq> []"
    by (simp add: c_def contract_of_def TrimSpace_solid solid_def visible_def)
  have u: "inj (eUid (oF obj_env0))"
    by (auto simp: obj_env0_def sample_env_def inj_on_def dest: arg_cong [of _ _ length])
  have f: "\<forall>k \<ge> wN rejected_flow. task_at rejected_flow (eUid (oF obj_env0) k) = None"
    by (auto simp: rejected_flow_def rejected_check_def obj_flow_def obj_env0_def sample_env_def task_at_def GetTask_def
        Cons_replicate_eq)
  have b: "carries_budget (tMetadata rejected_check)" by (simp add: carries_budget_def rejected_check_def objectiveAsInt_def)
  have e: "\<forall>k \<ge> wN rejected_flow. \<not> objectiveTimeBudgetExceeded (oParse obj_env0) (tMetadata rejected_check)
      (eClk (oF obj_env0) k)"
    by (simp add: objectiveTimeBudgetExceeded_def objectiveTimeBudgetDetails_def rejected_check_def objectiveAsInt_def)
  have l: "\<forall>it \<in> set (ListInitiativeTasks (wS rejected_flow) ''n1''). fine (snd it) \<and>
      in_time obj_env0 (wN rejected_flow) (snd it)"
    unfolding rejected_flow_listed
    by (simp add: fine_def in_time_def over_budget_def rejected_check_def objectiveTimeBudgetExceeded_def
        objectiveTimeBudgetDetails_def objectiveAsInt_def)
  have k: "keyed link_key (iLinks (wS rejected_flow))" by (simp add: rejected_flow_def rejected_check_def obj_eval)
  have x: "{x \<in> snd ` set (ListInitiativeTasks (wS rejected_flow) ''n1''). same_iteration rejected_check x} =
      {obj_task ''t2'' ''review'' [''validate''] Created Map.empty}"
    unfolding rejected_flow_listed by (auto simp: rejected_check_def step_eval)
  have j: "inj_on work_id {x \<in> snd ` set (ListInitiativeTasks (wS rejected_flow) ''n1''). same_iteration rejected_check x}"
    unfolding x by simp
  have n: "\<forall>x \<in> snd ` set (ListInitiativeTasks (wS rejected_flow) ''n1''). same_iteration rejected_check x \<longrightarrow>
      work_id x \<noteq> work_id rejected_check"
    unfolding rejected_flow_listed by (simp add: rejected_check_def step_eval)
  have v: "work_id rejected_check \<noteq> []" by (simp add: rejected_check_def step_eval)
  have r: "eRedisUp (oF obj_env0)" by (simp add: obj_env0_def sample_env_def)
  show ?thesis
    using repair_cycle_keeps_the_initiative_running [OF s i g d w u f r b e l k v j n] by blast
qed

end
