(* ===== verification/Objective_Cycle.thy ===== *)
theory Objective_Cycle
  imports Objective_Repair
begin

text \<open>
  What a repair cycle looks like and why there are only finitely many: the stored contract decodes to
  itself, the items of a cycle form a pipeline that ends in the review, and a chain of cycles is as
  long as the retries the first task has left.
\<close>

section \<open>Contracts in storage\<close>

lemma json_map_idem [simp]: "json_map (json_map m) = json_map m"
  by (simp add: json_map_def fun_eq_iff option.map_comp comp_def)

lemma json_map_eq_empty [simp]: "json_map m = Map.empty \<longleftrightarrow> m = Map.empty"
  by (simp add: json_map_def fun_eq_iff)

lemma normal_item_idem: "normal_item (normal_item i) = normal_item i"
  by (cases "iToolRequest i") (simp_all add: normal_item_def)

text \<open>
  C19: the contract that every materialized task stores in its metadata decodes without an error to the
  contract the task was made from; only the free-form maps of the work items change, to the form they
  have in JSON, and an empty tool request is dropped. Decoding once more changes nothing.
\<close>

theorem contract_survives_storage:
  "decodeObjectiveExecutionContract (json_map (item_metadata c s i) ''execution_contract'') = (normal_contract c, None) \<and>
   decodeObjectiveExecutionContract (Some (contract_json (normal_contract c))) = (normal_contract c, None)"
proof -
  have lists: "list_all (obj_ok scope_ok) (map scope_json hs)" "list_all (obj_ok work_item_ok) (map work_item_json js)" for hs js
    by (simp_all add: list_all_iff scope_json_ok work_item_json_ok)
  have parts: "contract_of (dec_obj (contract_json d)) = normal_contract d \<and> obj_ok contract_ok (contract_json d)" for d
    by (simp add: contract_json_def contract_of_def contract_ok_def normal_contract_def comp_def scope_back work_item_back lists)
  have dec: "decodeObjectiveExecutionContract (Some (contract_json d)) = (normal_contract d, None)" for d
    using parts [of d] by (simp add: decodeObjectiveExecutionContract_def) (simp add: contract_json_def)
  have "item_metadata c s i ''execution_contract'' = Some (contract_json c)"
    by (simp add: item_metadata_def item_fields_def Let_def split: option.split)
  moreover have "normal_contract (normal_contract d) = normal_contract d" for d
    by (simp add: normal_contract_def normal_item_idem comp_def)
  ultimately show ?thesis by (simp add: dec json_map_def)
qed

section \<open>The shape of a cycle\<close>

text \<open>
  C20: the items of a repair cycle form one pipeline. Every dependency of an item names an earlier
  item, the last item is the review, the review waits for every other item, directly or through the
  chain of edits and the validation, and the first item, the replan, waits for nothing; so the tasks
  can be queued one after the other and the cycle is decided by its review.
\<close>

theorem repair_cycle_is_a_pipeline:
  assumes "buildObjectiveRepairCycle c t r = Inr items"
  shows "declared_before {} items \<and> iKind (last items) = WorkItemKindReview \<and> iDependsOn (hd items) = [] \<and>
    (\<forall>i \<in> set (butlast items). (iID (last items), iID i) \<in> (waits_for items)\<^sup>+)"
proof -
  let ?p = "repair_plan_of c t r"
  have i: "items = plan_items ?p" by (rule buildObjectiveRepairCycle_plan [OF assms])
  have "iKind (last (plan_items ?p)) = WorkItemKindReview" "iDependsOn (hd (plan_items ?p)) = []"
    by (rule plan_items_split [of ?p]; simp add: review_item_def Let_def)+
  then show ?thesis
    using plan_items_declared [of ?p] plan_items_wait [of _ ?p] plan_items_review_last(2) [of ?p] by (auto simp: i)
qed

theorem repair_cycle_is_a_pipeline_witness:
  "\<exists>items. buildObjectiveRepairCycle (contract_of [''workspace_root'' \<mapsto> AStr ''/w'']) rejected_check check_result = Inr items \<and>
     declared_before {} items"
proof -
  obtain items where b: "buildObjectiveRepairCycle (contract_of [''workspace_root'' \<mapsto> AStr ''/w'']) rejected_check check_result
      = Inr items"
    by (simp add: buildObjectiveRepairCycle_def repair_plan_of_def contract_of_def TrimSpace_solid solid_def visible_def Let_def)
  with repair_cycle_is_a_pipeline [OF b] show ?thesis by blast
qed

section \<open>Iterations run out\<close>

text \<open>
  \<open>repair_child env t t'\<close>: a repair cycle that \<open>t\<close> asked for created \<open>t'\<close>; whatever else was written to
  the metadata of \<open>t'\<close> since then, its iteration and its bound are those it was created with.
\<close>

definition repair_child :: "obj_env \<Rightarrow> task \<Rightarrow> task \<Rightarrow> bool" where
  "repair_child env t t' \<longleftrightarrow>
     (\<exists>now r c items i n s u k created.
        shouldStartObjectiveRepairCycle (oParse env) now t r \<and> buildObjectiveRepairCycle c t r = Inr items \<and>
        i \<in> set items \<and>
        (\<forall>key \<in> {''objective_iteration'', ''objective_max_iterations''}.
           tMetadata t' key = tMetadata (create_row u k created (item_params n (c\<lparr>ecWorkItems := items\<rparr>) s i)) key))"

lemma create_row_item_metadata:
  "tMetadata (create_row u k created (item_params n c s i)) = (json_map (item_metadata c s i))(''entrypoint'' \<mapsto> AStr ''objectives'')"
  by (simp add: create_row_def create_metadata_def item_params_def Let_def)

lemma repair_child_metadata:
  assumes "repair_child env t t'"
  shows "objectiveIteration (tMetadata t') = objectiveIteration (tMetadata t) + 1"
    and "objectiveMaxIterations (tMetadata t') = objectiveMaxIterations (tMetadata t)"
    and "objectiveIteration (tMetadata t) < objectiveMaxIterations (tMetadata t)"
proof -
  obtain now r c items i n s u k created where s: "shouldStartObjectiveRepairCycle (oParse env) now t r"
    and b: "buildObjectiveRepairCycle c t r = Inr items" and i: "i \<in> set items"
    and m: "\<And>key. key \<in> {''objective_iteration'', ''objective_max_iterations''} \<Longrightarrow>
       tMetadata t' key = tMetadata (create_row u k created (item_params n (c\<lparr>ecWorkItems := items\<rparr>) s i)) key"
    using assms unfolding repair_child_def by blast
  show "objectiveIteration (tMetadata t) < objectiveMaxIterations (tMetadata t)"
    using s by (auto simp: shouldStartObjectiveRepairCycle_def split: if_splits)
  obtain ps where base: "rpBase (repair_plan_of c t r) = repair_metadata t r ps" using rpBase_repair by blast
  have ii: "i \<in> set (plan_items (repair_plan_of c t r))" using i buildObjectiveRepairCycle_plan [OF b] by simp
  have it: "iMetadata i ''objective_iteration'' = Some (AInt (objectiveIteration (tMetadata t) + 1))"
    and mx: "iMetadata i ''objective_max_iterations'' = Some (AInt (objectiveMaxIterations (tMetadata t)))"
    using plan_item_metadata [OF ii] by (simp_all add: base repair_metadata_iteration)
  note kept = item_metadata_kept [OF item_fields_dom]
  have "tMetadata t' ''objective_iteration'' = Some (AInt (objectiveIteration (tMetadata t) + 1))"
    using m [of "''objective_iteration''"] kept [OF _ _ it] by (simp add: create_row_item_metadata json_map_def)
  then show "objectiveIteration (tMetadata t') = objectiveIteration (tMetadata t) + 1"
    using objectiveIteration_pos [of "tMetadata t"] by (simp add: objectiveIteration_def objectiveAsInt_def Let_def)
  have "tMetadata t' ''objective_max_iterations'' = Some (AInt (objectiveMaxIterations (tMetadata t)))"
    using m [of "''objective_max_iterations''"] kept [OF _ _ mx] by (simp add: create_row_item_metadata json_map_def)
  then show "objectiveMaxIterations (tMetadata t') = objectiveMaxIterations (tMetadata t)"
    using objectiveMaxIterations_pos [of "tMetadata t"] by (simp add: objectiveMaxIterations_def objectiveAsInt_def Let_def)
qed

text \<open>
  C21: the retry budget bounds the loop. Along any chain of repair cycles, each started by a task of
  the one before, the iteration grows by one per cycle and never passes the maximum, which is handed
  on unchanged: a chain from a task has at most as many cycles as the task has retries left, two for
  a first iteration that does not name a maximum.
\<close>

theorem repair_iterations_run_out:
  assumes "(repair_child env ^^ k) t t'" and "objectiveIteration (tMetadata t) \<le> objectiveMaxIterations (tMetadata t)"
  shows "objectiveIteration (tMetadata t') = objectiveIteration (tMetadata t) + int k \<and>
    objectiveIteration (tMetadata t') \<le> objectiveMaxIterations (tMetadata t') \<and>
    objectiveRemainingRetries (tMetadata t') = objectiveRemainingRetries (tMetadata t) - int k \<and>
    int k \<le> objectiveRemainingRetries (tMetadata t)"
proof -
  have "objectiveIteration (tMetadata t') = objectiveIteration (tMetadata t) + int k \<and>
      objectiveMaxIterations (tMetadata t') = objectiveMaxIterations (tMetadata t) \<and>
      objectiveIteration (tMetadata t') \<le> objectiveMaxIterations (tMetadata t')"
    using assms(1)
  proof (induction k arbitrary: t')
    case 0
    then show ?case using assms(2) by simp
  next
    case (Suc k)
    then obtain u where u: "(repair_child env ^^ k) t u" "repair_child env u t'" by auto
    show ?case using Suc.IH [OF u(1)] repair_child_metadata [OF u(2)] by simp
  qed
  then show ?thesis using assms(2) by (simp add: objectiveRemainingRetries_def Let_def)
qed

theorem repair_iterations_run_out_witness:
  "\<exists>t'. (repair_child obj_env0 ^^ 1) rejected_check t' \<and> objectiveIteration (tMetadata t') = 2 \<and>
     objectiveRemainingRetries (tMetadata t') = 1"
proof -
  let ?c = "contract_of [''workspace_root'' \<mapsto> AStr ''/w'']"
  let ?p = "repair_plan_of ?c rejected_check check_result"
  define t' where "t' = create_row ''u'' ''k'' 5
    (item_params (sample_initiative Executing ExecutionPhase) (?c\<lparr>ecWorkItems := plan_items ?p\<rparr>) 5 (last (plan_items ?p)))"
  have b: "buildObjectiveRepairCycle ?c rejected_check check_result = Inr (plan_items ?p)"
    by (simp add: buildObjectiveRepairCycle_def repair_plan_of_def contract_of_def TrimSpace_solid solid_def visible_def Let_def)
  have "repair_child obj_env0 rejected_check t'"
    unfolding repair_child_def t'_def using rejected_check_repairs b plan_items_review_last(1) [of ?p] by blast
  then have k: "(repair_child obj_env0 ^^ 1) rejected_check t'" by (simp add: eq_OO)
  have m: "objectiveIteration (tMetadata rejected_check) = 1" "objectiveMaxIterations (tMetadata rejected_check) = 3"
    by (simp_all add: rejected_check_def objectiveIteration_def objectiveMaxIterations_def objectiveAsInt_def
        defaultObjectiveMaxIterations_def Let_def)
  then have "objectiveIteration (tMetadata rejected_check) \<le> objectiveMaxIterations (tMetadata rejected_check)" by simp
  from repair_iterations_run_out [OF k this] k m show ?thesis by (auto simp: objectiveRemainingRetries_def Let_def)
qed

end
