(* ===== verification/Executor_Safety.thy ===== *)
theory Executor_Safety
  imports Executor_Tools
begin

text \<open>
  What the executor of a bridge may touch and run: paths are resolved below the workspace, the tools that
  write files stay there unless a link leads out, commands come from the allow list unless a review
  names its own, and nothing happens before a required approval.
\<close>

section \<open>Resolution\<close>

definition rooted_at :: "exec_env \<Rightarrow> string list \<Rightarrow> bool" where
  "rooted_at env rw \<longleftrightarrow> xRoot env = abs_path rw \<and> (\<forall>w \<in> set rw. clean_word True w)"

definition rel_text :: "string list \<Rightarrow> string" where
  "rel_text vs = (if vs = [] then ''.'' else join_with ''/'' vs)"

lemma candidate_words:
  assumes "rooted_at env rw"
  shows "\<exists>ws. path_clean (if IsAbs path then path else path_join (xRoot env) path) = abs_path ws \<and> (\<forall>w \<in> set ws. clean_word True w)"
proof -
  have "abs_path rw \<noteq> []" by (simp add: abs_path_def)
  then have "IsAbs (path_join (xRoot env) path)"
    using rooted_path_clean [of "abs_path rw @ ''/'' @ path"] assms
    by (auto simp: rooted_at_def path_join_def IsAbs_def abs_path_def HasPrefix_def)
  then have "IsAbs (if IsAbs path then path else path_join (xRoot env) path)" by simp
  then show ?thesis by (rule rooted_path_clean)
qed

lemma resolve_below:
  assumes "rooted_at env rw" and "resolveWithDefault env raw fallback = Inr (p, rel)"
  shows "\<exists>vs. (\<forall>w \<in> set vs. clean_word True w) \<and> p = abs_path (rw @ vs) \<and> rel = rel_text vs"
proof -
  let ?path = "if TrimSpace (asString raw) = [] then fallback else TrimSpace (asString raw)"
  obtain ws where ws: "path_clean (if IsAbs ?path then ?path else path_join (xRoot env) ?path) = abs_path ws" "\<forall>w \<in> set ws. clean_word True w"
    using candidate_words [OF assms(1)] by blast
  have p: "p = abs_path ws" "rel = filepath_Rel (xRoot env) (abs_path ws)" "\<not> escapes (filepath_Rel (xRoot env) (abs_path ws))"
    using assms(2) ws(1) by (auto simp: resolveWithDefault_def Let_def escapes_def split: if_splits)
  then have "prefix rw ws" using filepath_Rel_escapes ws(2) assms(1) by (auto simp: rooted_at_def)
  then obtain vs where "ws = rw @ vs" by (auto simp: prefix_def)
  with p ws(2) assms(1) show ?thesis by (auto simp: rooted_at_def filepath_Rel_below rel_text_def)
qed

lemma path_join_dot:
  assumes "\<forall>w \<in> set ws. clean_word True w"
  shows "path_join (abs_path ws) ''.'' = abs_path ws"
proof -
  have "split_on CHR ''/'' (abs_path ws @ CHR ''/'' # ''.'') = ([] # (if ws = [] then [[]] else ws)) @ [''.'']"
    using assms by (simp only: split_on_append_slash split_on_abs) simp
  then have "fold (clean_step True) (split_on CHR ''/'' (abs_path ws @ CHR ''/'' # ''.'')) [] = rev ws"
    using assms by (simp add: fold_clean_id) (simp add: clean_step_def)
  moreover have "abs_path ws \<noteq> []" by (simp add: abs_path_def)
  ultimately show ?thesis by (simp add: path_join_def path_clean_def abs_path_def)
qed

lemma rel_text_join:
  assumes "\<forall>w \<in> set rw. clean_word True w" "\<forall>w \<in> set vs. clean_word True w"
  shows "path_join (abs_path rw) (rel_text vs) = abs_path (rw @ vs)"
  using assms path_join_dot [of rw] path_join_words [of rw vs] by (simp add: rel_text_def)

lemma rel_text_relative: "\<forall>w \<in> set vs. clean_word True w \<Longrightarrow> \<not> IsAbs (rel_text vs) \<and> rel_text vs \<noteq> []"
proof (cases vs)
  case (Cons v us)
  assume "\<forall>w \<in> set vs. clean_word True w"
  then have v: "v \<noteq> []" "CHR ''/'' \<notin> set v" using Cons by (auto simp: clean_word_def)
  then have "hd (join_with ''/'' vs) = hd v" using join_head [of vs "''/''"] Cons by simp
  moreover have "join_with ''/'' vs \<noteq> []" using v Cons by (cases us) auto
  moreover have "hd v \<noteq> CHR ''/''" using v hd_in_set by metis
  ultimately show ?thesis using Cons by (cases "join_with ''/'' vs") (auto simp: rel_text_def IsAbs_def HasPrefix_def)
qed (simp add: rel_text_def IsAbs_def HasPrefix_def)

lemma resolve_rel_text:
  assumes "rooted_at env rw" "\<forall>w \<in> set vs. clean_word True w" "TrimSpace (rel_text vs) = rel_text vs"
  shows "resolveWithDefault env (Some (AStr (rel_text vs))) fallback = Inr (abs_path (rw @ vs), rel_text vs)"
proof -
  have r: "\<not> IsAbs (rel_text vs)" "rel_text vs \<noteq> []" using rel_text_relative [OF assms(2)] by auto
  have rw: "xRoot env = abs_path rw" "\<forall>w \<in> set rw. clean_word True w" using assms(1) by (auto simp: rooted_at_def)
  have c: "path_clean (path_join (xRoot env) (rel_text vs)) = abs_path (rw @ vs)"
    using rw rel_text_join [OF rw(2) assms(2)] assms(2) path_clean_abs [of "rw @ vs"] by (auto simp: ball_Un)
  have rel: "filepath_Rel (xRoot env) (abs_path (rw @ vs)) = rel_text vs"
    using rw assms(2) by (simp add: filepath_Rel_below rel_text_def)
  have "\<not> escapes (rel_text vs)"
    using filepath_Rel_escapes [of rw "rw @ vs"] rw assms(2) rel by (auto simp: ball_Un)
  with r c rel assms(3) show ?thesis by (simp add: resolveWithDefault_def Let_def asString_def escapes_def)
qed

section \<open>Writing below the workspace\<close>

definition outside_same :: "string list \<Rightarrow> disk \<Rightarrow> disk \<Rightarrow> bool" where
  "outside_same rw d d' \<longleftrightarrow> (\<forall>q. \<not> prefix rw q \<longrightarrow> node_at d' q = node_at d q)"

definition stays :: "string list \<Rightarrow> disk \<Rightarrow> disk \<Rightarrow> bool" where
  "stays rw d d' \<longleftrightarrow> link_free rw d' \<and> outside_same rw d d'"

lemma stays_refl: "link_free rw d \<Longrightarrow> stays rw d d"
  by (simp add: stays_def outside_same_def)

lemma stays_trans: "stays rw d e \<Longrightarrow> stays rw e f \<Longrightarrow> stays rw d f"
  by (simp add: stays_def outside_same_def)

lemma stays_put:
  assumes "link_free rw d" "prefix rw q" "q \<noteq> rw" "\<forall>t. n \<noteq> Link t"
  shows "stays rw d (put_node q n d)"
proof -
  have "q \<noteq> []" using assms(2,3) by auto
  moreover have "\<not> prefix q rw" using assms(2,3) by (auto dest: prefix_order.antisym)
  ultimately show ?thesis
    using assms by (auto simp: stays_def outside_same_def link_free_def node_at_put)
qed

lemma follow_here:
  assumes "link_free rw d" "\<forall>w \<in> set ps. clean_word True w" "prefix ps rw \<or> prefix rw ps" "follow n d [] ps = Some q"
  shows "q = ps"
proof -
  have "node_at d p \<noteq> Some (Link t)" if p: "prefix p ps" for p t
  proof -
    have "prefix p rw \<or> prefix rw p" using p assms(3) by (meson prefix_order.trans prefix_same_cases)
    with assms(1) show ?thesis by (auto simp: link_free_def)
  qed
  then show ?thesis using follow_plain [OF assms(2) _ assms(4)] by simp
qed

lemma mkdirs_inside:
  assumes "link_free rw d" "\<forall>w \<in> set (before @ ws). clean_word True w" "prefix (before @ ws) rw \<or> prefix rw (before @ ws)"
    and "mkdirs before ws d = (d', ok)"
  shows "stays rw d d'"
  using assms
proof (induction ws arbitrary: before d)
  case Nil
  then show ?case by (simp add: stays_refl)
next
  case (Cons w ws)
  have c: "\<forall>v \<in> set (before @ [w]). clean_word True v" using Cons.prems(2) by auto
  have "prefix (before @ [w]) (before @ w # ws)" by simp
  then have pre: "prefix (before @ [w]) rw \<or> prefix rw (before @ [w])"
    using Cons.prems(3) by (meson prefix_order.trans prefix_same_cases)
  have pre0: "prefix before rw \<or> prefix rw before"
    using Cons.prems(3) by (meson prefix_order.trans prefix_same_cases prefixI)
  show ?case
  proof (cases "follow max_links d [] (before @ [w])")
    case None
    then show ?thesis using Cons.prems(1,4) by (simp add: stays_refl)
  next
    case (Some q)
    have q: "q = before @ [w]" using follow_here [OF Cons.prems(1) c pre Some] .
    have ih: "stays rw e d'" if "link_free rw e" "mkdirs (before @ [w]) ws e = (d', ok)" for e
      by (rule Cons.IH [OF that(1) _ _ that(2)]) (use Cons.prems in auto)
    show ?thesis
    proof (cases "node_at d q")
      case None
      show ?thesis
      proof (cases "follow max_links d [] before")
        case None
        then show ?thesis using Some Cons.prems(1,4) \<open>node_at d q = None\<close> by (simp add: stays_refl)
      next
        case b: (Some p)
        have p: "p = before" using follow_here [OF Cons.prems(1) _ pre0 b] c by simp
        have "\<not> prefix q rw" using None Cons.prems(1) by (auto simp: link_free_def)
        then have r: "prefix rw q" "q \<noteq> rw" using pre q by auto
        have s: "stays rw d (put_node q Dir d)" by (rule stays_put [OF Cons.prems(1) r]) simp
        moreover have "mkdirs (before @ [w]) ws (put_node q Dir d) = (d', ok)"
          using Some Cons.prems(4) None b p q by simp
        ultimately show ?thesis using ih stays_trans by (meson stays_def)
      qed
    next
      case n: (Some n)
      show ?thesis
      proof (cases "n = Dir")
        case True
        then show ?thesis using Some n Cons.prems(1,4) ih q by simp
      next
        case False
        then have "d' = d" using Some n Cons.prems(4) by (cases n) auto
        then show ?thesis using Cons.prems(1) by (simp add: stays_refl)
      qed
    qed
  qed
qed

lemma MkdirAll_inside:
  assumes "link_free rw d" "\<forall>w \<in> set ws. clean_word True w" "prefix ws rw \<or> prefix rw ws" "os_MkdirAll os (abs_path ws) d = (d', e)"
  shows "stays rw d d'"
proof -
  have "fst (mkdirs [] ws d) = d'"
    using assms(4) path_words_abs [OF assms(2)] by (auto simp: os_MkdirAll_def split: prod.splits)
  then have "mkdirs [] ws d = (d', snd (mkdirs [] ws d))" by (metis prod.collapse)
  then show ?thesis using mkdirs_inside [of rw d "[]" ws] assms(1-3) by simp
qed

lemma WriteFile_inside:
  assumes "link_free rw d" "\<forall>w \<in> set (rw @ vs). clean_word True w" "os_WriteFile os (abs_path (rw @ vs)) c d = Inr d'"
  shows "stays rw d d'"
proof -
  obtain q where q: "follow max_links d [] (rw @ vs) = Some q" "node_at d q \<noteq> Some Dir" "d' = put_node q (File c) d"
    using assms(3) path_words_abs [OF assms(2)] by (auto simp: os_WriteFile_def physical_def split: option.splits if_splits)
  have e: "q = rw @ vs" using follow_here [OF assms(1,2) _ q(1)] by simp
  have "q \<noteq> rw" using q(2) assms(1) by (auto simp: link_free_def)
  then show ?thesis unfolding q(3) by (rule stays_put [OF assms(1), rotated]) (simp_all add: e)
qed

lemma filepath_Dir_abs:
  assumes "\<forall>w \<in> set (ws @ [v]). clean_word True w"
  shows "filepath_Dir (abs_path (ws @ [v])) = abs_path ws"
proof -
  have v: "\<forall>c \<in> set (rev v). c \<noteq> CHR ''/''" using assms by (auto simp: clean_word_def)
  have a: "abs_path (ws @ [v]) = (if ws = [] then ''/'' else abs_path ws @ ''/'') @ v"
    by (simp add: abs_path_def join_append)
  have "dropWhile (\<lambda>c. c \<noteq> CHR ''/'') (rev v @ CHR ''/'' # x) = CHR ''/'' # x" for x
    by (subst dropWhile_append2) (use v in auto)
  then have "rev (dropWhile (\<lambda>c. c \<noteq> CHR ''/'') (rev (abs_path (ws @ [v])))) = (if ws = [] then ''/'' else abs_path ws @ ''/'')"
    by (simp add: a)
  moreover have "path_clean (abs_path ws @ ''/'') = abs_path ws" if "ws \<noteq> []"
  proof -
    have "split_on CHR ''/'' (abs_path ws @ CHR ''/'' # []) = ([] # ws) @ [[]]"
      using split_on_abs [of ws] assms that by (simp only: split_on_append_slash) simp
    then have "fold (clean_step True) (split_on CHR ''/'' (abs_path ws @ ''/'')) [] = rev ws"
      using assms by (simp add: fold_clean_id ball_Un) (simp add: clean_step_def)
    then show ?thesis by (simp add: path_clean_def abs_path_def)
  qed
  moreover have "path_clean ''/'' = abs_path []" by (simp add: path_clean_def abs_path_def clean_step_def)
  ultimately show ?thesis by (simp add: filepath_Dir_def)
qed

lemma dir_of_path:
  assumes "\<forall>w \<in> set (rw @ vs). clean_word True w"
  shows "\<exists>ws. filepath_Dir (abs_path (rw @ vs)) = abs_path ws \<and> (\<forall>w \<in> set ws. clean_word True w) \<and> (prefix ws rw \<or> prefix rw ws)"
proof (cases "rw @ vs" rule: rev_cases)
  case Nil
  then show ?thesis by (intro exI [of _ "[]"]) (simp add: filepath_Dir_def abs_path_def path_clean_def clean_step_def)
next
  case (snoc ws v)
  have "prefix ws (rw @ vs)" using snoc by simp
  then have "prefix ws rw \<or> prefix rw ws" using prefix_same_cases [of ws "rw @ vs" rw] by simp
  moreover have "\<forall>w \<in> set ws. clean_word True w" using assms snoc by simp
  ultimately show ?thesis using filepath_Dir_abs [of ws v] assms snoc by auto
qed

lemma write_under_inside:
  assumes "link_free rw (hDisk h)" "\<forall>w \<in> set (rw @ vs). clean_word True w" "write_under env (abs_path (rw @ vs)) c h = (h', e)"
  shows "stays rw (hDisk h) (hDisk h')"
proof -
  obtain ws where ws: "filepath_Dir (abs_path (rw @ vs)) = abs_path ws" "\<forall>w \<in> set ws. clean_word True w" "prefix ws rw \<or> prefix rw ws"
    using dir_of_path [OF assms(2)] by blast
  obtain d e1 where m: "os_MkdirAll (xOs env) (abs_path ws) (hDisk h) = (d, e1)" by fastforce
  have s: "stays rw (hDisk h) d" by (rule MkdirAll_inside [OF assms(1) ws(2,3) m])
  show ?thesis
  proof (cases "e1 = None \<and> (\<exists>d'. os_WriteFile (xOs env) (abs_path (rw @ vs)) c d = Inr d')")
    case True
    then obtain d' where d': "os_WriteFile (xOs env) (abs_path (rw @ vs)) c d = Inr d'" by blast
    have "stays rw d d'" by (rule WriteFile_inside [OF _ assms(2) d']) (use s in \<open>simp add: stays_def\<close>)
    with s have "stays rw (hDisk h) d'" by (rule stays_trans)
    then show ?thesis using assms(3) True d' m ws(1) by (auto simp: write_under_def)
  next
    case False
    then have "hDisk h' = d"
      using assms(3) m ws(1) by (auto simp: write_under_def split: option.splits sum.splits)
    with s show ?thesis by simp
  qed
qed

end
