(* ===== verification/Executor_Guarantees.thy ===== *)
theory Executor_Guarantees
  imports Executor_Safety
begin

text \<open>
  The guarantees of the executor tool by tool: what stays outside the workspace, which commands run, what an
  approval holds back, and when a review approves. \<^verbatim>\<open>git status\<close>, \<^verbatim>\<open>git diff\<close> and \<^verbatim>\<open>git rev-parse\<close> may
  refresh the index and other data of a repository: they are taken to leave every file alone that does not lie
  in a directory named \<^verbatim>\<open>.git\<close>, as they do when no filter, hook or driver of the user is configured.
\<close>

section \<open>Commands\<close>

definition git_query :: "command \<Rightarrow> bool" where
  "git_query c \<longleftrightarrow> (case cArgv c of a # b # bs \<Rightarrow> a = ''git'' \<and> b \<in> {''status'', ''diff'', ''rev-parse''} | _ \<Rightarrow> False)"

definition same_files :: "disk \<Rightarrow> disk \<Rightarrow> bool" where
  "same_files d d' \<longleftrightarrow> (\<forall>q. ''.git'' \<notin> set q \<longrightarrow> node_at d' q = node_at d q)"

lemma same_files_refl [simp]: "same_files d d"
  by (simp add: same_files_def)

lemma same_files_trans: "same_files d d1 \<Longrightarrow> same_files d1 d2 \<Longrightarrow> same_files d d2"
  by (simp add: same_files_def)

definition git_reads :: "exec_env \<Rightarrow> bool" where
  "git_reads env \<longleftrightarrow> (\<forall>c d. git_query c \<longrightarrow> same_files d (fst (xRun env c d)))"

text \<open>What lies outside the workspace and in no repository data is as it was.\<close>

definition kept :: "string list \<Rightarrow> disk \<Rightarrow> disk \<Rightarrow> bool" where
  "kept rw d d' \<longleftrightarrow> (\<forall>q. \<not> prefix rw q \<longrightarrow> ''.git'' \<notin> set q \<longrightarrow> node_at d' q = node_at d q)"

lemma kept_stays: "stays rw d d1 \<Longrightarrow> kept rw d d1"
  by (simp add: kept_def stays_def outside_same_def)

lemma kept_same: "kept rw d d1 \<Longrightarrow> same_files d1 d2 \<Longrightarrow> kept rw d d2"
  by (simp add: kept_def same_files_def)

lemma same_kept: "same_files d d' \<Longrightarrow> kept rw d d'"
  by (simp add: kept_def same_files_def)

text \<open>A step of the executor: the commands it added all satisfy \<open>P\<close>, and the disk changed by \<open>R\<close>.\<close>

definition ran :: "(command \<Rightarrow> bool) \<Rightarrow> host \<Rightarrow> host \<Rightarrow> bool" where
  "ran P h h' \<longleftrightarrow> (\<exists>cs. hRuns h' = hRuns h @ cs \<and> list_all P cs)"

lemma ran_same [simp]: "hRuns h' = hRuns h \<Longrightarrow> ran P h h'"
  by (simp add: ran_def)

lemma ran_trans: "ran P h h1 \<Longrightarrow> ran P h1 h2 \<Longrightarrow> ran P h h2"
  by (fastforce simp: ran_def)

lemma ran_mono: "ran P h h' \<Longrightarrow> (\<And>c. P c \<Longrightarrow> Q c) \<Longrightarrow> ran Q h h'"
  by (auto simp: ran_def list_all_iff)

lemma ran_start: "start env dir argv i h = (h', x) \<Longrightarrow> P \<lparr>cDir = dir, cArgv = argv, cStdin = i\<rparr> \<Longrightarrow> ran P h h'"
  by (auto simp: start_def run_process_def ran_def split: prod.splits)

lemma start_query:
  assumes "git_reads env" "start env dir (''git'' # sub # rest) i h = (h', x)" "sub \<in> {''status'', ''diff'', ''rev-parse''}"
  shows "same_files (hDisk h) (hDisk h')"
proof -
  let ?c = "\<lparr>cDir = dir, cArgv = ''git'' # sub # rest, cStdin = i\<rparr>"
  have "hDisk h' = fst (xRun env ?c (hDisk h))"
    using assms(2) by (auto simp: start_def run_process_def split: prod.splits)
  moreover have "git_query ?c" using assms(3) by (simp add: git_query_def)
  ultimately show ?thesis using assms(1) by (simp add: git_reads_def)
qed

definition allowed :: "command \<Rightarrow> bool" where
  "allowed c \<longleftrightarrow> (\<exists>a as. cArgv c = a # as \<and> a \<in> set allowedCommands)"

lemma git_allowed [simp]: "allowed \<lparr>cDir = d, cArgv = ''git'' # as, cStdin = i\<rparr>"
  by (simp add: allowed_def allowedCommands_def)

lemma gitTopLevel_facts:
  assumes "gitTopLevel env h = (h', t)"
  shows "ran allowed h h'" "git_reads env \<Longrightarrow> same_files (hDisk h) (hDisk h')"
proof -
  obtain h1 x where s: "start env (xRoot env) [''git'', ''rev-parse'', ''--show-toplevel''] [] h = (h1, x)" by fastforce
  then have e: "h' = h1" using assms by (simp add: gitTopLevel_def)
  show "ran allowed h h'" using ran_start [OF s] e by simp
  show "git_reads env \<Longrightarrow> same_files (hDisk h) (hDisk h')" using start_query [OF _ s] e by simp
qed

lemma workspaceGitState_facts:
  assumes "workspaceGitState env h = (h', t)"
  shows "ran allowed h h'" "git_reads env \<Longrightarrow> same_files (hDisk h) (hDisk h')"
proof -
  obtain h1 x where s: "start env (xRoot env) [''git'', ''status'', ''--short'', ''--untracked-files=all''] [] h = (h1, x)" by fastforce
  obtain h2 y where d: "start env (xRoot env) [''git'', ''diff'', ''--no-ext-diff''] [] h1 = (h2, y)" by fastforce
  have e: "h' = h2" using assms s d by (simp add: workspaceGitState_def)
  show "ran allowed h h'" using ran_trans [OF ran_start [OF s] ran_start [OF d]] e by simp
  show "git_reads env \<Longrightarrow> same_files (hDisk h) (hDisk h')" using same_files_trans [OF start_query [OF _ s] start_query [OF _ d]] e by simp
qed

lemma workspaceGitSummaries_facts:
  assumes "workspaceGitSummaries env h = (h', t)"
  shows "ran allowed h h'"
proof -
  obtain h1 x where s: "start env (xRoot env) [''git'', ''status'', ''--short'', ''--untracked-files=all''] [] h = (h1, x)" by fastforce
  obtain h2 y where d: "start env (xRoot env) [''git'', ''diff'', ''--stat'', ''--no-ext-diff''] [] h1 = (h2, y)" by fastforce
  have "h' = h2" using assms s d by (simp add: workspaceGitSummaries_def)
  then show "ran allowed h h'" using ran_trans [OF ran_start [OF s] ran_start [OF d]] by simp
qed

lemma withGitArtifacts_facts:
  assumes "withGitArtifacts env r h = (h', r')"
  shows "ran allowed h h'" "git_reads env \<Longrightarrow> same_files (hDisk h) (hDisk h')"
proof -
  obtain h1 t where t: "gitTopLevel env h = (h1, t)" by fastforce
  obtain h2 y where y: "workspaceGitState env h1 = (h2, y)" by (metis prod.collapse)
  have e: "h' = h1 \<or> h' = h2" using assms t y by (auto simp: withGitArtifacts_def split: if_splits prod.splits)
  note a = gitTopLevel_facts [OF t] and b = workspaceGitState_facts [OF y]
  show "ran allowed h h'" using e a(1) b(1) ran_trans by blast
  show "git_reads env \<Longrightarrow> same_files (hDisk h) (hDisk h')" using e a(2) b(2) same_files_trans by blast
qed

lemma runSubprocess_ran:
  assumes "runSubprocess env argv summary h = (h', r)" "argv \<noteq> [] \<Longrightarrow> allowed \<lparr>cDir = xRoot env, cArgv = argv, cStdin = []\<rparr>"
  shows "ran allowed h h'"
proof (cases "argv = []")
  case False
  obtain h1 x where s: "start env (xRoot env) argv [] h = (h1, x)" by fastforce
  obtain h2 q where w: "withGitArtifacts env (process_result x summary) h1 = (h2, q)" by fastforce
  have "h' = h1 \<or> h' = h2" using assms(1) False s w by (auto simp: runSubprocess_def split: option.splits)
  then show ?thesis using ran_start [OF s, of allowed] assms(2) False withGitArtifacts_facts(1) [OF w] ran_trans by blast
qed (use assms(1) in \<open>simp add: runSubprocess_def\<close>)

lemma runAllowedCommand_ran:
  assumes "runAllowedCommand env argv summary h = (h', r)"
  shows "ran allowed h h'"
proof (cases argv)
  case (Cons a as)
  show ?thesis
  proof (cases "a \<in> set allowedCommands")
    case True
    then have "runSubprocess env argv summary h = (h', r)" using assms Cons by (simp add: runAllowedCommand_def)
    then show ?thesis by (rule runSubprocess_ran) (use True Cons in \<open>auto simp: allowed_def\<close>)
  qed (use assms Cons in \<open>auto simp: runAllowedCommand_def\<close>)
qed (use assms in \<open>auto simp: runAllowedCommand_def\<close>)

lemma runCommand_ran:
  assumes "runCommand env request h = (h', r)"
  shows "ran allowed h h'"
proof (cases "\<exists>argv. anyStringSlice (request ''argv'') = Some argv \<and> argv \<noteq> []")
  case False
  then show ?thesis using assms by (auto simp: runCommand_def split: option.splits if_splits)
next
  case True
  then obtain argv0 where a0: "anyStringSlice (request ''argv'') = Some argv0" "argv0 \<noteq> []" by blast
  define argv where "argv = prepareCommandArgs (xJson env) argv0 request"
  obtain h1 x where x: "runAllowedCommand env argv (''Ran command: '' @ join_with '' '' argv) h = (h1, x)" by fastforce
  have r1: "ran allowed h h1" by (rule runAllowedCommand_ran [OF x])
  show ?thesis
  proof (cases x)
    case (Inl e)
    then have "h' = h1" using assms a0 x by (simp add: runCommand_def argv_def Let_def)
    with r1 show ?thesis by simp
  next
    case (Inr q)
    obtain h2 q2 where w: "withGitArtifacts env q h1 = (h2, q2)" by fastforce
    obtain h3 q3 where c: "withCoderPacket env q2 argv (asMap (request ''_task_metadata'')) h2 = (h3, q3)" by fastforce
    obtain h4 t where t: "workspaceGitSummaries env h2 = (h4, t)" by (metis prod.collapse)
    have r2: "ran allowed h1 h2" by (rule withGitArtifacts_facts(1) [OF w])
    have "h3 = h2 \<or> h3 = h4" using c t by (auto simp: withCoderPacket_def split: list.splits if_splits prod.splits)
    then have "ran allowed h2 h3" using workspaceGitSummaries_facts [OF t] by auto
    moreover have "h' = h1 \<or> h' = h3" using assms a0 x Inr w c by (auto simp: runCommand_def argv_def Let_def split: if_splits)
    ultimately show ?thesis using r1 r2 ran_trans by metis
  qed
qed

lemma runTests_ran: "runTests env request h = (h', r) \<Longrightarrow> ran allowed h h'"
  using runAllowedCommand_ran by (fastforce simp: runTests_def Let_def split: prod.splits sum.splits)

lemma applyPatch_ran:
  assumes "applyPatch env request h = (h', r)"
  shows "ran allowed h h'"
proof (cases "TrimSpace (asString (request ''patch'')) = []")
  case False
  obtain h1 x where s: "start env (xRoot env) [''git'', ''apply'', ''--whitespace=nowarn'', ''-''] (asString (request ''patch'')) h = (h1, x)"
    by fastforce
  obtain h2 q where w: "withGitArtifacts env ((process_result x ''Applied patch'')\<lparr>rsExitCode := Some 0\<rparr>) h1 = (h2, q)" by fastforce
  have "h' = h1 \<or> h' = h2" using assms False s w by (auto simp: applyPatch_def Let_def split: option.splits)
  then show ?thesis using ran_start [OF s, of allowed] withGitArtifacts_facts(1) [OF w] ran_trans by auto
qed (use assms in \<open>simp add: applyPatch_def\<close>)

lemma write_under_runs: "write_under env p c h = (h', e) \<Longrightarrow> hRuns h' = hRuns h"
  by (auto simp: write_under_def split: prod.splits option.splits sum.splits)

lemma writeFile_facts:
  assumes "writeFile env request h = (h', r)"
  shows "ran allowed h h'"
    and "rooted_at env rw \<Longrightarrow> link_free rw (hDisk h) \<Longrightarrow> git_reads env \<Longrightarrow> kept rw (hDisk h) (hDisk h')"
proof -
  have "ran allowed h h' \<and> (rooted_at env rw \<longrightarrow> link_free rw (hDisk h) \<longrightarrow> git_reads env \<longrightarrow> kept rw (hDisk h) (hDisk h'))"
  proof (cases "resolve env (request ''path'')")
    case (Inl e)
    then show ?thesis using assms by (simp add: writeFile_def same_kept)
  next
    case (Inr pr)
    obtain p rel where pr: "pr = (p, rel)" by fastforce
    obtain h1 e where w: "write_under env p (asString (request ''content'')) h = (h1, e)" by fastforce
    obtain h2 q where g: "withGitArtifacts env (no_result\<lparr>rsStatus := ''success'', rsSummary := Some (''Wrote '' @ rel),
      rsChangedFiles := [rel]\<rparr>) h1 = (h2, q)" by fastforce
    have e: "h' = h1 \<or> h' = h2" using assms Inr pr w g by (auto simp: writeFile_def split: option.splits)
    have "stays rw (hDisk h) (hDisk h1)" if "rooted_at env rw" "link_free rw (hDisk h)"
    proof -
      note ra = that(1) and lf = that(2)
      have res: "resolveWithDefault env (request ''path'') [] = Inr (p, rel)" using Inr pr by (simp add: resolve_def)
      obtain vs where vs: "\<forall>w \<in> set vs. clean_word True w" "p = abs_path (rw @ vs)"
        using resolve_below [OF ra res] by blast
      have "\<forall>w \<in> set (rw @ vs). clean_word True w" using vs(1) ra by (auto simp: rooted_at_def)
      from write_under_inside [OF lf this] w vs(2) show ?thesis by simp
    qed
    moreover have "hRuns h1 = hRuns h" by (rule write_under_runs [OF w])
    ultimately show ?thesis using e withGitArtifacts_facts [OF g] kept_stays kept_same by (fastforce simp: ran_def)
  qed
  then show "ran allowed h h'" "rooted_at env rw \<Longrightarrow> link_free rw (hDisk h) \<Longrightarrow> git_reads env \<Longrightarrow> kept rw (hDisk h) (hDisk h')"
    by blast+
qed

section \<open>Scaffolds\<close>

text \<open>A map is walked in some order of its keys.\<close>

definition walks_maps :: "exec_env \<Rightarrow> bool" where
  "walks_maps env \<longleftrightarrow> (\<forall>xs. mset (xOrder env xs) = mset xs)"

lemma walked_keys: "walks_maps env \<Longrightarrow> set (xOrder env xs) = set xs"
  unfolding walks_maps_def by (metis set_mset_mset)

text \<open>The templates name their files by relative paths without steps upwards.\<close>

definition file_words :: "string \<Rightarrow> string list" where
  "file_words file = split_on CHR ''/'' file"

definition scaffold_names :: "string \<Rightarrow> string list" where
  "scaffold_names ty =
     [''README.md''] @
     (if ty = ''api_http'' then [''app.py'', ''tests/test_app.py'']
      else if ty = ''web_small'' then [''index.html'', ''app.js'', ''style.css'', ''tests/test_static.py'']
      else if ty = ''worker_background'' then [''worker.py'', ''tests/test_worker.py'']
      else if ty = ''debug_regression'' then [''calculator.py'', ''tests/test_calculator.py'']
      else if ty = ''toy_repo'' then [''src/service.py'', ''tests/test_service.py'', ''docs/notes.md'']
      else [''main.py'', ''tests/test_main.py'']) @ [''lab.json'']"

lemma scaffold_contents_names: "map fst (scaffold_contents quote ty st n g t) = scaffold_names ty"
  by (simp add: scaffold_contents_def scaffold_names_def)

lemma scaffold_words:
  assumes "file \<in> set (scaffold_names ty)"
  shows "file_words file \<noteq> [] \<and> (\<forall>w \<in> set (file_words file). clean_word True w) \<and> path_clean file = join_with ''/'' (file_words file)"
  using assms unfolding scaffold_names_def
  by (auto simp: file_words_def clean_word_def path_clean_def clean_step_def split: if_splits)

lemma scaffold_paths:
  assumes "walks_maps env" "f \<in> set (scaffoldFiles env ty st n g t)"
  shows "\<exists>us. us \<noteq> [] \<and> (\<forall>w \<in> set us. clean_word True w) \<and> path_clean (fst f) = join_with ''/'' us"
proof -
  have "fst f \<in> set (scaffold_names (ToLower (TrimSpace ty)))" using assms by (auto simp: scaffoldFiles_def scaffold_contents_names Let_def walked_keys)
  then show ?thesis using scaffold_words by blast
qed

lemma name_char_hyphen: "name_char CHR ''-''"
  by (simp add: name_char_def)

lemma squeeze_chars: "list_all name_char (squeeze run s)"
  by (induction run s rule: squeeze.induct) (simp_all add: name_char_hyphen)

lemma set_trim_chars: "set (trim_chars cs s) \<subseteq> set s"
proof -
  have d: "set (dropWhile P xs) \<subseteq> set xs" for P and xs :: string by (rule set_mono_suffix [OF suffix_dropWhile])
  have "set (dropWhile (\<lambda>c. c \<in> set cs) (rev (dropWhile (\<lambda>c. c \<in> set cs) s))) \<subseteq> set (rev (dropWhile (\<lambda>c. c \<in> set cs) s))" by (rule d)
  also have "\<dots> \<subseteq> set s" unfolding set_rev by (rule d)
  finally show ?thesis by (simp only: trim_chars_def set_rev)
qed

lemma hd_trim_chars: "trim_chars cs s \<noteq> [] \<Longrightarrow> hd (trim_chars cs s) \<notin> set cs"
proof -
  assume n: "trim_chars cs s \<noteq> []"
  let ?t = "dropWhile (\<lambda>c. c \<in> set cs) s"
  have p: "prefix (trim_chars cs s) ?t"
    using suffix_dropWhile [of "\<lambda>c. c \<in> set cs" "rev ?t"] by (simp add: trim_chars_def suffix_to_prefix)
  then have "hd (trim_chars cs s) = hd ?t" using n by (auto simp: prefix_def)
  moreover have "?t \<noteq> []" using p n by (metis prefix_Nil)
  ultimately show ?thesis using hd_dropWhile by metis
qed

lemma sanitized_word: "sanitizeProjectName s \<noteq> [] \<Longrightarrow> clean_word True (sanitizeProjectName s)"
proof -
  assume n: "sanitizeProjectName s \<noteq> []"
  have c: "\<forall>c \<in> set (sanitizeProjectName s). name_char c"
    using squeeze_chars set_trim_chars unfolding sanitizeProjectName_def list_all_iff by blast
  have "hd (sanitizeProjectName s) \<notin> set ''-.''" using hd_trim_chars n unfolding sanitizeProjectName_def by blast
  then have "sanitizeProjectName s \<noteq> ''.''" "sanitizeProjectName s \<noteq> ''..''" by auto
  moreover have "CHR ''/'' \<notin> set (sanitizeProjectName s)" using c by (auto simp: name_char_def)
  ultimately show ?thesis using n by (simp add: clean_word_def)
qed

lemma ensure_available_facts:
  assumes "ensureScaffoldTargetAvailable env (abs_path (rw @ vs)) label h = (h', e)"
  shows "hRuns h' = hRuns h"
    and "link_free rw (hDisk h) \<Longrightarrow> \<forall>w \<in> set (rw @ vs). clean_word True w \<Longrightarrow> stays rw (hDisk h) (hDisk h')"
proof -
  obtain d x where m: "os_MkdirAll (xOs env) (abs_path (rw @ vs)) (hDisk h) = (d, x)" by fastforce
  have e: "h' = h \<or> h' = h\<lparr>hDisk := d\<rparr>"
    using assms m by (auto simp: ensureScaffoldTargetAvailable_def split: option.splits node.splits)
  show "hRuns h' = hRuns h" using e by auto
  show "link_free rw (hDisk h) \<Longrightarrow> \<forall>w \<in> set (rw @ vs). clean_word True w \<Longrightarrow> stays rw (hDisk h) (hDisk h')"
    using e MkdirAll_inside [OF _ _ _ m, of rw] by (auto simp: stays_refl)
qed

lemma resolveScaffoldRoot_facts:
  assumes "resolveScaffoldRoot env parent rootValue (sanitizeProjectName s) h = (h', r)" "rooted_at env rw"
  shows "hRuns h' = hRuns h"
    and "link_free rw (hDisk h) \<Longrightarrow> stays rw (hDisk h) (hDisk h')"
    and "r = Inr (dir, rel, label) \<Longrightarrow> \<exists>vs. dir = abs_path (rw @ vs) \<and> (\<forall>w \<in> set (rw @ vs). clean_word True w)"
proof -
  have rw: "\<forall>w \<in> set rw. clean_word True w" using assms(2) by (simp add: rooted_at_def)
  have "hRuns h' = hRuns h \<and> (link_free rw (hDisk h) \<longrightarrow> stays rw (hDisk h) (hDisk h')) \<and>
    (r = Inr (dir, rel, label) \<longrightarrow> (\<exists>vs. dir = abs_path (rw @ vs) \<and> (\<forall>w \<in> set (rw @ vs). clean_word True w)))"
  proof (cases "TrimSpace rootValue = []")
    case False
    show ?thesis
    proof (cases "resolveWithDefault env (Some (AStr (TrimSpace rootValue))) ''.''")
      case (Inl e)
      then show ?thesis using assms(1) False by (auto simp: resolveScaffoldRoot_def Let_def stays_refl)
    next
      case (Inr pr)
      obtain p q where pr: "pr = (p, q)" by fastforce
      obtain vs where vs: "\<forall>w \<in> set vs. clean_word True w" "p = abs_path (rw @ vs)"
        using resolve_below [OF assms(2)] Inr pr by blast
      obtain h1 e where e: "ensureScaffoldTargetAvailable env p (TrimSpace rootValue) h = (h1, e)" by fastforce
      have "h' = h1" "r = Inr (dir, rel, label) \<longrightarrow> dir = p"
        using assms(1) False Inr pr e by (auto simp: resolveScaffoldRoot_def Let_def split: option.splits)
      then show ?thesis using ensure_available_facts [OF e [unfolded vs(2)]] vs rw by (auto simp: ball_Un)
    qed
  next
    case True
    show ?thesis
    proof (cases "resolveWithDefault env parent ''.''")
      case (Inl e)
      then show ?thesis using assms(1) True by (auto simp: resolveScaffoldRoot_def Let_def stays_refl)
    next
      case (Inr pr)
      obtain p q where pr: "pr = (p, q)" by fastforce
      obtain vs where vs: "\<forall>w \<in> set vs. clean_word True w" "p = abs_path (rw @ vs)"
        using resolve_below [OF assms(2)] Inr pr by blast
      let ?n = "sanitizeProjectName s"
      show ?thesis
      proof (cases "?n = []")
        case True
        then show ?thesis using assms(1) \<open>TrimSpace rootValue = []\<close> Inr pr by (auto simp: resolveScaffoldRoot_def Let_def stays_refl)
      next
        case False
        have n: "clean_word True ?n" by (rule sanitized_word [OF False])
        have j: "path_join p ?n = abs_path (rw @ vs @ [?n])"
          using path_join_words [of "rw @ vs" "[?n]"] vs rw n by (simp add: ball_Un)
        obtain h1 e where e: "ensureScaffoldTargetAvailable env (path_join p ?n) ?n h = (h1, e)" by fastforce
        have "h' = h1" "r = Inr (dir, rel, label) \<longrightarrow> dir = abs_path (rw @ vs @ [?n])"
          using assms(1) True False Inr pr e j by (auto simp: resolveScaffoldRoot_def Let_def split: option.splits)
        moreover have "\<forall>w \<in> set (rw @ vs @ [?n]). clean_word True w" using vs rw n by auto
        ultimately show ?thesis using ensure_available_facts [OF e [unfolded j]] by blast
      qed
    qed
  qed
  then show "hRuns h' = hRuns h" "link_free rw (hDisk h) \<Longrightarrow> stays rw (hDisk h) (hDisk h')"
    "r = Inr (dir, rel, label) \<Longrightarrow> \<exists>vs. dir = abs_path (rw @ vs) \<and> (\<forall>w \<in> set (rw @ vs). clean_word True w)"
    by blast+
qed

lemma write_files_runs: "write_files env dir fs h = (h', e) \<Longrightarrow> hRuns h' = hRuns h"
  by (induction env dir fs h rule: write_files.induct) (auto split: prod.splits option.splits dest: write_under_runs)

lemma write_files_inside:
  assumes "\<forall>f \<in> set fs. \<exists>us. us \<noteq> [] \<and> (\<forall>w \<in> set us. clean_word True w) \<and> path_clean (fst f) = join_with ''/'' us"
    and "\<forall>w \<in> set (rw @ vs). clean_word True w" "link_free rw (hDisk h)" "write_files env (abs_path (rw @ vs)) fs h = (h', e)"
  shows "stays rw (hDisk h) (hDisk h')"
  using assms
proof (induction fs arbitrary: h)
  case Nil
  then show ?case by (simp add: stays_refl)
next
  case (Cons f fs)
  obtain n c where f: "f = (n, c)" by fastforce
  obtain us where us: "us \<noteq> []" "\<forall>w \<in> set us. clean_word True w" "path_clean n = join_with ''/'' us" using Cons.prems(1) f by auto
  have j: "path_join (abs_path (rw @ vs)) (path_clean n) = abs_path (rw @ vs @ us)"
    using path_join_words [of "rw @ vs" us] Cons.prems(2) us by simp
  have w: "\<forall>w \<in> set (rw @ vs @ us). clean_word True w" using Cons.prems(2) us(2) by auto
  obtain h1 x where x: "write_under env (abs_path (rw @ vs @ us)) c h = (h1, x)" by fastforce
  have s: "stays rw (hDisk h) (hDisk h1)" by (rule write_under_inside [OF Cons.prems(3) w x])
  show ?case
  proof (cases x)
    case None
    then have w': "write_files env (abs_path (rw @ vs)) fs h1 = (h', e)" using Cons.prems(4) f j x by simp
    have l: "link_free rw (hDisk h1)" using s by (simp add: stays_def)
    have "stays rw (hDisk h1) (hDisk h')" by (rule Cons.IH [OF _ Cons.prems(2) l w']) (use Cons.prems(1) in simp)
    with s show ?thesis by (rule stays_trans)
  next
    case (Some a)
    then show ?thesis using Cons.prems(4) f j x s by simp
  qed
qed

lemma git_step_ran: "ran allowed h (fst (git_step env dir (''git'' # as) label (h, e)))"
proof (cases e)
  case None
  obtain h1 x where s: "start env dir (''git'' # as) [] h = (h1, x)" by fastforce
  then show ?thesis using None ran_start [OF s, of allowed] by (simp add: git_step_def)
qed (simp add: git_step_def)

lemma init_repository_facts:
  assumes "init_repository env request dir h = (h', e)"
  shows "ran allowed h h'" "\<not> asBool (request ''initialize_git'') \<Longrightarrow> h' = h"
proof -
  obtain h1 x where 1: "git_step env dir [''git'', ''init''] ''git init'' (h, None) = (h1, x)" by fastforce
  obtain h2 y where 2: "git_step env [] [''git'', ''-C'', dir, ''add'', ''.''] ''git add'' (h1, x) = (h2, y)" by fastforce
  let ?commit = "[''git'', ''-C'', dir, ''-c'', ''user.name=Codex'', ''-c'', ''user.email=codex@example.com'', ''commit'', ''-m'',
    ''Initial scaffold'']"
  obtain h3 z where 3: "git_step env [] ?commit ''git commit'' (h2, y) = (h3, z)" by fastforce
  have "ran allowed h h1" "ran allowed h1 h2" "ran allowed h2 h3"
    using git_step_ran [of h env dir "[''init'']" "''git init''" None] git_step_ran [of h1 env "[]" "[''-C'', dir, ''add'', ''.'']" "''git add''" x]
      git_step_ran [of h2 env "[]" "tl ?commit" "''git commit''" y] 1 2 3 by simp_all
  moreover have "h' = h \<or> h' = h1 \<or> h' = h3" using assms 1 2 3 by (auto simp: init_repository_def Let_def split: if_splits)
  ultimately show "ran allowed h h'" using ran_trans ran_same by metis
  show "\<not> asBool (request ''initialize_git'') \<Longrightarrow> h' = h" using assms by (simp add: init_repository_def)
qed

end
