(* ===== verification/Executor_Contract.thy ===== *)
theory Executor_Contract
  imports Executor_Guarantees
begin

text \<open>
  The contract of the executor as a whole: which tools keep the files outside the workspace, which commands
  a claim can start, what a required approval holds back, and the two ways around these limits.
\<close>

section \<open>Tools\<close>

lemma scaffold_into_facts:
  assumes "scaffold_into env request ty st (abs_path (rw @ vs)) rel label files h = (h', r)"
  shows "ran allowed h h'"
    and "link_free rw (hDisk h) \<Longrightarrow> git_reads env \<Longrightarrow> \<not> asBool (request ''initialize_git'') \<Longrightarrow> \<forall>w \<in> set (rw @ vs). clean_word True w \<Longrightarrow>
      \<forall>f \<in> set files. \<exists>us. us \<noteq> [] \<and> (\<forall>w \<in> set us. clean_word True w) \<and> path_clean (fst f) = join_with ''/'' us \<Longrightarrow>
      kept rw (hDisk h) (hDisk h')"
proof -
  obtain h1 e1 where w: "write_files env (abs_path (rw @ vs)) files h = (h1, e1)" by fastforce
  obtain h2 e2 where i: "init_repository env request (abs_path (rw @ vs)) h1 = (h2, e2)" by fastforce
  let ?res = "no_result\<lparr>rsStatus := ''success'', rsSummary := Some (''Scaffolded '' @ ty @ '' project '' @ label),
    rsStdout := Some (join_with [CHR 0x0A] (map (\<lambda>f. joinScaffoldRelativePath rel (fst f)) files)),
    rsChangedFiles := map (\<lambda>f. joinScaffoldRelativePath rel (fst f)) files,
    rsArtifacts := scaffold_artifacts request ty st rel files\<rparr>"
  obtain h3 q where g: "withGitArtifacts env ?res h2 = (h3, q)" by fastforce
  have e: "h' = h1 \<or> h' = h2 \<or> h' = h3"
    using assms w i g by (cases e1; cases e2) (simp_all add: scaffold_into_def)
  have r1: "ran allowed h h1" using write_files_runs [OF w] by simp
  have r2: "ran allowed h h2" using r1 init_repository_facts(1) [OF i] by (rule ran_trans)
  have r3: "ran allowed h h3" using r2 withGitArtifacts_facts(1) [OF g] by (rule ran_trans)
  from e r1 r2 r3 show "ran allowed h h'" by auto
  assume l: "link_free rw (hDisk h)" and gr: "git_reads env" and n: "\<not> asBool (request ''initialize_git'')"
    and c: "\<forall>w \<in> set (rw @ vs). clean_word True w"
    and fs: "\<forall>f \<in> set files. \<exists>us. us \<noteq> [] \<and> (\<forall>w \<in> set us. clean_word True w) \<and> path_clean (fst f) = join_with ''/'' us"
  have "stays rw (hDisk h) (hDisk h1)" by (rule write_files_inside [OF fs c l w])
  moreover have "h2 = h1" by (rule init_repository_facts(2) [OF i n])
  moreover have "same_files (hDisk h2) (hDisk h3)" by (rule withGitArtifacts_facts(2) [OF g gr])
  ultimately show "kept rw (hDisk h) (hDisk h')" using e kept_stays kept_same by metis
qed

lemma scaffoldProject_facts:
  assumes "scaffoldProject env request h = (h', r)" "rooted_at env rw"
  shows "ran allowed h h'"
    and "link_free rw (hDisk h) \<Longrightarrow> git_reads env \<Longrightarrow> walks_maps env \<Longrightarrow> \<not> asBool (request ''initialize_git'') \<Longrightarrow>
      kept rw (hDisk h) (hDisk h')"
proof -
  let ?name = "sanitizeProjectName (asString (request ''project_name''))"
  obtain h1 x where x: "resolveScaffoldRoot env (request ''parent_directory'') (trimmed request ''project_root'') ?name h = (h1, x)"
    by (metis prod.collapse)
  note f1 = resolveScaffoldRoot_facts [OF x assms(2)]
  have r1: "ran allowed h h1" using f1(1) by simp
  have "h' = h1 \<or> (\<exists>ty st n g f dir rel label. x = Inr (dir, rel, label) \<and>
      scaffold_into env request ty st dir rel label (scaffoldFiles env ty st n g f) h1 = (h', r))"
    using assms(1) x by (auto simp: scaffoldProject_def Let_def simp del: firstNonEmptyString.simps split: sum.splits if_splits)
  then have "ran allowed h h' \<and> (link_free rw (hDisk h) \<longrightarrow> git_reads env \<longrightarrow> walks_maps env \<longrightarrow>
    \<not> asBool (request ''initialize_git'') \<longrightarrow> kept rw (hDisk h) (hDisk h'))"
  proof
    assume "h' = h1"
    then show ?thesis using r1 f1(2) kept_stays by simp
  next
    assume "\<exists>ty st n g f dir rel label. x = Inr (dir, rel, label) \<and>
      scaffold_into env request ty st dir rel label (scaffoldFiles env ty st n g f) h1 = (h', r)"
    then obtain ty st n g f dir rel label where d: "x = Inr (dir, rel, label)"
      and s: "scaffold_into env request ty st dir rel label (scaffoldFiles env ty st n g f) h1 = (h', r)" by blast
    obtain vs where vs: "dir = abs_path (rw @ vs)" "\<forall>w \<in> set (rw @ vs). clean_word True w" using f1(3) [OF d] by blast
    note f2 = scaffold_into_facts [OF s [unfolded vs(1)]]
    have "kept rw (hDisk h) (hDisk h')" if l: "link_free rw (hDisk h)" and gr: "git_reads env" and t: "walks_maps env"
      and ng: "\<not> asBool (request ''initialize_git'')"
    proof -
      have s1: "stays rw (hDisk h) (hDisk h1)" by (rule f1(2) [OF l])
      have l1: "link_free rw (hDisk h1)" using s1 by (simp add: stays_def)
      have fs: "\<forall>e \<in> set (scaffoldFiles env ty st n g f). \<exists>us. us \<noteq> [] \<and> (\<forall>w \<in> set us. clean_word True w) \<and> path_clean (fst e) = join_with ''/'' us"
        using scaffold_paths [OF t] by blast
      show ?thesis using kept_stays [OF s1] f2(2) [OF l1 gr ng vs(2) fs] by (simp add: kept_def)
    qed
    moreover have "ran allowed h h'" by (rule ran_trans [OF r1 f2(1)])
    ultimately show ?thesis by blast
  qed
  then show "ran allowed h h'" "link_free rw (hDisk h) \<Longrightarrow> git_reads env \<Longrightarrow> walks_maps env \<Longrightarrow>
      \<not> asBool (request ''initialize_git'') \<Longrightarrow> kept rw (hDisk h) (hDisk h')"
    by blast+
qed

lemma quiet_tools:
  "readFile env request h = (h', r) \<Longrightarrow> h' = h" "listFiles env request h = (h', r) \<Longrightarrow> h' = h"
  "researchProject env request h = (h', r) \<Longrightarrow> h' = h" "codeAnalysis env request h = (h', r) \<Longrightarrow> h' = h"
  by (auto simp: readFile_def listFiles_def researchProject_def codeAnalysis_def Let_def split: prod.splits)

definition review_tool :: "string \<Rightarrow> bool" where
  "review_tool tool \<longleftrightarrow> tool \<in> {''review_project'', ''review_workspace''}"

definition command_tool :: "string \<Rightarrow> bool" where
  "command_tool tool \<longleftrightarrow>
     tool \<in> {''run_command'', ''run_tests'', ''apply_patch'', ''git_status'', ''git_diff''} \<or> review_tool tool"

lemma git_tool_ran: "runSubprocess env (''git'' # as) summary h = (h', r) \<Longrightarrow> ran allowed h h'"
  by (erule runSubprocess_ran) simp

lemma run_tool_ran:
  assumes "run_tool env tool request h = (h', r)" "rooted_at env rw" "\<not> review_tool tool"
  shows "ran allowed h h'"
proof -
  have e: "h' = h \<or> writeFile env request h = (h', r) \<or> scaffoldProject env request h = (h', r) \<or>
    applyPatch env request h = (h', r) \<or> runCommand env request h = (h', r) \<or> runTests env request h = (h', r) \<or>
    runSubprocess env [''git'', ''status'', ''--short''] ''git status'' h = (h', r) \<or>
    runSubprocess env [''git'', ''diff'', ''--no-ext-diff''] ''git diff'' h = (h', r)"
    using assms(1,3) quiet_tools unfolding run_tool_def review_tool_def by (auto split: if_splits)
  then consider "h' = h" | "writeFile env request h = (h', r)" | "scaffoldProject env request h = (h', r)"
    | "applyPatch env request h = (h', r)" | "runCommand env request h = (h', r)" | "runTests env request h = (h', r)"
    | "runSubprocess env [''git'', ''status'', ''--short''] ''git status'' h = (h', r)"
    | "runSubprocess env [''git'', ''diff'', ''--no-ext-diff''] ''git diff'' h = (h', r)" by blast
  then show ?thesis
    by cases (use writeFile_facts(1) scaffoldProject_facts(1) [OF _ assms(2)] applyPatch_ran runCommand_ran runTests_ran
        git_tool_ran in \<open>auto\<close>)
qed

lemma run_tool_keeps:
  assumes "run_tool env tool request h = (h', r)" "rooted_at env rw" "\<not> command_tool tool"
    and "link_free rw (hDisk h)" "git_reads env" "walks_maps env" "\<not> asBool (request ''initialize_git'')"
  shows "kept rw (hDisk h) (hDisk h')"
proof -
  have "h' = h \<or> writeFile env request h = (h', r) \<or> scaffoldProject env request h = (h', r)"
    using assms(1,3) quiet_tools unfolding run_tool_def command_tool_def review_tool_def by (auto split: if_splits)
  then consider "h' = h" | "writeFile env request h = (h', r)" | "scaffoldProject env request h = (h', r)" by blast
  then show ?thesis
  proof cases
    case 1
    then show ?thesis by (simp add: same_kept)
  next
    case 2
    from writeFile_facts(2) [OF 2 assms(2,4,5)] show ?thesis .
  next
    case 3
    from scaffoldProject_facts(2) [OF 3 assms(2) assms(4-7)] show ?thesis .
  qed
qed

lemma ExecuteTask_cases:
  assumes "ExecuteTask env metadata h = (h', r)" "metadata ''tool_request'' = Some (AMap req)"
  shows "h' = h \<or>
    (run_tool env (trimmed req ''tool'') ((mergeToolRequestWithMetadata req metadata)(''_task_metadata'' \<mapsto> AMap metadata)) h = (h', r) \<and>
     ensureToolCapabilityAllowed metadata (trimmed req ''tool'') = None \<and>
     \<not> needs_approval metadata ((mergeToolRequestWithMetadata req metadata)(''_task_metadata'' \<mapsto> AMap metadata)))"
proof -
  have "trimmed (mergeToolRequestWithMetadata req metadata) ''tool'' = trimmed req ''tool''"
    by (simp add: trimmed_def mergeToolRequestWithMetadata_def inherited_keys_def split: option.split)
  then show ?thesis using assms by (auto simp: ExecuteTask_def Let_def split: if_splits option.splits)
qed

end
