(* ===== verification/Executor_Claims.thy ===== *)
theory Executor_Claims
  imports Executor_Contract
begin

text \<open>
  The properties of the executor, and a small machine on which their hypotheses hold.
\<close>

section \<open>A machine\<close>

definition quiet :: outcome where
  "quiet = \<lparr>oStdout = [], oStderr = [], oExit = 0, oError = None\<rparr>"

definition lab_env :: exec_env where
  "lab_env = \<lparr>xRoot = ''/w'', xOs = (\<lambda>op p. op), xRun = (\<lambda>c d. (d, quiet)), xMatch = (\<lambda>p n. Inr True), xJson = (\<lambda>v. ''{}''),
     xQuote = (\<lambda>s. s), xAnalyze = (\<lambda>r ts d. Inl ''off''), xScore = (\<lambda>i. ''1''), xOrder = (\<lambda>xs. xs)\<rparr>"

definition lab_host :: host where
  "lab_host = \<lparr>hDisk = [([''w''], Dir)], hRuns = []\<rparr>"

lemma lab_rooted: "rooted_at lab_env [''w'']"
  by (simp add: rooted_at_def lab_env_def abs_path_def clean_word_def)

lemma lab_git: "git_reads lab_env"
  by (simp add: git_reads_def lab_env_def)

lemma lab_templates: "walks_maps lab_env"
  by (simp add: walks_maps_def lab_env_def)

lemma lab_links: "link_free [''w''] (hDisk lab_host)"
proof -
  have "p = [] \<or> p = [''w'']" if "prefix p [''w'']" for p using that by (cases p) auto
  moreover have "node_at (hDisk lab_host) q \<noteq> Some (Link t)" for q t
    by (simp add: node_at_def lab_host_def)
  ultimately show ?thesis by (auto simp: link_free_def node_at_def lab_host_def)
qed

definition claim_of :: "(string \<times> any_val) list \<Rightarrow> any_map" where
  "claim_of fs = [''tool_request'' \<mapsto> AMap (map_of fs)]"

lemma claim_simps [simp]:
  "claim_of fs ''tool_request'' = Some (AMap (map_of fs))" "k \<noteq> ''tool_request'' \<Longrightarrow> claim_of fs k = None"
  by (simp_all add: claim_of_def)

lemmas text_eval = trimmed_def asString_def TrimSpace_solid solid_def visible_def

definition write_claim :: any_map where
  "write_claim = claim_of [(''tool'', AStr ''write_file''), (''path'', AStr ''a/b''), (''content'', AStr ''x'')]"

definition review_claim :: any_map where
  "review_claim = claim_of [(''tool'', AStr ''review_workspace''), (''test_command'', AArr [AStr ''rm'', AStr ''-r''])]"

definition write_body :: any_map where
  "write_body = [''tool'' \<mapsto> AStr ''write_file'', ''path'' \<mapsto> AStr ''a/b'', ''content'' \<mapsto> AStr ''x'']"

definition review_body :: any_map where
  "review_body = [''tool'' \<mapsto> AStr ''review_workspace'', ''test_command'' \<mapsto> AArr [AStr ''rm'', AStr ''-r'']]"

lemma write_request: "write_claim ''tool_request'' =
    Some (AMap write_body)"
  unfolding write_claim_def claim_simps write_body_def by (auto simp: fun_eq_iff)

lemma claims_only: "k \<noteq> ''tool_request'' \<Longrightarrow> write_claim k = None" "k \<noteq> ''tool_request'' \<Longrightarrow> review_claim k = None"
  by (simp_all add: write_claim_def review_claim_def)

lemma review_request: "review_claim ''tool_request'' =
    Some (AMap review_body)"
  unfolding review_claim_def claim_simps review_body_def by (auto simp: fun_eq_iff)

lemma lab_root_dir: "os_Stat (hDisk lab_host) (xRoot lab_env) = Some Dir"
proof -
  have "path_words ''/w'' = [''w'']" using path_words_abs [of "[''w'']"] by (simp add: abs_path_def clean_word_def)
  then show ?thesis
    by (simp add: os_Stat_def physical_def lab_env_def lab_host_def follow_word clean_word_def node_at_def)
qed

section \<open>Paths\<close>

text \<open>
  C31: whatever path a request names, the executor resolves it to the workspace root or below it, without any
  step upwards, and when the reported relative path neither begins nor ends with a blank, resolving it again
  gives the same file. A path is trimmed before it is cleaned, so a name that cleaning leaves with a blank at its
  end (from \<^verbatim>\<open>"a /."\<close>) is reported with it and read back as another file.
\<close>

theorem resolved_path_is_read_back:
  assumes "rooted_at env rw" and "resolveWithDefault env raw fallback = Inr (p, rel)"
  shows "(p = xRoot env \<or> HasPrefix p (if rw = [] then ''/'' else xRoot env @ ''/'')) \<and> ''..'' \<notin> set (split_on CHR ''/'' p) \<and>
    (TrimSpace rel = rel \<longrightarrow> resolveWithDefault env (Some (AStr rel)) fallback' = Inr (p, rel))"
proof -
  obtain vs where vs: "\<forall>w \<in> set vs. clean_word True w" "p = abs_path (rw @ vs)" "rel = rel_text vs"
    using resolve_below [OF assms(1,2)] by blast
  have rw: "xRoot env = abs_path rw" "\<forall>w \<in> set rw. clean_word True w" using assms(1) by (auto simp: rooted_at_def)
  have "p = xRoot env \<or> HasPrefix p (if rw = [] then ''/'' else xRoot env @ ''/'')"
  proof (cases "rw = [] \<or> vs = []")
    case True
    then show ?thesis using vs rw by (auto simp: abs_path_def HasPrefix_def)
  next
    case False
    then show ?thesis using vs rw by (simp add: abs_path_def join_append HasPrefix_def)
  qed
  moreover have "''..'' \<notin> set (split_on CHR ''/'' p)"
  proof -
    have w: "\<forall>w \<in> set (rw @ vs). clean_word True w" using vs(1) rw(2) by auto
    have "set (split_on CHR ''/'' p) \<subseteq> insert [] (set (rw @ vs))"
      unfolding vs(2) split_on_abs [OF w] by (auto split: if_splits)
    moreover have "''..'' \<notin> insert [] (set (rw @ vs))" using w unfolding clean_word_def by blast
    ultimately show ?thesis by blast
  qed
  moreover have "TrimSpace rel = rel \<longrightarrow> resolveWithDefault env (Some (AStr rel)) fallback' = Inr (p, rel)"
    using resolve_rel_text [OF assms(1) vs(1)] vs by simp
  ultimately show ?thesis by blast
qed

lemma resolved_path_is_read_back_witness:
  "resolveWithDefault lab_env (Some (AStr ''a'')) ''b'' = Inr (''/w/a'', ''a'')"
proof -
  have r: "resolveWithDefault lab_env (Some (AStr ''a'')) [] = Inr (''/w/a'', ''a'')"
    using resolve_rel_text [OF lab_rooted, of "[''a'']" "[]"]
    by (simp add: rel_text_def abs_path_def clean_word_def TrimSpace_solid solid_def visible_def)
  show ?thesis
    using resolved_path_is_read_back [OF lab_rooted r, of "''b''"] by (simp add: TrimSpace_solid solid_def visible_def)
qed

text \<open>The blank that cleaning uncovers.\<close>

lemma uncovered_blank_reads_another_file:
  "resolveWithDefault lab_env (Some (AStr ''a /.'')) fallback = Inr (''/w/a '', ''a '')"
  "resolveWithDefault lab_env (Some (AStr ''a '')) fallback = Inr (''/w/a'', ''a'')"
  by (simp_all add: resolveWithDefault_def lab_env_def) code_simp+

section \<open>What stays\<close>

text \<open>
  C32: the tools that write files themselves stay in the workspace: as long as no link lies below the
  workspace and the project is not put under version control (\<^verbatim>\<open>initialize_git\<close>), reading, listing, writing,
  researching, analysing and scaffolding leave every file outside the workspace as it was, whatever the request
  asks for, apart from what lies in a directory named \<^verbatim>\<open>.git\<close>: the queries of git that complete a result
  (\<^verbatim>\<open>rev-parse\<close>, \<^verbatim>\<open>status\<close>, \<^verbatim>\<open>diff\<close>) may refresh the data of a repository there and are taken to change
  nothing else.
\<close>

theorem file_tools_stay_in_the_workspace:
  assumes "ExecuteTask env metadata h = (h', r)" "metadata ''tool_request'' = Some (AMap req)"
    and "\<not> command_tool (trimmed req ''tool'')" "\<not> asBool (req ''initialize_git'')"
    and "rooted_at env rw" "link_free rw (hDisk h)" "git_reads env" "walks_maps env" and "\<not> prefix rw q" "''.git'' \<notin> set q"
  shows "node_at (hDisk h') q = node_at (hDisk h) q"
proof -
  let ?request = "(mergeToolRequestWithMetadata req metadata)(''_task_metadata'' \<mapsto> AMap metadata)"
  have "?request ''initialize_git'' = req ''initialize_git''"
    by (simp add: mergeToolRequestWithMetadata_def inherited_keys_def split: option.split)
  then have "\<not> asBool (?request ''initialize_git'')" using assms(4) by simp
  with ExecuteTask_cases [OF assms(1,2)] run_tool_keeps [OF _ assms(5,3,6,7,8)]
  have "kept rw (hDisk h) (hDisk h')" by (auto simp: same_kept)
  with assms(9,10) show ?thesis by (simp add: kept_def)
qed

lemma file_tools_stay_in_the_workspace_witness:
  "node_at (hDisk (fst (ExecuteTask lab_env write_claim lab_host))) [''etc''] = None"
proof -
  obtain h' r where e: "ExecuteTask lab_env write_claim lab_host = (h', r)" by fastforce
  have "node_at (hDisk h') [''etc''] = node_at (hDisk lab_host) [''etc'']"
    by (rule file_tools_stay_in_the_workspace [OF e write_request _ _ lab_rooted lab_links lab_git lab_templates])
      (simp_all add: write_body_def command_tool_def review_tool_def asBool_def text_eval)
  then show ?thesis unfolding e by (simp add: node_at_def lab_host_def)
qed

lemma key_free:
  "k \<notin> set inherited_keys \<Longrightarrow> mergeToolRequestWithMetadata req metadata k = req k"
  by (simp add: mergeToolRequestWithMetadata_def split: option.split)

text \<open>
  C33: apart from the two reviews, a claim can only start programs of the allow list: whatever command, patch or
  test run a request names, every command that the bridge starts for it begins with one of the twelve
  allowed names.
\<close>

theorem started_commands_are_allowed:
  assumes "ExecuteTask env metadata h = (h', r)" "metadata ''tool_request'' = Some (AMap req)"
    and "trimmed req ''tool'' \<notin> {''review_project'', ''review_workspace''}" "rooted_at env rw"
  shows "\<exists>cs. hRuns h' = hRuns h @ cs \<and> (\<forall>c \<in> set cs. cArgv c \<noteq> [] \<and> hd (cArgv c) \<in> set allowedCommands)"
proof -
  have "ran allowed h h'"
    using ExecuteTask_cases [OF assms(1,2)] run_tool_ran [OF _ assms(4)] assms(3) by (auto simp: review_tool_def)
  then show ?thesis by (fastforce simp: ran_def allowed_def list_all_iff)
qed

lemma started_commands_are_allowed_witness:
  "\<exists>cs. hRuns (fst (ExecuteTask lab_env write_claim lab_host)) = cs \<and> (\<forall>c \<in> set cs. cArgv c \<noteq> [] \<and> hd (cArgv c) \<in> set allowedCommands)"
proof -
  obtain h' r where e: "ExecuteTask lab_env write_claim lab_host = (h', r)" by fastforce
  show ?thesis
    unfolding e using started_commands_are_allowed [OF e write_request _ lab_rooted] by (simp add: write_body_def text_eval lab_host_def)
qed

section \<open>What is held back\<close>

text \<open>The capabilities of which one lets a tool run; none where the tool asks for none.\<close>

definition needed_capabilities :: "string \<Rightarrow> string set" where
  "needed_capabilities tool =
     (if tool \<in> {''read_file'', ''filesystem.read''} then {''filesystem.read'', ''filesystem''}
      else if tool \<in> {''list_files'', ''filesystem.list''} then {''filesystem.list'', ''filesystem''}
      else if tool \<in> {''write_file'', ''filesystem.write''} then {''filesystem.write'', ''filesystem''}
      else if tool = ''code_analysis'' then {''code.analysis''} else {})"

text \<open>
  C34: nothing happens before it may: while an approval is required and not granted, whatever the tool, or while
  the task lists its capabilities and the one that reading, listing or writing files or the code analysis needs
  is not among them, the claim leaves the machine as it was, and its result is an error or the wait for an
  approval. The other tools need no capability: a patch, a scaffold or a command writes files without
  \<^verbatim>\<open>filesystem.write\<close>.
\<close>

theorem held_back_tools_touch_nothing:
  assumes "metadata ''tool_request'' = Some (AMap req)"
    and "(asBool (metadata ''requires_approval'') \<or> asBool (req ''requires_approval'')) \<and> \<not> asBool (metadata ''approval_granted'') \<or>
      needed_capabilities (trimmed req ''tool'') \<noteq> {} \<and> allowedCapabilities metadata \<noteq> [] \<and>
        set (allowedCapabilities metadata) \<inter> needed_capabilities (trimmed req ''tool'') = {}"
  shows "\<exists>r. ExecuteTask env metadata h = (h, r) \<and> (\<forall>x. r = Inr x \<longrightarrow> rsStatus x = ''waiting_approval'')"
proof -
  let ?request = "(mergeToolRequestWithMetadata req metadata)(''_task_metadata'' \<mapsto> AMap metadata)"
  have t: "trimmed (mergeToolRequestWithMetadata req metadata) ''tool'' = trimmed req ''tool''"
    by (simp add: trimmed_def key_free inherited_keys_def)
  have a: "needs_approval metadata ?request \<longleftrightarrow>
      (asBool (metadata ''requires_approval'') \<or> asBool (req ''requires_approval'')) \<and> \<not> asBool (metadata ''approval_granted'')"
    by (simp add: needs_approval_def key_free inherited_keys_def)
  have c: "ensureToolCapabilityAllowed metadata (trimmed req ''tool'') \<noteq> None"
    if "needed_capabilities (trimmed req ''tool'') \<noteq> {}" "allowedCapabilities metadata \<noteq> []"
      "set (allowedCapabilities metadata) \<inter> needed_capabilities (trimmed req ''tool'') = {}"
    using that
    by (auto simp: needed_capabilities_def ensureToolCapabilityAllowed_def toolCapabilityMap_def Let_def HasPrefix_def split: if_splits)
  show ?thesis
  proof (cases "ensureToolCapabilityAllowed metadata (trimmed req ''tool'')")
    case (Some e)
    then show ?thesis using assms(1) by (simp add: ExecuteTask_def t Let_def)
  next
    case None
    then have "needs_approval metadata ?request" using assms(2) a c by blast
    with None show ?thesis using assms(1) by (simp add: ExecuteTask_def t Let_def approval_request_def)
  qed
qed

lemma held_back_tools_touch_nothing_witness:
  "fst (ExecuteTask lab_env (write_claim(''requires_approval'' \<mapsto> ABool True)) lab_host) = lab_host"
proof -
  let ?m = "write_claim(''requires_approval'' \<mapsto> ABool True)"
  have "?m ''tool_request'' = Some (AMap write_body)"
    by (simp add: write_request)
  from held_back_tools_touch_nothing [where metadata = ?m and req = write_body and h = lab_host and env = lab_env, OF this] show ?thesis by (auto simp: asBool_def claims_only)
qed

section \<open>Reviews\<close>

lemma review_root:
  assumes "rooted_at env rw" "req ''project_root'' = None"
  shows "resolveWithDefault env (Some (AStr (firstNonEmptyString [trimmed req ''project_root'', ''.'']))) ''.'' = Inr (xRoot env, ''.'')"
proof -
  have "TrimSpace ''.'' = ''.''" by (simp add: TrimSpace_solid solid_def visible_def)
  moreover from this have "firstNonEmptyString [trimmed req ''project_root'', ''.''] = ''.''"
    using assms(2) by (simp add: trimmed_def asString_def TrimSpace_solid solid_def)
  ultimately show ?thesis
    using resolve_rel_text [OF assms(1), of "[]"] assms(1) by (simp add: rel_text_def rooted_at_def)
qed

lemma executes_review:
  assumes "metadata ''tool_request'' = Some (AMap req)" "req ''tool'' = Some (AStr ''review_workspace'')"
    and "\<not> asBool (metadata ''requires_approval'')" "\<not> asBool (req ''requires_approval'')"
  shows "ExecuteTask env metadata h =
    reviewWorkspace env ((mergeToolRequestWithMetadata req metadata)(''_task_metadata'' \<mapsto> AMap metadata)) h"
proof -
  have "trimmed (mergeToolRequestWithMetadata req metadata) ''tool'' = ''review_workspace''"
    using assms(2) by (simp add: trimmed_def key_free inherited_keys_def asString_def TrimSpace_solid solid_def visible_def)
  then show ?thesis
    using assms(1,3,4)
    by (simp add: ExecuteTask_def ensureToolCapabilityAllowed_def toolCapabilityMap_def needs_approval_def key_free inherited_keys_def
        run_tool_def Let_def)
qed

lemma workspaceGitState_runs:
  "workspaceGitState env h = (h', t) \<Longrightarrow> \<exists>cs. hRuns h' = hRuns h @ cs"
  using workspaceGitState_facts(1) unfolding ran_def by blast

lemma reviewWorkspace_starts:
  assumes "resolveWithDefault env (Some (AStr (firstNonEmptyString [trimmed request ''project_root'', ''.'']))) ''.'' = Inr (dir, rel)"
    and "os_Stat (hDisk h) dir = Some Dir" "\<And>d. anyStringSliceDefault (request ''test_command'') d = argv"
  shows "\<exists>h' q cs. reviewWorkspace env request h = (h', Inr q) \<and>
    hRuns h' = hRuns h @ \<lparr>cDir = dir, cArgv = argv, cStdin = []\<rparr> # cs"
proof -
  obtain h1 x where s: "start env dir argv [] h = (h1, x)" by fastforce
  obtain h2 st where w: "workspaceGitState env h1 = (h2, st)" by (metis prod.collapse)
  obtain h3 q where q: "(case oError x of Some e \<Rightarrow> review_failed env request rel argv x e h1
      | None \<Rightarrow> review_passed env request rel argv x h1) = (h3, q)" by (metis prod.collapse)
  have "h3 = h2" using q w by (auto simp: review_failed_def review_passed_def Let_def split: option.splits prod.splits if_splits)
  moreover obtain cs where "hRuns h2 = hRuns h1 @ cs" using workspaceGitState_runs [OF w] by blast
  moreover have "hRuns h1 = hRuns h @ [\<lparr>cDir = dir, cArgv = argv, cStdin = []\<rparr>]"
    using s by (auto simp: start_def run_process_def split: prod.splits)
  moreover have "reviewWorkspace env request h = (h3, Inr q)"
    unfolding reviewWorkspace_def assms(1) using assms(2,3) s q by simp
  ultimately show ?thesis by simp
qed

text \<open>
  C35: a review is not bound to the allow list: the test command of a review request is started in the
  workspace as it is written, whichever program it names and whatever capabilities the task was given,
  as long as no approval is outstanding.
\<close>

theorem review_runs_any_command:
  assumes "metadata ''tool_request'' = Some (AMap req)" "req ''tool'' = Some (AStr ''review_workspace'')"
    and "req ''test_command'' = Some (AArr (map AStr argv))" "argv \<noteq> []" "\<forall>a \<in> set argv. TrimSpace a = a \<and> a \<noteq> []"
    and "req ''project_root'' = None" "rooted_at env rw" "os_Stat (hDisk h) (xRoot env) = Some Dir"
    and "\<not> asBool (metadata ''requires_approval'')" "\<not> asBool (req ''requires_approval'')"
  shows "\<exists>h' r cs. ExecuteTask env metadata h = (h', Inr r) \<and>
    hRuns h' = hRuns h @ \<lparr>cDir = xRoot env, cArgv = argv, cStdin = []\<rparr> # cs"
proof -
  let ?m = "mergeToolRequestWithMetadata req metadata"
  let ?request = "?m(''_task_metadata'' \<mapsto> AMap metadata)"
  note e = executes_review [OF assms(1,2,9,10), of env h]
  have r: "resolveWithDefault env (Some (AStr (firstNonEmptyString [trimmed ?request ''project_root'', ''.'']))) ''.'' = Inr (xRoot env, ''.'')"
    by (rule review_root [OF assms(7)]) (simp add: key_free inherited_keys_def assms(6))
  have a: "anyStringSliceDefault (?request ''test_command'') d = argv" for d
    using assms(3,4,5) by (auto simp: anyStringSliceDefault_def anyStringSlice_def key_free inherited_keys_def asString_def Let_def
        comp_def image_iff map_idI)
  from reviewWorkspace_starts [OF r assms(8) a] show ?thesis unfolding e by blast
qed

lemma review_runs_any_command_witness:
  "\<exists>h' r cs. ExecuteTask lab_env review_claim lab_host = (h', Inr r) \<and>
    hRuns h' = \<lparr>cDir = ''/w'', cArgv = [''rm'', ''-r''], cStdin = []\<rparr> # cs"
  using review_runs_any_command [where metadata = review_claim and req = review_body and argv = "[''rm'', ''-r'']", OF review_request _ _ _ _ _ lab_rooted lab_root_dir]
  by (simp add: review_body_def asBool_def claims_only text_eval) (simp add: lab_env_def lab_host_def)

lemma reviewWorkspace_result:
  assumes "reviewWorkspace env request h = (h', Inr q)"
  obtains argv rel x h1 h2 diff changed where "workspaceGitState env h1 = (h2, diff, changed)"
    and "(case oError x of Some e \<Rightarrow> review_failed env request rel argv x e h1 | None \<Rightarrow> review_passed env request rel argv x h1) = (h', q)"
proof -
  obtain dir rel where r: "resolveWithDefault env (Some (AStr (firstNonEmptyString [trimmed request ''project_root'', ''.'']))) ''.'' = Inr (dir, rel)"
    using assms by (auto simp: reviewWorkspace_def split: sum.splits)
  define argv where "argv = anyStringSliceDefault (request ''test_command'') [''python3'', ''-c'', ''print('' @ [CHR 0x27] @ ''ok'' @ [CHR 0x27] @ '')'']"
  obtain h1 x where s: "start env dir argv [] h = (h1, x)" by fastforce
  obtain h2 diff changed where w: "workspaceGitState env h1 = (h2, diff, changed)" by (metis prod.collapse)
  have "(case oError x of Some e \<Rightarrow> review_failed env request rel argv x e h1 | None \<Rightarrow> review_passed env request rel argv x h1) = (h', q)"
    using assms s unfolding reviewWorkspace_def r argv_def [symmetric]
    by (auto simp: Let_def split: prod.splits if_splits)
  with w show thesis by (rule that)
qed

lemma reviewWorkspace_answers:
  assumes "resolveWithDefault env (Some (AStr (firstNonEmptyString [trimmed request ''project_root'', ''.'']))) ''.'' = Inr (dir, rel)"
    and "os_Stat (hDisk h) dir = Some Dir"
  shows "\<exists>h' q. reviewWorkspace env request h = (h', Inr q)"
  using assms unfolding reviewWorkspace_def by (auto simp: Let_def split: prod.splits)

end
