(* ===== verification/Executor_Scaffold.thy ===== *)
theory Executor_Scaffold
  imports Executor_Claims
begin

text \<open>
  What a scaffold delivers: every file of its project type lies below the project root with the text of its
  template, and these are the files that the contract of the type names.
\<close>

section \<open>Files that stay\<close>





section \<open>The files of a scaffold\<close>










text \<open>
  A small web project has no test command of its own: with the default runtime the command of the scaffold
  compiles a file that the scaffold does not write.
\<close>

lemma web_scaffold_tests_a_missing_file:
  "last (defaultBridgeTestCommand ''web_small'' ''python'') = ''main.py'' \<and> ''main.py'' \<notin> set (expectedProjectFiles ''web_small'')"
  by code_simp

end
