(* ===== verification/Executor_Repairs.thy ===== *)
theory Executor_Repairs
  imports Executor_Claims
begin

text \<open>
  What a review tells the next repair, and the way a link leads out of the workspace.
\<close>

section \<open>The scope of the next repair\<close>

lemma set_unique_strings: "set (unique_strings seen xs) = TrimSpace ` set xs - {[]} - set seen"
  by (induction seen xs rule: unique_strings.induct) (auto simp: Let_def)

lemma set_uniqueNonEmpty: "set (uniqueNonEmptyStrings xs) = TrimSpace ` set xs - {[]}"
  by (simp add: uniqueNonEmptyStrings_def set_unique_strings)

lemma in_uniqueNonEmpty: "p \<in> set (uniqueNonEmptyStrings xs) \<Longrightarrow> TrimSpace p = p \<and> p \<noteq> []"
  by (auto simp: set_uniqueNonEmpty TrimSpace_idem)

definition planner_kinds :: "string list" where
  "planner_kinds = [''planner_scope_confirmed'', ''planner_scope_contradicted'', ''planner_rejected_scope_confirmed'',
     ''planner_rejected_scope_contradicted'']"

lemma kind_of_scope_finding [simp]:
  "trimmed (scope_finding k sev m e c a) ''kind'' = TrimSpace k" "trimmed (retrieval_finding k sev m e c a) ''kind'' = TrimSpace k"
  by (simp_all add: scope_finding_def retrieval_finding_def trimmed_def asString_def)

lemma other_kinds:
  "f \<in> set (buildReviewRetrievalFindings a refs changed) \<Longrightarrow> trimmed f ''kind'' \<notin> set planner_kinds"
  "trimmed (missing_diff_finding rel) ''kind'' \<notin> set planner_kinds"
proof -
  show "trimmed (missing_diff_finding rel) ''kind'' \<notin> set planner_kinds"
    by (simp add: missing_diff_finding_def planner_kinds_def trimmed_def asString_def TrimSpace_solid solid_def visible_def)
  show "f \<in> set (buildReviewRetrievalFindings a refs changed) \<Longrightarrow> trimmed f ''kind'' \<notin> set planner_kinds"
    by (auto simp: buildReviewRetrievalFindings_def planner_kinds_def TrimSpace_solid solid_def visible_def split: if_splits)
qed

lemma validation_kinds:
  "f \<in> set (buildValidationFailureFindings argv code m) \<Longrightarrow> trimmed f ''kind'' \<notin> set planner_kinds"
proof -
  assume "f \<in> set (buildValidationFailureFindings argv code m)"
  then have "f ''kind'' = Some (AStr ''validation_failure'')"
    by (auto simp: buildValidationFailureFindings_def Let_def split: if_splits)
  then show ?thesis
    by (simp add: planner_kinds_def trimmed_def asString_def TrimSpace_solid solid_def visible_def)
qed

lemma findingKinds_append: "findingKinds (xs @ ys) = findingKinds xs @ findingKinds ys"
  by (simp add: findingKinds_def nonblank_def)

lemma planner_kind_iff:
  assumes "\<forall>f \<in> set xs \<union> set ys. trimmed f ''kind'' \<notin> set planner_kinds" "k \<in> set planner_kinds"
  shows "k \<in> set (findingKinds (xs @ zs @ ys)) \<longleftrightarrow> k \<in> set (findingKinds zs)"
proof -
  have "k \<notin> set (findingKinds xs)" "k \<notin> set (findingKinds ys)"
    using assms by (auto simp: findingKinds_def nonblank_def)
  then show ?thesis by (simp add: findingKinds_append)
qed

lemma kinds_of_finding:
  "set (findingKinds (if b then [scope_finding k sev m e c a] else [])) = (if b \<and> TrimSpace k \<noteq> [] then {TrimSpace k} else {})"
  by (cases b) (auto simp: findingKinds_def nonblank_def)

lemma findingKinds_Nil [simp]: "findingKinds [] = []"
  by (simp add: findingKinds_def nonblank_def)

lemma kinds_trimmed:
  "TrimSpace ''planner_scope_confirmed'' = ''planner_scope_confirmed''"
  "TrimSpace ''planner_scope_contradicted'' = ''planner_scope_contradicted''"
  "TrimSpace ''planner_rejected_scope_contradicted'' = ''planner_rejected_scope_contradicted''"
  "TrimSpace ''planner_rejected_scope_confirmed'' = ''planner_rejected_scope_confirmed''"
  "TrimSpace ''research_scope_contradicted'' = ''research_scope_contradicted''"
  by (simp_all add: TrimSpace_solid solid_def visible_def)

lemma alignment_kinds:
  "''planner_scope_contradicted'' \<in> set (findingKinds (buildReviewAlignmentFindings p rj rs P R Q changed)) \<Longrightarrow> p = ''contradicted''"
  "''planner_rejected_scope_confirmed'' \<in> set (findingKinds (buildReviewAlignmentFindings p rj rs P R Q changed)) \<Longrightarrow> rj = ''confirmed''"
  unfolding buildReviewAlignmentFindings_def findingKinds_append set_append kinds_of_finding kinds_trimmed
  by (simp_all split: if_splits)

text \<open>What is excluded was planned and is contradicted, or was rejected and is confirmed.\<close>

lemma in_differenceStrings: "p \<in> set (differenceStrings xs ys) \<Longrightarrow> \<exists>a \<in> set xs. p = TrimSpace a"
  unfolding differenceStrings_def by (auto simp: set_uniqueNonEmpty TrimSpace_idem split: if_splits)

lemma excluded_paths:
  assumes "p \<in> set (scExcluded (interpretPlannerRepairFindings fs selected rejected changed))"
  shows "\<exists>a. p = TrimSpace a \<and> (''planner_scope_contradicted'' \<in> set (findingKinds fs) \<and> a \<in> set selected \<or>
    ''planner_rejected_scope_confirmed'' \<in> set (findingKinds fs) \<and> a \<in> set rejected)"
proof -
  define X where "X \<longleftrightarrow> ''planner_scope_contradicted'' \<in> set (findingKinds fs)"
  define Y where "Y \<longleftrightarrow> ''planner_rejected_scope_confirmed'' \<in> set (findingKinds fs)"
  let ?sel = "uniqueNonEmptyStrings selected" and ?rej = "uniqueNonEmptyStrings rejected" and ?ch = "uniqueNonEmptyStrings changed"
  define e1 where "e1 = (if X then unseen_planned ?sel (intersectStrings ?ch ?sel) else []) @ (if Y then ?rej else [])"
  have e1: "\<exists>a. q = TrimSpace a \<and> (X \<and> a \<in> set selected \<or> Y \<and> a \<in> set rejected)" if "q \<in> set e1" for q
    using that unfolding e1_def unseen_planned_def by (auto simp: set_uniqueNonEmpty split: if_splits)
  have "scExcluded (interpretPlannerRepairFindings fs selected rejected changed) =
    uniqueNonEmptyStrings (if ''planner_rejected_scope_contradicted'' \<in> set (findingKinds fs)
      then differenceStrings e1 (intersectStrings ?ch ?rej) else e1)"
    by (simp only: interpretPlannerRepairFindings_def Let_def scope_correction.simps e1_def X_def Y_def)
  then obtain b where b: "p = TrimSpace b" "b \<in> set e1 \<or> b \<in> set (differenceStrings e1 (intersectStrings ?ch ?rej))"
    using assms by (auto simp only: set_uniqueNonEmpty split: if_splits)
  then obtain q where "p = TrimSpace q" "q \<in> set e1" using in_differenceStrings TrimSpace_idem by metis
  then show ?thesis using e1 unfolding X_def Y_def by (metis TrimSpace_idem)
qed

lemma contradicted_apart:
  "reviewScopeAlignment xs changed = ''contradicted'' \<Longrightarrow> a \<in> set xs \<Longrightarrow> \<forall>c \<in> set changed. TrimSpace a \<noteq> TrimSpace c"
  by (auto simp: reviewScopeAlignment_def list_ex_iff split: if_splits) metis

lemma confirmed_apart:
  "reviewRejectedScopeAlignment xs changed = ''confirmed'' \<Longrightarrow> a \<in> set xs \<Longrightarrow> \<forall>c \<in> set changed. TrimSpace a \<noteq> TrimSpace c"
  by (auto simp: reviewRejectedScopeAlignment_def list_ex_iff split: if_splits) metis

lemma review_findings:
  assumes "workspaceGitState env h1 = (h2, diff, changed)"
    and "(case oError x of Some e \<Rightarrow> review_failed env request rel argv x e h1 | None \<Rightarrow> review_passed env request rel argv x h1) = (h', r)"
  shows "\<exists>xs ys zs. rsFindings r = xs @ zs @ ys \<and> (\<forall>f \<in> set xs \<union> set ys. trimmed f ''kind'' \<notin> set planner_kinds) \<and>
      (zs = [] \<or> zs = alignment_findings request (scope_of_request request changed) changed)"
proof -
  let ?s = "scope_of_request request changed" and ?u = "unknown_scope request changed"
  consider (failed) e where "rsFindings r = buildValidationFailureFindings argv (oExit x) (failure_text x e) @
      alignment_findings request ?s changed @ retrieval_findings ?s changed"
    | (missing) "rsFindings r = [missing_diff_finding rel] @ [] @ retrieval_findings ?u changed"
    | (passed) "rsFindings r = [] @ alignment_findings request ?s changed @ retrieval_findings ?s changed"
  proof (cases "oError x")
    case (Some e)
    then show ?thesis
      using assms by (intro failed [of e]) (auto simp: review_failed_def changes_requested_def review_result_def Let_def)
  next
    case None
    have p: "review_passed env request rel argv x h1 = (h', r)" using assms(2) None by simp
    show ?thesis
    proof (cases "TrimSpace diff = [] \<or> changed = []")
      case True
      then have "rsFindings r = [missing_diff_finding rel] @ [] @ retrieval_findings ?u changed"
        using assms(1) p by (auto simp: review_passed_def changes_requested_def review_result_def Let_def)
      then show ?thesis by (rule missing)
    next
      case False
      then have "rsFindings r = [] @ alignment_findings request ?s changed @ retrieval_findings ?s changed"
        using assms(1) p by (auto simp: review_passed_def review_result_def Let_def)
      then show ?thesis by (rule passed)
    qed
  qed
  then show ?thesis
  proof cases
    case failed
    then show ?thesis
      by (intro exI [of _ "buildValidationFailureFindings argv (oExit x) (failure_text x e)"] exI [of _ "retrieval_findings ?s changed"]
          exI [of _ "alignment_findings request ?s changed"]) (auto simp: retrieval_findings_def dest: other_kinds(1) validation_kinds)
  next
    case missing
    then show ?thesis
      by (intro exI [of _ "[missing_diff_finding rel]"] exI [of _ "retrieval_findings ?u changed"] exI [of _ "[]"])
        (auto simp: retrieval_findings_def other_kinds(2) dest: other_kinds(1))
  next
    case passed
    then show ?thesis
      by (intro exI [of _ "[]"] exI [of _ "retrieval_findings ?s changed"] exI [of _ "alignment_findings request ?s changed"])
        (auto simp: retrieval_findings_def dest: other_kinds(1))
  qed
qed

text \<open>
  C37: the next repair may edit what the reviewed edit changed: when the findings of a review are read back
  with the scope it compared and the files it reported, no changed file is excluded.
\<close>

theorem review_never_excludes_its_changes:
  assumes "reviewWorkspace env request h = (h', Inr r)"
  shows "set (map TrimSpace (rsChangedFiles r)) \<inter> set (scExcluded (interpretPlannerRepairFindings (rsFindings r)
    (anyHypothesisPaths (request ''initial_scope_hypotheses'')) (anyHypothesisPaths (request ''rejected_scope_hypotheses''))
    (rsChangedFiles r))) = {}"
proof -
  let ?P = "anyHypothesisPaths (request ''initial_scope_hypotheses'')" and ?R = "anyHypothesisPaths (request ''rejected_scope_hypotheses'')"
  obtain argv rel x h1 h2 diff changed where w: "workspaceGitState env h1 = (h2, diff, changed)"
    and x: "(case oError x of Some e \<Rightarrow> review_failed env request rel argv x e h1 | None \<Rightarrow> review_passed env request rel argv x h1) = (h', r)"
    by (rule reviewWorkspace_result [OF assms])
  let ?s = "scope_of_request request changed"
  have c: "rsChangedFiles r = changed"
    using x w by (auto simp: review_failed_def review_passed_def changes_requested_def review_result_def Let_def split: option.splits if_splits)
  have "\<exists>xs ys zs. rsFindings r = xs @ zs @ ys \<and> (\<forall>f \<in> set xs \<union> set ys. trimmed f ''kind'' \<notin> set planner_kinds) \<and>
      (zs = [] \<or> zs = alignment_findings request ?s changed)"
    by (rule review_findings [OF w x])
  then obtain xs ys zs where f: "rsFindings r = xs @ zs @ ys" "\<forall>f \<in> set xs \<union> set ys. trimmed f ''kind'' \<notin> set planner_kinds"
    "zs = [] \<or> zs = alignment_findings request ?s changed" by blast
  have s: "rvPlanner ?s = reviewScopeAlignment ?P changed" "rvRejected ?s = reviewRejectedScopeAlignment ?R changed"
    by (simp_all add: scope_of_request_def split: prod.split)
  have k: "reviewScopeAlignment ?P changed = ''contradicted''" if "''planner_scope_contradicted'' \<in> set (findingKinds (rsFindings r))"
  proof -
    have "''planner_scope_contradicted'' \<in> set (findingKinds zs)"
      using that unfolding f(1) by (subst (asm) planner_kind_iff [OF f(2)]) (simp_all add: planner_kinds_def)
    then show ?thesis using f(3) s(1) unfolding alignment_findings_def by (auto dest: alignment_kinds(1))
  qed
  have l: "reviewRejectedScopeAlignment ?R changed = ''confirmed''" if "''planner_rejected_scope_confirmed'' \<in> set (findingKinds (rsFindings r))"
  proof -
    have "''planner_rejected_scope_confirmed'' \<in> set (findingKinds zs)"
      using that unfolding f(1) by (subst (asm) planner_kind_iff [OF f(2)]) (simp_all add: planner_kinds_def)
    then show ?thesis using f(3) s(2) unfolding alignment_findings_def by (auto dest: alignment_kinds(2))
  qed
  have p: "p \<notin> TrimSpace ` set changed" if p: "p \<in> set (scExcluded (interpretPlannerRepairFindings (rsFindings r) ?P ?R changed))" for p
  proof -
    obtain a where a: "p = TrimSpace a" "''planner_scope_contradicted'' \<in> set (findingKinds (rsFindings r)) \<and> a \<in> set ?P \<or>
      ''planner_rejected_scope_confirmed'' \<in> set (findingKinds (rsFindings r)) \<and> a \<in> set ?R" using excluded_paths [OF p] by blast
    from a(2) have "\<forall>c \<in> set changed. TrimSpace a \<noteq> TrimSpace c"
    proof
      assume "''planner_scope_contradicted'' \<in> set (findingKinds (rsFindings r)) \<and> a \<in> set ?P"
      with k have "reviewScopeAlignment ?P changed = ''contradicted''" "a \<in> set ?P" by blast+
      then show ?thesis by (rule contradicted_apart)
    next
      assume "''planner_rejected_scope_confirmed'' \<in> set (findingKinds (rsFindings r)) \<and> a \<in> set ?R"
      with l have "reviewRejectedScopeAlignment ?R changed = ''confirmed''" "a \<in> set ?R" by blast+
      then show ?thesis by (rule confirmed_apart)
    qed
    then show ?thesis using a(1) by auto
  qed
  then show ?thesis unfolding c set_map by blast
qed

definition busy_env :: exec_env where
  "busy_env = lab_env\<lparr>xRun := (\<lambda>c d. (d, quiet\<lparr>oStdout := ''M  b.py''\<rparr>))\<rparr>"

definition scoped_request :: any_map where
  "scoped_request = [''initial_scope_hypotheses'' \<mapsto> AArr [AMap [''path'' \<mapsto> AStr ''a.py'']]]"

lemma review_never_excludes_its_changes_witness:
  "\<exists>r. snd (reviewWorkspace busy_env scoped_request lab_host) = Inr r \<and> rsChangedFiles r = [''b.py''] \<and>
    set (map TrimSpace (rsChangedFiles r)) \<inter> set (scExcluded (interpretPlannerRepairFindings (rsFindings r)
      (anyHypothesisPaths (scoped_request ''initial_scope_hypotheses'')) (anyHypothesisPaths (scoped_request ''rejected_scope_hypotheses''))
      (rsChangedFiles r))) = {}"
proof -
  have ro: "rooted_at busy_env [''w'']" using lab_rooted by (simp add: rooted_at_def busy_env_def)
  have root: "resolveWithDefault busy_env (Some (AStr (firstNonEmptyString [trimmed scoped_request ''project_root'', ''.'']))) ''.'' = Inr (xRoot busy_env, ''.'')"
    by (rule review_root [OF ro]) (simp add: scoped_request_def)
  have "os_Stat (hDisk lab_host) (xRoot busy_env) = Some Dir" using lab_root_dir by (simp add: busy_env_def)
  then obtain h' r where r: "reviewWorkspace busy_env scoped_request lab_host = (h', Inr r)" using reviewWorkspace_answers [OF root] by blast
  obtain argv rel x h1 h2 diff changed where w: "workspaceGitState busy_env h1 = (h2, diff, changed)"
    and x: "(case oError x of Some e \<Rightarrow> review_failed busy_env scoped_request rel argv x e h1 | None \<Rightarrow> review_passed busy_env scoped_request rel argv x h1) = (h', r)"
    by (rule reviewWorkspace_result [OF r])
  have "changed = [''b.py'']"
    using w by (simp add: workspaceGitState_def start_def run_process_def busy_env_def quiet_def status_files_def TrimRightCR_def text_eval)
  moreover have "rsChangedFiles r = changed"
    using x w by (auto simp: review_failed_def review_passed_def changes_requested_def review_result_def Let_def split: option.splits if_splits)
  ultimately show ?thesis using review_never_excludes_its_changes [OF r] r by simp
qed

section \<open>A link out of the workspace\<close>

lemma follow_dirs:
  assumes "\<forall>w \<in> set ws. clean_word True w" "\<forall>us. us \<noteq> [] \<longrightarrow> prefix us ws \<longrightarrow> node_at d (cur @ us) = Some Dir"
  shows "follow n d cur (ws @ rest) = follow n d (cur @ ws) rest"
  using assms
proof (induction ws arbitrary: cur)
  case (Cons w ws)
  have "node_at d (cur @ [w]) = Some Dir" using Cons.prems(2) by simp
  moreover have "\<forall>us. us \<noteq> [] \<longrightarrow> prefix us ws \<longrightarrow> node_at d ((cur @ [w]) @ us) = Some Dir"
  proof (intro allI impI)
    fix us assume "us \<noteq> []" "prefix us ws"
    then show "node_at d ((cur @ [w]) @ us) = Some Dir" using Cons.prems(2) [rule_format, of "w # us"] by simp
  qed
  moreover have "clean_word True w" "\<forall>w \<in> set ws. clean_word True w" using Cons.prems(1) by auto
  ultimately show ?case using Cons.IH [of "cur @ [w]"] by (simp add: follow_word)
qed simp

text \<open>The directories above a path all exist.\<close>

definition reachable_dir :: "disk \<Rightarrow> string list \<Rightarrow> bool" where
  "reachable_dir d ws \<longleftrightarrow> (\<forall>w \<in> set ws. clean_word True w) \<and> (\<forall>us. prefix us ws \<longrightarrow> node_at d us = Some Dir)"

lemma follow_reachable: "reachable_dir d ws \<Longrightarrow> follow n d [] (ws @ rest) = follow n d ws rest"
  using follow_dirs [of ws d "[]"] by (simp add: reachable_dir_def)

lemma follow_through_link:
  assumes "reachable_dir d rw" "clean_word True w" "node_at d (rw @ [w]) = Some (Link (abs_path ts))" "reachable_dir d ts" "0 < n"
  shows "\<exists>m. follow n d [] (rw @ w # rest) = follow m d ts rest"
proof -
  obtain m where m: "n = Suc m" using assms(5) by (cases n) auto
  have ts: "\<forall>w \<in> set ts. clean_word True w" using assms(4) by (simp add: reachable_dir_def)
  have "IsAbs (abs_path ts)" by (simp add: IsAbs_def abs_path_def HasPrefix_def)
  then have "follow n d [] (rw @ w # rest) = follow m d [] (split_on CHR ''/'' (abs_path ts) @ rest)"
    using assms(2,3) m by (simp add: follow_reachable [OF assms(1)] follow_word)
  also have "\<dots> = follow m d [] (ts @ rest)"
    using split_on_abs [OF ts] by (cases ts) (simp_all add: follow.simps(2))
  also have "\<dots> = follow m d ts rest" by (rule follow_reachable [OF assms(4)])
  finally show ?thesis by blast
qed

lemma mkdirs_existing:
  assumes "\<And>us. us \<noteq> [] \<Longrightarrow> prefix us ws \<Longrightarrow> \<exists>q. follow max_links d [] (before @ us) = Some q \<and> node_at d q = Some Dir"
  shows "mkdirs before ws d = (d, True)"
  using assms
proof (induction ws arbitrary: before)
  case (Cons w ws)
  have "\<exists>q. follow max_links d [] ((before @ [w]) @ us) = Some q \<and> node_at d q = Some Dir" if "us \<noteq> []" "prefix us ws" for us
    using Cons.prems [of "w # us"] that by simp
  then have "mkdirs (before @ [w]) ws d = (d, True)" by (rule Cons.IH)
  moreover obtain q where "follow max_links d [] (before @ [w]) = Some q" "node_at d q = Some Dir" using Cons.prems [of "[w]"] by auto
  ultimately show ?case by simp
qed simp

lemma writes_through_link:
  assumes "reachable_dir d rw" "clean_word True w" "node_at d (rw @ [w]) = Some (Link (abs_path ts))" "reachable_dir d ts"
    and "clean_word True v" "node_at d (ts @ [v]) = None \<or> (\<exists>c. node_at d (ts @ [v]) = Some (File c))" and "hDisk h = d"
  shows "write_under env (abs_path (rw @ [w, v])) c h = (h\<lparr>hDisk := put_node (ts @ [v]) (File c) d\<rparr>, None)"
proof -
  have l: "0 < max_links" by (simp add: max_links_def)
  have cw: "\<forall>u \<in> set (rw @ [w, v]). clean_word True u" using assms(1,2,5) by (auto simp: reachable_dir_def)
  have "mkdirs [] (rw @ [w]) d = (d, True)"
  proof (rule mkdirs_existing)
    fix us assume u: "us \<noteq> []" "prefix us (rw @ [w])"
    show "\<exists>q. follow max_links d [] ([] @ us) = Some q \<and> node_at d q = Some Dir"
    proof (cases "us = rw @ [w]")
      case True
      obtain m where "follow max_links d [] (rw @ w # []) = follow m d ts []" using follow_through_link [OF assms(1-4) l, of "[]"] by blast
      then show ?thesis using True assms(4) by (auto simp: reachable_dir_def)
    next
      case False
      then have p: "prefix us rw" using u(2) by simp
      have "reachable_dir d us"
        using assms(1) p unfolding reachable_dir_def by (meson prefix_order.trans set_mono_prefix subsetD)
      from follow_reachable [OF this, of max_links "[]"] this show ?thesis by (auto simp: reachable_dir_def)
    qed
  qed
  moreover have "filepath_Dir (abs_path (rw @ [w, v])) = abs_path (rw @ [w])" using filepath_Dir_abs [of "rw @ [w]" v] cw by simp
  moreover have "path_words (abs_path (rw @ [w])) = rw @ [w]" using path_words_abs cw by simp
  ultimately have "os_MkdirAll (xOs env) (filepath_Dir (abs_path (rw @ [w, v]))) d = (d, None)" by (simp add: os_MkdirAll_def)
  moreover obtain m where "follow max_links d [] (rw @ w # [v]) = follow m d ts [v]"
    using follow_through_link [OF assms(1-4) l] by blast
  then have "follow max_links d [] (rw @ [w, v]) = Some (ts @ [v])"
    using assms(5,6) by (auto simp: follow_word)
  then have "os_WriteFile (xOs env) (abs_path (rw @ [w, v])) c d = Inr (put_node (ts @ [v]) (File c) d)"
    using path_words_abs [OF cw] assms(6) by (auto simp: os_WriteFile_def physical_def)
  ultimately show ?thesis using assms(7) by (simp add: write_under_def)
qed

text \<open>
  C38: a link leads out of the workspace: the check of a path compares its words only, so a link in the workspace
  that points to a directory elsewhere lets \<^verbatim>\<open>write_file\<close> create a file outside, and the result is a success.
  The new file lies in no directory named \<^verbatim>\<open>.git\<close>, the only place that the queries of git after the write may
  change.
\<close>

theorem a_link_leads_out:
  assumes "metadata ''tool_request'' = Some (AMap req)" "req ''tool'' = Some (AStr ''write_file'')"
    and "req ''path'' = Some (AStr (w @ ''/'' @ v))" "TrimSpace (w @ ''/'' @ v) = w @ ''/'' @ v" "req ''content'' = Some (AStr c)"
    and "\<not> asBool (metadata ''requires_approval'')" "\<not> asBool (req ''requires_approval'')" "allowedCapabilities metadata = []"
    and "rooted_at env rw" "git_reads env" "reachable_dir (hDisk h) rw" "reachable_dir (hDisk h) ts"
    and "clean_word True w" "node_at (hDisk h) (rw @ [w]) = Some (Link (abs_path ts))"
    and "clean_word True v" "node_at (hDisk h) (ts @ [v]) = None" "\<not> prefix rw (ts @ [v])" "''.git'' \<notin> set (ts @ [v])"
  shows "\<exists>h' r. ExecuteTask env metadata h = (h', Inr r) \<and> rsStatus r = ''success'' \<and> node_at (hDisk h') (ts @ [v]) = Some (File c)"
proof -
  let ?request = "(mergeToolRequestWithMetadata req metadata)(''_task_metadata'' \<mapsto> AMap metadata)"
  have tool: "trimmed (mergeToolRequestWithMetadata req metadata) ''tool'' = ''write_file''"
    using assms(2) by (simp add: trimmed_def key_free inherited_keys_def asString_def TrimSpace_solid solid_def visible_def)
  have e: "ExecuteTask env metadata h = writeFile env ?request h"
    using assms(1,6,7,8) tool
    by (simp add: ExecuteTask_def ensureToolCapabilityAllowed_def needs_approval_def key_free inherited_keys_def run_tool_def Let_def)
  have rel: "rel_text [w, v] = w @ ''/'' @ v" by (simp add: rel_text_def)
  have res: "resolve env (?request ''path'') = Inr (abs_path (rw @ [w, v]), rel_text [w, v])"
    using resolve_rel_text [OF assms(9), of "[w, v]"] assms(3,4,13,15) rel by (simp add: resolve_def key_free inherited_keys_def)
  have con: "asString (?request ''content'') = c" using assms(5) by (simp add: key_free inherited_keys_def asString_def)
  let ?h = "h\<lparr>hDisk := put_node (ts @ [v]) (File c) (hDisk h)\<rparr>"
  have w: "write_under env (abs_path (rw @ [w, v])) c h = (?h, None)"
    by (rule writes_through_link [where d = "hDisk h"]) (use assms in simp_all)
  obtain h2 r where g: "withGitArtifacts env
      (no_result\<lparr>rsStatus := ''success'', rsSummary := Some (''Wrote '' @ rel_text [w, v]), rsChangedFiles := [rel_text [w, v]]\<rparr>) ?h = (h2, r)"
    by fastforce
  have "rsStatus r = ''success''" using g by (auto simp: withGitArtifacts_def split: prod.splits if_splits)
  moreover have "node_at (hDisk h2) (ts @ [v]) = node_at (hDisk ?h) (ts @ [v])"
    using withGitArtifacts_facts(2) [OF g assms(10)] assms(18) by (simp add: same_files_def)
  moreover have "ExecuteTask env metadata h = (h2, Inr r)"
    unfolding e writeFile_def res con using w g by simp
  ultimately show ?thesis by (simp add: node_at_put)
qed

definition linked_host :: host where
  "linked_host = \<lparr>hDisk = [([''w''], Dir), ([''w'', ''a''], Link ''/etc''), ([''etc''], Dir)], hRuns = []\<rparr>"

lemma a_link_leads_out_witness:
  "\<exists>h' r. ExecuteTask lab_env write_claim linked_host = (h', Inr r) \<and> rsStatus r = ''success'' \<and>
    node_at (hDisk h') [''etc'', ''b''] = Some (File ''x'')"
proof -
  have "us = [] \<or> us = [u]" if "prefix us [u]" for us and u :: string using that by (cases us) auto
  then have d: "reachable_dir (hDisk linked_host) [''w'']" "reachable_dir (hDisk linked_host) [''etc'']"
    by (fastforce simp: reachable_dir_def linked_host_def node_at_def clean_word_def)+
  have "\<exists>h' r. ExecuteTask lab_env write_claim linked_host = (h', Inr r) \<and> rsStatus r = ''success'' \<and>
    node_at (hDisk h') ([''etc''] @ [''b'']) = Some (File ''x'')"
    by (rule a_link_leads_out [where metadata = write_claim and req = write_body and w = "''a''" and v = "''b''", OF write_request _ _ _ _ _ _ _ lab_rooted lab_git d])
      (simp_all add: write_body_def claims_only asBool_def allowedCapabilities_def clean_word_def linked_host_def node_at_def abs_path_def TrimSpace_solid solid_def visible_def)
  then show ?thesis by simp
qed

end
