(* ===== verification/Objective_Generation.thy ===== *)
theory Objective_Generation
  imports Objective_Contract Initiative_Writing Objective_Cycle Executor_Scaffold Executor_Repairs
begin

text \<open>
  What a generated contract is: its work items form one pipeline, its scope is a ranking of the files of the
  workspace, and its commands and tools are what a local bridge will be asked to run.
\<close>

section \<open>The shape of the work items\<close>

lemmas contract_item_defs = contract_research_def contract_baseline_def contract_bootstrap_def contract_analyze_def contract_edit_def
  contract_side_def contract_validate_def contract_review_def Let_def

lemma contract_ids [simp]:
  "iID (contract_research b) = ''research''" "iID (contract_baseline b r) = ''validate-baseline''"
  "iID (contract_bootstrap b) = ''bootstrap''" "iID (contract_analyze b ds a) = ''analyze''" "iID (contract_edit b ds) = ''edit''"
  "iID (contract_side b ds w) = swID w" "iID (contract_validate b f ps) = ''validate''" "iID (contract_review b ps) = ''review''"
  by (simp_all add: contract_item_defs)

lemma contract_dependencies [simp]:
  "iDependsOn (contract_research b) = []" "iDependsOn (contract_baseline b r) = [''research'']"
  "iDependsOn (contract_bootstrap b) = [''research'']" "iDependsOn (contract_analyze b ds a) = ds" "iDependsOn (contract_edit b ds) = ds"
  "iDependsOn (contract_side b ds w) = ds" "iDependsOn (contract_validate b f ps) = [f]"
  "iDependsOn (contract_review b ps) = [''validate'']"
  by (simp_all add: contract_item_defs)

lemma contract_kinds [simp]:
  "iKind (contract_review b ps) = WorkItemKindReview" "iKind (contract_edit b ds) = WorkItemKindEdit"
  "iKind (contract_side b ds w) = WorkItemKindEdit" "iKind (contract_bootstrap b) = WorkItemKindEdit"
  by (simp_all add: contract_item_defs)

definition early_items :: "objective_brief \<Rightarrow> work_item list" where
  "early_items b = contract_research b #
     (case detectInitialBaselineValidation (bfObjective b) (bfPrecedents b) (bfBootstrap b) of None \<Rightarrow> [] | Some r \<Rightarrow> [contract_baseline b r]) @
     (if bfBootstrap b then [contract_bootstrap b] else [])"

lemma first_steps_split:
  "first_steps b = early_items b @
     (case detectInitialObjectiveAnalysis (bfObjective b) (bfScope b) (bfPrecedents b) of
        None \<Rightarrow> [] | Some a \<Rightarrow> [contract_analyze b (map iID (early_items b)) a])"
  by (simp add: first_steps_def early_items_def Let_def split: option.splits)

lemma subseq_set: "subseq xs ys \<Longrightarrow> set xs \<subseteq> set ys"
  by (induction rule: list_emb.induct) auto

lemma subseq_distinct: "subseq xs ys \<Longrightarrow> distinct ys \<Longrightarrow> distinct xs"
  by (induction rule: list_emb.induct) (auto dest: subseq_set)

lemma early_ids: "subseq (map iID (early_items b)) [''research'', ''validate-baseline'', ''bootstrap'']"
  by (simp add: early_items_def split: option.splits)

lemma first_ids: "subseq (map iID (first_steps b)) [''research'', ''validate-baseline'', ''bootstrap'', ''analyze'']"
  by (simp add: first_steps_split early_items_def split: option.splits)

lemma early_declared: "declared_before {} (early_items b)"
  by (auto simp: early_items_def split: option.splits)

lemma first_declared: "declared_before {} (first_steps b)"
  using early_declared [of b] by (simp add: first_steps_split declared_before_append split: option.splits)

lemma side_ids: "subseq (map swID (side_works b)) [''edit-docs'', ''edit-config'', ''edit-deps'']"
  by (simp add: side_works_def Let_def map_filter_simps split: option.splits)

lemma side_items_ids: "side_items b ds fin ps ws = (items, fin', ps') \<Longrightarrow> map iID items = map swID ws"
  by (induction ws arbitrary: fin ps items) (auto split: prod.splits)

lemma side_items_member:
  "side_items b ds fin ps ws = (items, fin', ps') \<Longrightarrow> i \<in> set items \<Longrightarrow> \<exists>deps. \<exists>w \<in> set ws. i = contract_side b deps w"
  by (induction ws arbitrary: fin ps items) (auto split: prod.splits, blast+)

lemma side_items_step:
  assumes "side_items b ds fin ps (w # ws) = (items, fin', ps')"
  obtains rest where "side_items b ds (swID w) (uniqueObjectivePaths (ps @ swPaths w)) ws = (rest, fin', ps')"
    "items = contract_side b (ds @ [fin]) w # rest"
  using assms by (auto split: prod.splits)

lemma side_items_declared:
  "side_items b ds fin ps ws = (items, fin', ps') \<Longrightarrow> fin \<in> seen \<Longrightarrow> set ds \<subseteq> seen \<Longrightarrow>
     declared_before seen items \<and> fin' \<in> seen \<union> iID ` set items"
proof (induction ws arbitrary: fin ps items seen)
  case (Cons w ws)
  obtain rest where r: "side_items b ds (swID w) (uniqueObjectivePaths (ps @ swPaths w)) ws = (rest, fin', ps')"
    and i: "items = contract_side b (ds @ [fin]) w # rest"
    using side_items_step [OF Cons.prems(1)] .
  show ?case using Cons.IH [OF r, of "insert (swID w) seen"] Cons.prems(2,3) by (auto simp: i)
qed simp

lemma side_items_chain:
  "side_items b ds fin ps ws = (items, fin', ps') \<Longrightarrow> waits_for items \<subseteq> R \<Longrightarrow>
     (fin', fin) \<in> R\<^sup>* \<and> (\<forall>i \<in> set items. (fin', iID i) \<in> R\<^sup>*)"
proof (induction ws arbitrary: fin ps items)
  case (Cons w ws)
  obtain rest where r: "side_items b ds (swID w) (uniqueObjectivePaths (ps @ swPaths w)) ws = (rest, fin', ps')"
    and i: "items = contract_side b (ds @ [fin]) w # rest"
    using side_items_step [OF Cons.prems(1)] .
  have "waits_for rest \<subseteq> R" "(swID w, fin) \<in> R" using Cons.prems(2) by (auto simp: i waits_for_def)
  with Cons.IH [OF r] show ?case by (auto simp: i intro: rtrancl_into_rtrancl)
qed simp

lemma contract_items_split:
  obtains sides fin ps where
    "contract_items b = first_steps b @ contract_edit b (map iID (first_steps b)) # sides @
       [contract_validate b fin ps, contract_review b ps]"
    "side_items b (map iID (first_steps b)) ''edit'' (bfPaths b) (side_works b) = (sides, fin, ps)"
  by (cases "side_items b (map iID (first_steps b)) ''edit'' (bfPaths b) (side_works b)") (simp add: contract_items_def Let_def)

lemma contract_items_declared: "declared_before {} (contract_items b)"
proof -
  obtain sides fin ps where c: "contract_items b = first_steps b @ contract_edit b (map iID (first_steps b)) # sides @
       [contract_validate b fin ps, contract_review b ps]"
    and s: "side_items b (map iID (first_steps b)) ''edit'' (bfPaths b) (side_works b) = (sides, fin, ps)"
    by (rule contract_items_split)
  let ?seen = "insert ''edit'' (iID ` set (first_steps b))"
  have "declared_before ?seen sides \<and> fin \<in> ?seen \<union> iID ` set sides" by (rule side_items_declared [OF s]) auto
  then show ?thesis using first_declared [of b] by (auto simp: c declared_before_append Un_insert_left)
qed

definition item_order :: "string list" where
  "item_order = [''research'', ''validate-baseline'', ''bootstrap'', ''analyze'', ''edit'', ''edit-docs'', ''edit-config'', ''edit-deps'',
     ''validate'', ''review'']"

lemma contract_item_order: "subseq (map iID (contract_items b)) item_order"
proof -
  obtain sides fin ps where c: "contract_items b = first_steps b @ contract_edit b (map iID (first_steps b)) # sides @
       [contract_validate b fin ps, contract_review b ps]"
    and s: "side_items b (map iID (first_steps b)) ''edit'' (bfPaths b) (side_works b) = (sides, fin, ps)"
    by (rule contract_items_split)
  have "subseq (map iID sides) [''edit-docs'', ''edit-config'', ''edit-deps'']" using side_items_ids [OF s] side_ids by simp
  then have "subseq (''edit'' # map iID sides @ [''validate'', ''review''])
      (''edit'' # [''edit-docs'', ''edit-config'', ''edit-deps''] @ [''validate'', ''review''])"
    by (intro list_emb_append_mono subseq_Cons2) auto
  from list_emb_append_mono [OF first_ids [of b] this] show ?thesis unfolding c item_order_def by simp
qed

lemma contract_items_wait:
  assumes "i \<in> set (butlast (contract_items b))"
  shows "(''review'', iID i) \<in> (waits_for (contract_items b))\<^sup>+"
proof -
  obtain sides fin ps where c: "contract_items b = first_steps b @ contract_edit b (map iID (first_steps b)) # sides @
       [contract_validate b fin ps, contract_review b ps]"
    and s: "side_items b (map iID (first_steps b)) ''edit'' (bfPaths b) (side_works b) = (sides, fin, ps)"
    by (rule contract_items_split)
  let ?R = "waits_for (contract_items b)"
  have rv: "(''review'', ''validate'') \<in> ?R" and vf: "(''validate'', fin) \<in> ?R" by (simp_all add: waits_for_def c)
  have "waits_for sides \<subseteq> ?R" by (auto simp: waits_for_def c)
  note ch = side_items_chain [OF s this]
  have ed: "(''edit'', iID j) \<in> ?R" if "j \<in> set (first_steps b)" for j using that by (auto simp: waits_for_def c)
  have rf: "(''review'', fin) \<in> ?R\<^sup>+" using rv vf by (rule trancl_into_trancl [OF r_into_trancl])
  have re: "(''review'', ''edit'') \<in> ?R\<^sup>+" using rf ch by (metis trancl_rtrancl_trancl)
  have "i \<in> set sides \<or> iID i = ''validate'' \<or> iID i = ''edit'' \<or> i \<in> set (first_steps b)"
    using assms by (auto simp: c butlast_append split: if_splits)
  then show ?thesis
  proof (elim disjE)
    assume "i \<in> set sides"
    then show ?thesis using rf ch by (metis trancl_rtrancl_trancl)
  next
    assume "iID i = ''validate''"
    then show ?thesis using rv by auto
  next
    assume "iID i = ''edit''"
    then show ?thesis using re by simp
  next
    assume "i \<in> set (first_steps b)"
    from trancl_into_trancl [OF re ed [OF this]] show ?thesis .
  qed
qed

lemma contract_ends:
  "iKind (last (contract_items b)) = WorkItemKindReview" "iID (last (contract_items b)) = ''review''"
  "hd (contract_items b) = contract_research b"
  by (rule contract_items_split [of b]; simp add: first_steps_split early_items_def)+

lemma generated_items:
  assumes "GenerateObjectiveExecutionContract env inp = Inr c"
  obtains b where "objective_brief_of env inp = Inr b" "c = contract_from b (inTimeBudgetSeconds inp)" "ecWorkItems c = contract_items b"
  using assms by (auto simp: GenerateObjectiveExecutionContract_def contract_from_def split: sum.splits)

lemma side_items_wait: "side_items b ds fin ps ws = (items, fin', ps') \<Longrightarrow> \<forall>j \<in> set items. iDependsOn j \<noteq> []"
proof (induction ws arbitrary: fin ps items)
  case (Cons w ws)
  obtain rest where r: "side_items b ds (swID w) (uniqueObjectivePaths (ps @ swPaths w)) ws = (rest, fin', ps')"
    and i: "items = contract_side b (ds @ [fin]) w # rest"
    using side_items_step [OF Cons.prems(1)] .
  show ?case using Cons.IH [OF r] by (simp add: i)
qed simp

lemma side_items_named:
  assumes "side_items b ds fin ps (side_works b) = (items, fin', ps')" "j \<in> set items"
  shows "iID j \<in> {''edit-docs'', ''edit-config'', ''edit-deps''}"
proof -
  have "iID j \<in> set (map iID items)" using assms(2) by simp
  then have "iID j \<in> set (map swID (side_works b))" unfolding side_items_ids [OF assms(1)] .
  with subseq_set [OF side_ids] show ?thesis by auto
qed

lemma only_research_starts: "i \<in> set (contract_items b) \<Longrightarrow> iDependsOn i = [] \<longleftrightarrow> iID i = ''research''"
proof -
  assume i: "i \<in> set (contract_items b)"
  obtain sides fin ps where c: "contract_items b = first_steps b @ contract_edit b (map iID (first_steps b)) # sides @
       [contract_validate b fin ps, contract_review b ps]"
    and s: "side_items b (map iID (first_steps b)) ''edit'' (bfPaths b) (side_works b) = (sides, fin, ps)"
    by (rule contract_items_split)
  have e: "first_steps b \<noteq> []" by (simp add: first_steps_split early_items_def)
  consider "i \<in> set (first_steps b)" | "i = contract_edit b (map iID (first_steps b))" | "i \<in> set sides"
    | "i = contract_validate b fin ps" | "i = contract_review b ps" using i unfolding c by auto
  then show ?thesis
  proof cases
    case 1
    then show ?thesis by (auto simp: first_steps_split early_items_def split: option.splits if_splits)
  next
    case 3
    then show ?thesis using side_items_wait [OF s] side_items_named [OF s 3] by auto
  qed (simp_all add: e)
qed

text \<open>A small repository and a request for it.\<close>

definition repo_disk :: disk where
  "repo_disk = [([''w''], Dir), ([''w'', ''.git''], Dir), ([''w'', ''.git'', ''config.yml''], File ''x''),
     ([''w'', ''README.md''], File ''app.py is the current entry point''), ([''w'', ''app.py''], File ''x''), ([''w'', ''lib''], Dir),
     ([''w'', ''lib'', ''util.py''], File ''x''), ([''w'', ''logo.png''], File ''x''), ([''w'', ''go.mod''], File ''x'')]"

definition planner_on :: "disk \<Rightarrow> objective_env" where
  "planner_on d = \<lparr>jeService = lone_generator\<lparr>gDisk := d\<rparr>, jeScore = (\<lambda>x. ''1''), jeNumber = (\<lambda>x. AInt 1), jeUuid = (\<lambda>k. ''u'')\<rparr>"

definition ask_for :: "string \<Rightarrow> objective_input" where
  "ask_for objective = \<lparr>inTitle = [], inObjective = objective, inWorkspaceRoot = ''/w'', inCreatedBy = ''op'', inTimeBudgetSeconds = 0,
     inPlanningContext = None, inRetrievalArtifactID = []\<rparr>"

lemma contract_is_generated:
  assumes "TrimSpace (inObjective inp) \<noteq> []" "TrimSpace (inWorkspaceRoot inp) \<noteq> []"
  shows "\<exists>c. GenerateObjectiveExecutionContract env inp = Inr c"
  using assms by (simp add: GenerateObjectiveExecutionContract_def objective_brief_of_def Let_def)

lemma asked_contract: "TrimSpace objective \<noteq> [] \<Longrightarrow> \<exists>c. GenerateObjectiveExecutionContract env (ask_for objective) = Inr c"
  by (rule contract_is_generated) (simp_all add: ask_for_def TrimSpace_solid solid_def visible_def)

text \<open>
  C36: the work items of a generated contract form one pipeline. Their identifiers are distinct and come in one fixed
  order, every dependency names an earlier item, only the research can start at once, and the review at the end
  waits for every other item, so the tasks can be run one after the other and the objective is decided by its
  review.
\<close>

theorem generated_contract_is_a_pipeline:
  assumes "GenerateObjectiveExecutionContract env inp = Inr c"
  shows "subseq (map iID (ecWorkItems c)) item_order \<and> distinct (map iID (ecWorkItems c)) \<and> declared_before {} (ecWorkItems c) \<and>
    (\<forall>i \<in> set (ecWorkItems c). iDependsOn i = [] \<longleftrightarrow> iID i = ''research'') \<and>
    iKind (last (ecWorkItems c)) = WorkItemKindReview \<and>
    (\<forall>i \<in> set (butlast (ecWorkItems c)). (iID (last (ecWorkItems c)), iID i) \<in> (waits_for (ecWorkItems c))\<^sup>+)"
proof -
  obtain b where b: "ecWorkItems c = contract_items b" using generated_items [OF assms] by metis
  have "distinct item_order" by (simp add: item_order_def)
  then have d: "distinct (map iID (contract_items b))" using contract_item_order [of b] subseq_distinct by blast
  show ?thesis
    unfolding b contract_ends
    using d contract_item_order [of b] contract_items_declared [of b] only_research_starts [of _ b] contract_items_wait [of _ b] by blast
qed

lemma generated_contract_is_a_pipeline_witness:
  "\<exists>c. GenerateObjectiveExecutionContract (planner_on repo_disk) (ask_for ''fix app.py'') = Inr c \<and> declared_before {} (ecWorkItems c) \<and>
    iKind (last (ecWorkItems c)) = WorkItemKindReview"
proof -
  have "TrimSpace ''fix app.py'' \<noteq> []" by (simp add: TrimSpace_solid solid_def visible_def)
  from asked_contract [OF this] obtain c where c: "GenerateObjectiveExecutionContract (planner_on repo_disk) (ask_for ''fix app.py'') = Inr c"
    by blast
  with generated_contract_is_a_pipeline [OF c] show ?thesis by blast
qed

section \<open>The ranking of the scope\<close>

lemma found_asym: "found_before a b \<Longrightarrow> \<not> found_before b a"
  by (auto simp: found_before_def dest: str_less_trans)

lemma found_neg_trans: "\<not> found_before b a \<Longrightarrow> \<not> found_before c b \<Longrightarrow> \<not> found_before c a"
  using str_less_total [of "fnPath a" "fnPath b"] str_less_total [of "fnPath b" "fnPath c"]
  by (auto simp: found_before_def dest: str_less_trans)

lemma set_unique_paths: "set (uniqueObjectivePaths xs) = TrimSpace ` set xs - {[]}"
  unfolding uniqueObjectivePaths_def using set_unique_strings [of "[]"] by simp

lemma distinct_unique_strings: "distinct (unique_strings seen xs)"
  by (induction seen xs rule: unique_strings.induct) (auto simp: Let_def set_unique_strings)

lemma mention_paths [simp]:
  "fnPath (readme_mention l b f x) = fnPath f" "fnPath (direct_mention goal p l b) = p" "fnPath (expected_mention expected f) = fnPath f"
  "fnPath (precedent_mention precedents l b f) = fnPath f"
  by (simp_all add: readme_mention_def direct_mention_def expected_mention_def precedent_mention_def Let_def split: option.splits)

lemma readme_paths [simp]: "fnPath (foldl (readme_mention l b) f xs) = fnPath f"
  by (induction xs arbitrary: f) simp_all

lemma examine_path [simp]: "fnPath (examine goal readme expected precedents p) = p"
  by (simp add: examine_def Let_def)

lemma scope_findings_sorted:
  "sorted_wrt (\<lambda>a b. \<not> found_before b a) (scope_findings d ws objective expected precedents)"
  unfolding scope_findings_def Let_def
  by (rule sorted_sort_by) (use found_asym found_neg_trans in blast)+

lemma distinct_examined: "distinct ps \<Longrightarrow> distinct (map fnPath (filter P (map (examine goal readme expected precedents) ps)))"
  by (induction ps) auto

lemma scope_findings_paths: "distinct (map fnPath (scope_findings d ws objective expected precedents))"
proof -
  have "distinct (map fnPath (sort_by found_before fs)) = distinct (map fnPath fs)" for fs
    by (metis mset_eq_imp_distinct_iff mset_map mset_sort_by)
  then show ?thesis
    unfolding scope_findings_def Let_def
    by (simp add: distinct_examined uniqueObjectivePaths_def distinct_unique_strings)
qed

lemma sorted_wrt_strict:
  assumes "sorted_wrt P xs" "distinct (map f xs)" "\<And>a b. P a b \<Longrightarrow> f a \<noteq> f b \<Longrightarrow> Q a b"
  shows "sorted_wrt Q xs"
  using assms(1,2) by (induction xs) (auto intro!: assms(3))

definition outranks :: "string \<times> int \<Rightarrow> string \<times> int \<Rightarrow> bool" where
  "outranks a b \<longleftrightarrow> snd b < snd a \<or> (snd a = snd b \<and> str_less (fst a) (fst b))"

lemma scope_findings_ranked:
  "sorted_wrt outranks (map (\<lambda>f. (fnPath f, fnScore f)) (scope_findings d ws objective expected precedents))"
proof -
  have "found_before a b" if "\<not> found_before b a" "fnPath a \<noteq> fnPath b" for a b
    using that str_less_total [of "fnPath a" "fnPath b"] by (auto simp: found_before_def)
  from sorted_wrt_strict [OF scope_findings_sorted scope_findings_paths this]
  show ?thesis by (simp add: sorted_wrt_map outranks_def found_before_def)
qed

lemma ToLower_Cons: "s \<noteq> [] \<Longrightarrow> ToLower s \<noteq> []"
  by (cases s) simp_all

lemma scope_findings_set:
  "set (scope_findings d ws objective expected precedents) =
    {f. fnScore f \<noteq> 0 \<and> fnPath f \<in> set (uniqueObjectivePaths (listObjectiveCandidateFiles d ws @ expected)) \<and>
      f = examine (ToLower (TrimSpace objective)) (split_on CHR 0x0A (ToLower (readObjectiveReadme d ws))) expected precedents (fnPath f)}"
proof -
  have "ToLower (TrimSpace p) \<noteq> []" if "p \<in> set (uniqueObjectivePaths xs)" for p xs
    using that ToLower_Cons [of p] by (auto simp: set_unique_paths)
  then show ?thesis by (force simp: scope_findings_def Let_def simp del: uniqueObjectivePaths_def)
qed

lemma hypothesis_fields:
  "hPath (hypothesis_at e x y) = fnPath (snd e)" "hScore (hypothesis_at e x y) = fnScore (snd e)"
  "hRank (hypothesis_at e x y) = int (fst e) + 1" "hDisposition (hypothesis_at e x y) = x" "hRejectedBecause (hypothesis_at e x y) = y"
  by (simp_all add: hypothesis_at_def Let_def)

lemma map_split_at:
  assumes "\<And>e. f (a e) = g e" "\<And>e. f (b e) = g e"
  shows "map f (map a (take n xs) @ map b (drop n xs)) = map g xs"
proof -
  have "map f (map a (take n xs) @ map b (drop n xs)) = map g (take n xs) @ map g (drop n xs)" by (simp add: assms comp_def)
  also have "\<dots> = map g xs" by (metis append_take_drop_id map_append)
  finally show ?thesis .
qed

text \<open>
  The scope of a plan is a ranking of everything that speaks for a file. The shortlist and the rejected paths
  together are exactly the files of the workspace and the expected files with some evidence, each once, numbered
  from one and ordered by their evidence and then by name; the shortlist is the first two of them.
\<close>

theorem scope_is_a_ranking:
  assumes "buildInitialScopeHypotheses d ws objective expected precedents = (selected, rejected)"
  defines "evidence \<equiv> \<lambda>p. fnScore (examine (ToLower (TrimSpace objective)) (split_on CHR 0x0A (ToLower (readObjectiveReadme d ws)))
    expected precedents p)"
  shows "length selected \<le> 2 \<and> (rejected \<noteq> [] \<longrightarrow> length selected = 2) \<and>
    hPath ` set (selected @ rejected) = {p \<in> set (uniqueObjectivePaths (listObjectiveCandidateFiles d ws @ expected)). evidence p \<noteq> 0} \<and>
    sorted_wrt outranks (map (\<lambda>h. (hPath h, evidence (hPath h))) (selected @ rejected)) \<and>
    map hRank (selected @ rejected) = map (\<lambda>i. int i + 1) [0..<length (selected @ rejected)] \<and>
    (\<forall>h \<in> set selected. hDisposition h = ''selected'') \<and>
    (\<forall>h \<in> set rejected. hDisposition h = ''rejected'' \<and> hRejectedBecause h \<noteq> [])"
proof -
  let ?found = "scope_findings d ws objective expected precedents"
  let ?sel = "\<lambda>e. hypothesis_at e ''selected'' []"
  let ?rej = "\<lambda>e. hypothesis_at e ''rejected'' (rejectedScopeReason (fnPath (snd e)) (fnScore (snd e)) (fnPath (hd ?found))
    (fnScore (hd ?found)) (int (fst e) + 1))"
  have e: "selected = map ?sel (take 2 (enumerate 0 ?found))" "rejected = map ?rej (drop 2 (enumerate 0 ?found))"
    using assms(1) by (simp_all add: buildInitialScopeHypotheses_def Let_def)
  have parts: "map f (selected @ rejected) = map g (enumerate 0 ?found)"
    if "\<And>e. f (?sel e) = g e" "\<And>e. f (?rej e) = g e" for f :: "scope_hypothesis \<Rightarrow> 'b" and g
    unfolding e by (rule map_split_at) (simp_all add: that)
  have snds: "map (\<lambda>e. g (snd e)) (enumerate 0 ?found) = map g ?found" for g :: "finding \<Rightarrow> 'b"
    using map_map [of g snd "enumerate 0 ?found"] by (simp add: comp_def)
  have ev: "fnScore f = evidence (fnPath f)" if "f \<in> set ?found" for f
    using that unfolding scope_findings_set evidence_def by simp
  have paths: "map hPath (selected @ rejected) = map fnPath ?found"
    using parts [of hPath "\<lambda>e. fnPath (snd e)"] snds [of fnPath] by (simp add: hypothesis_fields)
  have "map (\<lambda>h. (hPath h, evidence (hPath h))) (selected @ rejected) = map (\<lambda>f. (fnPath f, evidence (fnPath f))) ?found"
    using parts [of "\<lambda>h. (hPath h, evidence (hPath h))" "\<lambda>e. (fnPath (snd e), evidence (fnPath (snd e)))"]
      snds [of "\<lambda>f. (fnPath f, evidence (fnPath f))"] by (simp add: hypothesis_fields)
  also have "\<dots> = map (\<lambda>f. (fnPath f, fnScore f)) ?found" using ev by simp
  finally have s: "sorted_wrt outranks (map (\<lambda>h. (hPath h, evidence (hPath h))) (selected @ rejected))"
    using scope_findings_ranked by metis
  have r: "map hRank (selected @ rejected) = map (\<lambda>i. int i + 1) [0..<length ?found]"
    using parts [of hRank "\<lambda>e. int (fst e) + 1"] map_map [of "\<lambda>i. int i + 1" fst "enumerate 0 ?found"]
    by (simp add: hypothesis_fields comp_def)
  have l: "length (selected @ rejected) = length ?found" unfolding e by simp
  have "hPath ` set (selected @ rejected) = fnPath ` set ?found" using arg_cong [OF paths, of set] by (simp add: image_Un)
  also have "\<dots> = {p \<in> set (uniqueObjectivePaths (listObjectiveCandidateFiles d ws @ expected)). evidence p \<noteq> 0}"
    unfolding scope_findings_set evidence_def by (auto simp: image_iff) (metis examine_path)
  finally have set: "hPath ` set (selected @ rejected) =
    {p \<in> set (uniqueObjectivePaths (listObjectiveCandidateFiles d ws @ expected)). evidence p \<noteq> 0}" .
  have "rejectedScopeReason a b c1 d1 k \<noteq> []" for a b c1 d1 k by (simp add: rejectedScopeReason_def)
  then have "\<forall>h \<in> set selected. hDisposition h = ''selected''"
    "\<forall>h \<in> set rejected. hDisposition h = ''rejected'' \<and> hRejectedBecause h \<noteq> []"
    unfolding e by (auto simp: hypothesis_fields)
  with s r l set show ?thesis unfolding e by auto
qed

lemma scope_is_a_ranking_witness:
  "case buildInitialScopeHypotheses repo_disk ''/w'' ''fix app.py'' [''README.md''] [] of (selected, rejected) \<Rightarrow>
     map hPath selected = [''app.py'', ''README.md''] \<and> rejected = [] \<and> map hRank (selected @ rejected) = [1, 2]"
proof -
  obtain sel rej where b: "buildInitialScopeHypotheses repo_disk ''/w'' ''fix app.py'' [''README.md''] [] = (sel, rej)" by fastforce
  have e: "map hPath (fst (buildInitialScopeHypotheses repo_disk ''/w'' ''fix app.py'' [''README.md''] [])) = [''app.py'', ''README.md'']"
    "map hPath (snd (buildInitialScopeHypotheses repo_disk ''/w'' ''fix app.py'' [''README.md''] [])) = []"
    by code_simp+
  then have "length (sel @ rej) = 2" unfolding b by auto
  moreover have "map hRank (sel @ rej) = map (\<lambda>i. int i + 1) [0..<length (sel @ rej)]" using scope_is_a_ranking [OF b] by blast
  ultimately have "map hRank (sel @ rej) = [1, 2]" by (simp add: upt_rec)
  then show ?thesis using e unfolding b by simp
qed

end
