(* ===== verification/Objective_Promises.thy ===== *)
theory Objective_Promises
  imports Objective_Generation
begin

text \<open>
  Where a generated contract meets the bridge that executes it: the command that validates an objective, the
  scope of a new project, and the scaffold of a workspace that is not quite empty.
\<close>

section \<open>The validation command\<close>

lemma split_generated:
  assumes "GenerateObjectiveExecutionContract env inp = Inr c"
  obtains b where "objective_brief_of env inp = Inr b" "c = contract_from b (inTimeBudgetSeconds inp)"
  using assms by (auto simp: GenerateObjectiveExecutionContract_def split: sum.splits)

abbreviation ws_of :: "objective_input \<Rightarrow> string" where "ws_of inp \<equiv> TrimSpace (inWorkspaceRoot inp)"
abbreviation goal_of :: "objective_input \<Rightarrow> string" where "goal_of inp \<equiv> TrimSpace (inObjective inp)"
abbreviation disk_of :: "objective_env \<Rightarrow> disk" where "disk_of env \<equiv> gDisk (jeService env)"

definition brief_states :: "objective_env \<Rightarrow> objective_input \<Rightarrow> repo_profile option \<Rightarrow> objective_brief \<Rightarrow> bool" where
  "brief_states env inp bootstrap b \<longleftrightarrow>
     bfObjective b = goal_of inp \<and> bfRoot b = ws_of inp \<and> bfDisk b = disk_of env \<and> bfContext b = inPlanningContext inp \<and>
     bfBootstrap b = (bootstrap \<noteq> None) \<and>
     bfProfile b = (case bootstrap of Some p \<Rightarrow> p
       | None \<Rightarrow> detectRepoWorkflowProfile (gParse (jeService env)) (gSprint (jeService env)) (disk_of env) (ws_of inp) (goal_of inp)) \<and>
     bfCommands b = (if wfTestCommand (bfProfile b) = [] then default_validation else wfTestCommand (bfProfile b)) \<and>
     bfPrecedents b = objectiveRetrievalPrecedentsFromContext (jeScore env) (jeNumber env) (inPlanningContext inp) \<and>
     (bfScope b, bfRejected b) =
       buildInitialScopeHypotheses (disk_of env) (ws_of inp) (goal_of inp) (wfExpected (bfProfile b)) (bfPrecedents b) \<and>
     bfPaths b = (if scopeHypothesisPaths (bfScope b) = [] then wfExpected (bfProfile b) else scopeHypothesisPaths (bfScope b))"

lemma brief_fields:
  assumes "objective_brief_of env inp = Inr b"
  shows "\<exists>title. brief_states env inp (detectObjectiveBootstrapProfile (disk_of env) (ws_of inp) title (goal_of inp)) b"
proof -
  define title where "title = firstTrimmed [TrimSpace (inTitle inp), goal_of inp]"
  have n: "\<not> (title = [] \<or> goal_of inp = [] \<or> ws_of inp = [])" using assms
    by (cases "title = [] \<or> goal_of inp = [] \<or> ws_of inp = []") (simp_all add: objective_brief_of_def Let_def title_def)
  from assms have "brief_states env inp (detectObjectiveBootstrapProfile (disk_of env) (ws_of inp) title (goal_of inp)) b"
    unfolding objective_brief_of_def Let_def title_def [symmetric] brief_states_def if_not_P [OF n] sum.inject
    by (elim subst) (simp only: objective_brief.select_convs prod.collapse simp_thms)
  then show ?thesis by blast
qed

lemma brief_profile:
  assumes "objective_brief_of env inp = Inr b" "\<not> shouldBootstrapObjectiveWorkspace (disk_of env) (ws_of inp)"
  shows "bfProfile b = detectRepoWorkflowProfile (gParse (jeService env)) (gSprint (jeService env)) (disk_of env) (ws_of inp) (goal_of inp)"
    and "\<not> bfBootstrap b"
  using brief_fields [OF assms(1)] assms(2) by (simp_all add: brief_states_def detectObjectiveBootstrapProfile_def)

lemma brief_commands:
  assumes "objective_brief_of env inp = Inr b"
  shows "bfCommands b = (if wfTestCommand (bfProfile b) = [] then default_validation else wfTestCommand (bfProfile b))"
  using brief_fields [OF assms] by (auto simp: brief_states_def)

lemma review_item_listed:
  obtains i where "i \<in> set (contract_items b)" "iID i = ''review''"
    "iToolRequest i = Some [''tool'' \<mapsto> AStr ''review_workspace'', ''project_root'' \<mapsto> AStr (contract_root b),
       ''test_command'' \<mapsto> AStrs (bfCommands b),
       ''execution_contract'' \<mapsto> AMap [''title'' \<mapsto> AStr (bfTitle b), ''normalized_objective'' \<mapsto> AStr (bfObjective b),
         ''workspace_root'' \<mapsto> AStr (bfRoot b)]]"
proof -
  obtain sides fin ps where c: "contract_items b = first_steps b @ contract_edit b (map iID (first_steps b)) # sides @
       [contract_validate b fin ps, contract_review b ps]" by (rule contract_items_split)
  show ?thesis by (rule that [of "contract_review b ps"]) (simp_all add: c contract_review_def)
qed

lemma validate_item_listed:
  obtains i where "i \<in> set (contract_items b)" "iID i = ''validate''"
    "iToolRequest i = Some [''tool'' \<mapsto> AStr ''run_tests'', ''argv'' \<mapsto> AStrs (bfCommands b)]"
proof -
  obtain sides fin ps where c: "contract_items b = first_steps b @ contract_edit b (map iID (first_steps b)) # sides @
       [contract_validate b fin ps, contract_review b ps]" by (rule contract_items_split)
  show ?thesis by (rule that [of "contract_validate b fin ps"]) (simp_all add: c contract_validate_def)
qed

text \<open>A request that was stored with its task reads like the one of the work item.\<close>

lemma stored_commands:
  assumes "cmd \<noteq> []" "\<forall>a \<in> set cmd. TrimSpace a = a \<and> a \<noteq> []" "v = AStrs cmd \<or> v = json_rt (AStrs cmd)"
  shows "anyStringSliceDefault (Some v) d = cmd"
proof -
  have "map (\<lambda>a. TrimSpace (asString (Some (AStr a)))) cmd = cmd" using assms(2) by (intro map_idI) (simp add: asString_def)
  moreover have "[] \<notin> set cmd" using assms(2) by blast
  ultimately show ?thesis using assms(1,3) by (auto simp: anyStringSliceDefault_def anyStringSlice_def Let_def comp_def)
qed

lemma in_cloneStrings: "a \<in> set (cloneStrings xs) \<Longrightarrow> TrimSpace a = a \<and> a \<noteq> []"
  by (auto simp: cloneStrings_def nonblank_def)

lemma decoded_commands: "decodeBenchmarkRepoWorkflowProfile parse sprint raw ws = Some p \<Longrightarrow> a \<in> set (wfTestCommand p) \<Longrightarrow>
    TrimSpace a = a \<and> a \<noteq> []"
proof -
  have b: "wfTestCommand (benchmark_profile sprint m ws) = cloneStrings (dec_strs (m ''test_command''))" for m
    by (simp add: benchmark_profile_def Let_def)
  assume d: "decodeBenchmarkRepoWorkflowProfile parse sprint raw ws = Some p" and a: "a \<in> set (wfTestCommand p)"
  from d obtain m where "p = benchmark_profile sprint m ws"
    by (auto simp only: decodeBenchmarkRepoWorkflowProfile_def option.inject split: option.split_asm any_val.split_asm if_split_asm)
  with a have "a \<in> set (cloneStrings (dec_strs (m ''test_command'')))" by (simp only: b)
  then show ?thesis by (rule in_cloneStrings)
qed

lemma goal_commands:
  assumes "loadBenchmarkRepoWorkflowProfileFromGoal parse sprint goal ws = Some p"
  shows "\<forall>a \<in> set (wfTestCommand p). TrimSpace a = a \<and> a \<noteq> []"
  using assms decoded_commands by (auto simp: loadBenchmarkRepoWorkflowProfileFromGoal_def split: option.splits)

lemma review_dot:
  assumes "rooted_at exec rw" "asString (req ''project_root'') = ''.''"
  shows "resolveWithDefault exec (Some (AStr (firstNonEmptyString [trimmed req ''project_root'', ''.'']))) ''.'' = Inr (xRoot exec, ''.'')"
proof -
  have "TrimSpace ''.'' = ''.''" by (simp add: TrimSpace_solid solid_def visible_def)
  moreover from this have "firstNonEmptyString [trimmed req ''project_root'', ''.''] = ''.''" using assms(2) by (simp add: trimmed_def)
  ultimately show ?thesis
    using resolve_rel_text [OF assms(1), of "[]"] assms(1) by (simp add: rel_text_def rooted_at_def)
qed

lemma run_review: "run_tool exec ''review_workspace'' q h = reviewWorkspace exec q h"
  by (simp add: run_tool_def)

text \<open>
  The text of an objective chooses the command that its review starts. A benchmark block in the objective sets
  the test command of the whole contract, and a bridge that gets the request of the review item starts that
  command in the workspace as it is written, whichever program it names; when the program is not among the
  allowed commands, the validation item, which has to succeed first, is refused.
\<close>

theorem objective_text_chooses_the_command:
  assumes "GenerateObjectiveExecutionContract env inp = Inr c" "\<not> shouldBootstrapObjectiveWorkspace (disk_of env) (ws_of inp)"
    and "loadBenchmarkRepoWorkflowProfileFromGoal (gParse (jeService env)) (gSprint (jeService env)) (goal_of inp) (ws_of inp) = Some p"
    and "wfTestCommand p = a # as" "wfProjectRoot p = ''.''" "rooted_at exec rw" "os_Stat (hDisk h) (xRoot exec) = Some Dir"
  shows "ecValidationCommands c = a # as \<and>
    (\<exists>i \<in> set (ecWorkItems c). \<exists>req. iID i = ''review'' \<and> iToolRequest i = Some req \<and>
      (\<exists>h' r cs. run_tool exec ''review_workspace'' (json_map req) h = (h', Inr r) \<and>
        hRuns h' = hRuns h @ \<lparr>cDir = xRoot exec, cArgv = a # as, cStdin = []\<rparr> # cs)) \<and>
    (\<exists>i \<in> set (ecWorkItems c). \<exists>req. iID i = ''validate'' \<and> iToolRequest i = Some req \<and>
      (a \<notin> set allowedCommands \<longrightarrow> run_tool exec ''run_tests'' (json_map req) h = (h, Inl (''command not allowed: '' @ a))))"
proof -
  obtain b where b: "objective_brief_of env inp = Inr b" "c = contract_from b (inTimeBudgetSeconds inp)" using split_generated [OF assms(1)] .
  have p: "bfProfile b = p" using brief_profile(1) [OF b(1) assms(2)] assms(3) by (simp add: detectRepoWorkflowProfile_def)
  have cmd: "bfCommands b = a # as" using brief_commands [OF b(1)] p assms(4) by simp
  have w: "\<forall>x \<in> set (a # as). TrimSpace x = x \<and> x \<noteq> []" using goal_commands [OF assms(3)] assms(4) by simp
  have dot: "contract_root b = ''.''" using p assms(5) by (simp add: contract_root_def TrimSpace_solid solid_def visible_def)
  obtain i where i: "i \<in> set (contract_items b)" "iID i = ''review''"
    "iToolRequest i = Some [''tool'' \<mapsto> AStr ''review_workspace'', ''project_root'' \<mapsto> AStr (contract_root b),
       ''test_command'' \<mapsto> AStrs (bfCommands b),
       ''execution_contract'' \<mapsto> AMap [''title'' \<mapsto> AStr (bfTitle b), ''normalized_objective'' \<mapsto> AStr (bfObjective b),
         ''workspace_root'' \<mapsto> AStr (bfRoot b)]]"
    by (rule review_item_listed [of b])
  define req where "req = the (iToolRequest i)"
  have rq: "asString (json_map req ''project_root'') = ''.''" "json_map req ''test_command'' = Some (json_rt (AStrs (a # as)))"
    by (simp_all add: req_def i(3) asString_def dot cmd)
  have "anyStringSliceDefault (json_map req ''test_command'') d = a # as" for d
    unfolding rq(2) by (rule stored_commands [OF _ w]) simp_all
  from reviewWorkspace_starts [OF review_dot [where req = "json_map req", OF assms(6) rq(1)] assms(7) this]
  have r: "\<exists>h' q cs. run_tool exec ''review_workspace'' (json_map req) h = (h', Inr q) \<and>
      hRuns h' = hRuns h @ \<lparr>cDir = xRoot exec, cArgv = a # as, cStdin = []\<rparr> # cs"
    unfolding run_review .
  obtain j where j: "j \<in> set (contract_items b)" "iID j = ''validate''"
    "iToolRequest j = Some [''tool'' \<mapsto> AStr ''run_tests'', ''argv'' \<mapsto> AStrs (bfCommands b)]" by (rule validate_item_listed [of b])
  define vq where "vq = the (iToolRequest j)"
  have vr: "json_map vq ''argv'' = Some (json_rt (AStrs (a # as)))" by (simp add: vq_def j(3) cmd)
  have "anyStringSliceDefault (json_map vq ''argv'') d = a # as" for d
    unfolding vr by (rule stored_commands [OF _ w]) simp_all
  then have v: "a \<notin> set allowedCommands \<longrightarrow> run_tool exec ''run_tests'' (json_map vq) h = (h, Inl (''command not allowed: '' @ a))"
    by (simp add: run_tool_def runTests_def runAllowedCommand_def Let_def)
  have "\<exists>i \<in> set (contract_items b). \<exists>req. iID i = ''review'' \<and> iToolRequest i = Some req \<and>
      (\<exists>h' r cs. run_tool exec ''review_workspace'' (json_map req) h = (h', Inr r) \<and>
        hRuns h' = hRuns h @ \<lparr>cDir = xRoot exec, cArgv = a # as, cStdin = []\<rparr> # cs)"
    by (intro bexI [OF _ i(1)] exI [of _ req] conjI i(2) r) (simp add: req_def i(3))
  moreover have "\<exists>i \<in> set (contract_items b). \<exists>req. iID i = ''validate'' \<and> iToolRequest i = Some req \<and>
      (a \<notin> set allowedCommands \<longrightarrow> run_tool exec ''run_tests'' (json_map req) h = (h, Inl (''command not allowed: '' @ a)))"
    by (intro bexI [OF _ j(1)] exI [of _ vq] conjI j(2) v) (simp add: vq_def j(3))
  ultimately show ?thesis using b(2) cmd by (simp only: contract_from_def execution_contract.select_convs simp_thms)
qed

text \<open>An objective that carries a benchmark block, and the planner that reads it.\<close>

definition go_test_goal :: string where
  "go_test_goal = ''go [BENCHMARK_CASE_JSON]{}[/BENCHMARK_CASE_JSON]''"

definition benchmark_planner :: objective_env where
  "benchmark_planner = \<lparr>jeService = lone_generator\<lparr>gDisk := repo_disk, gParse := (\<lambda>s. Some (AMap [''test_command'' \<mapsto> AArr [AStr ''go'', AStr ''test'']]))\<rparr>,
     jeScore = (\<lambda>x. ''1''), jeNumber = (\<lambda>x. AInt 1), jeUuid = (\<lambda>k. ''u'')\<rparr>"

lemma go_test_goal_profile:
  "\<exists>p. loadBenchmarkRepoWorkflowProfileFromGoal (gParse (jeService benchmark_planner)) (gSprint (jeService benchmark_planner)) go_test_goal ''/w''
      = Some p \<and> wfTestCommand p = [''go'', ''test''] \<and> wfProjectRoot p = ''.''"
proof -
  let ?f = "\<lambda>sprint. map_option (\<lambda>p. (wfTestCommand p, wfProjectRoot p)) (loadBenchmarkRepoWorkflowProfileFromGoal
     (\<lambda>s. Some (AMap [''test_command'' \<mapsto> AArr [AStr ''go'', AStr ''test'']])) sprint go_test_goal ''/w'')"
  have "?f sprint = Some ([''go'', ''test''], ''.'')" for sprint by code_simp
  then show ?thesis by (fastforce simp: benchmark_planner_def)
qed

lemma objective_text_chooses_the_command_witness:
  "\<exists>c. GenerateObjectiveExecutionContract benchmark_planner (ask_for go_test_goal) = Inr c \<and> ecValidationCommands c = [''go'', ''test''] \<and>
    (\<exists>i \<in> set (ecWorkItems c). \<exists>req. iID i = ''validate'' \<and> iToolRequest i = Some req \<and>
      run_tool lab_env ''run_tests'' (json_map req) lab_host = (lab_host, Inl ''command not allowed: go''))"
proof -
  have g: "goal_of (ask_for go_test_goal) = go_test_goal" "ws_of (ask_for go_test_goal) = ''/w''"
    unfolding ask_for_def objective_input.select_convs by code_simp+
  have "TrimSpace go_test_goal \<noteq> []" by code_simp
  from asked_contract [OF this] obtain c where c: "GenerateObjectiveExecutionContract benchmark_planner (ask_for go_test_goal) = Inr c"
    by blast
  obtain p where p: "loadBenchmarkRepoWorkflowProfileFromGoal (gParse (jeService benchmark_planner)) (gSprint (jeService benchmark_planner))
      go_test_goal ''/w'' = Some p" "wfTestCommand p = [''go'', ''test'']" "wfProjectRoot p = ''.''" using go_test_goal_profile by blast
  have d: "\<not> shouldBootstrapObjectiveWorkspace repo_disk ''/w''" by code_simp
  have n: "''go'' \<notin> set allowedCommands" by code_simp
  have k: "disk_of benchmark_planner = repo_disk" by (simp add: benchmark_planner_def)
  from objective_text_chooses_the_command [OF c, unfolded g k, OF d p lab_rooted lab_root_dir] n c show ?thesis by auto
qed

section \<open>Validation by a diff\<close>

lemma default_validation_stored: "anyStringSliceDefault (Some (json_rt (AStrs default_validation))) d = default_validation"
proof (rule stored_commands)
  show "\<forall>a \<in> set default_validation. TrimSpace a = a \<and> a \<noteq> []" by code_simp
qed (simp_all add: default_validation_def)

lemma run_tests: "run_tool exec ''run_tests'' q h = runTests exec q h"
  by (simp add: run_tool_def)

lemma success_word: "ToLower (TrimSpace ''success'') = ''success''"
  by code_simp

lemma quiet_subprocess:
  assumes "start exec (xRoot exec) argv [] h = (h1, out)" "oError out = None" "argv \<noteq> []"
  shows "\<exists>h' r. runSubprocess exec argv summary h = (h', Inr r) \<and> result_status r = ''success'' \<and> rsFindings r = []"
  using assms by (auto simp: runSubprocess_def withGitArtifacts_def process_result_def result_status_def no_result_def success_word
      split: prod.splits)

lemma git_diff_runs: "runAllowedCommand exec default_validation summary h = runSubprocess exec default_validation summary h"
proof -
  have "''git'' \<in> set allowedCommands" by code_simp
  then show ?thesis by (simp add: runAllowedCommand_def default_validation_def)
qed

text \<open>
  Without a profile of its repository an objective is validated by a command that reads no test. When neither
  a benchmark case nor the name of the workspace says otherwise, the validation command of the contract is a plain
  \<^verbatim>\<open>git diff\<close>, and the validation item succeeds without a finding whenever that command can be run, whatever the
  diff contains.
\<close>

theorem unknown_repository_is_validated_by_a_diff:
  assumes "GenerateObjectiveExecutionContract env inp = Inr c" "\<not> shouldBootstrapObjectiveWorkspace (disk_of env) (ws_of inp)"
    and "loadBenchmarkRepoWorkflowProfileFromGoal (gParse (jeService env)) (gSprint (jeService env)) (goal_of inp) (ws_of inp) = None"
    and "loadBenchmarkRepoWorkflowProfile (gParse (jeService env)) (gSprint (jeService env)) (disk_of env) (ws_of inp) = None"
    and "\<not> EqualFold (workspace_name (ws_of inp)) ''python-slugify''"
    and "start exec (xRoot exec) [''git'', ''diff'', ''--no-ext-diff''] [] h = (h1, out)" "oError out = None"
  shows "ecValidationCommands c = [''git'', ''diff'', ''--no-ext-diff''] \<and>
    (\<exists>i \<in> set (ecWorkItems c). \<exists>req. iID i = ''validate'' \<and> iToolRequest i = Some req \<and>
      (\<exists>h' r. run_tool exec ''run_tests'' (json_map req) h = (h', Inr r) \<and> result_status r = ''success'' \<and> rsFindings r = []))"
proof -
  obtain b where b: "objective_brief_of env inp = Inr b" "c = contract_from b (inTimeBudgetSeconds inp)" using split_generated [OF assms(1)] .
  have "wfTestCommand (bfProfile b) = []"
    using brief_profile(1) [OF b(1) assms(2)] assms(3,4,5) by (simp add: detectRepoWorkflowProfile_def no_profile_def Let_def)
  then have cmd: "bfCommands b = default_validation" using brief_commands [OF b(1)] by simp
  obtain j where j: "j \<in> set (contract_items b)" "iID j = ''validate''"
    "iToolRequest j = Some [''tool'' \<mapsto> AStr ''run_tests'', ''argv'' \<mapsto> AStrs (bfCommands b)]" by (rule validate_item_listed [of b])
  define req where "req = the (iToolRequest j)"
  have argv: "json_map req ''argv'' = Some (json_rt (AStrs default_validation))" by (simp add: req_def j(3) cmd)
  have s: "start exec (xRoot exec) default_validation [] h = (h1, out)" using assms(6) by (simp add: default_validation_def)
  obtain h' r where r: "runSubprocess exec default_validation ''Ran tests'' h = (h', Inr r)" "result_status r = ''success''" "rsFindings r = []"
    using quiet_subprocess [OF s assms(7), of "''Ran tests''"] unfolding default_validation_def by blast
  have "runAllowedCommand exec default_validation ''Ran tests'' h = (h', Inr r)"
    unfolding git_diff_runs by (rule r(1))
  then have "\<exists>q. run_tool exec ''run_tests'' (json_map req) h = (h', Inr q) \<and> result_status q = ''success'' \<and> rsFindings q = []"
    unfolding run_tests runTests_def argv default_validation_stored Let_def using r(2,3) by (simp add: result_status_def)
  then have "\<exists>i \<in> set (contract_items b). \<exists>req. iID i = ''validate'' \<and> iToolRequest i = Some req \<and>
      (\<exists>h' r. run_tool exec ''run_tests'' (json_map req) h = (h', Inr r) \<and> result_status r = ''success'' \<and> rsFindings r = [])"
    by (intro bexI [OF _ j(1)] exI [of _ req] conjI j(2)) (auto simp: req_def j(3))
  then show ?thesis using b(2) cmd by (simp only: contract_from_def execution_contract.select_convs default_validation_def simp_thms)
qed

lemma unknown_repository_is_validated_by_a_diff_witness:
  "\<exists>c. GenerateObjectiveExecutionContract (planner_on repo_disk) (ask_for ''fix app.py'') = Inr c \<and>
    ecValidationCommands c = [''git'', ''diff'', ''--no-ext-diff'']"
proof -
  let ?inp = "ask_for ''fix app.py''"
  have "TrimSpace ''fix app.py'' \<noteq> []" by code_simp
  from asked_contract [OF this] obtain c where c: "GenerateObjectiveExecutionContract (planner_on repo_disk) ?inp = Inr c" by blast
  have g: "goal_of ?inp = ''fix app.py''" "ws_of ?inp = ''/w''" unfolding ask_for_def objective_input.select_convs by code_simp+
  have k: "disk_of (planner_on repo_disk) = repo_disk" by (simp add: planner_on_def)
  have d: "\<not> shouldBootstrapObjectiveWorkspace repo_disk ''/w''" by code_simp
  have "find_block ''fix app.py'' = None" by code_simp
  then have f: "loadBenchmarkRepoWorkflowProfileFromGoal parse sprint ''fix app.py'' ''/w'' = None" for parse sprint
    by (simp add: loadBenchmarkRepoWorkflowProfileFromGoal_def)
  have "loadBenchmarkRepoWorkflowProfile parse sprint repo_disk ''/w'' = None" for parse sprint by code_simp
  moreover have "\<not> EqualFold (workspace_name ''/w'') ''python-slugify''" by code_simp
  moreover have "start lab_env (xRoot lab_env) [''git'', ''diff'', ''--no-ext-diff''] [] lab_host =
      (lab_host\<lparr>hRuns := [\<lparr>cDir = ''/w'', cArgv = [''git'', ''diff'', ''--no-ext-diff''], cStdin = []\<rparr>]\<rparr>, quiet)"
    by (simp add: start_def run_process_def lab_env_def lab_host_def)
  moreover have "oError quiet = None" by (simp add: quiet_def)
  ultimately show ?thesis using unknown_repository_is_validated_by_a_diff [OF c, unfolded g k, OF d f] c by blast
qed

section \<open>New projects\<close>

text \<open>The server plans a new project with the test command and the files that the bridge scaffolds.\<close>

lemma same_default_command: "defaultInitiativeTestCommand projectType stack = defaultBridgeTestCommand projectType stack"
  by (simp add: defaultInitiativeTestCommand_def defaultBridgeTestCommand_def Let_def)

lemma same_expected_files: "expectedInitiativeFiles projectType = expectedProjectFiles projectType"
  by (simp add: expectedInitiativeFiles_def expectedProjectFiles_def Let_def)

lemma bootstrap_profile:
  assumes "shouldBootstrapObjectiveWorkspace d ws"
  shows "\<exists>p. detectObjectiveBootstrapProfile d ws title objective = Some p \<and>
    wfProjectType p = fst (inferObjectiveScaffoldType objective) \<and> wfExpected p = expectedInitiativeFiles (fst (inferObjectiveScaffoldType objective))"
proof -
  obtain ty st where "inferObjectiveScaffoldType objective = (ty, st)" by fastforce
  with assms show ?thesis by (simp add: detectObjectiveBootstrapProfile_def no_profile_def Let_def)
qed

lemma brief_bootstraps:
  assumes "objective_brief_of env inp = Inr b" "shouldBootstrapObjectiveWorkspace (disk_of env) (ws_of inp)"
  shows "bfBootstrap b" "wfProjectType (bfProfile b) = fst (inferObjectiveScaffoldType (goal_of inp))"
    and "wfExpected (bfProfile b) = expectedInitiativeFiles (fst (inferObjectiveScaffoldType (goal_of inp)))"
proof -
  obtain title where t: "brief_states env inp (detectObjectiveBootstrapProfile (disk_of env) (ws_of inp) title (goal_of inp)) b"
    using brief_fields [OF assms(1)] by blast
  obtain p where p: "detectObjectiveBootstrapProfile (disk_of env) (ws_of inp) title (goal_of inp) = Some p"
    "wfProjectType p = fst (inferObjectiveScaffoldType (goal_of inp))"
    "wfExpected p = expectedInitiativeFiles (fst (inferObjectiveScaffoldType (goal_of inp)))" using bootstrap_profile [OF assms(2)] by blast
  from t [unfolded brief_states_def p(1)] p(2,3) show "bfBootstrap b"
    "wfProjectType (bfProfile b) = fst (inferObjectiveScaffoldType (goal_of inp))"
    "wfExpected (bfProfile b) = expectedInitiativeFiles (fst (inferObjectiveScaffoldType (goal_of inp)))" by simp_all
qed

lemma bootstrap_item_listed: "bfBootstrap b \<Longrightarrow> contract_bootstrap b \<in> set (contract_items b)"
proof -
  assume "bfBootstrap b"
  then have "contract_bootstrap b \<in> set (first_steps b)" by (simp add: first_steps_split early_items_def)
  moreover obtain sides fin ps where "contract_items b = first_steps b @ contract_edit b (map iID (first_steps b)) # sides @
       [contract_validate b fin ps, contract_review b ps]" by (rule contract_items_split)
  ultimately show ?thesis by simp
qed

lemma edit_waits_for_bootstrap: "bfBootstrap b \<Longrightarrow> \<exists>i \<in> set (contract_items b). iID i = ''edit'' \<and> ''bootstrap'' \<in> set (iDependsOn i)"
proof -
  assume b: "bfBootstrap b"
  obtain sides fin ps where c: "contract_items b = first_steps b @ contract_edit b (map iID (first_steps b)) # sides @
       [contract_validate b fin ps, contract_review b ps]" by (rule contract_items_split)
  have "''bootstrap'' \<in> set (map iID (first_steps b))" using b by (simp add: first_steps_split early_items_def)
  then show ?thesis unfolding c by (intro bexI [of _ "contract_edit b (map iID (first_steps b))"]) simp_all
qed

lemma scaffold_refused:
  assumes "rooted_at exec rw" "asString (req ''project_root'') = ''.''"
    and "physical (hDisk h) (xRoot exec) = Some q" "node_at (hDisk h) q = Some Dir" "dir_entries (hDisk h) q \<noteq> []"
  shows "run_tool exec ''scaffold_project'' req h = (h, Inl ''project already exists: .'')"
proof -
  have d: "TrimSpace ''.'' = ''.''" by (simp add: TrimSpace_solid solid_def visible_def)
  then have t: "trimmed req ''project_root'' = ''.''" using assms(2) by (simp add: trimmed_def)
  have "resolveWithDefault exec (Some (AStr ''.'')) ''.'' = Inr (xRoot exec, ''.'')"
    using review_dot [where req = req, OF assms(1,2)] t d by simp
  then have "resolveScaffoldRoot exec p ''.'' name h = (h, Inl ''project already exists: .'')" for p name
    using assms(3,4,5) d by (simp add: resolveScaffoldRoot_def ensureScaffoldTargetAvailable_def)
  then show ?thesis unfolding run_tool_def scaffoldProject_def Let_def t by simp
qed

text \<open>
  A bootstrap needs a directory that is really empty. The server plans a scaffold as soon as the workspace has no
  repository and no file of a known kind; the bridge refuses the planned request when the directory holds anything at all,
  and the edit of the objective waits for it. The request asks for the type of project that the text of the objective
  suggests, and its files are the ones that the bridge scaffolds for that type.
\<close>

theorem bootstrap_needs_an_empty_directory:
  assumes "GenerateObjectiveExecutionContract env inp = Inr c" "shouldBootstrapObjectiveWorkspace (disk_of env) (ws_of inp)"
    and "rooted_at exec rw" "physical (hDisk h) (xRoot exec) = Some q" "node_at (hDisk h) q = Some Dir" "dir_entries (hDisk h) q \<noteq> []"
  shows "(\<exists>i \<in> set (ecWorkItems c). \<exists>req. iID i = ''bootstrap'' \<and> iToolRequest i = Some req \<and>
      req ''project_type'' = Some (AStr (fst (inferObjectiveScaffoldType (goal_of inp)))) \<and>
      run_tool exec ''scaffold_project'' (json_map req) h = (h, Inl ''project already exists: .'')) \<and>
    (\<exists>i \<in> set (ecWorkItems c). iID i = ''edit'' \<and> ''bootstrap'' \<in> set (iDependsOn i))"
proof -
  obtain b where b: "objective_brief_of env inp = Inr b" "c = contract_from b (inTimeBudgetSeconds inp)" using split_generated [OF assms(1)] .
  note boot = brief_bootstraps [OF b(1) assms(2)]
  have items: "ecWorkItems c = contract_items b" using b(2) by (simp add: contract_from_def)
  obtain req where req: "iToolRequest (contract_bootstrap b) = Some req" "req ''project_root'' = Some (AStr ''.'')"
    "req ''project_type'' = Some (AStr (wfProjectType (bfProfile b)))" by (simp add: contract_bootstrap_def Let_def)
  have "asString (json_map req ''project_root'') = ''.''" using req(2) by (simp add: asString_def)
  from scaffold_refused [where req = "json_map req", OF assms(3) this assms(4,5,6)]
  have "\<exists>i \<in> set (contract_items b). \<exists>req. iID i = ''bootstrap'' \<and> iToolRequest i = Some req \<and>
      req ''project_type'' = Some (AStr (fst (inferObjectiveScaffoldType (goal_of inp)))) \<and>
      run_tool exec ''scaffold_project'' (json_map req) h = (h, Inl ''project already exists: .'')"
    by (intro bexI [OF _ bootstrap_item_listed [OF boot(1)]] exI [of _ req] conjI) (use req boot(2) in simp_all)
  with edit_waits_for_bootstrap [OF boot(1)] show ?thesis unfolding items by blast
qed

text \<open>A workspace with a log file in it.\<close>

definition log_disk :: disk where
  "log_disk = [([''w''], Dir), ([''w'', ''run.log''], File ''x'')]"

lemma bootstrap_needs_an_empty_directory_witness:
  "\<exists>c. GenerateObjectiveExecutionContract (planner_on log_disk) (ask_for ''new api'') = Inr c \<and>
    (\<exists>i \<in> set (ecWorkItems c). \<exists>req. iID i = ''bootstrap'' \<and> iToolRequest i = Some req \<and>
      run_tool lab_env ''scaffold_project'' (json_map req) (lab_host\<lparr>hDisk := log_disk\<rparr>) =
        (lab_host\<lparr>hDisk := log_disk\<rparr>, Inl ''project already exists: .''))"
proof -
  let ?inp = "ask_for ''new api''" and ?h = "lab_host\<lparr>hDisk := log_disk\<rparr>"
  have "TrimSpace ''new api'' \<noteq> []" by code_simp
  from asked_contract [OF this] obtain c where c: "GenerateObjectiveExecutionContract (planner_on log_disk) ?inp = Inr c" by blast
  have g: "goal_of ?inp = ''new api''" "ws_of ?inp = ''/w''" unfolding ask_for_def objective_input.select_convs by code_simp+
  have k: "disk_of (planner_on log_disk) = log_disk" by (simp add: planner_on_def)
  have d: "shouldBootstrapObjectiveWorkspace log_disk ''/w''" by code_simp
  have "physical (hDisk ?h) (xRoot lab_env) = Some [''w'']" "node_at (hDisk ?h) [''w''] = Some Dir" "dir_entries (hDisk ?h) [''w''] \<noteq> []"
    by code_simp+
  from bootstrap_needs_an_empty_directory [OF c, unfolded g k, OF d lab_rooted this] c show ?thesis by blast
qed

section \<open>The scope of a new project\<close>

lemma insert_by_map:
  assumes "\<And>a b. lt (f a) (f b) \<longleftrightarrow> lt' a b"
  shows "insert_by lt (f x) (map f xs) = map f (insert_by lt' x xs)"
  by (induction xs) (simp_all add: assms)

lemma sort_by_map:
  assumes "\<And>a b. lt (f a) (f b) \<longleftrightarrow> lt' a b"
  shows "sort_by lt (map f xs) = map f (sort_by lt' xs)"
  by (induction xs) (simp_all add: insert_by_map [where lt = lt and f = f, OF assms])

definition unnamed :: "string \<Rightarrow> string \<Rightarrow> bool" where
  "unnamed goal p \<longleftrightarrow> \<not> Contains goal (ToLower (TrimSpace p)) \<and> \<not> Contains goal (ToLower (path_base (ToLower (TrimSpace p))))"

definition expected_only :: "string \<Rightarrow> finding" where
  "expected_only p = \<lparr>fnPath = p, fnScore = 3, fnRationale = ''repo profile expected file'', fnEvidence = p, fnConfidence = ''low'', fnCitations = []\<rparr>"

lemma TrimSpace_empty: "TrimSpace [] = []"
  by code_simp

lemma examine_expected:
  assumes "unnamed goal p" "p \<in> set expected"
  shows "examine goal [[]] expected [] p = expected_only p"
  using assms by (simp add: examine_def Let_def unnamed_def direct_mention_def readme_mention_def expected_mention_def precedent_mention_def
      objectivePlannerPrecedentSupport_def expected_only_def TrimSpace_empty)

definition scaffold_types :: "string list" where
  "scaffold_types = [''web_small'', ''api_http'', ''worker_background'', ''debug_regression'', ''toy_repo'', ''cli_simple'']"

lemma inferred_type: "fst (inferObjectiveScaffoldType objective) \<in> set scaffold_types"
  by (simp add: inferObjectiveScaffoldType_def scaffold_types_def Let_def)

definition tidy_names :: "string list \<Rightarrow> bool" where
  "tidy_names ps \<longleftrightarrow> uniqueObjectivePaths ps = ps \<and> list_all (\<lambda>p. ToLower (TrimSpace p) \<noteq> []) ps \<and>
     uniqueObjectivePaths (nonblank (map TrimSpace (take 2 (sort_by str_less ps)))) = take 2 (sort_by str_less ps) \<and>
     take 2 (sort_by str_less ps) \<noteq> []"

lemma expected_tidy: "ty \<in> set scaffold_types \<Longrightarrow> tidy_names (expectedInitiativeFiles ty)"
proof -
  have "list_all (\<lambda>ty. tidy_names (expectedInitiativeFiles ty)) scaffold_types" by code_simp
  then show "ty \<in> set scaffold_types \<Longrightarrow> ?thesis" by (simp add: list_all_iff)
qed

lemma expected_findings:
  assumes "listObjectiveCandidateFiles d ws = []" "readObjectiveReadme d ws = []" "tidy_names ps"
    and "\<forall>p \<in> set ps. unnamed (ToLower (TrimSpace objective)) p"
  shows "scope_findings d ws objective ps [] = map expected_only (sort_by str_less ps)"
proof -
  have "filter (\<lambda>p. ToLower (TrimSpace p) \<noteq> []) (uniqueObjectivePaths ps) = ps"
    using assms(3) by (simp add: tidy_names_def list_all_iff)
  moreover have "map (examine (ToLower (TrimSpace objective)) [[]] ps []) ps = map expected_only ps"
    using assms(4) examine_expected by simp
  moreover have "filter (\<lambda>f. fnScore f \<noteq> 0) (map expected_only ps) = map expected_only ps"
    by (simp add: expected_only_def filter_map comp_def)
  moreover have "sort_by found_before (map expected_only ps) = map expected_only (sort_by str_less ps)"
    by (rule sort_by_map) (simp add: found_before_def expected_only_def)
  moreover have "split_on CHR 0x0A (ToLower []) = [[]]" by simp
  ultimately show ?thesis unfolding scope_findings_def Let_def assms(1,2) append_Nil by metis
qed

text \<open>
  The scope of a new project is an accident of the alphabet. When nothing but the profile speaks for a file, the
  paths that the contract of a bootstrap suspects are the first two names of its scaffold in the order of their
  bytes, whatever the objective is about; for a command line tool these are the README and the manifest, and the
  source file is among the rejected paths.
\<close>

theorem greenfield_scope_is_alphabetical:
  assumes "GenerateObjectiveExecutionContract env inp = Inr c" "shouldBootstrapObjectiveWorkspace (disk_of env) (ws_of inp)"
    and "ty = fst (inferObjectiveScaffoldType (goal_of inp))" "inPlanningContext inp = None" "readObjectiveReadme (disk_of env) (ws_of inp) = []"
    and "\<forall>p \<in> set (expectedInitiativeFiles ty). unnamed (ToLower (TrimSpace (goal_of inp))) p"
  shows "ecSuspectedPaths c = take 2 (sort_by str_less (expectedInitiativeFiles ty)) \<and>
    map hPath (ecRejectedScope c) = drop 2 (sort_by str_less (expectedInitiativeFiles ty)) \<and>
    (ty = ''cli_simple'' \<longrightarrow> ecSuspectedPaths c = [''README.md'', ''lab.json''] \<and> ''main.py'' \<in> hPath ` set (ecRejectedScope c))"
proof -
  let ?ps = "expectedInitiativeFiles ty" and ?fs = "map expected_only (sort_by str_less (expectedInitiativeFiles ty))"
  obtain b where b: "objective_brief_of env inp = Inr b" "c = contract_from b (inTimeBudgetSeconds inp)" using split_generated [OF assms(1)] .
  obtain title where st: "brief_states env inp (detectObjectiveBootstrapProfile (disk_of env) (ws_of inp) title (goal_of inp)) b"
    using brief_fields [OF b(1)] by blast
  have tidy: "tidy_names ?ps" unfolding assms(3) by (rule expected_tidy [OF inferred_type])
  have prec: "bfPrecedents b = []" using st assms(4) by (simp add: brief_states_def objectiveRetrievalPrecedentsFromContext_def)
  have none: "listObjectiveCandidateFiles (disk_of env) (ws_of inp) = []"
    using assms(2) by (simp add: shouldBootstrapObjectiveWorkspace_def Let_def)
  from expected_findings [OF none assms(5) tidy assms(6)]
  have f: "scope_findings (disk_of env) (ws_of inp) (goal_of inp) ?ps [] = ?fs" .
  have "(bfScope b, bfRejected b) = buildInitialScopeHypotheses (disk_of env) (ws_of inp) (goal_of inp) ?ps []"
    using st brief_bootstraps(3) [OF b(1) assms(2)] prec assms(3) by (simp add: brief_states_def)
  then have e: "map hPath (bfScope b) = map (\<lambda>e. fnPath (snd e)) (take 2 (enumerate 0 ?fs))"
    "map hPath (bfRejected b) = map (\<lambda>e. fnPath (snd e)) (drop 2 (enumerate 0 ?fs))"
    by (simp_all add: buildInitialScopeHypotheses_def f Let_def hypothesis_fields comp_def)
  have names: "map (\<lambda>e. fnPath (snd e)) (enumerate 0 ?fs) = sort_by str_less ?ps"
    using map_map [of fnPath snd "enumerate 0 ?fs"] by (simp add: comp_def expected_only_def)
  have sel: "map hPath (bfScope b) = take 2 (sort_by str_less ?ps)" unfolding e(1) take_map [symmetric] names ..
  have rej: "map hPath (bfRejected b) = drop 2 (sort_by str_less ?ps)" unfolding e(2) drop_map [symmetric] names ..
  have "scopeHypothesisPaths (bfScope b) = uniqueObjectivePaths (nonblank (map TrimSpace (map hPath (bfScope b))))"
    by (simp add: scopeHypothesisPaths_def comp_def)
  also have "\<dots> = take 2 (sort_by str_less ?ps)" unfolding sel using tidy by (simp add: tidy_names_def)
  finally have "bfPaths b = take 2 (sort_by str_less ?ps)" using st tidy by (simp add: brief_states_def tidy_names_def)
  then have c: "ecSuspectedPaths c = take 2 (sort_by str_less ?ps)" "map hPath (ecRejectedScope c) = drop 2 (sort_by str_less ?ps)"
    using b(2) rej by (simp_all add: contract_from_def)
  have "take 2 (sort_by str_less (expectedInitiativeFiles ''cli_simple'')) = [''README.md'', ''lab.json'']"
    "drop 2 (sort_by str_less (expectedInitiativeFiles ''cli_simple'')) = [''main.py'', ''tests/test_main.py'']" by code_simp+
  then have "ty = ''cli_simple'' \<longrightarrow> ecSuspectedPaths c = [''README.md'', ''lab.json''] \<and> ''main.py'' \<in> hPath ` set (ecRejectedScope c)"
    using c(1) arg_cong [OF c(2), of set] by simp
  with c show ?thesis by simp
qed

lemma greenfield_scope_is_alphabetical_witness:
  "\<exists>c. GenerateObjectiveExecutionContract (planner_on log_disk) (ask_for ''count words'') = Inr c \<and>
    ecSuspectedPaths c = [''README.md'', ''lab.json''] \<and> ''main.py'' \<in> hPath ` set (ecRejectedScope c)"
proof -
  let ?inp = "ask_for ''count words''"
  have "TrimSpace ''count words'' \<noteq> []" by code_simp
  from asked_contract [OF this] obtain c where c: "GenerateObjectiveExecutionContract (planner_on log_disk) ?inp = Inr c" by blast
  have g: "goal_of ?inp = ''count words''" "ws_of ?inp = ''/w''" unfolding ask_for_def objective_input.select_convs by code_simp+
  have k: "disk_of (planner_on log_disk) = log_disk" by (simp add: planner_on_def)
  have d: "shouldBootstrapObjectiveWorkspace log_disk ''/w''" by code_simp
  have t: "''cli_simple'' = fst (inferObjectiveScaffoldType ''count words'')" by code_simp
  have n: "inPlanningContext ?inp = None" by (simp add: ask_for_def)
  have r: "readObjectiveReadme log_disk ''/w'' = []" by code_simp
  have "list_all (unnamed (ToLower (TrimSpace ''count words''))) (expectedInitiativeFiles ''cli_simple'')" by code_simp
  then have u: "\<forall>p \<in> set (expectedInitiativeFiles ''cli_simple''). unnamed (ToLower (TrimSpace ''count words'')) p" by (simp add: list_all_iff)
  from greenfield_scope_is_alphabetical [OF c, unfolded g k, OF d t n r u] c show ?thesis by blast
qed

end
