(* ===== verification/Task_Listing.thy ===== *)
theory Task_Listing
  imports Task_Lifecycle
begin

text \<open>
  Listing of tasks and approvals (\<^verbatim>\<open>ListTasks\<close>, \<^verbatim>\<open>ListApprovals\<close> and
  \<^verbatim>\<open>ListWorkspaceCleanupCandidates\<close> of \<^verbatim>\<open>store/postgres.go\<close>). A cursor is the decoded
  payload of \<^verbatim>\<open>domain.DecodeCursor\<close>; its base64 wire text is not modelled beyond the decoding
  error. The properties are that a cursor resumes exactly after the row it was made from, and that
  following the cursors to the end returns every matching task once, newest first.
\<close>

section \<open>The query\<close>

datatype cursor_arg = NoCursor | BadCursor string | Cursor instant string

record task_filter =
  fState :: "task_state option"
  fAgent :: string
  fPriority :: string
  fExecutionTarget :: string
  fInitiativeID :: string
  fIncludeArchived :: bool
  fOnlyArchived :: bool
  fParentTaskID :: string
  fRootTaskID :: string
  fDateFrom :: "instant option"
  fDateTo :: "instant option"
  fCursor :: cursor_arg
  fLimit :: int

definition filter_matches :: "task_filter \<Rightarrow> task \<Rightarrow> bool" where
  "filter_matches f t \<longleftrightarrow>
     (case fState f of None \<Rightarrow> True | Some s \<Rightarrow> tState t = s) \<and>
     (fAgent f \<noteq> [] \<longrightarrow> tAssignedAgent t = Some (fAgent f)) \<and>
     (fPriority f \<noteq> [] \<longrightarrow> tPriority t = fPriority f) \<and>
     (fExecutionTarget f \<noteq> [] \<longrightarrow> tExecutionTarget t = fExecutionTarget f) \<and>
     (TrimSpace (fInitiativeID f) \<noteq> [] \<longrightarrow> tInitiativeID t = Some (fInitiativeID f)) \<and>
     (if fOnlyArchived f then tArchivedAt t \<noteq> None
      else fIncludeArchived f \<or> tArchivedAt t = None) \<and>
     (fParentTaskID f \<noteq> [] \<longrightarrow> tParentTaskID t = Some (fParentTaskID f)) \<and>
     (fRootTaskID f \<noteq> [] \<longrightarrow> tRootTaskID t = Some (fRootTaskID f)) \<and>
     (case fDateFrom f of None \<Rightarrow> True | Some a \<Rightarrow> a \<le> tCreatedAt t) \<and>
     (case fDateTo f of None \<Rightarrow> True | Some b \<Rightarrow> tCreatedAt t \<le> b)"

definition before_cursor :: "instant \<Rightarrow> string \<Rightarrow> task \<Rightarrow> bool" where
  "before_cursor c i t \<longleftrightarrow> tCreatedAt t < c \<or> (tCreatedAt t = c \<and> str_less (tID t) i)"

definition cursor_clause :: "cursor_arg \<Rightarrow> task \<Rightarrow> bool" where
  "cursor_clause c t = (case c of Cursor a i \<Rightarrow> before_cursor a i t | _ \<Rightarrow> True)"

definition list_limit :: "int \<Rightarrow> nat" where
  "list_limit l = nat (if l \<le> 0 then 20 else if l > 100 then 100 else l)"

definition newer :: "task \<Rightarrow> task \<Rightarrow> bool" where
  "newer a b \<longleftrightarrow> created_before b a"

definition ListTasks :: "db \<Rightarrow> task_filter \<Rightarrow> (task list \<times> (instant \<times> string) option) result" where
  "ListTasks d f =
     (case fCursor f of
        BadCursor e \<Rightarrow> Inl e
      | _ \<Rightarrow>
          (let limit = list_limit (fLimit f);
               rows = take (limit + 1)
                 (sort_by newer (filter (\<lambda>t. filter_matches f t \<and> cursor_clause (fCursor f) t) (dbTasks d)))
           in if length rows > limit
              then (let items = take limit rows; l = last items in Inr (items, Some (tCreatedAt l, tID l)))
              else Inr (rows, None)))"

definition cleanup_before :: "task \<Rightarrow> task \<Rightarrow> bool" where
  "cleanup_before a b =
     (case (tCompletedAt a, tCompletedAt b) of
        (Some x, Some y) \<Rightarrow> x < y \<or> (x = y \<and> str_less (tID a) (tID b))
      | _ \<Rightarrow> False)"

definition ListWorkspaceCleanupCandidates :: "db \<Rightarrow> instant \<Rightarrow> int \<Rightarrow> task list" where
  "ListWorkspaceCleanupCandidates d cutoff limit0 =
     (let limit = (if limit0 \<le> 0 then 100 else limit0)
      in take (nat limit)
           (sort_by cleanup_before
             (filter (\<lambda>t. tState t \<in> {Completed, Failed, Cancelled} \<and> tWorkspacePath t \<noteq> None \<and>
                 (case tCompletedAt t of None \<Rightarrow> False | Some c \<Rightarrow> c < cutoff)) (dbTasks d))))"

definition ListApprovals :: "db \<Rightarrow> approval_status option \<Rightarrow> int \<Rightarrow> approval list" where
  "ListApprovals d status limit0 =
     (let limit = (if limit0 \<le> 0 then 50 else limit0)
      in take (nat limit)
           (sort_by (\<lambda>a b. aRequestedAt b < aRequestedAt a)
             (filter (\<lambda>a. case status of None \<Rightarrow> True | Some s \<Rightarrow> aStatus a = s) (dbApprovals d))))"

section \<open>Following the cursors\<close>

text \<open>The client's loop: ask for a page, then for the page after its cursor, until there is none.\<close>

fun walk :: "nat \<Rightarrow> db \<Rightarrow> task_filter \<Rightarrow> task list result" where
  "walk 0 d f = Inl ''out of fuel''"
| "walk (Suc n) d f =
     (case ListTasks d f of
        Inl e \<Rightarrow> Inl e
      | Inr (items, None) \<Rightarrow> Inr items
      | Inr (items, Some (c, i)) \<Rightarrow>
          (case walk n d (f\<lparr>fCursor := Cursor c i\<rparr>) of Inl e \<Rightarrow> Inl e | Inr rest \<Rightarrow> Inr (items @ rest)))"

definition all_matching :: "db \<Rightarrow> task_filter \<Rightarrow> task list" where
  "all_matching d f = sort_by newer (filter (filter_matches f) (dbTasks d))"

lemma newer_total: "tID a \<noteq> tID b \<Longrightarrow> newer a b \<or> newer b a"
  using str_less_total [of "tID a" "tID b"] by (auto simp: newer_def created_before_def)

lemma newer_irrefl: "\<not> newer a a"
  by (simp add: newer_def created_before_def)

lemma newer_asym: "newer a b \<Longrightarrow> \<not> newer b a"
  by (auto simp: newer_def created_before_def dest: str_less_trans)

lemma newer_trans: "newer a b \<Longrightarrow> newer b c \<Longrightarrow> newer a c"
  by (auto simp: newer_def created_before_def dest: str_less_trans)

lemma newer_neg_trans: "\<not> newer b a \<Longrightarrow> \<not> newer c b \<Longrightarrow> \<not> newer c a"
  using newer_trans str_less_total [of "tID a" "tID b"] str_less_total [of "tID b" "tID c"]
  by (auto simp: newer_def created_before_def dest: str_less_trans)

lemma before_cursor_newer: "before_cursor (tCreatedAt l) (tID l) t \<longleftrightarrow> newer l t"
  by (auto simp: before_cursor_def newer_def created_before_def)

lemma sort_by_newer_strict:
  assumes "keyed tID ts"
  shows "sorted_wrt newer (sort_by newer ts)"
proof -
  have s: "sorted_wrt (\<lambda>a b. \<not> newer b a) (sort_by newer ts)"
    by (rule sorted_sort_by) (use newer_neg_trans newer_asym in blast)+
  have m: "mset (map tID (sort_by newer ts)) = mset (map tID ts)" by simp
  have k: "keyed tID (sort_by newer ts)" using assms mset_eq_imp_distinct_iff [OF m] by simp
  have "newer (sort_by newer ts ! i) (sort_by newer ts ! j)" if "i < j" "j < length (sort_by newer ts)" for i j
  proof -
    have "tID (sort_by newer ts ! i) \<noteq> tID (sort_by newer ts ! j)"
      using k that nth_eq_iff_index_eq [OF k, of i j] by simp
    moreover have "\<not> newer (sort_by newer ts ! j) (sort_by newer ts ! i)"
      using s that by (simp add: sorted_wrt_iff_nth_less)
    ultimately show ?thesis using newer_total by blast
  qed
  then show ?thesis by (simp add: sorted_wrt_iff_nth_less)
qed

text \<open>Sorting has one result on distinct keys, so filtering commutes with it.\<close>

lemma sorted_newer_unique:
  assumes "sorted_wrt newer xs" and "sorted_wrt newer ys" and "set xs = set ys"
  shows "xs = ys"
  using assms
proof (induction xs arbitrary: ys)
  case Nil
  then show ?case by simp
next
  case (Cons x xs)
  then obtain y ys' where ys: "ys = y # ys'" by (cases ys) auto
  have "x = y"
  proof (rule ccontr)
    assume "x \<noteq> y"
    with Cons.prems ys have "x \<in> set ys'" "y \<in> set xs" by auto
    with Cons.prems ys have "newer x y" "newer y x" by auto
    then show False using newer_asym by blast
  qed
  moreover have "x \<notin> set xs" "y \<notin> set ys'" using Cons.prems ys newer_irrefl by auto
  ultimately have "set xs = set ys'" using Cons.prems ys by auto
  with Cons ys \<open>x = y\<close> show ?case by auto
qed

lemma keyed_filter: "keyed key ts \<Longrightarrow> keyed key (filter P ts)"
  by (simp add: distinct_map_filter)

lemma filter_sort_by_newer:
  assumes "keyed tID ts"
  shows "sort_by newer (filter P ts) = filter P (sort_by newer ts)"
  by (rule sorted_newer_unique)
    (auto simp: keyed_filter assms intro!: sort_by_newer_strict sorted_wrt_filter)

lemma filter_after:
  assumes "sorted_wrt newer xs" and "n < length xs"
  shows "filter (newer (xs ! n)) xs = drop (Suc n) xs"
  using assms
proof (induction xs arbitrary: n)
  case (Cons x xs)
  show ?case
  proof (cases n)
    case 0
    have "filter (newer x) xs = xs" using Cons.prems by (simp add: filter_id_conv)
    with 0 newer_irrefl show ?thesis by simp
  next
    case (Suc m)
    then have "newer x (xs ! m)" using Cons.prems by simp
    then have "\<not> newer (xs ! m) x" by (rule newer_asym)
    with Suc Cons show ?thesis by simp
  qed
qed simp

lemma list_limit_pos [simp]: "0 < list_limit l"
  by (simp add: list_limit_def)

lemma list_limit_le: "list_limit l \<le> 100"
  by (auto simp: list_limit_def nat_le_iff)

lemma all_matching_cursor [simp]: "all_matching d (f\<lparr>fCursor := c\<rparr>) = all_matching d f"
  unfolding all_matching_def filter_matches_def by simp

definition stands_at :: "db \<Rightarrow> task_filter \<Rightarrow> nat \<Rightarrow> bool" where
  "stands_at d f n \<longleftrightarrow> fCursor f = NoCursor \<and> n = 0 \<or>
     (\<exists>m < length (all_matching d f). n = Suc m \<and>
         fCursor f = Cursor (tCreatedAt (all_matching d f ! m)) (tID (all_matching d f ! m)))"

lemma query_from:
  assumes k: "keyed tID (dbTasks d)" and c: "stands_at d f n"
  shows "sort_by newer (filter (\<lambda>t. filter_matches f t \<and> cursor_clause (fCursor f) t) (dbTasks d)) =
    drop n (all_matching d f)"
proof -
  have s: "sorted_wrt newer (all_matching d f)"
    unfolding all_matching_def using k by (intro sort_by_newer_strict keyed_filter)
  have eq: "sort_by newer (filter (\<lambda>t. filter_matches f t \<and> cursor_clause (fCursor f) t) (dbTasks d)) =
      filter (cursor_clause (fCursor f)) (all_matching d f)"
    using filter_sort_by_newer [OF keyed_filter [OF k], of "cursor_clause (fCursor f)" "filter_matches f"]
    by (simp add: all_matching_def conj_commute)
  from c [unfolded stands_at_def] show ?thesis
  proof
    assume "fCursor f = NoCursor \<and> n = 0"
    with eq show ?thesis by (simp add: cursor_clause_def)
  next
    assume "\<exists>m < length (all_matching d f). n = Suc m \<and>
         fCursor f = Cursor (tCreatedAt (all_matching d f ! m)) (tID (all_matching d f ! m))"
    then obtain m where m: "m < length (all_matching d f)" "n = Suc m"
      "fCursor f = Cursor (tCreatedAt (all_matching d f ! m)) (tID (all_matching d f ! m))" by blast
    then have "cursor_clause (fCursor f) = newer (all_matching d f ! m)"
      by (simp add: cursor_clause_def before_cursor_newer fun_eq_iff)
    with eq m(2) filter_after [OF s m(1)] show ?thesis by simp
  qed
qed

lemma page_from:
  assumes k: "keyed tID (dbTasks d)" and c: "stands_at d f n"
  shows "ListTasks d f =
    (if n + list_limit (fLimit f) < length (all_matching d f)
     then Inr (take (list_limit (fLimit f)) (drop n (all_matching d f)),
               Some (tCreatedAt (all_matching d f ! (n + list_limit (fLimit f) - 1)),
                     tID (all_matching d f ! (n + list_limit (fLimit f) - 1))))
     else Inr (drop n (all_matching d f), None))"
proof -
  let ?a = "all_matching d f" and ?l = "list_limit (fLimit f)"
  have nb: "fCursor f \<noteq> BadCursor e" for e using c by (auto simp: stands_at_def)
  have l: "last (take ?l (drop n ?a)) = ?a ! (n + ?l - 1)" if "n + ?l < length ?a"
  proof -
    have "take ?l (drop n ?a) \<noteq> []" using that list_limit_pos [of "fLimit f"] by auto
    moreover have "n + (?l - 1) = n + ?l - 1" using list_limit_pos [of "fLimit f"] by linarith
    ultimately show ?thesis using that by (simp add: last_conv_nth min_def)
  qed
  have "ListTasks d f = (let rows = take (?l + 1) (drop n ?a)
      in if length rows > ?l
         then (let items = take ?l rows; l = last items in Inr (items, Some (tCreatedAt l, tID l)))
         else Inr (rows, None))"
    unfolding ListTasks_def Let_def query_from [OF assms] using nb by (auto split: cursor_arg.split)
  then show ?thesis using l
    by (cases "n + ?l < length ?a") (auto simp: Let_def min_def take_take)
qed

lemma walk_from:
  assumes k: "keyed tID (dbTasks d)"
  shows "stands_at d f n \<Longrightarrow> length (all_matching d f) < n + fuel \<Longrightarrow> 0 < fuel \<Longrightarrow>
    walk fuel d f = Inr (drop n (all_matching d f))"
proof (induction fuel arbitrary: f n)
  case (Suc fuel)
  let ?a = "all_matching d f" and ?l = "list_limit (fLimit f)"
  show ?case
  proof (cases "n + ?l < length ?a")
    case False
    then show ?thesis using page_from [OF k Suc.prems(1)] by simp
  next
    case True
    let ?m = "n + ?l - 1"
    let ?g = "f\<lparr>fCursor := Cursor (tCreatedAt (?a ! ?m)) (tID (?a ! ?m))\<rparr>"
    have "stands_at d ?g (n + ?l)"
      using True list_limit_pos [of "fLimit f"] by (auto simp: stands_at_def intro!: exI [of _ ?m])
    moreover have "length ?a < n + ?l + fuel" "0 < fuel"
      using Suc.prems(2) True list_limit_pos [of "fLimit f"] by linarith+
    ultimately have "walk fuel d ?g = Inr (drop (n + ?l) ?a)" using Suc.IH [of ?g "n + ?l"] by simp
    then show ?thesis using page_from [OF k Suc.prems(1)] True
      by (simp add: take_drop [symmetric] add.commute)
        (metis append_take_drop_id drop_drop add.commute)
  qed
qed simp

section \<open>Properties\<close>

text \<open>
  C4: following the cursors of \<^verbatim>\<open>ListTasks\<close> from the first page ends, and the pages put together
  are exactly the tasks that match the filter, each once, newest first; no page is longer than 100.
\<close>

theorem pages_cover_the_listing:
  assumes "keyed tID (dbTasks d)" and "fCursor f = NoCursor"
  shows "walk (Suc (length (dbTasks d))) d f = Inr (all_matching d f) \<and>
    set (all_matching d f) = {t \<in> set (dbTasks d). filter_matches f t} \<and> distinct (all_matching d f) \<and>
    sorted_wrt newer (all_matching d f) \<and>
    (\<forall>g items c. ListTasks d g = Inr (items, c) \<longrightarrow> length items \<le> 100)"
proof (intro conjI allI impI)
  have "length (all_matching d f) \<le> length (dbTasks d)" by (simp add: all_matching_def)
  then show "walk (Suc (length (dbTasks d))) d f = Inr (all_matching d f)"
    using walk_from [OF assms(1), of f 0 "Suc (length (dbTasks d))"] assms(2) by (simp add: stands_at_def)
  show "set (all_matching d f) = {t \<in> set (dbTasks d). filter_matches f t}"
    by (auto simp: all_matching_def)
  show s: "sorted_wrt newer (all_matching d f)"
    unfolding all_matching_def using assms(1) by (intro sort_by_newer_strict keyed_filter)
  show "distinct (all_matching d f)"
    using s newer_irrefl by (auto simp: distinct_conv_nth sorted_wrt_iff_nth_less) (metis linorder_neqE_nat)
  show "length items \<le> 100" if "ListTasks d g = Inr (items, c)" for g items c
    using that list_limit_le [of "fLimit g"]
    by (auto simp: ListTasks_def Let_def min_def split: cursor_arg.splits if_splits)
qed

text \<open>The witness lists a database with one task.\<close>

definition any_filter :: task_filter where
  "any_filter =
     \<lparr>fState = None, fAgent = [], fPriority = [], fExecutionTarget = [], fInitiativeID = [],
      fIncludeArchived = True, fOnlyArchived = False, fParentTaskID = [], fRootTaskID = [],
      fDateFrom = None, fDateTo = None, fCursor = NoCursor, fLimit = 0\<rparr>"

theorem pages_cover_the_listing_witness:
  "walk 2 (sample_db Created) any_filter = Inr [sample_task Created]"
proof -
  have "all_matching (sample_db Created) any_filter = [sample_task Created]"
    by (simp add: all_matching_def filter_matches_def any_filter_def)
  then show ?thesis
    using pages_cover_the_listing [of "sample_db Created" any_filter]
    by (simp add: any_filter_def numeral_2_eq_2)
qed

text \<open>
  A cleanup candidate is a task in a terminal state with a workspace whose completion time is
  before the cutoff, and an eligible task that is left out because of the limit completed no earlier
  than any of those listed.
\<close>

theorem cleanup_takes_the_oldest:
  assumes "t \<in> set (dbTasks d)" and "IsTerminalState (tState t)" and "tWorkspacePath t \<noteq> None"
    and "tCompletedAt t = Some c" and "c < cutoff"
    and "t \<notin> set (ListWorkspaceCleanupCandidates d cutoff limit)"
    and "u \<in> set (ListWorkspaceCleanupCandidates d cutoff limit)"
  shows "IsTerminalState (tState u) \<and> tWorkspacePath u \<noteq> None \<and>
    (\<exists>e. tCompletedAt u = Some e \<and> e < cutoff \<and> e \<le> c)"
proof -
  let ?P = "\<lambda>t. tState t \<in> {Completed, Failed, Cancelled} \<and> tWorkspacePath t \<noteq> None \<and>
    (case tCompletedAt t of None \<Rightarrow> False | Some c \<Rightarrow> c < cutoff)"
  let ?s = "sort_by cleanup_before (filter ?P (dbTasks d))"
  obtain n where l: "ListWorkspaceCleanupCandidates d cutoff limit = take n ?s"
    by (simp add: ListWorkspaceCleanupCandidates_def Let_def)
  have t: "t \<in> set ?s" using assms(1-5)
    by (cases "tState t") auto
  have "u \<in> set ?s" using assms(7) unfolding l by (rule in_set_takeD)
  then have pu: "?P u" by simp
  have sorted: "sorted_wrt (\<lambda>a b. the (tCompletedAt a) \<le> the (tCompletedAt b)) ?s"
    by (rule sort_by_key_sorted) (auto simp: cleanup_before_def split: option.splits)
  have "t \<in> set (take n ?s @ drop n ?s)" using t by (simp only: append_take_drop_id)
  then have "t \<in> set (drop n ?s)" using assms(6) unfolding set_append l by blast
  moreover have "u \<in> set (take n ?s)" using assms(7) l by simp
  moreover have "sorted_wrt (\<lambda>a b. the (tCompletedAt a) \<le> the (tCompletedAt b)) (take n ?s @ drop n ?s)"
    using sorted by (simp only: append_take_drop_id)
  ultimately have "the (tCompletedAt u) \<le> the (tCompletedAt t)"
    unfolding sorted_wrt_append by blast
  then show ?thesis using pu assms(4) by (auto split: option.splits)
qed

text \<open>The witness has two finished tasks and a limit of one.\<close>

definition done_at :: "string \<Rightarrow> instant \<Rightarrow> task" where
  "done_at i c = (sample_task Completed)\<lparr>tID := i, tCompletedAt := Some c, tWorkspacePath := Some ''/w''\<rparr>"

lemma done_at_id:
  "tID (done_at i c) = i" "tState (done_at i c) = Completed" "tCompletedAt (done_at i c) = Some c"
  "tWorkspacePath (done_at i c) = Some ''/w''"
  by (simp_all add: done_at_def)

theorem cleanup_takes_the_oldest_witness:
  "ListWorkspaceCleanupCandidates (emptyDB\<lparr>dbTasks := [done_at ''b'' 9, done_at ''a'' 5]\<rparr>) 20 1 = [done_at ''a'' 5] \<and>
   (\<exists>e. tCompletedAt (done_at ''a'' 5) = Some e \<and> e < 20 \<and> e \<le> 9)"
proof -
  have l: "ListWorkspaceCleanupCandidates (emptyDB\<lparr>dbTasks := [done_at ''b'' 9, done_at ''a'' 5]\<rparr>) 20 1 = [done_at ''a'' 5]"
    by (simp add: ListWorkspaceCleanupCandidates_def cleanup_before_def done_at_id)
  have "done_at ''b'' 9 \<noteq> done_at ''a'' 5" using done_at_id(3) [of "''b''" 9] done_at_id(3) [of "''a''" 5] by auto
  then show ?thesis
    using cleanup_takes_the_oldest [of "done_at ''b'' 9" "emptyDB\<lparr>dbTasks := [done_at ''b'' 9, done_at ''a'' 5]\<rparr>" 9 20 1 "done_at ''a'' 5"] l
    by (simp add: done_at_id)
qed

end
