(* ===== verification/Task_History.thy ===== *)
theory Task_History
  imports Local_Bridge
begin

text \<open>
  Every operation of the store that writes a task, in one step relation: the operations of the transition table,
  the recovery of interrupted remote tasks, the launch from the user interface, the launch mode, and the claims and
  leases of local bridges. Recovery and the expiry of leases queue a task without a row in the transition log, and
  a launch takes a failed or cancelled task back; the invariant \<open>logged\<close> says what the log is worth after all of them.
\<close>

section \<open>Every write of the store\<close>

text \<open>The tasks that may be launched again in a run are its parameter.\<close>

inductive store_step :: "string set \<Rightarrow> db \<Rightarrow> db \<Rightarrow> bool" for R where
  moves: "lifecycle_step d d' \<Longrightarrow> store_step R d d'"
| recover: "store_step R d (fst (RequeueRecoverableRemoteTasks dbnow cutoff actor d))"
| launch: "QueueTaskForLaunch r now i a q d = Inr (d', u) \<Longrightarrow> i \<in> R \<Longrightarrow> store_step R d d'"
| mode: "UpdateTaskLaunchMode dbnow i m quote d = Inr d' \<Longrightarrow> store_step R d d'"
| claim: "claimTaskTx render parse r1 r2 now dbnow bid d = Inr (d', res) \<Longrightarrow> store_step R d d'"
| lease: "store_step R d (TouchLocalBridgeTaskLease now dbnow i bid ttl s stage tool summary d)"
| release: "store_step R d (FinalizeLocalBridgeTaskLease now dbnow i bid s stage tool summary d)"
| register: "store_step R d (fst (UpsertLocalBridge now p d))"
| heartbeat: "store_step R d (fst (HeartbeatLocalBridge now bid s d))"

inductive store_run :: "string set \<Rightarrow> db \<Rightarrow> db \<Rightarrow> bool" for R where
  start: "store_run R d d"
| step: "store_run R d e \<Longrightarrow> store_step R e f \<Longrightarrow> store_run R d f"

lemma store_run_trans: "store_run R e f \<Longrightarrow> store_run R d e \<Longrightarrow> store_run R d f"
  by (induction rule: store_run.induct) (auto intro: store_run.step)

lemma lifecycle_runs: "lifecycle_reach d e \<Longrightarrow> store_run R d e"
  by (induction rule: lifecycle_reach.induct) (auto intro: store_run.intros store_step.moves)

lemma terminal_states: "IsTerminalState s \<longleftrightarrow> s = Completed \<or> s = Failed \<or> s = Cancelled"
  by (cases s) simp_all

section \<open>A log with holes\<close>

definition may_move :: "task_state \<Rightarrow> task_state \<Rightarrow> bool" where
  "may_move s e \<longleftrightarrow> IsValidTransition s e \<or> (s \<in> {Failed, Cancelled} \<and> e = Queued)"

definition requeued :: "task_state \<Rightarrow> task_state \<Rightarrow> bool" where
  "requeued s e \<longleftrightarrow> s \<in> {Assigned, InProgress, Retrying} \<and> e = Queued"

text \<open>
  The number of unlogged returns to the queue that explain how a log leads from one state to another; no
  number when the log cannot be explained in this way.
\<close>

fun log_holes :: "task_state \<Rightarrow> state_transition list \<Rightarrow> task_state \<Rightarrow> nat option" where
  "log_holes s [] e = (if s = e then Some 0 else if requeued s e then Some 1 else None)"
| "log_holes s (x # xs) e =
     (if \<not> may_move (xFrom x) (xTo x) then None
      else if xFrom x = s then log_holes (xTo x) xs e
      else if requeued s (xFrom x) then map_option Suc (log_holes (xTo x) xs e)
      else None)"

lemma log_holes_move:
  "log_holes s xs e = Some n \<Longrightarrow> xFrom x = e \<Longrightarrow> may_move e (xTo x) \<Longrightarrow> log_holes s (xs @ [x]) (xTo x) = Some n"
  by (induction xs arbitrary: s n) (auto split: if_splits)

lemma log_holes_requeue:
  "log_holes s xs e = Some n \<Longrightarrow> requeued e q \<Longrightarrow> log_holes s xs q = Some (Suc n)"
  by (induction xs arbitrary: s n) (auto simp: requeued_def split: if_splits)

definition completion_stamped :: "task \<Rightarrow> bool" where
  "completion_stamped t \<longleftrightarrow> (IsTerminalState (tState t) \<longrightarrow> tCompletedAt t \<noteq> None)"

definition told :: "db \<Rightarrow> task \<Rightarrow> bool" where
  "told d t \<longleftrightarrow> (\<exists>n. log_holes Created (task_history d (tID t)) (tState t) = Some n \<and> tRetryCount t = int n) \<and> completion_stamped t"

definition logged :: "db \<Rightarrow> bool" where
  "logged d \<longleftrightarrow> keyed tID (dbTasks d) \<and> (\<forall>t \<in> set (dbTasks d). told d t) \<and>
     (\<forall>x \<in> set (dbTransitions d). xTaskID x \<in> tID ` set (dbTasks d))"

lemma loggedD: "logged d \<Longrightarrow> GetTask d i = Some t \<Longrightarrow> told d t \<and> tID t = i \<and> t \<in> set (dbTasks d)"
  using find_row_SomeD [of tID i "dbTasks d" t] by (auto simp: logged_def GetTask_def)

lemma logged_row: "logged d \<Longrightarrow> t \<in> set (dbTasks d) \<Longrightarrow> GetTask d (tID t) = Some t"
  by (simp add: logged_def GetTask_def find_row_keyed)

text \<open>A step that rewrites the rows one by one and leaves the log alone.\<close>

lemma map_rows_logged:
  assumes l: "logged d" and f: "\<And>t. tID (f t) = tID t"
    and told: "\<And>t. t \<in> set (dbTasks d) \<Longrightarrow> told d t \<Longrightarrow> told d (f t)"
    and d': "dbTasks d' = map f (dbTasks d)" "dbTransitions d' = dbTransitions d"
  shows "logged d'"
proof -
  have h: "task_history d' i = task_history d i" for i by (simp add: task_history_def d'(2))
  have "keyed tID (dbTasks d')" using l by (simp add: d'(1) comp_def f logged_def)
  moreover have "told d' (f t)" if "t \<in> set (dbTasks d)" for t
    using told [OF that] l that by (simp add: told_def h logged_def)
  moreover have "tID ` set (dbTasks d') = tID ` set (dbTasks d)" using f by (simp add: d'(1) image_image)
  ultimately show ?thesis using l by (simp add: logged_def d')
qed

definition requeues :: "task \<Rightarrow> task \<Rightarrow> bool" where
  "requeues t u \<longleftrightarrow> running t \<and> tState u = Queued \<and> tID u = tID t \<and> tRetryCount u = tRetryCount t + 1"

lemma requeues_told: "requeues t u \<Longrightarrow> told d t \<Longrightarrow> told d u"
proof -
  assume r: "requeues t u" and "told d t"
  then obtain n where n: "log_holes Created (task_history d (tID t)) (tState t) = Some n" "tRetryCount t = int n" by (auto simp: told_def)
  from r have "log_holes Created (task_history d (tID u)) (tState u) = Some (Suc n)" "tRetryCount u = int (Suc n)"
    using log_holes_requeue [OF n(1), of Queued] n(2) by (auto simp: requeues_def requeued_def running_def)
  with r show ?thesis by (auto simp: told_def completion_stamped_def requeues_def)
qed

lemma plain_told: "plain g \<Longrightarrow> told d t \<Longrightarrow> told d (g t)"
  by (simp add: told_def completion_stamped_def plain_def)

lemma upd_task_logged: "logged d \<Longrightarrow> plain g \<Longrightarrow> logged (upd_task i g d)"
  by (rule map_rows_logged [where f = "\<lambda>t. if tID t = i then g t else t"]) (simp_all add: upd_row_def plain_told)

text \<open>A step that moves one task and writes the row of the log.\<close>

lemma move_logged:
  assumes l: "logged d" and t: "GetTask d i = Some t" and m: "may_move (tState t) s" and g: "plain g"
    and d': "dbTasks d' = upd_row tID i (\<lambda>r. transition_row s now (g r)) (dbTasks d)" "dbTransitions d' = dbTransitions d @ [x]"
    and x: "xTaskID x = i" "xFrom x = tState t" "xTo x = s"
  shows "logged d'"
proof -
  let ?f = "\<lambda>r. transition_row s now (g r)"
  have key: "tID (?f r) = tID r" for r using g by simp
  have tin: "told d t" "tID t = i" "t \<in> set (dbTasks d)" using loggedD [OF l t] by simp_all
  have "told d' r" if "r \<in> set (dbTasks d')" for r
    using set_upd_row [OF that [unfolded d'(1)]]
  proof
    assume "r \<in> set (dbTasks d) \<and> tID r \<noteq> i"
    moreover from this have "task_history d' (tID r) = task_history d (tID r)" using x by (auto simp: task_history_def d'(2))
    ultimately show ?thesis using l by (simp add: logged_def told_def)
  next
    assume "\<exists>q \<in> set (dbTasks d). tID q = i \<and> r = ?f q"
    then obtain q where q: "q \<in> set (dbTasks d)" "tID q = i" "r = ?f q" by blast
    then have r: "r = ?f t" using logged_row [OF l q(1)] t by simp
    obtain n where n: "log_holes Created (task_history d i) (tState t) = Some n" "tRetryCount t = int n"
      using tin by (auto simp: told_def)
    have "log_holes Created (task_history d' i) s = Some n"
      using log_holes_move [OF n(1) x(2)] m x by (simp add: task_history_def d'(2))
    then show ?thesis using n(2) g tin by (auto simp: r told_def completion_stamped_def transition_row_def plain_def terminal_states)
  qed
  moreover have "keyed tID (dbTasks d')"
    using l keyed_upd_row [of tID ?f i "dbTasks d"] key by (simp add: d'(1) logged_def)
  moreover have "tID ` set (dbTasks d') = tID ` set (dbTasks d)"
    unfolding d'(1) by (rule image_key_upd_row) (rule key)
  moreover have "i \<in> tID ` set (dbTasks d)" using tin by blast
  ultimately show ?thesis using l x by (simp add: logged_def d'(2))
qed

lemma moves_task_logged: "moves_task d d' i s s' \<Longrightarrow> logged d \<Longrightarrow> logged d'"
  unfolding moves_task_def by (elim conjE exE) (rule move_logged, auto simp: may_move_def)

lemma transition_logged:
  assumes "logged d" "GetTask d i = Some t" "may_move (tState t) s" "s0 = tState t"
  shows "logged (transitionTaskStateTx r i s0 s a q now d)"
  by (rule move_logged [where g = "\<lambda>r. r" and x = "\<lparr>xID = r, xTaskID = i, xFrom = s0, xTo = s, xActor = a, xReason = q, xTimestamp = now\<rparr>",
      OF assms(1,2,3)]) (simp_all add: plain_def assms(4) transitionTaskStateTx_def)

section \<open>The operations keep the log\<close>

lemma CreateTask_logged:
  assumes c: "CreateTask i cid rid now p d = Inr (d', t)" and l: "logged d"
  shows "logged d'"
proof -
  have new: "i \<notin> tID ` set (dbTasks d)" using c by (auto simp: CreateTask_def find_row_None_iff split: if_splits)
  let ?t = "create_row i cid now p" and ?d1 = "d\<lparr>dbTasks := dbTasks d @ [create_row i cid now p]\<rparr>"
  have "task_history d i = []" using l new by (auto simp: logged_def task_history_def filter_empty_conv)
  then have "told ?d1 ?t" by (simp add: told_def task_history_def completion_stamped_def create_row_def)
  moreover have "told ?d1 u" if "u \<in> set (dbTasks d)" for u using l that by (simp add: logged_def told_def task_history_def)
  ultimately have l1: "logged ?d1" using l new by (auto simp: logged_def)
  have g: "GetTask ?d1 i = Some ?t" using new by (simp add: GetTask_def find_row_append find_row_None_iff [THEN iffD2])
  have "d' = ?d1 \<or> d' = transitionTaskStateTx rid i Created Queued (pEntrypoint p @ '':create'')
        (''Queued for '' @ pAssignedAgent p @ '' via '' @ pExecutionTarget p) now ?d1"
    using c by (auto simp: CreateTask_def Let_def split: if_splits)
  then show ?thesis
    using l1 transition_logged [OF l1 g] by (auto simp: may_move_def IsValidTransition_def)
qed

lemma op_logged: "\<exists>i s s'. moves_task d d' i s s' \<Longrightarrow> logged d \<Longrightarrow> logged d'"
  using moves_task_logged by blast

lemma lifecycle_step_logged: "lifecycle_step d d' \<Longrightarrow> logged d \<Longrightarrow> logged d'"
proof (induction rule: lifecycle_step.induct)
  case (create i cid rid now p d d' t)
  then show ?case by (rule CreateTask_logged)
next
  case (update r now i s a q d d')
  then show ?case using op_logged upd_op.moves by blast
next
  case (finalize r now i s a q res err d d' t)
  then show ?case using op_logged fin_op.moves by blast
next
  case (request aid r now i act tgt tmo actor q patch d d' ap)
  then show ?case using op_logged req_op.moves by blast
next
  case (resolve r now aid app op d d' ap t)
  then show ?case using op_logged res_op.moves by blast
qed (auto simp: plain_update_defs plain_def intro!: upd_task_logged)

lemma expire_logged: "logged d \<Longrightarrow> logged (expire_leases render parse dbnow root bid d)"
  by (rule map_rows_logged [where f = "\<lambda>t. if foreign_task render root bid t \<and> expired_lease render parse dbnow t
      then expire_row dbnow t else t"])
    (auto simp: expire_leases_def foreign_task_def requeues_def expire_row_def intro: requeues_told)

lemma requeue_logged: "logged d \<Longrightarrow> logged (fst (RequeueRecoverableRemoteTasks dbnow cutoff actor d))"
  by (rule map_rows_logged [where f = "\<lambda>t. if recoverable cutoff t then requeue_row dbnow actor t else t"])
    (auto simp: RequeueRecoverableRemoteTasks_def recoverable_def requeues_def requeue_row_def running_def intro: requeues_told)

lemma start_task_logged:
  assumes "logged d" "GetTask d (tID t) = Some t" "tState t = Queued"
  shows "logged (start_task r1 r2 now b t d)"
proof -
  let ?d1 = "transitionTaskStateTx r1 (tID t) Queued Assigned (''bridge:'' @ b) ''Dequeued for local bridge'' now d"
  have l: "logged ?d1" by (rule transition_logged [OF assms(1,2)]) (simp_all add: assms(3) may_move_def IsValidTransition_def)
  have "GetTask ?d1 (tID t) = Some (transition_row Assigned now t)" using assms(2) by (simp add: GetTask_def transition_row_def)
  then show ?thesis unfolding start_task_def
    by (rule transition_logged [OF l]) (simp_all add: transition_row_def may_move_def IsValidTransition_def)
qed

lemma resume_task_logged:
  assumes "logged d" "GetTask d (tID t) = Some t"
  shows "logged (resume_task r now b t d)"
  using assms(1) transition_logged [OF assms, of InProgress]
  by (auto simp: resume_task_def may_move_def IsValidTransition_def split: task_state.split)

lemma claim_logged: "claimTaskTx render parse r1 r2 now dbnow bid d = Inr (d', res) \<Longrightarrow> logged d \<Longrightarrow> logged d'"
proof (induction rule: claimTaskTx_cases)
  case (resumed b t ts)
  then show ?case using own_tasks_head [OF resumed(2)] resume_task_logged logged_row by blast
next
  case (claimed b t ts)
  then show ?case using claimable_head [OF claimed(2)] start_task_logged logged_row expire_logged by blast
qed (auto intro: expire_logged)

lemma patch_logged: "logged d \<Longrightarrow> logged (PatchTaskMetadata now i kvs d)"
  using lifecycle_step_logged [OF lifecycle_step.patch] .

lemma same_tasks_logged: "dbTasks d' = dbTasks d \<Longrightarrow> dbTransitions d' = dbTransitions d \<Longrightarrow> logged d \<Longrightarrow> logged d'"
  by (simp add: logged_def told_def task_history_def)

lemma store_step_logged: "store_step R d d' \<Longrightarrow> logged d \<Longrightarrow> logged d'"
proof (induction rule: store_step.induct)
  case (launch r now i a q d d' u)
  then obtain t where t: "GetTask d i = Some t" "tState t \<in> {Created, Failed, Cancelled}"
      "d' = transitionTaskStateTx r i (tState t) Queued a q now d"
    by (auto simp: QueueTaskForLaunch_def Let_def split: option.splits if_splits)
  show ?case unfolding t(3)
    by (rule transition_logged [OF launch(3) t(1)]) (use t(2) in \<open>auto simp: may_move_def IsValidTransition_def\<close>)
next
  case (mode dbnow i m quote d d')
  then show ?case by (auto simp: UpdateTaskLaunchMode_def plain_def intro!: upd_task_logged split: if_splits)
next
  case (register now p d)
  then show ?case by (rule same_tasks_logged [rotated -1]) (simp_all add: UpsertLocalBridge_def Let_def split: option.split)
next
  case (heartbeat now bid s d)
  then show ?case by (rule same_tasks_logged [rotated -1]) (simp_all add: HeartbeatLocalBridge_def Let_def)
qed (auto simp: TouchLocalBridgeTaskLease_def FinalizeLocalBridgeTaskLease_def Let_def
    intro: lifecycle_step_logged requeue_logged claim_logged patch_logged)

lemma store_run_logged: "store_run R d e \<Longrightarrow> logged d \<Longrightarrow> logged e"
  by (induction rule: store_run.induct) (auto dest: store_step_logged)

lemma emptyDB_logged: "logged emptyDB"
  by (simp add: logged_def emptyDB_def)

section \<open>Tasks that have ended\<close>

lemma map_rows_ended:
  assumes "GetTask d i = Some t" "\<And>u. tID (f u) = tID u" "f t = t" "dbTasks d' = map f (dbTasks d)"
  shows "GetTask d' i = Some t"
  using assms find_row_map_keys [of tID f i "dbTasks d"] by (simp add: GetTask_def)

lemma claim_ended:
  assumes "claimTaskTx render parse r1 r2 now dbnow bid d = Inr (d', res)" "logged d" "GetTask d i = Some t" "IsTerminalState (tState t)"
  shows "GetTask d' i = Some t"
  using assms(1)
proof (cases rule: claimTaskTx_cases)
  case (resumed b u us)
  then have "tID u \<noteq> i" using own_tasks_head [OF resumed(2)] logged_row [OF assms(2)] assms(3,4)
    by (auto simp: running_def terminal_states)
  with resumed assms(3) show ?thesis by (simp add: GetTask_resume_other)
next
  case (claimed b u us)
  let ?e = "expire_leases render parse dbnow (bWorkspaceRoot b) bid d"
  have e: "GetTask ?e i = Some t" using assms(3,4) by (auto simp: GetTask_expire foreign_task_def running_def terminal_states)
  have "GetTask ?e (tID u) = Some u" "tState u = Queued"
    using claimable_head [OF claimed(2)] logged_row [OF expire_logged [OF assms(2)]] by blast+
  with e assms(4) have "tID u \<noteq> i" by (auto simp: terminal_states)
  with claimed e show ?thesis by (simp add: GetTask_start_other)
qed (use assms(3,4) in \<open>auto simp: GetTask_expire foreign_task_def running_def terminal_states\<close>)

lemma store_step_ended:
  assumes "store_step R d d'" "logged d" "GetTask d i = Some t" "IsTerminalState (tState t)" "tState t = Completed \<or> i \<notin> R"
  shows "\<exists>u. GetTask d' i = Some u \<and> same_outcome t u"
  using assms
proof (induction rule: store_step.induct)
  case (moves d d')
  then show ?case using lifecycle_step_terminal by blast
next
  case (recover d dbnow cutoff actor)
  then have "GetTask (fst (RequeueRecoverableRemoteTasks dbnow cutoff actor d)) i = Some t"
    by (auto simp: GetTask_requeue recoverable_def terminal_states)
  then show ?case by (simp add: same_outcome_def)
next
  case (launch r now j a q d d' u)
  then have "j \<noteq> i" by (auto simp: QueueTaskForLaunch_def split: option.splits if_splits)
  then have "GetTask d' i = Some t" using launch
    by (auto simp: QueueTaskForLaunch_def Let_def GetTask_transition_other split: option.splits if_splits)
  then show ?case by (simp add: same_outcome_def)
next
  case (mode dbnow j m quote d d')
  then show ?case
    by (auto simp: UpdateTaskLaunchMode_def plain_def same_outcome_def intro!: upd_task_outcome [unfolded same_outcome_def] split: if_splits)
next
  case (claim render parse r1 r2 now dbnow bid d d' res)
  then show ?case using claim_ended by (fastforce simp: same_outcome_def)
next
  case (lease d now dbnow j bid ttl s stage tool summary)
  then show ?case using lifecycle_step_terminal [OF lifecycle_step.patch]
    by (auto simp: TouchLocalBridgeTaskLease_def Let_def same_outcome_def)
next
  case (release d now dbnow j bid s stage tool summary)
  then show ?case using lifecycle_step_terminal [OF lifecycle_step.patch]
    by (auto simp: FinalizeLocalBridgeTaskLease_def Let_def same_outcome_def)
next
  case (register d now p)
  then show ?case by (simp add: UpsertLocalBridge_def Let_def GetTask_def same_outcome_def split: option.split)
next
  case (heartbeat d now bid s)
  then show ?case by (simp add: HeartbeatLocalBridge_def Let_def GetTask_def same_outcome_def)
qed

lemma store_run_ended:
  assumes "store_run R d e" "logged d" "GetTask d i = Some t" "IsTerminalState (tState t)" "tState t = Completed \<or> i \<notin> R"
  shows "\<exists>u. GetTask e i = Some u \<and> same_outcome t u"
  using assms
proof (induction rule: store_run.induct)
  case (start d)
  then show ?case by (simp add: same_outcome_def)
next
  case (step d e f)
  then obtain u where u: "GetTask e i = Some u" "same_outcome t u" by blast
  with step.prems have "IsTerminalState (tState u)" "tState u = Completed \<or> i \<notin> R" by (simp_all add: same_outcome_def)
  from store_step_ended [OF step.hyps(2) store_run_logged [OF step.hyps(1) step.prems(1)] u(1) this] u(2) show ?case
    by (auto simp: same_outcome_def)
qed

section \<open>Properties\<close>

text \<open>
  C1: in every database that the operations of the store can reach from the empty one, in any order, the
  transition log of each task explains its state up to the returns to the queue that recovery and expired leases
  leave out: the log is a chain of moves of the transition table and of launches, starting at \<open>created\<close>, interrupted
  only where a running task was queued again without a row, and the number of these holes is the retry count
  of the task. A task in a terminal state carries a completion time.
\<close>

theorem log_explains_the_state:
  assumes "store_run UNIV emptyDB d" and "GetTask d i = Some t"
  shows "(\<exists>n. log_holes Created (task_history d i) (tState t) = Some n \<and> tRetryCount t = int n) \<and>
    (IsTerminalState (tState t) \<longrightarrow> tCompletedAt t \<noteq> None)"
proof -
  have "logged d" using store_run_logged [OF assms(1) emptyDB_logged] .
  from loggedD [OF this assms(2)] show ?thesis by (auto simp: told_def completion_stamped_def)
qed

text \<open>The witness is a task that is created, queued, assigned and then recovered.\<close>

definition moved :: "task_state \<Rightarrow> task_state \<Rightarrow> db \<Rightarrow> db" where
  "moved s e = transitionTaskStateTx ''r1'' ''t1'' s e ''worker'' ''claim'' 7"

definition recovered_db :: db where
  "recovered_db = fst (RequeueRecoverableRemoteTasks 200 100 ''orchestrator'' (moved Queued Assigned (moved Created Queued (sample_db Created))))"

lemma moved_step:
  assumes "GetTask d ''t1'' = Some t" "IsValidTransition (tState t) e" "store_run R c d"
  shows "store_run R c (moved (tState t) e d)"
proof -
  have "UpdateTaskState ''r1'' 7 ''t1'' e ''worker'' ''claim'' d = Inr (moved (tState t) e d)"
    unfolding UpdateTaskState_def assms(1) moved_def using assms(2) by simp
  then show ?thesis by (rule store_run.step [OF assms(3) store_step.moves [OF lifecycle_step.update]])
qed

lemma recovered_run: "store_run R emptyDB recovered_db"
proof -
  let ?d1 = "moved Created Queued (sample_db Created)"
  have "store_run R emptyDB (sample_db Created)" by (rule lifecycle_runs [OF sample_db_reached])
  with moved_step [of "sample_db Created" "sample_task Created" Queued] have r1: "store_run R emptyDB ?d1"
    by (simp add: IsValidTransition_def)
  have "GetTask ?d1 ''t1'' = Some (transition_row Queued 7 (sample_task Created))" by (simp add: moved_def GetTask_def)
  from moved_step [OF this _ r1, of Assigned] have "store_run R emptyDB (moved Queued Assigned ?d1)"
    by (simp add: transition_row_def IsValidTransition_def)
  then show ?thesis unfolding recovered_db_def by (rule store_run.step) (rule store_step.recover)
qed

theorem log_explains_the_state_witness:
  "\<exists>t n. GetTask recovered_db ''t1'' = Some t \<and> tState t = Queued \<and> tRetryCount t = 1 \<and>
    log_holes Created (task_history recovered_db ''t1'') Queued = Some n \<and> int n = 1"
proof -
  let ?t = "requeue_row 200 ''orchestrator'' (transition_row Assigned 7 (transition_row Queued 7 (sample_task Created)))"
  have t: "GetTask recovered_db ''t1'' = Some ?t"
    unfolding recovered_db_def GetTask_requeue by (simp add: moved_def GetTask_def transition_row_def recoverable_def target_defs)
  have s: "tState ?t = Queued" "tRetryCount ?t = 1"
    by (simp_all add: requeue_row_def transition_row_def sample_task_def create_row_def)
  show ?thesis using log_explains_the_state [OF recovered_run t] t s by auto
qed

text \<open>
  C2: an outcome is final unless the task is launched again. Whatever the store does from a database it can reach, a
  completed task keeps its state and its completion time for good, and so does a failed or cancelled task that is not
  among those that are launched again.
\<close>

theorem outcomes_are_final_without_a_launch:
  assumes "store_run UNIV emptyDB d" and "store_run R d e" and "GetTask d i = Some t"
    and "tState t = Completed \<or> (tState t \<in> {Failed, Cancelled} \<and> i \<notin> R)"
  shows "\<exists>u. GetTask e i = Some u \<and> tState u = tState t \<and> tCompletedAt u = tCompletedAt t"
  using store_run_ended [OF assms(2) store_run_logged [OF assms(1) emptyDB_logged] assms(3)] assms(4)
  by (auto simp: same_outcome_def terminal_states)

text \<open>The witness cancels a task and recovers the interrupted ones afterwards.\<close>

theorem outcomes_are_final_without_a_launch_witness:
  "\<exists>u. GetTask (fst (RequeueRecoverableRemoteTasks 200 100 ''orchestrator'' (moved Created Cancelled (sample_db Created)))) ''t1'' = Some u \<and>
    tState u = Cancelled"
proof -
  let ?d = "moved Created Cancelled (sample_db Created)"
  have "store_run UNIV emptyDB (sample_db Created)" by (rule lifecycle_runs [OF sample_db_reached])
  with moved_step [of "sample_db Created" "sample_task Created" Cancelled] have r: "store_run UNIV emptyDB ?d"
    by (simp add: IsValidTransition_def)
  have t: "GetTask ?d ''t1'' = Some (transition_row Cancelled 7 (sample_task Created))" by (simp add: moved_def GetTask_def)
  have s: "tState (transition_row Cancelled 7 (sample_task Created)) = Cancelled" by (simp add: transition_row_def)
  have "store_run {} ?d (fst (RequeueRecoverableRemoteTasks 200 100 ''orchestrator'' ?d))"
    by (rule store_run.step [OF store_run.start store_step.recover])
  from outcomes_are_final_without_a_launch [OF r this t] s show ?thesis by auto
qed

end
