(* ===== verification/Runtime_Worker.thy ===== *)
theory Runtime_Worker
  imports Initiative_Flow Task_History
begin

text \<open>
  The embedded worker (\<^verbatim>\<open>src/internal/orchestratorgo/worker/worker.go\<close>): it pops a task from the
  Redis queue of an agent, moves it to \<open>in_progress\<close>, runs it and records the outcome; the success of
  a planner task creates, queues or parks its subtasks. The task runner is a parameter: it may
  return any result. A failed Redis call is the environment's \<open>eRedisUp = False\<close>; a PostgreSQL call
  fails only where the transaction refuses the change, and then the state keeps everything written
  before.

  The contract of a claim and of an execution is the locale \<open>lifecycle_client\<close>: the task database moves
  only by steps of the life cycle. The recovery at startup is a step outside of it; together they refine the
  operations of the store without a launch.
\<close>

section \<open>State\<close>

record worker =
  kFlow :: flow
  kCurrent :: "string option"

record run_result =
  runStatus :: string
  runSummary :: string
  runResults :: any_map
  runError :: string
  runApproval :: "(string \<times> string \<times> int) option"

abbreviation flow_db :: "flow \<Rightarrow> db" where
  "flow_db w \<equiv> iDB (wS w)"

definition set_db :: "db \<Rightarrow> nat \<Rightarrow> flow \<Rightarrow> flow" where
  "set_db d k w = w\<lparr>wS := (wS w)\<lparr>iDB := d\<rparr>, wN := wN w + k\<rparr>"

text \<open>A store call draws identifiers and a clock reading; on an error the database is unchanged.\<close>

definition call_db :: "flow_env \<Rightarrow> (string \<Rightarrow> instant \<Rightarrow> db \<Rightarrow> db result) \<Rightarrow> flow \<Rightarrow> flow \<times> string option" where
  "call_db env f w =
     (case f (eUid env (wN w)) (eClk env (wN w)) (flow_db w) of
        Inl e \<Rightarrow> (set_db (flow_db w) 2 w, Some e)
      | Inr d \<Rightarrow> (set_db d 2 w, None))"

definition drop_snd :: "(db \<times> 'a) result \<Rightarrow> db result" where
  "drop_snd r = (case r of Inl e \<Rightarrow> Inl e | Inr (d, _) \<Rightarrow> Inr d)"

definition worker_name :: "string \<Rightarrow> string" where
  "worker_name workerID = ''worker:'' @ workerID"

section \<open>Claiming\<close>

definition recordRecoveryCheckpoint ::
  "flow_env \<Rightarrow> string \<Rightarrow> string \<Rightarrow> (string \<times> any_val) list \<Rightarrow> flow \<Rightarrow> flow" where
  "recordRecoveryCheckpoint env taskID stage extra w =
     (let now = eClk env (wN w)
      in set_db (PatchTaskMetadata now taskID
           [(''recovery_checkpoint'',
             AMap (([''stage'' \<mapsto> AStr (TrimSpace stage), ''updated_at'' \<mapsto> rfc3339 now]) ++ map_of extra))]
           (flow_db w)) 1 w)"

definition set_queue :: "redis \<Rightarrow> flow \<Rightarrow> flow" where
  "set_queue r w = w\<lparr>wQ := r\<rparr>"

definition announce :: "flow_env \<Rightarrow> string \<Rightarrow> int \<Rightarrow> (instant \<Rightarrow> string) \<Rightarrow> string option \<Rightarrow> flow \<Rightarrow> flow" where
  "announce env workerID interval rfc task w =
     (if eRedisUp env
      then set_queue (EmitWorkerHeartbeat rfc (eClk env (wN w)) workerID interval task
                        (UpdateWorkerCurrentTask workerID task (wQ w))) w
      else w)"

record worker_cfg =
  cWorkerID :: string
  cInterval :: int
  cRfc :: "instant \<Rightarrow> string"

definition start_claimed :: "flow_env \<Rightarrow> worker_cfg \<Rightarrow> string \<Rightarrow> task \<Rightarrow> worker \<Rightarrow> worker" where
  "start_claimed env c agent t k =
     (let w1 = recordRecoveryCheckpoint env (tID t) ''claimed''
            [(''worker_id'', AStr (cWorkerID c)), (''assigned_agent'', AStr agent),
             (''execution_target'', AStr (tExecutionTarget t))] (kFlow k)
      in k\<lparr>kFlow := announce env (cWorkerID c) (cInterval c) (cRfc c) (Some (tID t)) w1, kCurrent := Some (tID t)\<rparr>)"

definition tryClaimTask :: "flow_env \<Rightarrow> worker_cfg \<Rightarrow> string \<Rightarrow> worker \<Rightarrow> worker" where
  "tryClaimTask env c agent k =
     (if \<not> eRedisUp env then k
      else
        (case DequeueTask agent (wQ (kFlow k)) of
           (_, None) \<Rightarrow> k
         | (r, Some taskID) \<Rightarrow>
             (let w0 = set_queue r (kFlow k); k0 = k\<lparr>kFlow := w0\<rparr>
              in case GetTask (flow_db w0) taskID of
                   None \<Rightarrow> k0
                 | Some t \<Rightarrow>
                     if tState t \<noteq> Queued then k0
                     else if tExecutionTarget t = ExecutionTargetLocal then k0
                     else
                       (case call_db env (\<lambda>u now. UpdateTaskState u now taskID Assigned (worker_name (cWorkerID c))
                               (''Dequeued for '' @ agent)) w0 of
                          (w1, Some _) \<Rightarrow> k0\<lparr>kFlow := w1\<rparr>
                        | (w1, None) \<Rightarrow>
                            (case call_db env (\<lambda>u now. UpdateTaskState u now taskID InProgress (worker_name (cWorkerID c))
                                    ''Execution started in Go worker'') w1 of
                               (w2, Some _) \<Rightarrow> k0\<lparr>kFlow := w2\<rparr>
                             | (w2, None) \<Rightarrow> start_claimed env c agent t (k0\<lparr>kFlow := w2\<rparr>))))))"

section \<open>Planner subtasks\<close>

record subtask =
  sbTitle :: string
  sbDescription :: string
  sbAgent :: string
  sbPriority :: string
  sbTarget :: string
  sbApproval :: bool
  sbTool :: "any_map option"
  sbMetadata :: "any_map option"

definition asBoolAny :: "any_val option \<Rightarrow> bool" where
  "asBoolAny v =
     (case v of
        Some (ABool b) \<Rightarrow> b
      | Some (AStr s) \<Rightarrow> map fold_char (TrimSpace s) \<in> {''1'', ''true'', ''yes'', ''on''}
      | _ \<Rightarrow> False)"

definition parse_subtask :: "any_map \<Rightarrow> subtask" where
  "parse_subtask e =
     \<lparr>sbTitle = TrimSpace (asString (e ''title'')), sbDescription = TrimSpace (asString (e ''description'')),
      sbAgent = TrimSpace (asString (e ''assigned_agent'')), sbPriority = TrimSpace (asString (e ''priority'')),
      sbTarget = TrimSpace (asString (e ''execution_target'')),
      sbApproval = asBoolAny (e ''requires_approval''),
      sbTool = (case e ''tool_request'' of Some (AMap m) \<Rightarrow> Some m | _ \<Rightarrow> None),
      sbMetadata = (case e ''metadata'' of Some (AMap m) \<Rightarrow> Some m | _ \<Rightarrow> None)\<rparr>"

definition parsePlannerSubtasks :: "any_val option \<Rightarrow> subtask list" where
  "parsePlannerSubtasks raw = map parse_subtask (normalizedMapSlice raw)"

definition firstNonEmptyMetadata :: "any_map \<Rightarrow> string \<Rightarrow> string" where
  "firstNonEmptyMetadata m key =
     (case m key of Some (AStr v) \<Rightarrow> if TrimSpace v \<noteq> [] then TrimSpace v else [] | _ \<Rightarrow> [])"

definition AllowedCapabilities :: "flow_env \<Rightarrow> task \<Rightarrow> string list" where
  "AllowedCapabilities env t =
     (case tMetadata t ''allowed_capabilities'' of
        Some (AStrs xs) \<Rightarrow> xs
      | Some (AArr xs) \<Rightarrow> map (\<lambda>x. case x of AStr s \<Rightarrow> s | _ \<Rightarrow> eSprint env x) xs
      | _ \<Rightarrow> [])"

definition root_of :: "task \<Rightarrow> string" where
  "root_of t = (case tRootTaskID t of None \<Rightarrow> tID t | Some r \<Rightarrow> if TrimSpace r \<noteq> [] then TrimSpace r else tID t)"

definition childWorkspacePath :: "flow_env \<Rightarrow> task \<Rightarrow> string \<Rightarrow> string option" where
  "childWorkspacePath env t rootID =
     (if tExecutionTarget t = ExecutionTargetRemote then
        (if TrimSpace (derefString (tWorkspacePath t)) \<noteq> []
         then Some (path_clean (TrimSpace (derefString (tWorkspacePath t))))
         else if TrimSpace (eRoot env) = [] then None
         else Some (path_clean (path_join (TrimSpace (eRoot env)) rootID)))
      else None)"

definition child_title :: "flow_env \<Rightarrow> nat \<Rightarrow> subtask \<Rightarrow> string" where
  "child_title env idx sb =
     (if TrimSpace (sbTitle sb) = [] then ''Step '' @ eItoa env (int idx + 1) else TrimSpace (sbTitle sb))"

definition child_agent :: "subtask \<Rightarrow> string" where
  "child_agent sb =
     (if sbAgent sb \<notin> {AgentTypePlanner, AgentTypeCoder, AgentTypeResearcher, AgentTypeReviewer}
      then AgentTypeCoder else sbAgent sb)"

definition child_priority :: "subtask \<Rightarrow> string" where
  "child_priority sb = (if sbPriority sb = [] then PriorityNormal else sbPriority sb)"

definition child_target :: "task \<Rightarrow> subtask \<Rightarrow> string" where
  "child_target t sb = (if sbTarget sb \<noteq> [] then sbTarget sb else tExecutionTarget t)"

definition child_metadata :: "flow_env \<Rightarrow> task \<Rightarrow> nat \<Rightarrow> subtask \<Rightarrow> any_map" where
  "child_metadata env t idx sb =
     (let allowed = AllowedCapabilities env t;
          m0 = [''title'' \<mapsto> AStr (child_title env idx sb), ''requires_approval'' \<mapsto> ABool (sbApproval sb),
                ''planner_generated'' \<mapsto> ABool True, ''parent_task_id'' \<mapsto> AStr (tID t),
                ''entrypoint'' \<mapsto> AStr (firstNonEmptyMetadata (tMetadata t) ''entrypoint''),
                ''workspace_root'' \<mapsto> AStr (firstNonEmptyMetadata (tMetadata t) ''workspace_root''),
                ''allowed_capabilities'' \<mapsto> (if allowed = [] then ANil else AStrs allowed)];
          m1 = (case sbMetadata sb of None \<Rightarrow> m0 | Some m \<Rightarrow> m0 ++ m)
      in case sbTool sb of None \<Rightarrow> m1 | Some tr \<Rightarrow> m1(''tool_request'' \<mapsto> AMap tr))"

definition child_params :: "flow_env \<Rightarrow> task \<Rightarrow> nat \<Rightarrow> subtask \<Rightarrow> create_params" where
  "child_params env t idx sb =
     (let title = child_title env idx sb; rootID = root_of t; target = child_target t sb
      in \<lparr>pDescription = (if TrimSpace (sbDescription sb) = [] then title else TrimSpace (sbDescription sb)),
          pMetadata = Some (child_metadata env t idx sb),
          pAllowedCapabilities = AllowedCapabilities env t,
          pPriority = child_priority sb, pAssignedAgent = child_agent sb, pPlannedAgent = None,
          pExecutionTarget = target, pIdempotencyKey = None,
          pEntrypoint = firstNonEmptyMetadata (tMetadata t) ''entrypoint'',
          pWorkspacePath = (if target = ExecutionTargetRemote then childWorkspacePath env t rootID else None),
          pParentTaskID = Some (tID t), pRootTaskID = Some rootID, pInitiativeID = None,
          pTaskKind = ''plan_step'', pQueueOnCreate = False\<rparr>)"

definition queue_remote_child :: "flow_env \<Rightarrow> string \<Rightarrow> string \<Rightarrow> string \<Rightarrow> string \<Rightarrow> flow \<Rightarrow> flow \<times> string option" where
  "queue_remote_child env actor childID agent priority w =
     (if \<not> eRedisUp env
      then (fst (call_db env (\<lambda>u now d. drop_snd (FailTask u now childID actor ''queue enqueue failed''
                  ''redis unavailable'' (Some (AMap [''status'' \<mapsto> AStr ''error''])) d)) w),
            Some ''redis unavailable'')
      else
        call_db env (\<lambda>u now. UpdateTaskState u now childID Queued actor ''Queued planner-generated subtask'')
          (set_queue (EnqueueTask (eFl env) (eNano env (eClk env (wN w))) childID agent priority (wQ w)) w))"

definition dispatch_child :: "flow_env \<Rightarrow> string \<Rightarrow> task \<Rightarrow> nat \<Rightarrow> subtask \<Rightarrow> string \<Rightarrow> flow \<Rightarrow> flow \<times> string option" where
  "dispatch_child env actor t idx sb childID w =
     (if child_agent sb = AgentTypePlanner then
        call_db env (\<lambda>u now d. drop_snd (CompleteTask u now childID actor
            ''planner coordination step recorded without direct execution''
            (Some (AMap [''status'' \<mapsto> AStr ''success'',
               ''summary'' \<mapsto> AStr ''Planner coordination step recorded without direct execution'',
               ''coordination_only'' \<mapsto> ABool True])) d)) w
      else if sbApproval sb then
        call_db env (\<lambda>u now d. drop_snd (RequestApproval (eUid env (wN w + 1)) u now childID ''planner_subtask''
            (child_title env idx sb) 300 actor ''planner generated approval-gated subtask''
            [''approval_requested'' \<mapsto> ABool True] d)) w
      else if child_target t sb = ExecutionTargetLocal then
        call_db env (\<lambda>u now. UpdateTaskState u now childID Queued actor ''Queued planner-generated local subtask'') w
      else queue_remote_child env actor childID (child_agent sb) (child_priority sb) w)"

definition spawn_child :: "flow_env \<Rightarrow> string \<Rightarrow> task \<Rightarrow> nat \<Rightarrow> subtask \<Rightarrow> flow \<Rightarrow> flow \<times> (string \<times> string option)" where
  "spawn_child env actor t idx sb w =
     (let childID = eUid env (wN w)
      in case CreateTask childID (eUid env (wN w + 1)) (eUid env (wN w + 2)) (eClk env (wN w))
                (child_params env t idx sb) (flow_db w) of
           Inl e \<Rightarrow> (set_db (flow_db w) 3 w, childID, Some e)
         | Inr (d, _) \<Rightarrow>
             (case dispatch_child env actor t idx sb childID (set_db d 3 w) of (w', e) \<Rightarrow> (w', childID, e)))"

fun spawn_children ::
  "flow_env \<Rightarrow> string \<Rightarrow> task \<Rightarrow> nat \<Rightarrow> subtask list \<Rightarrow> flow \<Rightarrow> flow \<times> (string list \<times> string option)" where
  "spawn_children env actor t idx [] w = (w, [], None)"
| "spawn_children env actor t idx (sb # sbs) w =
     (case spawn_child env actor t idx sb w of
        (w1, i, Some e) \<Rightarrow> (w1, [i], Some e)
      | (w1, i, None) \<Rightarrow>
          (case spawn_children env actor t (Suc idx) sbs w1 of (w2, is, e) \<Rightarrow> (w2, i # is, e)))"

section \<open>Outcome of a run\<close>

definition reconcile_initiative :: "flow_env \<Rightarrow> task \<Rightarrow> flow \<Rightarrow> flow" where
  "reconcile_initiative env t w =
     (if TrimSpace (derefString (tInitiativeID t)) \<noteq> []
      then w\<lparr>wS := fst (ReconcileInitiativeExecution (eClk env (wN w)) (TrimSpace (derefString (tInitiativeID t))) (wS w)),
             wN := wN w + 1\<rparr>
      else w)"

definition reconcile_root :: "flow_env \<Rightarrow> string \<Rightarrow> string \<Rightarrow> flow \<Rightarrow> flow" where
  "reconcile_root env actor rootID w =
     (let tasks = ListByRoot (flow_db w) rootID;
          children = filter (\<lambda>t. tID t \<noteq> rootID) tasks
      in case find_row tID rootID (rev tasks) of
           None \<Rightarrow> w
         | Some rootTask \<Rightarrow>
             if children = [] then w
             else if list_ex (\<lambda>t. tState t \<in> {Failed, Cancelled}) children then
               (if IsTerminalState (tState rootTask) then w
                else fst (call_db env (\<lambda>u now d. drop_snd (FailTask u now rootID actor ''One or more subtasks failed''
                            ''One or more subtasks failed'' (tResults rootTask) d)) w))
             else if list_all (\<lambda>t. tState t = Completed) children \<and> tState rootTask \<noteq> Completed then
               fst (call_db env (\<lambda>u now d. drop_snd (CompleteTask u now rootID actor ''All subtasks completed''
                      (tResults rootTask) d)) w)
             else w)"

definition reconcileRootTask :: "flow_env \<Rightarrow> string \<Rightarrow> string \<Rightarrow> flow \<Rightarrow> flow" where
  "reconcileRootTask env actor taskID w =
     (case GetTask (flow_db w) taskID of
        None \<Rightarrow> w
      | Some t \<Rightarrow>
          (let w1 = reconcile_initiative env t w
           in if root_of t = tID t \<and> tParentTaskID t = None then w1
              else reconcile_root env actor (root_of t) w1))"

definition handlePlannerSuccess :: "flow_env \<Rightarrow> string \<Rightarrow> task \<Rightarrow> run_result \<Rightarrow> flow \<Rightarrow> flow \<times> string option" where
  "handlePlannerSuccess env actor t res w =
     (let w1 = set_db (UpdateTaskResults (eClk env (wN w)) (tID t) (AMap (runResults res)) (flow_db w)) 1 w;
          subtasks = parsePlannerSubtasks (runResults res ''subtasks'');
          planOnly = asBoolAny (runResults res ''plan_only'')
      in if planOnly \<or> subtasks = [] then
           call_db env (\<lambda>u now d. drop_snd (CompleteTask u now (tID t) actor
               ''planner completed without execution subtasks'' (Some (AMap (runResults res))) d)) w1
         else
           (case spawn_children env actor t 0 subtasks w1 of
              (w2, _, Some e) \<Rightarrow> (w2, Some e)
            | (w2, ids, None) \<Rightarrow>
                (let merged = (runResults res)(''created_subtask_ids'' \<mapsto> AStrs ids);
                     w3 = set_db (UpdateTaskResults (eClk env (wN w2)) (tID t) (AMap merged) (flow_db w2)) 1 w2
                 in (reconcileRootTask env actor (tID t) w3, None))))"

definition finish_success :: "flow_env \<Rightarrow> string \<Rightarrow> task \<Rightarrow> run_result \<Rightarrow> flow \<Rightarrow> flow" where
  "finish_success env actor t res w =
     (if tAssignedAgent t = Some AgentTypePlanner then
        (case handlePlannerSuccess env actor t res w of
           (w1, None) \<Rightarrow> w1
         | (w1, Some e) \<Rightarrow>
             fst (call_db env (\<lambda>u now d. drop_snd (FailTask u now (tID t) actor e e
                    (Some (AMap [''status'' \<mapsto> AStr ''error''])) d)) w1))
      else
        reconcileRootTask env actor (tID t)
          (fst (call_db env (\<lambda>u now d. drop_snd (CompleteTask u now (tID t) actor (runSummary res)
                  (Some (AMap (runResults res))) d)) w)))"

definition finish_approval :: "flow_env \<Rightarrow> string \<Rightarrow> task \<Rightarrow> run_result \<Rightarrow> flow \<Rightarrow> flow" where
  "finish_approval env actor t res w =
     (let (action, target, timeout) = (case runApproval res of None \<Rightarrow> (''task_execution'', ''task'', 300) | Some a \<Rightarrow> a)
      in case call_db env (\<lambda>u now d. drop_snd (RequestApproval (eUid env (wN w + 1)) u now (tID t) action target timeout
                 actor (runSummary res) [''approval_requested'' \<mapsto> ABool True] d)) w of
           (w1, None) \<Rightarrow> w1
         | (w1, Some e) \<Rightarrow>
             fst (call_db env (\<lambda>u now d. drop_snd (FailTask u now (tID t) actor ''approval request failed'' e
                    (Some (AMap [''status'' \<mapsto> AStr ''error''])) d)) w1))"

definition finish_failure :: "flow_env \<Rightarrow> string \<Rightarrow> task \<Rightarrow> run_result \<Rightarrow> flow \<Rightarrow> flow" where
  "finish_failure env actor t res w =
     (let msg = (if TrimSpace (runError res) = [] then ''task execution failed'' else TrimSpace (runError res))
      in reconcileRootTask env actor (tID t)
           (fst (call_db env (\<lambda>u now d. drop_snd (FailTask u now (tID t) actor msg msg
                   (Some (AMap (runResults res))) d)) w)))"

definition releaseTask :: "flow_env \<Rightarrow> worker_cfg \<Rightarrow> worker \<Rightarrow> worker" where
  "releaseTask env c k =
     k\<lparr>kFlow := announce env (cWorkerID c) (cInterval c) (cRfc c) None (kFlow k), kCurrent := None\<rparr>"

definition executeTask :: "flow_env \<Rightarrow> worker_cfg \<Rightarrow> (task \<Rightarrow> run_result) \<Rightarrow> string \<Rightarrow> worker \<Rightarrow> worker" where
  "executeTask env c run taskID k =
     (case GetTask (flow_db (kFlow k)) taskID of
        None \<Rightarrow> releaseTask env c k
      | Some t \<Rightarrow>
          (let actor = worker_name (cWorkerID c);
               wid = (''worker_id'', AStr (cWorkerID c));
               w1 = recordRecoveryCheckpoint env taskID ''executing'' [wid] (kFlow k);
               res = run t;
               w2 = (if runStatus res = ''success'' then
                       finish_success env actor t res (recordRecoveryCheckpoint env taskID ''completed''
                         [wid, (''status'', AStr ''success'')] w1)
                     else if runStatus res = ''waiting_approval'' then
                       finish_approval env actor t res (recordRecoveryCheckpoint env taskID ''waiting_approval''
                         [wid, (''status'', AStr ''waiting_approval'')] w1)
                     else
                       finish_failure env actor t res (recordRecoveryCheckpoint env taskID ''failed''
                         [wid, (''status'', AStr ''failed'')] w1))
           in releaseTask env c (k\<lparr>kFlow := w2\<rparr>)))"

definition recoverInterruptedTasks :: "flow_env \<Rightarrow> worker_cfg \<Rightarrow> worker \<Rightarrow> worker" where
  "recoverInterruptedTasks env c k =
     (let w = kFlow k; now = eClk env (wN w);
          cutoff = now - (if cInterval c * 3 > 30 then cInterval c * 3 else 30) * second
      in k\<lparr>kFlow := set_db (fst (RequeueRecoverableRemoteTasks (eClk env (wN w + 1)) cutoff
             (worker_name (cWorkerID c)) (flow_db w))) 2 w\<rparr>)"

section \<open>The contract: the database moves along the life cycle\<close>

lemma lifecycle_reach_one: "lifecycle_step d e \<Longrightarrow> lifecycle_reach d e"
  by (rule lifecycle_reach.step [OF lifecycle_reach.refl])

lemma lifecycle_reach_trans: "lifecycle_reach e f \<Longrightarrow> lifecycle_reach d e \<Longrightarrow> lifecycle_reach d f"
  by (induction rule: lifecycle_reach.induct) (auto intro: lifecycle_reach.step)

definition walks :: "flow \<Rightarrow> flow \<Rightarrow> bool" where
  "walks w w' \<longleftrightarrow> lifecycle_reach (flow_db w) (flow_db w')"

locale lifecycle_client =
  fixes act :: "worker \<Rightarrow> worker"
  assumes walks_db: "walks (kFlow k) (kFlow (act k))"
begin

lemma keeps_audit: "audited (flow_db (kFlow k)) \<Longrightarrow> audited (flow_db (kFlow (act k)))"
  using walks_db [of k] lifecycle_reach_audited by (simp add: walks_def)

lemma keeps_terminal:
  "GetTask (flow_db (kFlow k)) i = Some t \<Longrightarrow> IsTerminalState (tState t) \<Longrightarrow>
    \<exists>u. GetTask (flow_db (kFlow (act k))) i = Some u \<and> same_outcome t u"
  using walks_db [of k] lifecycle_reach_terminal by (simp add: walks_def)

end

lemma set_db_simps [simp]:
  "flow_db (set_db d n w) = d" "wQ (set_db d n w) = wQ w" "wN (set_db d n w) = wN w + n"
  by (simp_all add: set_db_def)

lemma set_queue_simps [simp]: "wS (set_queue r w) = wS w" "wQ (set_queue r w) = r" "wN (set_queue r w) = wN w"
  by (simp_all add: set_queue_def)

lemma walks_refl [simp]: "walks w w"
  by (simp add: walks_def lifecycle_reach.refl)

lemma walks_same: "flow_db w' = flow_db w \<Longrightarrow> walks w w'"
  by (simp add: walks_def lifecycle_reach.refl)

lemma walks_trans: "walks w v \<Longrightarrow> walks v u \<Longrightarrow> walks w u"
  unfolding walks_def by (rule lifecycle_reach_trans)

lemma walks_set_queue [simp]: "walks w (set_queue r v) = walks w v" "walks (set_queue r v) w = walks v w"
  by (simp_all add: walks_def)

lemma walks_call:
  assumes "\<And>u now d d'. f u now d = Inr d' \<Longrightarrow> lifecycle_step d d'"
  shows "walks w (fst (call_db env f w))"
  using assms lifecycle_reach_one by (auto simp: call_db_def walks_def lifecycle_reach.refl split: sum.split)

lemma drop_snd_Inr: "drop_snd r = Inr d \<longleftrightarrow> (\<exists>x. r = Inr (d, x))"
  by (auto simp: drop_snd_def split: sum.splits)

lemma walks_update: "walks w (fst (call_db env (\<lambda>u now. UpdateTaskState u now i s a q) w))"
  by (rule walks_call) (rule lifecycle_step.update)

lemma walks_update_queued:
  "walks w (fst (call_db env (\<lambda>u now. UpdateTaskState u now i s a q) (set_queue r w)))"
  using walks_update [of "set_queue r w"] by simp

lemma walks_complete: "walks w (fst (call_db env (\<lambda>u now d. drop_snd (CompleteTask u now i a q r d)) w))"
  by (rule walks_call) (auto simp: drop_snd_Inr CompleteTask_def intro: lifecycle_step.finalize)

lemma walks_fail: "walks w (fst (call_db env (\<lambda>u now d. drop_snd (FailTask u now i a q m r d)) w))"
  by (rule walks_call) (auto simp: drop_snd_Inr FailTask_def intro: lifecycle_step.finalize)

lemma walks_request:
  "walks w (fst (call_db env (\<lambda>u now d. drop_snd (RequestApproval (x w) u now i b t m a q p d)) w))"
  by (rule walks_call) (auto simp: drop_snd_Inr intro: lifecycle_step.request)

lemma walks_patch: "walks w (set_db (PatchTaskMetadata now i p (flow_db w)) n w)"
  by (simp add: walks_def lifecycle_reach_one lifecycle_step.patch)

lemma walks_results: "walks w (set_db (UpdateTaskResults now i v (flow_db w)) n w)"
  by (simp add: walks_def lifecycle_reach_one lifecycle_step.results)

lemma walks_checkpoint: "walks w (recordRecoveryCheckpoint env i st ex w)"
  by (simp add: recordRecoveryCheckpoint_def Let_def walks_patch)

lemma walks_announce: "walks w (announce env i n rfc t v) = walks w v"
  by (simp add: announce_def)

lemmas walk_calls = walks_update walks_complete walks_fail walks_request walks_checkpoint walks_results

lemma walks_reconcile_initiative: "walks w (reconcile_initiative env t w)"
proof -
  have "iDB (fst (ReconcileInitiativeExecution c i s)) = iDB s" for c i s
    by (simp add: ReconcileInitiativeExecution_def Let_def UpdateInitiative_def split: option.split list.split)
  then show ?thesis by (simp add: reconcile_initiative_def walks_same)
qed

lemma walks_reconcile_root: "walks w (reconcile_root env a r w)"
  by (simp add: reconcile_root_def Let_def walk_calls split: option.split)

lemma walks_reconcileRootTask: "walks w (reconcileRootTask env a i w)"
  by (auto simp: reconcileRootTask_def Let_def walks_reconcile_initiative split: option.split
      intro: walks_trans [OF walks_reconcile_initiative walks_reconcile_root])

lemma walks_dispatch: "walks w (fst (dispatch_child env a t n sb i w))"
  using walks_request [of w env "\<lambda>w. eUid env (wN w + 1)"]
  by (simp add: dispatch_child_def queue_remote_child_def walk_calls walks_update_queued)

lemma walks_spawn_child: "walks w (fst (spawn_child env a t n sb w))"
proof (cases "CreateTask (eUid env (wN w)) (eUid env (wN w + 1)) (eUid env (wN w + 2)) (eClk env (wN w))
    (child_params env t n sb) (flow_db w)")
  case (Inl e)
  then show ?thesis by (simp add: spawn_child_def Let_def walks_same)
next
  case (Inr dx)
  obtain d x where dx: "dx = (d, x)" by (cases dx)
  have "walks w (set_db d 3 w)"
    using Inr dx by (simp add: walks_def lifecycle_reach_one lifecycle_step.create)
  then show ?thesis using Inr dx walks_trans [OF _ walks_dispatch]
    by (simp add: spawn_child_def Let_def split: prod.split) (metis fst_conv)
qed

lemma walks_spawn_children: "walks w (fst (spawn_children env a t n sbs w))"
proof (induction sbs arbitrary: n w)
  case (Cons sb sbs)
  obtain w1 i e where c: "spawn_child env a t n sb w = (w1, i, e)" by (cases "spawn_child env a t n sb w")
  then have w1: "walks w w1" using walks_spawn_child [of w env a t n sb] by simp
  then have "walks w (fst (spawn_children env a t (Suc n) sbs w1))" using Cons.IH walks_trans by blast
  with c w1 show ?case by (auto split: option.split prod.split)
qed simp

lemma walks_planner: "walks w (fst (handlePlannerSuccess env a t res w))"
proof -
  let ?w1 = "set_db (UpdateTaskResults (eClk env (wN w)) (tID t) (AMap (runResults res)) (flow_db w)) 1 w"
  have w1: "walks w ?w1" by (rule walks_results)
  obtain w2 ids e where sp: "spawn_children env a t 0 (parsePlannerSubtasks (runResults res ''subtasks'')) ?w1 = (w2, ids, e)"
    by (cases "spawn_children env a t 0 (parsePlannerSubtasks (runResults res ''subtasks'')) ?w1")
  have w2: "walks w w2" using walks_trans [OF w1 walks_spawn_children] sp by (metis fst_conv)
  have "walks w (reconcileRootTask env a (tID t) (set_db (UpdateTaskResults c (tID t) v (flow_db w2)) 1 w2))" for c v
    using walks_trans [OF walks_trans [OF w2 walks_results] walks_reconcileRootTask] .
  moreover have "walks w (fst (call_db env (\<lambda>u now d. drop_snd (CompleteTask u now i a q r d)) ?w1))" for i q r
    using walks_trans [OF w1 walks_complete] .
  ultimately show ?thesis using sp w2 by (simp add: handlePlannerSuccess_def Let_def split: option.split)
qed

lemma walks_success: "walks w (finish_success env a t res w)"
proof (cases "tAssignedAgent t = Some AgentTypePlanner")
  case True
  obtain w1 e where h: "handlePlannerSuccess env a t res w = (w1, e)" by (cases "handlePlannerSuccess env a t res w")
  then have "walks w w1" using walks_planner [of w env a t res] by simp
  with True h walks_trans [OF _ walks_fail] show ?thesis by (auto simp: finish_success_def split: option.split)
next
  case False
  then show ?thesis
    by (simp add: finish_success_def walks_trans [OF walks_complete walks_reconcileRootTask])
qed

lemma walks_approval: "walks w (finish_approval env a t res w)"
proof -
  obtain b g m where p: "(case runApproval res of None \<Rightarrow> (''task_execution'', ''task'', 300) | Some a \<Rightarrow> a) = (b, g, m)"
    by (cases "case runApproval res of None \<Rightarrow> (''task_execution'', ''task'', 300) | Some a \<Rightarrow> a")
  let ?c = "call_db env (\<lambda>u now d. drop_snd (RequestApproval (eUid env (wN w + 1)) u now (tID t) b g m a
      (runSummary res) [''approval_requested'' \<mapsto> ABool True] d)) w"
  have r: "walks w (fst ?c)" using walks_request [of w env "\<lambda>w. eUid env (wN w + 1)"] by simp
  obtain w1 e where c: "?c = (w1, e)" by (cases ?c)
  with r have "walks w w1" by simp
  with walks_trans [OF _ walks_fail] c p show ?thesis
    by (simp add: finish_approval_def split: option.split)
qed

lemma walks_failure: "walks w (finish_failure env a t res w)"
  by (simp add: finish_failure_def Let_def walks_trans [OF walks_fail walks_reconcileRootTask])


section \<open>The handlers meet the contract\<close>

lemma walks_execute: "walks (kFlow k) (kFlow (executeTask env c run i k))"
proof (cases "GetTask (flow_db (kFlow k)) i")
  case None
  then show ?thesis by (simp add: executeTask_def releaseTask_def walks_announce)
next
  case (Some t)
  let ?r = "\<lambda>st ex w. recordRecoveryCheckpoint env i st ex w"
  have two: "walks (kFlow k) (?r st ex (?r st' ex' (kFlow k)))" for st ex st' ex'
    by (rule walks_trans [OF walks_checkpoint walks_checkpoint])
  show ?thesis using Some
    by (simp add: executeTask_def Let_def releaseTask_def walks_announce
        walks_trans [OF two walks_success] walks_trans [OF two walks_approval] walks_trans [OF two walks_failure])
qed

text \<open>What a claim attempt can do.\<close>

lemma tryClaimTask_cases:
  obtains (idle) "tryClaimTask env c agent k = k" "\<not> eRedisUp env \<or> snd (DequeueTask agent (wQ (kFlow k))) = None"
  | (dropped) i r where "DequeueTask agent (wQ (kFlow k)) = (r, Some i)"
      "tryClaimTask env c agent k = k\<lparr>kFlow := set_queue r (kFlow k)\<rparr>"
      "\<forall>t. GetTask (flow_db (kFlow k)) i = Some t \<longrightarrow> tState t \<noteq> Queued \<or> tExecutionTarget t = ExecutionTargetLocal"
  | (claimed) i r t w1 w2 where "DequeueTask agent (wQ (kFlow k)) = (r, Some i)"
      "GetTask (flow_db (kFlow k)) i = Some t" "tState t = Queued" "tExecutionTarget t \<noteq> ExecutionTargetLocal"
      "call_db env (\<lambda>u now. UpdateTaskState u now i Assigned (worker_name (cWorkerID c)) (''Dequeued for '' @ agent))
         (set_queue r (kFlow k)) = (w1, None)"
      "call_db env (\<lambda>u now. UpdateTaskState u now i InProgress (worker_name (cWorkerID c))
         ''Execution started in Go worker'') w1 = (w2, None)"
      "tryClaimTask env c agent k = start_claimed env c agent t (k\<lparr>kFlow := w2\<rparr>)"
proof (cases "\<not> eRedisUp env \<or> snd (DequeueTask agent (wQ (kFlow k))) = None")
  case True
  then have "tryClaimTask env c agent k = k" by (auto simp: tryClaimTask_def split: prod.split)
  then show ?thesis using True by (rule idle)
next
  case False
  then obtain r i where q: "DequeueTask agent (wQ (kFlow k)) = (r, Some i)"
    by (cases "DequeueTask agent (wQ (kFlow k))") auto
  let ?w = "set_queue r (kFlow k)"
  show ?thesis
  proof (cases "\<exists>t. GetTask (flow_db (kFlow k)) i = Some t \<and> tState t = Queued \<and> tExecutionTarget t \<noteq> ExecutionTargetLocal")
    case no: False
    then have "tryClaimTask env c agent k = k\<lparr>kFlow := ?w\<rparr>"
      using False q by (auto simp: tryClaimTask_def Let_def split: option.split)
    then show ?thesis using dropped [OF q] no by blast
  next
    case True
    then obtain t where t: "GetTask (flow_db (kFlow k)) i = Some t" "tState t = Queued" "tExecutionTarget t \<noteq> ExecutionTargetLocal"
      by blast
    obtain w1 where c1: "call_db env (\<lambda>u now. UpdateTaskState u now i Assigned (worker_name (cWorkerID c))
        (''Dequeued for '' @ agent)) ?w = (w1, None)" and t1: "\<exists>t'. GetTask (flow_db w1) i = Some t' \<and> tState t' = Assigned"
      using t by (auto simp: call_db_def UpdateTaskState_def IsValidTransition_def GetTask_def)
    obtain w2 where c2: "call_db env (\<lambda>u now. UpdateTaskState u now i InProgress (worker_name (cWorkerID c))
        ''Execution started in Go worker'') w1 = (w2, None)"
      using t1 by (auto simp: call_db_def UpdateTaskState_def IsValidTransition_def GetTask_def)
    have "tryClaimTask env c agent k = start_claimed env c agent t (k\<lparr>kFlow := w2\<rparr>)"
      using False q t c1 c2 by (simp add: tryClaimTask_def Let_def)
    with q t c1 c2 show ?thesis by (rule claimed)
  qed
qed

lemma walks_claim: "walks (kFlow k) (kFlow (tryClaimTask env c agent k))"
proof (cases rule: tryClaimTask_cases [of env c agent k])
  case (claimed i r t w1 w2)
  have "walks (kFlow k) w1" using walks_update_queued [of "kFlow k" env i Assigned] claimed(5) by (metis fst_conv)
  moreover have "walks w1 w2" using walks_update [of w1 env i InProgress] claimed(6) by (metis fst_conv)
  ultimately have "walks (kFlow k) w2" by (rule walks_trans)
  with claimed(7) show ?thesis
    by (simp add: start_claimed_def Let_def walks_announce walks_trans [OF _ walks_checkpoint])
qed simp_all

interpretation claim: lifecycle_client "tryClaimTask env c agent" for env c agent
  by unfold_locales (rule walks_claim)

interpretation exec: lifecycle_client "executeTask env c run i" for env c run i
  by unfold_locales (rule walks_execute)

section \<open>Effects of single calls\<close>

lemma call_finalize:
  assumes "GetTask (flow_db w) i = Some t" and "IsValidTransition (tState t) s"
  shows "\<exists>w' u. call_db env (\<lambda>x now d. drop_snd (finalizeTask x now i s a q res err d)) w = (w', None) \<and>
    GetTask (flow_db w') i = Some u \<and> tState u = s"
  using assms
  by (simp add: call_db_def drop_snd_def finalizeTask_def Let_def GetTask_def find_row_upd_same)

lemma call_request:
  assumes "GetTask (flow_db w) i = Some t" and "IsValidTransition (tState t) WaitingApproval"
    and "find_row aID aid (dbApprovals (flow_db w)) = None"
  shows "\<exists>w' u. call_db env (\<lambda>x now d. drop_snd (RequestApproval aid x now i b g m a q p d)) w = (w', None) \<and>
    GetTask (flow_db w') i = Some u \<and> tState u = WaitingApproval"
  using assms
  by (simp add: call_db_def drop_snd_def RequestApproval_def Let_def GetTask_def find_row_upd_same)

lemma checkpoint_task:
  assumes "GetTask (flow_db w) i = Some t"
  shows "\<exists>u. GetTask (flow_db (recordRecoveryCheckpoint env j st ex w)) i = Some u \<and> tState u = tState t"
  using assms by (cases "i = j")
    (auto simp: recordRecoveryCheckpoint_def Let_def PatchTaskMetadata_def GetTask_def find_row_upd_other find_row_upd_same)

lemma checkpoint_approvals [simp]: "dbApprovals (flow_db (recordRecoveryCheckpoint env j st ex w)) = dbApprovals (flow_db w)"
  by (simp add: recordRecoveryCheckpoint_def Let_def PatchTaskMetadata_def)

lemma walks_terminal:
  assumes "walks w v" and "GetTask (flow_db w) i = Some t" and "IsTerminalState (tState t)"
  shows "\<exists>u. GetTask (flow_db v) i = Some u \<and> tState u = tState t"
  using assms lifecycle_reach_terminal by (fastforce simp: walks_def same_outcome_def)

lemma announce_db [simp]: "wS (announce env i n rfc t w) = wS w"
  by (simp add: announce_def)

lemma finish_success_state:
  assumes "GetTask (flow_db w) i = Some t0" and "tState t0 = InProgress" and "tID t = i" and "tAssignedAgent t \<noteq> Some AgentTypePlanner"
  shows "\<exists>u. GetTask (flow_db (finish_success env a t res w)) i = Some u \<and> tState u = Completed"
proof -
  obtain w' u where c: "call_db env (\<lambda>x now d. drop_snd (CompleteTask x now i a (runSummary res) (Some (AMap (runResults res))) d)) w = (w', None)"
    and u: "GetTask (flow_db w') i = Some u" "tState u = Completed"
    using call_finalize [OF assms(1), of Completed env a "runSummary res" "Some (AMap (runResults res))" None] assms(2)
    by (auto simp: CompleteTask_def IsValidTransition_def)
  have "walks w' (reconcileRootTask env a i w')" by (rule walks_reconcileRootTask)
  from walks_terminal [OF this u(1)] u(2) assms(3,4) c show ?thesis by (simp add: finish_success_def)
qed

lemma finish_failure_state:
  assumes "GetTask (flow_db w) i = Some t0" and "tState t0 = InProgress" and "tID t = i"
  shows "\<exists>u. GetTask (flow_db (finish_failure env a t res w)) i = Some u \<and> tState u = Failed"
proof -
  let ?m = "if TrimSpace (runError res) = [] then ''task execution failed'' else TrimSpace (runError res)"
  obtain w' u where c: "call_db env (\<lambda>x now d. drop_snd (FailTask x now i a ?m ?m (Some (AMap (runResults res))) d)) w = (w', None)"
    and u: "GetTask (flow_db w') i = Some u" "tState u = Failed"
    using call_finalize [OF assms(1), of Failed env a ?m "Some (AMap (runResults res))" "Some ?m"] assms(2)
    by (auto simp: FailTask_def IsValidTransition_def)
  have "walks w' (reconcileRootTask env a i w')" by (rule walks_reconcileRootTask)
  from walks_terminal [OF this u(1)] u(2) assms(3) c show ?thesis unfolding finish_failure_def Let_def by simp
qed

lemma finish_approval_state:
  assumes "GetTask (flow_db w) i = Some t0" and "tState t0 = InProgress" and "tID t = i"
    and "find_row aID (eUid env (wN w + 1)) (dbApprovals (flow_db w)) = None"
  shows "\<exists>u. GetTask (flow_db (finish_approval env a t res w)) i = Some u \<and> tState u = WaitingApproval"
proof -
  obtain b g m where p: "(case runApproval res of None \<Rightarrow> (''task_execution'', ''task'', 300) | Some a \<Rightarrow> a) = (b, g, m)"
    by (cases "case runApproval res of None \<Rightarrow> (''task_execution'', ''task'', 300) | Some a \<Rightarrow> a")
  show ?thesis
    using call_request [OF assms(1) _ assms(4), of env b g m a "runSummary res" "[''approval_requested'' \<mapsto> ABool True]"]
      assms(2,3) p
    by (auto simp: finish_approval_def IsValidTransition_def)
qed

lemma GetTask_id: "GetTask d i = Some t \<Longrightarrow> tID t = i"
  using find_row_SomeD by (fastforce simp: GetTask_def)

lemma announce_queues [simp]: "rdQueues (wQ (announce env i n rfc t w)) = rdQueues (wQ w)"
  by (simp add: announce_def EmitWorkerHeartbeat_def UpdateWorkerCurrentTask_def HSet_def)

lemma checkpoint_queue [simp]: "wQ (recordRecoveryCheckpoint env j st ex w) = wQ w"
  by (simp add: recordRecoveryCheckpoint_def Let_def)

lemma call_db_queue: "call_db env f w = (w', e) \<Longrightarrow> wQ w' = wQ w"
  by (auto simp: call_db_def split: sum.splits)

lemma call_update_state:
  assumes "call_db env (\<lambda>u now. UpdateTaskState u now i s a q) w = (w', None)"
  shows "\<exists>t. GetTask (flow_db w') i = Some t \<and> tState t = s"
  using assms by (auto simp: call_db_def UpdateTaskState_def GetTask_def split: sum.splits option.splits if_splits)

section \<open>Runs of several workers\<close>

text \<open>
  Any number of workers share the database and the queues: a step is the start of a worker, which
  recovers interrupted tasks, one claim attempt or one execution by some worker, whatever it was doing before.
\<close>

inductive worker_step :: "flow_env \<Rightarrow> flow \<Rightarrow> flow \<Rightarrow> bool" for env where
  starts: "worker_step env w (kFlow (recoverInterruptedTasks env c (\<lparr>kFlow = w, kCurrent = cur\<rparr>)))"
| claims: "worker_step env w (kFlow (tryClaimTask env c agent (\<lparr>kFlow = w, kCurrent = cur\<rparr>)))"
| executes: "worker_step env w (kFlow (executeTask env c run i (\<lparr>kFlow = w, kCurrent = cur\<rparr>)))"

inductive worker_reach :: "flow_env \<Rightarrow> flow \<Rightarrow> flow \<Rightarrow> bool" for env where
  refl: "worker_reach env w w"
| step: "worker_reach env w v \<Longrightarrow> worker_step env v u \<Longrightarrow> worker_reach env w u"

lemma walks_runs: "walks w v \<Longrightarrow> store_run R (flow_db w) (flow_db v)"
  by (simp add: walks_def lifecycle_runs)

lemma worker_step_runs: "worker_step env w v \<Longrightarrow> store_run R (flow_db w) (flow_db v)"
proof (induction rule: worker_step.induct)
  case (starts w c cur)
  show ?case unfolding recoverInterruptedTasks_def Let_def
    by (rule store_run.step [OF store_run.start]) (simp add: store_step.recover)
next
  case (claims w c agent cur)
  then show ?case using walks_runs [OF claim.walks_db [of "\<lparr>kFlow = w, kCurrent = cur\<rparr>" env c agent]] by simp
next
  case (executes w c run i cur)
  then show ?case using walks_runs [OF exec.walks_db [of "\<lparr>kFlow = w, kCurrent = cur\<rparr>" env c run i]] by simp
qed

lemma worker_reach_runs: "worker_reach env w v \<Longrightarrow> store_run R (flow_db w) (flow_db v)"
  by (induction rule: worker_reach.induct) (auto intro: store_run.start store_run_trans worker_step_runs)

section \<open>Sample data\<close>

definition sample_cfg :: worker_cfg where
  "sample_cfg = \<lparr>cWorkerID = ''w1'', cInterval = 10, cRfc = (\<lambda>_. [])\<rparr>"

definition queue_of :: "string \<Rightarrow> redis" where
  "queue_of i = emptyRedis\<lparr>rdQueues := (\<lambda>_. [(i, 0)])\<rparr>"

definition sample_worker :: "task_state \<Rightarrow> worker" where
  "sample_worker st = \<lparr>kFlow = \<lparr>wS = (sample_idb Executing ExecutionPhase st), wQ = queue_of ''t1'', wN = 0\<rparr>, kCurrent = None\<rparr>"

definition sample_run :: "string \<Rightarrow> task \<Rightarrow> run_result" where
  "sample_run st t = \<lparr>runStatus = st, runSummary = ''done'', runResults = Map.empty, runError = [], runApproval = None\<rparr>"

lemma sample_worker_task: "GetTask (flow_db (kFlow (sample_worker st))) ''t1'' = Some (sample_task st)"
  by (simp add: sample_worker_def sample_idb_def)

lemma sample_worker_pop: "DequeueTask ''coder'' (wQ (kFlow (sample_worker st))) = (emptyRedis\<lparr>rdQueues := (\<lambda>k. if k = queueKey ''coder'' then [] else [(''t1'', 0)])\<rparr>, Some ''t1'')"
  by (auto simp: sample_worker_def queue_of_def DequeueTask_def ZPopMin_def emptyRedis_def fun_eq_iff)

definition family :: "task_state \<Rightarrow> flow" where
  "family st = set_db ((sample_db InProgress)\<lparr>dbTasks := [sample_task InProgress,
     (sample_task st)\<lparr>tID := ''t2'', tRootTaskID := Some ''t1'', tParentTaskID := Some ''t1''\<rparr>]\<rparr>) 0 (kFlow (sample_worker Queued))"

section \<open>Properties\<close>

text \<open>
  C8: the workers are clients of the store and nothing more: whatever they do, in any order, starts with their
  recovery of interrupted tasks included and with any results of their runs, the database moves by operations of the
  store without a launch. From a logged database it stays logged, so that every return to the queue that the log
  leaves out is counted by the task, and a task that has ended keeps its state and its completion time.
\<close>

theorem workers_refine_the_store:
  assumes "worker_reach env w v"
  shows "store_run {} (flow_db w) (flow_db v) \<and>
    (logged (flow_db w) \<longrightarrow> logged (flow_db v) \<and>
      (\<forall>i t. GetTask (flow_db w) i = Some t \<and> IsTerminalState (tState t) \<longrightarrow>
         (\<exists>u. GetTask (flow_db v) i = Some u \<and> tState u = tState t \<and> tCompletedAt u = tCompletedAt t)))"
proof -
  have r: "store_run {} (flow_db w) (flow_db v)" by (rule worker_reach_runs [OF assms])
  then show ?thesis using store_run_logged [OF r] store_run_ended [OF r] by (auto simp: same_outcome_def)
qed

text \<open>The witness is the start of a worker on a database with an assigned task.\<close>

theorem workers_refine_the_store_witness:
  "store_run {} (sample_db Assigned)
     (flow_db (kFlow (recoverInterruptedTasks sample_env sample_cfg (sample_worker Assigned))))"
proof -
  let ?w = "kFlow (sample_worker Assigned)"
  have "worker_reach sample_env ?w (kFlow (recoverInterruptedTasks sample_env sample_cfg (\<lparr>kFlow = ?w, kCurrent = None\<rparr>)))"
    by (rule worker_reach.step [OF worker_reach.refl worker_step.starts])
  from workers_refine_the_store [OF this] show ?thesis by (simp add: sample_worker_def sample_idb_def)
qed

text \<open>
  A worker that takes a task on found it queued for the remote target; the task is then in progress
  and out of the queue it was popped from. Conversely, when the first task of the queue is queued and
  not local, the worker takes it on.
\<close>

theorem claim_takes_a_queued_remote_task:
  assumes q: "DequeueTask agent (wQ (kFlow k)) = (r, Some i)" and up: "eRedisUp env" and free: "kCurrent k = None"
  shows "(kCurrent (tryClaimTask env c agent k) = Some i \<longleftrightarrow>
      (\<exists>t. GetTask (flow_db (kFlow k)) i = Some t \<and> tState t = Queued \<and> tExecutionTarget t \<noteq> ExecutionTargetLocal)) \<and>
    (kCurrent (tryClaimTask env c agent k) = Some i \<longrightarrow>
      (\<exists>u. GetTask (flow_db (kFlow (tryClaimTask env c agent k))) i = Some u \<and> tState u = InProgress)) \<and>
    rdQueues (wQ (kFlow (tryClaimTask env c agent k))) (queueKey agent) = rdQueues r (queueKey agent)"
proof (cases rule: tryClaimTask_cases [of env c agent k])
  case idle
  with q up show ?thesis by simp
next
  case (dropped j r')
  with q free show ?thesis by auto
next
  case (claimed j r' t w1 w2)
  then have j: "j = i" "r' = r" "tID t = i" using q GetTask_id by auto
  obtain u where u: "GetTask (flow_db w2) i = Some u" "tState u = InProgress"
    using call_update_state [OF claimed(6)] j by blast
  have "wQ w2 = r" using call_db_queue [OF claimed(5)] call_db_queue [OF claimed(6)] j by simp
  then show ?thesis using claimed(2-4,7) j checkpoint_task [OF u(1)] u(2)
    by (auto simp: start_claimed_def Let_def)
qed

text \<open>The witness claims the only task of a queue.\<close>

theorem claim_takes_a_queued_remote_task_witness:
  "kCurrent (tryClaimTask sample_env sample_cfg ''coder'' (sample_worker Queued)) = Some ''t1''"
  using claim_takes_a_queued_remote_task [OF sample_worker_pop, of sample_env Queued sample_cfg]
    sample_worker_task [of Queued]
  by (simp add: sample_env_def target_defs) (simp add: sample_worker_def)

text \<open>A run that hands its work on: the planner succeeds with subtasks that it is not asked to keep as a plan.\<close>

definition hands_on :: "task \<Rightarrow> run_result \<Rightarrow> bool" where
  "hands_on t res \<longleftrightarrow> tAssignedAgent t = Some AgentTypePlanner \<and> \<not> asBoolAny (runResults res ''plan_only'') \<and>
     parsePlannerSubtasks (runResults res ''subtasks'') \<noteq> []"

lemma results_task:
  "GetTask (flow_db w) i = Some t \<Longrightarrow>
    \<exists>u. GetTask (flow_db (set_db (UpdateTaskResults now i v (flow_db w)) n w)) i = Some u \<and> tState u = tState t"
  by (simp add: UpdateTaskResults_def GetTask_def find_row_upd_same)

lemma planner_success_state:
  assumes "GetTask (flow_db w) i = Some t0" "tState t0 = InProgress" "tID t = i" "tAssignedAgent t = Some AgentTypePlanner" "\<not> hands_on t res"
  shows "\<exists>u. GetTask (flow_db (finish_success env a t res w)) i = Some u \<and> tState u = Completed"
proof -
  let ?w1 = "set_db (UpdateTaskResults (eClk env (wN w)) i (AMap (runResults res)) (flow_db w)) 1 w"
  obtain u0 where u0: "GetTask (flow_db ?w1) i = Some u0" "tState u0 = InProgress" using results_task [OF assms(1)] assms(2) by metis
  obtain w' u where c: "call_db env (\<lambda>x now d. drop_snd (CompleteTask x now i a ''planner completed without execution subtasks''
      (Some (AMap (runResults res))) d)) ?w1 = (w', None)"
    and u: "GetTask (flow_db w') i = Some u" "tState u = Completed"
    using call_finalize [OF u0(1), of Completed env a "''planner completed without execution subtasks''" "Some (AMap (runResults res))" None] u0(2)
    by (auto simp: CompleteTask_def IsValidTransition_def)
  have "handlePlannerSuccess env a t res w = (w', None)" using assms(3,4,5) c by (auto simp: handlePlannerSuccess_def Let_def hands_on_def)
  then show ?thesis using assms(4) u by (simp add: finish_success_def)
qed

lemma success_state:
  assumes "GetTask (flow_db w) i = Some t0" "tState t0 = InProgress" "tID t = i" "\<not> hands_on t res"
  shows "\<exists>u. GetTask (flow_db (finish_success env a t res w)) i = Some u \<and> tState u = Completed"
  using planner_success_state [OF assms(1-3) _ assms(4)] finish_success_state [OF assms(1-3)] by blast

text \<open>
  C9: running a task that is in progress settles it, unless the planner hands work on: a success completes the
  task, a planner's with no subtasks or with a plan only as well, a request for approval parks it, provided that the
  identifiers of approvals are fresh, and anything else fails it. The worker is free afterwards. The one exception is
  a success of the planner with subtasks to execute, which the subtasks settle later.
\<close>

theorem execution_settles_the_task:
  assumes t: "GetTask (flow_db (kFlow k)) i = Some t" "tState t = InProgress"
    and p: "runStatus (run t) = ''success'' \<Longrightarrow> \<not> hands_on t (run t)"
    and fresh: "\<And>n. find_row aID (eUid env n) (dbApprovals (flow_db (kFlow k))) = None"
  shows "kCurrent (executeTask env c run i k) = None \<and>
    (\<exists>u. GetTask (flow_db (kFlow (executeTask env c run i k))) i = Some u \<and>
       tState u = (if runStatus (run t) = ''success'' then Completed
                   else if runStatus (run t) = ''waiting_approval'' then WaitingApproval else Failed))"
proof -
  have id: "tID t = i" using t(1) by (rule GetTask_id)
  let ?w = "\<lambda>st ex st' ex'. recordRecoveryCheckpoint env i st ex (recordRecoveryCheckpoint env i st' ex' (kFlow k))"
  have two: "\<exists>u. GetTask (flow_db (?w st ex st' ex')) i = Some u \<and> tState u = InProgress" for st ex st' ex'
    using checkpoint_task [OF t(1)] checkpoint_task t(2) by metis
  have s: "\<exists>u. GetTask (flow_db (finish_success env a t res (?w st ex st' ex'))) i = Some u \<and> tState u = Completed"
    if "\<not> hands_on t res" for a res st ex st' ex'
    using two [of st ex st' ex'] success_state [OF _ _ id that] by blast
  have f: "\<exists>u. GetTask (flow_db (finish_failure env a t res (?w st ex st' ex'))) i = Some u \<and> tState u = Failed" for a res st ex st' ex'
    using two [of st ex st' ex'] finish_failure_state id by blast
  have w: "\<exists>u. GetTask (flow_db (finish_approval env a t res (?w st ex st' ex'))) i = Some u \<and> tState u = WaitingApproval" for a res st ex st' ex'
    using two [of st ex st' ex'] finish_approval_state [OF _ _ id] fresh by (metis checkpoint_approvals)
  show ?thesis using t(1) s p f w by (simp add: executeTask_def Let_def releaseTask_def)
qed

text \<open>The witness is a run that asks for approval.\<close>

theorem execution_settles_the_task_witness:
  "\<exists>u. GetTask (flow_db (kFlow (executeTask sample_env sample_cfg (sample_run ''waiting_approval'') ''t1'' (sample_worker InProgress)))) ''t1''
     = Some u \<and> tState u = WaitingApproval"
proof -
  have "find_row aID (eUid sample_env n) (dbApprovals (flow_db (kFlow (sample_worker InProgress)))) = None" for n
    by (simp add: sample_worker_def sample_idb_def sample_db_def emptyDB_def)
  then show ?thesis
    using execution_settles_the_task [OF sample_worker_task, of InProgress "sample_run ''waiting_approval''" sample_env sample_cfg]
    by (simp add: sample_run_def)
qed

text \<open>
  A planner subtask assigned to the planner itself can never be recorded: its completion from
  \<open>created\<close> is not in the transition table, so creating it ends with an error and leaves the new child in
  \<open>created\<close>.
\<close>

theorem planner_subtask_of_planner_always_fails:
  assumes a: "child_agent sb = AgentTypePlanner" and fresh: "GetTask (flow_db w) (eUid env (wN w)) = None"
  shows "\<exists>w' u. spawn_child env actor t idx sb w = (w', eUid env (wN w), Some (invalid_transition Created Completed)) \<and>
    GetTask (flow_db w') (eUid env (wN w)) = Some u \<and> tState u = Created"
  using fresh
  by (simp add: spawn_child_def Let_def CreateTask_def GetTask_def find_row_append child_params_def dispatch_child_def a
      call_db_def CompleteTask_def finalizeTask_def drop_snd_def IsValidTransition_def)

text \<open>The witness is a subtask without a title that names the planner.\<close>

theorem planner_subtask_of_planner_always_fails_witness:
  "\<exists>w' u. spawn_child sample_env ''w'' (sample_task InProgress) 0
      (parse_subtask [''assigned_agent'' \<mapsto> AStr ''planner'']) (kFlow (sample_worker InProgress))
    = (w', [], Some (invalid_transition Created Completed)) \<and> GetTask (flow_db w') [] = Some u \<and> tState u = Created"
proof -
  have a: "child_agent (parse_subtask [''assigned_agent'' \<mapsto> AStr ''planner'']) = AgentTypePlanner"
    by (simp add: child_agent_def parse_subtask_def asString_def agent_defs trim_eval)
  have "eUid sample_env (wN (kFlow (sample_worker InProgress))) = []" by (simp add: sample_env_def sample_worker_def)
  moreover have "GetTask (flow_db (kFlow (sample_worker InProgress))) [] = None"
    by (simp add: sample_worker_def sample_idb_def GetTask_def)
  ultimately show ?thesis
    using planner_subtask_of_planner_always_fails [OF a, of "kFlow (sample_worker InProgress)" sample_env "''w''" "sample_task InProgress" 0]
    by simp
qed

text \<open>
  A remote subtask is put into its agent's queue before its row becomes \<open>queued\<close>. A worker that pops
  it in between drops it, since its row still says \<open>created\<close>; the update then queues the row, and the
  task is queued in the database while no queue holds it.
\<close>

theorem enqueue_before_update_loses_the_task:
  assumes t: "GetTask (flow_db (kFlow k)) i = Some t" "tState t = Created"
    and q: "rdQueues (wQ (kFlow k)) (queueKey agent) = [(i, s)]" and up: "eRedisUp env"
    and k'_def: "k' = tryClaimTask env c agent k"
  shows "kCurrent k' = kCurrent k \<and>
    (\<exists>w' u. call_db env (\<lambda>x now. UpdateTaskState x now i Queued a reason) (kFlow k') = (w', None) \<and>
       GetTask (flow_db w') i = Some u \<and> tState u = Queued \<and> rdQueues (wQ w') (queueKey agent) = [])"
proof -
  have d: "DequeueTask agent (wQ (kFlow k)) = ((wQ (kFlow k))\<lparr>rdQueues := (rdQueues (wQ (kFlow k)))(queueKey agent := [])\<rparr>, Some i)"
    using q by (simp add: DequeueTask_def ZPopMin_def)
  have k': "k' = k\<lparr>kFlow := set_queue ((wQ (kFlow k))\<lparr>rdQueues := (rdQueues (wQ (kFlow k)))(queueKey agent := [])\<rparr>) (kFlow k)\<rparr>"
    unfolding k'_def by (simp add: tryClaimTask_def up d t)
  show ?thesis using t
    by (simp add: k' call_db_def UpdateTaskState_def IsValidTransition_def GetTask_def find_row_upd_same)
qed

text \<open>The witness is a created task that sits alone in the queue.\<close>

theorem enqueue_before_update_loses_the_task_witness:
  "kCurrent (tryClaimTask sample_env sample_cfg ''coder'' (sample_worker Created)) = None"
proof -
  have "rdQueues (wQ (kFlow (sample_worker Created))) (queueKey ''coder'') = [(''t1'', 0)]"
    by (simp add: sample_worker_def queue_of_def)
  moreover have "eRedisUp sample_env" by (simp add: sample_env_def)
  moreover have "kCurrent (sample_worker Created) = None" by (simp add: sample_worker_def)
  ultimately show ?thesis
    using enqueue_before_update_loses_the_task [OF sample_worker_task sample_task_simps(2) _ _ HOL.refl] by metis
qed

text \<open>
  Reconciling the root of a finished subtask: a root that is in progress fails as soon as one of its
  subtasks failed or was cancelled, is completed when all of them are completed, and is left alone
  otherwise.
\<close>

theorem root_follows_its_subtasks:
  assumes k: "keyed tID (dbTasks (flow_db w))" and r: "GetTask (flow_db w) i = Some r" "tState r = InProgress" "tRootTaskID r = Some i"
  defines "children \<equiv> filter (\<lambda>t. tID t \<noteq> i) (ListByRoot (flow_db w) i)"
  assumes c: "children \<noteq> []"
  shows "\<exists>u. GetTask (flow_db (reconcile_root env actor i w)) i = Some u \<and>
    tState u = (if list_ex (\<lambda>t. tState t \<in> {Failed, Cancelled}) children then Failed
                else if list_all (\<lambda>t. tState t = Completed) children then Completed else InProgress)"
proof -
  have rin: "r \<in> set (dbTasks (flow_db w))" "tID r = i" using r(1) find_row_SomeD by (fastforce simp: GetTask_def)+
  then have mem: "r \<in> set (ListByRoot (flow_db w) i)" using r(3) by (simp add: ListByRoot_def)
  have uniq: "x = r" if "x \<in> set (ListByRoot (flow_db w) i)" "tID x = i" for x
    using that k rin find_row_keyed [OF k, of x] find_row_keyed [OF k, of r] by (auto simp: ListByRoot_def)
  have f: "find_row tID i (rev (ListByRoot (flow_db w) i)) = Some r"
  proof (cases "find_row tID i (rev (ListByRoot (flow_db w) i))")
    case None
    then show ?thesis using mem rin by (auto simp: find_row_None_iff)
  next
    case (Some x)
    then show ?thesis using find_row_SomeD [OF Some] uniq by simp
  qed
  have fail: "\<exists>u. GetTask (flow_db (fst (call_db env (\<lambda>u now d. drop_snd (FailTask u now i a q m res d)) w))) i = Some u \<and> tState u = Failed" for a q m res
    using call_finalize [OF r(1), of Failed env a q res "Some m"] r(2) by (auto simp: FailTask_def IsValidTransition_def)
  have comp: "\<exists>u. GetTask (flow_db (fst (call_db env (\<lambda>u now d. drop_snd (CompleteTask u now i a q res d)) w))) i = Some u \<and> tState u = Completed" for a q res
    using call_finalize [OF r(1), of Completed env a q res None] r(2) by (auto simp: CompleteTask_def IsValidTransition_def)
  show ?thesis using f c r fail comp unfolding children_def by (simp add: reconcile_root_def Let_def)
qed

text \<open>The witness is a root with one completed subtask.\<close>

theorem root_follows_its_subtasks_witness:
  "\<exists>u. GetTask (flow_db (reconcile_root sample_env ''w'' ''t1'' (family Completed))) ''t1'' = Some u \<and> tState u = Completed"
proof -
  let ?c = "(sample_task Completed)\<lparr>tID := ''t2'', tRootTaskID := Some ''t1'', tParentTaskID := Some ''t1''\<rparr>"
  have rt: "tRootTaskID (sample_task InProgress) = Some ''t1''"
    by (simp add: sample_task_def create_row_def sample_params_def)
  have ch: "filter (\<lambda>t. tID t \<noteq> ''t1'') (ListByRoot (flow_db (family Completed)) ''t1'') = [?c]"
    by (simp add: family_def ListByRoot_def rt created_before_def)
  have "keyed tID (dbTasks (flow_db (family Completed)))" "GetTask (flow_db (family Completed)) ''t1'' = Some (sample_task InProgress)"
    by (simp_all add: family_def GetTask_def)
  from root_follows_its_subtasks [OF this _ rt, of sample_env "''w''"] ch show ?thesis by simp
qed

end
