(* ===== verification/Capability_Store.thy ===== *)
theory Capability_Store
  imports Lab_Prelude
begin

text \<open>
  The capability registry: the data of \<^verbatim>\<open>src/internal/orchestratorgo/domain/capabilities.go\<close>, the
  interface \<^verbatim>\<open>RegistryStore\<close> through which the broker sees the registry
  (\<^verbatim>\<open>capabilitybroker/broker.go\<close>), and its implementation on two PostgreSQL tables
  (\<^verbatim>\<open>store/capabilities.go\<close>). The contract of the interface is the locale
  \<open>capability_registry\<close>, interpreted on the tables.

  The clock of the database (\<open>dbnow\<close>) and its collation (\<open>coll\<close>, the order of
  \<^verbatim>\<open>ORDER BY name\<close>) are arguments. A JSON column holds the value it was written from, with a nil
  map read back as the empty map, so a map is an \<^typ>\<open>any_map\<close> and nil is the empty one.
\<close>

section \<open>Data\<close>

record capability_definition =
  cdName :: string
  cdKind :: string
  cdBackendRef :: string
  cdInputSchema :: any_map
  cdOutputSchema :: any_map
  cdAuthorizedAgents :: "string list"
  cdCapabilityTags :: "string list"
  cdRiskClass :: string
  cdCostClass :: string
  cdLatencyClass :: string
  cdWorkspaceScopeRequired :: bool
  cdDefaultPolicy :: any_map
  cdEnabled :: bool
  cdVersion :: int
  cdCreatedAt :: instant
  cdUpdatedAt :: instant

record policy_override =
  coEnabled :: "bool option"
  coAutoUse :: "bool option"
  coApprovalRequired :: "bool option"
  coMaxInvocationsPerTask :: "int option"
  coTimeoutSeconds :: "int option"
  coPreferredAgents :: "string list"
  coDeniedAgents :: "string list"

record project_policy =
  cpRepositoryURL :: string
  cpMode :: string
  cpEnabledCapabilities :: "string list"
  cpDisabledCapabilities :: "string list"
  cpPolicyOverrides :: "string \<rightharpoonup> policy_override"
  cpUpdatedBy :: "string option"
  cpUpdatedAt :: instant

section \<open>The interface of the registry\<close>

text \<open>
  An interface value is a record of its methods. A method that writes returns the error, if any, and
  the new state, which an error does not roll back.
\<close>

record 's registry_store =
  rsEnsureDefaultCapabilityDefinitions :: "capability_definition list \<Rightarrow> 's \<Rightarrow> string option \<times> 's"
  rsListCapabilityDefinitions :: "'s \<Rightarrow> capability_definition list result"
  rsGetProjectCapabilityPolicy :: "string \<Rightarrow> 's \<Rightarrow> project_policy option result"

text \<open>
  What a definition looks like once stored: trimmed texts, a positive version; the times are the
  store's.
\<close>

definition stored_form :: "capability_definition \<Rightarrow> capability_definition" where
  "stored_form d = d\<lparr>cdName := TrimSpace (cdName d), cdKind := TrimSpace (cdKind d),
     cdBackendRef := TrimSpace (cdBackendRef d), cdRiskClass := TrimSpace (cdRiskClass d),
     cdCostClass := TrimSpace (cdCostClass d), cdLatencyClass := TrimSpace (cdLatencyClass d),
     cdVersion := (if cdVersion d \<le> 0 then 1 else cdVersion d),
     cdCreatedAt := 0, cdUpdatedAt := 0\<rparr>"

definition timeless :: "capability_definition \<Rightarrow> capability_definition" where
  "timeless d = d\<lparr>cdCreatedAt := 0, cdUpdatedAt := 0\<rparr>"

locale capability_registry =
  fixes st :: "'s registry_store"
    and listed :: "'s \<Rightarrow> capability_definition list"
    and policies :: "'s \<Rightarrow> string \<Rightarrow> project_policy option"
  assumes lists: "\<exists>ds. rsListCapabilityDefinitions st s = Inr ds \<and> mset ds = mset (listed s)"
    and policy_of: "rsGetProjectCapabilityPolicy st u s = Inr (policies s (TrimSpace u))"
    and ensures: "rsEnsureDefaultCapabilityDefinitions st ds s = (None, s') \<Longrightarrow>
      distinct (map (TrimSpace \<circ> cdName) ds) \<Longrightarrow> d \<in> set ds \<Longrightarrow>
      stored_form d \<in> timeless ` set (listed s')"
    and ensures_named: "(\<And>d. d \<in> set ds \<Longrightarrow> TrimSpace (cdName d) \<noteq> []) \<Longrightarrow>
      fst (rsEnsureDefaultCapabilityDefinitions st ds s) = None"
begin

lemma ensure_lists_all:
  assumes "\<And>d. d \<in> set ds \<Longrightarrow> TrimSpace (cdName d) \<noteq> []"
    and "distinct (map (TrimSpace \<circ> cdName) ds)"
  shows "\<exists>s'. rsEnsureDefaultCapabilityDefinitions st ds s = (None, s') \<and>
    (\<forall>d \<in> set ds. stored_form d \<in> timeless ` set (listed s'))"
proof -
  obtain s' where "rsEnsureDefaultCapabilityDefinitions st ds s = (None, s')"
    using ensures_named [of ds s, OF assms(1)] by (metis prod.collapse)
  with ensures [OF this assms(2)] show ?thesis by blast
qed

lemma list_set: "rsListCapabilityDefinitions st s = Inr ds \<Longrightarrow> set ds = set (listed s)"
  using lists [of s] by (metis mset_eq_setD sum.inject(2))

end

section \<open>The tables\<close>

record capability_db =
  cbDefinitions :: "capability_definition list"
  cbPolicies :: "project_policy list"

definition upsert_definition_row ::
  "instant \<Rightarrow> capability_definition \<Rightarrow> capability_definition list \<Rightarrow> capability_definition list" where
  "upsert_definition_row dbnow d rows =
     (if find_row cdName (cdName d) rows = None
      then rows @ [d\<lparr>cdCreatedAt := dbnow, cdUpdatedAt := dbnow\<rparr>]
      else upd_row cdName (cdName d) (\<lambda>r. d\<lparr>cdCreatedAt := cdCreatedAt r, cdUpdatedAt := dbnow\<rparr>) rows)"

definition GetCapabilityDefinition :: "string \<Rightarrow> capability_db \<Rightarrow> capability_definition option" where
  "GetCapabilityDefinition name s = find_row cdName (TrimSpace name) (cbDefinitions s)"

definition UpsertCapabilityDefinition ::
  "instant \<Rightarrow> capability_definition \<Rightarrow> capability_db \<Rightarrow> capability_definition option result \<times> capability_db"
where
  "UpsertCapabilityDefinition dbnow params s =
     (let name = TrimSpace (cdName params);
          version = (if cdVersion params \<le> 0 then 1 else cdVersion params)
      in if name = [] then (Inl ''capability name is required'', s)
      else let s' = s\<lparr>cbDefinitions := upsert_definition_row dbnow
                   (params\<lparr>cdName := name, cdKind := TrimSpace (cdKind params),
                      cdBackendRef := TrimSpace (cdBackendRef params),
                      cdRiskClass := TrimSpace (cdRiskClass params),
                      cdCostClass := TrimSpace (cdCostClass params),
                      cdLatencyClass := TrimSpace (cdLatencyClass params),
                      cdVersion := version\<rparr>) (cbDefinitions s)\<rparr>
           in (Inr (GetCapabilityDefinition name s'), s'))"

fun EnsureDefaultCapabilityDefinitions ::
  "instant \<Rightarrow> capability_definition list \<Rightarrow> capability_db \<Rightarrow> string option \<times> capability_db" where
  "EnsureDefaultCapabilityDefinitions dbnow [] s = (None, s)"
| "EnsureDefaultCapabilityDefinitions dbnow (item # items) s =
     (case UpsertCapabilityDefinition dbnow item s of
        (Inl e, s') \<Rightarrow> (Some e, s')
      | (Inr r, s') \<Rightarrow> EnsureDefaultCapabilityDefinitions dbnow items s')"

definition ListCapabilityDefinitions ::
  "(string \<Rightarrow> string \<Rightarrow> bool) \<Rightarrow> capability_db \<Rightarrow> capability_definition list" where
  "ListCapabilityDefinitions coll s = sort_by (\<lambda>a b. coll (cdName a) (cdName b)) (cbDefinitions s)"

definition GetProjectCapabilityPolicy :: "string \<Rightarrow> capability_db \<Rightarrow> project_policy option" where
  "GetProjectCapabilityPolicy repositoryURL s =
     find_row cpRepositoryURL (TrimSpace repositoryURL) (cbPolicies s)"

definition UpsertProjectCapabilityPolicy ::
  "instant \<Rightarrow> project_policy \<Rightarrow> capability_db \<Rightarrow> project_policy option result \<times> capability_db" where
  "UpsertProjectCapabilityPolicy dbnow params s =
     (let repositoryURL = TrimSpace (cpRepositoryURL params);
          mode = (if TrimSpace (cpMode params) = [] then ''discover_filter'' else TrimSpace (cpMode params));
          new_row = params\<lparr>cpRepositoryURL := repositoryURL, cpMode := mode, cpUpdatedAt := dbnow\<rparr>
      in if repositoryURL = [] then (Inl ''repository_url is required'', s)
      else let s' = s\<lparr>cbPolicies :=
                 (if find_row cpRepositoryURL repositoryURL (cbPolicies s) = None
                  then cbPolicies s @ [new_row]
                  else upd_row cpRepositoryURL repositoryURL (\<lambda>r. new_row) (cbPolicies s))\<rparr>
           in (Inr (GetProjectCapabilityPolicy repositoryURL s'), s'))"

text \<open>The tables as a \<^verbatim>\<open>RegistryStore\<close>.\<close>

definition postgres_registry ::
  "(string \<Rightarrow> string \<Rightarrow> bool) \<Rightarrow> instant \<Rightarrow> capability_db registry_store" where
  "postgres_registry coll dbnow =
     \<lparr>rsEnsureDefaultCapabilityDefinitions = EnsureDefaultCapabilityDefinitions dbnow,
      rsListCapabilityDefinitions = (\<lambda>s. Inr (ListCapabilityDefinitions coll s)),
      rsGetProjectCapabilityPolicy = (\<lambda>u s. Inr (GetProjectCapabilityPolicy u s))\<rparr>"

section \<open>Effect of an upsert\<close>

lemma find_upsert_same:
  "\<exists>q. find_row cdName (cdName d) (upsert_definition_row now d rows) = Some q \<and> timeless q = timeless d"
proof (cases "find_row cdName (cdName d) rows")
  case None
  then show ?thesis by (simp add: upsert_definition_row_def find_row_append timeless_def)
next
  case (Some r)
  then have "find_row cdName (cdName d) (upd_row cdName (cdName d) f rows) = Some (f r)"
    if "\<And>q. cdName (f q) = cdName d" for f
    by (induction rows) (auto simp: that split: if_splits)
  with Some show ?thesis by (simp add: upsert_definition_row_def timeless_def)
qed

lemma find_upsert_other:
  assumes "k \<noteq> cdName d"
  shows "find_row cdName k (upsert_definition_row now d rows) = find_row cdName k rows"
proof -
  have "find_row cdName k (upd_row cdName (cdName d) f rows) = find_row cdName k rows"
    if "\<And>q. cdName (f q) = cdName d" for f
    using assms by (induction rows) (auto simp: that)
  with assms show ?thesis by (auto simp: upsert_definition_row_def find_row_append split: option.splits)
qed

lemma upsert_keeps_keys:
  assumes "keyed cdName rows"
  shows "keyed cdName (upsert_definition_row now d rows)"
proof -
  have "map cdName (upd_row cdName (cdName d) f rows) = map cdName rows"
    if "\<And>q. cdName (f q) = cdName d" for f
    by (induction rows) (auto simp: that)
  with assms show ?thesis by (auto simp: upsert_definition_row_def find_row_None_iff)
qed

definition trimmed_row :: "capability_definition \<Rightarrow> capability_definition" where
  "trimmed_row d = d\<lparr>cdName := TrimSpace (cdName d), cdKind := TrimSpace (cdKind d),
     cdBackendRef := TrimSpace (cdBackendRef d), cdRiskClass := TrimSpace (cdRiskClass d),
     cdCostClass := TrimSpace (cdCostClass d), cdLatencyClass := TrimSpace (cdLatencyClass d),
     cdVersion := (if cdVersion d \<le> 0 then 1 else cdVersion d)\<rparr>"

lemma timeless_trimmed_row: "timeless (trimmed_row d) = stored_form d"
  by (simp add: timeless_def trimmed_row_def stored_form_def)

lemma Upsert_state:
  "snd (UpsertCapabilityDefinition now d s) =
     (if TrimSpace (cdName d) = [] then s
      else s\<lparr>cbDefinitions := upsert_definition_row now (trimmed_row d) (cbDefinitions s)\<rparr>)"
  and Upsert_error:
  "(\<exists>e. fst (UpsertCapabilityDefinition now d s) = Inl e) \<longleftrightarrow> TrimSpace (cdName d) = []"
  by (simp_all add: UpsertCapabilityDefinition_def trimmed_row_def Let_def)

lemma Ensure_named:
  assumes "\<And>d. d \<in> set ds \<Longrightarrow> TrimSpace (cdName d) \<noteq> []"
  shows "EnsureDefaultCapabilityDefinitions now ds s =
    (None, s\<lparr>cbDefinitions :=
       fold (\<lambda>d. upsert_definition_row now (trimmed_row d)) ds (cbDefinitions s)\<rparr>)"
  using assms
proof (induction ds arbitrary: s)
  case (Cons d ds)
  then have "\<exists>r. UpsertCapabilityDefinition now d s =
      (Inr r, s\<lparr>cbDefinitions := upsert_definition_row now (trimmed_row d) (cbDefinitions s)\<rparr>)"
    using Upsert_state [of now d s] Upsert_error [of now d s]
    by (cases "UpsertCapabilityDefinition now d s"; cases "fst (UpsertCapabilityDefinition now d s)") auto
  with Cons show ?case by auto
qed simp

lemma find_upserts_other:
  assumes "k \<notin> (TrimSpace \<circ> cdName) ` set ds"
  shows "find_row cdName k (fold (\<lambda>d. upsert_definition_row now (trimmed_row d)) ds rows) =
    find_row cdName k rows"
  using assms by (induction ds arbitrary: rows) (auto simp: find_upsert_other trimmed_row_def)

lemma find_upserts:
  assumes "distinct (map (TrimSpace \<circ> cdName) ds)" and "d \<in> set ds"
  shows "\<exists>q. find_row cdName (TrimSpace (cdName d))
      (fold (\<lambda>d. upsert_definition_row now (trimmed_row d)) ds rows) = Some q \<and> timeless q = stored_form d"
  using assms
proof (induction ds arbitrary: rows)
  case (Cons e ds)
  show ?case
  proof (cases "d = e")
    case True
    with Cons.prems(1) have "TrimSpace (cdName d) \<notin> (TrimSpace \<circ> cdName) ` set ds" by auto
    then show ?thesis
      using True find_upsert_same [of "trimmed_row e" now rows]
      by (auto simp: find_upserts_other timeless_trimmed_row) (simp add: trimmed_row_def)
  next
    case False
    with Cons show ?thesis by simp
  qed
qed simp

text \<open>An upsert that fails keeps what earlier upserts of the loop stored.\<close>

lemma Ensure_stops:
  assumes "EnsureDefaultCapabilityDefinitions now ds s = (r, s')"
  shows "r = None \<longleftrightarrow> (\<forall>d \<in> set ds. TrimSpace (cdName d) \<noteq> [])"
  using assms
proof (induction ds arbitrary: s)
  case (Cons d ds)
  then show ?case
    using Upsert_error [of now d s]
    by (cases "UpsertCapabilityDefinition now d s"; cases "fst (UpsertCapabilityDefinition now d s)") auto
qed simp

interpretation pg: capability_registry "postgres_registry coll dbnow" cbDefinitions
  "\<lambda>s u. find_row cpRepositoryURL u (cbPolicies s)" for coll dbnow
proof
  fix s s' :: capability_db and ds :: "capability_definition list" and u d
  show "\<exists>ds. rsListCapabilityDefinitions (postgres_registry coll dbnow) s = Inr ds \<and>
      mset ds = mset (cbDefinitions s)"
    by (simp add: postgres_registry_def ListCapabilityDefinitions_def)
  show "rsGetProjectCapabilityPolicy (postgres_registry coll dbnow) u s =
      Inr (find_row cpRepositoryURL (TrimSpace u) (cbPolicies s))"
    by (simp add: postgres_registry_def GetProjectCapabilityPolicy_def)
  show "fst (rsEnsureDefaultCapabilityDefinitions (postgres_registry coll dbnow) ds s) = None"
    if "\<And>d. d \<in> set ds \<Longrightarrow> TrimSpace (cdName d) \<noteq> []"
    using that by (simp add: postgres_registry_def Ensure_named)
  show "stored_form d \<in> timeless ` set (cbDefinitions s')"
    if e: "rsEnsureDefaultCapabilityDefinitions (postgres_registry coll dbnow) ds s = (None, s')"
      and "distinct (map (TrimSpace \<circ> cdName) ds)" and "d \<in> set ds"
  proof -
    have "\<forall>d \<in> set ds. TrimSpace (cdName d) \<noteq> []"
      using e Ensure_stops [of dbnow ds s None s'] by (simp add: postgres_registry_def)
    then have "cbDefinitions s' = fold (\<lambda>d. upsert_definition_row dbnow (trimmed_row d)) ds (cbDefinitions s)"
      using e by (auto simp: postgres_registry_def Ensure_named)
    with find_upserts [OF that(2,3)] show ?thesis by (metis find_row_SomeD imageI)
  qed
qed

end
