(* ===== verification/Capability_Broker.thy ===== *)
theory Capability_Broker
  imports Capability_Store
begin

text \<open>
  The capability broker (\<^verbatim>\<open>src/internal/orchestratorgo/capabilitybroker/broker.go\<close>): which capability
  an agent may use for a project, and its execution by a registered backend. The catalogue of
  default capabilities is a table; the broker ranks the capabilities that the registry, the agent's
  role and the project's policy allow. Scores are \<^verbatim>\<open>float64\<close> sums of integers below 100, which
  are exact, here integers.

  The broker is a value with the registry (an interface, possibly nil) and the backends (function
  values, possibly nil). Reads do not change the state; a backend may.
\<close>

section \<open>Data\<close>

record candidate =
  ccName :: string
  ccKind :: string
  ccBackendRef :: string
  ccCapabilityTags :: "string list"
  ccRiskClass :: string
  ccCostClass :: string
  ccLatencyClass :: string
  ccScore :: int
  ccDefinition :: capability_definition
  ccOverride :: "policy_override option"

record execute_request =
  erTaskID :: "string option"
  erAgentType :: string
  erRepositoryURL :: string
  erIntent :: string
  erCapability :: string
  erInput :: any_map

type_synonym ('s, 'r) backend = "execute_request \<Rightarrow> 's \<Rightarrow> 'r result \<times> 's"

record ('s, 'r) broker =
  bStore :: "'s registry_store option"
  bBackends :: "string \<Rightarrow> ('s, 'r) backend option"

definition ErrCapabilityNotAllowed :: string where
  "ErrCapabilityNotAllowed = ''capability not allowed''"

section \<open>The default catalogue\<close>

definition capability :: "string \<Rightarrow> string \<Rightarrow> string \<Rightarrow> string list \<Rightarrow> string list \<Rightarrow>
    string \<Rightarrow> string \<Rightarrow> string \<Rightarrow> bool \<Rightarrow> any_map \<Rightarrow> capability_definition" where
  "capability name kind backend agents tags risk cost latency scope policy =
     \<lparr>cdName = name, cdKind = kind, cdBackendRef = backend, cdInputSchema = Map.empty,
      cdOutputSchema = Map.empty, cdAuthorizedAgents = agents, cdCapabilityTags = tags,
      cdRiskClass = risk, cdCostClass = cost, cdLatencyClass = latency,
      cdWorkspaceScopeRequired = scope, cdDefaultPolicy = policy, cdEnabled = True, cdVersion = 1,
      cdCreatedAt = 0, cdUpdatedAt = 0\<rparr>"

definition evidence_capabilities :: "capability_definition list" where
  "evidence_capabilities =
     [capability ''web.search'' ''internal'' ''web.search''
        [''planner'', ''researcher'']
        [''evidence'', ''search'', ''docs'']
        ''read_only'' ''low'' ''medium'' False ([''auto_use'' \<mapsto> ABool False]),
      capability ''web.fetch'' ''internal'' ''web.fetch''
        [''planner'', ''researcher'', ''reviewer'']
        [''evidence'', ''fetch'', ''docs'']
        ''read_only'' ''low'' ''medium'' False ([''auto_use'' \<mapsto> ABool False]),
      capability ''document.read'' ''sidecar'' ''document.read''
        [''researcher'', ''reviewer'']
        [''evidence'', ''docs'', ''documents'']
        ''read_only'' ''medium'' ''medium'' False Map.empty,
      capability ''image.analyze'' ''sidecar'' ''image.analyze''
        [''researcher'', ''reviewer'']
        [''evidence'', ''images'']
        ''read_only'' ''medium'' ''medium'' False Map.empty,
      capability ''code.analysis'' ''internal'' ''code.analysis''
        [''reviewer'']
        [''review'', ''static-analysis'', ''code-quality'', ''validation'']
        ''read_only'' ''medium'' ''medium'' False Map.empty]"

definition workspace_capabilities :: "capability_definition list" where
  "workspace_capabilities =
     [capability ''shell.exec'' ''internal'' ''shell.exec''
        [''coder'', ''infra'']
        [''shell'', ''execute'', ''workspace'', ''validation'']
        ''workspace_execute'' ''low'' ''medium'' True ([''approval_required'' \<mapsto> ABool True]),
      capability ''git.status'' ''internal'' ''git.status''
        [''coder'', ''reviewer'', ''infra'']
        [''git'', ''status'', ''workspace'', ''review'']
        ''read_only'' ''low'' ''low'' True Map.empty,
      capability ''git.diff'' ''internal'' ''git.diff''
        [''coder'', ''reviewer'', ''infra'']
        [''git'', ''diff'', ''workspace'', ''review'', ''validation'']
        ''read_only'' ''low'' ''low'' True Map.empty,
      capability ''git.log'' ''internal'' ''git.log''
        [''coder'', ''reviewer'', ''infra'']
        [''git'', ''history'', ''workspace'', ''review'']
        ''read_only'' ''low'' ''low'' True Map.empty,
      capability ''git.branch'' ''internal'' ''git.branch''
        [''coder'', ''infra'']
        [''git'', ''branch'', ''workspace'']
        ''workspace_write'' ''low'' ''low'' True ([''approval_required'' \<mapsto> ABool True])]"

definition docker_capabilities :: "capability_definition list" where
  "docker_capabilities =
     [capability ''docker.compose_up'' ''internal'' ''docker.compose_up''
        [''coder'', ''infra'']
        [''docker'', ''compose'', ''service'', ''validation'']
        ''workspace_execute'' ''medium'' ''high'' True ([''approval_required'' \<mapsto> ABool True]),
      capability ''docker.compose_down'' ''internal'' ''docker.compose_down''
        [''coder'', ''infra'']
        [''docker'', ''compose'', ''service'']
        ''workspace_execute'' ''medium'' ''medium'' True ([''approval_required'' \<mapsto> ABool True]),
      capability ''docker.logs'' ''internal'' ''docker.logs''
        [''coder'', ''reviewer'', ''infra'']
        [''docker'', ''logs'', ''service'', ''validation'']
        ''read_only'' ''medium'' ''medium'' True Map.empty,
      capability ''docker.ps'' ''internal'' ''docker.ps''
        [''coder'', ''reviewer'', ''infra'']
        [''docker'', ''service'', ''status'', ''validation'']
        ''read_only'' ''low'' ''low'' True Map.empty,
      capability ''docker.build'' ''internal'' ''docker.build''
        [''coder'', ''infra'']
        [''docker'', ''build'', ''service'']
        ''workspace_execute'' ''high'' ''high'' True ([''approval_required'' \<mapsto> ABool True]),
      capability ''docker.run'' ''internal'' ''docker.run''
        [''coder'', ''infra'']
        [''docker'', ''run'', ''service'']
        ''workspace_execute'' ''high'' ''high'' True ([''approval_required'' \<mapsto> ABool True])]"

definition service_capabilities :: "capability_definition list" where
  "service_capabilities =
     [capability ''http.check'' ''internal'' ''http.check''
        [''coder'', ''reviewer'', ''researcher'']
        [''http'', ''validation'', ''service'', ''evidence'']
        ''read_only'' ''low'' ''medium'' False Map.empty,
      capability ''browser.verify'' ''internal'' ''browser.verify''
        [''reviewer'', ''researcher'']
        [''browser'', ''validation'', ''service'', ''evidence'']
        ''read_only'' ''medium'' ''high'' False Map.empty,
      capability ''github.read'' ''mcp_wrapper'' ''github.read''
        [''researcher'', ''reviewer'']
        [''github'', ''repo-hosting'', ''issues'', ''prs'', ''evidence'']
        ''read_only'' ''medium'' ''medium'' False Map.empty,
      capability ''jira.read'' ''mcp_wrapper'' ''jira.read''
        [''researcher'', ''reviewer'']
        [''jira'', ''issue-tracker'', ''tickets'', ''evidence'']
        ''read_only'' ''medium'' ''medium'' False Map.empty,
      capability ''slack.read'' ''mcp_wrapper'' ''slack.read''
        [''researcher'', ''reviewer'']
        [''slack'', ''chatops'', ''context'', ''evidence'']
        ''read_only'' ''medium'' ''medium'' False Map.empty,
      capability ''slack.notify'' ''mcp_wrapper'' ''slack.notify''
        [''reviewer'', ''infra'']
        [''slack'', ''chatops'', ''notify'']
        ''external_write'' ''low'' ''medium'' False ([''approval_required'' \<mapsto> ABool True])]"

definition filesystem_capabilities :: "capability_definition list" where
  "filesystem_capabilities =
     [capability ''filesystem.read'' ''internal'' ''filesystem.read''
        [''coder'', ''reviewer'', ''infra'']
        [''filesystem'', ''read'', ''workspace'']
        ''read_only'' ''low'' ''low'' True Map.empty,
      capability ''filesystem.list'' ''internal'' ''filesystem.list''
        [''coder'', ''reviewer'', ''infra'']
        [''filesystem'', ''read'', ''workspace'']
        ''read_only'' ''low'' ''low'' True Map.empty,
      capability ''filesystem.write'' ''internal'' ''filesystem.write''
        [''coder'', ''infra'']
        [''filesystem'', ''write'', ''workspace'']
        ''workspace_write'' ''low'' ''low'' True ([''approval_required'' \<mapsto> ABool True]),
      capability ''research.query'' ''internal'' ''research.query''
        [''planner'', ''researcher'']
        [''research'', ''evidence'', ''synthesis'']
        ''read_only'' ''medium'' ''high'' False Map.empty]"

definition DefaultDefinitions :: "capability_definition list" where
  "DefaultDefinitions = evidence_capabilities @ workspace_capabilities @ docker_capabilities @
     service_capabilities @ filesystem_capabilities"

section \<open>Rules\<close>

definition normalizeCapabilityAlias :: "string \<Rightarrow> string" where
  "normalizeCapabilityAlias value =
     (if TrimSpace value = ''write_file'' then ''filesystem.write''
      else if TrimSpace value = ''read_file'' then ''filesystem.read''
      else if TrimSpace value = ''list_files'' then ''filesystem.list''
      else TrimSpace value)"

definition containsString :: "string list \<Rightarrow> string \<Rightarrow> bool" where
  "containsString items target = list_ex (\<lambda>item. TrimSpace item = TrimSpace target) items"

definition containsAnyTag :: "string list \<Rightarrow> string list \<Rightarrow> bool" where
  "containsAnyTag items targets = list_ex (containsString items) targets"

definition defaultPolicyAllows :: "capability_definition \<Rightarrow> string \<Rightarrow> bool" where
  "defaultPolicyAllows d agentType =
     (let agent = TrimSpace agentType; name = cdName d; tags = cdCapabilityTags d
      in if agent = ''coder'' then
           name = ''filesystem.write'' \<or> name = ''shell.exec'' \<or> HasPrefix name ''git.'' \<or>
           HasPrefix name ''docker.'' \<or> name = ''http.check''
         else if agent = ''researcher'' then
           cdRiskClass d = ''read_only'' \<and>
           (containsAnyTag tags [''evidence'', ''docs'', ''search'', ''research'', ''browser'', ''http'',
              ''github'', ''jira'', ''slack''] \<or> HasPrefix name ''web.'')
         else if agent = ''reviewer'' then
           (cdRiskClass d = ''read_only'' \<or> name = ''slack.notify'') \<and>
           containsAnyTag tags [''review'', ''validation'', ''docs'', ''evidence'', ''static-analysis'',
             ''code-quality'', ''github'', ''jira'', ''slack'', ''browser'', ''http'', ''git'']
         else if agent = ''planner'' then
           cdRiskClass d = ''read_only'' \<and> containsAnyTag tags [''evidence'', ''docs'', ''research'', ''search'']
         else True)"

definition policyOverride :: "project_policy option \<Rightarrow> string \<Rightarrow> policy_override option" where
  "policyOverride policy name =
     (case policy of None \<Rightarrow> None | Some p \<Rightarrow> cpPolicyOverrides p name)"

definition denied_by_override :: "policy_override \<Rightarrow> string \<Rightarrow> bool" where
  "denied_by_override override agentType =
     (coEnabled override = Some False \<or> containsString (coDeniedAgents override) agentType \<or>
      (coPreferredAgents override \<noteq> [] \<and> \<not> containsString (coPreferredAgents override) agentType))"

definition isDeniedByProjectPolicy ::
  "project_policy option \<Rightarrow> string \<Rightarrow> string \<Rightarrow> policy_override option \<Rightarrow> bool" where
  "isDeniedByProjectPolicy policy name agentType override =
     (if (case override of None \<Rightarrow> False | Some o' \<Rightarrow> denied_by_override o' agentType) then True
      else (case policy of
         None \<Rightarrow> False
       | Some p \<Rightarrow>
           containsString (cpDisabledCapabilities p) name \<or>
           (cpEnabledCapabilities p \<noteq> [] \<and> \<not> containsString (cpEnabledCapabilities p) name)))"

definition classPenalty :: "string \<Rightarrow> int" where
  "classPenalty value =
     (if TrimSpace value = ''high'' then 4 else if TrimSpace value = ''medium'' then 2 else 0)"

text \<open>The tags an intent looks for, and what a match is worth.\<close>

definition intent_tags :: "string \<Rightarrow> string list \<times> int" where
  "intent_tags intent =
     (if intent = ''needs_external_evidence'' then ([''evidence'', ''docs'', ''search'', ''research''], 20)
      else if intent = ''needs_repo_static_analysis''
        then ([''review'', ''static-analysis'', ''code-quality'', ''validation''], 20)
      else if intent = ''needs_workspace_write'' then ([''filesystem'', ''write''], 20)
      else if intent = ''needs_workspace_execution'' then ([''shell'', ''execute''], 25)
      else if intent = ''needs_git_context'' then ([''git'', ''review''], 20)
      else if intent = ''needs_service_validation'' then ([''http'', ''browser'', ''service''], 24)
      else if intent = ''needs_browser_validation'' then ([''browser'', ''validation''], 24)
      else if intent = ''needs_repo_hosting_context''
        then ([''github'', ''repo-hosting'', ''prs'', ''issues''], 22)
      else if intent = ''needs_issue_tracker_context'' then ([''jira'', ''issue-tracker'', ''tickets''], 22)
      else if intent = ''needs_chatops_context''
        then ([''slack'', ''chatops'', ''notify'', ''context''], 22)
      else if intent = ''needs_docs_lookup'' then ([''docs'', ''fetch'', ''search''], 20)
      else if intent = ''needs_ci_signal'' then ([''evidence'', ''review''], 10)
      else ([], 0))"

definition scoreCandidate ::
  "capability_definition \<Rightarrow> string \<Rightarrow> string \<Rightarrow> string list \<Rightarrow> policy_override option \<Rightarrow> int" where
  "scoreCandidate d agentType intent preferredTags override =
     10
     + (if containsAnyTag (cdCapabilityTags d) preferredTags then 25 else 0)
     + (case intent_tags (TrimSpace intent) of (tags, worth) \<Rightarrow>
          if containsAnyTag (cdCapabilityTags d) tags then worth else 0)
     + (if cdRiskClass d = ''read_only'' then 5 else 0)
     - classPenalty (cdCostClass d)
     - classPenalty (cdLatencyClass d)
     + (case override of None \<Rightarrow> 0 | Some o' \<Rightarrow> if coAutoUse o' = Some True then 5 else 0)
     + (if agentType = ''reviewer'' \<and> cdName d = ''code.analysis'' then 15 else 0)
     + (if agentType = ''coder'' \<and> cdName d = ''filesystem.write'' then 15 else 0)"

definition evaluateCandidate ::
  "capability_definition \<Rightarrow> project_policy option \<Rightarrow> string \<Rightarrow> string \<Rightarrow> string list \<Rightarrow> candidate option"
where
  "evaluateCandidate d0 policy agentType intent preferredTags =
     (let d = d0\<lparr>cdName := normalizeCapabilityAlias (cdName d0)\<rparr>
      in if \<not> cdEnabled d then None
      else if TrimSpace agentType \<noteq> [] \<and> \<not> containsString (cdAuthorizedAgents d) agentType then None
      else if TrimSpace agentType \<noteq> [] \<and> \<not> defaultPolicyAllows d agentType then None
      else
        let override = policyOverride policy (cdName d)
        in if isDeniedByProjectPolicy policy (cdName d) agentType override then None
        else Some
          \<lparr>ccName = cdName d, ccKind = cdKind d, ccBackendRef = cdBackendRef d,
           ccCapabilityTags = cdCapabilityTags d, ccRiskClass = cdRiskClass d,
           ccCostClass = cdCostClass d, ccLatencyClass = cdLatencyClass d,
           ccScore = scoreCandidate d agentType intent preferredTags override,
           ccDefinition = d, ccOverride = override\<rparr>)"

section \<open>Operations\<close>

definition RegisterBackend ::
  "string \<Rightarrow> ('s, 'r) backend option \<Rightarrow> ('s, 'r) broker \<Rightarrow> ('s, 'r) broker" where
  "RegisterBackend name backend b =
     (case backend of
        None \<Rightarrow> b
      | Some f \<Rightarrow> b\<lparr>bBackends := (bBackends b)(TrimSpace name := Some f)\<rparr>)"

text \<open>The backends of the options come as the list of entries in the order the map is traversed.\<close>

definition New ::
  "'s registry_store option \<Rightarrow> (string \<times> ('s, 'r) backend option) list \<Rightarrow> ('s, 'r) broker" where
  "New st backends =
     \<lparr>bStore = st,
      bBackends = fold (\<lambda>(key, value) m. m(TrimSpace key := value)) backends (\<lambda>_. None)\<rparr>"

definition EnsureDefaults :: "('s, 'r) broker \<Rightarrow> 's \<Rightarrow> string option \<times> 's" where
  "EnsureDefaults b s =
     (case bStore b of
        None \<Rightarrow> (None, s)
      | Some st \<Rightarrow> rsEnsureDefaultCapabilityDefinitions st DefaultDefinitions s)"

definition ListDefinitions :: "('s, 'r) broker \<Rightarrow> 's \<Rightarrow> capability_definition list result" where
  "ListDefinitions b s =
     (case bStore b of
        None \<Rightarrow> Inr DefaultDefinitions
      | Some st \<Rightarrow>
          (case rsListCapabilityDefinitions st s of
             Inl e \<Rightarrow> Inl e
           | Inr items \<Rightarrow> if items = [] then Inr DefaultDefinitions else Inr items))"

definition projectPolicy :: "('s, 'r) broker \<Rightarrow> 's \<Rightarrow> string \<Rightarrow> project_policy option result" where
  "projectPolicy b s projectURL =
     (if TrimSpace projectURL = [] then Inr None
      else case bStore b of
        None \<Rightarrow> Inr None
      | Some st \<Rightarrow> rsGetProjectCapabilityPolicy st (TrimSpace projectURL) s)"

definition ranks_before :: "candidate \<Rightarrow> candidate \<Rightarrow> bool" where
  "ranks_before a b =
     (if ccScore a = ccScore b then str_less (ccName a) (ccName b) else ccScore b < ccScore a)"

definition ListAvailable ::
  "('s, 'r) broker \<Rightarrow> 's \<Rightarrow> string \<Rightarrow> string \<Rightarrow> string \<Rightarrow> string list \<Rightarrow>
     (candidate list \<times> project_policy option) result" where
  "ListAvailable b s projectURL agentType intent preferredTags =
     (case ListDefinitions b s of
        Inl e \<Rightarrow> Inl e
      | Inr definitions \<Rightarrow>
          (case projectPolicy b s projectURL of
             Inl e \<Rightarrow> Inl e
           | Inr policy \<Rightarrow>
               Inr (sort_by ranks_before
                      (List.map_filter (\<lambda>d. evaluateCandidate d policy agentType intent preferredTags)
                         definitions), policy)))"

text \<open>A failed resolution still returns the policy, when it was read.\<close>

definition Resolve ::
  "('s, 'r) broker \<Rightarrow> 's \<Rightarrow> string \<Rightarrow> string \<Rightarrow> string \<Rightarrow> string list \<Rightarrow> string \<Rightarrow>
     candidate result \<times> project_policy option" where
  "Resolve b s projectURL agentType intent preferredTags explicit0 =
     (case ListAvailable b s projectURL agentType intent preferredTags of
        Inl e \<Rightarrow> (Inl e, None)
      | Inr (items, policy) \<Rightarrow>
          (let explicit = normalizeCapabilityAlias explicit0
           in if explicit \<noteq> [] then
                (case find (\<lambda>item. ccName item = explicit) items of
                   Some item \<Rightarrow> (Inr item, policy)
                 | None \<Rightarrow> (Inl (ErrCapabilityNotAllowed @ '': '' @ explicit), policy))
              else
                (case items of
                   [] \<Rightarrow> (Inl (ErrCapabilityNotAllowed @ '': no capability matched''), policy)
                 | item # _ \<Rightarrow> (Inr item, policy))))"

definition Execute ::
  "('s, 'r) broker \<Rightarrow> execute_request \<Rightarrow> string list \<Rightarrow> 's \<Rightarrow>
     ((candidate \<times> 'r) result \<times> project_policy option) \<times> 's" where
  "Execute b req preferredTags s =
     (case Resolve b s (erRepositoryURL req) (erAgentType req) (erIntent req) preferredTags
             (erCapability req) of
        (Inl e, policy) \<Rightarrow> ((Inl e, policy), s)
      | (Inr c, policy) \<Rightarrow>
          (let backend = (case bBackends b (ccName c) of
                            None \<Rightarrow> bBackends b (cdBackendRef (ccDefinition c))
                          | Some f \<Rightarrow> Some f)
           in case backend of
                None \<Rightarrow> ((Inl (''no backend registered for capability '' @ ccName c), policy), s)
              | Some f \<Rightarrow>
                  (case f (req\<lparr>erCapability := ccName c\<rparr>) s of
                     (Inl e, s') \<Rightarrow> ((Inl e, policy), s')
                   | (Inr r, s') \<Rightarrow> ((Inr (c, r), policy), s'))))"

section \<open>The wiring of the orchestrator\<close>

text \<open>
  At startup (\<^verbatim>\<open>src/internal/orchestratorgo/app/app.go\<close>) every name of this list gets the
  server's executor as its backend.
\<close>

definition backend_names :: "string list" where
  "backend_names =
     [''web.search'', ''web.fetch'', ''document.read'', ''image.analyze'', ''code.analysis'', ''shell.exec'',
      ''git.status'', ''git.diff'', ''git.log'', ''git.branch'', ''docker.compose_up'',
      ''docker.compose_down'', ''docker.logs'', ''docker.ps'', ''docker.build'', ''docker.run'',
      ''http.check'', ''browser.verify'', ''github.read'', ''jira.read'', ''slack.read'', ''slack.notify'',
      ''filesystem.read'', ''filesystem.list'', ''filesystem.write'', ''research.query'']"

definition app_broker :: "'s registry_store \<Rightarrow> ('s, 'r) backend \<Rightarrow> ('s, 'r) broker" where
  "app_broker postgres exec =
     fold (\<lambda>name. RegisterBackend name (Some exec)) backend_names (New (Some postgres) [])"

section \<open>What the rules allow\<close>

lemma containsString_iff: "containsString items target \<longleftrightarrow> TrimSpace target \<in> TrimSpace ` set items"
  unfolding containsString_def list_ex_iff by (metis (no_types, lifting) image_iff)

text \<open>The right of an agent to a capability in a project, as a specification.\<close>

definition may_use :: "project_policy option \<Rightarrow> string \<Rightarrow> capability_definition \<Rightarrow> bool" where
  "may_use policy agent d \<longleftrightarrow>
     cdEnabled d \<and>
     (TrimSpace agent = [] \<or>
        TrimSpace agent \<in> TrimSpace ` set (cdAuthorizedAgents d) \<and> defaultPolicyAllows d agent) \<and>
     (\<forall>p. policy = Some p \<longrightarrow>
        TrimSpace (cdName d) \<notin> TrimSpace ` set (cpDisabledCapabilities p) \<and>
        (cpEnabledCapabilities p = [] \<or>
           TrimSpace (cdName d) \<in> TrimSpace ` set (cpEnabledCapabilities p)) \<and>
        (\<forall>v. cpPolicyOverrides p (cdName d) = Some v \<longrightarrow>
           coEnabled v \<noteq> Some False \<and> TrimSpace agent \<notin> TrimSpace ` set (coDeniedAgents v) \<and>
           (coPreferredAgents v = [] \<or> TrimSpace agent \<in> TrimSpace ` set (coPreferredAgents v))))"

abbreviation canonical :: "capability_definition \<Rightarrow> capability_definition" where
  "canonical d \<equiv> d\<lparr>cdName := normalizeCapabilityAlias (cdName d)\<rparr>"

lemma evaluate_may_use:
  "evaluateCandidate d policy agent intent tags \<noteq> None \<longleftrightarrow> may_use policy agent (canonical d)"
  by (cases policy)
     (auto simp: evaluateCandidate_def may_use_def Let_def containsString_iff policyOverride_def
        isDeniedByProjectPolicy_def denied_by_override_def split: option.splits if_splits)

lemma evaluate_fields:
  assumes "evaluateCandidate d policy agent intent tags = Some c"
  shows "ccDefinition c = canonical d" "ccName c = cdName (canonical d)" "ccRiskClass c = cdRiskClass d"
    "ccScore c = scoreCandidate (canonical d) agent intent tags (ccOverride c)"
    "ccOverride c = policyOverride policy (ccName c)"
  using assms by (auto simp: evaluateCandidate_def Let_def split: if_splits)

lemma ranked:
  "sorted_wrt (\<lambda>a b. ccScore b < ccScore a \<or> (ccScore b = ccScore a \<and> \<not> str_less (ccName b) (ccName a)))
     (sort_by ranks_before cs)"
proof -
  have "sorted_wrt (\<lambda>a b. \<not> ranks_before b a) (sort_by ranks_before cs)"
    by (rule sorted_sort_by)
       (auto simp: ranks_before_def split: if_splits dest: str_less_trans
          intro: str_less_trans, (metis str_less_total str_less_trans str_less_irrefl)+)
  then show ?thesis
    by (rule sorted_wrt_mono_rel [rotated]) (auto simp: ranks_before_def split: if_splits)
qed

lemma candidates_of:
  "mset (map ccDefinition (List.map_filter (\<lambda>d. evaluateCandidate d policy agent intent tags) ds)) =
   mset (map canonical (filter (may_use policy agent \<circ> canonical) ds))"
proof (induction ds)
  case (Cons d ds)
  then show ?case
    using evaluate_may_use [of d policy agent intent tags] evaluate_fields(1) [of d policy agent intent tags]
    by (cases "evaluateCandidate d policy agent intent tags") (auto simp: map_filter_simps)
qed (simp add: map_filter_simps)

lemma ListAvailable_cases:
  assumes "ListAvailable b s url agent intent tags = Inr (cs, policy)"
  obtains ds where "ListDefinitions b s = Inr ds" and "projectPolicy b s url = Inr policy"
    and "cs = sort_by ranks_before
           (List.map_filter (\<lambda>d. evaluateCandidate d policy agent intent tags) ds)"
  using assms by (auto simp: ListAvailable_def split: sum.splits)

lemma available_from:
  assumes "ListAvailable b s url agent intent tags = Inr (cs, policy)" and "c \<in> set cs"
  obtains d ds where "ListDefinitions b s = Inr ds" and "d \<in> set ds"
    and "evaluateCandidate d policy agent intent tags = Some c" and "may_use policy agent (canonical d)"
  using assms(1)
proof (rule ListAvailable_cases)
  fix ds assume ds: "ListDefinitions b s = Inr ds"
    and "cs = sort_by ranks_before
           (List.map_filter (\<lambda>d. evaluateCandidate d policy agent intent tags) ds)"
  with assms(2) obtain d where "d \<in> set ds" "evaluateCandidate d policy agent intent tags = Some c"
    by (auto simp: List.map_filter_def)
  with ds that evaluate_may_use [of d policy agent intent tags] show thesis by simp
qed

text \<open>
  C10: The broker lists a capability for an agent exactly when its definition is enabled, the agent's
  role and the definition authorise it and the project's policy does not deny it, each such definition
  once, ordered by decreasing score and by name among equal scores.
\<close>

theorem available_is_what_the_rules_allow:
  assumes "ListAvailable b s url agent intent tags = Inr (cs, policy)"
    and "ListDefinitions b s = Inr ds"
  shows "mset (map ccDefinition cs) = mset (map canonical (filter (may_use policy agent \<circ> canonical) ds)) \<and>
    sorted_wrt (\<lambda>a b. ccScore b < ccScore a \<or>
      (ccScore b = ccScore a \<and> \<not> str_less (ccName b) (ccName a))) cs"
  using assms(1)
proof (rule ListAvailable_cases)
  fix ds' assume "ListDefinitions b s = Inr ds'" and cs: "cs = sort_by ranks_before
           (List.map_filter (\<lambda>d. evaluateCandidate d policy agent intent tags) ds')"
  with assms(2) have "ds' = ds" by simp
  then show ?thesis using ranked candidates_of [of policy agent intent tags ds] by (simp add: cs)
qed

section \<open>The catalogue\<close>

lemmas catalogue_defs = DefaultDefinitions_def evidence_capabilities_def workspace_capabilities_def
  docker_capabilities_def service_capabilities_def filesystem_capabilities_def capability_def

lemmas solid_eval = TrimSpace_solid solid_def visible_def

lemma default_names: "map cdName DefaultDefinitions = backend_names"
  by (simp add: catalogue_defs backend_names_def)

lemma default_names_solid: "list_all solid backend_names"
  by (simp add: backend_names_def solid_def visible_def)

lemma default_names_trim: "name \<in> set backend_names \<Longrightarrow> TrimSpace name = name"
  using default_names_solid by (auto simp: list_all_iff intro: TrimSpace_solid)

lemma default_name_in: "d \<in> set DefaultDefinitions \<Longrightarrow> cdName d \<in> set backend_names"
  using default_names by (metis imageI list.set_map)

lemma default_canonical:
  assumes "name \<in> set backend_names" shows "normalizeCapabilityAlias name = name"
proof -
  have "name \<noteq> ''write_file'' \<and> name \<noteq> ''read_file'' \<and> name \<noteq> ''list_files''"
    using assms by (auto simp: backend_names_def)
  with default_names_trim [OF assms] show ?thesis by (simp add: normalizeCapabilityAlias_def)
qed

lemma default_stored: "list_all (\<lambda>d. stored_form d = d) DefaultDefinitions"
  by (simp add: catalogue_defs stored_form_def solid_eval)

lemma defaults_distinct: "distinct (map (TrimSpace \<circ> cdName) DefaultDefinitions)"
proof -
  have "map (TrimSpace \<circ> cdName) DefaultDefinitions = map cdName DefaultDefinitions"
    using default_name_in default_names_trim by simp
  then show ?thesis by (simp add: default_names) (simp add: backend_names_def)
qed

lemma defaults_named: "d \<in> set DefaultDefinitions \<Longrightarrow> TrimSpace (cdName d) \<noteq> []"
  using default_name_in default_names_trim default_names_solid by (fastforce simp: list_all_iff solid_def)

section \<open>A broker over a registry\<close>

context capability_registry
begin

lemma definitions_listed:
  assumes "bStore b = Some st"
  shows "\<exists>ds. ListDefinitions b s = Inr ds \<and>
    set ds = (if listed s = [] then set DefaultDefinitions else set (listed s))"
proof -
  obtain ds where ds: "rsListCapabilityDefinitions st s = Inr ds" "mset ds = mset (listed s)"
    using lists [of s] by blast
  have same: "set ds = set (listed s)" using ds(2) by (rule mset_eq_setD)
  show ?thesis
  proof (cases "ds = []")
    case True
    with same ds(1) assms show ?thesis by (simp add: ListDefinitions_def)
  next
    case False
    with same have "listed s \<noteq> []" by auto
    with False same ds(1) assms show ?thesis by (simp add: ListDefinitions_def)
  qed
qed

lemma resolves_or_refuses:
  assumes "bStore b = Some st" and "Resolve b s url agent intent tags e = (Inl m, p)"
  shows "HasPrefix m ErrCapabilityNotAllowed"
  using definitions_listed [OF assms(1), of s] assms
  by (auto simp: Resolve_def ListAvailable_def projectPolicy_def policy_of Let_def
      split: option.splits if_splits list.splits)

lemma startup_lists_the_defaults:
  assumes "bStore b = Some st"
  shows "\<exists>s'. EnsureDefaults b s = (None, s') \<and> set DefaultDefinitions \<subseteq> timeless ` set (listed s')"
proof -
  obtain s' where s': "rsEnsureDefaultCapabilityDefinitions st DefaultDefinitions s = (None, s')"
    and "\<forall>d \<in> set DefaultDefinitions. stored_form d \<in> timeless ` set (listed s')"
    using ensure_lists_all [OF defaults_named defaults_distinct] by blast
  then have "set DefaultDefinitions \<subseteq> timeless ` set (listed s')"
    using default_stored by (fastforce simp: list_all_iff)
  with s' assms show ?thesis by (simp add: EnsureDefaults_def)
qed

end

lemma registered_backends:
  "bBackends (fold (\<lambda>name. RegisterBackend name (Some exec)) names b) name =
     (if name \<in> TrimSpace ` set names then Some exec else bBackends b name)"
  by (induction names arbitrary: b) (auto simp: RegisterBackend_def)

lemma registered_store:
  "bStore (fold (\<lambda>name. RegisterBackend name (Some exec)) names b) = bStore b"
  by (induction names arbitrary: b) (auto simp: RegisterBackend_def)

lemma app_broker_store [simp]: "bStore (app_broker st exec) = Some st"
  by (simp add: app_broker_def registered_store New_def)

lemma app_broker_backends:
  "bBackends (app_broker st exec) name = (if name \<in> set backend_names then Some exec else None)"
proof -
  have "TrimSpace ` set backend_names = set backend_names"
    using default_names_trim by (simp add: image_def)
  then show ?thesis by (simp add: app_broker_def registered_backends New_def)
qed

section \<open>Resolution\<close>

lemma Resolve_cases:
  assumes "Resolve b s url agent intent tags e = (Inr c, policy)"
  obtains cs where "ListAvailable b s url agent intent tags = Inr (cs, policy)" and "c \<in> set cs"
  using assms by (auto simp: Resolve_def Let_def find_Some_iff split: sum.splits if_splits option.splits list.splits)

lemma resolved_from:
  assumes "Resolve b s url agent intent tags e = (Inr c, policy)"
  obtains d ds where "ListDefinitions b s = Inr ds" and "d \<in> set ds"
    and "evaluateCandidate d policy agent intent tags = Some c" and "may_use policy agent (canonical d)"
  using assms by (elim Resolve_cases available_from)

text \<open>
  A resolution returns a listed capability or refuses. An explicit name, aliases resolved, gets
  exactly that capability; without one the answer is a listed capability of the highest score; it is
  refused as not allowed exactly when there is none.
\<close>

theorem resolve_answers_from_the_list:
  assumes "ListAvailable b s url agent intent tags = Inr (cs, policy)"
  shows "(\<exists>c. Resolve b s url agent intent tags e = (Inr c, policy) \<and> c \<in> set cs \<and>
      (if normalizeCapabilityAlias e = [] then \<forall>c' \<in> set cs. ccScore c' \<le> ccScore c
       else ccName c = normalizeCapabilityAlias e)) \<or>
    (\<exists>m. Resolve b s url agent intent tags e = (Inl m, policy) \<and> HasPrefix m ErrCapabilityNotAllowed \<and>
      (if normalizeCapabilityAlias e = [] then cs = [] else normalizeCapabilityAlias e \<notin> ccName ` set cs))"
proof (cases "normalizeCapabilityAlias e = []")
  case True
  show ?thesis
  proof (cases cs)
    case Nil
    with True assms show ?thesis by (simp add: Resolve_def)
  next
    case (Cons c rest)
    have "sorted_wrt (\<lambda>a b. ccScore b < ccScore a \<or>
      (ccScore b = ccScore a \<and> \<not> str_less (ccName b) (ccName a))) cs"
      using assms by (rule ListAvailable_cases) (simp add: ranked)
    then have "\<forall>c' \<in> set cs. ccScore c' \<le> ccScore c" using Cons by auto
    with True assms Cons show ?thesis by (simp add: Resolve_def)
  qed
next
  case False
  show ?thesis
  proof (cases "find (\<lambda>item. ccName item = normalizeCapabilityAlias e) cs")
    case None
    then have "normalizeCapabilityAlias e \<notin> ccName ` set cs" by (auto simp: find_None_iff)
    with False None assms show ?thesis by (simp add: Resolve_def)
  next
    case (Some c)
    then have "c \<in> set cs \<and> ccName c = normalizeCapabilityAlias e" by (auto simp: find_Some_iff)
    with False Some assms show ?thesis by (simp add: Resolve_def)
  qed
qed

text \<open>
  C11: Whatever the registry holds, the project's policy says and the request prefers, an agent gets
  only capabilities of its role: planners and researchers read-only ones, reviewers read-only ones or
  the Slack notification, coders only the file write, the shell, git, docker and the HTTP check.
\<close>

theorem roles_bound_the_capabilities:
  assumes "Resolve b s url agent intent tags e = (Inr c, policy)"
  shows "(TrimSpace agent = ''planner'' \<or> TrimSpace agent = ''researcher'' \<longrightarrow> ccRiskClass c = ''read_only'') \<and>
    (TrimSpace agent = ''reviewer'' \<longrightarrow> ccRiskClass c = ''read_only'' \<or> ccName c = ''slack.notify'') \<and>
    (TrimSpace agent = ''coder'' \<longrightarrow> ccName c = ''filesystem.write'' \<or> ccName c = ''shell.exec'' \<or>
       HasPrefix (ccName c) ''git.'' \<or> HasPrefix (ccName c) ''docker.'' \<or> ccName c = ''http.check'')"
  using assms
proof (rule resolved_from)
  fix d assume "evaluateCandidate d policy agent intent tags = Some c" and "may_use policy agent (canonical d)"
  then have "TrimSpace agent \<noteq> [] \<Longrightarrow> defaultPolicyAllows (canonical d) agent"
    and "ccName c = cdName (canonical d)" and "ccRiskClass c = cdRiskClass (canonical d)"
    using evaluate_fields [of d policy agent intent tags c] by (simp_all add: may_use_def)
  then show ?thesis by (auto simp: defaultPolicyAllows_def Let_def)
qed

text \<open>
  Executing a request on the broker of the orchestrator runs the executor exactly once, on the
  request with the name of the resolved capability, when the name or the backend reference of that
  capability is registered; otherwise it is an error that changes nothing. Every capability of the
  default catalogue is registered under its own name.
\<close>

theorem execute_runs_the_resolved_capability:
  "Execute (app_broker st exec) req tags s =
     (case Resolve (app_broker st exec) s (erRepositoryURL req) (erAgentType req) (erIntent req) tags
             (erCapability req) of
        (Inl e, p) \<Rightarrow> ((Inl e, p), s)
      | (Inr c, p) \<Rightarrow>
          if ccName c \<in> set backend_names \<or> cdBackendRef (ccDefinition c) \<in> set backend_names
          then (case exec (req\<lparr>erCapability := ccName c\<rparr>) s of
                  (Inl e, s') \<Rightarrow> ((Inl e, p), s') | (Inr r, s') \<Rightarrow> ((Inr (c, r), p), s'))
          else ((Inl (''no backend registered for capability '' @ ccName c), p), s)) \<and>
   map (normalizeCapabilityAlias \<circ> cdName) DefaultDefinitions = backend_names"
proof
  show "map (normalizeCapabilityAlias \<circ> cdName) DefaultDefinitions = backend_names"
    using default_canonical default_name_in by (simp flip: default_names)
qed (simp add: Execute_def app_broker_backends Let_def split: prod.splits sum.splits)

text \<open>
  Every start of the orchestrator writes the default catalogue over the registry: each default
  definition is as the code has it again, whatever an operator had stored under its name (a disabled
  capability is enabled), and every other definition is kept.
\<close>

theorem startup_restores_the_defaults:
  assumes "EnsureDefaults (app_broker (postgres_registry coll now) exec) s = (r, s')"
  shows "r = None \<and>
    (\<forall>d \<in> set DefaultDefinitions. \<exists>q. GetCapabilityDefinition (cdName d) s' = Some q \<and> timeless q = d) \<and>
    (\<forall>name. TrimSpace name \<notin> cdName ` set DefaultDefinitions \<longrightarrow>
       GetCapabilityDefinition name s' = GetCapabilityDefinition name s)"
proof -
  have e: "EnsureDefaultCapabilityDefinitions now DefaultDefinitions s = (r, s')"
    using assms by (simp add: EnsureDefaults_def postgres_registry_def)
  then have s': "r = None" "cbDefinitions s' =
      fold (\<lambda>d. upsert_definition_row now (trimmed_row d)) DefaultDefinitions (cbDefinitions s)"
    by (auto simp: Ensure_named [OF defaults_named])
  have "\<exists>q. GetCapabilityDefinition (cdName d) s' = Some q \<and> timeless q = d"
    if d: "d \<in> set DefaultDefinitions" for d
    using find_upserts [OF defaults_distinct d, of now "cbDefinitions s"] d default_stored
    by (auto simp: GetCapabilityDefinition_def s' list_all_iff)
  moreover have "GetCapabilityDefinition name s' = GetCapabilityDefinition name s"
    if "TrimSpace name \<notin> cdName ` set DefaultDefinitions" for name
  proof -
    have "(TrimSpace \<circ> cdName) ` set DefaultDefinitions = cdName ` set DefaultDefinitions"
      using default_name_in default_names_trim by (simp cong: image_cong)
    with that show ?thesis by (simp add: GetCapabilityDefinition_def s' find_upserts_other)
  qed
  ultimately show ?thesis using s' by blast
qed

text \<open>
  A coder is refused the file read and the directory listing on the orchestrator's broker in every
  state of the registry, although the catalogue authorises coders for both: the built-in rule of the
  role names the file write only.
\<close>

theorem coders_cannot_read_files:
  "fst (Resolve (app_broker (postgres_registry coll now) exec) s url ''coder'' intent tags ''filesystem.read'') =
     Inl ''capability not allowed: filesystem.read'' \<and>
   fst (Resolve (app_broker (postgres_registry coll now) exec) s url ''coder'' intent tags ''filesystem.list'') =
     Inl ''capability not allowed: filesystem.list'' \<and>
   map cdName (filter (\<lambda>d. ''coder'' \<in> set (cdAuthorizedAgents d) \<and>
       \<not> defaultPolicyAllows d ''coder'') DefaultDefinitions) = [''filesystem.read'', ''filesystem.list'']"
proof -
  have coder: "TrimSpace ''coder'' = ''coder''" by (simp add: solid_eval)
  have refused: "fst (Resolve (app_broker (postgres_registry coll now) exec) s url ''coder'' intent tags e) =
      Inl (ErrCapabilityNotAllowed @ '': '' @ e)"
    if e: "e = ''filesystem.read'' \<or> e = ''filesystem.list''" for e
  proof -
    have n: "normalizeCapabilityAlias e = e"
      using e by (auto intro!: default_canonical simp: backend_names_def)
    obtain ds where "ListDefinitions (app_broker (postgres_registry coll now) exec) s = Inr ds"
      using pg.definitions_listed [OF app_broker_store] by blast
    then obtain cs p where l:
      "ListAvailable (app_broker (postgres_registry coll now) exec) s url ''coder'' intent tags = Inr (cs, p)"
      by (cases "TrimSpace url = []") (simp_all add: ListAvailable_def projectPolicy_def pg.policy_of)
    have "ccName c \<noteq> e" if "c \<in> set cs" for c
      using l that
    proof (rule available_from)
      fix d assume "evaluateCandidate d p ''coder'' intent tags = Some c" and "may_use p ''coder'' (canonical d)"
      then show ?thesis using evaluate_fields(2) [of d p "''coder''" intent tags c] e coder
        by (auto simp: may_use_def defaultPolicyAllows_def HasPrefix_def)
    qed
    then have "find (\<lambda>item. ccName item = e) cs = None" by (simp add: find_None_iff)
    then show ?thesis using e by (simp add: Resolve_def l n) auto
  qed
  then show ?thesis by (simp add: ErrCapabilityNotAllowed_def catalogue_defs defaultPolicyAllows_def coder HasPrefix_def)
qed

section \<open>Witnesses\<close>

definition local_broker :: "(unit, unit) broker" where
  "local_broker = New None []"

lemma containsString_solid:
  "solid t \<Longrightarrow> list_all solid xs \<Longrightarrow> containsString xs t \<longleftrightarrow> t \<in> set xs"
  by (auto simp: containsString_iff TrimSpace_solid list_all_iff image_iff)

lemma planner_candidates:
  "\<exists>cs. ListAvailable local_broker () [] ''planner'' ''needs_docs_lookup'' [] = Inr (cs, None) \<and>
     map ccName cs = [''web.fetch'', ''web.search'', ''research.query'']"
  by (simp add: ListAvailable_def ListDefinitions_def projectPolicy_def local_broker_def New_def catalogue_defs
      evaluateCandidate_def defaultPolicyAllows_def containsAnyTag_def containsString_solid solid_eval
      normalizeCapabilityAlias_def policyOverride_def isDeniedByProjectPolicy_def map_filter_simps
      scoreCandidate_def intent_tags_def classPenalty_def ranks_before_def)

lemma planner_first:
  "\<exists>c. Resolve local_broker () [] ''planner'' ''needs_docs_lookup'' [] [] = (Inr c, None) \<and> ccName c = ''web.fetch''"
proof -
  obtain cs where l: "ListAvailable local_broker () [] ''planner'' ''needs_docs_lookup'' [] = Inr (cs, None)"
    and n: "map ccName cs = [''web.fetch'', ''web.search'', ''research.query'']"
    using planner_candidates by (elim exE conjE) (rule that)
  from n obtain c rest where "cs = c # rest" and "ccName c = ''web.fetch''" by (cases cs) simp_all
  with l show ?thesis by (simp add: Resolve_def normalizeCapabilityAlias_def)
qed

text \<open>The planner of a broker without a registry has three of the default capabilities.\<close>

theorem available_is_what_the_rules_allow_witness:
  "\<exists>cs. ListAvailable local_broker () [] ''planner'' ''needs_docs_lookup'' [] = Inr (cs, None) \<and>
     ListDefinitions local_broker () = Inr DefaultDefinitions \<and>
     mset (map ccDefinition cs) =
       mset (map canonical (filter (may_use None ''planner'' \<circ> canonical) DefaultDefinitions)) \<and>
     length cs = 3"
proof -
  obtain cs where l: "ListAvailable local_broker () [] ''planner'' ''needs_docs_lookup'' [] = Inr (cs, None)"
    and n: "map ccName cs = [''web.fetch'', ''web.search'', ''research.query'']"
    using planner_candidates by (elim exE conjE) (rule that)
  have d: "ListDefinitions local_broker () = Inr DefaultDefinitions"
    by (simp add: ListDefinitions_def local_broker_def New_def)
  from n have "length (map ccName cs) = 3" by simp
  then have "length cs = 3" by (simp only: length_map)
  then show ?thesis using l d available_is_what_the_rules_allow [OF l d, THEN conjunct1] by blast
qed

text \<open>For a documentation lookup the planner gets the page fetch.\<close>

theorem resolve_answers_from_the_list_witness:
  "\<exists>cs c. ListAvailable local_broker () [] ''planner'' ''needs_docs_lookup'' [] = Inr (cs, None) \<and>
     Resolve local_broker () [] ''planner'' ''needs_docs_lookup'' [] [] = (Inr c, None) \<and>
     ccName c = ''web.fetch'' \<and> list_all (\<lambda>c'. ccScore c' \<le> ccScore c) cs"
proof -
  obtain cs where l: "ListAvailable local_broker () [] ''planner'' ''needs_docs_lookup'' [] = Inr (cs, None)"
    using planner_candidates by (elim exE conjE) (rule that)
  obtain c where c: "Resolve local_broker () [] ''planner'' ''needs_docs_lookup'' [] [] = (Inr c, None)"
    and n: "ccName c = ''web.fetch''"
    using planner_first by (elim exE conjE) (rule that)
  from resolve_answers_from_the_list [OF l, of "[]"] c
  have "\<forall>c' \<in> set cs. ccScore c' \<le> ccScore c" by (simp add: normalizeCapabilityAlias_def)
  with l c n show ?thesis by (auto simp: list_all_iff)
qed

text \<open>What the planner gets is read-only.\<close>

theorem roles_bound_the_capabilities_witness:
  "\<exists>c. Resolve local_broker () [] ''planner'' ''needs_docs_lookup'' [] [] = (Inr c, None) \<and>
     ccName c = ''web.fetch'' \<and> ccRiskClass c = ''read_only''"
proof -
  obtain c where c: "Resolve local_broker () [] ''planner'' ''needs_docs_lookup'' [] [] = (Inr c, None)"
    and n: "ccName c = ''web.fetch''"
    using planner_first by (elim exE conjE) (rule that)
  with roles_bound_the_capabilities [OF c] show ?thesis by (simp add: TrimSpace_solid solid_def visible_def)
qed

definition disabled_shell :: capability_definition where
  "disabled_shell = capability ''shell.exec'' ''internal'' ''shell.exec'' [] [] ''workspace_execute''
     ''low'' ''medium'' True Map.empty \<lparr>cdEnabled := False\<rparr>"

lemma default_shell: "list_ex (\<lambda>d. cdName d = ''shell.exec'' \<and> cdEnabled d) DefaultDefinitions"
  by (simp add: catalogue_defs)

text \<open>A shell capability that an operator disabled is enabled again after a restart.\<close>

theorem startup_restores_the_defaults_witness:
  "\<exists>s' q. EnsureDefaults (app_broker (postgres_registry str_less 7) (\<lambda>r s. (Inr (), s)))
       \<lparr>cbDefinitions = [disabled_shell], cbPolicies = []\<rparr> = (None, s') \<and>
     GetCapabilityDefinition ''shell.exec'' \<lparr>cbDefinitions = [disabled_shell], cbPolicies = []\<rparr> = Some disabled_shell \<and>
     \<not> cdEnabled disabled_shell \<and>
     GetCapabilityDefinition ''shell.exec'' s' = Some q \<and> cdEnabled q"
proof -
  let ?s = "\<lparr>cbDefinitions = [disabled_shell], cbPolicies = []\<rparr>"
  obtain s' where s': "EnsureDefaults (app_broker (postgres_registry str_less 7) (\<lambda>r s. (Inr (), s))) ?s = (None, s')"
    using pg.startup_lists_the_defaults [OF app_broker_store] by blast
  obtain d where d: "d \<in> set DefaultDefinitions" "cdName d = ''shell.exec''" "cdEnabled d"
    using default_shell by (auto simp: list_ex_iff)
  from startup_restores_the_defaults [OF s'] d
  obtain q where q: "GetCapabilityDefinition ''shell.exec'' s' = Some q" "timeless q = d" by metis
  from q(2) d(3) have "cdEnabled (timeless q)" by simp
  then have "cdEnabled q" by (simp add: timeless_def)
  have "GetCapabilityDefinition ''shell.exec'' ?s = Some disabled_shell" "\<not> cdEnabled disabled_shell"
    by (simp_all add: GetCapabilityDefinition_def disabled_shell_def capability_def solid_eval)
  with \<open>cdEnabled q\<close> s' q(1) show ?thesis by blast
qed

end
