(* ===== verification/Api_Auth.thy ===== *)
theory Api_Auth
  imports Lab_Prelude
begin

text \<open>
  Authentication of the orchestrator's HTTP interface
  (\<^verbatim>\<open>src/internal/orchestratorgo/httpapi/middleware.go\<close>): bearer tokens looked up by hash in the
  API key table (\<^verbatim>\<open>GetAPIKeyByHash\<close> of \<^verbatim>\<open>store/postgres.go\<close>), the scope of a key, and the
  tracker that blocks a source after repeated failures. The hash function is an argument; a header
  that is absent is the empty text. The middleware calls the next handler with the key, if any, or
  answers with a status, a code and a message.

  What the middleware needs of the key store is the locale \<open>api_key_store\<close>, interpreted on the
  table.
\<close>

section \<open>Data\<close>

definition ScopeAdmin :: string where "ScopeAdmin = ''admin''"
definition ScopeOperator :: string where "ScopeOperator = ''operator''"
definition ScopeBot :: string where "ScopeBot = ''bot''"
definition ScopeReadonly :: string where "ScopeReadonly = ''readonly''"

lemmas scope_defs = ScopeAdmin_def ScopeOperator_def ScopeBot_def ScopeReadonly_def

record api_key =
  akID :: string
  akName :: string
  akScope :: string

text \<open>A row of the table \<^verbatim>\<open>api_keys\<close>.\<close>

record api_key_row =
  arKey :: api_key
  arHash :: string
  arActive :: bool
  arRevokedAt :: "instant option"

definition GetAPIKeyByHash :: "api_key_row list \<Rightarrow> string \<Rightarrow> api_key option" where
  "GetAPIKeyByHash rows keyHash =
     map_option arKey (find (\<lambda>r. arHash r = keyHash \<and> arActive r \<and> arRevokedAt r = None) rows)"

record request =
  rqMethod :: string
  rqPath :: string
  rqAuthorization :: string
  rqForwardedFor :: string
  rqRemoteAddr :: string

datatype auth_outcome =
    Forward "api_key option"
  | Reply nat string string

section \<open>Paths, scopes and the source of a request\<close>

definition publicPaths :: "string list" where
  "publicPaths = [''/health'', ''/ready'', ''/metrics'', ''/docs'', ''/openapi.json'', ''/redoc'']"

definition adminOnlyPrefixes :: "string list" where
  "adminOnlyPrefixes = [''/config/'', ''/audit'']"

definition operatorOnlyPrefixes :: "string list" where
  "operatorOnlyPrefixes = [''/bridges'']"

definition scopeAllowedMethods :: "string \<Rightarrow> string list" where
  "scopeAllowedMethods scope =
     (if scope = ScopeAdmin \<or> scope = ScopeOperator
        then [''GET'', ''POST'', ''PUT'', ''PATCH'', ''DELETE'', ''HEAD'', ''OPTIONS'']
      else if scope = ScopeBot then [''GET'', ''POST'', ''HEAD'', ''OPTIONS'']
      else if scope = ScopeReadonly then [''GET'', ''HEAD'', ''OPTIONS'']
      else [])"

definition isPublicPath :: "string \<Rightarrow> bool" where
  "isPublicPath path \<longleftrightarrow> path \<in> set publicPaths \<or> HasPrefix path ''/docs'' \<or> HasPrefix path ''/redoc''"

text \<open>A text in single quotes.\<close>

definition quoted :: "string \<Rightarrow> string" where
  "quoted s = CHR 0x27 # s @ [CHR 0x27]"

text \<open>The empty text says that the scope suffices.\<close>

definition checkScope :: "string \<Rightarrow> string \<Rightarrow> string \<Rightarrow> string" where
  "checkScope scope method path =
     (if list_ex (HasPrefix path) adminOnlyPrefixes \<and> scope \<noteq> ScopeAdmin
        then ''Path '' @ quoted path @ '' requires '' @ quoted ''admin'' @ '' scope, got '' @ quoted scope
      else if list_ex (HasPrefix path) operatorOnlyPrefixes \<and> scope \<noteq> ScopeAdmin \<and> scope \<noteq> ScopeOperator
        then ''Path '' @ quoted path @ '' requires '' @ quoted ''operator'' @ '' or '' @ quoted ''admin'' @
             '' scope, got '' @ quoted scope
      else if method \<notin> set (scopeAllowedMethods scope)
        then ''Method '' @ quoted method @ '' not allowed for scope '' @ quoted scope @
             ''. Required scope: '' @ quoted ''operator'' @ '' or '' @ quoted ''admin''
      else [])"

text \<open>The host of \<^verbatim>\<open>net.SplitHostPort\<close>, \<^term>\<open>None\<close> when it returns an error.\<close>

definition SplitHost :: "string \<Rightarrow> string option" where
  "SplitHost hostport =
     (let rest = dropWhile (\<lambda>c. c \<noteq> CHR '':'') (rev hostport);
          front = rev (tl rest);
          e = length (takeWhile (\<lambda>c. c \<noteq> CHR '']'') hostport)
      in if rest = [] then None
      else if hd hostport = CHR ''['' then
        (if e + 1 = length front \<and> CHR ''['' \<notin> set (drop 1 hostport) \<and>
            CHR '']'' \<notin> set (drop (e + 1) hostport)
         then Some (drop 1 (take e hostport)) else None)
      else if CHR '':'' \<in> set front \<or> CHR ''['' \<in> set hostport \<or> CHR '']'' \<in> set hostport then None
      else Some front)"

definition getClientIP :: "request \<Rightarrow> string" where
  "getClientIP r =
     (if TrimSpace (rqForwardedFor r) \<noteq> [] then TrimSpace (hd (split_on CHR '','' (rqForwardedFor r)))
      else case SplitHost (rqRemoteAddr r) of Some host \<Rightarrow> host | None \<Rightarrow> rqRemoteAddr r)"

section \<open>The failure tracker\<close>

record tracker =
  btMaxAttempts :: int
  btWindow :: duration
  btBlock :: duration
  btFailures :: "string \<rightharpoonup> instant list"
  btBlocked :: "string \<rightharpoonup> instant"

definition newBruteForceTracker :: "int \<Rightarrow> int \<Rightarrow> int \<Rightarrow> tracker" where
  "newBruteForceTracker maxAttempts windowSeconds blockSeconds =
     \<lparr>btMaxAttempts = maxAttempts, btWindow = wrap64 (windowSeconds * second),
      btBlock = wrap64 (blockSeconds * second), btFailures = Map.empty, btBlocked = Map.empty\<rparr>"

definition IsBlocked :: "instant \<Rightarrow> string \<Rightarrow> tracker \<Rightarrow> bool \<times> tracker" where
  "IsBlocked now source b =
     (case btBlocked b source of
        None \<Rightarrow> (False, b)
      | Some expiry \<Rightarrow>
          if expiry < now
          then (False, b\<lparr>btBlocked := (btBlocked b)(source := None),
                         btFailures := (btFailures b)(source := None)\<rparr>)
          else (True, b))"

text \<open>A source without failures has the empty list.\<close>

definition failures_of :: "tracker \<Rightarrow> string \<Rightarrow> instant list" where
  "failures_of b source = (case btFailures b source of None \<Rightarrow> [] | Some ts \<Rightarrow> ts)"

definition RecordFailure :: "instant \<Rightarrow> string \<Rightarrow> tracker \<Rightarrow> tracker" where
  "RecordFailure now source b =
     (let cutoff = now - btWindow b;
          current = filter (\<lambda>ts. cutoff < ts) (failures_of b source) @ [now];
          b' = b\<lparr>btFailures := (btFailures b)(source \<mapsto> current)\<rparr>
      in if btMaxAttempts b \<le> int (length current)
         then b'\<lparr>btBlocked := (btBlocked b)(source \<mapsto> now + btBlock b)\<rparr>
         else b')"

definition Reset :: "string \<Rightarrow> tracker \<Rightarrow> tracker" where
  "Reset source b = b\<lparr>btFailures := (btFailures b)(source := None)\<rparr>"

section \<open>The middleware\<close>

definition missing_token :: auth_outcome where
  "missing_token = Reply 401 ''missing_token'' ''Authorization header with Bearer token is required.''"

definition source_blocked :: auth_outcome where
  "source_blocked = Reply 403 ''source_blocked'' ''Too many failed authentication attempts. Try again later.''"

text \<open>
  \<open>checked\<close> and \<open>failed\<close> are the readings of the clock by the check and by the record of a
  failure.
\<close>

definition Middleware ::
  "(string \<Rightarrow> string) \<Rightarrow> (string \<Rightarrow> api_key option result) \<Rightarrow> instant \<Rightarrow> instant \<Rightarrow> request \<Rightarrow> tracker \<Rightarrow>
     auth_outcome \<times> tracker" where
  "Middleware sha256_hex get_key checked failed r b =
     (if isPublicPath (rqPath r) then (Forward None, b)
      else
        let clientIP = getClientIP r; (blocked, b1) = IsBlocked checked clientIP b;
            rawToken = TrimSpace (TrimPrefix (rqAuthorization r) ''Bearer '')
        in if blocked then (source_blocked, b1)
        else if \<not> HasPrefix (rqAuthorization r) ''Bearer ''
          then (missing_token, RecordFailure failed clientIP b1)
        else if rawToken = [] then (missing_token, RecordFailure failed clientIP b1)
        else case get_key (sha256_hex rawToken) of
               Inl e \<Rightarrow> (Reply 500 ''detail'' ''failed to validate API key'', b1)
             | Inr None \<Rightarrow> (Reply 401 ''invalid_token'' ''Invalid API key.'', RecordFailure failed clientIP b1)
             | Inr (Some key) \<Rightarrow>
                 let errText = checkScope (akScope key) (rqMethod r) (rqPath r)
                 in if errText \<noteq> [] then (Reply 403 ''insufficient_scope'' errText, b1)
                    else (Forward (Some key), Reset clientIP b1))"

text \<open>What a handler with \<^verbatim>\<open>requireOperatorScope\<close> answers first, if it refuses.\<close>

definition requireOperatorScope :: "api_key option \<Rightarrow> auth_outcome option" where
  "requireOperatorScope key =
     (case key of
        None \<Rightarrow> Some (Reply 401 ''detail'' ''authentication is required'')
      | Some k \<Rightarrow>
          if akScope k \<noteq> ScopeAdmin \<and> akScope k \<noteq> ScopeOperator
          then Some (Reply 403 ''detail'' ''operator or admin scope is required'')
          else None)"

text \<open>A sequence of timed requests, one after the other.\<close>

fun serve ::
  "(string \<Rightarrow> string) \<Rightarrow> (string \<Rightarrow> api_key option result) \<Rightarrow> (request \<times> instant) list \<Rightarrow> tracker \<Rightarrow>
     auth_outcome list \<times> tracker" where
  "serve sha get_key [] b = ([], b)"
| "serve sha get_key ((r, t) # rs) b =
     (let (out, b1) = Middleware sha get_key t t r b; (outs, b2) = serve sha get_key rs b1
      in (out # outs, b2))"

section \<open>The key store\<close>

locale api_key_store =
  fixes get_key :: "string \<Rightarrow> api_key option result"
    and live :: "string \<Rightarrow> api_key \<Rightarrow> bool"
  assumes sound: "get_key h = Inr (Some k) \<Longrightarrow> live h k"
begin

lemma forwarded:
  assumes "Middleware sha get_key c f r b = (Forward k, b')"
  shows "(isPublicPath (rqPath r) \<and> k = None \<and> b' = b) \<or>
    (\<exists>key token. k = Some key \<and> HasPrefix (rqAuthorization r) ''Bearer '' \<and>
       token = TrimSpace (TrimPrefix (rqAuthorization r) ''Bearer '') \<and> token \<noteq> [] \<and>
       live (sha token) key \<and> checkScope (akScope key) (rqMethod r) (rqPath r) = [] \<and>
       \<not> fst (IsBlocked c (getClientIP r) b))"
  using assms sound
  by (auto simp: Middleware_def Let_def missing_token_def source_blocked_def
      split: if_splits prod.splits sum.splits option.splits)

end

text \<open>The table as a key store; \<open>failure\<close> is the error of the database, if any.\<close>

definition table_keys :: "string option \<Rightarrow> api_key_row list \<Rightarrow> string \<Rightarrow> api_key option result" where
  "table_keys failure rows h =
     (case failure of Some e \<Rightarrow> Inl e | None \<Rightarrow> Inr (GetAPIKeyByHash rows h))"

definition live_row :: "api_key_row list \<Rightarrow> string \<Rightarrow> api_key \<Rightarrow> bool" where
  "live_row rows h k \<longleftrightarrow>
     list_ex (\<lambda>r. arKey r = k \<and> arHash r = h \<and> arActive r \<and> arRevokedAt r = None) rows"

interpretation tk: api_key_store "table_keys failure rows" "live_row rows" for failure rows
  by unfold_locales
     (auto simp: table_keys_def GetAPIKeyByHash_def live_row_def list_ex_iff find_Some_iff split: option.splits)

section \<open>Scopes\<close>

lemma checkScope_ok:
  "checkScope scope method path = [] \<longleftrightarrow>
     (HasPrefix path ''/config/'' \<or> HasPrefix path ''/audit'' \<longrightarrow> scope = ScopeAdmin) \<and>
     (HasPrefix path ''/bridges'' \<longrightarrow> scope \<in> {ScopeAdmin, ScopeOperator}) \<and>
     method \<in> set (scopeAllowedMethods scope)"
  by (auto simp: checkScope_def adminOnlyPrefixes_def operatorOnlyPrefixes_def)

lemma scope_covers:
  assumes "checkScope scope method path = []"
  shows "scope \<in> {ScopeAdmin, ScopeOperator, ScopeBot, ScopeReadonly} \<and>
    (HasPrefix path ''/config/'' \<or> HasPrefix path ''/audit'' \<longrightarrow> scope = ScopeAdmin) \<and>
    (HasPrefix path ''/bridges'' \<longrightarrow> scope \<in> {ScopeAdmin, ScopeOperator}) \<and>
    (scope = ScopeBot \<longrightarrow> method \<in> {''GET'', ''POST'', ''HEAD'', ''OPTIONS''}) \<and>
    (scope = ScopeReadonly \<longrightarrow> method \<in> {''GET'', ''HEAD'', ''OPTIONS''})"
proof -
  have "method \<in> set (scopeAllowedMethods scope)" using assms by (simp add: checkScope_ok)
  then have "scope \<in> {ScopeAdmin, ScopeOperator, ScopeBot, ScopeReadonly} \<and>
      (scope = ScopeBot \<longrightarrow> method \<in> {''GET'', ''POST'', ''HEAD'', ''OPTIONS''}) \<and>
      (scope = ScopeReadonly \<longrightarrow> method \<in> {''GET'', ''HEAD'', ''OPTIONS''})"
    by (auto simp: scopeAllowedMethods_def scope_defs split: if_splits)
  then show ?thesis using assms by (simp add: checkScope_ok)
qed

text \<open>
  C12: A request reaches a handler only on a public path, or with a bearer token whose hash belongs to
  an active key that was not revoked, from a source that is not blocked, and with a scope that covers
  it: the configuration and the audit log need an administrator, the bridges an operator or an
  administrator, a bot only reads and posts, a read-only key only reads.
\<close>

theorem only_authorised_requests_are_served:
  assumes "Middleware sha (table_keys failure rows) c f r b = (Forward k, b')"
  shows "(isPublicPath (rqPath r) \<and> k = None \<and> b' = b) \<or>
    (\<exists>key. k = Some key \<and> HasPrefix (rqAuthorization r) ''Bearer '' \<and>
       live_row rows (sha (TrimSpace (TrimPrefix (rqAuthorization r) ''Bearer ''))) key \<and>
       \<not> fst (IsBlocked c (getClientIP r) b) \<and>
       akScope key \<in> {ScopeAdmin, ScopeOperator, ScopeBot, ScopeReadonly} \<and>
       (HasPrefix (rqPath r) ''/config/'' \<or> HasPrefix (rqPath r) ''/audit'' \<longrightarrow> akScope key = ScopeAdmin) \<and>
       (HasPrefix (rqPath r) ''/bridges'' \<longrightarrow> akScope key \<in> {ScopeAdmin, ScopeOperator}) \<and>
       (akScope key = ScopeBot \<longrightarrow> rqMethod r \<in> {''GET'', ''POST'', ''HEAD'', ''OPTIONS''}) \<and>
       (akScope key = ScopeReadonly \<longrightarrow> rqMethod r \<in> {''GET'', ''HEAD'', ''OPTIONS''}))"
  using tk.forwarded [OF assms]
proof (elim disjE exE conjE)
  fix key token
  assume k: "k = Some key" "HasPrefix (rqAuthorization r) ''Bearer ''"
    "token = TrimSpace (TrimPrefix (rqAuthorization r) ''Bearer '')" "live_row rows (sha token) key"
    "\<not> fst (IsBlocked c (getClientIP r) b)"
    and s: "checkScope (akScope key) (rqMethod r) (rqPath r) = []"
  show ?thesis using k scope_covers [OF s] by (intro disjI2 exI [of _ key]) simp
qed simp

section \<open>The block after repeated failures\<close>

definition bad_request ::
  "(string \<Rightarrow> string) \<Rightarrow> (string \<Rightarrow> api_key option result) \<Rightarrow> string \<Rightarrow> request \<Rightarrow> bool" where
  "bad_request sha get_key source r \<longleftrightarrow>
     \<not> isPublicPath (rqPath r) \<and> getClientIP r = source \<and>
     (\<not> HasPrefix (rqAuthorization r) ''Bearer '' \<or>
      TrimSpace (TrimPrefix (rqAuthorization r) ''Bearer '') = [] \<or>
      get_key (sha (TrimSpace (TrimPrefix (rqAuthorization r) ''Bearer ''))) = Inr None)"

lemma Middleware_bad:
  assumes "bad_request sha get_key source r" and "btBlocked b source = None"
  shows "snd (Middleware sha get_key t t r b) = RecordFailure t source b"
  using assms by (auto simp: bad_request_def Middleware_def IsBlocked_def Let_def)

text \<open>What the tracker knows of a source, and that other sources and public paths leave it alone.\<close>

definition known :: "string \<Rightarrow> tracker \<Rightarrow> instant list \<times> instant option \<times> int \<times> duration \<times> duration" where
  "known source b = (failures_of b source, btBlocked b source, btMaxAttempts b, btWindow b, btBlock b)"

lemma known_other:
  "source' \<noteq> source \<Longrightarrow> known source (RecordFailure t source' b) = known source b"
  "source' \<noteq> source \<Longrightarrow> known source (Reset source' b) = known source b"
  "source' \<noteq> source \<Longrightarrow> known source (snd (IsBlocked t source' b)) = known source b"
  by (auto simp: known_def RecordFailure_def Reset_def IsBlocked_def failures_of_def Let_def split: option.splits)

lemma Middleware_other:
  assumes "getClientIP r \<noteq> source \<or> isPublicPath (rqPath r)"
  shows "known source (snd (Middleware sha get_key c t r b)) = known source b"
proof (cases "isPublicPath (rqPath r)")
  case False
  with assms have o: "getClientIP r \<noteq> source" by simp
  obtain x b1 where i: "IsBlocked c (getClientIP r) b = (x, b1)" by (cases "IsBlocked c (getClientIP r) b")
  with known_other(3) [OF o, of c b] have "known source b1 = known source b" by simp
  with False i show ?thesis
    by (auto simp: Middleware_def Let_def known_other [OF o] split: sum.splits option.splits)
qed (simp add: Middleware_def)

lemma serve_snd:
  "snd (serve sha get_key ((r, t) # rs) b) = snd (serve sha get_key rs (snd (Middleware sha get_key t t r b)))"
  by (simp split: prod.splits)

lemma failures_add_up:
  assumes "\<forall>q \<in> set rs. t0 \<le> snd q \<and> snd q < t0 + w"
    and "\<forall>q \<in> set rs. getClientIP (fst q) = source \<longrightarrow>
      isPublicPath (rqPath (fst q)) \<or> bad_request sha get_key source (fst q)"
    and "known source b = (ts, None, m, w, k)" and "\<forall>x \<in> set ts. t0 \<le> x"
    and "int (length ts + length (filter (bad_request sha get_key source \<circ> fst) rs)) < m"
  shows "\<exists>ts'. known source (snd (serve sha get_key rs b)) = (ts', None, m, w, k) \<and>
    (\<forall>x \<in> set ts'. t0 \<le> x) \<and>
    length ts' = length ts + length (filter (bad_request sha get_key source \<circ> fst) rs)"
  using assms
proof (induction rs arbitrary: b ts)
  case (Cons p rs)
  obtain r t where p: "p = (r, t)" by (cases p)
  let ?b1 = "snd (Middleware sha get_key t t r b)"
  have run: "snd (serve sha get_key (p # rs) b) = snd (serve sha get_key rs ?b1)"
    by (simp only: p serve_snd)
  show ?case
  proof (cases "bad_request sha get_key source r")
    case True
    have old: "filter (\<lambda>x. t - w < x) ts = ts"
      using Cons.prems(1,4) p by (force intro: filter_True)
    have "?b1 = RecordFailure t source b"
      using Cons.prems(3) True by (auto simp: known_def intro: Middleware_bad)
    then have "known source ?b1 = (ts @ [t], None, m, w, k)"
      using Cons.prems(3,5) old p True by (auto simp: known_def RecordFailure_def failures_of_def Let_def)
    moreover have "\<forall>x \<in> set (ts @ [t]). t0 \<le> x" using Cons.prems(1,4) p by auto
    ultimately show ?thesis
      using Cons.IH [of ?b1 "ts @ [t]"] Cons.prems(1,2,5) True unfolding run by (simp add: p comp_def)
  next
    case False
    then have "getClientIP r \<noteq> source \<or> isPublicPath (rqPath r)"
      using Cons.prems(2) p by auto
    from Middleware_other [OF this, of sha get_key t t b] Cons.prems(3)
    have "known source ?b1 = (ts, None, m, w, k)" by simp
    then show ?thesis
      using Cons.IH [of ?b1 ts] Cons.prems(1,2,4,5) False unfolding run by (simp add: p comp_def)
  qed
qed simp

lemma block_lasts:
  assumes "\<forall>q \<in> set rs. snd q \<le> e" and "btBlocked b source = Some e"
  shows "btBlocked (snd (serve sha get_key rs b)) source = Some e"
  using assms
proof (induction rs arbitrary: b)
  case (Cons p rs)
  obtain r t where p: "p = (r, t)" by (cases p)
  let ?b1 = "snd (Middleware sha get_key t t r b)"
  have "btBlocked ?b1 source = Some e"
  proof (cases "getClientIP r = source \<and> \<not> isPublicPath (rqPath r)")
    case True
    moreover have "t \<le> e" using Cons.prems(1) p by simp
    ultimately show ?thesis
      using Cons.prems(2) by (auto simp: Middleware_def IsBlocked_def Let_def)
  next
    case False
    with Middleware_other [of r source sha get_key t t b] Cons.prems(2) show ?thesis
      by (auto simp: known_def)
  qed
  with Cons.IH [of ?b1] Cons.prems(1) show ?case by (simp add: p serve_snd del: serve.simps)
qed simp

text \<open>
  C13: A source without a record that fails to authenticate as often as allowed within one window,
  whatever other sources do in between, is not blocked before its last failure, and is blocked from
  then on: until the block duration has passed every request of it to a protected path is answered
  with \<^verbatim>\<open>source_blocked\<close>, valid keys included.
\<close>

theorem repeated_failures_block_the_source:
  assumes "failures_of b source = []" and "btBlocked b source = None"
    and "\<forall>q \<in> set (rs @ [(r0, T)]). t0 \<le> snd q \<and> snd q < t0 + btWindow b"
    and "\<forall>q \<in> set rs. getClientIP (fst q) = source \<longrightarrow>
      isPublicPath (rqPath (fst q)) \<or> bad_request sha get_key source (fst q)"
    and "bad_request sha get_key source r0"
    and "int (length (filter (bad_request sha get_key source \<circ> fst) rs)) + 1 = btMaxAttempts b"
    and "\<forall>q \<in> set later. snd q \<le> T + btBlock b"
    and "getClientIP r = source" and "\<not> isPublicPath (rqPath r)" and "t \<le> T + btBlock b"
  shows "btBlocked (snd (serve sha get_key rs b)) source = None \<and>
    fst (Middleware sha keys t t' r
      (snd (serve sha get_key later (snd (Middleware sha get_key T T r0 (snd (serve sha get_key rs b)))))))
      = source_blocked"
proof -
  have k: "known source b = ([], None, btMaxAttempts b, btWindow b, btBlock b)"
    using assms(1,2) by (simp add: known_def)
  let ?b1 = "snd (serve sha get_key rs b)" and ?n = "length (filter (bad_request sha get_key source \<circ> fst) rs)"
  obtain ts where ts: "known source ?b1 = (ts, None, btMaxAttempts b, btWindow b, btBlock b)"
    and t0: "\<forall>x \<in> set ts. t0 \<le> x" and n: "length ts = ?n"
    using failures_add_up [OF _ assms(4) k, of t0] assms(3,6) by (auto simp: comp_def)
  let ?b2 = "snd (Middleware sha get_key T T r0 ?b1)"
  have "filter (\<lambda>x. T - btWindow b < x) ts = ts"
    using assms(3) t0 by (force intro: filter_True)
  then have "btBlocked ?b2 source = Some (T + btBlock b)"
    using ts n assms(5,6) by (auto simp: known_def Middleware_bad RecordFailure_def Let_def)
  with block_lasts [of later "T + btBlock b" ?b2 source sha get_key] assms(7)
  have "btBlocked (snd (serve sha get_key later ?b2)) source = Some (T + btBlock b)" by blast
  then show ?thesis
    using assms(8-10) ts by (auto simp: Middleware_def IsBlocked_def Let_def known_def)
qed

text \<open>
  The source is the first entry of the \<^verbatim>\<open>X-Forwarded-For\<close> header of the request itself, so a
  client that changes the header is a source without a record.
\<close>

lemma forwarded_header_evades_the_block:
  assumes "finite (dom (btBlocked b))"
  shows "\<exists>h. btBlocked b (getClientIP (r\<lparr>rqForwardedFor := h\<rparr>)) = None"
proof -
  define names :: "nat \<Rightarrow> string" where "names n = replicate (Suc n) CHR ''a''" for n
  have solid: "solid (names n)" for n by (simp add: names_def solid_def visible_def del: replicate.simps)
  have comma: "hd (split_on CHR '','' (names n)) = names n" for n
  proof -
    have "split_on CHR '','' (replicate k CHR ''a'') = [replicate k CHR ''a'']" for k by (induction k) auto
    then show ?thesis by (simp add: names_def del: replicate.simps)
  qed
  have ip: "getClientIP (r\<lparr>rqForwardedFor := names n\<rparr>) = names n" for n
    using solid [of n] by (simp add: getClientIP_def TrimSpace_solid comma) (simp add: solid_def)
  have "inj names" by (rule injI) (metis Suc_inject length_replicate names_def)
  then have "infinite (range names)" using finite_imageD [of names UNIV] by auto
  then have "\<not> range names \<subseteq> dom (btBlocked b)" using assms finite_subset by blast
  then obtain n where "btBlocked b (names n) = None" by auto
  with ip [of n] show ?thesis by metis
qed

section \<open>Witnesses\<close>

definition sample_key :: api_key where
  "sample_key = \<lparr>akID = ''k'', akName = ''ops'', akScope = ScopeOperator\<rparr>"

definition sample_rows :: "api_key_row list" where
  "sample_rows = [\<lparr>arKey = sample_key, arHash = ''t'', arActive = True, arRevokedAt = None\<rparr>]"

definition sample_request :: "string \<Rightarrow> request" where
  "sample_request auth = \<lparr>rqMethod = ''POST'', rqPath = ''/tasks'', rqAuthorization = auth,
     rqForwardedFor = [], rqRemoteAddr = ''h:1''\<rparr>"

lemma sample_ip: "getClientIP (sample_request auth) = ''h''"
  by (simp add: sample_request_def getClientIP_def SplitHost_def)

lemma sample_private: "\<not> isPublicPath (rqPath (sample_request auth))"
  by (simp add: sample_request_def isPublicPath_def publicPaths_def HasPrefix_def)

text \<open>An operator's key may post a task.\<close>

theorem only_authorised_requests_are_served_witness:
  "Middleware id (table_keys None sample_rows) 5 5 (sample_request ''Bearer t'') (newBruteForceTracker 2 60 300)
     = (Forward (Some sample_key), Reset ''h'' (newBruteForceTracker 2 60 300)) \<and>
   live_row sample_rows (TrimSpace (TrimPrefix ''Bearer t'' ''Bearer '')) sample_key"
proof -
  have t: "TrimSpace (TrimPrefix (rqAuthorization (sample_request ''Bearer t'')) ''Bearer '') = ''t''"
    by (simp add: sample_request_def TrimPrefix_def HasPrefix_def TrimSpace_solid solid_def visible_def)
  have m: "Middleware id (table_keys None sample_rows) 5 5 (sample_request ''Bearer t'') (newBruteForceTracker 2 60 300)
     = (Forward (Some sample_key), Reset ''h'' (newBruteForceTracker 2 60 300))"
    using sample_private [of "''Bearer t''"] t
    by (simp add: Middleware_def sample_ip IsBlocked_def newBruteForceTracker_def table_keys_def
        GetAPIKeyByHash_def sample_rows_def sample_key_def Let_def)
      (simp add: sample_request_def HasPrefix_def checkScope_def adminOnlyPrefixes_def
        operatorOnlyPrefixes_def scopeAllowedMethods_def)
  from only_authorised_requests_are_served [OF m] sample_private [of "''Bearer t''"]
  show ?thesis using m by (simp add: sample_request_def)
qed

text \<open>Two requests without a token block the source; a valid key does not help then.\<close>

theorem repeated_failures_block_the_source_witness:
  "fst (Middleware id (table_keys None sample_rows) 7 7 (sample_request ''Bearer t'')
      (snd (Middleware id (table_keys None []) 6 6 (sample_request [])
        (snd (serve id (table_keys None []) [(sample_request [], 5)] (newBruteForceTracker 2 60 300))))))
    = source_blocked"
proof -
  let ?b = "newBruteForceTracker 2 60 300"
  have b: "failures_of ?b ''h'' = []" "btBlocked ?b ''h'' = None" "btMaxAttempts ?b = 2"
    "btWindow ?b = 60000000000" "btBlock ?b = 300000000000"
    by (simp_all add: newBruteForceTracker_def failures_of_def wrap64_def second_def)
  have bad: "bad_request id (table_keys None []) ''h'' (sample_request [])"
    using sample_private [of "[]"] by (simp add: bad_request_def sample_ip) (simp add: sample_request_def HasPrefix_def)
  have "\<forall>q \<in> set ([(sample_request [], 5)] @ [(sample_request [], 6)]).
      5 \<le> snd q \<and> snd q < 5 + btWindow ?b"
    by (simp add: b)
  from repeated_failures_block_the_source [OF b(1,2) this _ bad, of "[]" "sample_request ''Bearer t''" 7]
  show ?thesis using bad sample_ip sample_private by (simp add: b)
qed

end
