(* ===== verification/Telegram_Queue.thy ===== *)
theory Telegram_Queue
  imports Lab_Prelude
begin

text \<open>
  The durable queue of Telegram updates of the secretary
  (\<^verbatim>\<open>src/internal/secretary/telegram_webhook.go\<close>) and the worker that drains it
  (\<^verbatim>\<open>RunWebhookWorker\<close> of \<^verbatim>\<open>secretary/telegram.go\<close>). The queue is two directories; an update
  is a file of the first, a completion a file of the second, named after the identifier.

  A directory is a list of named entries. Every call to the operating system may fail: the argument
  \<open>io\<close> says which succeed. A crash is a step of its own, which leaves what the calls before it have
  written. The contract the worker relies on is the locale \<open>update_queue\<close>, interpreted on the
  directories.
\<close>

section \<open>File names\<close>

definition digit :: "nat \<Rightarrow> char" where
  "digit d = char_of (48 + d)"

text \<open>The last \<open>k\<close> decimal digits; \<^verbatim>\<open>%020d\<close> of an \<^verbatim>\<open>int64\<close> that is positive, hence below
  \<open>10 ^ 20\<close>, is \<open>decimal 20\<close>.\<close>

fun decimal :: "nat \<Rightarrow> nat \<Rightarrow> string" where
  "decimal 0 n = []"
| "decimal (Suc k) n = decimal k (n div 10) @ [digit (n mod 10)]"

definition pendingName :: "int \<Rightarrow> string" where
  "pendingName i = ''pending-'' @ decimal 20 (nat i) @ ''.json''"

definition completedName :: "int \<Rightarrow> string" where
  "completedName i = ''completed-'' @ decimal 20 (nat i) @ ''.json''"

definition is_digit :: "char \<Rightarrow> bool" where
  "is_digit c \<longleftrightarrow> 48 \<le> (of_char c :: nat) \<and> (of_char c :: nat) \<le> 57"

definition digits_value :: "string \<Rightarrow> int" where
  "digits_value s = fold (\<lambda>c v. 10 * v + (of_char c - 48)) s 0"

text \<open>\<^verbatim>\<open>strconv.ParseInt(s, 10, 64)\<close>.\<close>

definition ParseInt64 :: "string \<Rightarrow> int option" where
  "ParseInt64 s =
     (let neg = HasPrefix s ''-'';
          ds = (if neg \<or> HasPrefix s ''+'' then drop 1 s else s);
          v = (if neg then - digits_value ds else digits_value ds)
      in if ds \<noteq> [] \<and> list_all is_digit ds \<and> - (2 ^ 63) \<le> v \<and> v < 2 ^ 63 then Some v else None)"

definition telegramUpdateID :: "string \<Rightarrow> string \<Rightarrow> int option" where
  "telegramUpdateID name pre = ParseInt64 (TrimSuffix (TrimPrefix name pre) ''.json'')"

section \<open>State\<close>

record 'm update =
  uID :: int
  uMessage :: "'m option"

text \<open>
  What a directory entry is: the JSON of an update, the JSON of a completion, a file with other
  content (a temporary file), a directory.
\<close>

datatype 'm entry =
    UpdateFile "'m update"
  | DoneFile instant
  | OtherFile
  | SubDir

type_synonym 'm dir = "(string \<times> 'm entry) list"

record 'm queue =
  qPending :: "'m dir"
  qCompleted :: "'m dir"

datatype write_outcome = Written | WriteFailed | SyncFailed

record disk =
  ioReadPending :: bool
  ioReadCompleted :: bool
  ioStat :: "string \<Rightarrow> bool"
  ioReadFile :: "string \<Rightarrow> bool"
  ioRemove :: "string \<Rightarrow> bool"
  ioWrite :: "string \<Rightarrow> write_outcome"
  ioSync :: bool

definition in_dir :: "string \<Rightarrow> 'm dir \<Rightarrow> bool" where
  "in_dir name d \<longleftrightarrow> name \<in> fst ` set d"

definition write_file :: "string \<Rightarrow> 'm entry \<Rightarrow> 'm dir \<Rightarrow> 'm dir" where
  "write_file name e d = filter (\<lambda>x. fst x \<noteq> name) d @ [(name, e)]"

definition remove_file :: "string \<Rightarrow> 'm dir \<Rightarrow> 'm dir" where
  "remove_file name d = filter (\<lambda>x. fst x \<noteq> name) d"

text \<open>\<^verbatim>\<open>os.ReadDir\<close> returns the entries sorted by file name.\<close>

definition ReadDir :: "'m dir \<Rightarrow> 'm dir" where
  "ReadDir d = sort_by (\<lambda>x y. str_less (fst x) (fst y)) d"

definition queue_file :: "string \<Rightarrow> string \<times> 'm entry \<Rightarrow> bool" where
  "queue_file pre x \<longleftrightarrow> snd x \<noteq> SubDir \<and> HasPrefix (fst x) pre \<and> HasSuffix (fst x) ''.json''"

definition telegramWebhookMaxPending :: nat where
  "telegramWebhookMaxPending = 128"

definition telegramCompletedRetention :: duration where
  "telegramCompletedRetention = 48 * hour"

section \<open>Operations\<close>

definition OpenTelegramUpdateQueue :: "string \<Rightarrow> 'm queue result" where
  "OpenTelegramUpdateQueue stateDir =
     (if TrimSpace stateDir = [] then Inl ''Telegram queue state directory is required''
      else Inr \<lparr>qPending = [], qCompleted = []\<rparr>)"

fun prune_entries :: "disk \<Rightarrow> instant \<Rightarrow> 'm dir \<Rightarrow> 'm queue \<Rightarrow> string option \<times> 'm queue" where
  "prune_entries io now [] q = (None, q)"
| "prune_entries io now (x # xs) q =
     (if \<not> queue_file ''completed-'' x then prune_entries io now xs q
      else if \<not> ioReadFile io (fst x) then (Some ''cannot read completed Telegram update'', q)
      else (case snd x of
        DoneFile at \<Rightarrow>
          if at = 0 then (Some ''invalid completed Telegram update'', q)
          else if telegramCompletedRetention < now - at then
            (if ioRemove io (fst x)
             then prune_entries io now xs (q\<lparr>qCompleted := remove_file (fst x) (qCompleted q)\<rparr>)
             else (Some ''cannot prune completed Telegram update'', q))
          else prune_entries io now xs q
      | _ \<Rightarrow> (Some ''invalid completed Telegram update'', q)))"

definition pruneCompletedLocked :: "disk \<Rightarrow> instant \<Rightarrow> 'm queue \<Rightarrow> string option \<times> 'm queue" where
  "pruneCompletedLocked io now q =
     (if \<not> ioReadCompleted io then (Some ''cannot inspect completed Telegram updates'', q)
      else prune_entries io now (ReadDir (qCompleted q)) q)"

definition errTelegramQueueFull :: string where
  "errTelegramQueueFull = ''Telegram update queue is full''"

definition Enqueue :: "disk \<Rightarrow> instant \<Rightarrow> 'm update \<Rightarrow> 'm queue \<Rightarrow> bool result \<times> 'm queue" where
  "Enqueue io now u q =
     (let pn = pendingName (uID u); cn = completedName (uID u)
      in if uID u \<le> 0 then (Inl ''invalid Telegram update ID'', q)
      else case pruneCompletedLocked io now q of
        (Some e, q1) \<Rightarrow> (Inl e, q1)
      | (None, q1) \<Rightarrow>
          if \<not> ioStat io pn then (Inl ''cannot inspect pending Telegram update'', q1)
          else if in_dir pn (qPending q1) then (Inr False, q1)
          else if \<not> ioStat io cn then (Inl ''cannot inspect completed Telegram update'', q1)
          else if in_dir cn (qCompleted q1) then (Inr False, q1)
          else if \<not> ioReadPending io then (Inl ''cannot inspect Telegram queue'', q1)
          else if telegramWebhookMaxPending \<le> length (qPending q1) then (Inl errTelegramQueueFull, q1)
          else
            let q2 = q1\<lparr>qPending := write_file pn (UpdateFile u) (qPending q1)\<rparr>
            in (case ioWrite io pn of
                  Written \<Rightarrow> (Inr True, q2)
                | WriteFailed \<Rightarrow> (Inl ''cannot persist Telegram update'', q1)
                | SyncFailed \<Rightarrow> (Inl ''cannot persist Telegram update'', q2)))"

text \<open>
  One pass over the pending directory. \<^term>\<open>Inr None\<close> is an empty pass, after which \<^verbatim>\<open>Next\<close>
  waits for the next tick and looks again.
\<close>

fun next_entries :: "disk \<Rightarrow> 'm dir \<Rightarrow> 'm queue \<Rightarrow> 'm update option result \<times> 'm queue" where
  "next_entries io [] q = (Inr None, q)"
| "next_entries io (x # xs) q =
     (if \<not> queue_file ''pending-'' x then next_entries io xs q
      else (case telegramUpdateID (fst x) ''pending-'' of
        None \<Rightarrow> (Inl ''invalid queued Telegram update filename'', q)
      | Some i \<Rightarrow>
          if \<not> ioStat io (completedName i) then (Inl ''cannot inspect completed Telegram update'', q)
          else if in_dir (completedName i) (qCompleted q) then
            (if ioRemove io (fst x)
             then next_entries io xs (q\<lparr>qPending := remove_file (fst x) (qPending q)\<rparr>)
             else (Inl ''cannot clear completed Telegram update'', q))
          else if \<not> ioReadFile io (fst x) then (Inl ''cannot read queued Telegram update'', q)
          else (case snd x of
            UpdateFile u \<Rightarrow>
              if uID u = i then (Inr (Some u), q) else (Inl ''invalid queued Telegram update'', q)
          | _ \<Rightarrow> (Inl ''invalid queued Telegram update'', q))))"

definition next_pass :: "disk \<Rightarrow> 'm queue \<Rightarrow> 'm update option result \<times> 'm queue" where
  "next_pass io q =
     (if \<not> ioReadPending io then (Inl ''cannot read Telegram queue'', q)
      else next_entries io (ReadDir (qPending q)) q)"

definition Complete :: "disk \<Rightarrow> instant \<Rightarrow> int \<Rightarrow> 'm queue \<Rightarrow> string option \<times> 'm queue" where
  "Complete io now i q =
     (let pn = pendingName i; cn = completedName i
      in if i \<le> 0 then (Some ''invalid Telegram update ID'', q)
      else if \<not> ioStat io pn then (Some ''cannot inspect pending Telegram update'', q)
      else if \<not> in_dir pn (qPending q) then
        (if ioStat io cn \<and> in_dir cn (qCompleted q) then (None, q)
         else (Some ''Telegram update is not pending'', q))
      else
        let q1 = q\<lparr>qCompleted := write_file cn (DoneFile now) (qCompleted q)\<rparr>
        in (case ioWrite io cn of
              WriteFailed \<Rightarrow> (Some ''cannot persist Telegram completion'', q)
            | SyncFailed \<Rightarrow> (Some ''cannot persist Telegram completion'', q1)
            | Written \<Rightarrow>
                if \<not> ioRemove io pn then (Some ''cannot remove completed Telegram update'', q1)
                else let q2 = q1\<lparr>qPending := remove_file pn (qPending q1)\<rparr>
                     in (if ioSync io then None else Some ''cannot sync Telegram queue'', q2)))"

text \<open>
  The contract of \<^verbatim>\<open>TelegramUpdateQueue\<close> towards the worker, when no call fails: \<open>pull\<close>
  hands out the waiting update with the smallest identifier and keeps it waiting, \<open>ack\<close> ends the
  wait of an update.
\<close>

definition worker_round ::
  "('q \<Rightarrow> 'm update option result \<times> 'q) \<Rightarrow> (int \<Rightarrow> 'q \<Rightarrow> string option \<times> 'q) \<Rightarrow>
     ('m update \<Rightarrow> 'w \<Rightarrow> string option \<times> 'w) \<Rightarrow> 'q \<times> 'w \<Rightarrow> 'q \<times> 'w" where
  "worker_round pull ack processUpdate s =
     (case s of (q, w) \<Rightarrow>
       (case pull q of
          (Inr (Some u), q1) \<Rightarrow>
            (case processUpdate u w of
               (Some e, w1) \<Rightarrow> (q1, w1)
             | (None, w1) \<Rightarrow> (snd (ack (uID u) q1), w1))
        | (_, q1) \<Rightarrow> (q1, w)))"

locale update_queue =
  fixes pull :: "'q \<Rightarrow> 'm update option result \<times> 'q"
    and ack :: "int \<Rightarrow> 'q \<Rightarrow> string option \<times> 'q"
    and wf :: "'q \<Rightarrow> bool"
    and waits :: "'q \<Rightarrow> 'm update set"
  assumes finite_waits: "wf q \<Longrightarrow> finite (waits q)"
    and one_per_id: "wf q \<Longrightarrow> u \<in> waits q \<Longrightarrow> v \<in> waits q \<Longrightarrow> uID u = uID v \<Longrightarrow> u = v"
    and pull_keeps: "wf q \<Longrightarrow> wf (snd (pull q)) \<and> waits (snd (pull q)) = waits q"
    and pull_least: "wf q \<Longrightarrow> waits q \<noteq> {} \<Longrightarrow>
      \<exists>u. fst (pull q) = Inr (Some u) \<and> u \<in> waits q \<and> (\<forall>v \<in> waits q. uID u \<le> uID v)"
    and ack_ends: "wf q \<Longrightarrow> u \<in> waits q \<Longrightarrow>
      wf (snd (ack (uID u) q)) \<and> waits (snd (ack (uID u) q)) = waits q - {u}"
begin

lemma round_serves:
  assumes "wf q" and "waits q \<noteq> {}" and "\<And>u w. processUpdate u w = (None, f u w)"
  shows "\<exists>u q'. worker_round pull ack processUpdate (q, w) = (q', f u w) \<and> wf q' \<and> u \<in> waits q \<and>
    (\<forall>v \<in> waits q. uID u \<le> uID v) \<and> waits q' = waits q - {u}"
proof -
  obtain u where u: "fst (pull q) = Inr (Some u)" "u \<in> waits q" "\<forall>v \<in> waits q. uID u \<le> uID v"
    using pull_least [OF assms(1,2)] by blast
  let ?q = "snd (pull q)"
  have k: "wf ?q" "waits ?q = waits q" using pull_keeps [OF assms(1)] by auto
  have "worker_round pull ack processUpdate (q, w) = (snd (ack (uID u) ?q), f u w)"
    using u(1) assms(3) by (cases "pull q") (simp add: worker_round_def)
  moreover have "wf (snd (ack (uID u) ?q))" "waits (snd (ack (uID u) ?q)) = waits q - {u}"
    using ack_ends [OF k(1)] k(2) u(2) by auto
  ultimately show ?thesis using u by blast
qed

lemma rounds_drain:
  assumes "wf q" and "\<And>u w. processUpdate u w = (None, f u w)"
  shows "\<exists>us q'. (worker_round pull ack processUpdate ^^ length us) (q, w) = (q', fold f us w) \<and>
    set us = waits q \<and> sorted_wrt (<) (map uID us) \<and> wf q' \<and> waits q' = {}"
  using assms(1)
proof (induction "card (waits q)" arbitrary: q w)
  case 0
  then have "waits q = {}" using finite_waits by (metis card_0_eq)
  with 0(2) show ?case by (intro exI [of _ "[]"]) auto
next
  case (Suc n)
  then have "waits q \<noteq> {}" by auto
  then obtain u q' where
    r: "worker_round pull ack processUpdate (q, w) = (q', f u w)" and wf': "wf q'"
    and u: "u \<in> waits q" "\<forall>v \<in> waits q. uID u \<le> uID v" and w': "waits q' = waits q - {u}"
    using round_serves [of q processUpdate f w, OF Suc.prems _ assms(2)] by blast
  have "n = card (waits q')" using Suc.hyps(2) u(1) finite_waits [OF Suc.prems] w' by simp
  from Suc.hyps(1) [OF this wf', of "f u w"] obtain us q'' where
    us: "(worker_round pull ack processUpdate ^^ length us) (q', f u w) = (q'', fold f us (f u w))"
      "set us = waits q'" "sorted_wrt (<) (map uID us)" "wf q''" "waits q'' = {}"
    by blast
  have "uID u < uID v" if "v \<in> set us" for v
    using that us(2) w' u one_per_id [OF Suc.prems] by (metis Diff_iff insertCI less_le)
  moreover have "(worker_round pull ack processUpdate ^^ length (u # us)) (q, w) = (q'', fold f (u # us) w)"
    using us(1) r by (simp add: funpow_Suc_right del: funpow.simps)
  moreover have "set (u # us) = waits q" using us(2) u(1) w' by auto
  ultimately show ?case using us(3-5) by (intro exI [of _ "u # us"] exI [of _ q'']) simp
qed

end

section \<open>File names are the numbers\<close>

lemma of_char_digit: "d < 10 \<Longrightarrow> of_char (digit d) = 48 + d"
  by (simp add: digit_def)

lemma length_decimal [simp]: "length (decimal k n) = k"
  by (induction k arbitrary: n) auto

lemma decimal_digits: "list_all is_digit (decimal k n)"
  by (induction k arbitrary: n) (auto simp: is_digit_def of_char_digit)

lemma digits_value_snoc: "digits_value (s @ [c]) = 10 * digits_value s + (of_char c - 48)"
  by (simp add: digits_value_def)

lemma of_char_digit_int: "d < 10 \<Longrightarrow> of_char (digit d) = (48 + int d :: int)"
  using of_char_digit [of d] by (metis of_nat_add of_nat_numeral of_nat_of_char)

lemma digits_value_decimal: "n < 10 ^ k \<Longrightarrow> digits_value (decimal k n) = int n"
proof (induction k arbitrary: n)
  case (Suc k)
  then have "n div 10 < 10 ^ k" by simp
  with Suc.IH have "digits_value (decimal k (n div 10)) = int (n div 10)" by simp
  then show ?case by (simp add: digits_value_snoc of_char_digit_int zdiv_int zmod_int)
qed (simp add: digits_value_def)

lemma str_less_append_same [simp]: "str_less (a @ x) (a @ y) = str_less x y"
  by (induction a) auto

lemma str_less_append: "str_less a b \<Longrightarrow> length a = length b \<Longrightarrow> str_less (a @ x) (b @ y)"
proof (induction a b rule: str_less.induct)
  case (3 u us v vs)
  then show ?case by auto
qed auto

lemma decimal_less: "m < n \<Longrightarrow> n < 10 ^ k \<Longrightarrow> str_less (decimal k m) (decimal k n)"
proof (induction k arbitrary: m n)
  case (Suc k)
  show ?case
  proof (cases "m div 10 = n div 10")
    case True
    with Suc.prems(1) have "m mod 10 < n mod 10"
      by (metis div_mult_mod_eq nat_add_left_cancel_less)
    then show ?thesis by (simp add: True of_char_digit)
  next
    case False
    then have "m div 10 < n div 10" using Suc.prems(1) by (simp add: div_le_mono less_le)
    moreover have "n div 10 < 10 ^ k" using Suc.prems(2) by simp
    ultimately show ?thesis using Suc.IH by (simp add: str_less_append)
  qed
qed simp

abbreviation valid_id :: "int \<Rightarrow> bool" where
  "valid_id i \<equiv> 0 < i \<and> i < 2 ^ 63"

lemma ParseInt64_decimal:
  assumes "valid_id i" shows "ParseInt64 (decimal 20 (nat i)) = Some i"
proof -
  have v: "digits_value (decimal 20 (nat i)) = i"
    using assms by (subst digits_value_decimal) auto
  obtain c cs where d: "decimal 20 (nat i) = c # cs" by (cases "decimal 20 (nat i)") (auto dest: arg_cong [of _ _ length])
  then have "is_digit c" using decimal_digits [of 20 "nat i"] by simp
  then have "c \<noteq> CHR ''-''" "c \<noteq> CHR ''+''" by (auto simp: is_digit_def)
  with d have "\<not> HasPrefix (decimal 20 (nat i)) ''-''" "\<not> HasPrefix (decimal 20 (nat i)) ''+''"
    by (simp_all add: HasPrefix_def)
  with v d assms decimal_digits [of 20 "nat i"] show ?thesis by (simp add: ParseInt64_def)
qed

lemma pendingName_id: "valid_id i \<Longrightarrow> telegramUpdateID (pendingName i) ''pending-'' = Some i"
  unfolding telegramUpdateID_def pendingName_def
  by (simp only: TrimPrefix_append TrimSuffix_append ParseInt64_decimal)

lemma pendingName_inj: "valid_id i \<Longrightarrow> valid_id j \<Longrightarrow> pendingName i = pendingName j \<Longrightarrow> i = j"
  by (metis option.inject pendingName_id)

lemma completedName_inj:
  assumes "valid_id i" "valid_id j" "completedName i = completedName j" shows "i = j"
proof -
  have "decimal 20 (nat i) = decimal 20 (nat j)" using assms(3) by (simp add: completedName_def)
  with assms show ?thesis by (metis ParseInt64_decimal option.inject)
qed

lemma pendingName_less:
  "valid_id i \<Longrightarrow> valid_id j \<Longrightarrow> str_less (pendingName i) (pendingName j) \<longleftrightarrow> i < j"
proof -
  assume v: "valid_id i" "valid_id j"
  have less: "str_less (pendingName a) (pendingName b)" if "valid_id a" "valid_id b" "a < b" for a b
  proof -
    have "str_less (decimal 20 (nat a)) (decimal 20 (nat b))" by (rule decimal_less) (use that in auto)
    then have "str_less (decimal 20 (nat a) @ ''.json'') (decimal 20 (nat b) @ ''.json'')"
      by (rule str_less_append) simp
    then show ?thesis unfolding pendingName_def by (simp only: str_less_append_same)
  qed
  show ?thesis
    using less [of i j] less [of j i] v str_less_trans str_less_irrefl by (metis linorder_neqE)
qed

lemma queue_file_pending [simp]: "queue_file ''pending-'' (pendingName i, UpdateFile u)"
proof -
  have "HasSuffix (pendingName i) ''.json''" and "HasPrefix (pendingName i) ''pending-''"
    unfolding pendingName_def by (metis append_assoc HasSuffix_append) (rule HasPrefix_append)
  then show ?thesis by (simp add: queue_file_def)
qed

section \<open>Well-formed queues\<close>

definition temp_file :: "string \<times> 'm entry \<Rightarrow> bool" where
  "temp_file x \<longleftrightarrow> HasPrefix (fst x) ''.telegram-queue-'' \<and> snd x = OtherFile"

definition pending_entry :: "string \<times> 'm entry \<Rightarrow> bool" where
  "pending_entry x \<longleftrightarrow> (\<exists>u. x = (pendingName (uID u), UpdateFile u) \<and> valid_id (uID u))"

definition completed_entry :: "string \<times> 'm entry \<Rightarrow> bool" where
  "completed_entry x \<longleftrightarrow> (\<exists>i t. x = (completedName i, DoneFile t) \<and> valid_id i)"

definition wf_queue :: "'m queue \<Rightarrow> bool" where
  "wf_queue q \<longleftrightarrow>
     keyed fst (qPending q) \<and> keyed fst (qCompleted q) \<and>
     (\<forall>x \<in> set (qPending q). pending_entry x \<or> temp_file x) \<and>
     (\<forall>x \<in> set (qCompleted q). completed_entry x \<or> temp_file x)"

text \<open>The updates that wait: pending and not completed.\<close>

definition waiting :: "'m queue \<Rightarrow> 'm update set" where
  "waiting q = {u. (pendingName (uID u), UpdateFile u) \<in> set (qPending q) \<and>
     \<not> in_dir (completedName (uID u)) (qCompleted q)}"

lemma pending_valid:
  assumes "wf_queue q" and "(n, UpdateFile u) \<in> set (qPending q)"
  shows "n = pendingName (uID u) \<and> valid_id (uID u)"
  using assms by (force simp: wf_queue_def pending_entry_def temp_file_def)

lemma waiting_valid: "wf_queue q \<Longrightarrow> u \<in> waiting q \<Longrightarrow> valid_id (uID u)"
  using pending_valid by (fastforce simp: waiting_def)

lemma pending_unique:
  assumes "wf_queue q" and "(n, e) \<in> set (qPending q)" and "(n, e') \<in> set (qPending q)"
  shows "e = e'"
  using assms by (auto simp: wf_queue_def dest: eq_key_imp_eq_value)

lemma waiting_inj: "wf_queue q \<Longrightarrow> u \<in> waiting q \<Longrightarrow> v \<in> waiting q \<Longrightarrow> uID u = uID v \<Longrightarrow> u = v"
  using pending_unique by (fastforce simp: waiting_def)

lemma finite_waiting: "finite (waiting q)"
proof (rule finite_subset)
  show "waiting q \<subseteq> (\<lambda>x. case snd x of UpdateFile u \<Rightarrow> u | _ \<Rightarrow> undefined) ` set (qPending q)"
    by (force simp: waiting_def image_iff)
qed simp

lemma not_temp: "HasPrefix n ''pending-'' \<Longrightarrow> \<not> HasPrefix n ''.telegram-queue-''"
  by (cases n) (auto simp: HasPrefix_def)

section \<open>One pass over the pending directory\<close>

definition completed_entry_of :: "'m queue \<Rightarrow> string \<times> 'm entry \<Rightarrow> bool" where
  "completed_entry_of q x \<longleftrightarrow> queue_file ''pending-'' x \<and>
     (\<exists>i. telegramUpdateID (fst x) ''pending-'' = Some i \<and> in_dir (completedName i) (qCompleted q))"

text \<open>A pass only removes entries that were completed.\<close>

definition shrinks :: "'m queue \<Rightarrow> 'm queue \<Rightarrow> bool" where
  "shrinks q q' \<longleftrightarrow> qCompleted q' = qCompleted q \<and>
     (\<exists>P. qPending q' = filter P (qPending q) \<and> (\<forall>x \<in> set (qPending q). \<not> P x \<longrightarrow> completed_entry_of q x))"

lemma shrinks_self [simp]: "shrinks q q"
  unfolding shrinks_def by (auto intro!: exI [of _ "\<lambda>_. True"])

lemma shrinks_trans: "shrinks a b \<Longrightarrow> shrinks b c \<Longrightarrow> shrinks a c"
  unfolding shrinks_def completed_entry_of_def
proof (elim conjE exE, intro conjI)
  fix P R
  assume "qPending b = filter P (qPending a)" "qPending c = filter R (qPending b)"
    "qCompleted b = qCompleted a"
    and "\<forall>x\<in>set (qPending a). \<not> P x \<longrightarrow> queue_file ''pending-'' x \<and>
      (\<exists>i. telegramUpdateID (fst x) ''pending-'' = Some i \<and> in_dir (completedName i) (qCompleted a))"
    and "\<forall>x\<in>set (qPending b). \<not> R x \<longrightarrow> queue_file ''pending-'' x \<and>
      (\<exists>i. telegramUpdateID (fst x) ''pending-'' = Some i \<and> in_dir (completedName i) (qCompleted b))"
  then show "\<exists>P. qPending c = filter P (qPending a) \<and>
      (\<forall>x\<in>set (qPending a). \<not> P x \<longrightarrow> queue_file ''pending-'' x \<and>
        (\<exists>i. telegramUpdateID (fst x) ''pending-'' = Some i \<and> in_dir (completedName i) (qCompleted a)))"
    by (intro exI [of _ "\<lambda>x. P x \<and> R x"]) auto
qed simp

lemma shrinks_remove:
  assumes "queue_file ''pending-'' x" and "keyed fst (qPending q)" and "x \<in> set (qPending q)"
    and "telegramUpdateID (fst x) ''pending-'' = Some i" and "in_dir (completedName i) (qCompleted q)"
  shows "shrinks q (q\<lparr>qPending := remove_file (fst x) (qPending q)\<rparr>)"
proof -
  have "y = x" if "y \<in> set (qPending q)" "fst y = fst x" for y
    using that assms(2,3) by (metis distinct_map inj_onD)
  then show ?thesis
    unfolding shrinks_def remove_file_def completed_entry_of_def
    using assms by (auto intro!: exI [of _ "\<lambda>y. fst y \<noteq> fst x"])
qed

lemma shrinks_waiting:
  assumes "wf_queue q" and "shrinks q q'"
  shows "wf_queue q' \<and> waiting q' = waiting q"
proof -
  obtain P where c: "qCompleted q' = qCompleted q" and p: "qPending q' = filter P (qPending q)"
    and k: "\<forall>x \<in> set (qPending q). \<not> P x \<longrightarrow> completed_entry_of q x"
    using assms(2) by (auto simp: shrinks_def)
  have "P (pendingName (uID u), UpdateFile u)" if "u \<in> waiting q" for u
    using k that pendingName_id waiting_valid [OF assms(1) that]
    by (auto simp: waiting_def completed_entry_of_def)
  then have "waiting q' = waiting q" by (auto simp: waiting_def c p)
  moreover have "wf_queue q'" using assms(1) by (auto simp: wf_queue_def c p distinct_map_filter)
  ultimately show ?thesis by simp
qed

lemma next_entries_shrinks:
  assumes "keyed fst (qPending q)" and "distinct xs" and "set xs \<subseteq> set (qPending q)"
    and "next_entries io xs q = (r, q')"
  shows "shrinks q q'"
  using assms
proof (induction xs arbitrary: q)
  case (Cons x xs)
  consider (skip) "\<not> queue_file ''pending-'' x" | (stop) "q' = q"
    | (remove) i where "queue_file ''pending-'' x" "telegramUpdateID (fst x) ''pending-'' = Some i"
        "in_dir (completedName i) (qCompleted q)"
        "next_entries io xs (q\<lparr>qPending := remove_file (fst x) (qPending q)\<rparr>) = (r, q')"
    using Cons.prems(4) by (auto split: if_splits option.splits entry.splits)
  then show ?case
  proof cases
    case remove
    let ?q = "q\<lparr>qPending := remove_file (fst x) (qPending q)\<rparr>"
    have "shrinks q ?q" using remove Cons.prems by (intro shrinks_remove) auto
    moreover have "shrinks ?q q'"
    proof (rule Cons.IH)
      show "keyed fst (qPending ?q)" using Cons.prems(1) by (simp add: remove_file_def distinct_map_filter)
      have "fst y \<noteq> fst x" if "y \<in> set xs" for y
        using that Cons.prems(1-3) by (metis distinct.simps(2) distinct_map inj_onD insert_subset list.simps(15) subsetD)
      then show "set xs \<subseteq> set (qPending ?q)" using Cons.prems(3) by (auto simp: remove_file_def)
    qed (use Cons.prems remove in auto)
    ultimately show ?thesis by (rule shrinks_trans)
  qed (use Cons in auto)
qed simp

lemma ReadDir_entries: "keyed fst d \<Longrightarrow> distinct (ReadDir d) \<and> set (ReadDir d) = set d"
proof -
  assume "keyed fst d"
  then have "distinct d" by (simp add: distinct_map)
  moreover have "distinct (ReadDir d) = distinct d"
    unfolding ReadDir_def by (rule mset_eq_imp_distinct_iff) simp
  ultimately show ?thesis by (simp add: ReadDir_def)
qed

lemma next_pass_keeps:
  assumes "wf_queue q" and "next_pass io q = (r, q')"
  shows "shrinks q q' \<and> wf_queue q' \<and> waiting q' = waiting q"
proof -
  have k: "keyed fst (qPending q)" using assms(1) by (simp add: wf_queue_def)
  have "shrinks q q'"
  proof (cases "ioReadPending io")
    case True
    with assms(2) have "next_entries io (ReadDir (qPending q)) q = (r, q')" by (simp add: next_pass_def)
    from next_entries_shrinks [OF k _ _ this] ReadDir_entries [OF k] show ?thesis by simp
  next
    case False
    with assms(2) show ?thesis by (simp add: next_pass_def)
  qed
  with shrinks_waiting [OF assms(1) this] show ?thesis by blast
qed

lemma next_entries_found:
  assumes "next_entries io xs q = (Inr (Some u), q')"
  shows "\<exists>n. (n, UpdateFile u) \<in> set xs \<and> telegramUpdateID n ''pending-'' = Some (uID u) \<and>
    \<not> in_dir (completedName (uID u)) (qCompleted q)"
  using assms
proof (induction xs arbitrary: q)
  case (Cons x xs)
  show ?case
  proof (cases "queue_file ''pending-'' x \<and> (\<exists>i. telegramUpdateID (fst x) ''pending-'' = Some i \<and>
      \<not> in_dir (completedName i) (qCompleted q))")
    case True
    with Cons.prems show ?thesis by (cases x) (auto split: if_splits entry.splits)
  next
    case False
    with Cons.prems have "next_entries io xs q = (Inr (Some u), q') \<or>
      next_entries io xs (q\<lparr>qPending := remove_file (fst x) (qPending q)\<rparr>) = (Inr (Some u), q')"
      by (auto split: if_splits option.splits)
    then show ?thesis using Cons.IH [of q] Cons.IH [of "q\<lparr>qPending := remove_file (fst x) (qPending q)\<rparr>"] by auto
  qed
qed simp

text \<open>What a pass hands out waits, even when calls fail.\<close>

lemma next_pass_waiting:
  assumes "wf_queue q" and "next_pass io q = (Inr (Some u), q')"
  shows "u \<in> waiting q"
proof -
  have k: "keyed fst (qPending q)" using assms(1) by (simp add: wf_queue_def)
  obtain n where n: "(n, UpdateFile u) \<in> set (qPending q)" "\<not> in_dir (completedName (uID u)) (qCompleted q)"
    using assms(2) next_entries_found [of io "ReadDir (qPending q)" q u q'] ReadDir_entries [OF k]
    by (auto simp: next_pass_def split: if_splits)
  with pending_valid [OF assms(1) n(1)] show ?thesis by (auto simp: waiting_def)
qed

section \<open>Effects of the operations\<close>

text \<open>Completions older than the retention time may go, nothing else.\<close>

definition pruned :: "instant \<Rightarrow> 'm queue \<Rightarrow> 'm queue \<Rightarrow> bool" where
  "pruned now q q' \<longleftrightarrow>
     (\<exists>P. qCompleted q' = filter P (qCompleted q) \<and>
        (\<forall>x \<in> set (qCompleted q). \<not> P x \<longrightarrow>
           (\<exists>at. snd x = DoneFile at \<and> telegramCompletedRetention < now - at)))"

lemma pruned_same: "qCompleted q' = qCompleted q \<Longrightarrow> pruned now q q'"
  unfolding pruned_def by (auto intro!: exI [of _ "\<lambda>_. True"])

lemma pruned_in: "pruned now q q' \<Longrightarrow> set (qCompleted q') \<subseteq> set (qCompleted q)"
  by (auto simp: pruned_def)

lemma pruned_keyed: "pruned now q q' \<Longrightarrow> keyed fst (qCompleted q) \<Longrightarrow> keyed fst (qCompleted q')"
  by (auto simp: pruned_def distinct_map_filter)

lemma prune_entries_effect:
  assumes "keyed fst (qCompleted q)" and "set xs \<subseteq> set (qCompleted q0)" and "pruned now q0 q"
    and "keyed fst (qCompleted q0)" and "prune_entries io now xs q = (r, q')"
  shows "qPending q' = qPending q \<and> pruned now q0 q'"
  using assms
proof (induction xs arbitrary: q)
  case (Cons x xs)
  consider (skip) "prune_entries io now xs q = (r, q')" | (stop) "q' = q"
    | (remove) at where "snd x = DoneFile at" "telegramCompletedRetention < now - at"
        "prune_entries io now xs (q\<lparr>qCompleted := remove_file (fst x) (qCompleted q)\<rparr>) = (r, q')"
    using Cons.prems(5) by (auto split: if_splits entry.splits)
  then show ?case
  proof cases
    case skip
    with Cons show ?thesis by simp
  next
    case stop
    with Cons.prems show ?thesis by simp
  next
    case remove
    let ?q = "q\<lparr>qCompleted := remove_file (fst x) (qCompleted q)\<rparr>"
    obtain P where P: "qCompleted q = filter P (qCompleted q0)"
      "\<forall>y \<in> set (qCompleted q0). \<not> P y \<longrightarrow> (\<exists>at. snd y = DoneFile at \<and> telegramCompletedRetention < now - at)"
      using Cons.prems(3) by (auto simp: pruned_def)
    have "y = x" if "y \<in> set (qCompleted q0)" "fst y = fst x" for y
      using that Cons.prems(2,4) by (metis distinct_map inj_onD insert_subset list.simps(15))
    then have "pruned now q0 ?q"
      using P remove(1,2) unfolding pruned_def remove_file_def
      by (intro exI [of _ "\<lambda>y. P y \<and> fst y \<noteq> fst x"]) (auto simp: conj_commute)
    moreover have "keyed fst (qCompleted ?q)"
      using Cons.prems(1) by (simp add: remove_file_def distinct_map_filter)
    ultimately show ?thesis using Cons.IH [of ?q] Cons.prems(2,4) remove(3) by simp
  qed
qed simp

lemma prune_effect:
  assumes "keyed fst (qCompleted q)" and "pruneCompletedLocked io now q = (r, q')"
  shows "qPending q' = qPending q \<and> pruned now q q'"
proof (cases "ioReadCompleted io")
  case True
  with assms(2) have "prune_entries io now (ReadDir (qCompleted q)) q = (r, q')"
    by (simp add: pruneCompletedLocked_def)
  then show ?thesis
    using ReadDir_entries [OF assms(1)] assms(1) by (intro prune_entries_effect) (auto intro: pruned_same)
next
  case False
  with assms(2) show ?thesis by (simp add: pruneCompletedLocked_def pruned_same)
qed

lemma write_new: "\<not> in_dir n d \<Longrightarrow> write_file n e d = d @ [(n, e)]"
  by (auto simp: write_file_def in_dir_def image_iff intro!: filter_True)

lemma Enqueue_effect:
  assumes "keyed fst (qCompleted q)" and "Enqueue io now u q = (r, q')"
  shows "pruned now q q' \<and> r \<noteq> Inr True \<and> qPending q' = qPending q \<or>
    pruned now q q' \<and> 0 < uID u \<and> qPending q' = qPending q @ [(pendingName (uID u), UpdateFile u)] \<and>
      \<not> in_dir (pendingName (uID u)) (qPending q) \<and> \<not> in_dir (completedName (uID u)) (qCompleted q') \<and>
      length (qPending q) < telegramWebhookMaxPending"
proof (cases "uID u \<le> 0")
  case True
  with assms(2) show ?thesis by (auto simp: Enqueue_def Let_def pruned_same)
next
  case False
  obtain e q1 where p: "pruneCompletedLocked io now q = (e, q1)" by (cases "pruneCompletedLocked io now q")
  from prune_effect [OF assms(1) p] have k: "qPending q1 = qPending q" "pruned now q q1" by auto
  have w: "pruned now q (q1\<lparr>qPending := d\<rparr>)" for d using k(2) by (simp add: pruned_def)
  show ?thesis
    using assms(2) False k w
    by (auto simp: Enqueue_def p Let_def write_new split: option.splits if_splits write_outcome.splits)
qed

lemma Complete_effect:
  assumes "Complete io now i q = (r, q')"
  shows "q' = q \<or> 0 < i \<and> in_dir (pendingName i) (qPending q) \<and>
    qCompleted q' = write_file (completedName i) (DoneFile now) (qCompleted q) \<and>
    (qPending q' = qPending q \<or> qPending q' = remove_file (pendingName i) (qPending q))"
  using assms by (auto simp: Complete_def Let_def split: if_splits write_outcome.splits)

section \<open>Runs\<close>

text \<open>
  A step is a call of an operation, with whatever calls of it fail, or a crash that leaves a temporary
  file in one of the directories. A crash between two writes of an operation leaves the state of the
  operation with a failing second call.
\<close>

datatype 'm label = LEnqueue "'m update" | LNext | LComplete int | LCrash string

inductive queue_step :: "instant \<Rightarrow> 'm label \<Rightarrow> 'm queue \<Rightarrow> 'm queue \<Rightarrow> bool" for now where
  enqueue: "Enqueue io now u q = (r, q') \<Longrightarrow> uID u < 2 ^ 63 \<Longrightarrow> queue_step now (LEnqueue u) q q'"
| pass: "next_pass io q = (r', q') \<Longrightarrow> queue_step now LNext q q'"
| complete: "Complete io now i q = (r'', q') \<Longrightarrow> i < 2 ^ 63 \<Longrightarrow> queue_step now (LComplete i) q q'"
| crash_pending: "HasPrefix n ''.telegram-queue-'' \<Longrightarrow>
    queue_step now (LCrash n) q (q\<lparr>qPending := write_file n OtherFile (qPending q)\<rparr>)"
| crash_completed: "HasPrefix n ''.telegram-queue-'' \<Longrightarrow>
    queue_step now (LCrash n) q (q\<lparr>qCompleted := write_file n OtherFile (qCompleted q)\<rparr>)"

inductive queue_run :: "('m label \<times> instant) list \<Rightarrow> 'm queue \<Rightarrow> 'm queue \<Rightarrow> bool" where
  start: "queue_run [] q q"
| step: "queue_run ls q q' \<Longrightarrow> queue_step t l q' q'' \<Longrightarrow> queue_run (ls @ [(l, t)]) q q''"

inductive_cases queue_stepE: "queue_step now l q q'"

lemma keyed_write: "keyed fst d \<Longrightarrow> keyed fst (write_file n e d)"
  by (auto simp: write_file_def distinct_map_filter)

lemma set_write: "x \<in> set (write_file n e d) \<longleftrightarrow> x = (n, e) \<or> x \<in> set d \<and> fst x \<noteq> n"
  by (auto simp: write_file_def)

lemma keyed_remove: "keyed fst d \<Longrightarrow> keyed fst (remove_file n d)"
  by (simp add: remove_file_def distinct_map_filter)

lemma queue_step_wf:
  assumes "queue_step now l q q'" and "wf_queue q"
  shows "wf_queue q'"
  using assms(1)
proof cases
  case (enqueue io u r)
  from Enqueue_effect [OF _ enqueue(2)] assms(2) have
    "pruned now q q'" "qPending q' = qPending q \<or> 0 < uID u \<and>
       qPending q' = qPending q @ [(pendingName (uID u), UpdateFile u)] \<and>
       \<not> in_dir (pendingName (uID u)) (qPending q)"
    by (auto simp: wf_queue_def)
  moreover have "pending_entry (pendingName (uID u), UpdateFile u)" if "0 < uID u"
    using that enqueue(3) by (auto simp: pending_entry_def)
  ultimately show ?thesis
    using assms(2) pruned_keyed [of now q q'] pruned_in [of now q q']
    by (auto simp: wf_queue_def in_dir_def)
next
  case (pass io r)
  then show ?thesis using next_pass_keeps assms(2) by blast
next
  case (complete io i r)
  from Complete_effect [OF complete(2)] show ?thesis
  proof
    assume "0 < i \<and> in_dir (pendingName i) (qPending q) \<and>
      qCompleted q' = write_file (completedName i) (DoneFile now) (qCompleted q) \<and>
      (qPending q' = qPending q \<or> qPending q' = remove_file (pendingName i) (qPending q))"
    moreover have "completed_entry (completedName i, DoneFile now)" if "0 < i"
      using that complete(3) by (auto simp: completed_entry_def)
    ultimately show ?thesis
      using assms(2) by (auto simp: wf_queue_def keyed_write keyed_remove set_write) (auto simp: remove_file_def)
  qed (use assms(2) in simp)
next
  case (crash_pending n)
  with assms(2) show ?thesis by (auto simp: wf_queue_def keyed_write set_write temp_file_def)
next
  case (crash_completed n)
  with assms(2) show ?thesis by (auto simp: wf_queue_def keyed_write set_write temp_file_def)
qed

lemma queue_run_wf:
  "queue_run ls q q' \<Longrightarrow> wf_queue q \<Longrightarrow> wf_queue q'"
  by (induction rule: queue_run.induct) (auto intro: queue_step_wf)

section \<open>The directories as a queue\<close>

definition good_disk :: disk where
  "good_disk = \<lparr>ioReadPending = True, ioReadCompleted = True, ioStat = (\<lambda>_. True),
     ioReadFile = (\<lambda>_. True), ioRemove = (\<lambda>_. True), ioWrite = (\<lambda>_. Written), ioSync = True\<rparr>"

lemma temp_not_queue_file: "temp_file x \<Longrightarrow> \<not> queue_file ''pending-'' x"
  using not_temp by (auto simp: temp_file_def queue_file_def)

lemma next_entries_good:
  assumes "\<forall>x \<in> set xs. pending_entry x \<or> temp_file x"
    and "sorted_wrt (\<lambda>x y. \<not> str_less (fst y) (fst x)) xs"
  shows "(fst (next_entries good_disk xs q) = Inr None \<and>
      (\<forall>u. (pendingName (uID u), UpdateFile u) \<in> set xs \<longrightarrow> in_dir (completedName (uID u)) (qCompleted q))) \<or>
    (\<exists>u. fst (next_entries good_disk xs q) = Inr (Some u) \<and> (pendingName (uID u), UpdateFile u) \<in> set xs \<and>
      (\<forall>v. (pendingName (uID v), UpdateFile v) \<in> set xs \<longrightarrow>
         in_dir (completedName (uID v)) (qCompleted q) \<or> uID u \<le> uID v))"
  using assms
proof (induction xs arbitrary: q)
  case (Cons x xs)
  show ?case
  proof (cases "temp_file x")
    case True
    then have e: "next_entries good_disk (x # xs) q = next_entries good_disk xs q"
      by (simp add: temp_not_queue_file)
    have m: "(pendingName (uID u), UpdateFile u) \<in> set (x # xs) \<longleftrightarrow>
        (pendingName (uID u), UpdateFile u) \<in> set xs" for u
      using True temp_not_queue_file queue_file_pending by (metis set_ConsD list.set_intros(2))
    show ?thesis unfolding e m using Cons.prems by (intro Cons.IH) auto
  next
    case False
    then obtain u where x: "x = (pendingName (uID u), UpdateFile u)" and v: "valid_id (uID u)"
      using Cons.prems(1) by (auto simp: pending_entry_def)
    show ?thesis
    proof (cases "in_dir (completedName (uID u)) (qCompleted q)")
      case True
      let ?q = "q\<lparr>qPending := remove_file (pendingName (uID u)) (qPending q)\<rparr>"
      have "next_entries good_disk (x # xs) q = next_entries good_disk xs ?q"
        using True v by (simp add: x pendingName_id good_disk_def)
      then show ?thesis
        using Cons.IH [of ?q] Cons.prems True by (auto simp: x simp del: next_entries.simps)
    next
      case d: False
      have "fst (next_entries good_disk (x # xs) q) = Inr (Some u)"
        using d v by (simp add: x pendingName_id good_disk_def)
      moreover have "uID u \<le> uID w" if "(pendingName (uID w), UpdateFile w) \<in> set xs" for w
      proof -
        have "pending_entry (pendingName (uID w), UpdateFile w)"
          using that Cons.prems(1) temp_not_queue_file queue_file_pending by fastforce
        then have "valid_id (uID w)" by (auto simp: pending_entry_def)
        with v that Cons.prems(2) pendingName_less [of "uID w" "uID u"] show ?thesis by (auto simp: x)
      qed
      ultimately show ?thesis by (intro disjI2 exI [of _ u]) (auto simp: x simp del: next_entries.simps)
    qed
  qed
qed simp

lemma ReadDir_sorted: "sorted_wrt (\<lambda>x y. \<not> str_less (fst y) (fst x)) (ReadDir d)"
  unfolding ReadDir_def
  by (rule sorted_sort_by) (metis str_less_total str_less_trans, metis str_less_irrefl str_less_trans)

lemma next_pass_good:
  assumes "wf_queue q"
  shows "(fst (next_pass good_disk q) = Inr None \<and> waiting q = {}) \<or>
    (\<exists>u. fst (next_pass good_disk q) = Inr (Some u) \<and> u \<in> waiting q \<and> (\<forall>v \<in> waiting q. uID u \<le> uID v))"
proof -
  have s: "set (ReadDir (qPending q)) = set (qPending q)"
    using assms ReadDir_entries by (auto simp: wf_queue_def)
  have n: "next_pass good_disk q = next_entries good_disk (ReadDir (qPending q)) q"
    by (simp add: next_pass_def good_disk_def)
  have "\<forall>x \<in> set (ReadDir (qPending q)). pending_entry x \<or> temp_file x"
    using assms s by (auto simp: wf_queue_def)
  from next_entries_good [OF this ReadDir_sorted, of q] show ?thesis
  proof
    assume "fst (next_entries good_disk (ReadDir (qPending q)) q) = Inr None \<and>
      (\<forall>u. (pendingName (uID u), UpdateFile u) \<in> set (ReadDir (qPending q)) \<longrightarrow>
        in_dir (completedName (uID u)) (qCompleted q))"
    then show ?thesis by (auto simp: n s waiting_def)
  next
    assume "\<exists>u. fst (next_entries good_disk (ReadDir (qPending q)) q) = Inr (Some u) \<and>
      (pendingName (uID u), UpdateFile u) \<in> set (ReadDir (qPending q)) \<and>
      (\<forall>v. (pendingName (uID v), UpdateFile v) \<in> set (ReadDir (qPending q)) \<longrightarrow>
         in_dir (completedName (uID v)) (qCompleted q) \<or> uID u \<le> uID v)"
    then obtain u where u: "fst (next_pass good_disk q) = Inr (Some u)"
      "\<forall>v. (pendingName (uID v), UpdateFile v) \<in> set (qPending q) \<longrightarrow>
         in_dir (completedName (uID v)) (qCompleted q) \<or> uID u \<le> uID v"
      by (auto simp: n s)
    with next_pass_waiting [OF assms, of good_disk u] have "u \<in> waiting q"
      by (cases "next_pass good_disk q") auto
    with u show ?thesis by (auto simp: waiting_def)
  qed
qed

lemma in_dir_write: "in_dir m (write_file n e d) \<longleftrightarrow> m = n \<or> in_dir m d"
  by (force simp: in_dir_def write_file_def image_iff)

lemma in_dir_remove: "in_dir m (remove_file n d) \<longleftrightarrow> m \<noteq> n \<and> in_dir m d"
  by (force simp: in_dir_def remove_file_def image_iff)

lemma complete_waiting:
  assumes "wf_queue q" and "u \<in> waiting q"
  shows "wf_queue (snd (Complete good_disk now (uID u) q)) \<and>
    waiting (snd (Complete good_disk now (uID u) q)) = waiting q - {u} \<and>
    fst (Complete good_disk now (uID u) q) = None"
proof -
  have v: "valid_id (uID u)" using waiting_valid assms by blast
  have "in_dir (pendingName (uID u)) (qPending q)"
    using assms(2) by (force simp: waiting_def in_dir_def)
  then have c: "Complete good_disk now (uID u) q =
      (None, q\<lparr>qCompleted := write_file (completedName (uID u)) (DoneFile now) (qCompleted q),
               qPending := remove_file (pendingName (uID u)) (qPending q)\<rparr>)"
    using v by (simp add: Complete_def good_disk_def Let_def)
  have "x \<in> waiting (snd (Complete good_disk now (uID u) q)) \<longleftrightarrow> x \<in> waiting q - {u}" for x
  proof (cases "uID x = uID u")
    case True
    then have "x \<in> waiting q \<longrightarrow> x = u" using waiting_inj assms by blast
    with True show ?thesis by (auto simp: waiting_def c in_dir_write)
  next
    case False
    have "(pendingName (uID x), UpdateFile x) \<in> set (qPending q) \<Longrightarrow>
        pendingName (uID x) \<noteq> pendingName (uID u) \<and> completedName (uID x) \<noteq> completedName (uID u)"
      using pending_valid [OF assms(1)] v False pendingName_inj completedName_inj by metis
    with False show ?thesis by (auto simp: waiting_def c in_dir_write remove_file_def)
  qed
  moreover have "wf_queue (snd (Complete good_disk now (uID u) q))"
    using queue_step_wf [OF queue_step.complete assms(1)] v by (metis prod.collapse)
  ultimately show ?thesis by (auto simp: c)
qed

interpretation files: update_queue "next_pass good_disk" "\<lambda>i. Complete good_disk now i" wf_queue waiting for now
proof
  fix q :: "'m queue" and u v
  assume q: "wf_queue q"
  show "finite (waiting q)" by (rule finite_waiting)
  show "u \<in> waiting q \<Longrightarrow> v \<in> waiting q \<Longrightarrow> uID u = uID v \<Longrightarrow> u = v" using waiting_inj q by blast
  show "wf_queue (snd (next_pass good_disk q)) \<and> waiting (snd (next_pass good_disk q)) = waiting q"
    using next_pass_keeps [OF q, of good_disk] by (metis prod.collapse)
  show "waiting q \<noteq> {} \<Longrightarrow> \<exists>u. fst (next_pass good_disk q) = Inr (Some u) \<and> u \<in> waiting q \<and>
      (\<forall>v \<in> waiting q. uID u \<le> uID v)"
    using next_pass_good [OF q] by auto
  show "u \<in> waiting q \<Longrightarrow> wf_queue (snd (Complete good_disk now (uID u) q)) \<and>
      waiting (snd (Complete good_disk now (uID u) q)) = waiting q - {u}"
    using complete_waiting [OF q] by blast
qed

section \<open>Properties\<close>

lemma completedName_not_temp: "\<not> HasPrefix (completedName i) ''.telegram-queue-''"
  by (simp add: completedName_def HasPrefix_def)

lemma pendingName_not_temp: "\<not> HasPrefix (pendingName i) ''.telegram-queue-''"
  by (simp add: pendingName_def HasPrefix_def)

lemma completed_stays:
  assumes "queue_step t l q q'" and "wf_queue q" and "(completedName i, DoneFile c') \<in> set (qCompleted q)"
    and "c \<le> c'" and "c \<le> t" and "t \<le> c + telegramCompletedRetention"
  shows "\<exists>c'. c \<le> c' \<and> (completedName i, DoneFile c') \<in> set (qCompleted q')"
  using assms(1)
proof cases
  case (enqueue io u r)
  have "keyed fst (qCompleted q)" using assms(2) by (simp add: wf_queue_def)
  from Enqueue_effect [OF this enqueue(2)] have "pruned t q q'" by auto
  then have "(completedName i, DoneFile c') \<in> set (qCompleted q')"
    using assms(3-6) by (force simp: pruned_def)
  with assms(4) show ?thesis by blast
next
  case (pass io r)
  then have "qCompleted q' = qCompleted q" using next_pass_keeps assms(2) by (auto simp: shrinks_def)
  with assms(3,4) show ?thesis by auto
next
  case (complete io j r)
  from Complete_effect [OF complete(2)] show ?thesis
    using assms(3-5) by (cases "completedName i = completedName j") (auto simp: set_write)
next
  case (crash_pending n)
  with assms(3,4) show ?thesis by auto
next
  case (crash_completed n)
  with assms(3,4) completedName_not_temp [of i] show ?thesis by (auto simp: set_write)
qed

lemma run_completed_stays:
  assumes "queue_run ls q q'" and "wf_queue q" and "(completedName i, DoneFile c) \<in> set (qCompleted q)"
    and "\<forall>l \<in> set ls. c \<le> snd l \<and> snd l \<le> c + telegramCompletedRetention"
  shows "\<exists>c'. c \<le> c' \<and> (completedName i, DoneFile c') \<in> set (qCompleted q')"
  using assms
proof (induction rule: queue_run.induct)
  case (step ls q q' t l q'')
  then obtain c' where "c \<le> c'" "(completedName i, DoneFile c') \<in> set (qCompleted q')" by auto
  moreover have "wf_queue q'" using queue_run_wf step by blast
  ultimately show ?case using completed_stays [OF step.hyps(2)] step.prems(3) by auto
qed auto

text \<open>
  C14: From the moment the completion of an update is on disk, and for the retention time of 48
  hours, no sequence of calls, failing calls and crashes makes the queue hand the update out again or
  accept a repeated delivery of it as new.
\<close>

theorem completed_updates_are_not_redelivered:
  assumes "wf_queue q" and "(completedName i, DoneFile c) \<in> set (qCompleted q)"
    and "queue_run ls q q'" and "\<forall>l \<in> set ls. c \<le> snd l \<and> snd l \<le> c + telegramCompletedRetention"
    and "uID u = i" and "c \<le> t" and "t \<le> c + telegramCompletedRetention"
  shows "fst (next_pass io q') \<noteq> Inr (Some u) \<and> fst (Enqueue io t u q') \<noteq> Inr True"
proof
  obtain c' where c': "c \<le> c'" "(completedName i, DoneFile c') \<in> set (qCompleted q')"
    using run_completed_stays [OF assms(3,1,2,4)] by blast
  have wf: "wf_queue q'" using queue_run_wf [OF assms(3,1)] .
  show "fst (next_pass io q') \<noteq> Inr (Some u)"
  proof
    assume "fst (next_pass io q') = Inr (Some u)"
    then have "u \<in> waiting q'" using next_pass_waiting [OF wf, of io u] by (cases "next_pass io q'") auto
    with c' assms(5) show False by (force simp: waiting_def in_dir_def)
  qed
  obtain r q'' where e: "Enqueue io t u q' = (r, q'')" by (cases "Enqueue io t u q'")
  have "keyed fst (qCompleted q')" using wf by (simp add: wf_queue_def)
  from Enqueue_effect [OF this e] show "fst (Enqueue io t u q') \<noteq> Inr True"
  proof
    assume a: "pruned t q' q'' \<and> 0 < uID u \<and>
      qPending q'' = qPending q' @ [(pendingName (uID u), UpdateFile u)] \<and>
      \<not> in_dir (pendingName (uID u)) (qPending q') \<and> \<not> in_dir (completedName (uID u)) (qCompleted q'') \<and>
      length (qPending q') < telegramWebhookMaxPending"
    then have "(completedName i, DoneFile c') \<in> set (qCompleted q'')"
      using c' assms(6,7) by (force simp: pruned_def)
    with a assms(5) have False by (force simp: in_dir_def)
    then show ?thesis ..
  qed (simp add: e)
qed

lemma waiting_stays:
  assumes "queue_step t l q q'" and "wf_queue q" and "u \<in> waiting q" and "l \<noteq> LComplete (uID u)"
  shows "u \<in> waiting q'"
  using assms(1)
proof cases
  case (enqueue io v r)
  have "keyed fst (qCompleted q)" using assms(2) by (simp add: wf_queue_def)
  from Enqueue_effect [OF this enqueue(2)]
  have "set (qPending q) \<subseteq> set (qPending q')" "set (qCompleted q') \<subseteq> set (qCompleted q)"
    using pruned_in by auto
  with assms(3) show ?thesis by (auto simp: waiting_def in_dir_def)
next
  case (pass io r)
  then show ?thesis using next_pass_keeps assms(2,3) by blast
next
  case (complete io j r)
  have "valid_id (uID u)" using waiting_valid assms(2,3) by blast
  moreover have "uID u \<noteq> j" using assms(4) complete(1) by auto
  ultimately have "0 < j \<Longrightarrow> pendingName (uID u) \<noteq> pendingName j \<and> completedName (uID u) \<noteq> completedName j"
    using pendingName_inj completedName_inj complete(3) by blast
  with Complete_effect [OF complete(2)] assms(3) show ?thesis
    by (auto simp: waiting_def in_dir_write remove_file_def)
next
  case (crash_pending n)
  with assms(3) pendingName_not_temp [of "uID u"] show ?thesis by (auto simp: waiting_def set_write)
next
  case (crash_completed n)
  with assms(3) completedName_not_temp [of "uID u"] show ?thesis by (auto simp: waiting_def in_dir_write)
qed

lemma run_waiting_stays:
  assumes "queue_run ls q q'" and "wf_queue q" and "u \<in> waiting q" and "LComplete (uID u) \<notin> fst ` set ls"
  shows "u \<in> waiting q'"
  using assms
proof (induction rule: queue_run.induct)
  case (step ls q q' t l q'')
  then have "u \<in> waiting q'" "wf_queue q'" using queue_run_wf by auto
  with step show ?case by (auto intro: waiting_stays)
qed

text \<open>
  C15: An update that the queue accepted waits until its completion is called: no sequence of other
  calls, failing calls and crashes loses it. It is accepted only when fewer than 128 entries were
  pending.
\<close>

theorem accepted_updates_wait_for_completion:
  assumes "wf_queue q" and "Enqueue io now u q = (Inr True, q1)" and "uID u < 2 ^ 63"
    and "queue_run ls q1 q2" and "LComplete (uID u) \<notin> fst ` set ls"
  shows "u \<in> waiting q2 \<and> u \<notin> waiting q \<and> length (qPending q1) \<le> 128"
proof -
  have "keyed fst (qCompleted q)" using assms(1) by (simp add: wf_queue_def)
  from Enqueue_effect [OF this assms(2)]
  have e: "qPending q1 = qPending q @ [(pendingName (uID u), UpdateFile u)]"
    "\<not> in_dir (pendingName (uID u)) (qPending q)" "\<not> in_dir (completedName (uID u)) (qCompleted q1)"
    "length (qPending q) < telegramWebhookMaxPending"
    by auto
  then have "u \<in> waiting q1" by (auto simp: waiting_def)
  moreover have "wf_queue q1" using queue_step_wf queue_step.enqueue [OF assms(2,3)] assms(1) by blast
  ultimately have "u \<in> waiting q2" using run_waiting_stays assms(4,5) by blast
  moreover have "u \<notin> waiting q" using e(2) by (force simp: waiting_def in_dir_def)
  ultimately show ?thesis using e(1,4) by (simp add: telegramWebhookMaxPending_def)
qed

text \<open>
  While no call fails and every message is processed, as many rounds of the worker as updates wait
  process each of them once, in the order of their identifiers, and empty the queue.
\<close>

theorem worker_drains_the_queue_in_order:
  assumes "wf_queue q" and "\<And>u w. processUpdate u w = (None, f u w)"
  shows "\<exists>us q'. (worker_round (next_pass good_disk) (\<lambda>i. Complete good_disk now i) processUpdate ^^ length us) (q, w)
      = (q', fold f us w) \<and>
    set us = waiting q \<and> sorted_wrt (<) (map uID us) \<and> waiting q' = {} \<and>
    fst (next_pass good_disk q') = Inr None"
proof -
  obtain us q' where "(worker_round (next_pass good_disk) (\<lambda>i. Complete good_disk now i) processUpdate ^^ length us) (q, w)
      = (q', fold f us w)" "set us = waiting q" "sorted_wrt (<) (map uID us)" "wf_queue q'" "waiting q' = {}"
    using files.rounds_drain [OF assms(1), where processUpdate = processUpdate and f = f and w = w and now = now] assms(2)
    by blast
  moreover have "fst (next_pass good_disk q') = Inr None" using next_pass_good [of q'] calculation(4,5) by auto
  ultimately show ?thesis by blast
qed

text \<open>
  The identifier is read back from the name of the file, and the order of the file names is the
  order of the identifiers, for every positive 64-bit identifier.
\<close>

theorem file_names_carry_the_identifier:
  assumes "0 < i" and "i < 2 ^ 63" and "0 < j" and "j < 2 ^ 63"
  shows "telegramUpdateID (pendingName i) ''pending-'' = Some i \<and>
    (str_less (pendingName i) (pendingName j) \<longleftrightarrow> i < j) \<and>
    (completedName i = completedName j \<longleftrightarrow> i = j)"
  using assms pendingName_id [of i] pendingName_less [of i j] completedName_inj [of i j] by auto

section \<open>Witnesses\<close>

definition sample_update :: "int \<Rightarrow> nat update" where
  "sample_update i = \<lparr>uID = i, uMessage = Some 0\<rparr>"

definition sample_queue :: "nat queue" where
  "sample_queue = \<lparr>qPending = [(pendingName 9, UpdateFile (sample_update 9))],
     qCompleted = [(completedName 3, DoneFile 5)]\<rparr>"

lemma sample_queue_wf: "wf_queue sample_queue"
  by (auto simp: wf_queue_def sample_queue_def pending_entry_def completed_entry_def sample_update_def)

lemma sample_enqueue: "Enqueue good_disk 6 (sample_update 7) sample_queue =
    (Inr True, sample_queue\<lparr>qPending := qPending sample_queue @ [(pendingName 7, UpdateFile (sample_update 7))]\<rparr>)"
proof -
  have n: "pendingName 7 \<noteq> pendingName 9" "completedName 7 \<noteq> completedName 3"
    using pendingName_inj [of 7 9] completedName_inj [of 7 3] by auto
  have p: "pruneCompletedLocked good_disk 6 sample_queue = (None, sample_queue)"
    by (simp add: pruneCompletedLocked_def good_disk_def ReadDir_def sample_queue_def
        telegramCompletedRetention_def duration_defs)
  have "\<not> in_dir (pendingName 7) (qPending sample_queue)" "\<not> in_dir (completedName 7) (qCompleted sample_queue)"
    using n by (simp_all add: sample_queue_def in_dir_def)
  moreover have "uID (sample_update 7) = 7" "length (qPending sample_queue) = 1"
    by (simp_all add: sample_update_def sample_queue_def)
  ultimately show ?thesis
    by (simp add: Enqueue_def write_new p telegramWebhookMaxPending_def Let_def) (simp add: good_disk_def)
qed

text \<open>The third update was completed: it is not handed out.\<close>

theorem completed_updates_are_not_redelivered_witness:
  "fst (Enqueue good_disk 6 (sample_update 3) sample_queue) \<noteq> Inr True \<and>
   fst (next_pass good_disk sample_queue) \<noteq> Inr (Some (sample_update 3))"
proof -
  have d: "(completedName 3, DoneFile 5) \<in> set (qCompleted sample_queue)" by (simp add: sample_queue_def)
  have t: "(6::int) \<le> 5 + telegramCompletedRetention"
    by (simp add: telegramCompletedRetention_def duration_defs)
  show ?thesis
    using completed_updates_are_not_redelivered [OF sample_queue_wf d queue_run.start _ _ _ t, of "sample_update 3" good_disk]
    by (simp add: sample_update_def)
qed

text \<open>Update 7 is accepted and waits.\<close>

theorem accepted_updates_wait_for_completion_witness:
  "\<exists>q1. Enqueue good_disk 6 (sample_update 7) sample_queue = (Inr True, q1) \<and> sample_update 7 \<in> waiting q1"
  using accepted_updates_wait_for_completion [OF sample_queue_wf sample_enqueue _ queue_run.start] sample_enqueue
  by (simp add: sample_update_def)

text \<open>The worker processes update 9.\<close>

theorem worker_drains_the_queue_in_order_witness:
  "\<exists>us q'. (worker_round (next_pass good_disk) (\<lambda>i. Complete good_disk 8 i) (\<lambda>u w. (None, w @ [uID u])) ^^ length us)
      (sample_queue, []) = (q', fold (\<lambda>u w. w @ [uID u]) us []) \<and> set us = {sample_update 9} \<and> waiting q' = {}"
proof -
  have w: "waiting sample_queue = {sample_update 9}"
    using completedName_inj [of 9 3] by (auto simp: waiting_def sample_queue_def sample_update_def in_dir_def)
  have "\<exists>us q'. (worker_round (next_pass good_disk) (\<lambda>i. Complete good_disk 8 i)
        (\<lambda>u w. (None, w @ [uID u])) ^^ length us) (sample_queue, []) = (q', fold (\<lambda>u w. w @ [uID u]) us []) \<and>
      set us = waiting sample_queue \<and> sorted_wrt (<) (map uID us) \<and> waiting q' = {} \<and>
      fst (next_pass good_disk q') = Inr None"
    by (rule worker_drains_the_queue_in_order [OF sample_queue_wf]) (rule HOL.refl)
  then show ?thesis
  proof (elim exE conjE)
    fix us q'
    assume "(worker_round (next_pass good_disk) (\<lambda>i. Complete good_disk 8 i)
        (\<lambda>u w. (None, w @ [uID u])) ^^ length us) (sample_queue, []) = (q', fold (\<lambda>u w. w @ [uID u]) us [])"
      and "set us = waiting sample_queue" and "waiting q' = {}"
    with w show ?thesis by blast
  qed
qed

text \<open>Update 10 comes after update 9, although its decimal text is longer.\<close>

theorem file_names_carry_the_identifier_witness:
  "telegramUpdateID (pendingName 9) ''pending-'' = Some 9 \<and> str_less (pendingName 9) (pendingName 10)"
  using file_names_carry_the_identifier [of 9 10] by simp

end
