(* ===== verification/Bridge_Result.thy ===== *)
theory Bridge_Result
  imports Objective_Loop Runtime_Worker
begin

text \<open>
  What the orchestrator keeps of the result of a local bridge (\<^verbatim>\<open>httpapi/bridges.go\<close>): the status
  snapshot and the artifacts of an objective step, the memory artifacts of a repository workflow, the
  tool invocation with its artifact rows, and the map that becomes the result of the task. Running
  \<^verbatim>\<open>git\<close> (\<open>bGit\<close>, \<open>None\<close> when it fails), printing a value as indented JSON (\<open>bJson\<close>) and whether the
  database takes a text (\<open>bTakes\<close>) are parameters. Indexing for retrieval is left out.
\<close>

section \<open>Environment and rows\<close>

record bridge_env =
  bO :: obj_env
  bGit :: "string \<Rightarrow> string list \<Rightarrow> string option"
  bJson :: "any_val \<Rightarrow> string"
  bTakes :: "string \<Rightarrow> bool"
  bTTL :: int

record invocation =
  ivID :: string
  ivTask :: "string option"
  ivAgent :: "string option"
  ivEntrypoint :: string
  ivCapability :: string
  ivInput :: any_map
  ivOutput :: any_map
  ivStatus :: string
  ivArtifactIDs :: "string list"
  ivError :: "string option"

record artifact_params =
  paType :: string
  paTitle :: "string option"
  paURI :: "string option"
  paMedia :: "string option"
  paContent :: "string option"
  paMeta :: any_map

text \<open>The state: the tables and queues of the workflow, among them the artifacts, and the table of invocations.\<close>

record bridge_state =
  sF :: flow
  sInv :: "invocation list"

section \<open>Text helpers\<close>

definition gitOutput :: "(string \<Rightarrow> string list \<Rightarrow> string option) \<Rightarrow> string \<Rightarrow> string list \<Rightarrow> string" where
  "gitOutput git dir args =
     (if TrimSpace dir = [] \<or> args = [] then []
      else (case git (TrimSpace dir) args of None \<Rightarrow> [] | Some out \<Rightarrow> TrimSpace out))"

definition truncateForAPI :: "string \<Rightarrow> nat \<Rightarrow> string" where
  "truncateForAPI s limit =
     (let t = TrimSpace s in if length t \<le> limit then t else TrimSpace (take limit t) @ ''...'')"

definition opt_line :: "string \<Rightarrow> string \<Rightarrow> string list" where
  "opt_line label v = (if v = [] then [] else [label @ v])"

definition renderRepoWorkflowLesson :: "any_map \<Rightarrow> string" where
  "renderRepoWorkflowLesson c =
     (let s = (\<lambda>k. asString (c k)); changed = anyStringSliceHTTPDefault (c ''changed_files'') [];
          command = anyStringSliceHTTPDefault (c ''test_command'') []
      in join_with [CHR 0x0A]
        ([''# Repo Workflow Lesson'', [], ''- Repository: '' @ s ''repository_name'', ''- Workflow: '' @ s ''workflow'',
          ''- Profile: '' @ s ''repo_profile'', ''- Stage: '' @ s ''execution_stage'', ''- Outcome: '' @ s ''outcome'',
          ''- Summary: '' @ s ''summary''] @
         opt_line ''- Branch: '' (TrimSpace (s ''resolved_branch'')) @
         opt_line ''- Commit: '' (TrimSpace (s ''resolved_commit'')) @
         (if changed = [] then [] else [''- Changed files: '' @ join_with '', '' changed]) @
         (if command = [] then [] else [''- Validation command: `'' @ join_with '' '' command @ ''`'']) @
         opt_line ''- Failure signal: '' (TrimSpace (s ''error_message'')) @
         [[], ''## Reuse'',
          if s ''outcome'' = ''trusted''
          then ''- Reuse this case as a trusted precedent for the same repo profile and stage.''
          else ''- Reuse this case as a warning: inspect the failure signal before retrying the same stage.'']))"

section \<open>Memory of a repository workflow\<close>

definition repo_profile_of :: "task \<Rightarrow> string" where
  "repo_profile_of t =
     (let m = tMetadata t; request = asMap (m ''project_request'')
      in firstNonEmptyString [trimmed request ''repo_profile'', trimmed m ''repo_profile'', trimmed m ''repo_workflow''])"

definition repo_path_of :: "string \<Rightarrow> string \<Rightarrow> string" where
  "repo_path_of workspaceRoot projectRoot =
     (if projectRoot = [] \<or> projectRoot = ''.'' then workspaceRoot
      else if HasPrefix projectRoot ''/'' then projectRoot
      else if workspaceRoot \<noteq> [] then path_join workspaceRoot projectRoot
      else workspaceRoot)"

definition request_keys :: "string list" where
  "request_keys = [''runtime_or_stack'', ''language'', ''framework'', ''problem_domain'', ''error_class'',
     ''fix_pattern'', ''validation_pattern'', ''repository_url'', ''default_branch'']"

definition benchmark_keys :: "string list" where
  "benchmark_keys = [''benchmark_case_id'', ''benchmark_case_type'', ''benchmark_league'', ''sequence_id'',
     ''sequence_position'']"

definition case_payload :: "bridge_env \<Rightarrow> task \<Rightarrow> bridge_result \<Rightarrow> any_map" where
  "case_payload env t r =
     (let m = tMetadata t; request = asMap (m ''project_request'');
          agent = TrimSpace (derefString (tAssignedAgent t)); status = result_status r;
          root0 = trimmed m ''workspace_root'';
          workspaceRoot = (if root0 = [] \<and> tWorkspacePath t \<noteq> None then TrimSpace (derefString (tWorkspacePath t)) else root0);
          projectRoot = trimmed request ''project_root'';
          repoPath = repo_path_of workspaceRoot projectRoot;
          summary = TrimSpace (derefString (rsSummary r))
      in map_of (map (\<lambda>k. (k, AStr (trimmed request k))) request_keys) ++
         map_of (map (\<lambda>k. (k, AStr (trimmed m k))) benchmark_keys) ++
         [''memory_kind'' \<mapsto> AStr ''repo_workflow_case'',
          ''workflow'' \<mapsto> AStr (firstNonEmptyString [trimmed m ''repo_workflow'', ''repo_workflow_v1'']),
          ''repo_profile'' \<mapsto> AStr (repo_profile_of t),
          ''repository_name'' \<mapsto> AStr (firstNonEmptyString [trimmed request ''project_name'', path_base repoPath, ''repo'']),
          ''resolved_branch'' \<mapsto> AStr (gitOutput (bGit env) repoPath [''rev-parse'', ''--abbrev-ref'', ''HEAD'']),
          ''resolved_commit'' \<mapsto> AStr (gitOutput (bGit env) repoPath [''rev-parse'', ''HEAD'']),
          ''workspace_root'' \<mapsto> AStr workspaceRoot, ''project_root'' \<mapsto> AStr (firstNonEmptyString [projectRoot, ''.'']),
          ''initiative_id'' \<mapsto> AStr (derefString (tInitiativeID t)), ''task_id'' \<mapsto> AStr (tID t),
          ''assigned_agent'' \<mapsto> AStr agent,
          ''execution_stage'' \<mapsto> AStr (if agent = AgentTypeReviewer then ''review'' else ''patch_apply''),
          ''result_status'' \<mapsto> AStr status, ''outcome'' \<mapsto> AStr (if status = ''success'' then ''trusted'' else ''failed''),
          ''summary'' \<mapsto> AStr (if summary = [] then TrimSpace (tDescription t) else summary),
          ''error_message'' \<mapsto> AStr (TrimSpace (derefString (rsErrorMessage r))),
          ''changed_files'' \<mapsto> AStrs (rsChangedFiles r),
          ''diff_present'' \<mapsto> ABool (TrimSpace (derefString (rsDiff r)) \<noteq> []),
          ''test_command'' \<mapsto> AStrs (anyStringSliceHTTPDefault (request ''test_command'') []),
          ''expected_files'' \<mapsto> AStrs (anyStringSliceHTTPDefault (request ''expected_files'') []),
          ''test_results'' \<mapsto> AMap (rsTestResults r),
          ''definition_of_done'' \<mapsto> AStr (trimmed m ''definition_of_done'')])"

text \<open>The fields that the memory artifacts copy from the payload.\<close>

definition copied_keys :: "string list" where
  "copied_keys = [''runtime_or_stack'', ''language'', ''framework'', ''problem_domain'', ''error_class'', ''fix_pattern'',
     ''validation_pattern'', ''repository_url'', ''repo_profile'', ''workflow'', ''outcome''] @ benchmark_keys"

definition memory_artifact :: "any_map \<Rightarrow> string list \<Rightarrow> string \<Rightarrow> string \<Rightarrow> string \<Rightarrow> string \<Rightarrow> string \<Rightarrow> any_map" where
  "memory_artifact payload keys kind title media content memoryKind =
     (payload |` set keys)(''type'' \<mapsto> AStr kind, ''title'' \<mapsto> AStr title, ''media_type'' \<mapsto> AStr media,
        ''content_text'' \<mapsto> AStr content, ''memory_kind'' \<mapsto> AStr memoryKind)"

definition benchmark_case_keys :: "string list" where
  "benchmark_case_keys = benchmark_keys @ request_keys @ [''repository_name'', ''repo_profile'']"

definition benchmark_run_keys :: "string list" where
  "benchmark_run_keys = benchmark_keys @ [''workflow'', ''repository_name'', ''repository_url'', ''repo_profile'',
     ''resolved_branch'', ''resolved_commit'', ''task_id'', ''initiative_id'', ''assigned_agent'', ''execution_stage'',
     ''result_status'', ''outcome'', ''changed_files'', ''test_command'', ''test_results'', ''diff_present'']"

definition buildRepoWorkflowMemoryArtifacts :: "bridge_env \<Rightarrow> task \<Rightarrow> bridge_result \<Rightarrow> any_map list" where
  "buildRepoWorkflowMemoryArtifacts env t r =
     (let agent = TrimSpace (derefString (tAssignedAgent t)); status = result_status r
      in if repo_profile_of t = [] \<or> agent \<notin> {AgentTypeCoder, AgentTypeReviewer} \<or> status = [] \<or>
            status = ''waiting_approval'' then []
         else
           (let p = case_payload env t r; stage = asString (p ''execution_stage'');
                label = asString (p ''repository_name'') @ '' '' @ stage;
                benchmark = TrimSpace (asString (p ''benchmark_case_id''));
                withStage = copied_keys @ [''execution_stage'']
            in [memory_artifact p withStage ''repo_workflow_case'' (''Repo workflow case: '' @ label) ''application/json''
                  (bJson env (AMap p)) ''case'',
                memory_artifact p withStage ''repo_workflow_lesson'' (''Repo workflow lesson: '' @ label) ''text/markdown''
                  (renderRepoWorkflowLesson p) ''lesson''] @
               (if benchmark = [] then []
                else [memory_artifact p copied_keys ''benchmark_case'' (''Benchmark case: '' @ benchmark) ''application/json''
                        (bJson env (AMap (p |` set benchmark_case_keys))) ''benchmark_case'',
                      memory_artifact p withStage ''benchmark_run'' (''Benchmark run: '' @ benchmark @ '' '' @ stage)
                        ''application/json'' (bJson env (AMap (p |` set benchmark_run_keys))) ''benchmark_run''])))"

section \<open>The status of an objective\<close>

record status_snapshot =
  snInitiativeID :: string
  snTitle :: string
  snObjective :: string
  snIteration :: int
  snMaxIterations :: int
  snRemainingRetries :: int
  snWorkItemKind :: string
  snResultStatus :: string
  snReviewDecision :: string
  snNeedsRepair :: bool
  snNextAction :: string
  snStopReason :: string
  snBlockerReason :: string
  snBudgetSeconds :: int
  snRemainingSeconds :: int
  snDeadlineAt :: string
  snChangedFiles :: "string list"
  snCommands :: "string list"
  snTestResults :: any_map
  snFindings :: "any_map list"

definition snapshot_json :: "status_snapshot \<Rightarrow> any_map" where
  "snapshot_json s =
     opt_vals ''findings'' (map AMap (snFindings s)) (opt_map ''test_results'' (Some (snTestResults s))
     (opt_strs ''validation_commands'' (snCommands s) (opt_strs ''changed_files'' (snChangedFiles s)
     (opt_str ''deadline_at'' (snDeadlineAt s) (opt_int ''remaining_budget_seconds'' (snRemainingSeconds s)
     (opt_int ''time_budget_seconds'' (snBudgetSeconds s) (opt_str ''blocker_reason'' (snBlockerReason s)
     (opt_str ''stop_reason'' (snStopReason s) (opt_str ''review_decision'' (snReviewDecision s)
     (opt_str ''normalized_objective'' (snObjective s) (opt_str ''objective_title'' (snTitle s)
     [''initiative_id'' \<mapsto> AStr (snInitiativeID s), ''current_phase'' \<mapsto> AStr (phaseText ExecutionPhase),
      ''iteration'' \<mapsto> AInt (snIteration s), ''max_iterations'' \<mapsto> AInt (snMaxIterations s),
      ''remaining_retries'' \<mapsto> AInt (snRemainingRetries s), ''work_item_kind'' \<mapsto> AStr (snWorkItemKind s),
      ''result_status'' \<mapsto> AStr (snResultStatus s), ''needs_repair_cycle'' \<mapsto> ABool (snNeedsRepair s),
      ''next_expected_action'' \<mapsto> AStr (snNextAction s)])))))))))))"

text \<open>What a step reports about itself, before the status of the objective is derived from it.\<close>

definition iteration_payload :: "task \<Rightarrow> bridge_result \<Rightarrow> bool \<Rightarrow> string \<Rightarrow> any_map" where
  "iteration_payload t r needsRepair repairFeedback =
     (let m = tMetadata t; c = fst (decodeObjectiveExecutionContract (m ''execution_contract''));
          kind = trimmed m ''work_item_kind''; summary = TrimSpace (derefString (rsSummary r))
      in [''memory_kind'' \<mapsto> AStr ''objective_iteration'', ''initiative_id'' \<mapsto> AStr (derefString (tInitiativeID t)),
          ''task_id'' \<mapsto> AStr (tID t),
          ''objective_title'' \<mapsto> AStr (firstNonEmptyString [TrimSpace (ecTitle c), trimmed m ''objective_title'']),
          ''normalized_objective'' \<mapsto> AStr (firstNonEmptyString
             [TrimSpace (ecNormalizedObjective c), trimmed m ''initiative_goal'']),
          ''workspace_root'' \<mapsto> AStr (firstNonEmptyString [TrimSpace (ecWorkspaceRoot c), trimmed m ''workspace_root'']),
          ''iteration'' \<mapsto> AInt (objectiveIteration m), ''max_iterations'' \<mapsto> AInt (objectiveMaxIterations m),
          ''work_item_kind'' \<mapsto> AStr kind, ''result_status'' \<mapsto> AStr (objectiveEffectiveResultStatus t r),
          ''raw_result_status'' \<mapsto> AStr (result_status r),
          ''review_decision'' \<mapsto> AStr (TrimSpace (derefString (rsReviewDecision r))),
          ''summary'' \<mapsto> AStr (if summary = [] then TrimSpace (tDescription t) else summary),
          ''error_message'' \<mapsto> AStr (TrimSpace (derefString (rsErrorMessage r))),
          ''changed_files'' \<mapsto> AStrs (rsChangedFiles r),
          ''diff_present'' \<mapsto> ABool (TrimSpace (derefString (rsDiff r)) \<noteq> []),
          ''test_results'' \<mapsto> AMap (rsTestResults r), ''review_comments'' \<mapsto> maps_val (rsReviewComments r),
          ''findings'' \<mapsto> maps_val (rsFindings r),
          ''validation_commands'' \<mapsto> AStrs (anyStringSliceHTTPDefault (m ''validation_commands'') []),
          ''definition_of_done'' \<mapsto> AStr (trimmed m ''definition_of_done''), ''needs_repair_cycle'' \<mapsto> ABool needsRepair,
          ''repair_feedback'' \<mapsto> AStr repairFeedback,
          ''objective_iteration_id'' \<mapsto> AStr (derefString (tInitiativeID t) @ '':'' @ Itoa (objectiveIteration m) @ '':'' @ kind)])"

definition buildObjectiveStatusSnapshot ::
  "obj_env \<Rightarrow> instant \<Rightarrow> instant \<Rightarrow> task \<Rightarrow> bridge_result \<Rightarrow> any_map \<Rightarrow> bool \<Rightarrow> string \<Rightarrow> status_snapshot" where
  "buildObjectiveStatusSnapshot env now1 now2 t r payload needsRepair repairFeedback =
     (let m = tMetadata t; iteration = objectiveAsInt (payload ''iteration'') 1;
          maxIterations = max (objectiveAsInt (payload ''max_iterations'') iteration) iteration;
          kind = trimmed payload ''work_item_kind''; status = trimmed payload ''result_status'';
          decision = trimmed payload ''review_decision'';
          action = objectiveNextExpectedAction m kind status decision needsRepair;
          budget = objectiveRemainingBudgetSeconds (oParse env) (eFl (oF env)) m now1;
          blocked = (action = ''block_initiative'');
          stop = (if blocked then objectiveStopReason (oParse env) now2 m iteration maxIterations else []);
          seconds = (case budget of None \<Rightarrow> 0 | Some (b, _, _) \<Rightarrow> b);
          deadline = (case budget of None \<Rightarrow> 0 | Some (_, _, dl) \<Rightarrow> dl)
      in \<lparr>snInitiativeID = trimmed payload ''initiative_id'', snTitle = trimmed payload ''objective_title'',
          snObjective = trimmed payload ''normalized_objective'', snIteration = iteration,
          snMaxIterations = maxIterations, snRemainingRetries = max 0 (maxIterations - iteration),
          snWorkItemKind = kind, snResultStatus = status, snReviewDecision = decision, snNeedsRepair = needsRepair,
          snNextAction = action, snStopReason = stop,
          snBlockerReason = (if blocked then objectiveBlockerReason (oFmt env) r repairFeedback stop seconds deadline else []),
          snBudgetSeconds = seconds, snRemainingSeconds = (case budget of None \<Rightarrow> 0 | Some (_, rem, _) \<Rightarrow> rem),
          snDeadlineAt = (case budget of None \<Rightarrow> [] | Some (_, _, dl) \<Rightarrow> oFmt env dl),
          snChangedFiles = rsChangedFiles r, snCommands = anyStringSliceHTTPDefault (m ''validation_commands'') [],
          snTestResults = rsTestResults r, snFindings = rsFindings r\<rparr>)"

definition signal_keys :: "string list" where
  "signal_keys = [''initiative_id'', ''task_id'', ''iteration'', ''max_iterations'', ''work_item_kind'', ''repair_feedback'',
     ''review_decision'']"

definition step_keys :: "string list" where
  "step_keys = [''initiative_id'', ''objective_title'', ''normalized_objective'', ''iteration'', ''max_iterations'',
     ''work_item_kind'', ''result_status'', ''review_decision'', ''needs_repair_cycle'', ''findings'']"

definition buildObjectiveIterationArtifacts ::
  "bridge_env \<Rightarrow> instant \<Rightarrow> instant \<Rightarrow> instant \<Rightarrow> task \<Rightarrow> bridge_result \<Rightarrow> any_map list" where
  "buildObjectiveIterationArtifacts env now now1 now2 t r =
     (let m = tMetadata t; status = objectiveEffectiveResultStatus t r
      in if tInitiativeID t = None \<or> \<not> objectiveAsBool (m ''objective_entrypoint'') \<or> status = [] \<or>
            status = ''waiting_approval'' then []
         else
           (let needsRepair = shouldStartObjectiveRepairCycle (oParse (bO env)) now t r;
                feedback = firstNonEmptyString [trimmed m ''objective_repair_feedback'', objectiveRepairFeedback r];
                p = iteration_payload t r needsRepair feedback;
                s = buildObjectiveStatusSnapshot (bO env) now1 now2 t r p needsRepair feedback;
                n = Itoa (objectiveIteration m); label = n @ '' '' @ trimmed m ''work_item_kind''
            in [memory_artifact p step_keys ''objective_iteration_summary'' (''Objective iteration '' @ label)
                  ''application/json'' (bJson env (AMap p)) ''objective_iteration'',
                (memory_artifact p step_keys ''objective_status_snapshot'' (''Objective status snapshot '' @ label)
                  ''application/json'' (bJson env (AMap (snapshot_json s))) ''objective_status_snapshot'')
                 (''next_expected_action'' \<mapsto> AStr (snNextAction s), ''remaining_retries'' \<mapsto> AInt (snRemainingRetries s),
                  ''stop_reason'' \<mapsto> AStr (snStopReason s), ''blocker_reason'' \<mapsto> AStr (snBlockerReason s),
                  ''time_budget_seconds'' \<mapsto> AInt (snBudgetSeconds s),
                  ''remaining_budget_seconds'' \<mapsto> AInt (snRemainingSeconds s), ''deadline_at'' \<mapsto> AStr (snDeadlineAt s))] @
               (if needsRepair
                then [memory_artifact p [''initiative_id'', ''iteration'', ''work_item_kind'', ''needs_repair_cycle'']
                        ''objective_repair_signal'' (''Objective repair signal '' @ n) ''application/json''
                        (bJson env (AMap ((p |` set signal_keys)(''next_expected_action'' \<mapsto> AStr ''replan''))))
                        ''objective_repair_signal'']
                else [])))"

end
