(* ===== verification/Bridge_Api.thy ===== *)
theory Bridge_Api
  imports Bridge_Result
begin

text \<open>
  The bridge endpoints (\<^verbatim>\<open>httpapi/bridges.go\<close>): registration, heartbeat, claim, and the result of a
  task. A result is first recorded (invocation and artifacts), then settles the task, and then drives the
  objective the task belongs to: it queues the next tasks, starts a repair cycle or stops the
  objective. Every call draws its identifiers and clock readings from the counter of the state; an
  error keeps what was written before it.
\<close>

section \<open>Answers\<close>

datatype bridge_answer =
    BDetail int string
  | BBridge "bridge option"
  | BBridges "bridge list"
  | BClaim "bridge_claim option"
  | BAccepted string "string list"

section \<open>Registration, heartbeat, claim\<close>

definition registerBridge :: "instant \<Rightarrow> bridge_params \<Rightarrow> db \<Rightarrow> db \<times> bridge_answer" where
  "registerBridge now p0 d =
     (let p = p0\<lparr>upID := TrimSpace (upID p0), upName := TrimSpace (upName p0), upHostname := TrimSpace (upHostname p0),
                 upWorkspaceRoot := TrimSpace (upWorkspaceRoot p0), upStatus := ''active''\<rparr>
      in if upID p = [] \<or> upName p = [] \<or> upHostname p = [] \<or> upWorkspaceRoot p = []
         then (d, BDetail 400 ''bridge_id, name, hostname and workspace_root are required'')
         else (case UpsertLocalBridge now p d of (d', b) \<Rightarrow> (d', BBridge b)))"

record heartbeat_body =
  hbStatus :: string
  hbTask :: "string option"
  hbTTL :: "int option"
  hbStage :: "string option"
  hbTool :: "string option"
  hbSummary :: "string option"

definition localBridgeLeaseTTLSeconds :: "bridge_env \<Rightarrow> int" where
  "localBridgeLeaseTTLSeconds env = (if 0 < bTTL env then bTTL env else 45)"

definition heartbeatBridge ::
  "bridge_env \<Rightarrow> instant \<Rightarrow> instant \<Rightarrow> instant \<Rightarrow> string \<Rightarrow> heartbeat_body \<Rightarrow> db \<Rightarrow> db \<times> bridge_answer" where
  "heartbeatBridge env dbnow now2 dbnow2 bridgeID body d =
     (case HeartbeatLocalBridge dbnow bridgeID (TrimSpace (hbStatus body)) d of
        (d1, None) \<Rightarrow> (d1, BDetail 404 ''local bridge not found'')
      | (d1, Some b) \<Rightarrow>
          (let taskID = TrimSpace (derefString (hbTask body));
               ttl = (case hbTTL body of None \<Rightarrow> localBridgeLeaseTTLSeconds env
                      | Some n \<Rightarrow> if 0 < n then n else localBridgeLeaseTTLSeconds env)
           in (if taskID = [] then d1
               else TouchLocalBridgeTaskLease now2 dbnow2 taskID bridgeID ttl ''active'' (hbStage body) (hbTool body)
                      (hbSummary body) d1, BBridge (Some b))))"

definition listBridges :: "db \<Rightarrow> bridge_answer" where
  "listBridges d = BBridges (ListLocalBridges d)"

definition claimNextBridgeTask ::
  "bridge_env \<Rightarrow> (any_val \<Rightarrow> string) \<Rightarrow> string \<Rightarrow> string \<Rightarrow> instant \<Rightarrow> instant \<Rightarrow> instant \<Rightarrow> instant
     \<Rightarrow> string \<Rightarrow> db \<Rightarrow> db \<times> bridge_answer" where
  "claimNextBridgeTask env render row1 row2 now dbnow now2 dbnow2 bridgeID d =
     (case ClaimNextLocalBridgeTaskWithTTL render (oParse (bO env)) row1 row2 now dbnow now2 dbnow2 bridgeID
             (localBridgeLeaseTTLSeconds env) d of
        Inl e \<Rightarrow> (d, BDetail 500 e)
      | Inr (d', c) \<Rightarrow> (d', BClaim c))"

section \<open>Recording a result\<close>

text \<open>
  The insertion of an artifact fails when the database does not take its text; all other columns are
  short texts and JSON values that it takes.
\<close>

definition encoding_error :: string where
  "encoding_error = ''ERROR: invalid byte sequence for encoding UTF8 (SQLSTATE 22021)''"

definition non_blank :: "string option \<Rightarrow> string option" where
  "non_blank v = (case v of Some s \<Rightarrow> if TrimSpace s = [] then None else Some s | None \<Rightarrow> None)"

definition CreateToolInvocation :: "string \<Rightarrow> invocation \<Rightarrow> bridge_state \<Rightarrow> bridge_state" where
  "CreateToolInvocation invocationID p st =
     st\<lparr>sInv := sInv st @ [p\<lparr>ivID := invocationID, ivTask := non_blank (ivTask p), ivAgent := non_blank (ivAgent p),
          ivInput := json_map (ivInput p), ivOutput := json_map (ivOutput p)\<rparr>]\<rparr>"

definition UpdateToolInvocationArtifactIDs :: "string \<Rightarrow> string list \<Rightarrow> bridge_state \<Rightarrow> bridge_state" where
  "UpdateToolInvocationArtifactIDs invocationID ids st =
     st\<lparr>sInv := map (\<lambda>v. if ivID v = invocationID then v\<lparr>ivArtifactIDs := ids\<rparr> else v) (sInv st)\<rparr>"

definition add_artifact :: "artifact \<Rightarrow> flow \<Rightarrow> flow" where
  "add_artifact a w = w\<lparr>wS := (wS w)\<lparr>iArtifacts := iArtifacts (wS w) @ [a]\<rparr>\<rparr>"

definition CreateArtifact ::
  "bridge_env \<Rightarrow> string \<Rightarrow> string option \<Rightarrow> string option \<Rightarrow> artifact_params \<Rightarrow> bridge_state \<Rightarrow> bridge_state result" where
  "CreateArtifact env artifactID taskID invocationID p st =
     (if (case paContent p of None \<Rightarrow> True | Some s \<Rightarrow> bTakes env s)
      then Inr (st\<lparr>sF := add_artifact
             \<lparr>rID = artifactID, rTask = non_blank taskID, rInvocation = non_blank invocationID, rType = paType p, rTitle = paTitle p,
              rURI = paURI p, rMedia = paMedia p, rContent = None, rText = paContent p, rMeta = json_map (paMeta p),
              rCreatedAt = eClk (oF (bO env)) (wN (sF st))\<rparr> (sF st)\<rparr>)
      else Inl encoding_error)"

definition draw :: "nat \<Rightarrow> bridge_state \<Rightarrow> bridge_state" where
  "draw k st = st\<lparr>sF := (sF st)\<lparr>wN := wN (sF st) + k\<rparr>\<rparr>"

fun create_artifacts ::
  "bridge_env \<Rightarrow> string \<Rightarrow> string \<Rightarrow> artifact_params list \<Rightarrow> string list \<Rightarrow> bridge_state \<Rightarrow> bridge_state \<times> string list result" where
  "create_artifacts env taskID invocationID [] ids st = (st, Inr ids)"
| "create_artifacts env taskID invocationID (p # ps) ids st =
     (let i = eUid (oF (bO env)) (wN (sF st))
      in case CreateArtifact env i (Some taskID) (Some invocationID) p (draw 1 st) of
           Inl e \<Rightarrow> (draw 1 st, Inl e)
         | Inr st1 \<Rightarrow> create_artifacts env taskID invocationID ps (ids @ [i]) st1)"

definition text_artifact :: "string \<Rightarrow> string \<Rightarrow> string \<Rightarrow> string \<Rightarrow> artifact_params list" where
  "text_artifact bridgeID kind title content =
     (if TrimSpace content = [] then []
      else [\<lparr>paType = kind, paTitle = stringPtr title, paURI = None, paMedia = stringPtr ''text/plain'',
             paContent = Some (truncateForAPI content 16000), paMeta = [''bridge_id'' \<mapsto> AStr bridgeID]\<rparr>])"

definition text_artifacts :: "bridge_env \<Rightarrow> string \<Rightarrow> bridge_result \<Rightarrow> artifact_params list" where
  "text_artifacts env bridgeID r =
     text_artifact bridgeID ''local_bridge_stdout'' ''Local bridge stdout'' (derefString (rsStdout r)) @
     text_artifact bridgeID ''local_bridge_stderr'' ''Local bridge stderr'' (derefString (rsStderr r)) @
     text_artifact bridgeID ''local_bridge_diff'' ''Local bridge diff'' (derefString (rsDiff r)) @
     (if rsTestResults r = Map.empty then []
      else text_artifact bridgeID ''local_bridge_test_results'' ''Local bridge test results''
             (bJson env (AMap (rsTestResults r))))"

definition owned_metadata :: "task \<Rightarrow> any_map \<Rightarrow> any_map" where
  "owned_metadata t a =
     (let m = tMetadata t; n = TrimSpace (derefString (tInitiativeID t)); iteration = objectiveAsInt (m ''objective_iteration'') 0;
          a1 = str_entry ''initiative_id'' n a;
          a2 = a1(''task_id'' \<mapsto> AStr (tID t));
          a3 = str_entry ''work_item_kind'' (trimmed m ''work_item_kind'') (str_entry ''work_item_id'' (trimmed m ''work_item_id'') a2)
      in if 0 < iteration then a3(''iteration'' \<mapsto> AInt iteration) else a3)"

definition given_artifact :: "task \<Rightarrow> any_map \<Rightarrow> artifact_params" where
  "given_artifact t a =
     \<lparr>paType = firstNonEmptyString [trimmed a ''type'', ''local_bridge_artifact''],
      paTitle = stringPtr (trimmed a ''title''), paURI = stringPtr (trimmed a ''path''),
      paMedia = stringPtr (trimmed a ''media_type''),
      paContent = stringPtr (truncateForAPI (trimmed a ''content_text'') 4000), paMeta = owned_metadata t a\<rparr>"

definition int_val :: "int option \<Rightarrow> any_val" where
  "int_val v = (case v of None \<Rightarrow> ANil | Some n \<Rightarrow> AInt n)"

text \<open>The fields of a result that the invocation and the task both keep.\<close>

definition result_fields :: "bridge_result \<Rightarrow> any_map" where
  "result_fields r =
     [''stdout'' \<mapsto> AStr (derefString (rsStdout r)), ''stderr'' \<mapsto> AStr (derefString (rsStderr r)),
      ''exit_code'' \<mapsto> int_val (rsExitCode r), ''diff'' \<mapsto> AStr (derefString (rsDiff r)),
      ''changed_files'' \<mapsto> AStrs (rsChangedFiles r), ''test_results'' \<mapsto> AMap (rsTestResults r),
      ''review_decision'' \<mapsto> AStr (derefString (rsReviewDecision r)), ''review_comments'' \<mapsto> maps_val (rsReviewComments r),
      ''capability_usage'' \<mapsto> maps_val (rsCapabilityUsage r), ''capability_helped'' \<mapsto> AStrs (rsCapabilityHelped r),
      ''capability_noise'' \<mapsto> AStrs (rsCapabilityNoise r), ''capability_denied'' \<mapsto> AStrs (rsCapabilityDenied r)]"

definition bridge_invocation :: "string \<Rightarrow> string \<Rightarrow> task \<Rightarrow> bridge_result \<Rightarrow> invocation" where
  "bridge_invocation bridgeID taskID t r =
     \<lparr>ivID = [], ivTask = Some taskID,
      ivAgent = Some (case tAssignedAgent t of None \<Rightarrow> AgentTypeCoder | Some a \<Rightarrow> a),
      ivEntrypoint = ''local_bridge'', ivCapability = ''local_bridge.run'',
      ivInput = [''bridge_id'' \<mapsto> AStr bridgeID, ''workspace_root'' \<mapsto> AStr (asString (tMetadata t ''workspace_root'')),
        ''tool_request'' \<mapsto> (case tMetadata t ''tool_request'' of None \<Rightarrow> ANil | Some v \<Rightarrow> v)],
      ivOutput = (result_fields r)(''summary'' \<mapsto> AStr (TrimSpace (derefString (rsSummary r)))),
      ivStatus = result_status r, ivArtifactIDs = [],
      ivError = stringPtr (TrimSpace (derefString (rsErrorMessage r)))\<rparr>"

definition task_results :: "bridge_result \<Rightarrow> any_map list \<Rightarrow> string \<Rightarrow> string list \<Rightarrow> any_map" where
  "task_results r artifacts invocationID ids =
     (result_fields r)(''status'' \<mapsto> AStr (result_status r), ''summary'' \<mapsto> AStr (derefString (rsSummary r)),
        ''findings'' \<mapsto> maps_val (rsFindings r), ''artifacts'' \<mapsto> maps_val artifacts,
        ''error_message'' \<mapsto> AStr (derefString (rsErrorMessage r)), ''tool_invocation_id'' \<mapsto> AStr invocationID,
        ''artifact_ids'' \<mapsto> AStrs ids)"

definition artifacts_to_persist :: "bridge_env \<Rightarrow> nat \<Rightarrow> task \<Rightarrow> bridge_result \<Rightarrow> any_map list" where
  "artifacts_to_persist env k t r =
     (let clk = eClk (oF (bO env))
      in rsArtifacts r @ buildObjectiveIterationArtifacts env (clk k) (clk (k + 1)) (clk (k + 2)) t r @
         buildRepoWorkflowMemoryArtifacts env t r)"

definition persistLocalBridgeExecution ::
  "bridge_env \<Rightarrow> string \<Rightarrow> string \<Rightarrow> task \<Rightarrow> bridge_result \<Rightarrow> bridge_state
     \<Rightarrow> bridge_state \<times> (any_map \<times> string \<times> string list) result" where
  "persistLocalBridgeExecution env bridgeID taskID t r st =
     (let k = wN (sF st); invocationID = eUid (oF (bO env)) k;
          st1 = CreateToolInvocation invocationID (bridge_invocation bridgeID taskID t r) (draw 4 st);
          extra = artifacts_to_persist env (k + 1) t r
      in case create_artifacts env taskID invocationID (text_artifacts env bridgeID r @ map (given_artifact t) extra) [] st1 of
           (st2, Inl e) \<Rightarrow> (st2, Inl e)
         | (st2, Inr ids) \<Rightarrow>
             (UpdateToolInvocationArtifactIDs invocationID ids st2,
              Inr (json_map (task_results r extra invocationID ids), invocationID, ids)))"

section \<open>Settling the task\<close>

definition finalize_lease :: "flow_env \<Rightarrow> string \<Rightarrow> string \<Rightarrow> string \<Rightarrow> string option \<Rightarrow> flow \<Rightarrow> flow" where
  "finalize_lease env bridgeID taskID status summary w =
     set_db (FinalizeLocalBridgeTaskLease (eClk env (wN w)) (eClk env (wN w + 1)) taskID bridgeID status (stringPtr status)
               None summary (flow_db w)) 2 w"

definition bridge_actor :: "string \<Rightarrow> string" where
  "bridge_actor bridgeID = ''bridge:'' @ bridgeID"

definition complete_by :: "flow_env \<Rightarrow> string \<Rightarrow> string \<Rightarrow> string \<Rightarrow> any_map \<Rightarrow> flow \<Rightarrow> flow \<times> string option" where
  "complete_by env bridgeID taskID reason results =
     call_db env (\<lambda>u now d. drop_snd (CompleteTask u now taskID (bridge_actor bridgeID) reason (Some (AMap results)) d))"

definition shouldStopObjectiveAfterSuccess ::
  "obj_env \<Rightarrow> instant \<Rightarrow> task \<Rightarrow> bridge_result \<Rightarrow> (string \<times> string) option" where
  "shouldStopObjectiveAfterSuccess env now t r =
     (let m = tMetadata t
      in if tInitiativeID t = None then None
         else if \<not> objectiveAsBool (m ''objective_entrypoint'') then None
         else if \<not> objectiveTimeBudgetExceeded (oParse env) m now then None
         else if trimmed m ''work_item_kind'' = WorkItemKindReview \<and> EqualFold (derefString (rsReviewDecision r)) ''approved''
         then None
         else (case objectiveTimeBudgetDetails (oParse env) m of
                 (budgetSeconds, deadline, ok) \<Rightarrow>
                   if \<not> ok then None
                   else Some (''time_budget_exhausted'',
                              objectiveTimeBudgetExceededReason (oFmt env) budgetSeconds deadline)))"

definition stopObjectiveAfterTaskCompletion :: "obj_env \<Rightarrow> task \<Rightarrow> string \<Rightarrow> string \<Rightarrow> flow \<Rightarrow> flow" where
  "stopObjectiveAfterTaskCompletion env t stopReason blockerReason w =
     (case tInitiativeID t of
        None \<Rightarrow> w
      | Some initID \<Rightarrow>
          (case objectiveTimeBudgetDetails (oParse env) (tMetadata t) of
             (budgetSeconds, deadline, _) \<Rightarrow>
               (let p = [(''objective_stop_reason'', AStr stopReason),
                         (''objective_time_budget_exhausted'', ABool (stopReason = ''time_budget_exhausted'')),
                         (''objective_time_budget_exhausted_at'', ATime (eClk (oF env) (wN w)))];
                    w1 = patch_metadata (oF env) (tID t) p (w\<lparr>wN := wN w + 1\<rparr>);
                    w2 = persistObjectiveStopSnapshot env t stopReason blockerReason deadline budgetSeconds w1
                in w2\<lparr>wS := UpdateInitiative (eClk (oF env) (wN w2)) initID
                       (noUpdate\<lparr>uStatus := Some Blocked, uPhase := Some ExecutionPhase\<rparr>) (wS w2), wN := wN w2 + 1\<rparr>)))"

definition queue_initiative :: "obj_env \<Rightarrow> task \<Rightarrow> flow \<Rightarrow> flow \<times> string option" where
  "queue_initiative env t w =
     (case tInitiativeID t of None \<Rightarrow> (w, None) | Some initID \<Rightarrow> queueReadyObjectiveTasks env initID w)"

definition reconcile_task_root :: "obj_env \<Rightarrow> string \<Rightarrow> flow \<Rightarrow> flow" where
  "reconcile_task_root env taskID w = reconcileRootTask (oF env) ''api:aggregate'' taskID w"

definition then_reconcile :: "obj_env \<Rightarrow> string \<Rightarrow> flow \<times> string option \<Rightarrow> flow \<times> string option" where
  "then_reconcile env taskID p =
     (case p of (w, Some e) \<Rightarrow> (w, Some e) | (w, None) \<Rightarrow> (reconcile_task_root env taskID w, None))"

definition settle_waiting :: "obj_env \<Rightarrow> string \<Rightarrow> string \<Rightarrow> task \<Rightarrow> bridge_result \<Rightarrow> flow \<Rightarrow> flow \<times> string option" where
  "settle_waiting env bridgeID taskID t r w =
     (let f = oF env; w1 = finalize_lease f bridgeID taskID ''waiting_approval'' (rsSummary r) w;
          timeout = (case rsTimeoutSeconds r of None \<Rightarrow> 300 | Some n \<Rightarrow> if 0 < n then n else 300);
          actionType = firstNonEmptyString [derefString (rsActionType r), ''local_bridge_tool''];
          target = firstNonEmptyString [derefString (rsTargetResource r), derefString (rsSummary r), tDescription t];
          reason = firstNonEmptyString [derefString (rsSummary r), ''Local bridge requested approval''];
          approvalID = eUid f (wN w1 + 1)
      in call_db f (\<lambda>u now d. drop_snd (RequestApproval approvalID u now taskID actionType target timeout
              (bridge_actor bridgeID) reason [''approval_requested'' \<mapsto> ABool True] d)) w1)"

definition settle_success ::
  "obj_env \<Rightarrow> string \<Rightarrow> string \<Rightarrow> task \<Rightarrow> bridge_result \<Rightarrow> any_map \<Rightarrow> flow \<Rightarrow> flow \<times> string option" where
  "settle_success env bridgeID taskID t r results w =
     (let f = oF env;
          reason = firstNonEmptyString [derefString (rsSummary r), ''Local bridge execution completed'']
      in case complete_by f bridgeID taskID reason results (finalize_lease f bridgeID taskID ''completed'' (rsSummary r) w) of
           (w1, Some e) \<Rightarrow> (w1, Some e)
         | (w1, None) \<Rightarrow>
             (let w2 = w1\<lparr>wN := wN w1 + 1\<rparr>
              in case shouldStopObjectiveAfterSuccess env (eClk f (wN w1)) t r of
                   Some (stopReason, blockerReason) \<Rightarrow>
                     then_reconcile env taskID (stopObjectiveAfterTaskCompletion env t stopReason blockerReason w2, None)
                 | None \<Rightarrow> then_reconcile env taskID (queue_initiative env t w2)))"

definition settle_baseline ::
  "obj_env \<Rightarrow> string \<Rightarrow> string \<Rightarrow> task \<Rightarrow> bridge_result \<Rightarrow> any_map \<Rightarrow> flow \<Rightarrow> flow \<times> string option" where
  "settle_baseline env bridgeID taskID t r results w =
     (let f = oF env;
          reason = firstNonEmptyString [derefString (rsSummary r),
            ''Objective baseline validation recorded failing evidence before the first edit'']
      in case complete_by f bridgeID taskID reason results (finalize_lease f bridgeID taskID ''completed'' (rsSummary r) w) of
           (w1, Some e) \<Rightarrow> (w1, Some e)
         | (w1, None) \<Rightarrow> then_reconcile env taskID (queue_initiative env t w1))"

definition reconcile_own :: "flow_env \<Rightarrow> task \<Rightarrow> flow \<Rightarrow> flow" where
  "reconcile_own env t w = (case tInitiativeID t of None \<Rightarrow> w | Some initID \<Rightarrow> reconcile env initID w)"

definition settle_repair ::
  "obj_env \<Rightarrow> string \<Rightarrow> string \<Rightarrow> task \<Rightarrow> bridge_result \<Rightarrow> any_map \<Rightarrow> flow \<Rightarrow> flow \<times> string option" where
  "settle_repair env bridgeID taskID t r results w =
     (let f = oF env;
          reason = firstNonEmptyString [derefString (rsSummary r),
            ''Objective iteration completed and requested another repair cycle'']
      in case complete_by f bridgeID taskID reason results (finalize_lease f bridgeID taskID ''completed'' (rsSummary r) w) of
           (w1, Some e) \<Rightarrow> (w1, Some e)
         | (w1, None) \<Rightarrow>
             (case startObjectiveRepairCycle env t r w1 of
                (w2, Some e) \<Rightarrow> (w2, Some e)
              | (w2, None) \<Rightarrow> then_reconcile env taskID (reconcile_own f t w2, None)))"

definition settle_failure ::
  "obj_env \<Rightarrow> string \<Rightarrow> string \<Rightarrow> task \<Rightarrow> bridge_result \<Rightarrow> any_map \<Rightarrow> flow \<Rightarrow> flow \<times> string option" where
  "settle_failure env bridgeID taskID t r results w =
     (let f = oF env;
          errorMessage = firstNonEmptyString [derefString (rsErrorMessage r), derefString (rsStderr r),
            derefString (rsStdout r), ''Local bridge execution failed'']
      in then_reconcile env taskID
           (call_db f (\<lambda>u now d. drop_snd (FailTask u now taskID (bridge_actor bridgeID) errorMessage errorMessage
                (Some (AMap results)) d)) (finalize_lease f bridgeID taskID ''failed'' (rsSummary r) w)))"

definition settle ::
  "obj_env \<Rightarrow> string \<Rightarrow> string \<Rightarrow> task \<Rightarrow> bridge_result \<Rightarrow> any_map \<Rightarrow> flow \<Rightarrow> flow \<times> string option" where
  "settle env bridgeID taskID t r results w =
     (if result_status r = ''waiting_approval'' then settle_waiting env bridgeID taskID t r w
      else if result_status r = ''success'' then settle_success env bridgeID taskID t r results w
      else if objectiveAsBool (tMetadata t ''objective_baseline_validation'')
      then settle_baseline env bridgeID taskID t r results w
      else
        (let w1 = w\<lparr>wN := wN w + 1\<rparr>
         in if shouldStartObjectiveRepairCycle (oParse env) (eClk (oF env) (wN w)) t r
            then settle_repair env bridgeID taskID t r results w1
            else settle_failure env bridgeID taskID t r results w1))"

definition submitBridgeTaskResult ::
  "bridge_env \<Rightarrow> string \<Rightarrow> string \<Rightarrow> bridge_result \<Rightarrow> bridge_state \<Rightarrow> bridge_state \<times> bridge_answer" where
  "submitBridgeTaskResult env bridgeID taskID r st =
     (case GetTask (flow_db (sF st)) taskID of
        None \<Rightarrow> (st, BDetail 404 ''task not found'')
      | Some t \<Rightarrow>
          (case persistLocalBridgeExecution env bridgeID taskID t r st of
             (st1, Inl e) \<Rightarrow> (st1, BDetail 500 e)
           | (st1, Inr (results, invocationID, ids)) \<Rightarrow>
               (case settle (bO env) bridgeID taskID t r results (sF st1) of
                  (w, Some e) \<Rightarrow> (st1\<lparr>sF := w\<rparr>, BDetail 500 e)
                | (w, None) \<Rightarrow> (st1\<lparr>sF := w\<rparr>, BAccepted invocationID ids))))"

end
