(* ===== verification/Bridge_Facts.thy ===== *)
theory Bridge_Facts
  imports Bridge_Api Objective_Repair
begin

text \<open>
  What the result of a bridge does to the tables: finished tasks stay finished while the objective is
  driven on, a result settles its task whichever bridge sends it, records stay consistent, and three
  ways in which the handler goes wrong.
\<close>

section \<open>Finished tasks stay finished\<close>

definition ends :: "flow \<Rightarrow> flow \<Rightarrow> bool" where
  "ends w w' \<longleftrightarrow> (\<forall>j s. state_at w j = Some s \<longrightarrow> IsTerminalState s \<longrightarrow> state_at w' j = Some s)"

lemma ends_refl [simp]: "ends w w"
  by (simp add: ends_def)

lemma ends_trans: "ends w v \<Longrightarrow> ends v u \<Longrightarrow> ends w u"
  by (simp add: ends_def)

lemma ends_count [simp]: "ends (w\<lparr>wN := n\<rparr>) v = ends w v" "ends w (v\<lparr>wN := n\<rparr>) = ends w v"
  by (simp_all add: ends_def)

lemma ends_walks: "walks w v \<Longrightarrow> ends w v"
  using walks_terminal by (fastforce simp: ends_def state_at_def task_at_def)

lemma walks_patch_metadata: "walks w (patch_metadata f i p w)"
  by (simp add: walks_def patch_metadata_def lifecycle_reach_one lifecycle_step.patch)

lemma walks_cancel:
  "CancelTask r k i a q (flow_db w) = Inr d \<Longrightarrow> walks w (w\<lparr>wS := (wS w)\<lparr>iDB := d\<rparr>, wN := n\<rparr>)"
  by (auto simp: walks_def CancelTask_def intro!: lifecycle_reach_one lifecycle_step.update)

lemma walks_count [simp]: "walks (w\<lparr>wN := n\<rparr>) v = walks w v" "walks w (v\<lparr>wN := n\<rparr>) = walks w v"
  by (simp_all add: walks_def)

lemma cancel_superseded_walks:
  assumes "cancel_superseded f n t w = (w', r)"
  shows "walks w w' \<and> iLinks (wS w') = iLinks (wS w)"
proof -
  define w1 where "w1 = patch_metadata f (tID t)
    [(''superseded_by_repair_cycle'', ABool True), (''superseded_iteration'', AInt (n + 1))] w"
  have w1: "walks w w1" "iLinks (wS w1) = iLinks (wS w)" by (simp_all add: w1_def walks_patch_metadata)
  show ?thesis
    using assms w1 walks_trans [OF w1(1) walks_cancel]
    by (auto simp: cancel_superseded_def w1_def [symmetric] Let_def split: sum.splits)
qed

lemma supersede_pass_walks:
  "supersede_pass f t xs M c w = (w', r) \<Longrightarrow> walks w w' \<and> iLinks (wS w') = iLinks (wS w)"
proof (induction xs arbitrary: M c w)
  case (Cons x xs)
  show ?case
  proof (cases "marks t M x \<and> supersedable (tState x)")
    case True
    obtain w1 e where c: "cancel_superseded f (objectiveIteration (tMetadata t)) x w = (w1, e)" by fastforce
    note s = cancel_superseded_walks [OF c]
    show ?thesis
    proof (cases e)
      case None
      then have "supersede_pass f t xs (work_id x # M) True w1 = (w', r)" using Cons.prems True c by simp
      from Cons.IH [OF this] s show ?thesis by (auto intro: walks_trans)
    qed (use Cons.prems True c s in simp)
  next
    case False
    then show ?thesis using Cons by (auto split: if_splits)
  qed
qed simp

lemma supersede_loop_walks:
  "supersede_loop f t xs M w = (w', r) \<Longrightarrow> walks w w' \<and> iLinks (wS w') = iLinks (wS w)"
proof (induction f t xs M w rule: supersede_loop.induct)
  case (1 f t xs M w)
  obtain w1 r1 where p: "supersede_pass f t xs M False w = (w1, r1)" by fastforce
  note s = supersede_pass_walks [OF p]
  show ?case
  proof (cases r1)
    case (Inl e)
    then show ?thesis using 1 p s by (simp add: supersede_loop.simps [of f t xs M w])
  next
    case (Inr mc)
    obtain M1 c where mc: "mc = (M1, c)" by fastforce
    show ?thesis
    proof (cases c)
      case True
      then have "supersede_loop f t xs M1 w1 = (w', r)" using 1(2) p Inr mc by (subst (asm) supersede_loop.simps) simp
      then have "walks w1 w' \<and> iLinks (wS w') = iLinks (wS w1)"
        by (rule 1(1) [OF p [symmetric] Inr mc [symmetric] True])
      then show ?thesis using s by (auto intro: walks_trans)
    next
      case False
      then show ?thesis using 1(2) p Inr mc s by (simp add: supersede_loop.simps [of f t xs M w])
    qed
  qed
qed

lemma cancelSuperseded_walks:
  "cancelSupersededObjectiveDependents f i t w = (w', r) \<Longrightarrow> walks w w' \<and> iLinks (wS w') = iLinks (wS w)"
  using supersede_loop_walks
  by (fastforce simp: cancelSupersededObjectiveDependents_def split: if_splits prod.splits sum.splits)

lemma LinkInitiativeTask_db: "LinkInitiativeTask u k n j po e g m ord s = (s', x) \<Longrightarrow> iDB s' = iDB s"
  by (auto simp: LinkInitiativeTask_def Let_def split: if_splits option.splits)

lemma materialize_item_walks: "materialize_item f n c s idx i w = (w', r) \<Longrightarrow> walks w w'"
  by (auto simp: materialize_item_def Let_def walks_def lifecycle_reach.refl dest!: LinkInitiativeTask_db
      dest: lifecycle_step.create [THEN lifecycle_reach_one] split: sum.splits prod.splits)

lemma materialize_items_walks: "materialize_items f n c s idx items w = (w', r) \<Longrightarrow> walks w w'"
proof (induction items arbitrary: idx w r)
  case (Cons i items)
  obtain w1 r1 where m: "materialize_item f n c s idx i w = (w1, r1)" by fastforce
  obtain w2 r2 where ms: "materialize_items f n c s (idx + 1) items w1 = (w2, r2)" by fastforce
  show ?case
    using Cons.prems materialize_item_walks [OF m] Cons.IH [of "idx + 1" w1 r2] m ms
    by (auto split: sum.splits intro: walks_trans)
qed simp

lemma materialize_walks: "materializeObjectiveWorkItems f n c w = (w', r) \<Longrightarrow> walks w w'"
  using materialize_items_walks by (fastforce simp: materializeObjectiveWorkItems_def Let_def)

lemma queue_ends:
  assumes "keyed link_key (iLinks (wS w))" and "queueReadyObjectiveTasks env i w = (w', r)"
  shows "ends w w'"
proof -
  let ?items = "ListInitiativeTasks (wS w) i"
  have q: "queue_all env ?items ?items w = (w', r)" using assms(2) by (simp add: queueReadyObjectiveTasks_def Let_def)
  show ?thesis
    unfolding ends_def
  proof (intro allI impI)
    fix j s assume s: "state_at w j = Some s" "IsTerminalState s"
    have "\<not> (\<exists>it \<in> set ?items. lTask (fst it) = j \<and> ready ?items it)"
    proof
      assume "\<exists>it \<in> set ?items. lTask (fst it) = j \<and> ready ?items it"
      then obtain it where it: "it \<in> set ?items" "lTask (fst it) = j" "tState (snd it) = Created" by (auto simp: ready_def)
      then have "state_at w j = Some Created" using listed_row(1) [OF it(1)] by (simp add: state_at_def)
      with s show False by (auto simp: IsTerminalState_def terminalStates_def)
    qed
    then show "state_at w' j = Some s" using queue_all_effect [OF listing_fresh [OF assms(1)] q] s(1) by metis
  qed
qed

lemma repair_ends:
  assumes "keyed link_key (iLinks (wS w))" and "startObjectiveRepairCycle env t r w = (w', x)"
  shows "ends w w'"
proof -
  let ?f = "oF env" and ?w = "w\<lparr>wN := wN w + 1\<rparr>"
  consider "walks w w'"
    | i n c items w1 w2 ts where
      "cancelSupersededObjectiveDependents ?f i t ?w = (w1, None)"
      "materializeObjectiveWorkItems ?f n (c\<lparr>ecWorkItems := items\<rparr>) w1 = (w2, Inr ts)"
      "queueReadyObjectiveTasks env (nID n) w2 = (w', x)"
    | i n c items w1 e where "cancelSupersededObjectiveDependents ?f i t ?w = (w1, None)"
      "materializeObjectiveWorkItems ?f n (c\<lparr>ecWorkItems := items\<rparr>) w1 = (w', Inl e)"
    | i e where "cancelSupersededObjectiveDependents ?f i t ?w = (w', Some e)"
    using assms(2) unfolding startObjectiveRepairCycle_def Let_def
    by (auto split: if_splits option.splits prod.splits sum.splits)
  then show ?thesis
  proof cases
    case 2
    have c: "walks w w1" "iLinks (wS w1) = iLinks (wS w)" using cancelSuperseded_walks [OF 2(1)] by simp_all
    have "keyed link_key (iLinks (wS w2))" using materialize_effect [OF 2(2)] c(2) assms(1) by simp
    from queue_ends [OF this 2(3)] ends_walks [OF c(1)] ends_walks [OF materialize_walks [OF 2(2)]] show ?thesis
      by (blast intro: ends_trans)
  next
    case 3
    have "walks w w1" using cancelSuperseded_walks [OF 3(1)] by simp
    from ends_walks [OF this] ends_walks [OF materialize_walks [OF 3(2)]] show ?thesis by (rule ends_trans)
  next
    case 4
    then show ?thesis using cancelSuperseded_walks [OF 4] by (simp add: ends_walks)
  qed (rule ends_walks)
qed

section \<open>Single calls of the handler\<close>

lemma finalize_lease_simps [simp]:
  "iInits (wS (finalize_lease f b i s m w)) = iInits (wS w)" "iLinks (wS (finalize_lease f b i s m w)) = iLinks (wS w)"
  "wN (finalize_lease f b i s m w) = wN w + 2"
  by (simp_all add: finalize_lease_def set_db_def)

lemma finalize_lease_patch:
  obtains "flow_db (finalize_lease f b i s m w) = flow_db w"
  | now p where "flow_db (finalize_lease f b i s m w) = PatchTaskMetadata now (TrimSpace i) p (flow_db w)"
proof (cases "TrimSpace i = [] \<or> TrimSpace b = []")
  case True
  then have "flow_db (finalize_lease f b i s m w) = flow_db w"
    by (auto simp: finalize_lease_def FinalizeLocalBridgeTaskLease_def)
  then show thesis by (rule that(1))
next
  case False
  then show thesis
    by (intro that(2)) (simp add: finalize_lease_def FinalizeLocalBridgeTaskLease_def Let_def)
qed

lemma walks_finalize_lease: "walks w (finalize_lease f b i s m w)"
  by (rule finalize_lease_patch [of f b i s m w])
     (simp_all add: walks_def lifecycle_reach.refl lifecycle_reach_one lifecycle_step.patch)

lemma finalize_lease_task:
  "\<exists>g. (\<forall>t. tID (g t) = tID t \<and> tState (g t) = tState t \<and> tInitiativeID (g t) = tInitiativeID t) \<and>
     task_at (finalize_lease f b i s m w) j = map_option g (task_at w j)"
proof (rule finalize_lease_patch [of f b i s m w])
  assume "flow_db (finalize_lease f b i s m w) = flow_db w"
  then show ?thesis by (intro exI [of _ "\<lambda>t. t"]) (simp add: task_at_def option.map_ident)
next
  fix now p assume p: "flow_db (finalize_lease f b i s m w) = PatchTaskMetadata now (TrimSpace i) p (flow_db w)"
  show ?thesis
    by (rule exI [of _ "if j = TrimSpace i \<and> p \<noteq> [] then (\<lambda>t. t\<lparr>tMetadata := tMetadata t ++ map_of p, tUpdatedAt := now\<rparr>) else (\<lambda>t. t)"])
       (simp add: task_at_def p GetTask_patch option.map_ident)
qed

lemma state_at_lease [simp]: "state_at (finalize_lease f b i s m w) j = state_at w j"
  using finalize_lease_task [of f b i s m w j] by (auto simp: state_at_def option.map_comp comp_def)

lemma call_db_tables:
  "call_db f g w = (w', e) \<Longrightarrow> iInits (wS w') = iInits (wS w) \<and> iLinks (wS w') = iLinks (wS w) \<and> wN w' = wN w + 2"
  by (auto simp: call_db_def set_db_def split: sum.splits)

lemma finalize_call:
  assumes "call_db f (\<lambda>u now d. drop_snd (finalizeTask u now i s a q res err d)) w = (w', e)"
  shows "e = None \<longrightarrow> state_at w' i = Some s" and "j \<noteq> i \<Longrightarrow> task_at w' j = task_at w j"
    and "state_at w i = Some s0 \<Longrightarrow> e = None \<longleftrightarrow> IsValidTransition s0 s" and "e \<noteq> None \<Longrightarrow> task_at w' j = task_at w j"
  using assms
  by (auto simp: call_db_def drop_snd_def finalizeTask_def Let_def state_at_def task_at_def GetTask_def find_row_upd_same
      find_row_upd_other split: option.splits if_splits)

lemma walks_complete_by: "complete_by f b i q res w = (w', e) \<Longrightarrow> walks w w'"
  using walks_complete [of w f i "bridge_actor b" q "Some (AMap res)"] by (simp add: complete_by_def)

lemma complete_by_effect:
  assumes "complete_by f b i q res w = (w', e)"
  shows "e = None \<longrightarrow> state_at w' i = Some Completed" and "state_at w i = Some s0 \<Longrightarrow> e = None \<longleftrightarrow> IsValidTransition s0 Completed"
    and "iInits (wS w') = iInits (wS w)" "iLinks (wS w') = iLinks (wS w)" "wN w' = wN w + 2"
    and "j \<noteq> i \<Longrightarrow> task_at w' j = task_at w j" "e \<noteq> None \<Longrightarrow> task_at w' j = task_at w j"
proof -
  have c: "call_db f (\<lambda>u now d. drop_snd (finalizeTask u now i Completed (bridge_actor b) q (Some (AMap res)) None d)) w = (w', e)"
    using assms by (simp add: complete_by_def CompleteTask_def)
  from finalize_call [OF c] call_db_tables [OF c]
  show "e = None \<longrightarrow> state_at w' i = Some Completed" "state_at w i = Some s0 \<Longrightarrow> e = None \<longleftrightarrow> IsValidTransition s0 Completed"
    "iInits (wS w') = iInits (wS w)" "iLinks (wS w') = iLinks (wS w)" "wN w' = wN w + 2"
    "j \<noteq> i \<Longrightarrow> task_at w' j = task_at w j" "e \<noteq> None \<Longrightarrow> task_at w' j = task_at w j" by auto
qed

lemma reconcile_ends: "ends w (reconcile_task_root env i w)"
  by (simp add: reconcile_task_root_def ends_walks walks_reconcileRootTask)

lemma then_reconcile_ends: "then_reconcile env i (v, e) = (w', None) \<Longrightarrow> e = None \<and> ends v w'"
  by (auto simp: then_reconcile_def reconcile_ends split: option.splits)

lemma reconcile_own_state [simp]: "state_at (reconcile_own f t w) j = state_at w j"
proof -
  have "iDB (fst (ReconcileInitiativeExecution c i s)) = iDB s" for c i s
    by (simp add: ReconcileInitiativeExecution_def Let_def UpdateInitiative_def split: option.split list.split)
  then show ?thesis by (simp add: reconcile_own_def reconcile_def state_at_def task_at_def split: option.split)
qed

lemma stop_state [simp]: "state_at (stopObjectiveAfterTaskCompletion env t a b w) j = state_at w j"
proof -
  have "task_at (v\<lparr>wS := UpdateInitiative c i u (wS v), wN := n\<rparr>) j = task_at v j" for v c i u n
    by (simp add: task_at_def UpdateInitiative_def)
  moreover have "task_at (persistObjectiveStopSnapshot env t a b dl bs v) j = task_at v j" for dl bs v
    by (simp add: persistObjectiveStopSnapshot_def task_at_def Let_def split: option.split)
  moreover have "state_at (patch_metadata f i p v) j = state_at v j" for f i p v by simp
  ultimately show ?thesis
    by (auto simp: stopObjectiveAfterTaskCompletion_def state_at_def Let_def split: option.split prod.split)
qed

section \<open>Settling\<close>

text \<open>The state a result asks for, \<open>now\<close> being the time at which the repair cycle is decided.\<close>

definition settled_state :: "obj_env \<Rightarrow> instant \<Rightarrow> task \<Rightarrow> bridge_result \<Rightarrow> task_state" where
  "settled_state env now t r =
     (if result_status r = ''waiting_approval'' then WaitingApproval
      else if result_status r = ''success'' \<or> objectiveAsBool (tMetadata t ''objective_baseline_validation'') \<or>
              shouldStartObjectiveRepairCycle (oParse env) now t r
      then Completed else Failed)"

lemma stays_completed: "state_at v i = Some Completed \<Longrightarrow> ends v w \<Longrightarrow> state_at w i = Some Completed"
  by (auto simp: ends_def IsTerminalState_def terminalStates_def)

lemma stays_failed: "state_at v i = Some Failed \<Longrightarrow> ends v w \<Longrightarrow> state_at w i = Some Failed"
  by (auto simp: ends_def IsTerminalState_def terminalStates_def)

lemma queue_initiative_ends:
  "keyed link_key (iLinks (wS w)) \<Longrightarrow> queue_initiative env t w = (w', e) \<Longrightarrow> ends w w'"
  by (auto simp: queue_initiative_def queue_ends split: option.splits)

lemma settle_success_completes:
  assumes "settle_success env b i t r res w = (w', None)" and "keyed link_key (iLinks (wS w))"
  shows "state_at w' i = Some Completed"
proof -
  let ?q = "firstNonEmptyString [derefString (rsSummary r), ''Local bridge execution completed'']"
  obtain w1 e where c: "complete_by (oF env) b i ?q res (finalize_lease (oF env) b i ''completed'' (rsSummary r) w) = (w1, e)"
    by fastforce
  note ce = complete_by_effect [OF c]
  have e: "e = None" using assms(1) c by (cases e) (simp_all add: settle_success_def)
  let ?w2 = "w1\<lparr>wN := wN w1 + 1\<rparr>"
  have s: "state_at ?w2 i = Some Completed" "keyed link_key (iLinks (wS ?w2))" using ce e assms(2) by simp_all
  show ?thesis
  proof (cases "shouldStopObjectiveAfterSuccess env (eClk (oF env) (wN w1)) t r")
    case None
    obtain v x where q: "queue_initiative env t ?w2 = (v, x)" by fastforce
    have "then_reconcile env i (v, x) = (w', None)" using assms(1) c e None q by (simp add: settle_success_def Let_def)
    from then_reconcile_ends [OF this] queue_initiative_ends [OF s(2) q] s(1) show ?thesis
      by (blast intro: stays_completed)
  next
    case (Some p)
    then have "then_reconcile env i (stopObjectiveAfterTaskCompletion env t (fst p) (snd p) ?w2, None) = (w', None)"
      using assms(1) c e by (simp add: settle_success_def Let_def split: prod.splits)
    from then_reconcile_ends [OF this] have "ends (stopObjectiveAfterTaskCompletion env t (fst p) (snd p) ?w2) w'" by simp
    moreover have "state_at (stopObjectiveAfterTaskCompletion env t (fst p) (snd p) ?w2) i = Some Completed"
      unfolding stop_state by (rule s(1))
    ultimately show ?thesis by (rule stays_completed [rotated])
  qed
qed

lemma settle_baseline_completes:
  assumes "settle_baseline env b i t r res w = (w', None)" and "keyed link_key (iLinks (wS w))"
  shows "state_at w' i = Some Completed"
proof -
  let ?q = "firstNonEmptyString [derefString (rsSummary r),
    ''Objective baseline validation recorded failing evidence before the first edit'']"
  obtain w1 e where c: "complete_by (oF env) b i ?q res (finalize_lease (oF env) b i ''completed'' (rsSummary r) w) = (w1, e)"
    by fastforce
  note ce = complete_by_effect [OF c]
  have e: "e = None" using assms(1) c by (cases e) (simp_all add: settle_baseline_def)
  obtain v x where q: "queue_initiative env t w1 = (v, x)" by fastforce
  have "then_reconcile env i (v, x) = (w', None)" using assms(1) c e q by (simp add: settle_baseline_def Let_def)
  from then_reconcile_ends [OF this] queue_initiative_ends [OF _ q] ce e assms(2) show ?thesis
    by (auto intro: stays_completed)
qed

lemma settle_repair_completes:
  assumes "settle_repair env b i t r res w = (w', None)" and "keyed link_key (iLinks (wS w))"
  shows "state_at w' i = Some Completed"
proof -
  let ?q = "firstNonEmptyString [derefString (rsSummary r),
    ''Objective iteration completed and requested another repair cycle'']"
  obtain w1 e where c: "complete_by (oF env) b i ?q res (finalize_lease (oF env) b i ''completed'' (rsSummary r) w) = (w1, e)"
    by fastforce
  note ce = complete_by_effect [OF c]
  have e: "e = None" using assms(1) c by (cases e) (simp_all add: settle_repair_def)
  obtain w2 x where q: "startObjectiveRepairCycle env t r w1 = (w2, x)" by fastforce
  have x: "x = None" using assms(1) c e q by (cases x) (simp_all add: settle_repair_def)
  have "then_reconcile env i (reconcile_own (oF env) t w2, None) = (w', None)"
    using assms(1) c e q x by (simp add: settle_repair_def)
  from then_reconcile_ends [OF this] have "ends (reconcile_own (oF env) t w2) w'" by simp
  moreover have "state_at w2 i = Some Completed"
    using repair_ends [OF _ q] ce e assms(2) by (auto intro: stays_completed)
  then have "state_at (reconcile_own (oF env) t w2) i = Some Completed" by simp
  ultimately show ?thesis by (rule stays_completed [rotated])
qed

lemma settle_failure_fails:
  assumes "settle_failure env b i t r res w = (w', None)"
  shows "state_at w' i = Some Failed"
proof -
  let ?m = "firstNonEmptyString [derefString (rsErrorMessage r), derefString (rsStderr r), derefString (rsStdout r),
    ''Local bridge execution failed'']"
  obtain w1 e where c: "call_db (oF env) (\<lambda>u now d. drop_snd (finalizeTask u now i Failed (bridge_actor b) ?m (Some (AMap res)) (Some ?m) d))
      (finalize_lease (oF env) b i ''failed'' (rsSummary r) w) = (w1, e)" by fastforce
  have "then_reconcile env i (w1, e) = (w', None)" using assms c by (simp add: settle_failure_def FailTask_def)
  from then_reconcile_ends [OF this] finalize_call(1) [OF c] show ?thesis by (auto intro: stays_failed)
qed

lemma settle_waiting_parks:
  assumes "settle_waiting env b i t r w = (w', None)"
  shows "state_at w' i = Some WaitingApproval"
  using assms
  by (auto simp: settle_waiting_def Let_def call_db_def drop_snd_def RequestApproval_def state_at_def task_at_def GetTask_def
      find_row_upd_same split: sum.splits option.splits if_splits)

lemma settle_settles:
  assumes "settle env b i t r res w = (w', None)" and "keyed link_key (iLinks (wS w))"
  shows "state_at w' i = Some (settled_state env (eClk (oF env) (wN w)) t r)"
  using assms settle_waiting_parks settle_success_completes settle_baseline_completes settle_repair_completes settle_failure_fails
  by (auto simp: settle_def settled_state_def Let_def split: if_splits)

lemma settle_single:
  assumes "state_at w i = Some InProgress" and "tInitiativeID t = None"
    and "\<forall>k. find_row aID (eUid (oF env) k) (dbApprovals (flow_db w)) = None"
  shows "\<exists>w'. settle env b i t r res w = (w', None)"
proof -
  have c: "\<exists>w1. complete_by f b i q res (finalize_lease f b i s m v) = (w1, None)" if "state_at v i = Some InProgress" for f q s m v
  proof -
    obtain w1 e where c: "complete_by f b i q res (finalize_lease f b i s m v) = (w1, e)" by fastforce
    have "e = None" using complete_by_effect(2) [OF c, of InProgress] that by (simp add: IsValidTransition_def GetValidTransitions_def)
    with c show ?thesis by blast
  qed
  have f: "\<exists>w1. call_db f (\<lambda>u now d. drop_snd (FailTask u now i a q x y d)) (finalize_lease f b i s m v) = (w1, None)"
    if "state_at v i = Some InProgress" for f a q x y s m v
  proof -
    obtain w1 e where c: "call_db f (\<lambda>u now d. drop_snd (finalizeTask u now i Failed a q y (Some x) d)) (finalize_lease f b i s m v) = (w1, e)"
      by fastforce
    have "e = None" using finalize_call(3) [OF c, of InProgress] that by (simp add: IsValidTransition_def GetValidTransitions_def)
    with c show ?thesis by (auto simp: FailTask_def)
  qed
  have stop: "shouldStopObjectiveAfterSuccess env now t r = None" "\<not> shouldStartObjectiveRepairCycle (oParse env) now t r" for now
    using assms(2) by (simp_all add: shouldStopObjectiveAfterSuccess_def shouldStartObjectiveRepairCycle_def)
  have tr: "\<exists>w'. then_reconcile env i (v, None) = (w', None)" for v by (simp add: then_reconcile_def)
  have wa: "\<exists>w'. settle_waiting env b i t r w = (w', None)"
  proof -
    let ?w = "finalize_lease (oF env) b i ''waiting_approval'' (rsSummary r) w"
    have "state_at ?w i = Some InProgress" using assms(1) by simp
    then obtain u where u: "GetTask (flow_db ?w) i = Some u" "tState u = InProgress" by (auto simp: state_at_def task_at_def)
    have "dbApprovals (flow_db ?w) = dbApprovals (flow_db w)"
      by (rule finalize_lease_patch [of "oF env" b i "''waiting_approval''" "rsSummary r" w]) (simp_all add: PatchTaskMetadata_def)
    then have fr: "find_row aID (eUid (oF env) (wN ?w + 1)) (dbApprovals (flow_db ?w)) = None" using assms(3) by simp
    have v: "IsValidTransition (tState u) WaitingApproval" using u by (simp add: IsValidTransition_def GetValidTransitions_def)
    from call_request [OF u(1) v fr] show ?thesis unfolding settle_waiting_def Let_def by blast
  qed
  have su: "\<exists>w'. settle_success env b i t r res w = (w', None)"
  proof -
    let ?q = "firstNonEmptyString [derefString (rsSummary r), ''Local bridge execution completed'']"
    obtain w1 where "complete_by (oF env) b i ?q res (finalize_lease (oF env) b i ''completed'' (rsSummary r) w) = (w1, None)"
      using c [OF assms(1)] by blast
    then show ?thesis using tr assms(2) by (simp add: settle_success_def Let_def stop queue_initiative_def)
  qed
  have ba: "\<exists>w'. settle_baseline env b i t r res w = (w', None)"
  proof -
    let ?q = "firstNonEmptyString [derefString (rsSummary r),
      ''Objective baseline validation recorded failing evidence before the first edit'']"
    obtain w1 where "complete_by (oF env) b i ?q res (finalize_lease (oF env) b i ''completed'' (rsSummary r) w) = (w1, None)"
      using c [OF assms(1)] by blast
    then show ?thesis using tr assms(2) by (simp add: settle_baseline_def Let_def queue_initiative_def)
  qed
  have fa: "\<exists>w'. settle_failure env b i t r res (w\<lparr>wN := k\<rparr>) = (w', None)" for k
  proof -
    let ?q = "firstNonEmptyString [derefString (rsErrorMessage r), derefString (rsStderr r), derefString (rsStdout r),
      ''Local bridge execution failed'']"
    have "state_at (w\<lparr>wN := k\<rparr>) i = Some InProgress" using assms(1) by simp
    then obtain w1 where "call_db (oF env) (\<lambda>u now d. drop_snd (FailTask u now i (bridge_actor b) ?q ?q (Some (AMap res)) d))
        (finalize_lease (oF env) b i ''failed'' (rsSummary r) (w\<lparr>wN := k\<rparr>)) = (w1, None)"
      using f by blast
    then show ?thesis using tr by (simp add: settle_failure_def Let_def)
  qed
  show ?thesis using wa su ba fa by (simp add: settle_def stop Let_def)
qed

end
