(* ===== verification/Bridge_Settling.thy ===== *)
theory Bridge_Settling
  imports Bridge_Facts
begin

text \<open>
  The properties of the result endpoint: an accepted result settles its task as the result asks, and what
  the endpoint writes for a task that is finished already or whose objective has run out of time.
\<close>

section \<open>Recording and settling\<close>

abbreviation stored :: "nat \<Rightarrow> artifact list \<Rightarrow> flow \<Rightarrow> flow" where
  "stored k new w \<equiv> w\<lparr>wS := (wS w)\<lparr>iArtifacts := iArtifacts (wS w) @ new\<rparr>, wN := wN w + k\<rparr>"

lemma stored_rows [simp]:
  "task_at (w\<lparr>wS := (wS w)\<lparr>iArtifacts := x\<rparr>\<rparr>) j = task_at w j" "state_at (w\<lparr>wS := (wS w)\<lparr>iArtifacts := x\<rparr>\<rparr>) j = state_at w j"
  by (simp_all add: task_at_def state_at_def)

lemma stored_links [simp]:
  "links_all P n (w\<lparr>wS := (wS w)\<lparr>iArtifacts := x\<rparr>, wN := m\<rparr>) = links_all P n w"
  "open_link n (w\<lparr>wS := (wS w)\<lparr>iArtifacts := x\<rparr>, wN := m\<rparr>) = open_link n w"
  by (simp_all add: links_all_def open_link_def)

lemma create_artifacts_flow: "create_artifacts env t v ps ids st = (st', x) \<Longrightarrow> \<exists>k new. sF st' = stored k new (sF st)"
proof (induction ps arbitrary: ids st)
  case Nil
  then show ?case by (intro exI [of _ 0] exI [of _ "[]"]) simp
next
  case (Cons p ps)
  let ?i = "eUid (oF (bO env)) (wN (sF st))"
  show ?case
  proof (cases "CreateArtifact env ?i (Some t) (Some v) p (draw 1 st)")
    case (Inl e)
    then show ?thesis using Cons.prems by (intro exI [of _ 1] exI [of _ "[]"]) (auto simp: Let_def draw_def)
  next
    case (Inr st1)
    then obtain a where f: "sF st1 = stored 1 [a] (sF st)"
      by (cases "sF st") (auto simp: CreateArtifact_def add_artifact_def draw_def split: if_splits option.splits)
    from Inr obtain k new where "sF st' = stored k new (sF st1)"
      using Cons.IH [of "ids @ [?i]" st1] Cons.prems by (auto simp: Let_def)
    with f show ?thesis by (intro exI [of _ "1 + k"] exI [of _ "a # new"]) simp
  qed
qed

lemma persist_flow:
  assumes "persistLocalBridgeExecution env b i t r st = (st', x)"
  shows "\<exists>k new. sF st' = stored k new (sF st)"
proof -
  let ?v = "eUid (oF (bO env)) (wN (sF st))"
  let ?st1 = "CreateToolInvocation ?v (bridge_invocation b i t r) (draw 4 st)"
  let ?ps = "text_artifacts env b r @ map (given_artifact t) (artifacts_to_persist env (wN (sF st) + 1) t r)"
  obtain st2 y where c: "create_artifacts env i ?v ?ps [] ?st1 = (st2, y)" by fastforce
  have "sF st' = sF st2"
    using assms c by (auto simp: persistLocalBridgeExecution_def Let_def UpdateToolInvocationArtifactIDs_def split: sum.splits)
  moreover have "sF ?st1 = stored 4 [] (sF st)" by (simp add: CreateToolInvocation_def draw_def)
  moreover obtain k new where "sF st2 = stored k new (sF ?st1)" using create_artifacts_flow [OF c] by blast
  ultimately show ?thesis by (intro exI [of _ "4 + k"] exI [of _ new]) simp
qed

lemma create_artifacts_invocations: "create_artifacts env t v ps ids st = (st', x) \<Longrightarrow> sInv st' = sInv st"
proof (induction ps arbitrary: ids st)
  case (Cons p ps)
  let ?i = "eUid (oF (bO env)) (wN (sF st))"
  show ?case
  proof (cases "CreateArtifact env ?i (Some t) (Some v) p (draw 1 st)")
    case (Inr st1)
    then have "sInv st1 = sInv st" by (auto simp: CreateArtifact_def draw_def split: if_splits option.splits)
    with Cons Inr show ?thesis by (simp add: Let_def)
  qed (use Cons.prems in \<open>auto simp: Let_def draw_def\<close>)
qed simp

lemma persist_invocation:
  assumes "persistLocalBridgeExecution env b i t r st = (st', x)"
  shows "map ivTask (sInv st') = map ivTask (sInv st) @ [non_blank (Some i)]"
proof -
  let ?v = "eUid (oF (bO env)) (wN (sF st))"
  let ?st1 = "CreateToolInvocation ?v (bridge_invocation b i t r) (draw 4 st)"
  let ?ps = "text_artifacts env b r @ map (given_artifact t) (artifacts_to_persist env (wN (sF st) + 1) t r)"
  obtain st2 y where c: "create_artifacts env i ?v ?ps [] ?st1 = (st2, y)" by fastforce
  have "map ivTask (sInv st') = map ivTask (sInv st2)"
    using assms c by (auto simp: persistLocalBridgeExecution_def Let_def UpdateToolInvocationArtifactIDs_def split: sum.splits)
  also have "\<dots> = map ivTask (sInv ?st1)" using create_artifacts_invocations [OF c] by simp
  also have "\<dots> = map ivTask (sInv st) @ [non_blank (Some i)]"
    by (simp add: CreateToolInvocation_def draw_def bridge_invocation_def)
  finally show ?thesis .
qed

lemma non_blank_solid: "TrimSpace s = s \<Longrightarrow> s \<noteq> [] \<Longrightarrow> non_blank (Some s) = Some s"
  by (simp add: non_blank_def)

lemma create_artifacts_succeeds:
  assumes "\<forall>s. bTakes env s"
  shows "\<exists>st' x. create_artifacts env t v ps ids st = (st', Inr x)"
proof (induction ps arbitrary: ids st)
  case (Cons p ps)
  then show ?case using assms by (auto simp: CreateArtifact_def Let_def split: option.split)
qed simp

lemma persist_succeeds:
  assumes "\<forall>s. bTakes env s"
  shows "\<exists>st' res v ids. persistLocalBridgeExecution env b i t r st = (st', Inr (res, v, ids))"
proof -
  let ?v = "eUid (oF (bO env)) (wN (sF st))"
  let ?st1 = "CreateToolInvocation ?v (bridge_invocation b i t r) (draw 4 st)"
  let ?ps = "text_artifacts env b r @ map (given_artifact t) (artifacts_to_persist env (wN (sF st) + 1) t r)"
  obtain st2 ids where "create_artifacts env i ?v ?ps [] ?st1 = (st2, Inr ids)"
    using create_artifacts_succeeds [OF assms] by blast
  then show ?thesis by (simp add: persistLocalBridgeExecution_def Let_def)
qed

lemma submit_cases:
  assumes "submitBridgeTaskResult env b i r st = (st', BAccepted v ids)"
  obtains t st1 res w where "GetTask (flow_db (sF st)) i = Some t"
    "persistLocalBridgeExecution env b i t r st = (st1, Inr (res, v, ids))"
    "settle (bO env) b i t r res (sF st1) = (w, None)" "st' = st1\<lparr>sF := w\<rparr>"
  using assms that by (auto simp: submitBridgeTaskResult_def split: option.splits prod.splits sum.splits)

lemma state_at_get: "GetTask (flow_db w) i = Some t \<Longrightarrow> state_at w i = Some (tState t)"
  by (simp add: state_at_def task_at_def)

section \<open>Properties\<close>

text \<open>
  C22: a result that is accepted settles its task in exactly the state that the result asks for: waiting
  for an approval, completed (on success, on a failing baseline validation, or when a repair cycle takes
  over), and failed otherwise. This holds whatever bridge sends the result and whatever the
  settling does to the objective around the task. When the database takes the texts, every
  result for a task in progress that belongs to no initiative is accepted.
\<close>

theorem bridge_result_settles_the_task:
  assumes "keyed link_key (iLinks (wS (sF st)))" and "GetTask (flow_db (sF st)) i = Some t"
  shows "(\<forall>st' v ids. submitBridgeTaskResult env b i r st = (st', BAccepted v ids) \<longrightarrow>
      (\<exists>k \<ge> wN (sF st). state_at (sF st') i = Some (settled_state (bO env) (eClk (oF (bO env)) k) t r))) \<and>
    (tState t = InProgress \<longrightarrow> tInitiativeID t = None \<longrightarrow> (\<forall>s. bTakes env s) \<longrightarrow>
      (\<forall>k. find_row aID (eUid (oF (bO env)) k) (dbApprovals (flow_db (sF st))) = None) \<longrightarrow>
      (\<exists>st' v ids. submitBridgeTaskResult env b i r st = (st', BAccepted v ids)))"
proof (intro conjI allI impI)
  fix st' v ids assume "submitBridgeTaskResult env b i r st = (st', BAccepted v ids)"
  then obtain st1 res w where p: "persistLocalBridgeExecution env b i t r st = (st1, Inr (res, v, ids))"
    and s: "settle (bO env) b i t r res (sF st1) = (w, None)" and st': "st' = st1\<lparr>sF := w\<rparr>"
    using assms(2) by (elim submit_cases) simp
  obtain k new where k: "sF st1 = stored k new (sF st)" using persist_flow [OF p] by blast
  have "keyed link_key (iLinks (wS (sF st1)))" using assms(1) k by simp
  from settle_settles [OF s this] k st'
  show "\<exists>k \<ge> wN (sF st). state_at (sF st') i = Some (settled_state (bO env) (eClk (oF (bO env)) k) t r)"
    by (intro exI [of _ "wN (sF st) + k"]) simp
next
  assume a: "tState t = InProgress" "tInitiativeID t = None" "\<forall>s. bTakes env s"
    "\<forall>k. find_row aID (eUid (oF (bO env)) k) (dbApprovals (flow_db (sF st))) = None"
  obtain st1 res v ids where p: "persistLocalBridgeExecution env b i t r st = (st1, Inr (res, v, ids))"
    using persist_succeeds [OF a(3)] by blast
  obtain k new where k: "sF st1 = stored k new (sF st)" using persist_flow [OF p] by blast
  have "\<exists>w. settle (bO env) b i t r res (sF st1) = (w, None)"
    by (rule settle_single) (use state_at_get [OF assms(2)] a k in simp_all)
  with assms(2) p show "\<exists>st' v ids. submitBridgeTaskResult env b i r st = (st', BAccepted v ids)"
    by (auto simp: submitBridgeTaskResult_def)
qed

definition bridge_env0 :: bridge_env where
  "bridge_env0 = \<lparr>bO = obj_env0, bGit = (\<lambda>_ _. None), bJson = (\<lambda>_. ''{}''), bTakes = (\<lambda>_. True), bTTL = 45\<rparr>"

definition lone_task :: "task_state \<Rightarrow> task" where
  "lone_task s = (obj_task ''t1'' [] [] s Map.empty)\<lparr>tInitiativeID := None\<rparr>"

definition lone_state :: "task_state \<Rightarrow> bridge_state" where
  "lone_state s = \<lparr>sF = \<lparr>wS = \<lparr>iDB = emptyDB\<lparr>dbTasks := [lone_task s]\<rparr>, iInits = [], iReviews = [], iLinks = [],
     iArtifacts = []\<rparr>, wQ = emptyRedis, wN = 0\<rparr>, sInv = []\<rparr>"

lemma lone_get: "GetTask (flow_db (sF (lone_state s))) ''t1'' = Some (lone_task s)"
  by (simp add: lone_state_def lone_task_def GetTask_def)

theorem bridge_result_settles_the_task_witness:
  "\<exists>st' v ids. submitBridgeTaskResult bridge_env0 ''b2'' ''t1'' (check_result\<lparr>rsStatus := ''success''\<rparr>) (lone_state InProgress) =
       (st', BAccepted v ids) \<and> state_at (sF st') ''t1'' = Some Completed"
proof -
  let ?r = "check_result\<lparr>rsStatus := ''success''\<rparr>" and ?s = "lone_state InProgress"
  have k: "keyed link_key (iLinks (wS (sF ?s)))" by (simp add: lone_state_def)
  have a: "\<forall>k. find_row aID (eUid (oF (bO bridge_env0)) k) (dbApprovals (flow_db (sF ?s))) = None"
    by (simp add: lone_state_def emptyDB_def)
  note th = bridge_result_settles_the_task [OF k lone_get [of InProgress], where env = bridge_env0 and b = "''b2''" and r = ?r]
  have "\<forall>s. bTakes bridge_env0 s" by (simp add: bridge_env0_def)
  then obtain st' v ids where s: "submitBridgeTaskResult bridge_env0 ''b2'' ''t1'' ?r ?s = (st', BAccepted v ids)"
    using th a by (auto simp: lone_task_def)
  have "result_status ?r = ''success''"
    by (simp add: result_status_def check_result_def TrimSpace_solid solid_def visible_def fold_char_def)
  with th s have "state_at (sF st') ''t1'' = Some Completed" by (fastforce simp: settled_state_def)
  with s show ?thesis by blast
qed

section \<open>Late results\<close>

lemma finalize_lease_bridge:
  assumes "TrimSpace i = i" "i \<noteq> []" "TrimSpace b \<noteq> []" and "task_at w i = Some t"
  shows "\<exists>t'. task_at (finalize_lease f b i s m w) i = Some t' \<and> tState t' = tState t \<and>
    lease_bridge render (tMetadata t') = TrimSpace b"
  using assms
  by (simp add: finalize_lease_def FinalizeLocalBridgeTaskLease_def Let_def set_db_def task_at_def GetTask_patch
      lease_bridge_def lease_field_def lease_extra_def json_text_def)

lemma request_refused:
  assumes "state_at v i = Some s" and "IsTerminalState s"
  shows "\<exists>w' e. call_db f (\<lambda>u now d. drop_snd (RequestApproval a u now i x y n c q p d)) v = (w', Some e) \<and>
    (\<forall>j. task_at w' j = task_at v j)"
proof -
  obtain t where "GetTask (flow_db v) i = Some t" "tState t = s" using assms(1) by (auto simp: state_at_def task_at_def)
  then show ?thesis
    using terminal_no_transition [OF assms(2), of WaitingApproval]
    by (simp add: call_db_def drop_snd_def RequestApproval_def task_at_def set_db_def)
qed

lemma settle_terminal:
  assumes "state_at w i = Some s" and "IsTerminalState s"
  shows "\<exists>w' e k st. settle env b i t r res w = (w', Some e) \<and>
    (\<forall>j. task_at w' j = task_at (finalize_lease (oF env) b i st (rsSummary r) (w\<lparr>wN := k\<rparr>)) j)"
proof -
  have n: "\<not> IsValidTransition s x" for x using assms(2) by (rule terminal_no_transition)
  have c: "\<exists>w' e. complete_by f b i q res v = (w', Some e) \<and> (\<forall>j. task_at w' j = task_at v j)"
    if "state_at v i = Some s" for f q v
  proof -
    obtain w' e where c: "complete_by f b i q res v = (w', e)" by fastforce
    show ?thesis using complete_by_effect(2,7) [OF c] that n c by (cases e) auto
  qed
  have f: "\<exists>w' e. call_db f (\<lambda>u now d. drop_snd (FailTask u now i a q x y d)) v = (w', Some e) \<and>
      (\<forall>j. task_at w' j = task_at v j)" if "state_at v i = Some s" for f a q x y v
  proof -
    obtain w' e where c: "call_db f (\<lambda>u now d. drop_snd (finalizeTask u now i Failed a q y (Some x) d)) v = (w', e)" by fastforce
    show ?thesis using finalize_call(3,4) [OF c] that n c by (cases e) (auto simp: FailTask_def)
  qed
  let ?L = "\<lambda>st k. finalize_lease (oF env) b i st (rsSummary r) (w\<lparr>wN := k\<rparr>)"
  have s: "state_at (?L st k) i = Some s" for st k using assms(1) by simp
  have w: "?L st (wN w) = finalize_lease (oF env) b i st (rsSummary r) w" for st by simp
  have q: "\<exists>w' e. settle_waiting env b i t r w = (w', Some e) \<and> (\<forall>j. task_at w' j = task_at (?L ''waiting_approval'' (wN w)) j)"
    unfolding settle_waiting_def Let_def w by (rule request_refused) (use assms in simp_all)
  have su: "\<exists>w' e. settle_success env b i t r res w = (w', Some e) \<and> (\<forall>j. task_at w' j = task_at (?L ''completed'' (wN w)) j)"
    using c [OF s [of "''completed''" "wN w"], of "oF env"
      "firstNonEmptyString [derefString (rsSummary r), ''Local bridge execution completed'']"]
    by (auto simp: settle_success_def Let_def)
  have ba: "\<exists>w' e. settle_baseline env b i t r res w = (w', Some e) \<and> (\<forall>j. task_at w' j = task_at (?L ''completed'' (wN w)) j)"
    using c [OF s [of "''completed''" "wN w"], of "oF env" "firstNonEmptyString [derefString (rsSummary r),
      ''Objective baseline validation recorded failing evidence before the first edit'']"]
    by (auto simp: settle_baseline_def Let_def)
  have re: "\<exists>w' e. settle_repair env b i t r res (w\<lparr>wN := k\<rparr>) = (w', Some e) \<and> (\<forall>j. task_at w' j = task_at (?L ''completed'' k) j)"
    for k
    using c [OF s [of "''completed''" k], of "oF env" "firstNonEmptyString [derefString (rsSummary r),
      ''Objective iteration completed and requested another repair cycle'']"]
    by (auto simp: settle_repair_def Let_def)
  have fa: "\<exists>w' e. settle_failure env b i t r res (w\<lparr>wN := k\<rparr>) = (w', Some e) \<and> (\<forall>j. task_at w' j = task_at (?L ''failed'' k) j)"
    for k
  proof -
    let ?q = "firstNonEmptyString [derefString (rsErrorMessage r), derefString (rsStderr r), derefString (rsStdout r),
      ''Local bridge execution failed'']"
    obtain w' e where "call_db (oF env) (\<lambda>u now d. drop_snd (FailTask u now i (bridge_actor b) ?q ?q (Some (AMap res)) d))
        (?L ''failed'' k) = (w', Some e)" "\<forall>j. task_at w' j = task_at (?L ''failed'' k) j"
      using f [OF s [of "''failed''" k]] by blast
    then show ?thesis by (simp add: settle_failure_def Let_def then_reconcile_def)
  qed
  have "settle env b i t r res w \<in> {settle_waiting env b i t r w, settle_success env b i t r res w,
      settle_baseline env b i t r res w, settle_repair env b i t r res (w\<lparr>wN := wN w + 1\<rparr>),
      settle_failure env b i t r res (w\<lparr>wN := wN w + 1\<rparr>)}"
    by (simp add: settle_def Let_def)
  with q su ba re [of "wN w + 1"] fa [of "wN w + 1"] show ?thesis by (elim insertE emptyE) metis+
qed

text \<open>
  A result that arrives for a task in a terminal state (for instance after the task was
  cancelled) is answered with an error and moves no state, but it is not without effect: the
  invocation and its artifacts are recorded before the state is looked at, and the lease of the task is
  overwritten with the identifier of the bridge that sent the result, whoever held it. The
  handler never compares that bridge with the holder of the lease.
\<close>

theorem late_result_leaves_traces:
  assumes "GetTask (flow_db (sF st)) i = Some t" and "IsTerminalState (tState t)" and "\<forall>s. bTakes env s"
    and "TrimSpace i = i" "i \<noteq> []" "TrimSpace b \<noteq> []"
  shows "\<exists>st' e t'. submitBridgeTaskResult env b i r st = (st', BDetail 500 e) \<and>
    (\<forall>j. state_at (sF st') j = state_at (sF st) j) \<and> map ivTask (sInv st') = map ivTask (sInv st) @ [Some i] \<and>
    GetTask (flow_db (sF st')) i = Some t' \<and> lease_bridge render (tMetadata t') = TrimSpace b"
proof -
  obtain st1 res v ids where p: "persistLocalBridgeExecution env b i t r st = (st1, Inr (res, v, ids))"
    using persist_succeeds [OF assms(3)] by blast
  obtain k new where k: "sF st1 = stored k new (sF st)" using persist_flow [OF p] by blast
  have g: "task_at (sF st1) i = Some t" using assms(1) k by (simp add: task_at_def)
  then have "state_at (sF st1) i = Some (tState t)" by (simp add: state_at_def)
  from settle_terminal [OF this assms(2)] obtain w e k' sta where
    s: "settle (bO env) b i t r res (sF st1) = (w, Some e)"
    and w: "\<forall>j. task_at w j = task_at (finalize_lease (oF (bO env)) b i sta (rsSummary r) ((sF st1)\<lparr>wN := k'\<rparr>)) j" by blast
  have "state_at w j = state_at (sF st) j" for j
  proof -
    have "state_at w j = state_at (finalize_lease (oF (bO env)) b i sta (rsSummary r) ((sF st1)\<lparr>wN := k'\<rparr>)) j"
      using w by (simp add: state_at_def)
    then show ?thesis using k by simp
  qed
  moreover have "\<exists>t'. task_at w i = Some t' \<and> lease_bridge render (tMetadata t') = TrimSpace b"
    using finalize_lease_bridge [OF assms(4-6), of "(sF st1)\<lparr>wN := k'\<rparr>" t "oF (bO env)" sta "rsSummary r" render] g w
    by (auto simp: task_at_def)
  moreover have "map ivTask (sInv st1) = map ivTask (sInv st) @ [Some i]" using persist_invocation [OF p] assms(4,5) by (simp add: non_blank_solid)
  ultimately show ?thesis using assms(1) p s by (auto simp: submitBridgeTaskResult_def task_at_def)
qed

theorem late_result_leaves_traces_witness:
  "\<exists>st' e t'. submitBridgeTaskResult bridge_env0 ''b2'' ''t1'' check_result (lone_state Cancelled) = (st', BDetail 500 e) \<and>
     GetTask (flow_db (sF st')) ''t1'' = Some t' \<and> lease_bridge (\<lambda>_. []) (tMetadata t') = ''b2''"
proof -
  have "TrimSpace ''t1'' = ''t1''" "TrimSpace ''b2'' = ''b2''" by (simp_all add: TrimSpace_solid solid_def visible_def)
  with late_result_leaves_traces [OF lone_get [of Cancelled], of bridge_env0 "''b2''" check_result "\<lambda>_. []"]
  show ?thesis by (fastforce simp: bridge_env0_def lone_task_def)
qed

section \<open>Stopping for time\<close>





















end
