(* ===== verification/Artifact_Table.thy ===== *)
theory Artifact_Table
  imports Bridge_Facts
begin

text \<open>
  The one table of artifacts while a result is settled: apart from the artifacts of the result itself, the
  objective loop appends status snapshots, which name neither a task nor an invocation, and nothing
  changes or removes a row.
\<close>

section \<open>Snapshots only\<close>

definition snapshot_row :: "artifact \<Rightarrow> bool" where
  "snapshot_row a \<longleftrightarrow> rTask a = None \<and> rInvocation a = None \<and> rType a = ''objective_status_snapshot''"

definition snaps :: "(nat \<Rightarrow> string) \<Rightarrow> flow \<Rightarrow> flow \<Rightarrow> bool" where
  "snaps u w w' \<longleftrightarrow> wN w \<le> wN w' \<and>
     (\<exists>new ks. iArtifacts (wS w') = iArtifacts (wS w) @ new \<and> map rID new = map u ks \<and> sorted_wrt (<) ks \<and>
        set ks \<subseteq> {wN w..<wN w'} \<and> list_all snapshot_row new)"

lemma snaps_same: "iArtifacts (wS w') = iArtifacts (wS w) \<Longrightarrow> wN w \<le> wN w' \<Longrightarrow> snaps u w w'"
  unfolding snaps_def by (intro conjI exI [of _ "[]"]) simp_all

lemma snaps_refl [simp]: "snaps u w w"
  by (simp add: snaps_same)

lemma snaps_trans [trans]:
  assumes "snaps u w v" "snaps u v x"
  shows "snaps u w x"
proof -
  obtain n1 k1 where 1: "iArtifacts (wS v) = iArtifacts (wS w) @ n1" "map rID n1 = map u k1" "sorted_wrt (<) k1"
    "set k1 \<subseteq> {wN w..<wN v}" "list_all snapshot_row n1" using assms(1) by (auto simp: snaps_def)
  obtain n2 k2 where 2: "iArtifacts (wS x) = iArtifacts (wS v) @ n2" "map rID n2 = map u k2" "sorted_wrt (<) k2"
    "set k2 \<subseteq> {wN v..<wN x}" "list_all snapshot_row n2" using assms(2) by (auto simp: snaps_def)
  have n: "wN w \<le> wN v" "wN v \<le> wN x" using assms by (simp_all add: snaps_def)
  have "sorted_wrt (<) (k1 @ k2)" using 1(3,4) 2(3,4) by (fastforce simp: sorted_wrt_append)
  moreover have "set (k1 @ k2) \<subseteq> {wN w..<wN x}" using 1(4) 2(4) n by fastforce
  ultimately show ?thesis unfolding snaps_def using 1 2 n by (intro conjI exI [of _ "n1 @ n2"] exI [of _ "k1 @ k2"]) simp_all
qed

lemma snaps_count [simp]: "snaps u (w\<lparr>wN := wN w\<rparr>) v = snaps u w v"
  by simp

lemma snaps_draw: "snaps u w (w\<lparr>wN := wN w + k\<rparr>)"
  by (rule snaps_same) simp_all

section \<open>The steps of the objective loop\<close>

lemma snaps_call_db: "call_db f g w = (w', e) \<Longrightarrow> snaps u w w'"
  by (auto intro!: snaps_same simp: call_db_def set_db_def split: sum.splits)

lemma snaps_patch: "snaps u w (patch_metadata f i p w)"
  by (rule snaps_same) (simp_all add: patch_metadata_def)

lemma snaps_lease: "snaps u w (finalize_lease f b i s m w)"
  by (rule snaps_same) (simp_all add: finalize_lease_def set_db_def)

lemma reconciled_artifacts: "iArtifacts (fst (ReconcileInitiativeExecution c i s)) = iArtifacts s"
  by (simp add: ReconcileInitiativeExecution_def UpdateInitiative_def Let_def split: option.split list.split)

lemma snaps_reconcile: "snaps u w (reconcile f i w)"
  by (rule snaps_same) (simp_all add: reconcile_def reconciled_artifacts)

lemma snaps_reconcile_own: "snaps u w (reconcile_own f t w)"
  by (simp add: reconcile_own_def snaps_reconcile split: option.split)

lemma snaps_snapshot: "u = eUid (oF env) \<Longrightarrow> snaps u w (persistObjectiveStopSnapshot env t a b d s w)"
  unfolding snaps_def persistObjectiveStopSnapshot_def
  by (cases "tInitiativeID t") (auto simp: Let_def snapshot_row_def intro: exI [of _ "[]"] exI [of _ "[wN w]"])

lemma snaps_budget:
  assumes "failObjectiveTaskDueToTimeBudget env t w = (w', e)" "u = eUid (oF env)"
  shows "snaps u w w'"
proof (cases "tInitiativeID t")
  case None
  then show ?thesis using assms(1) by (simp add: failObjectiveTaskDueToTimeBudget_def)
next
  case (Some n)
  obtain s d ok where o: "objectiveTimeBudgetDetails (oParse env) (tMetadata t) = (s, d, ok)" by (metis prod.collapse)
  let ?w1 = "patch_metadata (oF env) (tID t) (exhausted_patch (eClk (oF env) (wN w))) (w\<lparr>wN := wN w + 1\<rparr>)"
  have w1: "snaps u w ?w1" by (rule snaps_trans [OF snaps_draw snaps_patch])
  show ?thesis
  proof (cases ok)
    case False
    then have "w' = w" using assms(1) Some o by (simp add: failObjectiveTaskDueToTimeBudget_def)
    then show ?thesis by simp
  next
    case True
    let ?f = "oF env" and ?q = "objectiveTimeBudgetExceededReason (oFmt env) s d"
    let ?r = "AMap [''status'' \<mapsto> AStr ''error'', ''stop_reason'' \<mapsto> AStr ''time_budget_exhausted'', ''summary'' \<mapsto> AStr ?q, ''error'' \<mapsto> AStr ?q]"
    show ?thesis
    proof (cases "FailTask (eUid ?f (wN ?w1)) (eClk ?f (wN ?w1)) (tID t) ''objectives:auto'' ?q ?q (Some ?r) (iDB (wS ?w1))")
      case (Inl x)
      then have "w' = ?w1\<lparr>wN := wN ?w1 + 1\<rparr>"
        using assms(1) Some o True unfolding failObjectiveTaskDueToTimeBudget_def Let_def by (simp del: patch_metadata_simps)
      then show ?thesis using snaps_trans [OF w1 snaps_draw [of _ _ 1]] by simp
    next
      case (Inr y)
      then obtain d1 z where y: "FailTask (eUid ?f (wN ?w1)) (eClk ?f (wN ?w1)) (tID t) ''objectives:auto'' ?q ?q (Some ?r) (iDB (wS ?w1)) = Inr (d1, z)"
        by (cases y) auto
      let ?w2 = "?w1\<lparr>wS := (wS ?w1)\<lparr>iDB := d1\<rparr>, wN := wN ?w1 + 1\<rparr>"
      have "w' = reconcile ?f n (persistObjectiveStopSnapshot env t ''time_budget_exhausted'' ?q d s ?w2)"
        using assms(1) Some o True y unfolding failObjectiveTaskDueToTimeBudget_def Let_def by (simp del: patch_metadata_simps)
      moreover have "snaps u ?w1 ?w2" by (rule snaps_same) simp_all
      ultimately show ?thesis
        by (simp only:) (rule snaps_trans [OF snaps_trans [OF snaps_trans [OF w1] snaps_snapshot [OF assms(2)]] snaps_reconcile])
    qed
  qed
qed

lemma snaps_launch: "launch_ready f i w = (w', e) \<Longrightarrow> snaps u w w'"
  by (rule snaps_same)
    (auto simp: launch_ready_def enqueue_queued_def Let_def split: sum.splits option.splits if_splits)

lemma snaps_queue_one:
  assumes "queue_one env items it w = (w', e)" "u = eUid (oF env)"
  shows "snaps u w w'"
proof (cases "tState (snd it) \<noteq> Created \<or> \<not> objectiveDependenciesSatisfied (tMetadata (snd it)) items \<or>
    GetTask (flow_db w) (lTask (fst it)) = None")
  case True
  then have "w' = w" using assms(1) by (auto simp: queue_one_def split: if_splits)
  then show ?thesis by simp
next
  case False
  then obtain t where t: "GetTask (flow_db w) (lTask (fst it)) = Some t" by blast
  have c: "(tState (snd it) \<noteq> Created) = False" "objectiveDependenciesSatisfied (tMetadata (snd it)) items = True" using False by auto
  let ?w0 = "w\<lparr>wN := wN w + 1\<rparr>" and ?p = "objectiveQueueMetadataPatch (oJson env) t items"
  have 0: "snaps u w ?w0" by (rule snaps_draw)
  show ?thesis
  proof (cases "objectiveTimeBudgetExceeded (oParse env) (tMetadata t) (eClk (oF env) (wN w))")
    case True
    then have "failObjectiveTaskDueToTimeBudget env t ?w0 = (w', e)" using assms(1) False t by (simp add: queue_one_def Let_def)
    then show ?thesis by (rule snaps_trans [OF 0 snaps_budget [OF _ assms(2)]])
  next
    case in_time: False
    let ?w1 = "if ?p = [] then ?w0 else patch_metadata (oF env) (lTask (fst it)) ?p ?w0"
    have l: "launch_ready (oF env) (lTask (fst it)) ?w1 = (w', e)"
      using assms(1) in_time c unfolding queue_one_def Let_def t by (simp only: if_False option.case simp_thms)
    have "snaps u ?w0 ?w1" by (simp add: snaps_patch)
    from snaps_trans [OF 0 this] show ?thesis by (rule snaps_trans [OF _ snaps_launch [OF l]])
  qed
qed

lemma snaps_queue_all: "queue_all env items its w = (w', e) \<Longrightarrow> u = eUid (oF env) \<Longrightarrow> snaps u w w'"
proof (induction its arbitrary: w)
  case (Cons it its)
  obtain w1 x where 1: "queue_one env items it w = (w1, x)" by fastforce
  note s = snaps_queue_one [OF 1 Cons.prems(2)]
  show ?case
  proof (cases x)
    case None
    then have "queue_all env items its w1 = (w', e)" using Cons.prems(1) 1 by simp
    from snaps_trans [OF s Cons.IH [OF this Cons.prems(2)]] show ?thesis .
  qed (use Cons.prems(1) 1 s in simp)
qed simp

lemma snaps_queue: "queueReadyObjectiveTasks env i w = (w', e) \<Longrightarrow> u = eUid (oF env) \<Longrightarrow> snaps u w w'"
  by (simp add: queueReadyObjectiveTasks_def Let_def snaps_queue_all)

lemma snaps_queue_initiative: "queue_initiative env t w = (w', e) \<Longrightarrow> u = eUid (oF env) \<Longrightarrow> snaps u w w'"
  using snaps_queue by (auto simp: queue_initiative_def split: option.splits)

section \<open>Superseding and materialising\<close>

lemma snaps_cancel_superseded: "cancel_superseded f n t w = (w', r) \<Longrightarrow> snaps u w w'"
  by (rule snaps_same) (auto simp: cancel_superseded_def patch_metadata_def Let_def split: sum.splits)

lemma snaps_supersede_pass: "supersede_pass f t xs M c w = (w', r) \<Longrightarrow> snaps u w w'"
proof (induction xs arbitrary: M c w)
  case (Cons x xs)
  obtain w1 e where c: "cancel_superseded f (objectiveIteration (tMetadata t)) x w = (w1, e)" by fastforce
  note s = snaps_cancel_superseded [OF c, of u]
  show ?case
    using Cons.prems Cons.IH [of _ _ w] Cons.IH [of _ _ w1] c s by (auto split: if_splits option.splits intro: snaps_trans)
qed simp

lemma snaps_supersede_loop: "supersede_loop f t xs M w = (w', r) \<Longrightarrow> snaps u w w'"
proof (induction f t xs M w rule: supersede_loop.induct)
  case (1 f t xs M w)
  obtain w1 r1 where p: "supersede_pass f t xs M False w = (w1, r1)" by fastforce
  note s = snaps_supersede_pass [OF p, of u]
  show ?case
  proof (cases r1)
    case (Inl e)
    then show ?thesis using 1 p s by (simp add: supersede_loop.simps [of f t xs M w])
  next
    case (Inr mc)
    obtain M1 c where mc: "mc = (M1, c)" by fastforce
    show ?thesis
    proof (cases c)
      case True
      then have "supersede_loop f t xs M1 w1 = (w', r)" using 1(2) p Inr mc by (subst (asm) supersede_loop.simps) simp
      then have "snaps u w1 w'" by (rule 1(1) [OF p [symmetric] Inr mc [symmetric] True])
      then show ?thesis by (rule snaps_trans [OF s])
    next
      case False
      then show ?thesis using 1(2) p Inr mc s by (simp add: supersede_loop.simps [of f t xs M w])
    qed
  qed
qed

lemma snaps_supersede: "cancelSupersededObjectiveDependents f i t w = (w', r) \<Longrightarrow> snaps u w w'"
  using snaps_supersede_loop by (fastforce simp: cancelSupersededObjectiveDependents_def split: if_splits prod.splits sum.splits)

lemma linked_artifacts: "LinkInitiativeTask u k n j po e g m ord s = (s', x) \<Longrightarrow> iArtifacts s' = iArtifacts s"
  by (auto simp: LinkInitiativeTask_def Let_def split: option.splits)

lemma snaps_materialize_item: "materialize_item f n c s idx i w = (w', r) \<Longrightarrow> snaps u w w'"
  by (rule snaps_same) (auto simp: materialize_item_def Let_def dest!: linked_artifacts split: sum.splits prod.splits)

lemma snaps_materialize_items: "materialize_items f n c s idx items w = (w', r) \<Longrightarrow> snaps u w w'"
proof (induction items arbitrary: idx w r)
  case (Cons i items)
  obtain w1 r1 where m: "materialize_item f n c s idx i w = (w1, r1)" by fastforce
  obtain w2 r2 where ms: "materialize_items f n c s (idx + 1) items w1 = (w2, r2)" by fastforce
  show ?case
    using Cons.prems snaps_materialize_item [OF m, of u] Cons.IH [of "idx + 1" w1 r2] m ms by (auto split: sum.splits intro: snaps_trans)
qed simp

lemma snaps_materialize: "materializeObjectiveWorkItems f n c w = (w', r) \<Longrightarrow> snaps u w w'"
  unfolding materializeObjectiveWorkItems_def Let_def by (rule snaps_trans [OF snaps_draw snaps_materialize_items])

lemma snaps_repair:
  assumes "startObjectiveRepairCycle env t r w = (w', e)" "u = eUid (oF env)"
  shows "snaps u w w'"
proof -
  let ?w = "w\<lparr>wN := wN w + 1\<rparr>"
  have 0: "snaps u w ?w" by (rule snaps_draw)
  consider "w' = ?w" | i x where "cancelSupersededObjectiveDependents (oF env) i t ?w = (w', x)"
    | i w1 x n c r2 where "cancelSupersededObjectiveDependents (oF env) i t ?w = (w1, x)"
      "materializeObjectiveWorkItems (oF env) n c w1 = (w', r2)"
    | i w1 x n c w2 r2 where "cancelSupersededObjectiveDependents (oF env) i t ?w = (w1, x)"
      "materializeObjectiveWorkItems (oF env) n c w1 = (w2, r2)" "queueReadyObjectiveTasks env (nID n) w2 = (w', e)"
    using assms(1)
    by (auto simp: startObjectiveRepairCycle_def Let_def split: if_splits option.splits prod.splits sum.splits)
  then show ?thesis
  proof cases
    case 2
    then show ?thesis by (rule snaps_trans [OF 0 snaps_supersede])
  next
    case 3
    from snaps_trans [OF snaps_trans [OF 0 snaps_supersede [OF 3(1)]] snaps_materialize [OF 3(2)]] show ?thesis .
  next
    case 4
    from snaps_trans [OF snaps_trans [OF 0 snaps_supersede [OF 4(1)]] snaps_materialize [OF 4(2)]]
    show ?thesis by (rule snaps_trans [OF _ snaps_queue [OF 4(3) assms(2)]])
  qed (use 0 in simp)
qed

section \<open>Settling\<close>

lemma snaps_root: "snaps u w (reconcile_task_root env i w)"
proof -
  have r: "snaps u v (reconcile_root f a k v)" for f a k v
  proof -
    have c: "snaps u v (fst (call_db f g v))" for g by (rule snaps_call_db [of f g v _ "snd (call_db f g v)"]) simp
    show ?thesis by (simp add: reconcile_root_def Let_def c split: option.split)
  qed
  have i: "snaps u v (reconcile_initiative f t v)" for f t v
    by (rule snaps_same) (simp_all add: reconcile_initiative_def reconciled_artifacts)
  show ?thesis
    by (auto simp: reconcile_task_root_def reconcileRootTask_def Let_def i intro: snaps_trans [OF i r] split: option.split)
qed

lemma snaps_then: "then_reconcile env i (v, e) = (w', x) \<Longrightarrow> snaps u w v \<Longrightarrow> snaps u w w'"
  using snaps_trans [OF _ snaps_root] by (auto simp: then_reconcile_def split: option.splits)

lemma snaps_stop:
  assumes "u = eUid (oF env)"
  shows "snaps u w (stopObjectiveAfterTaskCompletion env t a b w)"
proof (cases "tInitiativeID t")
  case (Some n)
  obtain s d ok where o: "objectiveTimeBudgetDetails (oParse env) (tMetadata t) = (s, d, ok)" by (metis prod.collapse)
  have x: "snaps u v (v\<lparr>wS := UpdateInitiative c n q (wS v), wN := wN v + 1\<rparr>)" for v c q
    by (rule snaps_same) (simp_all add: UpdateInitiative_def)
  show ?thesis
    unfolding stopObjectiveAfterTaskCompletion_def Some option.case o prod.case Let_def
    by (rule snaps_trans [OF snaps_trans [OF snaps_trans [OF snaps_draw snaps_patch] snaps_snapshot [OF assms]] x])
qed (simp add: stopObjectiveAfterTaskCompletion_def)

lemma snaps_complete: "complete_by f b i q res w = (w', e) \<Longrightarrow> snaps u w w'"
  unfolding complete_by_def by (rule snaps_call_db)

lemma snaps_success:
  assumes "settle_success env b i t r res w = (w', e)" "u = eUid (oF env)"
  shows "snaps u w w'"
proof -
  obtain w1 x where c: "complete_by (oF env) b i (firstNonEmptyString [derefString (rsSummary r), ''Local bridge execution completed'']) res
    (finalize_lease (oF env) b i ''completed'' (rsSummary r) w) = (w1, x)" by fastforce
  have s: "snaps u w w1" by (rule snaps_trans [OF snaps_lease snaps_complete [OF c]])
  have s1: "snaps u w (w1\<lparr>wN := wN w1 + 1\<rparr>)" by (rule snaps_trans [OF s snaps_draw])
  consider "w' = w1" | a q where "then_reconcile env i (stopObjectiveAfterTaskCompletion env t a q (w1\<lparr>wN := wN w1 + 1\<rparr>), None) = (w', e)"
    | "then_reconcile env i (queue_initiative env t (w1\<lparr>wN := wN w1 + 1\<rparr>)) = (w', e)"
    using assms(1) c by (auto simp: settle_success_def Let_def split: option.splits prod.splits)
  then show ?thesis
  proof cases
    case 2
    then show ?thesis by (rule snaps_then) (rule snaps_trans [OF s1 snaps_stop [OF assms(2)]])
  next
    case 3
    obtain v y where q: "queue_initiative env t (w1\<lparr>wN := wN w1 + 1\<rparr>) = (v, y)" by fastforce
    from 3 show ?thesis unfolding q by (rule snaps_then) (rule snaps_trans [OF s1 snaps_queue_initiative [OF q assms(2)]])
  qed (use s in simp)
qed

lemma snaps_baseline:
  assumes "settle_baseline env b i t r res w = (w', e)" "u = eUid (oF env)"
  shows "snaps u w w'"
proof -
  obtain w1 x where c: "complete_by (oF env) b i (firstNonEmptyString [derefString (rsSummary r),
      ''Objective baseline validation recorded failing evidence before the first edit'']) res
    (finalize_lease (oF env) b i ''completed'' (rsSummary r) w) = (w1, x)" by fastforce
  have s: "snaps u w w1" by (rule snaps_trans [OF snaps_lease snaps_complete [OF c]])
  obtain v y where q: "queue_initiative env t w1 = (v, y)" by fastforce
  have "w' = w1 \<or> then_reconcile env i (v, y) = (w', e)"
    using assms(1) c q by (auto simp: settle_baseline_def Let_def split: option.splits)
  then show ?thesis
  proof
    assume "then_reconcile env i (v, y) = (w', e)"
    then show ?thesis by (rule snaps_then) (rule snaps_trans [OF s snaps_queue_initiative [OF q assms(2)]])
  qed (use s in simp)
qed

lemma snaps_settle_repair:
  assumes "settle_repair env b i t r res w = (w', e)" "u = eUid (oF env)"
  shows "snaps u w w'"
proof -
  obtain w1 x where c: "complete_by (oF env) b i (firstNonEmptyString [derefString (rsSummary r),
      ''Objective iteration completed and requested another repair cycle'']) res
    (finalize_lease (oF env) b i ''completed'' (rsSummary r) w) = (w1, x)" by fastforce
  have s: "snaps u w w1" by (rule snaps_trans [OF snaps_lease snaps_complete [OF c]])
  obtain w2 y where q: "startObjectiveRepairCycle env t r w1 = (w2, y)" by fastforce
  have s2: "snaps u w w2" by (rule snaps_trans [OF s snaps_repair [OF q assms(2)]])
  have "w' = w1 \<or> w' = w2 \<or> then_reconcile env i (reconcile_own (oF env) t w2, None) = (w', e)"
    using assms(1) c q by (auto simp: settle_repair_def Let_def split: option.splits)
  then show ?thesis
    using s s2 snaps_then [OF _ snaps_trans [OF s2 snaps_reconcile_own]] by blast
qed

lemma snaps_settle:
  assumes "settle env b i t r res w = (w', e)" "u = eUid (oF env)"
  shows "snaps u w w'"
proof -
  let ?w1 = "w\<lparr>wN := wN w + 1\<rparr>"
  have d: "snaps u w ?w1" by (rule snaps_draw)
  have f: "snaps u v w'" if fl: "settle_failure env b i t r res v = (w', e)" for v
  proof -
    obtain v1 x where c: "call_db (oF env) (\<lambda>u now d. drop_snd (FailTask u now i (bridge_actor b)
        (firstNonEmptyString [derefString (rsErrorMessage r), derefString (rsStderr r), derefString (rsStdout r), ''Local bridge execution failed''])
        (firstNonEmptyString [derefString (rsErrorMessage r), derefString (rsStderr r), derefString (rsStdout r), ''Local bridge execution failed''])
        (Some (AMap res)) d)) (finalize_lease (oF env) b i ''failed'' (rsSummary r) v) = (v1, x)" by fastforce
    have "then_reconcile env i (v1, x) = (w', e)" using fl c by (simp add: settle_failure_def Let_def)
    then show ?thesis by (rule snaps_then) (rule snaps_trans [OF snaps_lease snaps_call_db [OF c]])
  qed
  have wt: "snaps u w w'" if wait: "settle_waiting env b i t r w = (w', e)"
    using wait unfolding settle_waiting_def Let_def by (rule snaps_trans [OF snaps_lease snaps_call_db])
  consider "settle_waiting env b i t r w = (w', e)" | "settle_success env b i t r res w = (w', e)"
    | "settle_baseline env b i t r res w = (w', e)" | "settle_repair env b i t r res ?w1 = (w', e)"
    | "settle_failure env b i t r res ?w1 = (w', e)"
    using assms(1) by (auto simp: settle_def Let_def split: if_splits)
  then show ?thesis
  proof cases
    case 1
    then show ?thesis by (rule wt)
  next
    case 2
    then show ?thesis by (rule snaps_success [OF _ assms(2)])
  next
    case 3
    then show ?thesis by (rule snaps_baseline [OF _ assms(2)])
  next
    case 4
    then show ?thesis by (rule snaps_trans [OF d snaps_settle_repair [OF _ assms(2)]])
  next
    case 5
    then show ?thesis by (rule snaps_trans [OF d f])
  qed
qed

end
