(* ===== verification/Bridge_Records.thy ===== *)
theory Bridge_Records
  imports Bridge_Settling Artifact_Table Go_Paths
begin

text \<open>
  The rows that the result endpoint writes: an artifact that names an invocation belongs to its task, every
  identifier an invocation lists is an artifact of it, the status snapshots of the objective loop stand between
  them in the same table, and what happens when a long output is cut for storage.
\<close>

section \<open>Invocations and their artifacts\<close>

abbreviation rows_of :: "bridge_state \<Rightarrow> artifact list" where
  "rows_of st \<equiv> iArtifacts (wS (sF st))"

definition refs_ok :: "bridge_state \<Rightarrow> bool" where
  "refs_ok st \<longleftrightarrow>
     (\<forall>a \<in> set (rows_of st). \<forall>v. rInvocation a = Some v \<longrightarrow> (\<exists>w \<in> set (sInv st). ivID w = v \<and> rTask a = ivTask w)) \<and>
     (\<forall>v \<in> set (sInv st). \<forall>x \<in> set (ivArtifactIDs v). \<exists>a \<in> set (rows_of st). rID a = x \<and> rInvocation a = Some (ivID v)) \<and>
     distinct (map rID (rows_of st)) \<and> distinct (map ivID (sInv st))"

definition fresh_ids :: "(nat \<Rightarrow> string) \<Rightarrow> bridge_state \<Rightarrow> bool" where
  "fresh_ids u st \<longleftrightarrow>
     (\<forall>k \<ge> wN (sF st). (\<forall>a \<in> set (rows_of st). rID a \<noteq> u k) \<and> (\<forall>v \<in> set (sInv st). ivID v \<noteq> u k))"

lemma create_artifacts_rows:
  "create_artifacts env i v ps ids st = (st', x) \<Longrightarrow> \<exists>new n. rows_of st' = rows_of st @ new \<and>
     (\<forall>a \<in> set new. rTask a = non_blank (Some i) \<and> rInvocation a = non_blank (Some v)) \<and>
     map rID new = map (eUid (oF (bO env))) [wN (sF st)..<n] \<and> n \<le> wN (sF st') \<and> wN (sF st) \<le> n \<and>
     (\<forall>out. x = Inr out \<longrightarrow> out = ids @ map rID new)"
proof (induction ps arbitrary: ids st)
  case Nil
  then show ?case by (intro exI [of _ "[]"] exI [of _ "wN (sF st)"]) auto
next
  case (Cons p ps)
  let ?i = "eUid (oF (bO env)) (wN (sF st))"
  show ?case
  proof (cases "CreateArtifact env ?i (Some i) (Some v) p (draw 1 st)")
    case (Inl e)
    then show ?thesis using Cons.prems by (intro exI [of _ "[]"] exI [of _ "wN (sF st)"]) (auto simp: Let_def draw_def)
  next
    case (Inr st1)
    then obtain a where a: "rows_of st1 = rows_of st @ [a]" "rID a = ?i" "rTask a = non_blank (Some i)"
      "rInvocation a = non_blank (Some v)" "wN (sF st1) = wN (sF st) + 1"
      by (auto simp: CreateArtifact_def add_artifact_def draw_def split: if_splits)
    from Inr Cons.prems have "create_artifacts env i v ps (ids @ [?i]) st1 = (st', x)" by (simp add: Let_def)
    from Cons.IH [OF this] a(5) obtain new n where n: "rows_of st' = rows_of st1 @ new"
      "\<forall>a \<in> set new. rTask a = non_blank (Some i) \<and> rInvocation a = non_blank (Some v)"
      "map rID new = map (eUid (oF (bO env))) [wN (sF st) + 1..<n]" "n \<le> wN (sF st')" "wN (sF st) + 1 \<le> n"
      "\<forall>out. x = Inr out \<longrightarrow> out = (ids @ [?i]) @ map rID new" by auto
    then have "[wN (sF st)..<n] = wN (sF st) # [wN (sF st) + 1..<n]" by (simp add: upt_conv_Cons)
    with n a show ?thesis by (intro exI [of _ "a # new"] exI [of _ n]) simp
  qed
qed

lemma refs_ok_add:
  assumes "refs_ok st" and "inj u" and "fresh_ids u st" and "n0 = wN (sF st)"
    and "rows_of st' = rows_of st @ new @ snapshots" and "map rID (new @ snapshots) = map u ks" and "sorted_wrt (<) ks" "\<forall>k \<in> set ks. n0 \<le> k"
    and "\<forall>a \<in> set new. rTask a = ivTask row \<and> rInvocation a = Some (u n0)" and "list_all snapshot_row snapshots"
    and "sInv st' = sInv st @ [row]" and "ivID row = u n0" and "set (ivArtifactIDs row) \<subseteq> set (map rID new)"
  shows "refs_ok st'"
proof -
  have "distinct (map rID (rows_of st'))"
  proof -
    have "distinct ks" using assms(7) by (simp add: strict_sorted_iff)
    then have d: "distinct (map rID (new @ snapshots))"
      unfolding assms(6) using assms(2) by (auto simp: distinct_map intro: inj_on_subset)
    have "set (map rID (new @ snapshots)) \<inter> rID ` set (rows_of st) = {}"
      unfolding assms(6) using assms(3,4,8) by (fastforce simp: fresh_ids_def)
    then show ?thesis using d assms(1,5) by (auto simp: refs_ok_def)
  qed
  moreover have "distinct (map ivID (sInv st'))" using assms(1,3,4,11,12) by (fastforce simp: refs_ok_def fresh_ids_def)
  moreover have "\<exists>a \<in> set (rows_of st'). rID a = x \<and> rInvocation a = Some (ivID v)"
    if "v \<in> set (sInv st')" "x \<in> set (ivArtifactIDs v)" for v x
  proof (cases "v = row")
    case True
    with that assms(13) obtain a where "a \<in> set new" "rID a = x" by auto
    with assms(5,9,12) True show ?thesis by auto
  next
    case False
    with that assms(11) have "v \<in> set (sInv st)" by simp
    with that assms(1) obtain a where "a \<in> set (rows_of st)" "rID a = x" "rInvocation a = Some (ivID v)"
      unfolding refs_ok_def by blast
    with assms(5) show ?thesis by auto
  qed
  moreover have "\<exists>w \<in> set (sInv st'). ivID w = v \<and> rTask a = ivTask w" if "a \<in> set (rows_of st')" "rInvocation a = Some v" for a v
    using that assms(1,5,9-12) by (auto simp: refs_ok_def list_all_iff snapshot_row_def)
  ultimately show ?thesis by (simp add: refs_ok_def)
qed

text \<open>
  C23: the records stay well formed through every result, accepted or not: an artifact row that names an
  invocation names an existing one of the same task, each identifier listed by an invocation is a row of that
  invocation, and identifiers are unique in the whole table. An accepted result adds one invocation of its task,
  whose list names exactly the artifacts that the request added, and the answer returns both; whatever else enters
  the table on the way is a status snapshot of the objective, without task and without invocation.
\<close>

theorem submission_records_its_artifacts:
  assumes "refs_ok st" and "inj (eUid (oF (bO env)))" and "\<forall>k. TrimSpace (eUid (oF (bO env)) k) \<noteq> []"
    and "fresh_ids (eUid (oF (bO env))) st" and "submitBridgeTaskResult env b i r st = (st', answer)"
  shows "refs_ok st' \<and>
    (\<forall>v ids. answer = BAccepted v ids \<longrightarrow>
       (\<exists>row new snapshots. sInv st' = sInv st @ [row] \<and> ivID row = v \<and> ivTask row = non_blank (Some i) \<and> ivArtifactIDs row = ids \<and>
          rows_of st' = rows_of st @ new @ snapshots \<and> map rID new = ids \<and>
          (\<forall>a \<in> set new. rInvocation a = Some v \<and> rTask a = non_blank (Some i)) \<and>
          (\<forall>a \<in> set snapshots. rInvocation a = None \<and> rTask a = None \<and> rType a = ''objective_status_snapshot'')))"
proof (cases "GetTask (flow_db (sF st)) i")
  case None
  then show ?thesis using assms(1,5) by (auto simp: submitBridgeTaskResult_def)
next
  case (Some t)
  define u where "u = eUid (oF (bO env))"
  define v where "v = u (wN (sF st))"
  define row where "row = (bridge_invocation b i t r)\<lparr>ivID := v, ivTask := non_blank (Some i),
    ivAgent := non_blank (ivAgent (bridge_invocation b i t r)), ivInput := json_map (ivInput (bridge_invocation b i t r)),
    ivOutput := json_map (ivOutput (bridge_invocation b i t r))\<rparr>"
  let ?st1 = "CreateToolInvocation v (bridge_invocation b i t r) (draw 4 st)"
  let ?ps = "text_artifacts env b r @ map (given_artifact t) (artifacts_to_persist env (wN (sF st) + 1) t r)"
  obtain st2 x where c: "create_artifacts env i v ?ps [] ?st1 = (st2, x)" by fastforce
  have s1: "rows_of ?st1 = rows_of st" "wN (sF ?st1) = wN (sF st) + 4" "sInv ?st1 = sInv st @ [row]"
    by (simp_all add: CreateToolInvocation_def draw_def row_def bridge_invocation_def)
  have nb: "non_blank (Some v) = Some v" using assms(3) by (simp add: non_blank_def v_def u_def)
  from create_artifacts_rows [OF c] obtain new n where new: "rows_of st2 = rows_of st @ new"
    "\<forall>a \<in> set new. rTask a = non_blank (Some i) \<and> rInvocation a = Some v"
    "map rID new = map u [wN (sF st) + 4..<n]" "n \<le> wN (sF st2)" "\<forall>out. x = Inr out \<longrightarrow> out = map rID new" "wN (sF st) \<le> n"
    by (auto simp: s1 nb u_def)
  have i2: "sInv st2 = sInv st @ [row]" using create_artifacts_invocations [OF c] s1 by simp
  have r: "ivTask row = non_blank (Some i)" "ivID row = v" "ivArtifactIDs row = []" by (simp_all add: row_def bridge_invocation_def)
  have fr: "\<forall>q \<in> set (sInv st). ivID q \<noteq> v" using assms(4) by (simp add: fresh_ids_def v_def u_def)
  have add: "refs_ok s \<and> (\<exists>snapshots. rows_of s = rows_of st @ new @ snapshots \<and> list_all snapshot_row snapshots)"
    if "snaps u (sF st2) (sF s)" "sInv s = sInv st @ [row\<lparr>ivArtifactIDs := ids\<rparr>]" "set ids \<subseteq> set (map rID new)" for s ids
  proof -
    note steps = that(1)
    obtain snapshots ks where sn: "rows_of s = rows_of st2 @ snapshots" "map rID snapshots = map u ks" "sorted_wrt (<) ks"
      "set ks \<subseteq> {wN (sF st2)..<wN (sF s)}" "list_all snapshot_row snapshots"
      using steps unfolding snaps_def by blast
    have "refs_ok s"
    proof (rule refs_ok_add [OF assms(1), of u "wN (sF st)"])
      show "rows_of s = rows_of st @ new @ snapshots" using sn(1) new(1) by simp
      show "map rID (new @ snapshots) = map u ([wN (sF st) + 4..<n] @ ks)" using new(3) sn(2) by simp
      show "sorted_wrt (<) ([wN (sF st) + 4..<n] @ ks)" using sn(3,4) new(4) by (fastforce simp: sorted_wrt_append)
      show "\<forall>k \<in> set ([wN (sF st) + 4..<n] @ ks). wN (sF st) \<le> k"
        using sn(4) new(4,6) by auto
      show "\<forall>a \<in> set new. rTask a = ivTask (row\<lparr>ivArtifactIDs := ids\<rparr>) \<and> rInvocation a = Some (u (wN (sF st)))"
        using new(2) r(1) by (simp add: v_def)
      show "set (ivArtifactIDs (row\<lparr>ivArtifactIDs := ids\<rparr>)) \<subseteq> set (map rID new)" using that(3) by simp
    qed (use assms(2,4) that(2) r(2) sn(5) in \<open>simp_all add: u_def v_def\<close>)
    with sn(1,5) new(1) show ?thesis by auto
  qed
  show ?thesis
  proof (cases x)
    case (Inl e)
    then have "st' = st2" "answer = BDetail 500 e"
      using assms(5) Some c by (simp_all add: submitBridgeTaskResult_def persistLocalBridgeExecution_def Let_def v_def u_def)
    then show ?thesis using add [of st2 "[]"] i2 r by simp
  next
    case (Inr ids)
    let ?st3 = "UpdateToolInvocationArtifactIDs v ids st2"
    have ids: "ids = map rID new" using new(5) Inr by simp
    have s3: "sInv ?st3 = sInv st @ [row\<lparr>ivArtifactIDs := ids\<rparr>]" "sF ?st3 = sF st2"
      using i2 r(2) fr by (auto simp: UpdateToolInvocationArtifactIDs_def intro!: map_idI)
    let ?res = "json_map (task_results r (artifacts_to_persist env (wN (sF st) + 1) t r) v ids)"
    obtain w e where w: "settle (bO env) b i t r ?res (sF st2) = (w, e)" by fastforce
    have st': "st' = ?st3\<lparr>sF := w\<rparr>" "\<forall>v' ids'. answer = BAccepted v' ids' \<longrightarrow> v' = v \<and> ids' = ids"
      using assms(5) Some c Inr w s3(2)
      by (auto simp: submitBridgeTaskResult_def persistLocalBridgeExecution_def Let_def v_def u_def split: option.splits)
    have "snaps u (sF st2) (sF st')" using snaps_settle [OF w, of u] st'(1) by (simp add: u_def)
    from add [OF this, of ids] s3 st'(1) ids obtain snapshots where ok: "refs_ok st'" "rows_of st' = rows_of st @ new @ snapshots"
      "list_all snapshot_row snapshots" by auto
    have "\<exists>row new snapshots. sInv st' = sInv st @ [row] \<and> ivID row = v \<and> ivTask row = non_blank (Some i) \<and> ivArtifactIDs row = ids \<and>
          rows_of st' = rows_of st @ new @ snapshots \<and> map rID new = ids \<and>
          (\<forall>a \<in> set new. rInvocation a = Some v \<and> rTask a = non_blank (Some i)) \<and>
          (\<forall>a \<in> set snapshots. rInvocation a = None \<and> rTask a = None \<and> rType a = ''objective_status_snapshot'')"
      using st'(1) s3 ok(2,3) new(2) ids r
      by (intro exI [of _ "row\<lparr>ivArtifactIDs := ids\<rparr>"] exI [of _ new] exI [of _ snapshots])
        (auto simp: list_all_iff snapshot_row_def)
    with ok(1) st'(2) show ?thesis by blast
  qed
qed

definition bridge_env1 :: bridge_env where
  "bridge_env1 = bridge_env0\<lparr>bO := obj_env0\<lparr>oF := sample_env\<lparr>eUid := \<lambda>k. CHR ''u'' # replicate k CHR ''u''\<rparr>\<rparr>\<rparr>"

theorem submission_records_its_artifacts_witness:
  "\<exists>st' answer. submitBridgeTaskResult bridge_env1 ''b1'' ''t1'' (check_result\<lparr>rsStdout := Some ''boom''\<rparr>) (lone_state InProgress) =
       (st', answer) \<and> refs_ok st'"
proof -
  let ?r = "check_result\<lparr>rsStdout := Some ''boom''\<rparr>"
  obtain st' answer where s: "submitBridgeTaskResult bridge_env1 ''b1'' ''t1'' ?r (lone_state InProgress) = (st', answer)"
    by fastforce
  have u: "eUid (oF (bO bridge_env1)) = (\<lambda>k. CHR ''u'' # replicate k CHR ''u'')" by (simp add: bridge_env1_def)
  have i: "inj (eUid (oF (bO bridge_env1)))" unfolding u by (auto simp: inj_on_def dest: arg_cong [of _ _ length])
  have "solid (CHR ''u'' # replicate k CHR ''u'')" for k by (simp add: solid_def visible_def)
  then have n: "\<forall>k. TrimSpace (eUid (oF (bO bridge_env1)) k) \<noteq> []" unfolding u by (simp add: TrimSpace_solid)
  have o: "refs_ok (lone_state InProgress)" "fresh_ids (eUid (oF (bO bridge_env1))) (lone_state InProgress)"
    by (simp_all add: refs_ok_def fresh_ids_def lone_state_def)
  from submission_records_its_artifacts [OF o(1) i n o(2) s] s show ?thesis by blast
qed

section \<open>Text that the database takes\<close>

text \<open>UTF-8 with the checks of PostgreSQL, which also refuses a zero byte.\<close>

function utf8_ok :: "string \<Rightarrow> bool" where
  "utf8_ok [] = True"
| "utf8_ok (c # s) =
     (if needs c = 0 then 0 < (of_char c :: nat) \<and> (of_char c :: nat) < 0x80 \<and> utf8_ok s
      else needs c \<le> length s \<and> list_all continues (take (needs c) s) \<and> second_ok c (hd s) \<and> utf8_ok (drop (needs c) s))"
  by pat_completeness auto
termination by (relation "measure length") auto

declare utf8_ok.simps(2) [simp del]

lemma lead_not_continues: "needs c \<noteq> 0 \<Longrightarrow> \<not> continues c"
  by (auto simp: needs_def continues_def Let_def split: if_splits)

lemma utf8_ok_complete:
  "utf8_ok (p @ c # s) \<Longrightarrow> needs c \<noteq> 0 \<Longrightarrow> needs c \<le> length s \<and> list_all continues (take (needs c) s)"
proof (induction p rule: length_induct)
  case (1 p)
  show ?case
  proof (cases p)
    case Nil
    then show ?thesis using 1(2,3) by (simp add: utf8_ok.simps(2))
  next
    case (Cons d q)
    show ?thesis
    proof (cases "needs d = 0")
      case True
      then have "utf8_ok (q @ c # s)" using 1(2) Cons by (simp add: utf8_ok.simps(2))
      moreover have "length q < length p" using Cons by simp
      ultimately show ?thesis using 1(1,3) by blast
    next
      case False
      have d: "list_all continues (take (needs d) (q @ c # s))" "utf8_ok (drop (needs d) (q @ c # s))"
        using 1(2) Cons False by (simp_all add: utf8_ok.simps(2))
      have "needs d \<le> length q"
      proof (rule ccontr)
        assume "\<not> needs d \<le> length q"
        then have "c \<in> set (take (needs d) (q @ c # s))" by (simp add: take_Cons' not_le)
        with d(1) lead_not_continues [OF 1(3)] show False by (auto simp: list_all_iff)
      qed
      then have "utf8_ok (drop (needs d) q @ c # s)" using d(2) by simp
      moreover have "length (drop (needs d) q) < length p" using Cons by simp
      ultimately show ?thesis using 1(1,3) by blast
    qed
  qed
qed

lemma incomplete_not_ok:
  assumes "list_all continues cs" and "length cs < needs c"
  shows "\<not> utf8_ok (p @ c # cs @ ''...'')"
proof
  assume u: "utf8_ok (p @ c # cs @ ''...'')"
  from utf8_ok_complete [OF u] assms(2) have l: "list_all continues (take (needs c) (cs @ ''...''))" by simp
  have "CHR ''.'' \<in> set (take (needs c) (cs @ ''...''))"
    using assms(2) by (simp add: take_Cons')
  moreover have "\<not> continues CHR ''.''" by (simp add: continues_def)
  ultimately show False using l unfolding list_all_iff by blast
qed

section \<open>Trimming an incomplete character\<close>

lemma space_seqs_complete:
  "\<forall>q \<in> set space_seqs. \<exists>d ds. q = d # ds \<and> list_all continues ds \<and> length ds = needs d \<and> (needs d = 0 \<longrightarrow> \<not> continues d)"
  by (simp add: space_seqs_def continues_def needs_def)

lemma last_lead_unique:
  assumes "p @ c # cs = q @ d # ds" and "list_all continues cs" "list_all continues ds" "\<not> continues c" "\<not> continues d"
  shows "c = d \<and> cs = ds"
proof -
  have t: "takeWhile continues (rev (p @ c # cs)) = rev cs" "takeWhile continues (rev (q @ d # ds)) = rev ds"
    using assms(2-5) by (simp_all add: list_all_iff takeWhile_append)
  then have "cs = ds" using assms(1) by (metis rev_rev_ident)
  with assms(1) show ?thesis by simp
qed

lemma incomplete_rear:
  assumes "list_all continues cs" and "length cs < needs c"
  shows "TrimRightSpace (p @ c # cs) = p @ c # cs"
proof -
  have "\<not> prefix q (rev (p @ c # cs))" if q: "q \<in> set (map rev space_seqs)" for q
  proof
    assume "prefix q (rev (p @ c # cs))"
    obtain d ds where d: "q = rev (d # ds)" "list_all continues ds" "length ds = needs d" "needs d = 0 \<longrightarrow> \<not> continues d"
      using q space_seqs_complete by fastforce
    from \<open>prefix q _\<close> d(1) obtain z where "p @ c # cs = z @ d # ds"
      by (metis prefix_def rev_append rev_rev_ident)
    from last_lead_unique [OF this assms(1) d(2)] lead_not_continues d assms(2) show False by fastforce
  qed
  then have "strip_one (map rev space_seqs) (rev (p @ c # cs)) = None" by (auto simp: strip_one_None)
  then show ?thesis by (simp add: TrimRightSpace_def strip_front.simps)
qed

lemma cut_text_not_ok:
  assumes "16000 < length (TrimSpace s)" and "take 16000 (TrimSpace s) = p @ c # cs"
    and "list_all continues cs" "length cs < needs c"
  shows "\<not> utf8_ok (truncateForAPI s 16000)"
proof -
  have "TrimLeftSpace (p @ c # cs) = p @ c # cs"
    by (rule trimmed_front [of _ s]) (use assms(2) in \<open>metis take_is_prefix\<close>)
  then have "TrimSpace (take 16000 (TrimSpace s)) = p @ c # cs"
    using incomplete_rear [OF assms(3,4)] assms(2) by (simp add: TrimSpace_def)
  then have "truncateForAPI s 16000 = p @ c # cs @ ''...''" using assms(1) by (simp add: truncateForAPI_def)
  with incomplete_not_ok [OF assms(3,4)] show ?thesis by simp
qed

text \<open>
  A long output can make a task impossible to finish. The handler cuts the text at byte 16000, and when
  that byte falls inside a character, the remainder is no UTF-8 and the database refuses the artifact: the
  result is answered with an error, the task and its lease are untouched, and the invocation
  that was written first stays without artifacts. As the same result is cut the same way, so is every
  retry.
\<close>

theorem cut_text_is_refused:
  assumes "GetTask (flow_db (sF st)) i = Some t" and "\<forall>s. bTakes env s \<longrightarrow> utf8_ok s"
    and "16000 < length (TrimSpace (derefString (rsStdout r)))"
    and "take 16000 (TrimSpace (derefString (rsStdout r))) = p @ c # cs" "list_all continues cs" "length cs < needs c"
  shows "\<exists>st' row. submitBridgeTaskResult env b i r st = (st', BDetail 500 encoding_error) \<and>
    flow_db (sF st') = flow_db (sF st) \<and> rows_of st' = rows_of st \<and> sInv st' = sInv st @ [row] \<and> ivArtifactIDs row = []"
proof -
  let ?v = "eUid (oF (bO env)) (wN (sF st))"
  let ?st1 = "CreateToolInvocation ?v (bridge_invocation b i t r) (draw 4 st)"
  let ?a = "\<lparr>paType = ''local_bridge_stdout'', paTitle = stringPtr ''Local bridge stdout'', paURI = None,
    paMedia = stringPtr ''text/plain'', paContent = Some (truncateForAPI (derefString (rsStdout r)) 16000),
    paMeta = [''bridge_id'' \<mapsto> AStr b]\<rparr>"
  have "TrimSpace (derefString (rsStdout r)) \<noteq> []" using assms(3) by auto
  then have "text_artifact b ''local_bridge_stdout'' ''Local bridge stdout'' (derefString (rsStdout r)) = [?a]"
    unfolding text_artifact_def by (simp only: if_False)
  then obtain more where more: "text_artifacts env b r = ?a # more" by (simp only: text_artifacts_def append_Cons append_Nil)
  have "\<not> bTakes env (truncateForAPI (derefString (rsStdout r)) 16000)"
    using cut_text_not_ok [OF assms(3-6)] assms(2) by blast
  then have "CreateArtifact env j (Some i) (Some ?v) ?a s = Inl encoding_error" for j s by (simp add: CreateArtifact_def)
  then have "create_artifacts env i ?v (text_artifacts env b r @ ps) [] ?st1 = (draw 1 ?st1, Inl encoding_error)" for ps
    unfolding more by (simp add: Let_def del: One_nat_def)
  then have "submitBridgeTaskResult env b i r st = (draw 1 ?st1, BDetail 500 encoding_error)"
    using assms(1) by (simp add: submitBridgeTaskResult_def persistLocalBridgeExecution_def Let_def del: One_nat_def)
  then show ?thesis by (auto simp: CreateToolInvocation_def draw_def bridge_invocation_def)
qed

definition strict_env :: bridge_env where
  "strict_env = bridge_env0\<lparr>bTakes := utf8_ok\<rparr>"

definition cut_result :: bridge_result where
  "cut_result = check_result\<lparr>rsStdout := Some (replicate 15999 CHR ''a'' @ [CHR 0xC3, CHR 0xA9, CHR ''z''])\<rparr>"

theorem cut_text_is_refused_witness:
  "\<exists>st'. submitBridgeTaskResult strict_env ''b1'' ''t1'' cut_result (lone_state InProgress) = (st', BDetail 500 encoding_error) \<and>
     flow_db (sF st') = flow_db (sF (lone_state InProgress))"
proof -
  let ?s = "replicate 15999 CHR ''a'' @ [CHR 0xC3, CHR 0xA9, CHR ''z'']"
  have "solid ?s" by (simp add: solid_def visible_def hd_append)
  then have s: "TrimSpace (derefString (rsStdout cut_result)) = ?s" by (simp add: cut_result_def derefString_def TrimSpace_solid)
  have l: "16000 < length (TrimSpace (derefString (rsStdout cut_result)))" unfolding s by simp
  have t: "take 16000 (TrimSpace (derefString (rsStdout cut_result))) = replicate 15999 CHR ''a'' @ CHR 0xC3 # []"
    unfolding s by simp
  have e: "\<forall>s. bTakes strict_env s \<longrightarrow> utf8_ok s" by (simp add: strict_env_def)
  have n: "list_all continues []" "length [] < needs (CHR 0xC3)" by (simp_all add: needs_def)
  from cut_text_is_refused [OF lone_get e l t n, of "''b1''"] show ?thesis by blast
qed

end
