(* ===== verification/Task_Api.thy ===== *)
theory Task_Api
  imports Runtime_Worker Task_Listing Go_Text
begin

text \<open>
  The endpoints for tasks, approvals and workspaces (\<^verbatim>\<open>httpapi/handlers.go\<close>), as functions on the tables,
  the queues and the counter of identifiers and clock readings. Redis may fail for the depth of the queues and
  for an insertion separately; the removal of a directory (\<^verbatim>\<open>os.RemoveAll\<close>) is a parameter that may
  report an error. A database call fails only where the transaction refuses the change.
\<close>

section \<open>Environment and answers\<close>

record api_env =
  aF :: flow_env
  aDepthUp :: bool
  aEnqueueUp :: bool
  aRedisError :: string
  aMaxGlobal :: int
  aMaxPerAgent :: int
  aRetentionHours :: int
  aRemove :: "string \<Rightarrow> string option"

datatype task_tree = TaskTree (tree_task: task) (tree_children: "task_tree list")

datatype api_answer =
    AnsDetail int string
  | AnsTask int "task option"
  | AnsTasks "task list"
  | AnsConflict task_state task_state "string list" string
  | AnsTree task_tree
  | AnsApproval "approval option"
  | AnsApprovals "approval list" nat
  | AnsSafeMode bool string
  | AnsCleanup int "string list" int

definition writeTaskStateConflict :: "task_state \<Rightarrow> task_state \<Rightarrow> string \<Rightarrow> api_answer" where
  "writeTaskStateConflict currentState requestedState taskID =
     AnsConflict currentState requestedState (ValidTransitionStrings currentState) taskID"

section \<open>Creation\<close>

record create_body =
  cbDescription :: string
  cbMetadata :: "any_map option"
  cbAllowed :: "string list"
  cbPriority :: string
  cbAgent :: "string option"
  cbTarget :: string
  cbInitiative :: "string option"
  cbPlanned :: "string option"

definition isSupportedAgent :: "string \<Rightarrow> bool" where
  "isSupportedAgent agent \<longleftrightarrow> agent \<in> {AgentTypePlanner, AgentTypeResearcher, AgentTypeCoder, AgentTypeReviewer}"

definition plannerHints :: "string list" where
  "plannerHints = [''plan'', ''design'', ''architect'', ''roadmap'', ''spec'', ''requirements'', ''investigate'', ''research'',
     ''compare'', ''analyze'']"

definition classifyAgent :: "string \<Rightarrow> string option \<Rightarrow> string" where
  "classifyAgent description assigned =
     (case assigned of
        Some a \<Rightarrow> a
      | None \<Rightarrow> if list_ex (Contains (ToLower description)) plannerHints then AgentTypePlanner else AgentTypeCoder)"

definition normal_body :: "create_body \<Rightarrow> create_body" where
  "normal_body b =
     b\<lparr>cbDescription := TrimSpace (cbDescription b),
       cbMetadata := Some (case cbMetadata b of None \<Rightarrow> Map.empty | Some m \<Rightarrow> m),
       cbPriority := (if cbPriority b = [] then PriorityNormal else cbPriority b),
       cbTarget := (if cbTarget b = [] then ExecutionTargetRemote else cbTarget b)\<rparr>"

definition create_params_of :: "create_body \<Rightarrow> string \<Rightarrow> string option \<Rightarrow> string option \<Rightarrow> create_params" where
  "create_params_of b agent key path =
     \<lparr>pDescription = cbDescription b, pMetadata = cbMetadata b, pAllowedCapabilities = cbAllowed b,
      pPriority = cbPriority b, pAssignedAgent = agent, pPlannedAgent = cbPlanned b, pExecutionTarget = cbTarget b,
      pIdempotencyKey = key, pEntrypoint = ''api'', pWorkspacePath = path, pParentTaskID = None, pRootTaskID = None,
      pInitiativeID = cbInitiative b, pTaskKind = [], pQueueOnCreate = True\<rparr>"

text \<open>The checks of a request in their order; what passes is the agent and the workspace path.\<close>

definition check_body :: "api_env \<Rightarrow> create_body \<Rightarrow> (string \<times> string option) result" where
  "check_body env b =
     (let agent = classifyAgent (cbDescription b) (cbAgent b)
      in if cbDescription b = [] \<or> 10000 < length (cbDescription b)
         then Inl ''description must be between 1 and 10000 characters''
         else if \<not> isSupportedPriority (cbPriority b) then Inl ''invalid priority''
         else if cbTarget b \<noteq> ExecutionTargetRemote \<and> cbTarget b \<noteq> ExecutionTargetLocal then Inl ''invalid execution_target''
         else if \<not> isSupportedAgent agent
         then Inl ''Current Go runtime only supports planner, researcher, coder and reviewer''
         else (case workspacePath (aF env) (cbTarget b) (case cbMetadata b of None \<Rightarrow> Map.empty | Some m \<Rightarrow> m) of
                 Inl e \<Rightarrow> Inl e
               | Inr path \<Rightarrow> Inr (agent, path)))"

text \<open>
  The first half of a creation reads: validation, the idempotency key, the depth of the queues. It ends with
  an answer or with the parameters of the new task.
\<close>

definition key_of :: "string \<Rightarrow> string option" where
  "key_of header = (if TrimSpace header = [] then None else Some (TrimSpace header))"

definition task_of_key :: "string option \<Rightarrow> flow \<Rightarrow> task option" where
  "task_of_key key w = (case key of None \<Rightarrow> None | Some k \<Rightarrow> GetTaskByIdempotencyKey (flow_db w) k)"

definition capacity_error :: "api_env \<Rightarrow> string \<Rightarrow> flow \<Rightarrow> api_answer option" where
  "capacity_error env agent w =
     (if \<not> aDepthUp env then Some (AnsDetail 500 (aRedisError env))
      else if aMaxGlobal env \<le> TotalQueueDepth (wQ w) then Some (AnsDetail 429 ''global queue capacity reached'')
      else if aMaxPerAgent env \<le> QueueDepth agent (wQ w) then Some (AnsDetail 429 ''agent queue capacity reached'')
      else None)"

definition create_check :: "api_env \<Rightarrow> string \<Rightarrow> create_body \<Rightarrow> flow \<Rightarrow> (api_answer, create_params) sum" where
  "create_check env header b0 w =
     (let b = normal_body b0; key = key_of header
      in case check_body env b of
           Inl e \<Rightarrow> Inl (AnsDetail 400 e)
         | Inr (agent, path) \<Rightarrow>
             (case task_of_key key w of
                Some t \<Rightarrow> Inl (AnsTask 201 (Some t))
              | None \<Rightarrow>
                  (case (if cbTarget b = ExecutionTargetLocal then None else capacity_error env agent w) of
                     Some a \<Rightarrow> Inl a
                   | None \<Rightarrow> Inr (create_params_of b agent key path))))"

text \<open>The second half writes: the row, queued at once, and the entry in the queue of a remote task.\<close>

definition enqueue_created :: "api_env \<Rightarrow> create_params \<Rightarrow> string \<Rightarrow> flow \<Rightarrow> flow \<times> api_answer option" where
  "enqueue_created env p taskID w =
     (let f = aF env; k = wN w
      in if pExecutionTarget p = ExecutionTargetLocal then (w, None)
         else if aEnqueueUp env
         then (w\<lparr>wQ := EnqueueTask (eFl f) (eNano f (eClk f k)) taskID (pAssignedAgent p) (pPriority p) (wQ w), wN := k + 1\<rparr>, None)
         else (fst (call_db f (\<lambda>u now. CancelTask u now taskID ''api:create'' (''queue enqueue failed: '' @ aRedisError env)) w),
               Some (AnsDetail 503 ''failed to enqueue task'')))"

definition create_commit :: "api_env \<Rightarrow> create_params \<Rightarrow> flow \<Rightarrow> flow \<times> api_answer" where
  "create_commit env p w =
     (let f = aF env; k = wN w; taskID = eUid f k; w0 = w\<lparr>wN := k + 3\<rparr>
      in case CreateTask taskID (eUid f (k + 1)) (eUid f (k + 2)) (eClk f k) p (flow_db w) of
           Inl e \<Rightarrow>
             (w0, case (if e = ''duplicate key value'' then task_of_key (pIdempotencyKey p) w else None) of
                    Some t \<Rightarrow> AnsTask 201 (Some t)
                  | None \<Rightarrow> AnsDetail 500 e)
         | Inr (d, t) \<Rightarrow>
             (case enqueue_created env p taskID (set_db d 3 w) of
                (w1, Some a) \<Rightarrow> (w1, a)
              | (w1, None) \<Rightarrow> (w1, AnsTask 201 (case GetTask (flow_db w1) taskID of None \<Rightarrow> t | Some u \<Rightarrow> Some u))))"

definition createTask :: "api_env \<Rightarrow> string \<Rightarrow> create_body \<Rightarrow> flow \<Rightarrow> flow \<times> api_answer" where
  "createTask env header b w =
     (case create_check env header b w of Inl a \<Rightarrow> (w, a) | Inr p \<Rightarrow> create_commit env p w)"

section \<open>Changes of state\<close>

definition state_of_text :: "string \<Rightarrow> task_state option" where
  "state_of_text s = find (\<lambda>st. stateText st = s)
     [Created, Queued, Assigned, InProgress, WaitingApproval, Review, Retrying, Completed, Failed, Cancelled]"

definition answer_task :: "string \<Rightarrow> flow \<Rightarrow> api_answer" where
  "answer_task taskID w =
     (case GetTask (flow_db w) taskID of None \<Rightarrow> AnsDetail 404 ''task not found'' | Some t \<Rightarrow> AnsTask 200 (Some t))"

definition getTask :: "string \<Rightarrow> flow \<Rightarrow> api_answer" where
  "getTask taskID w = answer_task taskID w"

definition updateTask :: "api_env \<Rightarrow> string \<Rightarrow> string \<Rightarrow> string option \<Rightarrow> flow \<Rightarrow> flow \<times> api_answer" where
  "updateTask env taskID newState reason w =
     (case GetTask (flow_db w) taskID of
        None \<Rightarrow> (w, AnsDetail 404 ''task not found'')
      | Some t \<Rightarrow>
          if newState = [] then (w, AnsDetail 400 ''state is required'')
          else
            (case state_of_text newState of
               None \<Rightarrow> (w, AnsDetail 400 ''invalid state'')
             | Some target \<Rightarrow>
                 if \<not> IsValidTransition (tState t) target then (w, writeTaskStateConflict (tState t) target taskID)
                 else
                   (case call_db (aF env) (\<lambda>u now. UpdateTaskState u now taskID target ''api''
                           (TrimSpace (derefString reason))) w of
                      (w1, Some e) \<Rightarrow>
                        (w1, if HasPrefix e ''invalid_transition:'' then writeTaskStateConflict (tState t) target taskID
                             else AnsDetail 500 e)
                    | (w1, None) \<Rightarrow>
                        (case GetTask (flow_db w1) taskID of
                           None \<Rightarrow> (w1, AnsDetail 404 ''task not found'')
                         | Some u \<Rightarrow> (reconcileRootTask (aF env) ''api:aggregate'' (tID u) w1, AnsTask 200 (Some u))))))"

definition isCancellableState :: "task_state \<Rightarrow> bool" where
  "isCancellableState s \<longleftrightarrow> s \<in> {Created, Queued, Assigned, InProgress, WaitingApproval}"

definition cancelTask :: "api_env \<Rightarrow> string \<Rightarrow> flow \<Rightarrow> flow \<times> api_answer" where
  "cancelTask env taskID w =
     (case GetTask (flow_db w) taskID of
        None \<Rightarrow> (w, AnsDetail 404 ''task not found'')
      | Some t \<Rightarrow>
          if \<not> isCancellableState (tState t) then (w, writeTaskStateConflict (tState t) Cancelled taskID)
          else
            (case call_db (aF env) (\<lambda>u now. CancelTask u now taskID ''api'' ''Cancelled via API'') w of
               (w1, Some e) \<Rightarrow>
                 (w1, if HasPrefix e ''invalid_transition:'' then writeTaskStateConflict (tState t) Cancelled taskID
                      else AnsDetail 500 e)
             | (w1, None) \<Rightarrow> (w1, answer_task taskID w1)))"

definition archiveTask :: "api_env \<Rightarrow> string \<Rightarrow> flow \<Rightarrow> flow \<times> api_answer" where
  "archiveTask env taskID w =
     (case GetTask (flow_db w) taskID of
        None \<Rightarrow> (w, AnsDetail 404 ''task not found'')
      | Some t \<Rightarrow>
          if \<not> IsTerminalState (tState t) then (w, AnsDetail 409 ''only terminal tasks can be archived'')
          else (let w1 = set_db (ArchiveTask (eClk (aF env) (wN w)) taskID (flow_db w)) 1 w
                in (w1, AnsTask 200 (GetTask (flow_db w1) taskID))))"

definition unarchiveTask :: "api_env \<Rightarrow> string \<Rightarrow> flow \<Rightarrow> flow \<times> api_answer" where
  "unarchiveTask env taskID w =
     (case GetTask (flow_db w) taskID of
        None \<Rightarrow> (w, AnsDetail 404 ''task not found'')
      | Some t \<Rightarrow> (let w1 = set_db (UnarchiveTask (eClk (aF env) (wN w)) taskID (flow_db w)) 1 w
                   in (w1, AnsTask 200 (GetTask (flow_db w1) taskID))))"

section \<open>Approvals\<close>

definition listApprovals :: "approval_status option \<Rightarrow> int \<Rightarrow> flow \<Rightarrow> api_answer" where
  "listApprovals status limit w =
     (let items = ListApprovals (flow_db w) status limit in AnsApprovals items (length items))"

definition getApproval :: "string \<Rightarrow> flow \<Rightarrow> api_answer" where
  "getApproval approvalID w =
     (case GetApproval (flow_db w) approvalID of
        None \<Rightarrow> AnsDetail 404 ''approval not found'' | Some a \<Rightarrow> AnsApproval (Some a))"

definition approval_error :: "string \<Rightarrow> api_answer" where
  "approval_error e =
     (if e = approval_not_found then AnsDetail 404 ''approval not found''
      else if e = approval_already_resolved then AnsDetail 409 ''approval already resolved''
      else AnsDetail 500 e)"

definition enqueue_approved :: "api_env \<Rightarrow> bool \<Rightarrow> task \<Rightarrow> flow \<Rightarrow> flow option" where
  "enqueue_approved env approve t w =
     (case tAssignedAgent t of
        Some agent \<Rightarrow>
          if approve \<and> tExecutionTarget t \<noteq> ExecutionTargetLocal then
            (if aEnqueueUp env
             then Some (w\<lparr>wQ := EnqueueTask (eFl (aF env)) (eNano (aF env) (eClk (aF env) (wN w))) (tID t) agent (tPriority t) (wQ w),
                         wN := wN w + 1\<rparr>)
             else None)
          else Some w
      | None \<Rightarrow> Some w)"

definition resolveApproval :: "api_env \<Rightarrow> string \<Rightarrow> bool \<Rightarrow> string \<Rightarrow> flow \<Rightarrow> flow \<times> api_answer" where
  "resolveApproval env approvalID approve operator0 w =
     (let operator = TrimSpace operator0; f = aF env; k = wN w
      in if operator = [] \<or> 128 < length operator
         then (w, AnsDetail 400 ''operator must be between 1 and 128 characters'')
         else
           (case ResolveApproval (eUid f k) (eClk f k) approvalID approve operator (flow_db w) of
              Inl e \<Rightarrow> (w\<lparr>wN := k + 1\<rparr>, approval_error e)
            | Inr (d, a, None) \<Rightarrow> (set_db d 1 w, AnsApproval a)
            | Inr (d, a, Some t) \<Rightarrow>
                (case enqueue_approved env approve t (set_db d 1 w) of
                   None \<Rightarrow> (set_db d 1 w, AnsDetail 503 ''approval resolved but failed to enqueue task'')
                 | Some w1 \<Rightarrow> (reconcileRootTask f ''api:aggregate'' (tID t) w1, AnsApproval a))))"

section \<open>Trees\<close>

text \<open>
  The tree is built in one pass over a Go map, in whatever order the map is walked: each node is copied into
  the children of its parent as it is at that moment.
\<close>

definition tree_step :: "string \<Rightarrow> (string \<rightharpoonup> task_tree) \<Rightarrow> (string \<rightharpoonup> task_tree)" where
  "tree_step i nodes =
     (case nodes i of
        None \<Rightarrow> nodes
      | Some node \<Rightarrow>
          (case tParentTaskID (tree_task node) of
             None \<Rightarrow> nodes
           | Some p \<Rightarrow>
               if p = [] then nodes
               else (case nodes p of
                       None \<Rightarrow> nodes
                     | Some parent \<Rightarrow> nodes(p \<mapsto> TaskTree (tree_task parent) (tree_children parent @ [node])))))"

definition build_tree :: "task list \<Rightarrow> string list \<Rightarrow> (string \<rightharpoonup> task_tree)" where
  "build_tree items order =
     fold tree_step order (\<lambda>i. map_option (\<lambda>t. TaskTree t []) (find_row tID i items))"

definition getTaskTree :: "string list \<Rightarrow> string \<Rightarrow> flow \<Rightarrow> api_answer" where
  "getTaskTree order taskID w =
     (case GetTask (flow_db w) taskID of
        None \<Rightarrow> AnsDetail 404 ''task not found''
      | Some t \<Rightarrow>
          (let rootID = (case tRootTaskID t of None \<Rightarrow> tID t | Some r \<Rightarrow> if r = [] then tID t else r);
               nodes = build_tree (ListByRoot (flow_db w) rootID) order
           in case nodes taskID of
                Some n \<Rightarrow> AnsTree n
              | None \<Rightarrow> (case nodes rootID of Some n \<Rightarrow> AnsTree n | None \<Rightarrow> AnsDetail 404 ''task tree not found'')))"

definition listTaskChildren :: "string \<Rightarrow> flow \<Rightarrow> api_answer" where
  "listTaskChildren taskID w = AnsTasks (ListChildren (flow_db w) taskID)"

section \<open>Safe mode and workspaces\<close>

definition SetEnabled :: "bool \<Rightarrow> bool \<Rightarrow> bool \<times> bool" where
  "SetEnabled enabled current = (enabled, current)"

definition ternaryBool :: "bool \<Rightarrow> string \<Rightarrow> string \<Rightarrow> string" where
  "ternaryBool v whenTrue whenFalse = (if v then whenTrue else whenFalse)"

definition toggleSafeMode :: "bool option \<Rightarrow> bool \<Rightarrow> bool \<times> api_answer" where
  "toggleSafeMode enabled current =
     (case enabled of
        None \<Rightarrow> (current, AnsDetail 400 ''enabled is required'')
      | Some b \<Rightarrow>
          (case SetEnabled b current of
             (now, previous) \<Rightarrow>
               (now, AnsSafeMode b (''Safe mode '' @ ternaryBool b ''enabled'' ''disabled'' @ '' (was '' @
                  ternaryBool previous ''enabled'' ''disabled'' @ '')''))))"

text \<open>The outcome of a cleanup: the state, the directories removed, the errors and the count.\<close>

record cleanup =
  clFlow :: flow
  clRemoved :: "string list"
  clErrors :: "string list"
  clCount :: int

definition below_base :: "string \<Rightarrow> string \<Rightarrow> bool" where
  "below_base base path \<longleftrightarrow> path = base \<or> HasPrefix path (base @ ''/'')"

definition cleanup_one :: "api_env \<Rightarrow> string \<Rightarrow> task \<Rightarrow> cleanup \<Rightarrow> cleanup" where
  "cleanup_one env base t c =
     (let path = path_clean (TrimSpace (derefString (tWorkspacePath t)))
      in if TrimSpace (derefString (tWorkspacePath t)) = [] then c
         else if base \<noteq> [] \<and> \<not> below_base base path
         then c\<lparr>clErrors := clErrors c @ [path @ '': outside workspace root'']\<rparr>
         else
           (case aRemove env path of
              Some e \<Rightarrow> c\<lparr>clErrors := clErrors c @ [path @ '': '' @ e]\<rparr>
            | None \<Rightarrow>
                (let w = clFlow c
                 in c\<lparr>clFlow := set_db (ClearWorkspacePath (eClk (aF env) (wN w)) (tID t) (flow_db w)) 1 w,
                      clRemoved := clRemoved c @ [path], clCount := clCount c + 1\<rparr>)))"

definition cleanupWorkspaces :: "api_env \<Rightarrow> flow \<Rightarrow> cleanup \<times> api_answer" where
  "cleanupWorkspaces env w =
     (let cutoff = eClk (aF env) (wN w) + wrap64 (- aRetentionHours env * hour);
          tasks = ListWorkspaceCleanupCandidates (flow_db w) cutoff 100;
          base = path_clean (TrimSpace (eRoot (aF env)));
          c = fold (cleanup_one env base) tasks
                \<lparr>clFlow = w\<lparr>wN := wN w + 1\<rparr>, clRemoved = [], clErrors = [], clCount = 0\<rparr>
      in (c, AnsCleanup (clCount c) (clErrors c) (aRetentionHours env)))"

end
