(* ===== verification/Task_Requests.thy ===== *)
theory Task_Requests
  imports Task_Api
begin

text \<open>
  What the endpoints for tasks and approvals guarantee: a created task is queued on both sides or
  cancelled, the queues stay within their capacity, and the ways around the approval, the queue and the
  idempotency key.
\<close>

section \<open>Creation\<close>

lemma upd_row_absent: "find_row key k rows = None \<Longrightarrow> upd_row key k f rows = rows"
  by (induction rows) (auto split: if_splits)

text \<open>The row that a request asks for.\<close>

definition booked :: "create_params \<Rightarrow> task \<Rightarrow> bool" where
  "booked p u \<longleftrightarrow> tAssignedAgent u = Some (pAssignedAgent p) \<and> tExecutionTarget u = pExecutionTarget p \<and> tPriority u = pPriority p \<and>
     tDescription u = pDescription p"

lemma booked_transition [simp]: "booked p (transition_row s now u) \<longleftrightarrow> booked p u"
  by (simp add: booked_def transition_row_def)

lemma create_row_at:
  assumes "CreateTask i c r now p d = Inr (d', t)" and "pQueueOnCreate p"
  shows "\<exists>u. t = Some u \<and> GetTask d' i = Some u \<and> tID u = i \<and> tState u = Queued \<and> tIdempotencyKey u = pIdempotencyKey p \<and>
    booked p u \<and> GetTask d i = None"
    and "j \<noteq> i \<Longrightarrow> GetTask d' j = GetTask d j"
    and "\<exists>u. dbTasks d' = dbTasks d @ [u] \<and> tID u = i \<and> tIdempotencyKey u = pIdempotencyKey p"
proof -
  have n: "find_row tID i (dbTasks d) = None" and
    d': "d' = transitionTaskStateTx r i Created Queued (pEntrypoint p @ '':create'')
      (''Queued for '' @ pAssignedAgent p @ '' via '' @ pExecutionTarget p) now (d\<lparr>dbTasks := dbTasks d @ [create_row i c now p]\<rparr>)"
    and t: "t = GetTask d' i"
    using assms by (auto simp: CreateTask_def Let_def split: if_splits)
  have rows: "dbTasks d' = dbTasks d @ [transition_row Queued now (create_row i c now p)]"
  proof -
    show ?thesis using upd_row_absent [OF n] by (simp add: d' upd_row_def)
  qed
  then show "\<exists>u. dbTasks d' = dbTasks d @ [u] \<and> tID u = i \<and> tIdempotencyKey u = pIdempotencyKey p"
    by (simp add: transition_row_def create_row_def)
  show "\<exists>u. t = Some u \<and> GetTask d' i = Some u \<and> tID u = i \<and> tState u = Queued \<and> tIdempotencyKey u = pIdempotencyKey p \<and>
    booked p u \<and> GetTask d i = None"
    using n by (simp add: t GetTask_def rows find_row_append transition_row_def create_row_def booked_def)
  show "j \<noteq> i \<Longrightarrow> GetTask d' j = GetTask d j"
    by (simp add: GetTask_def rows find_row_append split: option.split)
qed

lemma create_params_simps [simp]:
  "pQueueOnCreate (create_params_of b agent key path)" "pIdempotencyKey (create_params_of b agent key path) = key"
  "pAssignedAgent (create_params_of b agent key path) = agent" "pExecutionTarget (create_params_of b agent key path) = cbTarget b"
  "pPriority (create_params_of b agent key path) = cbPriority b"
  by (simp_all add: create_params_of_def)

definition queued_for :: "string \<Rightarrow> string \<Rightarrow> flow \<Rightarrow> bool" where
  "queued_for i agent w \<longleftrightarrow> i \<in> fst ` set (rdQueues (wQ w) (queueKey agent))"

lemma create_check_passes:
  assumes "create_check env h b w = Inr p"
  shows "pQueueOnCreate p" "pIdempotencyKey p = key_of h" "task_of_key (key_of h) w = None"
    "pExecutionTarget p \<noteq> ExecutionTargetLocal \<Longrightarrow> aDepthUp env \<and> TotalQueueDepth (wQ w) < aMaxGlobal env \<and>
       QueueDepth (pAssignedAgent p) (wQ w) < aMaxPerAgent env"
    "isSupportedAgent (pAssignedAgent p)"
  using assms
  by (auto simp: create_check_def check_body_def capacity_error_def Let_def split: sum.splits option.splits if_splits prod.splits)

lemma create_check_answers:
  assumes "create_check env h b w = Inl a"
  shows "(\<exists>c m. a = AnsDetail c m) \<or> (\<exists>t. a = AnsTask 201 (Some t) \<and> task_of_key (key_of h) w = Some t)"
  using assms
  by (auto simp: create_check_def capacity_error_def Let_def split: sum.splits option.splits if_splits prod.splits)

lemma cancel_created:
  assumes "GetTask (flow_db w) i = Some u" and "tState u = Queued"
  shows "\<exists>x. GetTask (flow_db (fst (call_db f (\<lambda>r now. CancelTask r now i a q) w))) i = Some x \<and> tState x = Cancelled \<and>
      tIdempotencyKey x = tIdempotencyKey u \<and> (\<forall>p. booked p u \<longrightarrow> booked p x)"
    and "wQ (fst (call_db f (\<lambda>r now. CancelTask r now i a q) w)) = wQ w"
    and "j \<noteq> i \<Longrightarrow> GetTask (flow_db (fst (call_db f (\<lambda>r now. CancelTask r now i a q) w))) j = GetTask (flow_db w) j"
    and "\<exists>now. dbTasks (flow_db (fst (call_db f (\<lambda>r now. CancelTask r now i a q) w))) =
      upd_row tID i (transition_row Cancelled now) (dbTasks (flow_db w))"
proof -
  have v: "IsValidTransition (tState u) Cancelled" using assms(2) by (simp add: IsValidTransition_def GetValidTransitions_def)
  then show "\<exists>x. GetTask (flow_db (fst (call_db f (\<lambda>r now. CancelTask r now i a q) w))) i = Some x \<and> tState x = Cancelled \<and>
      tIdempotencyKey x = tIdempotencyKey u \<and> (\<forall>p. booked p u \<longrightarrow> booked p x)"
    using assms by (simp add: call_db_def CancelTask_def UpdateTaskState_def set_db_def GetTask_def) (simp add: transition_row_def)
  show "wQ (fst (call_db f (\<lambda>r now. CancelTask r now i a q) w)) = wQ w"
    by (simp add: call_db_def set_db_def split: sum.split)
  show "j \<noteq> i \<Longrightarrow> GetTask (flow_db (fst (call_db f (\<lambda>r now. CancelTask r now i a q) w))) j = GetTask (flow_db w) j"
    using assms v by (simp add: call_db_def CancelTask_def UpdateTaskState_def set_db_def GetTask_def find_row_upd_other)
  show "\<exists>now. dbTasks (flow_db (fst (call_db f (\<lambda>r now. CancelTask r now i a q) w))) =
      upd_row tID i (transition_row Cancelled now) (dbTasks (flow_db w))"
    using assms v by (auto simp: call_db_def CancelTask_def UpdateTaskState_def set_db_def)
qed

text \<open>The writing half on a fresh identifier.\<close>

lemma create_commit_effect:
  assumes "pQueueOnCreate p" and "GetTask (flow_db w) (eUid (aF env) (wN w)) = None"
  shows "\<exists>w' a u. create_commit env p w = (w', a) \<and> GetTask (flow_db w') (eUid (aF env) (wN w)) = Some u \<and>
    tIdempotencyKey u = pIdempotencyKey p \<and> booked p u \<and>
    (if pExecutionTarget p = ExecutionTargetLocal \<or> aEnqueueUp env
     then a = AnsTask 201 (Some u) \<and> tState u = Queued else a = AnsDetail 503 ''failed to enqueue task'' \<and> tState u = Cancelled) \<and>
    (if pExecutionTarget p \<noteq> ExecutionTargetLocal \<and> aEnqueueUp env
     then (\<exists>n. wQ w' = EnqueueTask (eFl (aF env)) n (eUid (aF env) (wN w)) (pAssignedAgent p) (pPriority p) (wQ w))
     else wQ w' = wQ w) \<and> wN w < wN w' \<and>
    (\<forall>j. j \<noteq> eUid (aF env) (wN w) \<longrightarrow> GetTask (flow_db w') j = GetTask (flow_db w) j) \<and>
    (\<exists>x g. dbTasks (flow_db w') = upd_row tID (eUid (aF env) (wN w)) g (dbTasks (flow_db w) @ [x]) \<and> tID x = eUid (aF env) (wN w) \<and>
       (\<forall>r. tIdempotencyKey (g r) = tIdempotencyKey r) \<and> tIdempotencyKey x = pIdempotencyKey p)"
proof -
  let ?i = "eUid (aF env) (wN w)"
  obtain d t where c: "CreateTask ?i (eUid (aF env) (wN w + 1)) (eUid (aF env) (wN w + 2)) (eClk (aF env) (wN w)) p (flow_db w) = Inr (d, t)"
    using assms(2) by (simp add: CreateTask_def GetTask_def Let_def)
  obtain u where u: "t = Some u" "GetTask d ?i = Some u" "tState u = Queued" "tIdempotencyKey u = pIdempotencyKey p" "booked p u"
    using create_row_at(1) [OF c assms(1)] by blast
  note o = create_row_at(2) [OF c assms(1)]
  obtain x where x: "dbTasks d = dbTasks (flow_db w) @ [x]" "tID x = ?i" "tIdempotencyKey x = pIdempotencyKey p"
    using create_row_at(3) [OF c assms(1)] by blast
  show ?thesis
  proof (cases "pExecutionTarget p = ExecutionTargetLocal \<or> aEnqueueUp env")
    case True
    let ?v = "if pExecutionTarget p = ExecutionTargetLocal then set_db d 3 w
      else (set_db d 3 w)\<lparr>wQ := EnqueueTask (eFl (aF env)) (eNano (aF env) (eClk (aF env) (wN w + 3))) ?i (pAssignedAgent p)
        (pPriority p) (wQ w), wN := wN w + 4\<rparr>"
    have "create_commit env p w = (?v, AnsTask 201 (Some u))"
      using True c u by (auto simp: create_commit_def enqueue_created_def Let_def set_db_def)
    moreover have "dbTasks (flow_db ?v) = upd_row tID ?i (\<lambda>r. r) (dbTasks (flow_db w) @ [x])"
      using x(1) by (simp add: upd_row_def set_db_def)
    ultimately show ?thesis
      using True u o x(2,3)
      by (intro exI [of _ ?v] exI [of _ "AnsTask 201 (Some u)"] exI [of _ u] conjI exI [of _ x] exI [of _ "\<lambda>r. r"])
         (auto simp: set_db_def)
  next
    case False
    have g: "GetTask (flow_db (set_db d 3 w)) ?i = Some u" using u(2) by (simp add: set_db_def)
    let ?c = "fst (call_db (aF env) (\<lambda>r now. CancelTask r now ?i ''api:create'' (''queue enqueue failed: '' @ aRedisError env)) (set_db d 3 w))"
    note cc = cancel_created [OF g u(3), where f = "aF env" and a = "''api:create''"
      and q = "''queue enqueue failed: '' @ aRedisError env"]
    obtain y where y: "GetTask (flow_db ?c) ?i = Some y" "tState y = Cancelled" "tIdempotencyKey y = tIdempotencyKey u"
      "booked p y"
      using cc(1) u(5) by blast
    obtain now where r: "dbTasks (flow_db ?c) = upd_row tID ?i (transition_row Cancelled now) (dbTasks (flow_db w) @ [x])"
      using cc(4) x(1) by (auto simp: set_db_def)
    have k: "tIdempotencyKey (transition_row Cancelled now z) = tIdempotencyKey z" for z by (simp add: transition_row_def)
    have co: "create_commit env p w = (?c, AnsDetail 503 ''failed to enqueue task'')"
      using False c u by (simp add: create_commit_def enqueue_created_def Let_def)
    have oo: "GetTask (flow_db ?c) j = GetTask (flow_db w) j" if "j \<noteq> ?i" for j
      using cc(3) that o by (simp add: set_db_def)
    have n: "wN w < wN ?c" by (simp add: call_db_def set_db_def split: sum.split)
    have q: "wQ ?c = wQ w" using cc(2) by (simp add: set_db_def)
    show ?thesis
      unfolding co using False y u(4) oo n q r k x(2,3)
      by (intro exI [of _ ?c] exI [of _ "AnsDetail 503 ''failed to enqueue task''"] exI [of _ y]) auto
  qed
qed

section \<open>The capacity of the queues\<close>

lemma ZCard_ZAdd: "ZCard (ZAdd m x z) \<le> ZCard z + 1"
  using length_filter_le [of "\<lambda>y. fst y \<noteq> m" z] by (simp add: ZAdd_def ZCard_def)

lemma QueueDepth_enqueue:
  "QueueDepth a (EnqueueTask fl n i agent p r) \<le> QueueDepth a r + (if a = agent then 1 else 0)"
  using ZCard_ZAdd by (auto simp: QueueDepth_def EnqueueTask_def queueKey_def)

lemma TotalQueueDepth_enqueue: "TotalQueueDepth (EnqueueTask fl n i agent p r) \<le> TotalQueueDepth r + 1"
  using QueueDepth_enqueue [of AgentTypePlanner fl n i agent p r] QueueDepth_enqueue [of AgentTypeCoder fl n i agent p r]
    QueueDepth_enqueue [of AgentTypeReviewer fl n i agent p r] QueueDepth_enqueue [of AgentTypeInfra fl n i agent p r]
    QueueDepth_enqueue [of AgentTypeResearcher fl n i agent p r]
  by (cases "agent = AgentTypePlanner"; cases "agent = AgentTypeCoder"; cases "agent = AgentTypeReviewer";
      cases "agent = AgentTypeInfra"; cases "agent = AgentTypeResearcher")
     (simp_all add: TotalQueueDepth_def agent_defs)

lemma create_commit_queues:
  assumes "create_commit env p w = (w', a)"
  shows "wQ w' = wQ w \<or> (pExecutionTarget p \<noteq> ExecutionTargetLocal \<and>
    (\<exists>n i. wQ w' = EnqueueTask (eFl (aF env)) n i (pAssignedAgent p) (pPriority p) (wQ w)))"
proof -
  have e: "wQ v = wQ u \<or> (pExecutionTarget p \<noteq> ExecutionTargetLocal \<and>
      (\<exists>n. wQ v = EnqueueTask (eFl (aF env)) n i (pAssignedAgent p) (pPriority p) (wQ u)))"
    if "enqueue_created env p i u = (v, x)" for u v i x
    using that by (auto simp: enqueue_created_def Let_def call_db_def set_db_def split: if_splits sum.splits)
  show ?thesis
    using assms by (auto simp: create_commit_def Let_def set_db_def split: sum.splits option.splits prod.splits dest!: e) blast+
qed

section \<open>Properties\<close>

text \<open>
  C25: a request with a fresh identifier and a fresh idempotency key is refused without effect, or its task is
  there, assigned to the agent that its description or its choice names: with the answer 201 it is queued in the
  database and, unless it is to run locally, in the queue of that agent and in no other; with the answer 503 it is
  a remote task that could not be enqueued, and it is cancelled and in no queue.
\<close>

theorem creation_queues_the_task:
  assumes "createTask env header b w = (w', a)" and "GetTask (flow_db w) (eUid (aF env) (wN w)) = None"
    and "task_of_key (key_of header) w = None"
  shows "(w' = w \<and> (\<exists>c m. a = AnsDetail c m)) \<or>
    (\<exists>u agent. GetTask (flow_db w') (eUid (aF env) (wN w)) = Some u \<and> tIdempotencyKey u = key_of header \<and>
       tAssignedAgent u = Some agent \<and> agent = classifyAgent (TrimSpace (cbDescription b)) (cbAgent b) \<and> isSupportedAgent agent \<and>
       tExecutionTarget u = (if cbTarget b = [] then ExecutionTargetRemote else cbTarget b) \<and>
       (a = AnsTask 201 (Some u) \<and> tState u = Queued \<and>
          (if tExecutionTarget u = ExecutionTargetLocal then wQ w' = wQ w
           else queued_for (eUid (aF env) (wN w)) agent w' \<and>
             (\<forall>k. k \<noteq> queueKey agent \<longrightarrow> rdQueues (wQ w') k = rdQueues (wQ w) k)) \<or>
        a = AnsDetail 503 ''failed to enqueue task'' \<and> tState u = Cancelled \<and> tExecutionTarget u \<noteq> ExecutionTargetLocal \<and>
          wQ w' = wQ w))"
proof (cases "create_check env header b w")
  case (Inl x)
  then show ?thesis using assms(1,3) create_check_answers [OF Inl] by (auto simp: createTask_def)
next
  case (Inr p)
  note c = create_check_passes [OF Inr]
  have w': "create_commit env p w = (w', a)" using assms(1) Inr by (simp add: createTask_def)
  have agent: "pAssignedAgent p = classifyAgent (TrimSpace (cbDescription b)) (cbAgent b)"
    and target: "pExecutionTarget p = (if cbTarget b = [] then ExecutionTargetRemote else cbTarget b)"
    using Inr by (auto simp: create_check_def check_body_def normal_body_def Let_def split: sum.splits option.splits if_splits prod.splits)
  have q: "queued_for i agent w' \<and> (\<forall>k. k \<noteq> queueKey agent \<longrightarrow> rdQueues (wQ w') k = rdQueues (wQ w) k)"
    if "wQ w' = EnqueueTask fl n i agent pr (wQ w)" for fl n i agent pr
    using that by (auto simp: queued_for_def EnqueueTask_def ZAdd_def)
  obtain u where u: "GetTask (flow_db w') (eUid (aF env) (wN w)) = Some u" "tIdempotencyKey u = pIdempotencyKey p" "booked p u"
    and a: "if pExecutionTarget p = ExecutionTargetLocal \<or> aEnqueueUp env
      then a = AnsTask 201 (Some u) \<and> tState u = Queued else a = AnsDetail 503 ''failed to enqueue task'' \<and> tState u = Cancelled"
    and r: "if pExecutionTarget p \<noteq> ExecutionTargetLocal \<and> aEnqueueUp env
      then (\<exists>n. wQ w' = EnqueueTask (eFl (aF env)) n (eUid (aF env) (wN w)) (pAssignedAgent p) (pPriority p) (wQ w))
      else wQ w' = wQ w"
    using create_commit_effect [OF c(1) assms(2)] w' by auto
  have row: "tAssignedAgent u = Some (pAssignedAgent p)" "tExecutionTarget u = pExecutionTarget p" using u(3) by (simp_all add: booked_def)
  have "a = AnsTask 201 (Some u) \<and> tState u = Queued \<and>
      (if tExecutionTarget u = ExecutionTargetLocal then wQ w' = wQ w
       else queued_for (eUid (aF env) (wN w)) (pAssignedAgent p) w' \<and>
         (\<forall>k. k \<noteq> queueKey (pAssignedAgent p) \<longrightarrow> rdQueues (wQ w') k = rdQueues (wQ w) k)) \<or>
    a = AnsDetail 503 ''failed to enqueue task'' \<and> tState u = Cancelled \<and> tExecutionTarget u \<noteq> ExecutionTargetLocal \<and> wQ w' = wQ w"
  proof (cases "tExecutionTarget u = ExecutionTargetLocal")
    case True
    then show ?thesis using a r row(2) by simp
  next
    case False
    then show ?thesis using a r row(2) q by (cases "aEnqueueUp env") auto
  qed
  moreover have "tExecutionTarget u = (if cbTarget b = [] then ExecutionTargetRemote else cbTarget b)" unfolding row(2) by (rule target)
  moreover have "tIdempotencyKey u = key_of header" using u(2) c(2) by simp
  ultimately show ?thesis using u(1) row(1) c(5) agent
    by - (rule disjI2, rule exI [of _ u], rule exI [of _ "pAssignedAgent p"], intro conjI; assumption)
qed

text \<open>
  C26: the endpoint respects the capacity of the queues: no request lifts the total depth above the global limit
  or the depth of an agent's queue above the limit per agent (a depth that was above already, through the
  launches and approvals that do not look at the limits, is not lifted further).
\<close>

theorem creation_respects_the_capacity:
  assumes "createTask env header b w = (w', a)"
  shows "TotalQueueDepth (wQ w') \<le> max (TotalQueueDepth (wQ w)) (aMaxGlobal env) \<and>
    QueueDepth agent (wQ w') \<le> max (QueueDepth agent (wQ w)) (aMaxPerAgent env)"
proof (cases "create_check env header b w")
  case (Inl x)
  then show ?thesis using assms by (simp add: createTask_def)
next
  case (Inr p)
  note c = create_check_passes [OF Inr]
  have "create_commit env p w = (w', a)" using assms Inr by (simp add: createTask_def)
  from create_commit_queues [OF this] show ?thesis
  proof
    assume e: "pExecutionTarget p \<noteq> ExecutionTargetLocal \<and>
      (\<exists>n i. wQ w' = EnqueueTask (eFl (aF env)) n i (pAssignedAgent p) (pPriority p) (wQ w))"
    then obtain n i where q: "wQ w' = EnqueueTask (eFl (aF env)) n i (pAssignedAgent p) (pPriority p) (wQ w)" by blast
    have "TotalQueueDepth (wQ w) < aMaxGlobal env" "QueueDepth (pAssignedAgent p) (wQ w) < aMaxPerAgent env"
      using c(4) e by auto
    then show ?thesis
      using TotalQueueDepth_enqueue [of "eFl (aF env)" n i "pAssignedAgent p" "pPriority p" "wQ w"]
        QueueDepth_enqueue [of agent "eFl (aF env)" n i "pAssignedAgent p" "pPriority p" "wQ w"] q
      by (auto split: if_splits)
  qed simp
qed

lemma find_key_upd:
  assumes "\<And>r. key (g r) = key r"
  shows "find_row key k (upd_row tID i g rows) = map_option (\<lambda>r. if tID r = i then g r else r) (find_row key k rows)"
  by (induction rows) (auto simp: assms)

lemma created_key:
  assumes "create_commit env p w = (w', a)" "pQueueOnCreate p" "GetTask (flow_db w) (eUid (aF env) (wN w)) = None"
    and "pIdempotencyKey p = Some k" "task_of_key (Some k) w = None"
    and "GetTask (flow_db w') (eUid (aF env) (wN w)) = Some u"
  shows "task_of_key (Some k) w' = Some u"
proof -
  let ?i = "eUid (aF env) (wN w)"
  obtain x g where x: "dbTasks (flow_db w') = upd_row tID ?i g (dbTasks (flow_db w) @ [x])" "tID x = ?i"
    "\<forall>r. tIdempotencyKey (g r) = tIdempotencyKey r" "tIdempotencyKey x = Some k"
    using create_commit_effect [OF assms(2,3)] assms(1,4) by auto
  have f: "find_row tIdempotencyKey (Some k) (dbTasks (flow_db w')) = Some (g x)"
    using assms(5) x by (simp add: find_key_upd find_row_append task_of_key_def GetTaskByIdempotencyKey_def)
  have "find_row tID ?i (dbTasks (flow_db w)) = None" using assms(3) by (simp add: GetTask_def)
  then have "upd_row tID ?i g (dbTasks (flow_db w)) = dbTasks (flow_db w)"
    by (rule upd_row_absent)
  then have "dbTasks (flow_db w') = dbTasks (flow_db w) @ [g x]" using x(1,2) by (simp add: upd_row_def)
  then have "u = g x" using assms(3,6) by (auto simp: GetTask_def find_row_append split: if_splits)
  with f show ?thesis by (simp add: task_of_key_def GetTaskByIdempotencyKey_def)
qed

text \<open>
  An idempotency key makes a lost task look created. When the insertion into the queue fails, the request
  is answered 503 and its task is cancelled; every retry with the same key, as the header invites, is
  answered 201 with that cancelled task, and nothing is ever executed.
\<close>

theorem lost_enqueue_is_replayed:
  assumes "createTask env header b w = (w', AnsDetail 503 m)" and "GetTask (flow_db w) (eUid (aF env) (wN w)) = None"
    and "key_of header = Some k" and "task_of_key (Some k) w = None"
    and "check_body env' (normal_body b') = Inr x"
  shows "\<exists>u. createTask env' header b' w' = (w', AnsTask 201 (Some u)) \<and> tState u = Cancelled \<and>
    tID u = eUid (aF env) (wN w)"
proof (cases "create_check env header b w")
  case (Inl y)
  then show ?thesis using assms(1)
    by (auto simp: createTask_def create_check_def capacity_error_def Let_def split: sum.splits option.splits if_splits prod.splits)
next
  case (Inr p)
  note c = create_check_passes [OF Inr]
  have w': "create_commit env p w = (w', AnsDetail 503 m)" using assms(1) Inr by (simp add: createTask_def)
  obtain u where u: "GetTask (flow_db w') (eUid (aF env) (wN w)) = Some u" "tState u = Cancelled"
    using create_commit_effect [OF c(1) assms(2)] w' by (auto split: if_splits)
  have "task_of_key (Some k) w' = Some u"
    using created_key [OF w' c(1) assms(2) _ assms(4) u(1)] c(2) assms(3) by simp
  then have "createTask env' header b' w' = (w', AnsTask 201 (Some u))"
    using assms(3,5) by (cases x) (simp add: createTask_def create_check_def Let_def)
  moreover have "tID u = eUid (aF env) (wN w)" using u(1) find_row_SomeD by (fastforce simp: GetTask_def)
  ultimately show ?thesis using u(2) by simp
qed

text \<open>
  The idempotency key does not hold against a concurrent request: the lookup and the insertion are separate
  transactions, and the table has no unique index on the key. Two requests with the same key whose lookups
  both come first are both answered 201, with two different tasks.
\<close>

theorem concurrent_creations_share_a_key:
  assumes "create_check env header b1 w = Inr p1" and "create_check env header b2 w = Inr p2" and "key_of header = Some k"
    and "inj (eUid (aF env))" and "\<forall>n \<ge> wN w. GetTask (flow_db w) (eUid (aF env) n) = None" and "aEnqueueUp env"
  shows "\<exists>w1 w2 t u. create_commit env p1 w = (w1, AnsTask 201 (Some t)) \<and> create_commit env p2 w1 = (w2, AnsTask 201 (Some u)) \<and>
    tID t \<noteq> tID u \<and> tIdempotencyKey t = Some k \<and> tIdempotencyKey u = Some k \<and>
    GetTask (flow_db w2) (tID t) = Some t \<and> GetTask (flow_db w2) (tID u) = Some u"
proof -
  let ?i = "eUid (aF env) (wN w)"
  note c1 = create_check_passes [OF assms(1)] and c2 = create_check_passes [OF assms(2)]
  have f1: "GetTask (flow_db w) ?i = None" using assms(5) by simp
  obtain w1 t where t: "create_commit env p1 w = (w1, AnsTask 201 (Some t))" "GetTask (flow_db w1) ?i = Some t"
    "tIdempotencyKey t = Some k" "wN w < wN w1" "\<forall>j. j \<noteq> ?i \<longrightarrow> GetTask (flow_db w1) j = GetTask (flow_db w) j"
    using create_commit_effect [OF c1(1) f1] assms(3,6) c1(2) by auto
  let ?j = "eUid (aF env) (wN w1)"
  have ne: "?j \<noteq> ?i" using assms(4) t(4) by (auto dest: injD)
  then have f2: "GetTask (flow_db w1) ?j = None" using t(4,5) assms(5) by simp
  obtain w2 u where u: "create_commit env p2 w1 = (w2, AnsTask 201 (Some u))" "GetTask (flow_db w2) ?j = Some u"
    "tIdempotencyKey u = Some k" "\<forall>j. j \<noteq> ?j \<longrightarrow> GetTask (flow_db w2) j = GetTask (flow_db w1) j"
    using create_commit_effect [OF c2(1) f2] assms(3,6) c2(2) by auto
  have ids: "tID t = ?i" "tID u = ?j" using t(2) u(2) find_row_SomeD by (fastforce simp: GetTask_def)+
  have "GetTask (flow_db w2) ?i = Some t" using u(4) ne t(2) by simp
  with t u ids ne show ?thesis by auto
qed

section \<open>Around the approval\<close>

lemma reconcile_initiative_db [simp]:
  "flow_db (reconcile_initiative f t w) = flow_db w" "wQ (reconcile_initiative f t w) = wQ w"
  by (simp_all add: reconcile_initiative_def ReconcileInitiativeExecution_def UpdateInitiative_def Let_def
      split: option.split list.split)

lemma update_waiting:
  assumes "GetTask (flow_db w) i = Some t" "tState t = WaitingApproval" "root_of t = i" "tParentTaskID t = None"
  shows "\<exists>w' u. updateTask env i ''queued'' reason w = (w', AnsTask 200 (Some u)) \<and> tState u = Queued \<and>
    GetTask (flow_db w') i = Some u \<and> wQ w' = wQ w \<and> dbApprovals (flow_db w') = dbApprovals (flow_db w)"
proof -
  have id: "tID t = i" using assms(1) find_row_SomeD by (fastforce simp: GetTask_def)
  have v: "IsValidTransition WaitingApproval Queued" by (simp add: IsValidTransition_def GetValidTransitions_def)
  have p: "state_of_text ''queued'' = Some Queued" by (simp add: state_of_text_def)
  let ?d = "transitionTaskStateTx (eUid (aF env) (wN w)) i WaitingApproval Queued ''api'' (TrimSpace (derefString reason))
    (eClk (aF env) (wN w)) (flow_db w)"
  let ?w = "set_db ?d 2 w" and ?u = "transition_row Queued (eClk (aF env) (wN w)) t"
  have c: "call_db (aF env) (\<lambda>u now. UpdateTaskState u now i Queued ''api'' (TrimSpace (derefString reason))) w = (?w, None)"
    using assms(1,2) v by (simp add: call_db_def UpdateTaskState_def)
  have g: "GetTask (flow_db ?w) i = Some ?u" using assms(1) by (simp add: set_db_def GetTask_def)
  have r: "root_of ?u = i" "tParentTaskID ?u = None" "tID ?u = i" using assms(3,4) id by (auto simp: transition_row_def root_of_def split: option.splits if_splits)
  have "updateTask env i ''queued'' reason w = (reconcileRootTask (aF env) ''api:aggregate'' i ?w, AnsTask 200 (Some ?u))"
    using assms(1,2) v p c g r(3) by (simp add: updateTask_def)
  moreover have "reconcileRootTask (aF env) ''api:aggregate'' i ?w = reconcile_initiative (aF env) ?u ?w"
    using g r by (simp add: reconcileRootTask_def Let_def)
  ultimately show ?thesis using g by (simp add: set_db_def)
qed

text \<open>
  C29: an approval can be walked around. While a task waits for its approval, a plain update of the
  task to \<open>queued\<close> is accepted, since the transition table allows that step for the approval endpoint: the task
  leaves the waiting state without any decision, in no queue, the approval stays pending, and granting
  it afterwards is answered with an error.
\<close>

theorem patch_bypasses_the_approval:
  assumes "GetApproval (flow_db w) aid = Some ap" "aStatus ap = Pending" "GetTask (flow_db w) (aTaskID ap) = Some t"
    "tState t = WaitingApproval" and "root_of t = aTaskID ap" "tParentTaskID t = None"
    and "TrimSpace op \<noteq> []" "length (TrimSpace op) \<le> 128"
  shows "\<exists>w' u. updateTask env (aTaskID ap) ''queued'' reason w = (w', AnsTask 200 (Some u)) \<and> tState u = Queued \<and> wQ w' = wQ w \<and>
    GetApproval (flow_db w') aid = Some ap \<and> (\<exists>w'' m. resolveApproval env aid True op w' = (w'', AnsDetail 500 m))"
proof -
  obtain w' u where u: "updateTask env (aTaskID ap) ''queued'' reason w = (w', AnsTask 200 (Some u))" "tState u = Queued"
    "GetTask (flow_db w') (aTaskID ap) = Some u" "wQ w' = wQ w" "dbApprovals (flow_db w') = dbApprovals (flow_db w)"
    using update_waiting [OF assms(3-6)] by blast
  have g: "GetApproval (flow_db w') aid = Some ap" using assms(1) u(5) by (simp add: GetApproval_def)
  have "ResolveApproval x now aid True o' (flow_db w') = Inl (invalid_transition Queued Queued)" for x now o'
    using g assms(2) u(2,3) by (simp add: ResolveApproval_def Let_def IsValidTransition_def GetValidTransitions_def)
  moreover have "approval_error (invalid_transition Queued Queued) = AnsDetail 500 (invalid_transition Queued Queued)"
    by (simp add: approval_error_def invalid_transition_def approval_not_found_def approval_already_resolved_def)
  ultimately have "\<exists>w'' m. resolveApproval env aid True op w' = (w'', AnsDetail 500 m)"
    using assms(7,8) by (simp add: resolveApproval_def Let_def)
  with u g show ?thesis by blast
qed

text \<open>
  A granted approval can be lost. When the insertion into the queue fails after the approval was recorded, the
  answer is 503, the task is queued in the database and in no queue, and every later decision on the
  approval is refused as already taken.
\<close>

theorem approved_task_is_stranded:
  assumes "GetApproval (flow_db w) aid = Some ap" "aStatus ap = Pending" "GetTask (flow_db w) (aTaskID ap) = Some t"
    "tState t = WaitingApproval" and "tAssignedAgent t = Some agent" "tExecutionTarget t \<noteq> ExecutionTargetLocal"
    and "\<not> aEnqueueUp env" and "TrimSpace op \<noteq> []" "length (TrimSpace op) \<le> 128"
  shows "\<exists>w' u. resolveApproval env aid True op w = (w', AnsDetail 503 ''approval resolved but failed to enqueue task'') \<and>
    GetTask (flow_db w') (aTaskID ap) = Some u \<and> tState u = Queued \<and> wQ w' = wQ w \<and>
    (\<forall>env' approve op'. TrimSpace op' \<noteq> [] \<longrightarrow> length (TrimSpace op') \<le> 128 \<longrightarrow>
       (\<exists>w''. resolveApproval env' aid approve op' w' = (w'', AnsDetail 409 ''approval already resolved'') \<and> flow_db w'' = flow_db w'))"
proof -
  let ?k = "wN w" and ?f = "aF env"
  have v: "IsValidTransition WaitingApproval Queued" by (simp add: IsValidTransition_def GetValidTransitions_def)
  obtain d a u where r: "ResolveApproval (eUid ?f ?k) (eClk ?f ?k) aid True (TrimSpace op) (flow_db w) = Inr (d, a, Some u)"
    and u: "GetTask d (aTaskID ap) = Some u" "tState u = Queued" "tAssignedAgent u = Some agent" "tExecutionTarget u = tExecutionTarget t"
    and p: "\<exists>x. GetApproval d aid = Some x \<and> aStatus x \<noteq> Pending"
    using assms(1-6) v by (simp add: ResolveApproval_def Let_def GetTask_def GetApproval_def transition_row_def find_row_upd_same)
  have "resolveApproval env aid True op w = (set_db d 1 w, AnsDetail 503 ''approval resolved but failed to enqueue task'')"
    using assms(6-9) r u by (simp add: resolveApproval_def Let_def enqueue_approved_def)
  moreover have "\<exists>w''. resolveApproval env' aid approve op' (set_db d 1 w) = (w'', AnsDetail 409 ''approval already resolved'') \<and>
      flow_db w'' = flow_db (set_db d 1 w)" if "TrimSpace op' \<noteq> []" "length (TrimSpace op') \<le> 128" for env' approve op'
  proof -
    have "ResolveApproval y now aid approve z (flow_db (set_db d 1 w)) = Inl approval_already_resolved" for y now z
      using p by (auto simp: ResolveApproval_def set_db_def)
    moreover have "approval_error approval_already_resolved = AnsDetail 409 ''approval already resolved''"
      by (simp add: approval_error_def approval_not_found_def approval_already_resolved_def)
    ultimately show ?thesis using that by (simp add: resolveApproval_def Let_def)
  qed
  ultimately show ?thesis using u by (auto simp: set_db_def)
qed

section \<open>Witnesses\<close>

definition api_env0 :: api_env where
  "api_env0 = \<lparr>aF = sample_env, aDepthUp = True, aEnqueueUp = True, aRedisError = ''refused'', aMaxGlobal = 200, aMaxPerAgent = 50,
     aRetentionHours = 24, aRemove = (\<lambda>_. None)\<rparr>"

definition idle_flow :: flow where
  "idle_flow = \<lparr>wS = \<lparr>iDB = emptyDB, iInits = [], iReviews = [], iLinks = [], iArtifacts = []\<rparr>, wQ = emptyRedis, wN = 0\<rparr>"

definition ship :: create_body where
  "ship = \<lparr>cbDescription = ''ship it'', cbMetadata = None, cbAllowed = [], cbPriority = [], cbAgent = Some ''coder'', cbTarget = [],
     cbInitiative = None, cbPlanned = None\<rparr>"

lemma ship_passes: "check_body (api_env0\<lparr>aEnqueueUp := q\<rparr>) (normal_body ship) = Inr (''coder'', Some ''/o'')"
  by (simp add: check_body_def normal_body_def ship_def TrimSpace_solid solid_def visible_def isSupportedPriority_def
      isSupportedAgent_def agent_defs target_defs PriorityCritical_def PriorityHigh_def
      PriorityNormal_def PriorityLow_def classifyAgent_def workspacePath_def api_env0_def sample_env_def path_clean_def
      clean_step_def)

lemma idle_check: "create_check (api_env0\<lparr>aEnqueueUp := q\<rparr>) header ship idle_flow =
    Inr (create_params_of (normal_body ship) ''coder'' (key_of header) (Some ''/o''))"
proof -
  have k: "task_of_key x idle_flow = None" for x
    by (simp add: task_of_key_def idle_flow_def emptyDB_def GetTaskByIdempotencyKey_def split: option.split)
  have t: "cbTarget (normal_body ship) = ExecutionTargetRemote" by (simp add: normal_body_def ship_def)
  have "capacity_error (api_env0\<lparr>aEnqueueUp := q\<rparr>) ''coder'' idle_flow = None"
    by (simp add: capacity_error_def api_env0_def idle_flow_def TotalQueueDepth_def QueueDepth_def emptyRedis_def ZCard_def)
  then show ?thesis by (simp add: create_check_def Let_def ship_passes k)
qed

lemma idle_fresh: "GetTask (flow_db idle_flow) i = None" "task_of_key k idle_flow = None"
  by (simp_all add: idle_flow_def emptyDB_def GetTask_def task_of_key_def GetTaskByIdempotencyKey_def split: option.split)

lemma api_env0_simps [simp]:
  "aF (api_env0\<lparr>aEnqueueUp := q\<rparr>) = sample_env" "api_env0\<lparr>aEnqueueUp := True\<rparr> = api_env0" "aEnqueueUp api_env0" "aF api_env0 = sample_env"
  by (simp_all add: api_env0_def)

lemma ship_simps [simp]:
  "wN idle_flow = 0" "cbTarget (normal_body ship) = ExecutionTargetRemote" "cbPriority (normal_body ship) = PriorityNormal"
  "ExecutionTargetRemote \<noteq> ExecutionTargetLocal"
  by (simp_all add: idle_flow_def normal_body_def ship_def target_defs)

theorem creation_queues_the_task_witness:
  "\<exists>w' u. createTask api_env0 [] ship idle_flow = (w', AnsTask 201 (Some u)) \<and> tState u = Queued \<and> queued_for (tID u) ''coder'' w'"
proof -
  have c: "create_check api_env0 [] ship idle_flow = Inr (create_params_of (normal_body ship) ''coder'' None (Some ''/o''))"
    using idle_check [of True "[]"] by (simp add: key_of_def)
  let ?p = "create_params_of (normal_body ship) ''coder'' None (Some ''/o'')"
  obtain w' a u n where w': "create_commit api_env0 ?p idle_flow = (w', a)" "GetTask (flow_db w') (eUid sample_env 0) = Some u"
    "a = AnsTask 201 (Some u)" "wQ w' = EnqueueTask (eFl sample_env) n (eUid sample_env 0) ''coder'' PriorityNormal (wQ idle_flow)"
    using create_commit_effect [of ?p idle_flow api_env0] idle_fresh by auto
  then have c': "createTask api_env0 [] ship idle_flow = (w', AnsTask 201 (Some u))" by (simp add: createTask_def c)
  have q: "queued_for (eUid sample_env 0) ''coder'' w'" using w'(4) by (simp add: queued_for_def EnqueueTask_def ZAdd_def)
  have "tID u = eUid sample_env 0" using w'(2) find_row_SomeD by (fastforce simp: GetTask_def)
  moreover have "tState u = Queued" using creation_queues_the_task [OF c'] idle_fresh by auto
  ultimately show ?thesis using c' q by auto
qed

theorem creation_respects_the_capacity_witness:
  "\<exists>w' a. createTask api_env0 [] ship idle_flow = (w', a) \<and> TotalQueueDepth (wQ w') \<le> 200"
proof -
  obtain w' a where w': "createTask api_env0 [] ship idle_flow = (w', a)" by fastforce
  have "TotalQueueDepth (wQ idle_flow) = 0"
    by (simp add: idle_flow_def TotalQueueDepth_def QueueDepth_def emptyRedis_def ZCard_def)
  with creation_respects_the_capacity [OF w'] w' show ?thesis by (auto simp: api_env0_def)
qed

lemma key_of_k1: "key_of ''k1'' = Some ''k1''"
  by (simp add: key_of_def TrimSpace_solid solid_def visible_def)

theorem lost_enqueue_is_replayed_witness:
  "\<exists>w' m u. createTask (api_env0\<lparr>aEnqueueUp := False\<rparr>) ''k1'' ship idle_flow = (w', AnsDetail 503 m) \<and>
     createTask api_env0 ''k1'' ship w' = (w', AnsTask 201 (Some u)) \<and> tState u = Cancelled"
proof -
  let ?p = "create_params_of (normal_body ship) ''coder'' (Some ''k1'') (Some ''/o'')"
  have e: "\<not> aEnqueueUp (api_env0\<lparr>aEnqueueUp := False\<rparr>)" by simp
  have t: "pExecutionTarget ?p \<noteq> ExecutionTargetLocal" by (simp add: normal_body_def ship_def target_defs)
  obtain w' where w': "createTask (api_env0\<lparr>aEnqueueUp := False\<rparr>) ''k1'' ship idle_flow = (w', AnsDetail 503 ''failed to enqueue task'')"
    using create_commit_effect [of ?p idle_flow "api_env0\<lparr>aEnqueueUp := False\<rparr>"] idle_fresh e t
    by (auto simp: createTask_def idle_check key_of_k1)
  have c: "check_body api_env0 (normal_body ship) = Inr (''coder'', Some ''/o'')" using ship_passes [of True] by simp
  from lost_enqueue_is_replayed [OF w' idle_fresh(1) key_of_k1 idle_fresh(2) c] w' show ?thesis by blast
qed

theorem concurrent_creations_share_a_key_witness:
  "\<exists>p w1 w2 t u. create_check api_env0 ''k1'' ship idle_flow = Inr p \<and>
     create_commit api_env0 p idle_flow = (w1, AnsTask 201 (Some t)) \<and> create_commit api_env0 p w1 = (w2, AnsTask 201 (Some u)) \<and>
     tID t \<noteq> tID u \<and> tIdempotencyKey t = tIdempotencyKey u"
proof -
  have c: "create_check api_env0 ''k1'' ship idle_flow = Inr (create_params_of (normal_body ship) ''coder'' (Some ''k1'') (Some ''/o''))"
    using idle_check [of True "''k1''"] by (simp add: key_of_k1)
  have i: "inj (eUid (aF api_env0))" by (auto simp: sample_env_def inj_on_def dest: arg_cong [of _ _ length])
  have f: "\<forall>n \<ge> wN idle_flow. GetTask (flow_db idle_flow) (eUid (aF api_env0) n) = None" by (simp add: idle_fresh)
  have e: "aEnqueueUp api_env0" by simp
  from concurrent_creations_share_a_key [OF c c key_of_k1 i f e] c show ?thesis by force
qed

definition waiting_flow :: flow where
  "waiting_flow = idle_flow\<lparr>wS := (wS idle_flow)\<lparr>iDB := (sample_db WaitingApproval)\<lparr>dbApprovals := [sample_approval]\<rparr>\<rparr>\<rparr>"

lemma waiting_flow_rows:
  "GetApproval (flow_db waiting_flow) ''a1'' = Some sample_approval" "aStatus sample_approval = Pending"
  "GetTask (flow_db waiting_flow) (aTaskID sample_approval) = Some (sample_task WaitingApproval)"
  "tState (sample_task WaitingApproval) = WaitingApproval"
  by (simp_all add: waiting_flow_def idle_flow_def GetApproval_def sample_approval_def GetTask_def)

lemma operator_ok: "TrimSpace ''op'' \<noteq> []" "length (TrimSpace ''op'') \<le> 128"
  by (simp_all add: TrimSpace_solid solid_def visible_def)

theorem patch_bypasses_the_approval_witness:
  "\<exists>w' u. updateTask api_env0 ''t1'' ''queued'' None waiting_flow = (w', AnsTask 200 (Some u)) \<and> tState u = Queued \<and>
     GetApproval (flow_db w') ''a1'' = Some sample_approval"
proof -
  have r: "root_of (sample_task WaitingApproval) = aTaskID sample_approval" "tParentTaskID (sample_task WaitingApproval) = None"
    by (simp_all add: root_of_def sample_task_def create_row_def sample_params_def sample_approval_def TrimSpace_solid solid_def visible_def)
  have i: "aTaskID sample_approval = ''t1''" by (simp add: sample_approval_def)
  from patch_bypasses_the_approval [OF waiting_flow_rows r operator_ok, of api_env0 None] show ?thesis unfolding i by blast
qed

theorem approved_task_is_stranded_witness:
  "\<exists>w' u. resolveApproval (api_env0\<lparr>aEnqueueUp := False\<rparr>) ''a1'' True ''op'' waiting_flow =
       (w', AnsDetail 503 ''approval resolved but failed to enqueue task'') \<and>
     GetTask (flow_db w') ''t1'' = Some u \<and> tState u = Queued \<and> wQ w' = emptyRedis"
proof -
  have a: "tAssignedAgent (sample_task WaitingApproval) = Some (pAssignedAgent sample_params)"
    "tExecutionTarget (sample_task WaitingApproval) \<noteq> ExecutionTargetLocal"
    by (simp_all add: sample_task_def create_row_def sample_params_def target_defs)
  have e: "\<not> aEnqueueUp (api_env0\<lparr>aEnqueueUp := False\<rparr>)" by simp
  have i: "aTaskID sample_approval = ''t1''" "wQ waiting_flow = emptyRedis" by (simp_all add: sample_approval_def waiting_flow_def idle_flow_def)
  from approved_task_is_stranded [OF waiting_flow_rows a e operator_ok] show ?thesis unfolding i by blast
qed

end
