(* ===== verification/Task_Trees.thy ===== *)
theory Task_Trees
  imports Task_Api Go_Paths
begin

text \<open>
  The tree endpoint and the cleanup of workspaces: what the tree shows depends on the order in which the map of its
  nodes is walked, and a cleanup removes nothing outside the configured directory.
\<close>

section \<open>Trees\<close>

primrec tree_ids :: "task_tree \<Rightarrow> string set" where
  "tree_ids (TaskTree t cs) = insert (tID t) (\<Union> (set (map tree_ids cs)))"

text \<open>A chain of parents from \<open>g\<close> up to \<open>i\<close>, listed from below.\<close>

fun parent_chain :: "task list \<Rightarrow> string list \<Rightarrow> bool" where
  "parent_chain items [] = False"
| "parent_chain items [i] = True"
| "parent_chain items (g # p # rest) =
     ((case find_row tID g items of None \<Rightarrow> False | Some t \<Rightarrow> tParentTaskID t = Some p \<and> p \<noteq> []) \<and>
      find_row tID p items \<noteq> None \<and> parent_chain items (p # rest))"

definition shown :: "task list \<Rightarrow> string list \<Rightarrow> string \<Rightarrow> string \<Rightarrow> bool" where
  "shown items order g i \<longleftrightarrow>
     (\<exists>path. parent_chain items path \<and> hd path = g \<and> last path = i \<and> subseq (butlast path) order)"

lemma parent_chain_snoc:
  "xs \<noteq> [] \<Longrightarrow> parent_chain items (xs @ [p]) \<longleftrightarrow> parent_chain items xs \<and> p \<noteq> [] \<and> find_row tID p items \<noteq> None \<and>
     (case find_row tID (last xs) items of None \<Rightarrow> False | Some t \<Rightarrow> tParentTaskID t = Some p)"
proof (induction items xs rule: parent_chain.induct)
  case (2 items i)
  then show ?case by (auto split: option.split)
next
  case (3 items g p rest)
  then show ?case by auto
qed simp

lemma shown_self: "shown items order i i"
  unfolding shown_def by (rule exI [of _ "[i]"]) simp

lemma shown_Nil: "shown items [] g i \<longleftrightarrow> g = i"
proof
  assume "shown items [] g i"
  then obtain path where p: "parent_chain items path" "hd path = g" "last path = i" "butlast path = []"
    by (auto simp: shown_def)
  then show "g = i" by (cases "(items, path)" rule: parent_chain.cases) auto
qed (simp add: shown_self)

lemma subseq_snoc: "subseq ys (xs @ [x]) \<longleftrightarrow> subseq ys xs \<or> (\<exists>zs. ys = zs @ [x] \<and> subseq zs xs)"
proof
  assume "subseq ys (xs @ [x])"
  then obtain us vs where "ys = us @ vs" "subseq us xs" "subseq vs [x]" by (auto elim: subseq_appendE)
  moreover have "vs = [] \<or> vs = [x]" using \<open>subseq vs [x]\<close> by (cases vs) (auto simp: subseq_singleton_left split: if_splits)
  ultimately show "subseq ys xs \<or> (\<exists>zs. ys = zs @ [x] \<and> subseq zs xs)" by auto
qed (auto intro: subseq_rev_drop_many)

definition parent_in :: "task list \<Rightarrow> string \<Rightarrow> string \<Rightarrow> bool" where
  "parent_in items x p \<longleftrightarrow> p \<noteq> [] \<and> find_row tID p items \<noteq> None \<and>
     (case find_row tID x items of None \<Rightarrow> False | Some t \<Rightarrow> tParentTaskID t = Some p)"

lemma shown_snoc: "shown items (order @ [x]) g i \<longleftrightarrow> shown items order g i \<or> (parent_in items x i \<and> shown items order g x)"
proof
  assume "shown items (order @ [x]) g i"
  then obtain path where p: "parent_chain items path" "hd path = g" "last path = i" "subseq (butlast path) (order @ [x])"
    by (auto simp: shown_def)
  from p(4) [unfolded subseq_snoc] show "shown items order g i \<or> (parent_in items x i \<and> shown items order g x)"
  proof
    assume "subseq (butlast path) order"
    with p show ?thesis by (auto simp: shown_def)
  next
    assume "\<exists>zs. butlast path = zs @ [x] \<and> subseq zs order"
    then obtain zs where zs: "butlast path = zs @ [x]" "subseq zs order" by blast
    have "path \<noteq> []" using p(1) by auto
    then have path: "path = (zs @ [x]) @ [i]" using zs(1) p(3) append_butlast_last_id by metis
    then have "parent_chain items (zs @ [x])" "parent_in items x i"
      using p(1) parent_chain_snoc [of "zs @ [x]" items i] by (simp_all add: parent_in_def)
    moreover have "hd (zs @ [x]) = g" using p(2) path by (cases zs) auto
    ultimately have "shown items order g x" unfolding shown_def using zs(2) by (intro exI [of _ "zs @ [x]"]) simp
    with \<open>parent_in items x i\<close> show ?thesis by simp
  qed
next
  assume "shown items order g i \<or> (parent_in items x i \<and> shown items order g x)"
  then show "shown items (order @ [x]) g i"
  proof
    assume "shown items order g i"
    then show ?thesis by (auto simp: shown_def intro: subseq_rev_drop_many)
  next
    assume a: "parent_in items x i \<and> shown items order g x"
    then obtain path where p: "parent_chain items path" "hd path = g" "last path = x" "subseq (butlast path) order"
      by (auto simp: shown_def)
    have ne: "path \<noteq> []" using p(1) by auto
    have "parent_chain items (path @ [i])" using a p(1,3) ne by (simp add: parent_chain_snoc parent_in_def)
    moreover have "subseq path (order @ [x])"
      using p(3,4) ne append_butlast_last_id [OF ne] by (metis subseq_snoc)
    ultimately show ?thesis using p(2) ne unfolding shown_def by (intro exI [of _ "path @ [i]"]) simp
  qed
qed

lemma tree_ids_unfold: "tree_ids n = insert (tID (tree_task n)) (\<Union> (tree_ids ` set (tree_children n)))"
  by (cases n) simp

lemma build_tree_nodes:
  "(build_tree items order i = None \<longleftrightarrow> find_row tID i items = None) \<and>
   (\<forall>t. find_row tID i items = Some t \<longrightarrow>
      (\<exists>n. build_tree items order i = Some n \<and> tree_task n = t \<and> tree_ids n = {g. shown items order g i}))"
proof (induction order arbitrary: i rule: rev_induct)
  case Nil
  show ?case
    by (auto simp: build_tree_def shown_Nil dest: find_row_SomeD split: option.splits)
next
  case (snoc x order)
  let ?n = "build_tree items order"
  have step: "build_tree items (order @ [x]) = tree_step x ?n" by (simp add: build_tree_def)
  have p: "parent_in items x i \<longleftrightarrow> i \<noteq> [] \<and> ?n i \<noteq> None \<and> (\<exists>m. ?n x = Some m \<and> tParentTaskID (tree_task m) = Some i)"
    using snoc.IH [of i] snoc.IH [of x] by (auto simp: parent_in_def split: option.splits)
  show ?case
  proof (cases "parent_in items x i")
    case True
    then obtain m k where m: "?n x = Some m" "tParentTaskID (tree_task m) = Some i" "?n i = Some k" "i \<noteq> []"
      using p by auto
    then have s: "tree_step x ?n i = Some (TaskTree (tree_task k) (tree_children k @ [m]))"
      by (simp add: tree_step_def)
    obtain t where t: "find_row tID i items = Some t" "tree_task k = t" "tree_ids k = {g. shown items order g i}"
      using snoc.IH [of i] m(3) by auto
    have "tree_ids m = {g. shown items order g x}" using snoc.IH [of x] m(1) by (cases "find_row tID x items") auto
    moreover have "tree_ids (TaskTree (tree_task k) (tree_children k @ [m])) = tree_ids k \<union> tree_ids m"
      by (subst (2) tree_ids_unfold) auto
    ultimately show ?thesis using True s t step by (auto simp: shown_snoc)
  next
    case False
    then have "tree_step x ?n i = ?n i"
      using p by (auto simp: tree_step_def split: option.splits)
    with False snoc.IH [of i] step show ?thesis by (simp add: shown_snoc)
  qed
qed

lemma keyed_ListByRoot: "keyed tID (dbTasks d) \<Longrightarrow> keyed tID (ListByRoot d r)"
  unfolding ListByRoot_def by (metis distinct_map_filter mset_map mset_sort_by mset_eq_imp_distinct_iff)

section \<open>The tree\<close>

text \<open>
  C30: the tree of a task shows exactly those descendants whose chain of parents up to the task is
  met from below by the walk over the map, so that a descendant is missing whenever one of the tasks
  between it and the root was walked before it. Go walks a map in a random order: the direct children that
  are walked are always shown, deeper tasks by chance.
\<close>

theorem tree_shows_upward_chains:
  assumes "GetTask (flow_db w) i = Some t" and "tRootTaskID t = Some r" "r \<noteq> []" and "keyed tID (dbTasks (flow_db w))"
  shows "\<exists>n. getTaskTree order i w = AnsTree n \<and> tree_task n = t \<and>
    tree_ids n = {g. shown (ListByRoot (flow_db w) r) order g i} \<and>
    (\<forall>x \<in> set order. parent_in (ListByRoot (flow_db w) r) x i \<longrightarrow> x \<in> tree_ids n)"
proof -
  let ?items = "ListByRoot (flow_db w) r"
  have m: "t \<in> set (dbTasks (flow_db w))" "tID t = i" using assms(1) find_row_SomeD by (fastforce simp: GetTask_def)+
  then have "t \<in> set ?items" using assms(2) by (simp add: ListByRoot_def)
  then have "find_row tID i ?items = Some t" using find_row_keyed [OF keyed_ListByRoot [OF assms(4)], of t r] m(2) by simp
  then obtain n where n: "build_tree ?items order i = Some n" "tree_task n = t" "tree_ids n = {g. shown ?items order g i}"
    using build_tree_nodes [of ?items order i] by auto
  moreover have "shown ?items order x i" if "x \<in> set order" "parent_in ?items x i" for x
    unfolding shown_def using that
    by (intro exI [of _ "[x, i]"]) (auto simp: parent_in_def subseq_singleton_left split: option.splits)
  ultimately show ?thesis using assms(1-3) by (simp add: getTaskTree_def Let_def)
qed

definition family_task :: "string \<Rightarrow> string option \<Rightarrow> task" where
  "family_task i p = (sample_task InProgress)\<lparr>tID := i, tParentTaskID := p, tRootTaskID := Some ''r''\<rparr>"

definition family :: flow where
  "family = \<lparr>wS = \<lparr>iDB = emptyDB\<lparr>dbTasks := [family_task ''r'' None, family_task ''c'' (Some ''r''), family_task ''g'' (Some ''c'')]\<rparr>,
     iInits = [], iReviews = [], iLinks = [], iArtifacts = []\<rparr>, wQ = emptyRedis, wN = 0\<rparr>"

text \<open>The witness: the grandchild is lost when the child is walked first, and shown in the other order.\<close>

theorem tree_shows_upward_chains_witness:
  "(\<exists>n. getTaskTree [''c'', ''g'', ''r''] ''r'' family = AnsTree n \<and> tree_ids n = {''r'', ''c''}) \<and>
   (\<exists>n. getTaskTree [''g'', ''c'', ''r''] ''r'' family = AnsTree n \<and> tree_ids n = {''r'', ''c'', ''g''})"
proof -
  let ?items = "ListByRoot (flow_db family) ''r''"
  have simps: "tID (family_task i p) = i" "tParentTaskID (family_task i p) = p" "tRootTaskID (family_task i p) = Some ''r''" for i p
    by (simp_all add: family_task_def)
  have g: "GetTask (flow_db family) ''r'' = Some (family_task ''r'' None)" by (simp add: family_def GetTask_def simps)
  have k: "keyed tID (dbTasks (flow_db family))" by (simp add: family_def simps)
  have items: "set ?items = {family_task ''r'' None, family_task ''c'' (Some ''r''), family_task ''g'' (Some ''c'')}"
    by (auto simp: ListByRoot_def family_def simps)
  note ki = keyed_ListByRoot [OF k, of "''r''"]
  have f: "find_row tID ''r'' ?items = Some (family_task ''r'' None)" "find_row tID ''c'' ?items = Some (family_task ''c'' (Some ''r''))"
    "find_row tID ''g'' ?items = Some (family_task ''g'' (Some ''c''))"
    using find_row_keyed [OF ki, of "family_task ''r'' None"] find_row_keyed [OF ki, of "family_task ''c'' (Some ''r'')"]
      find_row_keyed [OF ki, of "family_task ''g'' (Some ''c'')"] by (simp_all add: items simps)
  have p: "parent_in ?items ''c'' q \<longleftrightarrow> q = ''r''" "parent_in ?items ''g'' q \<longleftrightarrow> q = ''c''" "\<not> parent_in ?items ''r'' q" for q
    by (auto simp: parent_in_def f simps)
  note th = tree_shows_upward_chains [OF g simps(3) _ k]
  have "{x. shown ?items [''c'', ''g'', ''r''] x ''r''} = {''r'', ''c''}"
    using shown_snoc [of ?items "[''c'', ''g'']" "''r''"] shown_snoc [of ?items "[''c'']" "''g''"] shown_snoc [of ?items "[]" "''c''"]
    by (auto simp: p shown_Nil)
  moreover have "{x. shown ?items [''g'', ''c'', ''r''] x ''r''} = {''r'', ''c'', ''g''}"
    using shown_snoc [of ?items "[''g'', ''c'']" "''r''"] shown_snoc [of ?items "[''g'']" "''c''"] shown_snoc [of ?items "[]" "''g''"]
    by (auto simp: p shown_Nil)
  ultimately show ?thesis using th [of "[''c'', ''g'', ''r'']"] th [of "[''g'', ''c'', ''r'']"] by auto
qed

section \<open>Cleaning up\<close>

definition eligible :: "instant \<Rightarrow> string \<Rightarrow> db \<Rightarrow> string \<Rightarrow> bool" where
  "eligible cutoff base d p \<longleftrightarrow> below_base base p \<and>
     (\<exists>t \<in> set (dbTasks d). IsTerminalState (tState t) \<and> (\<exists>c. tCompletedAt t = Some c \<and> c < cutoff) \<and>
        path_clean (TrimSpace (derefString (tWorkspacePath t))) = p)"

lemma cleanup_one_removes:
  assumes "base \<noteq> []"
  shows "clRemoved (cleanup_one env base t c) = clRemoved c \<or>
    (below_base base (path_clean (TrimSpace (derefString (tWorkspacePath t)))) \<and>
     clRemoved (cleanup_one env base t c) = clRemoved c @ [path_clean (TrimSpace (derefString (tWorkspacePath t)))])"
  using assms by (simp add: cleanup_one_def Let_def split: option.split)

lemma cleanup_fold:
  assumes "\<forall>t \<in> set ts. t \<in> set (ListWorkspaceCleanupCandidates d cutoff limit)" and "base \<noteq> []"
    and "\<forall>p \<in> set (clRemoved c). eligible cutoff base d p"
  shows "\<forall>p \<in> set (clRemoved (fold (cleanup_one env base) ts c)). eligible cutoff base d p"
  using assms
proof (induction ts arbitrary: c)
  case (Cons t ts)
  have t: "t \<in> set (dbTasks d)" "IsTerminalState (tState t)" "\<exists>e. tCompletedAt t = Some e \<and> e < cutoff"
    using Cons.prems(1)
    by (auto simp: ListWorkspaceCleanupCandidates_def Let_def IsTerminalState_def terminalStates_def split: option.splits dest!: in_set_takeD)
  have "\<forall>p \<in> set (clRemoved (cleanup_one env base t c)). eligible cutoff base d p"
  proof -
    let ?p = "path_clean (TrimSpace (derefString (tWorkspacePath t)))"
    have "eligible cutoff base d ?p" if "below_base base ?p" using that t unfolding eligible_def by blast
    then show ?thesis using cleanup_one_removes [OF Cons.prems(2), of env t c] Cons.prems(3) by auto
  qed
  with Cons show ?case by simp
qed simp

text \<open>
  C27: with an absolute workspace root, every directory that a cleanup removes is that root or lies
  below it without any step upwards, whatever paths the rows hold, and it is the workspace of a task in
  a terminal state that was completed before the retention time.
\<close>

theorem cleanup_stays_below_the_root:
  assumes "cleanupWorkspaces env w = (c, a)" and "base = path_clean (TrimSpace (eRoot (aF env)))" "hd base = CHR ''/''"
    and "p \<in> set (clRemoved c)"
  shows "(p = base \<or> HasPrefix p (base @ ''/'')) \<and> ''..'' \<notin> set (split_on CHR ''/'' p) \<and>
    (\<exists>t \<in> set (dbTasks (flow_db w)). IsTerminalState (tState t) \<and>
       (\<exists>e. tCompletedAt t = Some e \<and> e < eClk (aF env) (wN w) + wrap64 (- aRetentionHours env * hour)) \<and>
       path_clean (TrimSpace (derefString (tWorkspacePath t))) = p)"
proof -
  let ?cutoff = "eClk (aF env) (wN w) + wrap64 (- aRetentionHours env * hour)"
  let ?c = "\<lparr>clFlow = w\<lparr>wN := wN w + 1\<rparr>, clRemoved = [], clErrors = [], clCount = 0\<rparr>"
  have ne: "base \<noteq> []" using assms(2) path_clean_nonempty by simp
  have "c = fold (cleanup_one env base) (ListWorkspaceCleanupCandidates (flow_db w) ?cutoff 100) ?c"
    using assms(1,2) by (simp add: cleanupWorkspaces_def Let_def)
  then have e: "eligible ?cutoff base (flow_db w) p"
    using cleanup_fold [of "ListWorkspaceCleanupCandidates (flow_db w) ?cutoff 100" "flow_db w" ?cutoff 100 base ?c env] ne assms(4)
    by simp
  then obtain q where q: "p = path_clean q" by (auto simp: eligible_def)
  have "hd p = CHR ''/''" using e ne assms(3) by (auto simp: eligible_def below_base_def HasPrefix_iff prefix_def)
  then have "''..'' \<notin> set (split_on CHR ''/'' p)" unfolding q by (intro rooted_clean_path path_clean_nonempty)
  with e show ?thesis by (auto simp: eligible_def below_base_def)
qed

definition old_workspace :: flow where
  "old_workspace = family\<lparr>wS := (wS family)\<lparr>iDB := emptyDB\<lparr>dbTasks := [(done_at ''t1'' (- 1))\<lparr>tWorkspacePath := Some ''/w/x/../t1''\<rparr>]\<rparr>\<rparr>\<rparr>"

definition cleanup_env :: api_env where
  "cleanup_env = \<lparr>aF = sample_env\<lparr>eRoot := ''/w/''\<rparr>, aDepthUp = True, aEnqueueUp = True, aRedisError = [], aMaxGlobal = 200, aMaxPerAgent = 50,
     aRetentionHours = 0, aRemove = (\<lambda>_. None)\<rparr>"

theorem cleanup_stays_below_the_root_witness:
  "\<exists>c a. cleanupWorkspaces cleanup_env old_workspace = (c, a) \<and> clRemoved c = [''/w/t1''] \<and> HasPrefix ''/w/t1'' ''/w/''"
proof -
  have b: "TrimSpace ''/w/'' = ''/w/''" "TrimSpace ''/w/x/../t1'' = ''/w/x/../t1''"
    by (simp_all add: TrimSpace_solid solid_def visible_def)
  have p: "path_clean ''/w/'' = ''/w''" "path_clean ''/w/x/../t1'' = ''/w/t1''" by (simp_all add: path_clean_def clean_step_def)
  have r: "''/w'' = path_clean (TrimSpace (eRoot (aF cleanup_env)))" by (simp add: cleanup_env_def b p)
  obtain c a where c: "cleanupWorkspaces cleanup_env old_workspace = (c, a)" by fastforce
  have l: "ListWorkspaceCleanupCandidates (emptyDB\<lparr>dbTasks := [(done_at ''t1'' (- 1))\<lparr>tWorkspacePath := Some ''/w/x/../t1''\<rparr>]\<rparr>) 0 100 =
      [(done_at ''t1'' (- 1))\<lparr>tWorkspacePath := Some ''/w/x/../t1''\<rparr>]"
    by (simp add: ListWorkspaceCleanupCandidates_def done_at_id)
  have "clRemoved c = [''/w/t1'']"
    using c l by (auto simp: cleanupWorkspaces_def Let_def cleanup_env_def old_workspace_def family_def sample_env_def wrap64_def
        cleanup_one_def b p derefString_def below_base_def HasPrefix_def)
  with cleanup_stays_below_the_root [OF c r, of "''/w/t1''"] c show ?thesis by auto
qed

section \<open>The shared root\<close>

lemma fold_cleanup_removes:
  assumes "t \<in> set ts" "path_clean (TrimSpace (derefString (tWorkspacePath t))) = base" "TrimSpace (derefString (tWorkspacePath t)) \<noteq> []"
    and "aRemove env base = None"
  shows "base \<in> set (clRemoved (fold (cleanup_one env base) ts c))"
proof -
  have keeps: "base \<in> set (clRemoved (fold (cleanup_one env base) us k))" if "base \<in> set (clRemoved k)" for us k
    using that
  proof (induction us arbitrary: k)
    case (Cons u us)
    have "base \<in> set (clRemoved (cleanup_one env base u k))"
      using Cons.prems by (auto simp: cleanup_one_def Let_def split: option.split)
    from Cons.IH [OF this] show ?case by simp
  qed simp
  obtain xs ys where ts: "ts = xs @ t # ys" using assms(1) split_list by metis
  have "base \<in> set (clRemoved (cleanup_one env base t k))" for k
    using assms(2-4) by (simp add: cleanup_one_def Let_def below_base_def)
  then have "base \<in> set (clRemoved (fold (cleanup_one env base) ys (cleanup_one env base t k)))" for k by (rule keeps)
  then show ?thesis unfolding ts by simp
qed

lemma fold_cleanup_others:
  assumes "\<forall>t \<in> set ts. tID t \<noteq> j"
  shows "GetTask (flow_db (clFlow (fold (cleanup_one env base) ts c))) j = GetTask (flow_db (clFlow c)) j"
  using assms
proof (induction ts arbitrary: c)
  case (Cons t ts)
  have "GetTask (flow_db (clFlow (cleanup_one env base t c))) j = GetTask (flow_db (clFlow c)) j"
    using Cons.prems by (simp add: cleanup_one_def Let_def set_db_def ClearWorkspacePath_def GetTask_def find_row_upd_other split: option.split)
  with Cons show ?case by simp
qed simp

lemma created_workspace:
  assumes "create_check env header b w = Inr p" "pExecutionTarget p \<noteq> ExecutionTargetLocal" "TrimSpace (eRoot (aF env)) \<noteq> []"
  shows "pWorkspacePath p = Some (path_clean (TrimSpace (eRoot (aF env))))"
  using assms
  by (auto simp: create_check_def check_body_def workspacePath_def create_params_of_def Let_def
      split: sum.splits option.splits if_splits prod.splits)

text \<open>
  C28: a cleanup deletes the working directory of running tasks. Every remote task is given the workspace root
  itself as its workspace, and a cleanup may remove the root: once one such task is finished for longer than
  the retention time the whole root is deleted, while the rows of the tasks that run in it are
  left as they are.
\<close>

theorem cleanup_removes_the_shared_root:
  assumes "create_check env header b w0 = Inr p" "pExecutionTarget p \<noteq> ExecutionTargetLocal"
    and "eRoot (aF env) = base" "TrimSpace base = base" "path_clean base = base" "base \<noteq> []" "aRemove env base = None"
    and "t \<in> set (ListWorkspaceCleanupCandidates (flow_db w) (eClk (aF env) (wN w) + wrap64 (- aRetentionHours env * hour)) 100)"
    and "tWorkspacePath t = pWorkspacePath p"
    and "keyed tID (dbTasks (flow_db w))" "GetTask (flow_db w) j = Some u" "\<not> IsTerminalState (tState u)" "tWorkspacePath u = pWorkspacePath p"
    and "cleanupWorkspaces env w = (c, a)"
  shows "base \<in> set (clRemoved c) \<and> GetTask (flow_db (clFlow c)) j = Some u \<and> tWorkspacePath u = Some base"
proof -
  let ?ts = "ListWorkspaceCleanupCandidates (flow_db w) (eClk (aF env) (wN w) + wrap64 (- aRetentionHours env * hour)) 100"
  have p: "pWorkspacePath p = Some base" using created_workspace [OF assms(1,2)] assms(3-6) by simp
  have c: "c = fold (cleanup_one env base) ?ts \<lparr>clFlow = w\<lparr>wN := wN w + 1\<rparr>, clRemoved = [], clErrors = [], clCount = 0\<rparr>"
    using assms(3-5,14) by (simp add: cleanupWorkspaces_def Let_def)
  have "base \<in> set (clRemoved c)"
    unfolding c using assms(4-9) p by (intro fold_cleanup_removes [of t]) (auto simp: derefString_def)
  moreover have "\<forall>x \<in> set ?ts. tID x \<noteq> j"
  proof
    fix x assume "x \<in> set ?ts"
    then have x: "x \<in> set (dbTasks (flow_db w))" "IsTerminalState (tState x)"
      by (auto simp: ListWorkspaceCleanupCandidates_def Let_def IsTerminalState_def terminalStates_def dest!: in_set_takeD)
    show "tID x \<noteq> j"
      using find_row_keyed [OF assms(10) x(1)] x(2) assms(11,12) by (auto simp: GetTask_def)
  qed
  then have "GetTask (flow_db (clFlow c)) j = Some u"
    unfolding c using fold_cleanup_others assms(11) by simp
  ultimately show ?thesis using p assms(13) by simp
qed

definition shared_root :: flow where
  "shared_root = family\<lparr>wS := (wS family)\<lparr>iDB := emptyDB\<lparr>dbTasks :=
     [done_at ''t1'' (- 1), (sample_task InProgress)\<lparr>tID := ''t2'', tWorkspacePath := Some ''/w''\<rparr>]\<rparr>\<rparr>\<rparr>"

definition shared_env :: api_env where
  "shared_env = cleanup_env\<lparr>aF := sample_env\<lparr>eRoot := ''/w''\<rparr>\<rparr>"

definition some_work :: create_body where
  "some_work = \<lparr>cbDescription = ''ship it'', cbMetadata = None, cbAllowed = [], cbPriority = ''normal'', cbAgent = Some ''coder'',
     cbTarget = ''remote'', cbInitiative = None, cbPlanned = None\<rparr>"

theorem cleanup_removes_the_shared_root_witness:
  "\<exists>c a u. cleanupWorkspaces shared_env shared_root = (c, a) \<and> ''/w'' \<in> set (clRemoved c) \<and>
     GetTask (flow_db (clFlow c)) ''t2'' = Some u \<and> tState u = InProgress"
proof -
  have r: "eRoot (aF shared_env) = ''/w''" "TrimSpace ''/w'' = ''/w''"
    by (simp_all add: shared_env_def TrimSpace_solid solid_def visible_def)
  have p: "path_clean ''/w'' = ''/w''" by (simp add: path_clean_def clean_step_def)
  obtain q where q: "create_check shared_env [] some_work shared_root = Inr q" "pExecutionTarget q \<noteq> ExecutionTargetLocal"
  proof -
    have "normal_body some_work = some_work\<lparr>cbMetadata := Some Map.empty\<rparr>"
      by (simp add: normal_body_def some_work_def TrimSpace_solid solid_def visible_def)
    moreover have "check_body shared_env (some_work\<lparr>cbMetadata := Some Map.empty\<rparr>) = Inr (''coder'', Some ''/w'')"
      using r p by (simp add: check_body_def some_work_def isSupportedPriority_def isSupportedAgent_def agent_defs target_defs
          PriorityCritical_def PriorityHigh_def PriorityNormal_def PriorityLow_def classifyAgent_def workspacePath_def)
    moreover have "capacity_error shared_env ''coder'' shared_root = None"
      by (simp add: capacity_error_def shared_env_def cleanup_env_def shared_root_def family_def TotalQueueDepth_def QueueDepth_def
          emptyRedis_def ZCard_def)
    moreover have "key_of [] = None" by (simp add: key_of_def)
    ultimately show ?thesis
      using that by (auto simp: create_check_def Let_def task_of_key_def some_work_def target_defs create_params_of_def)
  qed
  let ?cut = "eClk (aF shared_env) (wN shared_root) + wrap64 (- aRetentionHours shared_env * hour)"
  have l: "done_at ''t1'' (- 1) \<in> set (ListWorkspaceCleanupCandidates (flow_db shared_root) ?cut 100)"
    by (simp add: ListWorkspaceCleanupCandidates_def shared_root_def shared_env_def cleanup_env_def family_def sample_env_def
        wrap64_def done_at_id)
  have w: "pWorkspacePath q = Some ''/w''" using created_workspace [OF q] r p by simp
  let ?u = "(sample_task InProgress)\<lparr>tID := ''t2'', tWorkspacePath := Some ''/w''\<rparr>"
  have k: "keyed tID (dbTasks (flow_db shared_root))" "GetTask (flow_db shared_root) ''t2'' = Some ?u"
    by (simp_all add: shared_root_def family_def done_at_id GetTask_def)
  have u: "\<not> IsTerminalState (tState ?u)" "tState ?u = InProgress"
    by (simp_all add: IsTerminalState_def terminalStates_def sample_task_def)
  obtain c a where c: "cleanupWorkspaces shared_env shared_root = (c, a)" by fastforce
  have e: "aRemove shared_env ''/w'' = None" by (simp add: shared_env_def cleanup_env_def)
  from cleanup_removes_the_shared_root [OF q r p _ e l _ k u(1) _ c] w c u(2) show ?thesis by (auto simp: done_at_id)
qed

end
