(* ===== verification/Spec2Isabelle.thy ===== *)
theory Spec2Isabelle
  imports Initiative_Writing Objective_Promises Executor_Repairs Executor_Scaffold Task_Listing Runtime_Worker Capability_Broker Api_Auth Telegram_Queue Objective_Cycle Bridge_Records Task_Requests Task_Trees
begin

text \<open>
  Verification development of the task orchestrator and its neighbours
  (\<^verbatim>\<open>src/internal/orchestratorgo\<close>, \<^verbatim>\<open>src/internal/secretary\<close>).

  \<^bold>\<open>The program.\<close> A task is created over HTTP, planned, queued in Redis, claimed by a runtime worker or
  by a local bridge, executed, possibly parked until an operator approves it, and settled. The rows live
  in PostgreSQL, every change of state goes through a table of valid transitions and is logged. An
  initiative groups tasks: it walks through a requirements, a design and a plan phase, each generated,
  reviewed and approved, and then launches the tasks of its plan. Agents use capabilities (search,
  files, shell, git, docker) that a broker grants according to a catalogue, the role of the agent and
  the policy of the project. The secretary receives Telegram updates through a durable queue of files.

  \<^bold>\<open>Theories.\<close>
  \<^item> \<^verbatim>\<open>Lab_Prelude\<close>: Go values, errors as sums, strings as bytes with \<^verbatim>\<open>strings.TrimSpace\<close>, paths,
    tables as lists of rows, stable sorting, and their lemmas.
  \<^item> \<^verbatim>\<open>Task_Domain\<close> (\<^verbatim>\<open>domain/types.go\<close>): states, the transition table, tasks, approvals.
  \<^item> \<^verbatim>\<open>Task_Store\<close> (\<^verbatim>\<open>store/postgres.go\<close>, task part of \<^verbatim>\<open>store/initiatives.go\<close>): each store operation is
    a transaction, a function from the tables to an error or new tables.
  \<^item> \<^verbatim>\<open>Task_Lifecycle\<close>: the operations that go through the transition table, and the audit they keep. The locale
    \<open>lifecycle_op\<close> states what an operation that changes a state does and is interpreted on each of
    them. The operations that bypass the table (recovery, launches) are shown to break that audit.
  \<^item> \<^verbatim>\<open>Task_History\<close>: every operation of the store that writes a task as one step relation, with recovery,
    launches, claims and expired leases. The log of a task explains its state up to the returns to the queue that
    leave no row, which the retry count of the task counts; completed tasks stay, failed and cancelled ones stay
    unless they are launched again.
  \<^item> \<^verbatim>\<open>Local_Bridge\<close>: bridges, claims and leases; leases are respected, and the window between a claim and
    its lease is shown.
  \<^item> \<^verbatim>\<open>Task_Listing\<close>: filters and cursors; following the cursors lists every task once.
  \<^item> \<^verbatim>\<open>Task_Queue\<close> (\<^verbatim>\<open>store/redis.go\<close>): sorted sets with float scores, the worker registry; the locale
    \<open>min_queue\<close> is the contract of the sorted set.
  \<^item> \<^verbatim>\<open>Initiative_Store\<close> (\<^verbatim>\<open>store/initiatives.go\<close>, \<^verbatim>\<open>initiative/contracts.go\<close>): initiatives, reviews,
    links, the derived status, plan validation, execution policy.
  \<^item> \<^verbatim>\<open>Initiative_Flow\<close> (\<^verbatim>\<open>httpapi/initiatives.go\<close>): the handlers of the workflow as functions on one
    state (tables, queue, answer); in every reachable state the status belongs to the phase. The locale
    \<open>initiative_handler\<close> holds what every handler keeps.
  \<^item> \<^verbatim>\<open>Runtime_Worker\<close> (\<^verbatim>\<open>worker/worker.go\<close>): claim, execution, settlement, planner subtasks,
    recovery at startup. Every run of any number of workers refines the store (locale \<open>lifecycle_client\<close> for a call of a worker, the steps of \<^verbatim>\<open>Task_History\<close> without a launch).
  \<^item> \<^verbatim>\<open>Capability_Store\<close>, \<^verbatim>\<open>Capability_Broker\<close> (\<^verbatim>\<open>capabilitybroker/broker.go\<close>, \<^verbatim>\<open>store/capabilities.go\<close>):
    the registry behind an interface (locale \<open>capability_registry\<close>, interpreted on the tables), the
    default catalogue, and the broker, whose answers are characterised by the rules alone.
  \<^item> \<^verbatim>\<open>Api_Auth\<close> (\<^verbatim>\<open>httpapi/middleware.go\<close>): keys, scopes and the failure tracker (locale
    \<open>api_key_store\<close>).
  \<^item> \<^verbatim>\<open>Telegram_Queue\<close> (\<^verbatim>\<open>secretary/telegram_webhook.go\<close>): the queue of update files with failing calls
    and crashes as steps (locale \<open>update_queue\<close>).

  \<^item> \<^verbatim>\<open>Go_Text\<close>: decimal numbers, ASCII case folding and the base name of a path.
  \<^item> \<^verbatim>\<open>Objective_Plan\<close> (\<^verbatim>\<open>domain/objectives.go\<close>, the pure functions of \<^verbatim>\<open>httpapi/objectives.go\<close>): the execution
    contract with its JSON form, the readers of task metadata, and the items of a repair cycle.
  \<^item> \<^verbatim>\<open>Objective_Loop\<close> (\<^verbatim>\<open>httpapi/objectives.go\<close>): work items become tasks, ready tasks are queued, an exhausted time
    budget, the superseding of an iteration, the repair cycle.
  \<^item> \<^verbatim>\<open>Objective_Ready\<close>, \<^verbatim>\<open>Objective_Repair\<close>, \<^verbatim>\<open>Objective_Cycle\<close>: exactly the ready tasks are queued;
    superseding is reachability along the dependencies; a repair cycle keeps its initiative running, is a
    pipeline that ends in the review, and iterations run out; contracts survive their storage.
  \<^item> \<^verbatim>\<open>Bridge_Result\<close>, \<^verbatim>\<open>Bridge_Api\<close> (\<^verbatim>\<open>httpapi/bridges.go\<close>): the artifacts kept of a bridge result and the
    bridge endpoints; \<^verbatim>\<open>Bridge_Facts\<close> and \<^verbatim>\<open>Bridge_Settling\<close> show that an accepted result settles its task as it
    asks while the objective is driven on, what a late result leaves behind, and that a stop for time is undone
    by the same request; \<^verbatim>\<open>Artifact_Table\<close> and \<^verbatim>\<open>Bridge_Records\<close> show that invocations and artifacts refer to each other in the one
    table that also takes the status snapshots, and that a text cut inside a UTF-8 character is refused by the database.
  \<^item> \<^verbatim>\<open>Task_Api\<close> (\<^verbatim>\<open>httpapi/handlers.go\<close>): the endpoints for tasks, approvals, trees, safe mode and workspaces;
    \<^verbatim>\<open>Task_Requests\<close> shows that a created task is queued on both sides or cancelled and that the capacity of
    the queues is respected, and the ways around the idempotency key and the approval; \<^verbatim>\<open>Task_Trees\<close>
    characterises the tree of a task and shows what a cleanup may remove.

  \<^item> \<^verbatim>\<open>Go_Paths\<close>: cleaning, joining and relating paths, and the decoding of UTF-8.
  \<^item> \<^verbatim>\<open>Retrieval\<close> (\<^verbatim>\<open>memory/retrieval.go\<close>): precedents are ranked and selected; the selection is the best one
    within its limits.
  \<^item> \<^verbatim>\<open>Workspace_Disk\<close>: the machine of a local bridge, a disk with directories, files and links and the list of the
    started commands. \<^verbatim>\<open>Executor_Review\<close>, \<^verbatim>\<open>Executor_Scope\<close>, \<^verbatim>\<open>Executor_Brief\<close>, \<^verbatim>\<open>Executor\<close>,
    \<^verbatim>\<open>Executor_Tools\<close> (\<^verbatim>\<open>bridge/executor.go\<close>, \<^verbatim>\<open>bridge/scaffold_project.go\<close>): every tool a claim can name, as a function
    on that machine, and the dispatch with capabilities and approval. \<^verbatim>\<open>Scaffold_Files\<close>: the templates of the scaffolds, text by text.
  \<^item> \<^verbatim>\<open>Executor_Safety\<close>, \<^verbatim>\<open>Executor_Guarantees\<close>, \<^verbatim>\<open>Executor_Contract\<close>, \<^verbatim>\<open>Executor_Claims\<close>: paths stay below the
    workspace, which files a tool may change and which commands it may start, what an approval holds back, and
    the review that runs any command; \<^verbatim>\<open>Executor_Repairs\<close>: what a review
    tells the next repair, and the link that leads out; \<^verbatim>\<open>Executor_Scaffold\<close>: a scaffold delivers the files of
    its type. The queries of git that complete a result are taken to change nothing outside directories named
    \<^verbatim>\<open>.git\<close> (\<open>git_reads\<close>): \<^verbatim>\<open>git status\<close> and \<^verbatim>\<open>git diff\<close> may refresh the index there. What a property says of the disk excepts these directories.

  \<^item> \<^verbatim>\<open>Repo_Profile\<close>, \<^verbatim>\<open>Initiative_Service\<close> (\<^verbatim>\<open>initiative/service.go\<close>): the profile of a repository, the benchmark block
    of a goal, and the service that writes the phases of an initiative, by a model or by its fallbacks.
    \<^verbatim>\<open>Initiative_Writing\<close>: whatever the model answers, a generated phase meets the contract that its approval checks,
    except that a goal of nothing but a benchmark block gets stuck (locale \<open>phase_writer\<close>).
  \<^item> \<^verbatim>\<open>Objective_Scope\<close>, \<^verbatim>\<open>Objective_Contract\<close> (\<^verbatim>\<open>initiative/objectives.go\<close>): the ranking of the files an objective may
    concern, and the contract with its work items. \<^verbatim>\<open>Objective_Generation\<close>: the items form a pipeline, the scope
    is a ranking of all the evidence. \<^verbatim>\<open>Objective_Promises\<close>: generated contracts against the bridge that executes
    them (validation commands, bootstraps of workspaces that are not empty).

  \<^bold>\<open>Correspondence.\<close> Definitions keep the names of the Go functions. An operation returns an error as
  the left part of a sum. Identifiers, clocks, the hash of a token, the rounding of floats, the decimal
  and quoted forms of the formatting library, the answer of a language model, the decoder of JSON, the result of a research query and the outcome of a
  run are arguments. A sequence of concurrent requests is a sequence of steps; operations that are several
  transactions in the code are several steps here, which is what the race properties rest on.

  \<^bold>\<open>Bounds.\<close> Durations are wrapped to 64 bits (\<^verbatim>\<open>wrap64\<close>). Identifiers of updates are positive
  64-bit integers, for which twenty decimal digits suffice. The walk over the pages of a listing has
  fuel; as many steps as there are tasks, plus one, are proved enough. The rounds of the queue worker are as many as
  updates wait. The marking loop of the objectives ends since each further pass marks a work item. All other recursions end by their structure or by a measure.

  \<^bold>\<open>Not modelled.\<close> HTTP decoding and JSON views; subprocesses, file access and HTTP clients of the
  capability backends; the HTTP client of the bridge, and what the commands that its executor starts do; the planner service and the research service behind their
  results, the drivers of autonomous runs; the codex gateway, the
  telemetry proxy, the terminal interface, configuration and process start; connection errors of the
  databases, except where an interface returns them.
\<close>

end
